(* ===== verification/Prelude.thy ===== *)
theory Prelude
  imports Complex_Main "HOL-Library.Product_Lexorder" "HOL-Library.List_Lexorder"
    "HOL-Library.Char_ord" "HOL-Library.Multiset"
begin

text \<open>
  Shared vocabulary of the development: fallible computations, Python's \<open>min\<close>/\<open>max\<close> with a
  key, the string operations the sources use, and Python's rendering of integers and strings.
  A Python \<open>str\<close> is an Isabelle \<open>string\<close> whose characters are the code points 0 to 255.
\<close>

named_theorems result_simps \<open>unfolding the result monad\<close>

section \<open>Fallible computations\<close>

text \<open>A call that may raise is \<open>Inl\<close> of the exception or \<open>Inr\<close> of the returned value.\<close>

definition bindE :: "'e + 'a \<Rightarrow> ('a \<Rightarrow> 'e + 'b) \<Rightarrow> 'e + 'b" where
  "bindE m f = (case m of Inl e \<Rightarrow> Inl e | Inr x \<Rightarrow> f x)"

definition guardE :: "bool \<Rightarrow> 'e \<Rightarrow> 'e + unit" where
  "guardE ok e = (if ok then Inr () else Inl e)"

text \<open>Statements executed one after the other: the first exception ends the sequence.\<close>

fun checks :: "('e + unit) list \<Rightarrow> 'e + unit" where
  "checks [] = Inr ()"
| "checks (c # cs) = (case c of Inl e \<Rightarrow> Inl e | Inr _ \<Rightarrow> checks cs)"

lemma bindE_simps [simp, result_simps]:
  "bindE (Inl e) f = Inl e"
  "bindE (Inr x) f = f x"
  by (simp_all add: bindE_def)

lemma bindE_Inr_iff [result_simps]: "bindE m f = Inr y \<longleftrightarrow> (\<exists>x. m = Inr x \<and> f x = Inr y)"
  by (cases m) auto

lemma bindE_Inl_iff [result_simps]:
  "bindE m f = Inl e \<longleftrightarrow> m = Inl e \<or> (\<exists>x. m = Inr x \<and> f x = Inl e)"
  by (cases m) auto

lemma guardE_Inr_iff [simp, result_simps]: "guardE ok e = Inr u \<longleftrightarrow> ok"
  by (simp add: guardE_def)

lemma guardE_Inl_iff [simp, result_simps]: "guardE ok e = Inl e' \<longleftrightarrow> \<not> ok \<and> e' = e"
  by (auto simp: guardE_def)

lemma checks_Inr_iff [result_simps]: "checks cs = Inr u \<longleftrightarrow> (\<forall>c \<in> set cs. c = Inr ())"
  by (induction cs) (auto split: sum.splits)

lemma checks_Inl_in: "checks cs = Inl e \<Longrightarrow> Inl e \<in> set cs"
  by (induction cs) (auto split: sum.splits)

lemma checks_Inl_iff [result_simps]:
  "checks (c # cs) = Inl e \<longleftrightarrow> c = Inl e \<or> (c = Inr () \<and> checks cs = Inl e)"
  by (cases c) auto

section \<open>Python's min and max with a key\<close>

text \<open>
  \<open>min(xs, key=f)\<close> returns the first element with the least key, \<open>max(xs, key=f)\<close> the first
  with the greatest. Both raise on an empty argument; every caller tests for that before.
\<close>

fun min_by :: "('a \<Rightarrow> 'b::linorder) \<Rightarrow> 'a list \<Rightarrow> 'a" where
  "min_by f [x] = x"
| "min_by f (x # y # zs) = min_by f ((if f y < f x then y else x) # zs)"

fun max_by :: "('a \<Rightarrow> 'b::linorder) \<Rightarrow> 'a list \<Rightarrow> 'a" where
  "max_by f [x] = x"
| "max_by f (x # y # zs) = max_by f ((if f x < f y then y else x) # zs)"

lemma min_by_in: "xs \<noteq> [] \<Longrightarrow> min_by f xs \<in> set xs"
proof (induction f xs rule: min_by.induct)
  case (2 f x y zs)
  then show ?case by (auto split: if_splits)
qed auto

lemma max_by_in: "xs \<noteq> [] \<Longrightarrow> max_by f xs \<in> set xs"
proof (induction f xs rule: max_by.induct)
  case (2 f x y zs)
  then show ?case by (auto split: if_splits)
qed auto

lemma min_by_le: "x \<in> set xs \<Longrightarrow> f (min_by f xs) \<le> f x"
proof (induction f xs arbitrary: x rule: min_by.induct)
  case (2 f a b zs)
  have "f (min_by f ((if f b < f a then b else a) # zs)) \<le> f (if f b < f a then b else a)"
    using "2.IH" by simp
  moreover have "x \<in> set zs \<Longrightarrow> f (min_by f ((if f b < f a then b else a) # zs)) \<le> f x"
    using "2.IH" by simp
  ultimately show ?case
    using "2.prems" by (auto split: if_splits)
qed auto

lemma max_by_ge: "x \<in> set xs \<Longrightarrow> f x \<le> f (max_by f xs)"
proof (induction f xs arbitrary: x rule: max_by.induct)
  case (2 f a b zs)
  have "f (if f a < f b then b else a) \<le> f (max_by f ((if f a < f b then b else a) # zs))"
    using "2.IH" by simp
  moreover have "x \<in> set zs \<Longrightarrow> f x \<le> f (max_by f ((if f a < f b then b else a) # zs))"
    using "2.IH" by simp
  ultimately show ?case
    using "2.prems" by (auto split: if_splits)
qed auto

text \<open>The first hit of a search loop that returns from inside.\<close>

fun first_some :: "('a \<Rightarrow> 'b option) \<Rightarrow> 'a list \<Rightarrow> 'b option" where
  "first_some f [] = None"
| "first_some f (x # xs) = (case f x of None \<Rightarrow> first_some f xs | Some y \<Rightarrow> Some y)"

lemma first_some_Some: "first_some f xs = Some y \<Longrightarrow> \<exists>x \<in> set xs. f x = Some y"
  by (induction xs) (auto split: option.splits)

lemma first_some_None: "first_some f xs = None \<longleftrightarrow> (\<forall>x \<in> set xs. f x = None)"
  by (induction xs) (auto split: option.splits)

section \<open>Strings\<close>

text \<open>\<open>str.isspace\<close> on the code points 0 to 255, \<open>str.strip()\<close> and \<open>str.strip(chars)\<close>.\<close>

definition py_isspace :: "char \<Rightarrow> bool" where
  "py_isspace c = (let n = of_char c :: nat
     in (9 \<le> n \<and> n \<le> 13) \<or> (28 \<le> n \<and> n \<le> 32) \<or> n = 133 \<or> n = 160)"

definition strip_by :: "(char \<Rightarrow> bool) \<Rightarrow> string \<Rightarrow> string" where
  "strip_by P s = rev (dropWhile P (rev (dropWhile P s)))"

definition py_strip :: "string \<Rightarrow> string" where
  "py_strip s = strip_by py_isspace s"

lemma strip_by_id: "s = [] \<or> (\<not> P (hd s) \<and> \<not> P (last s)) \<Longrightarrow> strip_by P s = s"
proof -
  assume s: "s = [] \<or> (\<not> P (hd s) \<and> \<not> P (last s))"
  have id: "dropWhile P xs = xs" if "xs \<noteq> [] \<Longrightarrow> \<not> P (hd xs)" for xs
    using that by (cases xs) auto
  show ?thesis
    using s by (cases "s = []") (simp_all add: strip_by_def id hd_rev)
qed

lemma strip_by_Nil_iff: "strip_by P s = [] \<longleftrightarrow> (\<forall>c \<in> set s. P c)"
proof -
  have "strip_by P s = [] \<longleftrightarrow> (\<forall>c \<in> set (dropWhile P s). P c)"
    by (simp add: strip_by_def)
  also have "\<dots> \<longleftrightarrow> (\<forall>c \<in> set s. P c)"
    by (induction s) auto
  finally show ?thesis .
qed

text \<open>\<open>str(n)\<close> of an integer.\<close>

fun show_nat :: "nat \<Rightarrow> string" where
  "show_nat n = (if n < 10 then [char_of (48 + n)]
     else show_nat (n div 10) @ [char_of (48 + n mod 10)])"

declare show_nat.simps [simp del]

definition show_int :: "int \<Rightarrow> string" where
  "show_int i = (if i < 0 then CHR ''-'' # show_nat (nat (- i)) else show_nat (nat i))"

lemma show_nat_nonempty [simp]: "show_nat n \<noteq> []"
  by (subst show_nat.simps) simp

lemma show_int_nonempty [simp]: "show_int i \<noteq> []"
  by (simp add: show_int_def)

end
