(* ===== verification/Float64.thy ===== *)
theory Float64
  imports Prelude
begin

text \<open>
  Python floats. A finite \<open>float\<close> is the rational it denotes; every arithmetic operation of the
  sources is the exact rational operation followed by \<open>fl64\<close>, IEEE-754 binary64 rounding to
  nearest, ties to even, with gradual underflow. The sources compute with scores between 0 and 2
  and millisecond clocks, far below the overflow threshold, so overflow is not modelled.
  The two laws the matching engine relies on (rounding is monotone and idempotent) are the
  contract \<open>rounding\<close>, interpreted on \<open>fl64\<close>.
\<close>

section \<open>Float values\<close>

text \<open>A Python float as the validators see it: finite, or one of the special values.\<close>

datatype pyfloat = Fin rat | PosInf | NegInf | NaN

section \<open>The rounding contract\<close>

locale rounding =
  fixes rnd :: "rat \<Rightarrow> rat"
  assumes rnd_mono: "x \<le> y \<Longrightarrow> rnd x \<le> rnd y"
    and rnd_idem: "rnd (rnd x) = rnd x"
begin

lemma rnd_less_imp: "rnd x < rnd y \<Longrightarrow> x < y"
  using rnd_mono by (meson leD leI)

text \<open>
  A float comparison \<open>new > old + eps\<close> with a positive \<open>eps\<close>, where both sides are rounded sums,
  implies the comparison of the exact sums.
\<close>

lemma rounded_gain:
  assumes "0 \<le> eps" and "rnd (rnd old + eps) < rnd new"
  shows "old < new"
proof -
  have "rnd old = rnd (rnd old)" by (simp add: rnd_idem)
  also have "\<dots> \<le> rnd (rnd old + eps)" using assms(1) by (intro rnd_mono) simp
  finally have "rnd old < rnd new" using assms(2) by simp
  then show ?thesis by (rule rnd_less_imp)
qed

end

section \<open>Rounding a rational to an integer, ties to even\<close>

definition round_even :: "rat \<Rightarrow> int" where
  "round_even y = (let f = \<lfloor>y\<rfloor>; r = y - of_int f in
     if r < 1/2 then f else if 1/2 < r then f + 1 else if even f then f else f + 1)"

lemma round_even_int [simp]: "round_even (of_int k) = k"
  by (simp add: round_even_def)

lemma round_even_bounds: "\<lfloor>y\<rfloor> \<le> round_even y" "round_even y \<le> \<lfloor>y\<rfloor> + 1"
  by (simp_all add: round_even_def Let_def)

lemma round_even_mono: "x \<le> y \<Longrightarrow> round_even x \<le> round_even y"
proof -
  assume xy: "x \<le> y"
  then have "\<lfloor>x\<rfloor> \<le> \<lfloor>y\<rfloor>" by (rule floor_mono)
  then consider "\<lfloor>x\<rfloor> = \<lfloor>y\<rfloor>" | "\<lfloor>x\<rfloor> + 1 \<le> \<lfloor>y\<rfloor>" by linarith
  then show ?thesis
  proof cases
    case 1
    with xy show ?thesis by (auto simp: round_even_def Let_def)
  next
    case 2
    then show ?thesis using round_even_bounds[of x] round_even_bounds[of y] by linarith
  qed
qed

section \<open>The binary exponent\<close>

fun ilog2 :: "nat \<Rightarrow> nat" where
  "ilog2 n = (if n < 2 then 0 else Suc (ilog2 (n div 2)))"

declare ilog2.simps [simp del]

lemma ilog2_bounds: "0 < n \<Longrightarrow> 2 ^ ilog2 n \<le> n \<and> n < 2 * 2 ^ ilog2 n"
proof (induction n rule: ilog2.induct)
  case (1 n)
  show ?case
  proof (cases "n < 2")
    case True
    with "1.prems" show ?thesis by (simp add: ilog2.simps)
  next
    case False
    then have "2 ^ ilog2 (n div 2) \<le> n div 2 \<and> n div 2 < 2 * 2 ^ ilog2 (n div 2)"
      using "1.IH" by simp
    with False show ?thesis by (subst (1 2) ilog2.simps) auto
  qed
qed

text \<open>For a positive rational, the integer \<open>e\<close> with \<open>2 ^ e \<le> x < 2 ^ (e + 1)\<close>.\<close>

definition fexp :: "rat \<Rightarrow> int" where
  "fexp x = (let (n, d) = quotient_of x; e = int (ilog2 (nat n)) - int (ilog2 (nat d))
     in if 2 powi e \<le> x then e else e - 1)"

lemma powi_le_iff: "(2::rat) powi a \<le> 2 powi b \<longleftrightarrow> a \<le> b"
  using power_int_strict_increasing[of b a "2::rat"] power_int_increasing[of a b "2::rat"]
  by (cases "a \<le> b") auto

lemma powi_less_iff: "(2::rat) powi a < 2 powi b \<longleftrightarrow> a < b"
  by (simp add: powi_le_iff flip: not_le)

lemma powi_pos [simp]: "0 < (2::rat) powi e"
  by (simp add: zero_less_power_int)

lemma powi_add1: "(2::rat) powi (e + 1) = 2 * 2 powi e"
  by (simp add: power_int_add)

lemma fexp_bounds:
  assumes "0 < x"
  shows "2 powi fexp x \<le> x \<and> x < 2 powi (fexp x + 1)"
proof -
  obtain n d where q: "quotient_of x = (n, d)" by fastforce
  from q have d: "0 < d" by (rule quotient_of_denom_pos)
  from q have x: "x = of_int n / of_int d" by (rule quotient_of_div)
  with assms d have n: "0 < n" by (simp add: zero_less_divide_iff)
  define a where "a = ilog2 (nat n)"
  define b where "b = ilog2 (nat d)"
  define e where "e = int a - int b"
  have na: "(2::rat) ^ a \<le> of_int n" "of_int n < 2 * (2::rat) ^ a"
    using ilog2_bounds[of "nat n"] n by (simp_all add: a_def flip: of_nat_le_iff[where 'a=rat] of_nat_less_iff[where 'a=rat])
  have db: "(2::rat) ^ b \<le> of_int d" "of_int d < 2 * (2::rat) ^ b"
    using ilog2_bounds[of "nat d"] d by (simp_all add: b_def flip: of_nat_le_iff[where 'a=rat] of_nat_less_iff[where 'a=rat])
  have e: "(2::rat) powi e = 2 ^ a / 2 ^ b"
    by (simp add: e_def power_int_diff)
  have up: "x < 2 powi (e + 1)"
  proof -
    have "of_int n * (2::rat) ^ b < (2 * 2 ^ a) * of_int d"
      using na db d n by (intro mult_less_le_imp_less) auto
    then show ?thesis using d unfolding x powi_add1 e by (simp add: field_simps)
  qed
  have lo: "2 powi (e - 1) \<le> x"
  proof -
    have "(2::rat) ^ a * of_int d \<le> of_int n * (2 * 2 ^ b)"
      using na db d n by (intro mult_mono) auto
    then show ?thesis using d by (simp add: x power_int_diff e field_simps)
  qed
  show ?thesis
    using up lo by (auto simp: fexp_def q Let_def a_def[symmetric] b_def[symmetric] e_def[symmetric])
qed

lemma fexp_unique:
  assumes "2 powi e \<le> x" "x < 2 powi (e + 1)"
  shows "fexp x = e"
proof -
  have "0 < x" using assms(1) powi_pos[of e] by linarith
  then have b: "2 powi fexp x \<le> x" "x < 2 powi (fexp x + 1)" using fexp_bounds by auto
  from assms b have "2 powi e < (2::rat) powi (fexp x + 1)" "2 powi fexp x < (2::rat) powi (e + 1)"
    by linarith+
  then show ?thesis by (simp add: powi_less_iff)
qed

lemma fexp_mono: "0 < x \<Longrightarrow> x \<le> y \<Longrightarrow> fexp x \<le> fexp y"
proof -
  assume "0 < x" "x \<le> y"
  then have "2 powi fexp x \<le> x" "y < 2 powi (fexp y + 1)"
    using fexp_bounds by auto
  with \<open>x \<le> y\<close> have "(2::rat) powi fexp x < 2 powi (fexp y + 1)" by linarith
  then show ?thesis by (simp add: powi_less_iff)
qed

section \<open>binary64 rounding\<close>

text \<open>The unit in the last place: 53 significant bits, at least the smallest subnormal.\<close>

definition ulp_exp :: "rat \<Rightarrow> int" where
  "ulp_exp x = max (fexp x - 52) (- 1074)"

definition flpos :: "rat \<Rightarrow> rat" where
  "flpos x = 2 powi ulp_exp x * of_int (round_even (x / 2 powi ulp_exp x))"

definition fl64 :: "rat \<Rightarrow> rat" where
  "fl64 x = (if x = 0 then 0 else if 0 < x then flpos x else - flpos (- x))"

lemma scaled_round_le: "x \<le> u * of_int k \<Longrightarrow> 0 < u \<Longrightarrow> u * of_int (round_even (x / u)) \<le> u * of_int k"
proof -
  assume "x \<le> u * of_int k" "0 < u"
  then have "x / u \<le> of_int k" by (simp add: pos_divide_le_eq mult.commute)
  then have "round_even (x / u) \<le> k" using round_even_mono by fastforce
  with \<open>0 < u\<close> show ?thesis by simp
qed

lemma scaled_round_ge: "u * of_int k \<le> x \<Longrightarrow> 0 < u \<Longrightarrow> u * of_int k \<le> u * of_int (round_even (x / u))"
proof -
  assume "u * of_int k \<le> x" "0 < u"
  then have "of_int k \<le> x / u" by (simp add: pos_le_divide_eq mult.commute)
  then have "k \<le> round_even (x / u)" using round_even_mono by fastforce
  with \<open>0 < u\<close> show ?thesis by simp
qed

text \<open>A power of two above a unit is an integer multiple of it.\<close>

lemma powi_multiple: "a \<le> b \<Longrightarrow> \<exists>k::int. (2::rat) powi b = 2 powi a * of_int k"
proof -
  assume "a \<le> b"
  then have "(2::rat) powi b = 2 powi a * 2 powi (b - a)" by (simp flip: power_int_add)
  also have "(2::rat) powi (b - a) = of_int (2 ^ nat (b - a))"
    using \<open>a \<le> b\<close> by (simp add: power_int_def)
  finally show ?thesis by blast
qed

lemma flpos_le_powi: "x \<le> 2 powi b \<Longrightarrow> ulp_exp x \<le> b \<Longrightarrow> flpos x \<le> 2 powi b"
  using powi_multiple[of "ulp_exp x" b] scaled_round_le[of x "2 powi ulp_exp x"]
  by (auto simp: flpos_def)

lemma flpos_ge_powi: "2 powi b \<le> x \<Longrightarrow> ulp_exp x \<le> b \<Longrightarrow> 2 powi b \<le> flpos x"
  using powi_multiple[of "ulp_exp x" b] scaled_round_ge[of "2 powi ulp_exp x" _ x]
  by (auto simp: flpos_def)

lemma flpos_nonneg: "0 < x \<Longrightarrow> 0 \<le> flpos x"
  using scaled_round_ge[of "2 powi ulp_exp x" 0 x] by (simp add: flpos_def)

lemma flpos_mono:
  assumes "0 < x" "x \<le> y"
  shows "flpos x \<le> flpos y"
proof (cases "ulp_exp x = ulp_exp y")
  case True
  have "x / 2 powi ulp_exp y \<le> y / 2 powi ulp_exp y"
    using assms by (simp add: divide_right_mono less_imp_le)
  with True show ?thesis by (simp add: flpos_def round_even_mono)
next
  case False
  then have lt: "ulp_exp x < ulp_exp y" "fexp x < fexp y" "ulp_exp y = fexp y - 52"
    using fexp_mono[OF assms] by (auto simp: ulp_exp_def)
  have "x < 2 powi (fexp x + 1)" "2 powi fexp y \<le> y"
    using fexp_bounds assms by auto
  moreover have "(2::rat) powi (fexp x + 1) \<le> 2 powi fexp y" using lt(2) by (simp add: powi_le_iff)
  ultimately have "x \<le> 2 powi fexp y" "2 powi fexp y \<le> y" by linarith+
  then have "flpos x \<le> 2 powi fexp y" "2 powi fexp y \<le> flpos y"
    using lt by (auto intro!: flpos_le_powi flpos_ge_powi)
  then show ?thesis by linarith
qed

lemma flpos_multiple: "0 < x \<Longrightarrow> x = 2 powi ulp_exp x * of_int k \<Longrightarrow> flpos x = x"
  by (metis flpos_def less_irrefl nonzero_mult_div_cancel_left powi_pos round_even_int)

lemma flpos_idem:
  assumes "0 < x" "0 < flpos x"
  shows "flpos (flpos x) = flpos x"
proof -
  define z where "z = flpos x"
  define m where "m = round_even (x / 2 powi ulp_exp x)"
  have z: "z = 2 powi ulp_exp x * of_int m" by (simp add: z_def m_def flpos_def)
  have zpos: "0 < z" using assms by (simp add: z_def)
  have "\<exists>k::int. z = 2 powi ulp_exp z * of_int k"
  proof (cases "ulp_exp z \<le> ulp_exp x")
    case True
    then obtain k :: int where "(2::rat) powi ulp_exp x = 2 powi ulp_exp z * of_int k"
      using powi_multiple by blast
    then have "z = 2 powi ulp_exp z * of_int (k * m)" by (simp add: z)
    then show ?thesis by blast
  next
    case False
    then have ez: "fexp x < fexp z" "ulp_exp z = fexp z - 52" by (auto simp: ulp_exp_def)
    have "x \<le> 2 powi fexp z"
      using fexp_bounds[OF assms(1)] ez(1) powi_le_iff[of "fexp x + 1" "fexp z"] by linarith
    moreover have "ulp_exp x \<le> fexp z" using False ez by linarith
    ultimately have "z \<le> 2 powi fexp z" by (simp add: z_def flpos_le_powi)
    with fexp_bounds[OF zpos] have "z = 2 powi fexp z" by linarith
    moreover obtain k :: int where "(2::rat) powi fexp z = 2 powi ulp_exp z * of_int k"
      using powi_multiple[of "ulp_exp z" "fexp z"] ez(2) by auto
    ultimately show ?thesis by metis
  qed
  then show ?thesis using flpos_multiple[OF zpos] by (auto simp: z_def)
qed

lemma fl64_mono: "x \<le> y \<Longrightarrow> fl64 x \<le> fl64 y"
  using flpos_mono[of x y] flpos_mono[of "- y" "- x"] flpos_nonneg[of y] flpos_nonneg[of "- x"]
  by (auto simp: fl64_def)

lemma fl64_idem: "fl64 (fl64 x) = fl64 x"
proof -
  have pos: "fl64 (flpos y) = flpos y" if "0 < y" for y
    using flpos_idem[OF that] flpos_nonneg[OF that] by (auto simp: fl64_def)
  have neg: "fl64 (- w) = - fl64 w" for w by (auto simp: fl64_def)
  show ?thesis
    using pos[of x] pos[of "- x"] neg[of "flpos (- x)"] by (auto simp: fl64_def)
qed

interpretation fl64: rounding fl64
  by unfold_locales (auto simp: fl64_mono fl64_idem)

lemma fl64_0 [simp]: "fl64 0 = 0"
  by (simp add: fl64_def)

lemma fl64_powi: "- 1074 \<le> b \<Longrightarrow> fl64 (2 powi b) = 2 powi b"
proof -
  assume b: "- 1074 \<le> b"
  have "fexp (2 powi b) = b" by (rule fexp_unique) (simp_all add: powi_less_iff)
  then have "ulp_exp (2 powi b) \<le> b" using b by (simp add: ulp_exp_def)
  then have "flpos (2 powi b) = 2 powi b"
    by (intro antisym flpos_le_powi flpos_ge_powi) simp_all
  then show ?thesis using powi_pos[of b] by (simp add: fl64_def)
qed

lemma fl64_1 [simp]: "fl64 1 = 1"
  using fl64_powi[of 0] by simp

lemma fl64_nonneg: "0 \<le> x \<Longrightarrow> 0 \<le> fl64 x"
  using fl64_mono[of 0 x] by simp

lemma fl64_le_1: "x \<le> 1 \<Longrightarrow> fl64 x \<le> 1"
  using fl64_mono[of x 1] by simp

section \<open>Rounding errors\<close>

lemma round_even_error: "\<bar>of_int (round_even y) - y\<bar> \<le> 1/2"
  using floor_correct[of y] by (simp add: round_even_def Let_def abs_le_iff)

lemma round_even_nearest:
  assumes "\<bar>y - of_int j\<bar> < 1/2"
  shows "round_even y = j"
proof -
  have "\<bar>of_int (round_even y) - (of_int j :: rat)\<bar> < 1" using round_even_error[of y] assms by linarith
  then have "\<bar>round_even y - j\<bar> < 1" by (metis of_int_1 of_int_abs of_int_diff of_int_less_iff)
  then show ?thesis by simp
qed

lemma fl64_binade:
  assumes "2 powi e \<le> x" "x < 2 powi (e + 1)" "- 1022 \<le> e"
  shows "fl64 x = 2 powi (e - 52) * of_int (round_even (x / 2 powi (e - 52)))"
proof -
  have "0 < x" using assms(1) powi_pos[of e] by linarith
  moreover have "ulp_exp x = e - 52" using fexp_unique[OF assms(1,2)] assms(3) by (simp add: ulp_exp_def)
  ultimately show ?thesis by (simp add: fl64_def flpos_def)
qed

lemma fl64_binade_error:
  assumes "2 powi e \<le> x" "x < 2 powi (e + 1)" "- 1022 \<le> e"
  shows "\<bar>fl64 x - x\<bar> \<le> 2 powi (e - 52) / 2"
proof -
  let ?u = "(2::rat) powi (e - 52)"
  have "fl64 x - x = ?u * (of_int (round_even (x / ?u)) - x / ?u)"
    unfolding fl64_binade[OF assms] by (simp add: right_diff_distrib)
  then have "\<bar>fl64 x - x\<bar> = ?u * \<bar>of_int (round_even (x / ?u)) - x / ?u\<bar>" by (simp add: abs_mult)
  also have "\<dots> \<le> ?u * (1/2)" by (intro mult_left_mono round_even_error) simp
  finally show ?thesis by simp
qed

lemma fl64_error_16:
  assumes "0 \<le> x" "x < 16"
  shows "\<bar>fl64 x - x\<bar> \<le> 1 / 2 ^ 50"
proof (cases "x = 0")
  case False
  then have pos: "0 < x" using assms(1) by simp
  let ?u = "(2::rat) powi ulp_exp x"
  have "2 powi fexp x \<le> x" using fexp_bounds[OF pos] by simp
  moreover have "(16::rat) = 2 powi 4" by (simp add: power_int_def)
  ultimately have "2 powi fexp x < (2::rat) powi 4" using assms(2) by linarith
  then have "fexp x < 4" unfolding powi_less_iff .
  then have "ulp_exp x \<le> - 49" by (simp add: ulp_exp_def)
  then have u: "?u \<le> 2 powi (- 49)" by (simp only: powi_le_iff)
  have "fl64 x - x = ?u * (of_int (round_even (x / ?u)) - x / ?u)"
    using pos by (simp add: fl64_def flpos_def right_diff_distrib)
  then have "\<bar>fl64 x - x\<bar> = ?u * \<bar>of_int (round_even (x / ?u)) - x / ?u\<bar>" by (simp add: abs_mult)
  also have "\<dots> \<le> ?u * (1/2)" by (intro mult_left_mono round_even_error) simp
  also have "\<dots> \<le> 2 powi (- 49) * (1/2)" using u by simp
  also have "\<dots> = 1 / 2 ^ 50" by (simp add: power_int_def power_divide)
  finally show ?thesis .
qed simp

end
