(* ===== verification/Scoring.thy ===== *)
theory Scoring
  imports Float64
begin

text \<open>
  The scoring function of \<open>apps/events/scoring.py\<close>: a participant profile is a set of tag
  identifiers, the score of two profiles is the weighted Jaccard similarity, clamped to \<open>[0, 1]\<close>.
\<close>

section \<open>Profiles and weights\<close>

record participant_profile =
  tag_ids :: "string set"

record scoring_weights =
  tag_weight :: rat

text \<open>The \<open>ValueError\<close>s of \<open>ScoringWeights.__post_init__\<close>.\<close>

datatype weight_error = WeightNotFinite pyfloat | WeightNegative pyfloat

definition make_scoring_weights :: "pyfloat \<Rightarrow> weight_error + scoring_weights" where
  "make_scoring_weights w =
     (case w of
        Fin r \<Rightarrow> if r < 0 then Inl (WeightNegative w) else Inr \<lparr>tag_weight = r\<rparr>
      | _ \<Rightarrow> Inl (WeightNotFinite w))"

definition compute_match_score ::
    "participant_profile \<Rightarrow> participant_profile \<Rightarrow> scoring_weights \<Rightarrow> rat" where
  "compute_match_score profile_a profile_b weights =
     (let union = tag_ids profile_a \<union> tag_ids profile_b in
      if union = {} then 0
      else
        let intersection = tag_ids profile_a \<inter> tag_ids profile_b;
            jaccard = fl64 (of_nat (card intersection) / of_nat (card union));
            raw = fl64 (tag_weight weights * jaccard)
        in min 1 (max 0 raw))"

section \<open>Facts about the score\<close>

lemma compute_match_score_range:
  "0 \<le> compute_match_score a b w" "compute_match_score a b w \<le> 1"
  by (simp_all add: compute_match_score_def Let_def)

lemma compute_match_score_sym: "compute_match_score a b w = compute_match_score b a w"
  by (simp add: compute_match_score_def Un_commute Int_commute)

lemma make_scoring_weights_nonneg: "make_scoring_weights f = Inr w \<Longrightarrow> 0 \<le> tag_weight w"
  by (auto simp: make_scoring_weights_def split: pyfloat.splits if_splits)

lemma compute_match_score_disjoint:
  "tag_ids a \<inter> tag_ids b = {} \<Longrightarrow> compute_match_score a b w = 0"
  by (simp add: compute_match_score_def Let_def)

lemma compute_match_score_same:
  assumes "tag_ids a = tag_ids b" "finite (tag_ids b)" "tag_ids b \<noteq> {}" "tag_weight w = 1"
  shows "compute_match_score a b w = 1"
  using assms by (simp add: compute_match_score_def)

text \<open>A larger weight never lowers a score: rounding is monotone.\<close>

lemma compute_match_score_mono:
  assumes "tag_weight w \<le> tag_weight w'"
  shows "compute_match_score a b w \<le> compute_match_score a b w'"
proof -
  let ?j = "fl64 (of_nat (card (tag_ids a \<inter> tag_ids b)) / of_nat (card (tag_ids a \<union> tag_ids b)))"
  have "0 \<le> ?j" by (intro fl64_nonneg) simp
  then have "fl64 (tag_weight w * ?j) \<le> fl64 (tag_weight w' * ?j)"
    using assms by (intro fl64_mono mult_right_mono)
  then show ?thesis
    by (auto simp: compute_match_score_def Let_def intro!: min.mono max.mono)
qed

end
