(* ===== verification/Uuid_Text.thy ===== *)
theory Uuid_Text
  imports Prelude
begin

text \<open>
  The part of Python's standard library that turns text into numbers and identifiers:
  \<open>int(s)\<close> and \<open>int(s, 16)\<close>, \<open>str.replace(p, '')\<close>, \<open>uuid.UUID(s)\<close> and \<open>str(uuid)\<close>. The sources
  call them in \<open>matching.py\<close> (participant ids), \<open>scheduling.py\<close> and \<open>call_room_logic.py\<close>.
  A failed conversion, \<open>ValueError\<close> in Python, is \<open>None\<close>.
\<close>

section \<open>Removing a substring\<close>

text \<open>\<open>s.replace(p, '')\<close> with a non-empty \<open>p\<close>.\<close>

fun py_remove :: "string \<Rightarrow> string \<Rightarrow> string" where
  "py_remove p [] = []"
| "py_remove p (c # cs) =
     (if p \<noteq> [] \<and> take (length p) (c # cs) = p
      then py_remove p (drop (length p - 1) cs)
      else c # py_remove p cs)"

lemma py_remove_id: "p \<noteq> [] \<Longrightarrow> hd p \<notin> set s \<Longrightarrow> py_remove p s = s"
  by (induction p s rule: py_remove.induct) (auto simp: neq_Nil_conv)

lemma py_remove_char: "py_remove [x] s = filter (\<lambda>c. c \<noteq> x) s"
  by (induction "[x]" s rule: py_remove.induct) auto

section \<open>Integers from text\<close>

definition digit_val :: "nat \<Rightarrow> char \<Rightarrow> nat option" where
  "digit_val b c = (let n = of_char c :: nat;
      v = (if 48 \<le> n \<and> n \<le> 57 then n - 48
           else if 97 \<le> n \<and> n \<le> 122 then n - 87
           else if 65 \<le> n \<and> n \<le> 90 then n - 55 else b)
    in if v < b then Some v else None)"

text \<open>
  Digits with single underscores between them; the flag says that an underscore (or the start of
  the text) has just been read, so that another underscore or the end is an error.
\<close>

fun digits_val :: "nat \<Rightarrow> nat \<Rightarrow> bool \<Rightarrow> string \<Rightarrow> nat option" where
  "digits_val b acc pending [] = (if pending then None else Some acc)"
| "digits_val b acc pending (c # cs) =
     (if c = CHR ''_'' then (if pending then None else digits_val b acc True cs)
      else case digit_val b c of
          None \<Rightarrow> None
        | Some d \<Rightarrow> digits_val b (b * acc + d) False cs)"

definition parse_int :: "nat \<Rightarrow> string \<Rightarrow> int option" where
  "parse_int b s =
     (let t = py_strip s;
          neg = (take 1 t = ''-'');
          u = (if take 1 t = ''-'' \<or> take 1 t = ''+'' then drop 1 t else t);
          v = (if b = 16 \<and> (take 2 u = ''0x'' \<or> take 2 u = ''0X'')
               then (if take 1 (drop 2 u) = ''_'' then drop 3 u else drop 2 u) else u)
      in map_option (\<lambda>n. if neg then - int n else int n) (digits_val b 0 True v))"

section \<open>UUIDs\<close>

text \<open>\<open>uuid.UUID\<close> objects compare by their integer value.\<close>

datatype uuid = UUID (uuid_int: nat)

instantiation uuid :: linorder
begin

definition less_eq_uuid :: "uuid \<Rightarrow> uuid \<Rightarrow> bool" where
  "less_eq_uuid u v = (uuid_int u \<le> uuid_int v)"

definition less_uuid :: "uuid \<Rightarrow> uuid \<Rightarrow> bool" where
  "less_uuid u v = (uuid_int u < uuid_int v)"

instance
  by standard (auto simp: less_eq_uuid_def less_uuid_def uuid.expand)

end

definition uuid_of_string :: "string \<Rightarrow> uuid option" where
  "uuid_of_string s =
     (let h = py_remove ''uuid:'' (py_remove ''urn:'' s);
          h = py_remove ''-'' (strip_by (\<lambda>c. c = CHR ''{'' \<or> c = CHR ''}'') h)
      in if length h \<noteq> 32 then None
         else case parse_int 16 h of
             None \<Rightarrow> None
           | Some i \<Rightarrow> if 0 \<le> i \<and> i < 2 ^ 128 then Some (UUID (nat i)) else None)"

definition hex_char :: "nat \<Rightarrow> char" where
  "hex_char d = char_of (if d < 10 then 48 + d else 87 + d)"

fun hex_fixed :: "nat \<Rightarrow> nat \<Rightarrow> string" where
  "hex_fixed 0 n = []"
| "hex_fixed (Suc k) n = hex_fixed k (n div 16) @ [hex_char (n mod 16)]"

definition uuid_str :: "uuid \<Rightarrow> string" where
  "uuid_str u = (let h = hex_fixed 32 (uuid_int u) in
     take 8 h @ ''-'' @ take 4 (drop 8 h) @ ''-'' @ take 4 (drop 12 h) @ ''-'' @
     take 4 (drop 16 h) @ ''-'' @ drop 20 h)"

section \<open>Reading back a rendered UUID\<close>

definition lower_hex :: "char \<Rightarrow> bool" where
  "lower_hex c = (let n = of_char c :: nat in (48 \<le> n \<and> n \<le> 57) \<or> (97 \<le> n \<and> n \<le> 102))"

lemma lower_hex_char: "d < 16 \<Longrightarrow> lower_hex (hex_char d)"
  by (simp add: lower_hex_def hex_char_def Let_def)

lemma digit_val_hex_char: "d < 16 \<Longrightarrow> digit_val 16 (hex_char d) = Some d"
  by (simp add: digit_val_def hex_char_def Let_def)

lemma lower_hex_neq:
  "\<not> lower_hex CHR ''-''" "\<not> lower_hex CHR ''_''" "\<not> lower_hex CHR ''u''" "\<not> lower_hex CHR ''+''"
  "\<not> lower_hex CHR ''x''" "\<not> lower_hex CHR ''X''" "\<not> lower_hex CHR ''{''" "\<not> lower_hex CHR ''}''"
  by (simp_all add: lower_hex_def)

lemma lower_hex_not_space: "lower_hex c \<Longrightarrow> \<not> py_isspace c"
  by (auto simp: lower_hex_def py_isspace_def Let_def)

lemma length_hex_fixed [simp]: "length (hex_fixed k n) = k"
  by (induction k arbitrary: n) auto

lemma set_hex_fixed: "c \<in> set (hex_fixed k n) \<Longrightarrow> lower_hex c"
  by (induction k arbitrary: n) (auto simp: lower_hex_char)

lemma digits_val_hex_fixed:
  "\<not> p \<or> 0 < k \<Longrightarrow> digits_val 16 acc p (hex_fixed k n @ s) =
     digits_val 16 (16 ^ k * acc + n mod 16 ^ k) False s"
proof (induction k arbitrary: n s acc p)
  case 0
  then show ?case by simp
next
  case (Suc k)
  have d: "hex_char (n mod 16) \<noteq> CHR ''_''"
    using lower_hex_char[of "n mod 16"] lower_hex_neq(2) by force
  have m: "16 * (n div 16 mod 16 ^ k) + n mod 16 = n mod (16 * 16 ^ k)"
    using mod_mult2_eq[of n 16 "16 ^ k"] by simp
  then have m': "16 * (16 ^ k * acc + n div 16 mod 16 ^ k) + n mod 16
      = 16 * 16 ^ k * acc + n mod (16 * 16 ^ k)"
    by (simp add: distrib_left mult.assoc)
  show ?case
  proof (cases "k = 0")
    case True
    with d show ?thesis by (simp add: digit_val_hex_char add.commute)
  next
    case False
    then have "digits_val 16 acc p (hex_fixed (Suc k) n @ s) =
      digits_val 16 (16 ^ k * acc + n div 16 mod 16 ^ k) False (hex_char (n mod 16) # s)"
      using Suc.IH[of p acc "n div 16" "hex_char (n mod 16) # s"] by simp
    also have "\<dots> = digits_val 16 (16 ^ Suc k * acc + n mod 16 ^ Suc k) False s"
      using d m' by (simp add: digit_val_hex_char del: distrib_left_numeral)
    finally show ?thesis .
  qed
qed

lemma parse_int_hex_fixed:
  assumes "2 \<le> k"
  shows "parse_int 16 (hex_fixed k n) = Some (int (n mod 16 ^ k))"
proof -
  let ?h = "hex_fixed k n"
  have hex: "\<And>c. c \<in> set ?h \<Longrightarrow> lower_hex c" by (rule set_hex_fixed)
  obtain a b r where h: "?h = a # b # r"
    using assms length_hex_fixed[of k n] by (metis Suc_le_length_iff numeral_2_eq_2)
  have ab: "lower_hex a" "lower_hex b" and last: "lower_hex (last ?h)"
    using hex by (auto simp: h)
  have "py_strip ?h = ?h"
    unfolding py_strip_def using ab last lower_hex_not_space h by (intro strip_by_id) auto
  moreover have "a \<noteq> CHR ''-''" "a \<noteq> CHR ''+''" "b \<noteq> CHR ''x''" "b \<noteq> CHR ''X''"
    using ab lower_hex_neq by auto
  moreover have "digits_val 16 0 True (a # b # r) = Some (n mod 16 ^ k)"
    using digits_val_hex_fixed[of True k 0 n "[]"] assms h by simp
  ultimately show ?thesis by (simp add: parse_int_def h Let_def del: digits_val.simps)
qed

lemma py_remove_hyphens: "(\<And>c. c \<in> set s \<Longrightarrow> lower_hex c) \<Longrightarrow> filter (\<lambda>c. c \<noteq> CHR ''-'') s = s"
  using lower_hex_neq(1) by (intro filter_True) auto

text \<open>\<open>uuid.UUID(str(u)) == u\<close> for every 128-bit value.\<close>

theorem uuid_of_string_str:
  assumes "uuid_int u < 2 ^ 128"
  shows "uuid_of_string (uuid_str u) = Some u"
proof -
  define h where "h = hex_fixed 32 (uuid_int u)"
  have hex: "\<And>c. c \<in> set h \<Longrightarrow> lower_hex c" by (simp add: h_def set_hex_fixed)
  have len: "length h = 32" by (simp add: h_def)
  define t where "t = take 8 h @ ''-'' @ take 4 (drop 8 h) @ ''-'' @ take 4 (drop 12 h) @ ''-'' @
     take 4 (drop 16 h) @ ''-'' @ drop 20 h"
  have t: "uuid_str u = t" by (simp add: uuid_str_def h_def t_def Let_def)
  have chars: "lower_hex c \<or> c = CHR ''-''" if "c \<in> set t" for c
    using that hex by (auto simp: t_def dest: in_set_takeD in_set_dropD)
  have u: "CHR ''u'' \<notin> set t" using chars lower_hex_neq(3) by force
  have "last h \<in> set h" using len by (intro last_in_set) auto
  then have ends: "lower_hex (hd t)" "lower_hex (last t)" "t \<noteq> []"
    using hex len by (auto simp: t_def hd_append hd_conv_nth last_append last_drop)
  then have "strip_by (\<lambda>c. c = CHR ''{'' \<or> c = CHR ''}'') t = t"
    using lower_hex_neq by (intro strip_by_id) auto
  moreover have "filter (\<lambda>c. c \<noteq> CHR ''-'') t = h"
  proof -
    have "filter (\<lambda>c. c \<noteq> CHR ''-'') t
      = take 8 h @ take 4 (drop 8 h) @ take 4 (drop 12 h) @ take 4 (drop 16 h) @ drop 20 h"
      unfolding t_def using hex
      by (simp add: py_remove_hyphens) (intro arg_cong2[where f = append] py_remove_hyphens;
          blast dest: in_set_takeD in_set_dropD)
    also have "\<dots> = h"
      using append_take_drop_id[of 8 h] append_take_drop_id[of 4 "drop 8 h"]
        append_take_drop_id[of 4 "drop 12 h"] append_take_drop_id[of 4 "drop 16 h"]
      by (simp del: append_take_drop_id)
    finally show ?thesis .
  qed
  moreover have "parse_int 16 h = Some (int (uuid_int u))"
    using assms parse_int_hex_fixed[of 32 "uuid_int u"] by (simp add: h_def)
  ultimately show ?thesis
    using assms u len by (simp add: uuid_of_string_def t py_remove_id py_remove_char Let_def)
qed

lemma uuid_str_inj: "uuid_int u < 2 ^ 128 \<Longrightarrow> uuid_int v < 2 ^ 128 \<Longrightarrow> uuid_str u = uuid_str v \<Longrightarrow> u = v"
  by (metis option.inject uuid_of_string_str)

end
