(* ===== verification/Matching.thy ===== *)
theory Matching
  imports Scoring Uuid_Text
begin

text \<open>
  The matching engine of \<open>apps/events/matching.py\<close>: the data classes and \<open>generate_schedule\<close>,
  split where the code's comments split it (ranking and score matrix, the greedy round with its
  bounded backtracking recovery, the loop over rounds with bye selection, the local search, and
  the conversion back to participant ids). Participants are handled by their rank in UUID order,
  a \<open>nat\<close> below \<open>N\<close>. The per-participant tables (\<open>forbidden_i\<close>, \<open>unmatched_count\<close>,
  \<open>available_count_i\<close>) are total functions: every index the code uses is a rank below \<open>N\<close>.
  A Python set of ranks that is iterated is kept as the ascending list of its elements; the
  iteration order does not matter, since every choice from it is by a key that contains the rank.
\<close>

section \<open>Data classes and errors\<close>

record match_participant =
  mp_pid :: string
  mp_profile :: participant_profile

record match_input =
  mi_participants :: "match_participant list"
  mi_num_rounds :: int
  mi_weights :: scoring_weights

record schedule_pair =
  sp_pid_a :: string
  sp_pid_b :: string
  sp_score :: pyfloat

record schedule_round =
  sr_number :: nat
  sr_pairs :: "schedule_pair list"
  sr_unmatched_pid :: "string option"

type_synonym generated_schedule = "schedule_round list"

text \<open>Every \<open>raise\<close> of \<open>generate_schedule\<close>, with the values its message interpolates.\<close>

datatype matching_error =
    NumRoundsBelowOne
  | PidsNotUnique
  | PidsNotUuids
  | FewerThanTwo nat
  | TooManyRounds nat int nat
  | AllUnmatchedBefore nat
  | Stranded nat string nat

text \<open>\<open>MatchingImpossibleError\<close> is a subclass of \<open>MatchingError\<close>; these are raised as such.\<close>

fun is_impossible :: "matching_error \<Rightarrow> bool" where
  "is_impossible PidsNotUnique = False"
| "is_impossible PidsNotUuids = False"
| "is_impossible _ = True"

type_synonym forb = "nat \<Rightarrow> nat set"
type_synonym ipair = "nat \<times> nat"

section \<open>Ranks and scores\<close>

definition uuid_value :: "string \<Rightarrow> uuid" where
  "uuid_value p = (case uuid_of_string p of Some u \<Rightarrow> u | None \<Rightarrow> UUID 0)"

definition pid_list :: "match_input \<Rightarrow> string list" where
  "pid_list inp = map mp_pid (mi_participants inp)"

definition profiles :: "match_input \<Rightarrow> string \<rightharpoonup> participant_profile" where
  "profiles inp = map_of (rev (map (\<lambda>p. (mp_pid p, mp_profile p)) (mi_participants inp)))"

definition idx_to_pid :: "match_input \<Rightarrow> string list" where
  "idx_to_pid inp = sort_key uuid_value (pid_list inp)"

definition score_mat :: "match_input \<Rightarrow> nat \<Rightarrow> nat \<Rightarrow> rat" where
  "score_mat inp i j =
     (if i = j then 0
      else compute_match_score (the (profiles inp (idx_to_pid inp ! min i j)))
             (the (profiles inp (idx_to_pid inp ! max i j))) (mi_weights inp))"

definition sorted_by_score :: "(nat \<Rightarrow> nat \<Rightarrow> rat) \<Rightarrow> nat \<Rightarrow> nat \<Rightarrow> nat list" where
  "sorted_by_score sm N i = sort_key (\<lambda>j. (- sm i j, j)) (filter (\<lambda>j. j \<noteq> i) [0..<N])"

section \<open>One round: greedy, hardest participant first\<close>

definition add_forbidden :: "forb \<Rightarrow> nat \<Rightarrow> nat \<Rightarrow> forb" where
  "add_forbidden f a b = (let f1 = f(a := insert b (f a)) in f1(b := insert a (f1 b)))"

definition remove_forbidden :: "forb \<Rightarrow> nat \<Rightarrow> nat \<Rightarrow> forb" where
  "remove_forbidden f a b = (let f1 = f(a := f a - {b}) in f1(b := f1 b - {a}))"

definition available_count :: "nat list \<Rightarrow> forb \<Rightarrow> nat \<Rightarrow> int" where
  "available_count remaining f i = int (length (filter (\<lambda>j. j \<noteq> i \<and> j \<notin> f i) remaining))"

definition decrement_counts :: "nat list \<Rightarrow> forb \<Rightarrow> nat \<Rightarrow> nat \<Rightarrow> (nat \<Rightarrow> int) \<Rightarrow> nat \<Rightarrow> int" where
  "decrement_counts remaining f p b av c =
     (if c \<in> set remaining
      then av c - (if p \<notin> f c then 1 else 0) - (if b \<notin> f c then 1 else 0)
      else av c)"

function greedy_loop :: "(nat \<Rightarrow> nat list) \<Rightarrow> nat list \<Rightarrow> (nat \<Rightarrow> int) \<Rightarrow> forb \<Rightarrow> ipair list \<Rightarrow>
    ipair list \<times> forb \<times> nat option" where
  "greedy_loop sbs remaining av f ps =
     (if remaining = [] then (ps, f, None)
      else let p = min_by (\<lambda>c. (av c, c)) remaining in
        case find (\<lambda>j. j \<in> set remaining \<and> j \<notin> f p) (sbs p) of
          None \<Rightarrow> (ps, f, Some p)
        | Some b \<Rightarrow>
            let remaining' = filter (\<lambda>x. x \<noteq> p \<and> x \<noteq> b) remaining in
            greedy_loop sbs remaining' (decrement_counts remaining' f p b av)
              (add_forbidden f p b) (ps @ [if p < b then (p, b) else (b, p)]))"
  by pat_completeness auto
termination
  by (relation "measure (\<lambda>(sbs, remaining, av, f, ps). length remaining)")
    (auto intro!: length_filter_less min_by_in)

declare greedy_loop.simps [simp del]

section \<open>One round: bounded backtracking recovery\<close>

definition max_recovery_nodes :: nat where
  "max_recovery_nodes = 10000"

text \<open>The variables of the enclosing scope that \<open>search\<close> changes.\<close>

record search_state =
  ss_forbidden :: forb
  ss_chosen :: "ipair list"
  ss_nodes :: nat

function search :: "(nat \<Rightarrow> nat list) \<Rightarrow> nat list \<Rightarrow> search_state \<Rightarrow> bool \<times> search_state"
  and try_partners :: "(nat \<Rightarrow> nat list) \<Rightarrow> nat list \<Rightarrow> nat \<Rightarrow> nat list \<Rightarrow> search_state \<Rightarrow>
    bool \<times> search_state" where
  "search sbs remaining st =
     (let st = st\<lparr>ss_nodes := ss_nodes st + 1\<rparr> in
      if max_recovery_nodes < ss_nodes st then (False, st)
      else if remaining = [] then (True, st)
      else
        let p = min_by (\<lambda>c. (available_count remaining (ss_forbidden st) c, c)) remaining in
        try_partners sbs (filter (\<lambda>x. x \<noteq> p) remaining) p
          (filter (\<lambda>j. j \<in> set remaining \<and> j \<notin> ss_forbidden st p) (sbs p)) st)"
| "try_partners sbs rest p [] st = (False, st)"
| "try_partners sbs rest p (b # bs) st =
     (let st1 = st\<lparr>ss_forbidden := add_forbidden (ss_forbidden st) p b,
                   ss_chosen := ss_chosen st @ [(p, b)]\<rparr>;
          (ok, st2) = search sbs (filter (\<lambda>x. x \<noteq> b) rest) st1
      in if ok then (True, st2)
         else try_partners sbs rest p bs
           (st2\<lparr>ss_chosen := butlast (ss_chosen st2),
                ss_forbidden := remove_forbidden (ss_forbidden st2) p b\<rparr>))"
  by pat_completeness auto
termination
proof (relation "measures
    [\<lambda>x. case x of Inl (sbs, remaining, st) \<Rightarrow> 2 * length remaining
                 | Inr (sbs, rest, p, bs, st) \<Rightarrow> 2 * length rest + 1,
     \<lambda>x. case x of Inl _ \<Rightarrow> 0 | Inr (sbs, rest, p, bs, st) \<Rightarrow> length bs]", goal_cases)
  case (2 sbs remaining st st' p)
  then have "length (filter (\<lambda>x. x \<noteq> p) remaining) < length remaining"
    by (intro length_filter_less[of p]) (auto intro!: min_by_in)
  then show ?case by simp
next
  case (3 sbs rest p b bs st st1)
  have "length (filter (\<lambda>x. x \<noteq> b) rest) \<le> length rest" by simp
  then show ?case by (simp del: length_filter_le)
qed auto

declare search.simps [simp del] try_partners.simps [simp del]

text \<open>
  A whole round on the ranks \<open>working\<close>: the greedy loop; if it strands a participant, the saved
  \<open>forbidden_before\<close> is restored and the backtracking search runs on the whole working set.
  A failure carries the stranded rank and the number of states examined.
\<close>

definition solve_round :: "(nat \<Rightarrow> nat list) \<Rightarrow> nat list \<Rightarrow> forb \<Rightarrow>
    nat \<times> nat + ipair list \<times> forb" where
  "solve_round sbs working f =
     (case greedy_loop sbs working (available_count working f) f [] of
        (ps, f', None) \<Rightarrow> Inr (ps, f')
      | (_, _, Some failed) \<Rightarrow>
          (case search sbs working \<lparr>ss_forbidden = f, ss_chosen = [], ss_nodes = 0\<rparr> of
             (True, st) \<Rightarrow> Inr (map (\<lambda>(a, b). (min a b, max a b)) (ss_chosen st), ss_forbidden st)
           | (False, st) \<Rightarrow> Inl (failed, ss_nodes st)))"

section \<open>The loop over rounds\<close>

record sched_state =
  st_forbidden :: forb
  st_unmatched :: "nat \<Rightarrow> nat"
  st_pairs :: "ipair list list"
  st_byes :: "nat option list"

definition init_sched_state :: sched_state where
  "init_sched_state = \<lparr>st_forbidden = (\<lambda>_. {}), st_unmatched = (\<lambda>_. 0), st_pairs = [], st_byes = []\<rparr>"

definition choose_bye :: "nat \<Rightarrow> nat \<Rightarrow> sched_state \<Rightarrow> matching_error + nat option" where
  "choose_bye N round_num st =
     (if odd N then
        let eligible = filter (\<lambda>i. st_unmatched st i = 0) [0..<N] in
        if eligible = [] then Inl (AllUnmatchedBefore round_num)
        else Inr (Some (max_by (\<lambda>i. (int N - 1 - int (card (st_forbidden st i)), i)) eligible))
      else Inr None)"

definition build_round :: "(nat list \<Rightarrow> forb \<Rightarrow> nat \<times> nat + ipair list \<times> forb) \<Rightarrow> string list \<Rightarrow>
    nat \<Rightarrow> nat \<Rightarrow> sched_state \<Rightarrow> matching_error + sched_state" where
  "build_round solve idx N round_num st =
     bindE (choose_bye N round_num st) (\<lambda>bye.
       let st1 = (case bye of None \<Rightarrow> st
            | Some i \<Rightarrow> st\<lparr>st_unmatched := (st_unmatched st)(i := st_unmatched st i + 1)\<rparr>);
           working = filter (\<lambda>i. bye \<noteq> Some i) [0..<N]
       in case solve working (st_forbidden st1) of
            Inl (failed, nodes) \<Rightarrow> Inl (Stranded round_num (idx ! failed) nodes)
          | Inr (ps, f) \<Rightarrow> Inr (st1\<lparr>st_forbidden := f, st_pairs := st_pairs st1 @ [ps],
                                    st_byes := st_byes st1 @ [bye]\<rparr>))"

fun build_rounds :: "(nat list \<Rightarrow> forb \<Rightarrow> nat \<times> nat + ipair list \<times> forb) \<Rightarrow> string list \<Rightarrow>
    nat \<Rightarrow> nat list \<Rightarrow> sched_state \<Rightarrow> matching_error + sched_state" where
  "build_rounds solve idx N [] st = Inr st"
| "build_rounds solve idx N (r # rs) st =
     bindE (build_round solve idx N r st) (build_rounds solve idx N rs)"

section \<open>Local search\<close>

definition max_passes :: nat where
  "max_passes = 10"

text \<open>The float literal \<open>1e-9\<close>.\<close>

definition eps :: rat where
  "eps = fl64 (1 / 1000000000)"

text \<open>
  One candidate swap of the pairs \<open>(a, b)\<close> and \<open>(c, d)\<close> into \<open>n1\<close>, \<open>n2\<close>: legal when both are
  proper pairs that no other round uses, accepted when the score rises by more than \<open>eps\<close>.
\<close>

definition try_swap :: "(nat \<Rightarrow> nat \<Rightarrow> rat) \<Rightarrow> ipair set \<Rightarrow> ipair set \<Rightarrow> ipair \<Rightarrow> ipair \<Rightarrow>
    ipair \<Rightarrow> ipair \<Rightarrow> (ipair \<times> ipair) option" where
  "try_swap sm all_pairs cur_set p q n1 n2 =
     (let legal = (fst n1 \<noteq> snd n1 \<and> fst n2 \<noteq> snd n2 \<and>
                   (n1 \<notin> all_pairs \<or> n1 \<in> cur_set) \<and> (n2 \<notin> all_pairs \<or> n2 \<in> cur_set));
          original_score = fl64 (sm (fst p) (snd p) + sm (fst q) (snd q));
          new_score = fl64 (sm (fst n1) (snd n1) + sm (fst n2) (snd n2))
      in if legal \<and> fl64 (original_score + eps) < new_score then Some (n1, n2) else None)"

definition order_pair :: "nat \<Rightarrow> nat \<Rightarrow> ipair" where
  "order_pair x y = (if x < y then (x, y) else (y, x))"

definition improve_pair :: "(nat \<Rightarrow> nat \<Rightarrow> rat) \<Rightarrow> ipair set \<Rightarrow> ipair set \<Rightarrow> ipair \<Rightarrow> ipair \<Rightarrow>
    (ipair \<times> ipair) option" where
  "improve_pair sm all_pairs cur_set p q =
     (case (p, q) of ((a, b), (c, d)) \<Rightarrow>
        case try_swap sm all_pairs cur_set p q (order_pair a c) (order_pair b d) of
          Some r \<Rightarrow> Some r
        | None \<Rightarrow> try_swap sm all_pairs cur_set p q (order_pair a d) (order_pair b c))"

text \<open>The scan over all \<open>i < j\<close>, in that order, up to the first improvement.\<close>

definition find_swap :: "(nat \<Rightarrow> nat \<Rightarrow> rat) \<Rightarrow> ipair set \<Rightarrow> ipair set \<Rightarrow> ipair list \<Rightarrow>
    (nat \<times> nat \<times> ipair \<times> ipair) option" where
  "find_swap sm all_pairs cur_set cur =
     first_some (\<lambda>(i, j). map_option (\<lambda>(n1, n2). (i, j, n1, n2))
         (improve_pair sm all_pairs cur_set (cur ! i) (cur ! j)))
       (concat (map (\<lambda>i. map (Pair i) [Suc i..<length cur]) [0..<length cur]))"

definition replace_pairs :: "ipair set \<Rightarrow> ipair \<Rightarrow> ipair \<Rightarrow> ipair \<Rightarrow> ipair \<Rightarrow> ipair set" where
  "replace_pairs S old1 old2 n1 n2 = insert n2 (insert n1 (S - {old1} - {old2}))"

fun improve_passes :: "nat \<Rightarrow> (nat \<Rightarrow> nat \<Rightarrow> rat) \<Rightarrow> ipair set \<Rightarrow> ipair set \<Rightarrow> ipair list \<Rightarrow>
    ipair set \<times> ipair list" where
  "improve_passes 0 sm all_pairs cur_set cur = (all_pairs, cur)"
| "improve_passes (Suc k) sm all_pairs cur_set cur =
     (case find_swap sm all_pairs cur_set cur of
        None \<Rightarrow> (all_pairs, cur)
      | Some (i, j, n1, n2) \<Rightarrow>
          improve_passes k sm (replace_pairs all_pairs (cur ! i) (cur ! j) n1 n2)
            (replace_pairs cur_set (cur ! i) (cur ! j) n1 n2) (cur[i := n1, j := n2]))"

fun improve_rounds :: "(nat \<Rightarrow> nat \<Rightarrow> rat) \<Rightarrow> ipair set \<Rightarrow> ipair list list \<Rightarrow> ipair list list" where
  "improve_rounds sm all_pairs [] = []"
| "improve_rounds sm all_pairs (cur # rest) =
     (case improve_passes max_passes sm all_pairs (set cur) cur of
        (all_pairs', cur') \<Rightarrow> cur' # improve_rounds sm all_pairs' rest)"

section \<open>The public function\<close>

definition output_round :: "(nat \<Rightarrow> nat \<Rightarrow> rat) \<Rightarrow> string list \<Rightarrow> nat \<Rightarrow> ipair list \<Rightarrow> nat option \<Rightarrow>
    schedule_round" where
  "output_round sm idx r ps bye =
     \<lparr>sr_number = r + 1,
      sr_pairs = map (\<lambda>(a, b). \<lparr>sp_pid_a = idx ! a, sp_pid_b = idx ! b, sp_score = Fin (sm a b)\<rparr>) (sort ps),
      sr_unmatched_pid = map_option ((!) idx) bye\<rparr>"

definition max_rounds :: "nat \<Rightarrow> nat" where
  "max_rounds N = (if even N then N - 1 else N)"

definition generate_schedule :: "match_input \<Rightarrow> matching_error + generated_schedule" where
  "generate_schedule inp =
     (let pids = pid_list inp; R = mi_num_rounds inp; N = length pids in
      if R < 1 then Inl NumRoundsBelowOne
      else if card (set pids) \<noteq> length pids then Inl PidsNotUnique
      else if \<exists>p \<in> set pids. uuid_of_string p = None then Inl PidsNotUuids
      else if N < 2 then Inl (FewerThanTwo N)
      else if int (max_rounds N) < R then Inl (TooManyRounds N R (max_rounds N))
      else
        let idx = idx_to_pid inp;
            sm = score_mat inp;
            sbs = sorted_by_score sm N
        in bindE (build_rounds (solve_round sbs) idx N [1..<nat R + 1] init_sched_state) (\<lambda>st.
             let rounds = improve_rounds sm (set (concat (st_pairs st))) (st_pairs st)
             in Inr (map (\<lambda>r. output_round sm idx r (rounds ! r) (st_byes st ! r)) [0..<nat R])))"

end
