(* ===== verification/Matching_Round.thy ===== *)
theory Matching_Round
  imports Matching
begin

text \<open>
  Correctness of one round of the matching engine: what the greedy loop and the backtracking
  recovery return is a perfect matching of the working set that uses no forbidden pair, and the
  forbidden sets are extended by exactly the new pairs.
\<close>

section \<open>Matchings\<close>

definition endpoints :: "ipair list \<Rightarrow> nat list" where
  "endpoints ps = concat (map (\<lambda>(a, b). [a, b]) ps)"

text \<open>Every rank of \<open>V\<close> is in exactly one pair, and nobody else is in a pair.\<close>

definition matched_on :: "nat set \<Rightarrow> ipair list \<Rightarrow> bool" where
  "matched_on V ps \<longleftrightarrow> distinct (endpoints ps) \<and> set (endpoints ps) = V"

definition ordered_pairs :: "ipair list \<Rightarrow> bool" where
  "ordered_pairs ps \<longleftrightarrow> (\<forall>(a, b) \<in> set ps. a < b)"

definition fresh :: "forb \<Rightarrow> ipair list \<Rightarrow> bool" where
  "fresh f ps \<longleftrightarrow> (\<forall>(a, b) \<in> set ps. b \<notin> f a)"

definition wf_forb :: "forb \<Rightarrow> bool" where
  "wf_forb f \<longleftrightarrow> (\<forall>i j. j \<in> f i \<longrightarrow> i \<in> f j) \<and> (\<forall>i. i \<notin> f i)"

definition add_pairs :: "forb \<Rightarrow> ipair list \<Rightarrow> forb" where
  "add_pairs f ps = fold (\<lambda>(a, b) g. add_forbidden g a b) ps f"

lemma endpoints_simps [simp]:
  "endpoints [] = []"
  "endpoints ((a, b) # ps) = a # b # endpoints ps"
  "endpoints (ps @ qs) = endpoints ps @ endpoints qs"
  by (simp_all add: endpoints_def)

lemma in_endpoints: "x \<in> set (endpoints ps) \<longleftrightarrow> (\<exists>y. (x, y) \<in> set ps \<or> (y, x) \<in> set ps)"
  by (induction ps) (auto simp: endpoints_def)

lemma length_endpoints: "length (endpoints ps) = 2 * length ps"
  by (induction ps) (auto simp: endpoints_def)

lemma distinct_endpoints_neq: "distinct (endpoints ps) \<Longrightarrow> (a, b) \<in> set ps \<Longrightarrow> a \<noteq> b"
  by (induction ps) (auto simp: endpoints_def)

lemma matched_on_Nil [simp]: "matched_on V [] \<longleftrightarrow> V = {}"
  by (auto simp: matched_on_def)

lemma matched_on_Cons:
  "matched_on V ((a, b) # ps) \<longleftrightarrow> a \<noteq> b \<and> a \<in> V \<and> b \<in> V \<and> matched_on (V - {a, b}) ps"
  by (auto simp: matched_on_def)

lemma matched_on_card: "matched_on V ps \<Longrightarrow> card V = 2 * length ps"
  by (auto simp: matched_on_def length_endpoints dest: distinct_card)

lemma matched_on_neq: "matched_on V ps \<Longrightarrow> (a, b) \<in> set ps \<Longrightarrow> a \<noteq> b \<and> a \<in> V \<and> b \<in> V"
  by (auto simp: matched_on_def in_endpoints dest: distinct_endpoints_neq)

section \<open>The forbidden sets\<close>

lemma add_forbidden_iff:
  "a \<noteq> b \<Longrightarrow> y \<in> add_forbidden f a b x \<longleftrightarrow> y \<in> f x \<or> (x = a \<and> y = b) \<or> (x = b \<and> y = a)"
  by (auto simp: add_forbidden_def Let_def)

lemma wf_forb_add: "wf_forb f \<Longrightarrow> a \<noteq> b \<Longrightarrow> wf_forb (add_forbidden f a b)"
  by (auto simp: wf_forb_def add_forbidden_iff)

lemma remove_add_forbidden:
  "wf_forb f \<Longrightarrow> a \<noteq> b \<Longrightarrow> b \<notin> f a \<Longrightarrow> remove_forbidden (add_forbidden f a b) a b = f"
  by (rule ext) (auto simp: wf_forb_def add_forbidden_def remove_forbidden_def Let_def)

lemma add_pairs_simps [simp]:
  "add_pairs f [] = f"
  "add_pairs f ((a, b) # ps) = add_pairs (add_forbidden f a b) ps"
  "add_pairs f (ps @ qs) = add_pairs (add_pairs f ps) qs"
  by (simp_all add: add_pairs_def)

lemma add_pairs_iff:
  "(\<And>a b. (a, b) \<in> set ps \<Longrightarrow> a \<noteq> b) \<Longrightarrow>
   y \<in> add_pairs f ps x \<longleftrightarrow> y \<in> f x \<or> (x, y) \<in> set ps \<or> (y, x) \<in> set ps"
proof (induction ps arbitrary: f)
  case (Cons p ps)
  obtain a b where p: "p = (a, b)" by force
  have "a \<noteq> b" using Cons.prems p by auto
  moreover have "y \<in> add_pairs (add_forbidden f a b) ps x \<longleftrightarrow>
      y \<in> add_forbidden f a b x \<or> (x, y) \<in> set ps \<or> (y, x) \<in> set ps"
    using Cons.prems by (intro Cons.IH) auto
  ultimately show ?case by (auto simp: p add_forbidden_iff)
qed simp

lemma wf_forb_add_pairs:
  "wf_forb f \<Longrightarrow> (\<And>a b. (a, b) \<in> set ps \<Longrightarrow> a \<noteq> b) \<Longrightarrow> wf_forb (add_pairs f ps)"
  by (auto simp: wf_forb_def add_pairs_iff)

lemma fresh_add_forbidden: "a \<noteq> b \<Longrightarrow> fresh (add_forbidden f a b) ps \<Longrightarrow> fresh f ps"
  by (auto simp: fresh_def add_forbidden_iff)

lemma fresh_Cons: "fresh f ((a, b) # ps) \<longleftrightarrow> b \<notin> f a \<and> fresh f ps"
  by (simp add: fresh_def)

section \<open>The greedy loop\<close>

lemma greedy_loop_step:
  assumes "remaining \<noteq> []" "p = min_by (\<lambda>c. (av c, c)) remaining"
  shows "p \<in> set remaining"
    and "find (\<lambda>j. j \<in> set remaining \<and> j \<notin> f p) (sbs p) = Some b \<Longrightarrow>
      b \<in> set remaining \<and> b \<notin> f p \<and> b \<in> set (sbs p)"
  using assms by (auto simp: min_by_in find_Some_iff)

theorem greedy_loop_sound:
  assumes "distinct remaining" "wf_forb f" "\<And>i. i \<notin> set (sbs i)"
    and "greedy_loop sbs remaining av f ps = (ps', f', None)"
  shows "\<exists>qs. ps' = ps @ qs \<and> matched_on (set remaining) qs \<and> ordered_pairs qs \<and> fresh f qs \<and>
    f' = add_pairs f qs"
  using assms
proof (induction sbs remaining av f ps rule: greedy_loop.induct)
  case (1 sbs remaining av f ps)
  show ?case
  proof (cases "remaining = []")
    case True
    with "1.prems"(4) show ?thesis
      by (intro exI[of _ "[]"]) (simp add: greedy_loop.simps[of sbs "[]"] ordered_pairs_def fresh_def)
  next
    case False
    define p where "p = min_by (\<lambda>c. (av c, c)) remaining"
    obtain b where b: "find (\<lambda>j. j \<in> set remaining \<and> j \<notin> f p) (sbs p) = Some b"
      using "1.prems"(4) False
      by (auto simp: greedy_loop.simps[of sbs remaining] p_def[symmetric] Let_def split: option.splits)
    define rem' where "rem' = filter (\<lambda>x. x \<noteq> p \<and> x \<noteq> b) remaining"
    define q where "q = (if p < b then (p, b) else (b, p))"
    have pb: "p \<in> set remaining" "b \<in> set remaining" "b \<notin> f p" "p \<noteq> b"
      using greedy_loop_step[OF False p_def] b "1.prems"(3) by blast+
    have run: "greedy_loop sbs rem' (decrement_counts rem' f p b av) (add_forbidden f p b) (ps @ [q])
        = (ps', f', None)"
      using "1.prems"(4) False b
      by (simp add: greedy_loop.simps[of sbs remaining] p_def[symmetric] rem'_def q_def Let_def)
    have "\<exists>qs. ps' = (ps @ [q]) @ qs \<and> matched_on (set rem') qs \<and> ordered_pairs qs \<and>
        fresh (add_forbidden f p b) qs \<and> f' = add_pairs (add_forbidden f p b) qs"
      using "1.IH"[OF False p_def b rem'_def] run "1.prems" pb wf_forb_add
      by (simp add: rem'_def q_def)
    then obtain qs where qs: "ps' = ps @ q # qs" "matched_on (set rem') qs" "ordered_pairs qs"
        "fresh (add_forbidden f p b) qs" "f' = add_pairs (add_forbidden f p b) qs"
      by auto
    have comm: "add_forbidden f b p = add_forbidden f p b"
      using pb(4) by (auto simp: fun_eq_iff set_eq_iff add_forbidden_iff)
    have set': "set rem' = set remaining - {fst q, snd q}" by (auto simp: rem'_def q_def)
    have "matched_on (set remaining) (q # qs)"
      using qs(2) pb set' by (cases q) (auto simp: matched_on_Cons q_def split: if_splits)
    moreover have "ordered_pairs (q # qs)" using qs(3) pb(4) by (auto simp: ordered_pairs_def q_def)
    moreover have "fresh f (q # qs)"
      using qs(4) pb "1.prems"(2) fresh_add_forbidden[of p b f qs]
      by (auto simp: q_def fresh_Cons wf_forb_def)
    moreover have "f' = add_pairs f (q # qs)" using qs(5) comm by (simp add: q_def)
    ultimately show ?thesis using qs(1) by blast
  qed
qed

section \<open>The backtracking search\<close>

text \<open>
  What a call of \<open>search\<close> or of its loop over partners leaves behind: on success the pairs it
  chose, appended and recorded as forbidden; on failure nothing.
\<close>

definition extends_by :: "nat set \<Rightarrow> search_state \<Rightarrow> bool \<Rightarrow> search_state \<Rightarrow> bool" where
  "extends_by V st ok st' \<longleftrightarrow>
     (if ok then \<exists>qs. ss_chosen st' = ss_chosen st @ qs \<and> matched_on V qs \<and>
          fresh (ss_forbidden st) qs \<and> ss_forbidden st' = add_pairs (ss_forbidden st) qs
      else ss_chosen st' = ss_chosen st \<and> ss_forbidden st' = ss_forbidden st)"

lemma extends_by_nodes: "extends_by V (st\<lparr>ss_nodes := n\<rparr>) ok st' = extends_by V st ok st'"
  by (simp add: extends_by_def)

lemma extends_by_choose:
  assumes "extends_by (V - {p, b}) (st\<lparr>ss_forbidden := add_forbidden (ss_forbidden st) p b,
      ss_chosen := ss_chosen st @ [(p, b)]\<rparr>) True st'"
    and "p \<in> V" "b \<in> V" "p \<noteq> b" "b \<notin> ss_forbidden st p"
  shows "extends_by V st True st'"
proof -
  from assms(1) obtain qs where qs: "ss_chosen st' = ss_chosen st @ (p, b) # qs" "matched_on (V - {p, b}) qs"
      "fresh (add_forbidden (ss_forbidden st) p b) qs"
      "ss_forbidden st' = add_pairs (add_forbidden (ss_forbidden st) p b) qs"
    by (auto simp: extends_by_def)
  then have "matched_on V ((p, b) # qs)" "fresh (ss_forbidden st) ((p, b) # qs)"
    using assms fresh_add_forbidden by (auto simp: matched_on_Cons fresh_Cons)
  with qs show ?thesis
    by (auto simp: extends_by_def intro!: exI[of _ "(p, b) # qs"])
qed

lemma search_base:
  "search sbs remaining st = (ok, st') \<Longrightarrow>
   max_recovery_nodes < ss_nodes st + 1 \<or> remaining = [] \<Longrightarrow>
   st' = st\<lparr>ss_nodes := ss_nodes st + 1\<rparr> \<and>
   ok = (ss_nodes st + 1 \<le> max_recovery_nodes)"
  by (cases "remaining = []")
    (auto simp: search.simps[of sbs "[]"] search.simps[of sbs remaining] Let_def split: if_splits)

lemma search_step:
  assumes "\<not> max_recovery_nodes < ss_nodes st + 1" "remaining \<noteq> []"
    and "p = min_by (\<lambda>c. (available_count remaining (ss_forbidden st) c, c)) remaining"
  shows "search sbs remaining st =
    try_partners sbs (filter (\<lambda>x. x \<noteq> p) remaining) p
      (filter (\<lambda>j. j \<in> set remaining \<and> j \<notin> ss_forbidden st p) (sbs p))
      (st\<lparr>ss_nodes := ss_nodes st + 1\<rparr>)"
  using assms by (simp add: search.simps[of sbs remaining] Let_def)

lemma search_sound:
  "search sbs remaining st = (ok, st') \<Longrightarrow> distinct remaining \<Longrightarrow> wf_forb (ss_forbidden st) \<Longrightarrow>
     \<forall>i. i \<notin> set (sbs i) \<Longrightarrow> extends_by (set remaining) st ok st'"
  "try_partners sbs rest p bs st = (ok, st') \<Longrightarrow> distinct rest \<Longrightarrow> wf_forb (ss_forbidden st) \<Longrightarrow>
     \<forall>i. i \<notin> set (sbs i) \<Longrightarrow> p \<notin> set rest \<Longrightarrow> set bs \<subseteq> set rest \<Longrightarrow>
     \<forall>b \<in> set bs. b \<notin> ss_forbidden st p \<Longrightarrow> extends_by (insert p (set rest)) st ok st'"
proof (induction sbs remaining st and sbs rest p bs st arbitrary: ok st' and ok st'
    rule: search_try_partners.induct)
  case (1 sbs remaining st)
  define s1 where "s1 = st\<lparr>ss_nodes := ss_nodes st + 1\<rparr>"
  define p where "p = min_by (\<lambda>c. (available_count remaining (ss_forbidden s1) c, c)) remaining"
  let ?rest = "filter (\<lambda>x. x \<noteq> p) remaining"
  let ?bs = "filter (\<lambda>j. j \<in> set remaining \<and> j \<notin> ss_forbidden s1 p) (sbs p)"
  show ?case
  proof (cases "max_recovery_nodes < ss_nodes st + 1 \<or> remaining = []")
    case True
    then show ?thesis using search_base[OF "1.prems"(1) True]
      by (auto simp: extends_by_def fresh_def intro!: exI[of _ "[]"])
  next
    case False
    then have ne: "remaining \<noteq> []" and bud: "\<not> max_recovery_nodes < ss_nodes st + 1" by auto
    have pin: "p \<in> set remaining" using ne by (simp add: p_def min_by_in)
    have run: "try_partners sbs ?rest p ?bs s1 = (ok, st')"
      using "1.prems"(1) search_step[OF bud ne, of p sbs] by (simp add: s1_def p_def)
    have "extends_by (insert p (set ?rest)) s1 ok st'"
    proof (rule "1.IH"[OF s1_def _ _ p_def run])
      show "set ?bs \<subseteq> set ?rest" using "1.prems"(4) by auto
    qed (use ne bud "1.prems" in \<open>auto simp: s1_def\<close>)
    moreover have "insert p (set ?rest) = set remaining" using pin by auto
    ultimately show ?thesis by (simp add: s1_def extends_by_nodes)
  qed
next
  case (2 sbs rest p st)
  then show ?case by (auto simp: try_partners.simps extends_by_def)
next
  case (3 sbs rest p b bs st)
  define s1 where "s1 = st\<lparr>ss_forbidden := add_forbidden (ss_forbidden st) p b,
    ss_chosen := ss_chosen st @ [(p, b)]\<rparr>"
  obtain ok2 s2 where run2: "search sbs (filter (\<lambda>x. x \<noteq> b) rest) s1 = (ok2, s2)" by force
  have pb: "p \<noteq> b" "b \<in> set rest" "b \<notin> ss_forbidden st p" using "3.prems" by auto
  have rest': "set (filter (\<lambda>x. x \<noteq> b) rest) = insert p (set rest) - {p, b}"
    using "3.prems"(5) by auto
  have ext: "extends_by (insert p (set rest) - {p, b}) s1 ok2 s2"
    unfolding rest'[symmetric]
    by (rule "3.IH"(1)[OF s1_def run2]) (use "3.prems" pb in \<open>auto simp: s1_def wf_forb_add\<close>)
  have bV: "p \<in> insert p (set rest)" "b \<in> insert p (set rest)" using pb by auto
  show ?case
  proof (cases ok2)
    case True
    then have "ok" "st' = s2" using "3.prems"(1) run2 by (simp_all add: try_partners.simps s1_def)
    moreover have "extends_by (insert p (set rest)) st True s2"
      by (rule extends_by_choose[OF ext[unfolded s1_def True[THEN eqTrueI]] bV pb(1,3)])
    ultimately show ?thesis by simp
  next
    case False
    let ?s3 = "s2\<lparr>ss_chosen := butlast (ss_chosen s2),
      ss_forbidden := remove_forbidden (ss_forbidden s2) p b\<rparr>"
    have same: "ss_chosen ?s3 = ss_chosen st" "ss_forbidden ?s3 = ss_forbidden st"
      using ext False pb "3.prems"(3) by (auto simp: extends_by_def s1_def remove_add_forbidden)
    have "try_partners sbs rest p bs ?s3 = (ok, st')"
      using "3.prems"(1) run2 False by (simp add: try_partners.simps s1_def)
    then have "extends_by (insert p (set rest)) ?s3 ok st'"
      using "3.IH"(2)[OF s1_def run2[symmetric] refl False] "3.prems" same by auto
    then show ?thesis by (simp only: extends_by_def same)
  qed
qed

text \<open>The node counter only grows, so a search that ends within the budget never hit it.\<close>

lemma search_nodes_mono:
  "search sbs remaining st = (ok, st') \<Longrightarrow> ss_nodes st < ss_nodes st'"
  "try_partners sbs rest p bs st = (ok, st') \<Longrightarrow> ss_nodes st \<le> ss_nodes st'"
proof (induction sbs remaining st and sbs rest p bs st arbitrary: ok st' and ok st'
    rule: search_try_partners.induct)
  case (1 sbs remaining st)
  show ?case
  proof (cases "max_recovery_nodes < ss_nodes st + 1 \<or> remaining = []")
    case True
    then show ?thesis using search_base[OF "1.prems" True] by auto
  next
    case False
    then have ne: "remaining \<noteq> []" and bud: "\<not> max_recovery_nodes < ss_nodes st + 1" by auto
    show ?thesis
      using "1.IH"[OF refl _ ne refl, of ok st'] "1.prems" bud search_step[OF bud ne refl, of sbs]
      by simp
  qed
next
  case (2 sbs rest p st)
  then show ?case by (auto simp: try_partners.simps)
next
  case (3 sbs rest p b bs st)
  define s1 where "s1 = st\<lparr>ss_forbidden := add_forbidden (ss_forbidden st) p b,
    ss_chosen := ss_chosen st @ [(p, b)]\<rparr>"
  obtain ok2 s2 where run2: "search sbs (filter (\<lambda>x. x \<noteq> b) rest) s1 = (ok2, s2)" by force
  have "ss_nodes st < ss_nodes s2" using "3.IH"(1)[OF s1_def run2] by (simp add: s1_def)
  then show ?case
    using "3.prems" "3.IH"(2)[OF s1_def run2[symmetric] refl, of ok st'] run2
    by (cases ok2) (simp_all add: try_partners.simps s1_def)
qed

lemma matched_on_partner:
  assumes "matched_on V qs" "p \<in> V"
  obtains b qs' where "b \<in> V" "b \<noteq> p" "matched_on (V - {p, b}) qs'" "set qs' \<subseteq> set qs"
    "(p, b) \<in> set qs \<or> (b, p) \<in> set qs"
proof -
  have "\<exists>b. (p, b) \<in> set qs \<or> (b, p) \<in> set qs"
    using assms by (auto simp: matched_on_def in_endpoints)
  then obtain b where b: "(p, b) \<in> set qs \<or> (b, p) \<in> set qs" by blast
  then obtain x y where xy: "(x, y) \<in> set qs" "{x, y} = {p, b}" by auto
  then obtain us vs where qs: "qs = us @ (x, y) # vs" by (auto dest: split_list)
  have V: "V = set (endpoints qs)" and d: "distinct (endpoints qs)"
    using assms(1) by (auto simp: matched_on_def)
  have "matched_on (V - {x, y}) (us @ vs)" using d by (auto simp: V qs matched_on_def)
  moreover have "b \<in> V" "b \<noteq> p" using xy matched_on_neq[OF assms(1) xy(1)] by auto
  ultimately show ?thesis using that[of b "us @ vs"] xy(2) b by (auto simp: qs)
qed

lemma fresh_after_add:
  assumes "fresh f qs" "matched_on (V - {p, b}) qs" "p \<noteq> b"
  shows "fresh (add_forbidden f p b) qs"
  unfolding fresh_def
proof safe
  fix x y assume xy: "(x, y) \<in> set qs" "y \<in> add_forbidden f p b x"
  then have "x \<notin> {p, b}" using matched_on_neq[OF assms(2) xy(1)] by auto
  then show False using xy assms(1,3) by (auto simp: add_forbidden_iff fresh_def)
qed

text \<open>A search that fails within its budget has tried every matching there is.\<close>

lemma search_complete:
  "search sbs remaining st = (False, st') \<Longrightarrow> ss_nodes st' \<le> max_recovery_nodes \<Longrightarrow>
     distinct remaining \<Longrightarrow> wf_forb (ss_forbidden st) \<Longrightarrow> \<forall>i. i \<notin> set (sbs i) \<Longrightarrow>
     \<forall>i \<in> set remaining. set remaining - {i} \<subseteq> set (sbs i) \<Longrightarrow>
     \<nexists>qs. matched_on (set remaining) qs \<and> fresh (ss_forbidden st) qs"
  "try_partners sbs rest p bs st = (False, st') \<Longrightarrow> ss_nodes st' \<le> max_recovery_nodes \<Longrightarrow>
     distinct rest \<Longrightarrow> wf_forb (ss_forbidden st) \<Longrightarrow> \<forall>i. i \<notin> set (sbs i) \<Longrightarrow>
     \<forall>i \<in> set rest. set rest - {i} \<subseteq> set (sbs i) \<Longrightarrow>
     p \<notin> set rest \<Longrightarrow> set bs \<subseteq> set rest \<Longrightarrow> \<forall>b \<in> set bs. b \<notin> ss_forbidden st p \<Longrightarrow>
     \<forall>b \<in> set bs. \<nexists>qs. matched_on (set rest - {b}) qs \<and> fresh (add_forbidden (ss_forbidden st) p b) qs"
proof (induction sbs remaining st and sbs rest p bs st arbitrary: st' and st'
    rule: search_try_partners.induct)
  case (1 sbs remaining st)
  define s1 where "s1 = st\<lparr>ss_nodes := ss_nodes st + 1\<rparr>"
  define p where "p = min_by (\<lambda>c. (available_count remaining (ss_forbidden s1) c, c)) remaining"
  let ?rest = "filter (\<lambda>x. x \<noteq> p) remaining"
  let ?bs = "filter (\<lambda>j. j \<in> set remaining \<and> j \<notin> ss_forbidden s1 p) (sbs p)"
  have False if "max_recovery_nodes < ss_nodes st + 1 \<or> remaining = []"
    using search_base[OF "1.prems"(1) that] "1.prems"(2) by auto
  then have ne: "remaining \<noteq> []" and bud: "\<not> max_recovery_nodes < ss_nodes st + 1" by auto
  have pin: "p \<in> set remaining" using ne by (simp add: p_def min_by_in)
  have run: "try_partners sbs ?rest p ?bs s1 = (False, st')"
    using "1.prems"(1) search_step[OF bud ne, of p sbs] by (simp add: s1_def p_def)
  have none: "\<forall>b \<in> set ?bs. \<nexists>qs. matched_on (set ?rest - {b}) qs \<and>
      fresh (add_forbidden (ss_forbidden s1) p b) qs"
    by (rule "1.IH"[OF s1_def _ ne p_def run])
      (use bud "1.prems" in \<open>auto simp: s1_def\<close>)
  show ?case
  proof safe
    fix qs assume qs: "matched_on (set remaining) qs" "fresh (ss_forbidden st) qs"
    obtain b qs' where b: "b \<in> set remaining" "b \<noteq> p" "matched_on (set remaining - {p, b}) qs'"
        "set qs' \<subseteq> set qs" "(p, b) \<in> set qs \<or> (b, p) \<in> set qs"
      by (rule matched_on_partner[OF qs(1) pin])
    have "b \<notin> ss_forbidden st p" using b(5) qs(2) "1.prems"(4) by (auto simp: fresh_def wf_forb_def)
    moreover have "b \<in> set (sbs p)" using "1.prems"(6) pin b by auto
    ultimately have "b \<in> set ?bs" using b(1) by (simp add: s1_def)
    moreover have "fresh (ss_forbidden st) qs'" using b(4) qs(2) by (auto simp: fresh_def)
    then have "fresh (add_forbidden (ss_forbidden s1) p b) qs'"
      using fresh_after_add[OF _ b(3)] b(2) by (simp add: s1_def)
    moreover have "set ?rest - {b} = set remaining - {p, b}" by auto
    ultimately show False using none b(3) by metis
  qed
next
  case (2 sbs rest p st)
  then show ?case by simp
next
  case (3 sbs rest p b bs st)
  define s1 where "s1 = st\<lparr>ss_forbidden := add_forbidden (ss_forbidden st) p b,
    ss_chosen := ss_chosen st @ [(p, b)]\<rparr>"
  obtain ok2 s2 where run2: "search sbs (filter (\<lambda>x. x \<noteq> b) rest) s1 = (ok2, s2)" by force
  have pb: "p \<noteq> b" "b \<in> set rest" "b \<notin> ss_forbidden st p" using "3.prems" by auto
  let ?s3 = "s2\<lparr>ss_chosen := butlast (ss_chosen s2),
    ss_forbidden := remove_forbidden (ss_forbidden s2) p b\<rparr>"
  have nok: "\<not> ok2" and run3: "try_partners sbs rest p bs ?s3 = (False, st')"
    using "3.prems"(1) run2 by (auto simp: try_partners.simps s1_def split: if_splits)
  have wf1: "wf_forb (ss_forbidden s1)" using "3.prems"(4) pb by (simp add: s1_def wf_forb_add)
  have "extends_by (set (filter (\<lambda>x. x \<noteq> b) rest)) s1 ok2 s2"
    by (rule search_sound(1)[OF run2]) (use "3.prems" wf1 in auto)
  then have same: "ss_forbidden ?s3 = ss_forbidden st"
    using nok pb "3.prems"(4) by (auto simp: extends_by_def s1_def remove_add_forbidden)
  have "ss_nodes s2 \<le> ss_nodes st'" using search_nodes_mono(2)[OF run3] by simp
  then have n2: "ss_nodes s2 \<le> max_recovery_nodes" using "3.prems"(2) by simp
  have run2': "search sbs (filter (\<lambda>x. x \<noteq> b) rest) s1 = (False, s2)" using run2 nok by simp
  have A: "\<nexists>qs. matched_on (set (filter (\<lambda>x. x \<noteq> b) rest)) qs \<and> fresh (ss_forbidden s1) qs"
    by (rule "3.IH"(1)[OF s1_def run2' n2]) (use "3.prems" wf1 in auto)
  have B: "\<forall>b \<in> set bs. \<nexists>qs. matched_on (set rest - {b}) qs \<and>
      fresh (add_forbidden (ss_forbidden ?s3) p b) qs"
    by (rule "3.IH"(2)[OF s1_def run2[symmetric] refl nok run3 "3.prems"(2,3)])
      (use "3.prems" same in auto)
  have "set (filter (\<lambda>x. x \<noteq> b) rest) = set rest - {b}" by auto
  then show ?case using A B same by (simp add: s1_def)
qed

section \<open>A whole round\<close>

lemma orient_in:
  "(x, y) \<in> set (map (\<lambda>(a, b). (min a b, max a b)) ps) \<or> (y, x) \<in> set (map (\<lambda>(a, b). (min a b, max a b)) ps)
   \<longleftrightarrow> (x, y) \<in> set ps \<or> (y, x) \<in> set (ps :: ipair list)"
proof (induction ps)
  case (Cons q ps)
  obtain a b where q: "q = (a, b)" by force
  have "(x, y) = (min a b, max a b) \<or> (y, x) = (min a b, max a b) \<longleftrightarrow> (x, y) = (a, b) \<or> (y, x) = (a, b)"
    by (cases "a \<le> b") auto
  then show ?case using Cons.IH unfolding q list.set list.map prod.case insert_iff by blast
qed simp

lemma orient_less:
  assumes "\<And>a b. (a, b) \<in> set ps \<Longrightarrow> a \<noteq> (b :: nat)"
    and "(x, y) \<in> set (map (\<lambda>(a, b). (min a b, max a b)) ps)"
  shows "x < y"
proof -
  from assms(2) obtain a b where "(a, b) \<in> set ps" "x = min a b" "y = max a b" by auto
  then show ?thesis using assms(1)[of a b] by (simp add: min_def max_def)
qed

lemma add_pairs_orient:
  assumes "\<And>a b. (a, b) \<in> set ps \<Longrightarrow> a \<noteq> b"
  shows "add_pairs f (map (\<lambda>(a, b). (min a b, max a b)) ps) = add_pairs f ps"
proof -
  have "a \<noteq> b" if "(a, b) \<in> set (map (\<lambda>(a, b). (min a b, max a b)) ps)" for a b
    using orient_less[OF assms that] by simp
  then show ?thesis
    using add_pairs_iff[OF assms] add_pairs_iff[of "map (\<lambda>(a, b). (min a b, max a b)) ps"] orient_in
    by (simp only: fun_eq_iff set_eq_iff) blast
qed

lemma endpoints_orient:
  "mset (endpoints (map (\<lambda>(a, b). (min a b, max a b)) ps)) = mset (endpoints ps)"
  by (induction ps) (auto simp: min_def max_def)

lemma matched_on_mset: "mset (endpoints ps) = mset (endpoints qs) \<Longrightarrow> matched_on V ps = matched_on V qs"
  unfolding matched_on_def by (metis mset_eq_imp_distinct_iff set_mset_mset)

lemma greedy_loop_failed:
  "greedy_loop sbs remaining av f ps = (ps', f', Some p) \<Longrightarrow> p \<in> set remaining"
proof (induction sbs remaining av f ps rule: greedy_loop.induct)
  case (1 sbs remaining av f ps)
  show ?case
  proof (cases "remaining = []")
    case True
    with "1.prems" show ?thesis by (simp add: greedy_loop.simps[of sbs "[]"])
  next
    case False
    define q where "q = min_by (\<lambda>c. (av c, c)) remaining"
    have q: "q \<in> set remaining" using False by (simp add: q_def min_by_in)
    show ?thesis
    proof (cases "find (\<lambda>j. j \<in> set remaining \<and> j \<notin> f q) (sbs q)")
      case None
      with "1.prems" False q show ?thesis
        by (simp add: greedy_loop.simps[of sbs remaining] q_def[symmetric] Let_def)
    next
      case (Some b)
      with "1.prems" False "1.IH"[OF False q_def Some refl] show ?thesis
        by (simp add: greedy_loop.simps[of sbs remaining] q_def[symmetric] Let_def)
    qed
  qed
qed

lemma solve_round_failed: "solve_round sbs working f = Inl (failed, nodes) \<Longrightarrow> failed \<in> set working"
  by (auto simp: solve_round_def split: prod.splits option.splits bool.splits dest: greedy_loop_failed)

theorem solve_round_sound:
  assumes run: "solve_round sbs working f = Inr (ps, f')"
    and pre: "distinct working" "wf_forb f" "\<And>i. i \<notin> set (sbs i)"
  shows "matched_on (set working) ps \<and> ordered_pairs ps \<and> fresh f ps \<and> f' = add_pairs f ps"
proof -
  obtain ps0 f0 failed where g: "greedy_loop sbs working (available_count working f) f [] = (ps0, f0, failed)"
    by (metis prod_cases3)
  show ?thesis
  proof (cases failed)
    case None
    with g run greedy_loop_sound[OF pre, of "available_count working f" "[]" ps0 f0] show ?thesis
      by (auto simp: solve_round_def)
  next
    case (Some x)
    let ?s0 = "\<lparr>ss_forbidden = f, ss_chosen = [], ss_nodes = 0\<rparr>"
    obtain ok st where s: "search sbs working ?s0 = (ok, st)" by force
    with run g Some have ok: ok and ps: "ps = map (\<lambda>(a, b). (min a b, max a b)) (ss_chosen st)"
        and f': "f' = ss_forbidden st"
      by (auto simp: solve_round_def split: bool.splits)
    have "extends_by (set working) ?s0 ok st" using search_sound(1)[OF s] pre by simp
    with ok have e: "matched_on (set working) (ss_chosen st)" "fresh f (ss_chosen st)"
        "ss_forbidden st = add_pairs f (ss_chosen st)"
      by (auto simp: extends_by_def)
    have neq: "\<And>a b. (a, b) \<in> set (ss_chosen st) \<Longrightarrow> a \<noteq> b" using matched_on_neq[OF e(1)] by blast
    have "ordered_pairs ps" unfolding ordered_pairs_def ps using orient_less[OF neq] by blast
    moreover have "fresh f ps"
      unfolding fresh_def
    proof safe
      fix x y assume "(x, y) \<in> set ps" "y \<in> f x"
      then have "(x, y) \<in> set (ss_chosen st) \<or> (y, x) \<in> set (ss_chosen st)"
        using orient_in[of x y "ss_chosen st"] unfolding ps by blast
      with \<open>y \<in> f x\<close> e(2) pre(2) show False by (auto simp: fresh_def wf_forb_def)
    qed
    ultimately have "ordered_pairs ps" "fresh f ps" .
    moreover have "matched_on (set working) ps"
      unfolding ps by (rule matched_on_mset[OF endpoints_orient, THEN iffD2, OF e(1)])
    moreover have "f' = add_pairs f ps"
      unfolding ps f' e(3) by (rule add_pairs_orient[OF neq, symmetric])
    ultimately show ?thesis by blast
  qed
qed

theorem solve_round_complete:
  assumes run: "solve_round sbs working f = Inl (failed, nodes)"
    and pre: "distinct working" "wf_forb f" "\<And>i. i \<notin> set (sbs i)"
    and all: "\<And>i. i \<in> set working \<Longrightarrow> set working - {i} \<subseteq> set (sbs i)"
    and budget: "nodes \<le> max_recovery_nodes"
  shows "\<nexists>qs. matched_on (set working) qs \<and> fresh f qs"
proof -
  let ?s0 = "\<lparr>ss_forbidden = f, ss_chosen = [], ss_nodes = 0\<rparr>"
  obtain ok st where s: "search sbs working ?s0 = (ok, st)" by force
  with run have "\<not> ok" "nodes = ss_nodes st"
    by (auto simp: solve_round_def split: bool.splits prod.splits option.splits)
  then show ?thesis using search_complete(1)[of sbs working ?s0 st] s pre all budget by auto
qed

end
