(* ===== verification/Matching_Sched.thy ===== *)
theory Matching_Sched
  imports Matching_Round
begin

text \<open>
  The loop over rounds of the matching engine, against the contract of a round solver: every
  round is a perfect matching of all ranks but the bye, no pair is used twice, no rank has two
  byes. \<open>round_solver\<close> is that contract, discharged by \<open>solve_round\<close>.
\<close>

section \<open>What holds between two rounds\<close>

definition round_ok :: "nat \<Rightarrow> ipair list \<Rightarrow> nat option \<Rightarrow> bool" where
  "round_ok N ps bye \<longleftrightarrow> matched_on ({..<N} - set_option bye) ps \<and> ordered_pairs ps \<and>
     (bye = None \<longleftrightarrow> even N) \<and> set_option bye \<subseteq> {..<N}"

definition sched_inv :: "nat \<Rightarrow> sched_state \<Rightarrow> bool" where
  "sched_inv N st \<longleftrightarrow> list_all2 (round_ok N) (st_pairs st) (st_byes st) \<and>
     distinct (concat (st_pairs st)) \<and>
     st_forbidden st = add_pairs (\<lambda>_. {}) (concat (st_pairs st)) \<and>
     (odd N \<longrightarrow> distinct (st_byes st)) \<and>
     (\<forall>i. st_unmatched st i = count_list (st_byes st) (Some i))"

lemma sched_inv_init: "sched_inv N init_sched_state"
  by (simp add: sched_inv_def init_sched_state_def)

lemma round_ok_neq: "round_ok N ps bye \<Longrightarrow> (a, b) \<in> set ps \<Longrightarrow> a \<noteq> b"
  by (auto simp: round_ok_def dest: matched_on_neq)

lemma list_all2_in1: "list_all2 P xs ys \<Longrightarrow> x \<in> set xs \<Longrightarrow> \<exists>y \<in> set ys. P x y"
  unfolding list_all2_conv_all_nth in_set_conv_nth by (metis nth_mem)

lemma sched_inv_neq: "sched_inv N st \<Longrightarrow> (a, b) \<in> set (concat (st_pairs st)) \<Longrightarrow> a \<noteq> b"
  by (auto simp: sched_inv_def dest!: list_all2_in1 dest: round_ok_neq)

lemma sched_inv_wf_forb:
  assumes "sched_inv N st" shows "wf_forb (st_forbidden st)"
proof -
  have "wf_forb (add_pairs (\<lambda>_. {}) (concat (st_pairs st)))"
    by (rule wf_forb_add_pairs[OF _ sched_inv_neq[OF assms]]) (auto simp: wf_forb_def)
  with assms show ?thesis by (simp add: sched_inv_def)
qed

lemma distinct_endpoints_distinct: "distinct (endpoints ps) \<Longrightarrow> distinct ps"
proof (induction ps)
  case (Cons p ps)
  obtain a b where p: "p = (a, b)" by force
  with Cons show ?case by (auto simp: in_endpoints)
qed simp

lemma choose_bye_ok:
  assumes "choose_bye N r st = Inr bye"
  shows "(bye = None \<longleftrightarrow> even N) \<and> set_option bye \<subseteq> {..<N} \<and>
    (\<forall>i. bye = Some i \<longrightarrow> st_unmatched st i = 0)"
proof (cases "odd N")
  case True
  let ?el = "filter (\<lambda>i. st_unmatched st i = 0) [0..<N]"
  from assms True have ne: "?el \<noteq> []"
    and bye: "bye = Some (max_by (\<lambda>i. (int N - 1 - int (card (st_forbidden st i)), i)) ?el)"
    by (auto simp: choose_bye_def Let_def split: if_splits)
  from max_by_in[OF ne] bye True show ?thesis by auto
qed (use assms in \<open>auto simp: choose_bye_def\<close>)

text \<open>The bye goes to an eligible rank with the most partners left, ties to the highest rank.\<close>

lemma choose_bye_max:
  assumes "choose_bye N r st = Inr (Some i)" "j < N" "st_unmatched st j = 0"
  shows "card (st_forbidden st i) < card (st_forbidden st j) \<or>
    (card (st_forbidden st i) = card (st_forbidden st j) \<and> j \<le> i)"
proof -
  let ?el = "filter (\<lambda>i. st_unmatched st i = 0) [0..<N]"
  let ?k = "\<lambda>i. (int N - 1 - int (card (st_forbidden st i)), i)"
  from assms(1) have "i = max_by ?k ?el"
    by (auto simp: choose_bye_def Let_def split: if_splits)
  moreover have "?k j \<le> ?k (max_by ?k ?el)" by (rule max_by_ge) (use assms in auto)
  ultimately show ?thesis by auto
qed

lemma choose_bye_some_left:
  assumes inv: "sched_inv N st" and few: "length (st_byes st) < N"
  shows "\<exists>bye. choose_bye N r st = Inr bye"
proof (cases "odd N")
  case True
  have "\<exists>i < N. st_unmatched st i = 0"
  proof (rule ccontr)
    assume "\<not> ?thesis"
    then have "\<forall>i < N. count_list (st_byes st) (Some i) \<noteq> 0"
      using inv by (auto simp: sched_inv_def)
    then have "\<forall>i < N. Some i \<in> set (st_byes st)" by (metis count_list_0_iff)
    then have "Some ` {..<N} \<subseteq> set (st_byes st)" by auto
    then have "card (Some ` {..<N}) \<le> card (set (st_byes st))" by (intro card_mono) auto
    then have "N \<le> length (st_byes st)"
      using card_length[of "st_byes st"] by (simp add: card_image)
    with few show False by simp
  qed
  then have "filter (\<lambda>i. st_unmatched st i = 0) [0..<N] \<noteq> []" by (auto simp: filter_empty_conv)
  then show ?thesis unfolding choose_bye_def Let_def by simp
qed (simp add: choose_bye_def)

section \<open>The contract of a round solver\<close>

text \<open>No perfect matching of the ranks left after the bye avoids the pairs used so far.\<close>

definition round_blocked :: "nat \<Rightarrow> sched_state \<Rightarrow> nat option \<Rightarrow> bool" where
  "round_blocked N st bye \<longleftrightarrow>
     (\<nexists>qs. matched_on ({..<N} - set_option bye) qs \<and> fresh (st_forbidden st) qs)"

locale round_solver =
  fixes N :: nat
    and solve :: "nat list \<Rightarrow> forb \<Rightarrow> nat \<times> nat + ipair list \<times> forb"
  assumes solve_sound: "\<lbrakk>solve working f = Inr (ps, f'); distinct working; set working \<subseteq> {..<N};
      wf_forb f\<rbrakk> \<Longrightarrow>
      matched_on (set working) ps \<and> ordered_pairs ps \<and> fresh f ps \<and> f' = add_pairs f ps"
    and solve_failed: "solve working f = Inl (failed, nodes) \<Longrightarrow> failed \<in> set working"
    and solve_complete: "\<lbrakk>solve working f = Inl (failed, nodes); distinct working;
      set working \<subseteq> {..<N}; wf_forb f; nodes \<le> max_recovery_nodes\<rbrakk> \<Longrightarrow>
      \<nexists>qs. matched_on (set working) qs \<and> fresh f qs"
begin

lemma build_round_inv:
  assumes inv: "sched_inv N st" and run: "build_round solve idx N r st = Inr st'"
  shows "sched_inv N st' \<and> length (st_byes st') = Suc (length (st_byes st))"
proof -
  from run obtain bye where bye: "choose_bye N r st = Inr bye"
    by (auto simp: build_round_def bindE_Inr_iff)
  let ?working = "filter (\<lambda>i. bye \<noteq> Some i) [0..<N]"
  from run bye obtain ps f where sol: "solve ?working (st_forbidden st) = Inr (ps, f)"
    and st': "st_forbidden st' = f" "st_pairs st' = st_pairs st @ [ps]" "st_byes st' = st_byes st @ [bye]"
      "st_unmatched st' = (case bye of None \<Rightarrow> st_unmatched st
         | Some i \<Rightarrow> (st_unmatched st)(i := st_unmatched st i + 1))"
    by (auto simp: build_round_def Let_def split: sum.splits option.splits)
  have W: "set ?working = {..<N} - set_option bye" by (cases bye) auto
  have R: "matched_on (set ?working) ps" "ordered_pairs ps" "fresh (st_forbidden st) ps"
      "f = add_pairs (st_forbidden st) ps"
    using solve_sound[OF sol _ _ sched_inv_wf_forb[OF inv]] W by auto
  note B = choose_bye_ok[OF bye]
  have ok: "round_ok N ps bye" using R B W by (simp add: round_ok_def)
  have new: "set (concat (st_pairs st)) \<inter> set ps = {}"
  proof safe
    fix a b assume "(a, b) \<in> set (concat (st_pairs st))" "(a, b) \<in> set ps"
    moreover have "b \<in> st_forbidden st a" if "(a, b) \<in> set (concat (st_pairs st))"
      using inv that add_pairs_iff[OF sched_inv_neq[OF inv], of "concat (st_pairs st)" b "\<lambda>_. {}" a]
      by (auto simp: sched_inv_def)
    ultimately show "(a, b) \<in> {}" using R(3) by (auto simp: fresh_def)
  qed
  have "distinct ps" using R(1) by (auto simp: matched_on_def distinct_endpoints_distinct)
  moreover have "\<forall>i. bye = Some i \<longrightarrow> Some i \<notin> set (st_byes st)"
    using inv B by (auto simp: sched_inv_def count_list_0_iff)
  ultimately show ?thesis
    using inv ok new R(4) st' B
    by (auto simp: sched_inv_def list_all2_appendI split: option.splits)
qed

lemma build_rounds_inv:
  "sched_inv N st \<Longrightarrow> build_rounds solve idx N rs st = Inr st' \<Longrightarrow>
   sched_inv N st' \<and> length (st_byes st') = length (st_byes st) + length rs"
proof (induction rs arbitrary: st)
  case (Cons r rs)
  from Cons.prems(2) obtain st1 where st1: "build_round solve idx N r st = Inr st1"
      "build_rounds solve idx N rs st1 = Inr st'"
    by (auto simp: bindE_Inr_iff)
  show ?case using build_round_inv[OF Cons.prems(1) st1(1)] Cons.IH[OF _ st1(2)] by auto
qed auto

text \<open>
  With at most \<open>N\<close> rounds the byes never run out: the only failure is a stranded participant,
  and, unless the search budget ran out, in that round no legal matching was left.
\<close>

lemma build_rounds_fail:
  "sched_inv N st \<Longrightarrow> length (st_byes st) + length rs \<le> N \<Longrightarrow>
   build_rounds solve idx N rs st = Inl e \<Longrightarrow>
   \<exists>r \<in> set rs. \<exists>failed < N. \<exists>nodes st' bye. e = Stranded r (idx ! failed) nodes \<and> sched_inv N st' \<and>
     choose_bye N r st' = Inr bye \<and> (nodes \<le> max_recovery_nodes \<longrightarrow> round_blocked N st' bye)"
proof (induction rs arbitrary: st)
  case (Cons r rs)
  have "length (st_byes st) < N" using Cons.prems(2) by simp
  then obtain bye where bye: "choose_bye N r st = Inr bye"
    using choose_bye_some_left[OF Cons.prems(1)] by blast
  let ?working = "filter (\<lambda>i. bye \<noteq> Some i) [0..<N]"
  have W: "set ?working = {..<N} - set_option bye" by (cases bye) auto
  show ?case
  proof (cases "build_round solve idx N r st")
    case (Inl e')
    with Cons.prems(3) have "e' = e" by simp
    with Inl bye obtain failed nodes where f: "solve ?working (st_forbidden st) = Inl (failed, nodes)"
        "e = Stranded r (idx ! failed) nodes"
      by (auto simp: build_round_def Let_def split: sum.splits option.splits)
    have "round_blocked N st bye" if "nodes \<le> max_recovery_nodes"
      using solve_complete[OF f(1) _ _ sched_inv_wf_forb[OF Cons.prems(1)] that] W
      by (auto simp: round_blocked_def)
    moreover have "failed < N" using solve_failed[OF f(1)] by simp
    ultimately show ?thesis using f(2) bye Cons.prems(1) by auto
  next
    case (Inr st1)
    with Cons.prems(3) have "build_rounds solve idx N rs st1 = Inl e" by simp
    with Cons.IH[of st1] Cons.prems(2) build_round_inv[OF Cons.prems(1) Inr] show ?thesis by auto
  qed
qed simp

end

section \<open>The solver of the code\<close>

lemma sorted_by_score_set: "set (sorted_by_score sm N i) = {..<N} - {i}"
  by (auto simp: sorted_by_score_def)

lemma sorted_by_score_order:
  "sorted_wrt (\<lambda>j k. sm i k < sm i j \<or> (sm i k = sm i j \<and> j < k)) (sorted_by_score sm N i)"
proof -
  let ?js = "filter (\<lambda>j. j \<noteq> i) [0..<N]"
  have inj: "inj_on (\<lambda>j. (- sm i j, j)) (set ?js)" by (auto intro: inj_onI)
  have "sorted_wrt (<) (map (\<lambda>j. (- sm i j, j)) (sorted_by_score sm N i))"
    unfolding strict_sorted_iff sorted_by_score_def
    using inj by (auto simp: distinct_map)
  then show ?thesis
    by (auto simp: sorted_wrt_map less_prod_def elim!: sorted_wrt_mono_rel[rotated])
qed

interpretation solver: round_solver N "solve_round (sorted_by_score sm N)" for sm N
proof unfold_locales
  fix working f ps f'
  assume "solve_round (sorted_by_score sm N) working f = Inr (ps, f')" "distinct working" "wf_forb f"
  then show "matched_on (set working) ps \<and> ordered_pairs ps \<and> fresh f ps \<and> f' = add_pairs f ps"
    by (rule solve_round_sound) (simp add: sorted_by_score_set)
next
  fix working f failed nodes
  assume "solve_round (sorted_by_score sm N) working f = Inl (failed, nodes)"
  then show "failed \<in> set working" by (rule solve_round_failed)
next
  fix working f failed nodes
  assume "solve_round (sorted_by_score sm N) working f = Inl (failed, nodes)" "distinct working"
    "set working \<subseteq> {..<N}" "wf_forb f" "nodes \<le> max_recovery_nodes"
  then show "\<nexists>qs. matched_on (set working) qs \<and> fresh f qs"
    by (intro solve_round_complete) (auto simp: sorted_by_score_set)
qed

section \<open>The first round\<close>

text \<open>While nobody left is forbidden to anybody left, the greedy loop cannot strand anyone.\<close>

lemma greedy_loop_unconstrained:
  "distinct remaining \<Longrightarrow> even (length remaining) \<Longrightarrow>
   \<forall>i \<in> set remaining. set remaining - {i} \<subseteq> set (sbs i) \<and> i \<notin> set (sbs i) \<Longrightarrow>
   \<forall>i \<in> set remaining. f i \<inter> set remaining = {} \<Longrightarrow>
   \<exists>ps' f'. greedy_loop sbs remaining av f ps = (ps', f', None)"
proof (induction sbs remaining av f ps rule: greedy_loop.induct)
  case (1 sbs remaining av f ps)
  show ?case
  proof (cases "remaining = []")
    case True
    then show ?thesis by (simp add: greedy_loop.simps[of sbs "[]"])
  next
    case False
    define p where "p = min_by (\<lambda>c. (av c, c)) remaining"
    have p: "p \<in> set remaining" using False by (simp add: p_def min_by_in)
    have "\<exists>x \<in> set remaining. x \<noteq> p"
    proof (rule ccontr)
      assume "\<not> ?thesis"
      then have "set remaining = {p}" using p by blast
      then have "card (set remaining) = 1" by simp
      then have "length remaining = 1" by (simp only: distinct_card[OF "1.prems"(1)])
      with "1.prems"(2) show False by simp
    qed
    then have "\<exists>x \<in> set (sbs p). x \<in> set remaining \<and> x \<notin> f p" using "1.prems"(3,4) p by blast
    then obtain b where b: "find (\<lambda>j. j \<in> set remaining \<and> j \<notin> f p) (sbs p) = Some b"
      using find_None_iff[of "\<lambda>j. j \<in> set remaining \<and> j \<notin> f p" "sbs p"] by (metis not_None_eq)
    define rem' where "rem' = filter (\<lambda>x. x \<noteq> p \<and> x \<noteq> b) remaining"
    have bs: "b \<in> set remaining" "b \<in> set (sbs p)" using b by (auto simp: find_Some_iff)
    have pb: "b \<in> set remaining" "b \<noteq> p" using bs "1.prems"(3) p by blast+
    have "set rem' = set remaining - {p, b}" by (auto simp: rem'_def)
    moreover have "distinct rem'" using "1.prems"(1) by (simp add: rem'_def)
    ultimately have "length rem' = card (set remaining - {p, b})" by (metis distinct_card)
    also have "\<dots> = length remaining - 2"
      using distinct_card[OF "1.prems"(1)] p pb by (simp add: card_Diff_subset)
    finally have "even (length rem')" using "1.prems"(2) by simp
    moreover have "\<forall>i \<in> set rem'. add_forbidden f p b i \<inter> set rem' = {}"
      using "1.prems"(4) pb by (auto simp: rem'_def add_forbidden_def Let_def)
    moreover have "\<forall>i \<in> set rem'. set rem' - {i} \<subseteq> set (sbs i) \<and> i \<notin> set (sbs i)"
      using "1.prems"(3) by (auto simp: rem'_def)
    moreover have "distinct rem'" using "1.prems"(1) by (simp add: rem'_def)
    ultimately have "\<exists>ps' f'. greedy_loop sbs rem' (decrement_counts rem' f p b av) (add_forbidden f p b)
        (ps @ [if p < b then (p, b) else (b, p)]) = (ps', f', None)"
      using "1.IH"[OF False p_def b rem'_def] by blast
    then show ?thesis
      using False b by (simp add: greedy_loop.simps[of sbs remaining] p_def[symmetric] rem'_def[symmetric] Let_def)
  qed
qed

lemma first_round_solved:
  "N \<noteq> 0 \<Longrightarrow> \<exists>st. build_round (solve_round (sorted_by_score sm N)) idx N r init_sched_state = Inr st"
proof -
  assume N: "N \<noteq> 0"
  obtain bye where bye: "choose_bye N r init_sched_state = Inr bye"
    using choose_bye_some_left[OF sched_inv_init] N by (auto simp: init_sched_state_def)
  let ?working = "filter (\<lambda>i. bye \<noteq> Some i) [0..<N]"
  have W: "set ?working = {..<N} - set_option bye" by (cases bye) auto
  have "length ?working = card ({..<N} - set_option bye)"
    using distinct_card[of ?working] W by simp
  then have "even (length ?working)"
    using choose_bye_ok[OF bye] by (cases bye) (auto simp: card_Diff_singleton_if)
  moreover have "\<forall>i \<in> set ?working. set ?working - {i} \<subseteq> set (sorted_by_score sm N i) \<and>
      i \<notin> set (sorted_by_score sm N i)"
    by (auto simp: sorted_by_score_set)
  ultimately have "\<exists>ps f. greedy_loop (sorted_by_score sm N) ?working
      (available_count ?working (\<lambda>_. {})) (\<lambda>_. {}) [] = (ps, f, None)"
    by (intro greedy_loop_unconstrained) auto
  then obtain ps f where "greedy_loop (sorted_by_score sm N) ?working
      (available_count ?working (\<lambda>_. {})) (\<lambda>_. {}) [] = (ps, f, None)" by blast
  then have "solve_round (sorted_by_score sm N) ?working (\<lambda>_. {}) = Inr (ps, f)"
    by (simp add: solve_round_def)
  then show ?thesis
    using bye by (auto simp: build_round_def init_sched_state_def Let_def split: option.splits)
qed

end
