(* ===== verification/Matching_Improve.thy ===== *)
theory Matching_Improve
  imports Matching_Sched
begin

text \<open>
  The local search of the matching engine: every accepted swap keeps the round a perfect matching
  of the same ranks, never introduces a pair another round uses, and strictly raises the score.
\<close>

section \<open>Replacing two elements of a list\<close>

lemma mset_update2:
  assumes "i < j" "j < length xs"
  obtains M where "mset xs = {#xs ! i, xs ! j#} + M" "mset (xs[i := u, j := v]) = {#u, v#} + M"
proof -
  obtain us vs ws where xs: "xs = us @ xs ! i # vs @ xs ! j # ws"
    and len: "length us = i" "length vs = j - Suc i"
  proof
    have "drop (Suc i) xs = take (j - Suc i) (drop (Suc i) xs) @ xs ! j # drop (Suc j) xs"
      using assms id_take_nth_drop[of "j - Suc i" "drop (Suc i) xs"] by simp
    then show "xs = take i xs @ xs ! i # take (j - Suc i) (drop (Suc i) xs) @ xs ! j # drop (Suc j) xs"
      using assms id_take_nth_drop[of i xs] by simp
  qed (use assms in auto)
  have j: "j = i + Suc (length vs)" using len assms by simp
  have "xs[i := u, j := v] = us @ u # vs @ v # ws"
    by (subst xs) (simp add: list_update_append j len(1)[symmetric])
  then have "mset (xs[i := u, j := v]) = {#u, v#} + mset (us @ vs @ ws)" by simp
  moreover have "mset xs = {#xs ! i, xs ! j#} + mset (us @ vs @ ws)" by (subst xs) simp
  ultimately show ?thesis using that by blast
qed

lemma distinct_split2:
  "distinct xs \<Longrightarrow> mset xs = {#p, q#} + M \<Longrightarrow> p \<noteq> q \<and> p \<notin># M \<and> q \<notin># M"
proof -
  assume xs: "distinct xs" "mset xs = {#p, q#} + M"
  obtain ys where ys: "mset ys = M" using ex_mset by blast
  then have "mset xs = mset (p # q # ys)" using xs(2) by simp
  then have "distinct (p # q # ys)" using xs(1) mset_eq_imp_distinct_iff by blast
  then show ?thesis using ys by auto
qed

definition round_score :: "(nat \<Rightarrow> nat \<Rightarrow> rat) \<Rightarrow> ipair list \<Rightarrow> rat" where
  "round_score sm ps = sum_list (map (\<lambda>(a, b). sm a b) ps)"

lemma round_score_mset: "round_score sm ps = \<Sum>\<^sub># (image_mset (\<lambda>(a, b). sm a b) (mset ps))"
  by (induction ps) (auto simp: round_score_def)

lemma endpoints_mset: "mset (endpoints ps) = \<Sum>\<^sub># (image_mset (\<lambda>(a, b). {#a, b#}) (mset ps))"
  by (induction ps) auto

section \<open>One swap\<close>

text \<open>\<open>swap_to p q n1 n2\<close>: the two new pairs cover the four ranks of the two old ones.\<close>

definition swap_to :: "ipair \<Rightarrow> ipair \<Rightarrow> ipair \<Rightarrow> ipair \<Rightarrow> bool" where
  "swap_to p q n1 n2 \<longleftrightarrow>
     {#fst n1, snd n1, fst n2, snd n2#} = {#fst p, snd p, fst q, snd q#} \<and>
     (n1, n2) \<in> {(order_pair (fst p) (fst q), order_pair (snd p) (snd q)),
                 (order_pair (fst p) (snd q), order_pair (snd p) (fst q))}"

lemma try_swap_Some:
  assumes "try_swap sm A C p q n1 n2 = Some r"
    and "0 \<le> eps"
  shows "r = (n1, n2) \<and> fst n1 \<noteq> snd n1 \<and> fst n2 \<noteq> snd n2 \<and>
    (n1 \<notin> A \<or> n1 \<in> C) \<and> (n2 \<notin> A \<or> n2 \<in> C) \<and>
    sm (fst p) (snd p) + sm (fst q) (snd q) < sm (fst n1) (snd n1) + sm (fst n2) (snd n2)"
  using assms fl64.rounded_gain[OF assms(2)]
  by (auto simp: try_swap_def Let_def split: if_splits)

lemma eps_nonneg: "0 \<le> eps"
  by (simp add: eps_def fl64_nonneg)

lemma order_pair_props [simp]:
  "{#fst (order_pair x y), snd (order_pair x y)#} = {#x, y#}"
  "fst (order_pair x y) \<noteq> snd (order_pair x y) \<longleftrightarrow> x \<noteq> y"
  by (auto simp: order_pair_def)

lemma order_pair_less: "x \<noteq> y \<Longrightarrow> fst (order_pair x y) < snd (order_pair x y)"
  by (auto simp: order_pair_def)

lemma improve_pair_Some:
  assumes "improve_pair sm A C p q = Some (n1, n2)"
  shows "swap_to p q n1 n2 \<and> fst n1 \<noteq> snd n1 \<and> fst n2 \<noteq> snd n2 \<and>
    (n1 \<notin> A \<or> n1 \<in> C) \<and> (n2 \<notin> A \<or> n2 \<in> C) \<and>
    sm (fst p) (snd p) + sm (fst q) (snd q) < sm (fst n1) (snd n1) + sm (fst n2) (snd n2)"
proof -
  obtain a b c d where pq: "p = (a, b)" "q = (c, d)" by (cases p, cases q)
  have cover: "swap_to p q (order_pair a c) (order_pair b d)" "swap_to p q (order_pair a d) (order_pair b c)"
    by (auto simp: swap_to_def pq order_pair_def)
  from assms have "try_swap sm A C p q (order_pair a c) (order_pair b d) = Some (n1, n2) \<or>
      try_swap sm A C p q (order_pair a d) (order_pair b c) = Some (n1, n2)"
    by (auto simp: improve_pair_def pq split: option.splits)
  then show ?thesis
  proof
    assume "try_swap sm A C p q (order_pair a c) (order_pair b d) = Some (n1, n2)"
    from try_swap_Some[OF this eps_nonneg] cover(1) show ?thesis by simp
  next
    assume "try_swap sm A C p q (order_pair a d) (order_pair b c) = Some (n1, n2)"
    from try_swap_Some[OF this eps_nonneg] cover(2) show ?thesis by simp
  qed
qed

lemma find_swap_Some:
  assumes "find_swap sm A C cur = Some (i, j, n1, n2)"
  shows "i < j \<and> j < length cur \<and> improve_pair sm A C (cur ! i) (cur ! j) = Some (n1, n2)"
  using first_some_Some[OF assms[unfolded find_swap_def]] by (auto split: prod.splits)

text \<open>The scan misses nothing: it fails only when no pair of pairs has a legal improving swap.\<close>

lemma find_swap_None:
  "find_swap sm A C cur = None \<longleftrightarrow>
   (\<forall>i j. i < j \<and> j < length cur \<longrightarrow> improve_pair sm A C (cur ! i) (cur ! j) = None)"
  by (auto simp: find_swap_def first_some_None)

lemma new_pair_not_in_round:
  assumes "distinct (endpoints cur)" "i < j" "j < length cur"
    and "x \<in> {fst (cur ! i), snd (cur ! i)}" "y \<in> {fst (cur ! j), snd (cur ! j)}"
  shows "order_pair x y \<notin> set cur"
proof
  assume "order_pair x y \<in> set cur"
  obtain M where M: "mset cur = {#cur ! i, cur ! j#} + M"
    using mset_update2[OF assms(2,3)] by blast
  obtain a b where i: "cur ! i = (a, b)" by force
  obtain c d where j: "cur ! j = (c, d)" by force
  let ?E = "\<Sum>\<^sub># (image_mset (\<lambda>(a, b). {#a, b#}) M)"
  have E: "mset (endpoints cur) = {#a, b, c, d#} + ?E" unfolding endpoints_mset M i j by simp
  have "\<forall>z. count (mset (endpoints cur)) z \<le> 1" using assms(1) by (simp add: distinct_count_atmost_1)
  then have dis: "distinct [a, b, c, d]" "\<And>z. z \<in> {a, b, c, d} \<Longrightarrow> z \<notin># ?E"
    unfolding E using not_in_iff by (auto split: if_splits)
  from \<open>order_pair x y \<in> set cur\<close> have "order_pair x y \<in># {#cur ! i, cur ! j#} + M"
    by (metis M set_mset_mset)
  then consider "order_pair x y = (a, b)" | "order_pair x y = (c, d)" | "order_pair x y \<in># M"
    by (auto simp: i j)
  then show False
  proof cases
    case 3
    then have "x \<in># ?E" by (auto simp: order_pair_def split: if_splits intro!: bexI)
    then show False using dis(2)[of x] assms(4) by (auto simp: i)
  qed (use dis(1) assms(4,5) in \<open>auto simp: order_pair_def i j split: if_splits\<close>)
qed

section \<open>The passes over one round\<close>

text \<open>
  \<open>others\<close> is the set of pairs of all other rounds. \<open>round_state\<close> is what every pass keeps:
  the two sets the code maintains incrementally stay the round's pairs and all pairs.
\<close>

definition round_state :: "nat set \<Rightarrow> ipair set \<Rightarrow> ipair set \<Rightarrow> ipair set \<Rightarrow> ipair list \<Rightarrow> bool" where
  "round_state V others A C cur \<longleftrightarrow> matched_on V cur \<and> ordered_pairs cur \<and> C = set cur \<and>
     A = others \<union> set cur \<and> others \<inter> set cur = {}"

lemma swap_round_state:
  assumes inv: "round_state V others A C cur"
    and find: "find_swap sm A C cur = Some (i, j, n1, n2)"
  shows "round_state V others (replace_pairs A (cur ! i) (cur ! j) n1 n2)
      (replace_pairs C (cur ! i) (cur ! j) n1 n2) (cur[i := n1, j := n2])"
    and "round_score sm cur < round_score sm (cur[i := n1, j := n2])"
proof -
  note F = find_swap_Some[OF find]
  let ?p = "cur ! i" and ?q = "cur ! j" and ?cur = "cur[i := n1, j := n2]"
  have ij: "i < j" "j < length cur" using F by auto
  have S: "swap_to ?p ?q n1 n2" "fst n1 \<noteq> snd n1" "fst n2 \<noteq> snd n2" "n1 \<notin> A \<or> n1 \<in> C" "n2 \<notin> A \<or> n2 \<in> C"
      "sm (fst ?p) (snd ?p) + sm (fst ?q) (snd ?q) < sm (fst n1) (snd n1) + sm (fst n2) (snd n2)"
    using improve_pair_Some F by blast+
  obtain M where M: "mset cur = {#?p, ?q#} + M" "mset ?cur = {#n1, n2#} + M"
    by (rule mset_update2[OF ij])
  have dis: "distinct (endpoints cur)" using inv by (simp add: round_state_def matched_on_def)
  have new: "n1 \<notin> set cur" "n2 \<notin> set cur"
    using S(1) new_pair_not_in_round[OF dis ij] unfolding swap_to_def by blast+
  with S(4,5) inv have notA: "n1 \<notin> A" "n2 \<notin> A" by (auto simp: round_state_def)
  let ?E = "\<Sum>\<^sub># (image_mset (\<lambda>(a, b). {#a, b#}) M)"
  have "mset (endpoints ?cur) = {#fst n1, snd n1, fst n2, snd n2#} + ?E"
    unfolding endpoints_mset M by (simp add: case_prod_unfold add_mset_commute)
  also have "\<dots> = {#fst ?p, snd ?p, fst ?q, snd ?q#} + ?E" using S(1) by (simp only: swap_to_def)
  also have "\<dots> = mset (endpoints cur)"
    unfolding endpoints_mset M by (simp add: case_prod_unfold add_mset_commute)
  finally have "mset (endpoints ?cur) = mset (endpoints cur)" .
  then have mat: "matched_on V ?cur"
    by (rule matched_on_mset[THEN iffD2]) (use inv in \<open>simp add: round_state_def\<close>)
  have ord: "fst n1 < snd n1" "fst n2 < snd n2"
    using S(1-3) unfolding swap_to_def by (auto intro: order_pair_less)
  have "distinct cur" using dis by (rule distinct_endpoints_distinct)
  then have pq: "?p \<notin># M" "?q \<notin># M" "?p \<noteq> ?q" using distinct_split2[OF _ M(1)] by simp_all
  have setc: "set cur = {?p, ?q} \<union> set_mset M" using arg_cong[OF M(1), of set_mset] by simp
  have setc': "set ?cur = {n1, n2} \<union> set_mset M" using arg_cong[OF M(2), of set_mset] by simp
  have set': "set ?cur = set cur - {?p} - {?q} \<union> {n1, n2}" unfolding setc setc' using pq by auto
  have "ordered_pairs ?cur"
    using inv ord unfolding ordered_pairs_def setc' round_state_def setc by (auto simp: case_prod_unfold)
  then show "round_state V others (replace_pairs A ?p ?q n1 n2) (replace_pairs C ?p ?q n1 n2) ?cur"
    using inv mat set' notA unfolding round_state_def replace_pairs_def setc by auto
  show "round_score sm cur < round_score sm ?cur"
    using S(6) unfolding round_score_mset M by (simp add: case_prod_unfold)
qed

lemma improve_passes_state:
  "round_state V others A C cur \<Longrightarrow> improve_passes k sm A C cur = (A', cur') \<Longrightarrow>
   round_state V others A' (set cur') cur' \<and> round_score sm cur \<le> round_score sm cur'"
proof (induction k arbitrary: A C cur)
  case 0
  then show ?case by (auto simp: round_state_def)
next
  case (Suc k)
  show ?case
  proof (cases "find_swap sm A C cur")
    case None
    with Suc.prems show ?thesis by (auto simp: round_state_def)
  next
    case (Some x)
    obtain i j n1 n2 where x: "x = (i, j, n1, n2)" by (metis prod_cases4)
    note step = swap_round_state[OF Suc.prems(1) Some[unfolded x]]
    show ?thesis using Suc.IH[OF step(1)] Suc.prems(2) step(2) by (fastforce simp: Some x)
  qed
qed

text \<open>
  A round the search did not leave by exhausting its passes is locally optimal: no two of its
  pairs can be exchanged for a legal better combination.
\<close>

lemma improve_passes_optimal:
  "round_state V others A C cur \<Longrightarrow> improve_passes k sm A C cur = (A', cur') \<Longrightarrow>
   find_swap sm A' (set cur') cur' = None \<or>
   (\<exists>trace. length trace = Suc k \<and> hd trace = cur \<and> last trace = cur' \<and>
      sorted_wrt (\<lambda>x y. round_score sm x < round_score sm y) trace)"
proof (induction k arbitrary: A C cur)
  case 0
  then show ?case by (auto intro!: exI[of _ "[cur]"])
next
  case (Suc k)
  show ?case
  proof (cases "find_swap sm A C cur")
    case None
    with Suc.prems show ?thesis by (auto simp: round_state_def)
  next
    case (Some x)
    obtain i j n1 n2 where x: "x = (i, j, n1, n2)" by (metis prod_cases4)
    note step = swap_round_state[OF Suc.prems(1) Some[unfolded x]]
    from Suc.IH[OF step(1)] Suc.prems(2)
    consider "find_swap sm A' (set cur') cur' = None"
      | trace where "length trace = Suc k" "hd trace = cur[i := n1, j := n2]" "last trace = cur'"
        "sorted_wrt (\<lambda>x y. round_score sm x < round_score sm y) trace"
      by (auto simp: Some x)
    then show ?thesis
    proof cases
      case 2
      then obtain t ts where t: "trace = t # ts" by (cases trace) auto
      with 2 step(2) show ?thesis by (intro disjI2 exI[of _ "cur # trace"]) auto
    qed simp
  qed
qed

section \<open>All rounds\<close>

definition improved :: "(nat \<Rightarrow> nat \<Rightarrow> rat) \<Rightarrow> ipair list \<Rightarrow> ipair list \<Rightarrow> bool" where
  "improved sm cur cur' \<longleftrightarrow> (\<forall>V. matched_on V cur \<longrightarrow> matched_on V cur') \<and> ordered_pairs cur' \<and>
     round_score sm cur \<le> round_score sm cur'"

lemma matched_on_unique: "matched_on V cur \<Longrightarrow> matched_on W cur \<longleftrightarrow> W = V"
  by (auto simp: matched_on_def)

lemma improve_rounds_ok:
  "\<forall>cur \<in> set rounds. (\<exists>V. matched_on V cur) \<and> ordered_pairs cur \<Longrightarrow> distinct (concat rounds) \<Longrightarrow>
   A = others \<union> set (concat rounds) \<Longrightarrow> others \<inter> set (concat rounds) = {} \<Longrightarrow>
   list_all2 (improved sm) rounds (improve_rounds sm A rounds) \<and>
   distinct (concat (improve_rounds sm A rounds)) \<and>
   others \<inter> set (concat (improve_rounds sm A rounds)) = {}"
proof (induction rounds arbitrary: A others)
  case (Cons cur rest)
  obtain A' cur' where run: "improve_passes max_passes sm A (set cur) cur = (A', cur')" by force
  obtain V where V: "matched_on V cur" "ordered_pairs cur" using Cons.prems(1) by auto
  let ?oth = "others \<union> set (concat rest)"
  have "round_state V ?oth A (set cur) cur"
    using V Cons.prems by (auto simp: round_state_def)
  from improve_passes_state[OF this run]
  have st: "round_state V ?oth A' (set cur') cur'" and sc: "round_score sm cur \<le> round_score sm cur'"
    by auto
  have imp: "improved sm cur cur'"
    using st sc V matched_on_unique[OF V(1)] by (auto simp: improved_def round_state_def)
  have dis: "distinct cur'" using st by (auto simp: round_state_def matched_on_def distinct_endpoints_distinct)
  have IH: "list_all2 (improved sm) rest (improve_rounds sm A' rest) \<and>
      distinct (concat (improve_rounds sm A' rest)) \<and>
      (others \<union> set cur') \<inter> set (concat (improve_rounds sm A' rest)) = {}"
  proof (rule Cons.IH)
    show "A' = (others \<union> set cur') \<union> set (concat rest)" using st by (auto simp: round_state_def)
    show "(others \<union> set cur') \<inter> set (concat rest) = {}"
      using st Cons.prems by (auto simp: round_state_def)
  qed (use Cons.prems in auto)
  show ?case using IH imp dis st run by (auto simp: round_state_def)
qed simp

lemma improve_rounds_length: "length (improve_rounds sm A rounds) = length rounds"
  by (induction rounds arbitrary: A) (auto split: prod.splits)

text \<open>The rounds the search ends with satisfy what the rounds it started from did.\<close>

theorem improve_rounds_inv:
  fixes sm :: "nat \<Rightarrow> nat \<Rightarrow> rat"
  assumes inv: "sched_inv N st"
  defines "out \<equiv> improve_rounds sm (set (concat (st_pairs st))) (st_pairs st)"
  shows "list_all2 (round_ok N) out (st_byes st) \<and> distinct (concat out) \<and>
    list_all2 (\<lambda>cur cur'. round_score sm cur \<le> round_score sm cur') (st_pairs st) out"
proof -
  have ok: "list_all2 (round_ok N) (st_pairs st) (st_byes st)" using inv by (simp add: sched_inv_def)
  have "\<forall>cur \<in> set (st_pairs st). (\<exists>V. matched_on V cur) \<and> ordered_pairs cur"
    using list_all2_in1[OF ok] by (auto simp: round_ok_def)
  then have R: "list_all2 (improved sm) (st_pairs st) out \<and> distinct (concat out)"
    using improve_rounds_ok[of "st_pairs st" _ "{}" sm] inv unfolding out_def
    by (auto simp: sched_inv_def)
  have "list_all2 (round_ok N) out (st_byes st)"
    using R ok unfolding list_all2_conv_all_nth improved_def round_ok_def by auto
  moreover have "list_all2 (\<lambda>cur cur'. round_score sm cur \<le> round_score sm cur') (st_pairs st) out"
    using R by (auto simp: improved_def elim!: list_all2_mono)
  ultimately show ?thesis using R by simp
qed

text \<open>
  C5. The local search on one round keeps it a perfect matching of the same ranks without any pair
  of another round, never lowers the round's total score, and stops at a round that no legal swap
  improves, unless it made ten swaps, each of which strictly raised the total.
\<close>

theorem local_search_sound:
  assumes "round_state V others A C cur" "improve_passes max_passes sm A C cur = (A', cur')"
  shows "round_state V others A' (set cur') cur' \<and> round_score sm cur \<le> round_score sm cur' \<and>
    (find_swap sm A' (set cur') cur' = None \<or>
     (\<exists>trace. length trace = Suc max_passes \<and> hd trace = cur \<and> last trace = cur' \<and>
        sorted_wrt (\<lambda>x y. round_score sm x < round_score sm y) trace))"
  using improve_passes_state[OF assms] improve_passes_optimal[OF assms] by blast

text \<open>Two pairs that score nothing, against the crossing that scores one half twice.\<close>

definition sample_scores :: "nat \<Rightarrow> nat \<Rightarrow> rat" where
  "sample_scores i j = (if (i, j) = (0, 2) \<or> (i, j) = (1, 3) then 1 / 2 else 0)"

lemma eps_small: "eps \<le> 1 / 2"
proof -
  have "fl64 (1 / 1000000000) \<le> fl64 (2 powi (- 1))" by (rule fl64_mono) (simp add: power_int_def)
  then show ?thesis using fl64_powi[of "- 1"] by (simp add: eps_def power_int_def)
qed

lemma sample_gain: "fl64 eps < 1" "\<not> fl64 (1 + eps) < 0"
  using eps_small fl64_nonneg[of "1 + eps"] eps_nonneg fl64_idem[of "1 / 1000000000"]
  by (simp_all add: eps_def)

lemma sample_find:
  "find_swap sample_scores {(0, 1), (2, 3)} {(0, 1), (2, 3)} [(0, 1), (2, 3)] = Some (0, 1, (0, 2), (1, 3))"
  by (simp add: find_swap_def improve_pair_def try_swap_def order_pair_def sample_scores_def sample_gain
      eval_nat_numeral upt_rec Let_def)

lemma sample_find_none:
  "find_swap sample_scores {(1, 3), (0, 2)} {(1, 3), (0, 2)} [(0, 2), (1, 3)] = None"
  using sample_gain(2)
  by (simp add: find_swap_def improve_pair_def try_swap_def order_pair_def sample_scores_def
      eval_nat_numeral upt_rec Let_def)

lemma improve_passes_step:
  "find_swap sm A C cur = Some (i, j, n1, n2) \<Longrightarrow> improve_passes (Suc k) sm A C cur =
     improve_passes k sm (replace_pairs A (cur ! i) (cur ! j) n1 n2)
       (replace_pairs C (cur ! i) (cur ! j) n1 n2) (cur[i := n1, j := n2])"
  by simp

lemma improve_passes_done:
  "find_swap sm A C cur = None \<Longrightarrow> improve_passes (Suc k) sm A C cur = (A, cur)"
  by simp

lemma local_search_sound_witness:
  "round_state {0, 1, 2, 3} {} {(0, 2), (1, 3)} {(0, 2), (1, 3)} [(0, 2), (1, 3)] \<and>
   round_score sample_scores [(0, 1), (2, 3)] \<le> round_score sample_scores [(0, 2), (1, 3)]"
proof -
  have st: "round_state {0, 1, 2, 3} {} {(0, 1), (2, 3)} {(0, 1), (2, 3)} [(0, 1), (2, 3)]"
    by (auto simp: round_state_def matched_on_def ordered_pairs_def)
  have run: "improve_passes max_passes sample_scores {(0, 1), (2, 3)} {(0, 1), (2, 3)} [(0, 1), (2, 3)]
      = ({(0, 2), (1, 3)}, [(0, 2), (1, 3)])"
  proof -
    have k: "max_passes = Suc 9" "(9 :: nat) = Suc 8" by (simp_all add: max_passes_def)
    have "replace_pairs {(0, 1), (2, 3)} (0, 1) (2, 3) (0, 2) (1, 3) = {(1, 3), (0, 2)}"
      by (auto simp: replace_pairs_def)
    then show ?thesis
      unfolding k(1) improve_passes_step[OF sample_find]
      using improve_passes_done[OF sample_find_none, of 8, folded k(2)] by (simp add: insert_commute)
  qed
  show ?thesis using local_search_sound[OF st run] by simp
qed

end
