(* ===== verification/Matching_Validate.thy ===== *)
theory Matching_Validate
  imports Matching_Improve "HOL-Library.AList"
begin

text \<open>
  The schedule checker \<open>validate_schedule\<close> of \<open>apps/events/matching.py\<close>, the declarative
  specification \<open>valid_schedule\<close> it decides, and the correctness of \<open>generate_schedule\<close>: a
  schedule it returns satisfies the specification, hence passes the checker.
\<close>

section \<open>The checker\<close>

text \<open>One constructor per \<open>kind\<close>, with the values its \<open>detail\<close> interpolates.\<close>

datatype schedule_violation =
    WrongRoundCount int nat
  | WrongRoundNumbers "int set" "int set"
  | UnmatchedInEvenEvent nat string
  | MissingUnmatched nat
  | UnknownParticipant nat string string
  | WrongPairCount nat nat nat
  | SelfPair nat string
  | WrongCanonicalOrder nat string string
  | DuplicateInRound nat
  | ScoreOutOfRange nat string string pyfloat
  | RepeatedPartner "string \<times> string" nat nat
  | UnmatchedPaired nat string
  | UnmatchedTwice string nat

text \<open>\<open>_canon\<close>; \<open>None\<close> is the \<open>ValueError\<close> of \<open>uuid.UUID\<close>.\<close>

definition canon :: "string \<Rightarrow> string \<Rightarrow> (string \<times> string) option" where
  "canon x y = (case (uuid_of_string x, uuid_of_string y) of
     (Some u, Some v) \<Rightarrow> Some (if u < v then (x, y) else (y, x)) | _ \<Rightarrow> None)"

fun invalid_score :: "pyfloat \<Rightarrow> bool" where
  "invalid_score (Fin s) = (s < 0 \<or> 1 < s)"
| "invalid_score _ = True"

definition noncanonical :: "string \<Rightarrow> string \<Rightarrow> bool" where
  "noncanonical x y = (case (uuid_of_string x, uuid_of_string y) of
     (Some u, Some v) \<Rightarrow> v \<le> u | _ \<Rightarrow> False)"

text \<open>The violations of one pair, given the pids already used in its round.\<close>

definition pair_violations :: "string set \<Rightarrow> nat \<Rightarrow> string set \<Rightarrow> schedule_pair \<Rightarrow>
    schedule_violation list" where
  "pair_violations pids n used sp =
     (let a = sp_pid_a sp; b = sp_pid_b sp in
      (if a \<notin> pids then [UnknownParticipant n ''pid_a'' a] else []) @
      (if b \<notin> pids then [UnknownParticipant n ''pid_b'' b] else []) @
      (if a = b then [SelfPair n a] else if noncanonical a b then [WrongCanonicalOrder n a b] else []) @
      (if a \<in> used \<or> b \<in> used then [DuplicateInRound n] else []) @
      (if invalid_score (sp_score sp) then [ScoreOutOfRange n a b (sp_score sp)] else []))"

definition repeat_violations :: "nat \<Rightarrow> (string \<times> string \<rightharpoonup> nat) \<Rightarrow> schedule_pair \<Rightarrow>
    schedule_violation list \<times> (string \<times> string \<rightharpoonup> nat)" where
  "repeat_violations n seen sp =
     (case canon (sp_pid_a sp) (sp_pid_b sp) of
        None \<Rightarrow> ([], seen)
      | Some key \<Rightarrow>
          (case seen key of
             Some m \<Rightarrow> if m \<noteq> n then ([RepeatedPartner key m n], seen) else ([], seen(key \<mapsto> n))
           | None \<Rightarrow> ([], seen(key \<mapsto> n))))"

fun check_pairs :: "string set \<Rightarrow> nat \<Rightarrow> string set \<Rightarrow> (string \<times> string \<rightharpoonup> nat) \<Rightarrow> schedule_pair list \<Rightarrow>
    schedule_violation list \<times> string set \<times> (string \<times> string \<rightharpoonup> nat)" where
  "check_pairs pids n used seen [] = ([], used, seen)"
| "check_pairs pids n used seen (sp # sps) =
     (let vs = pair_violations pids n used sp;
          (ws, seen') = repeat_violations n seen sp;
          (rest, used', seen'') =
            check_pairs pids n (insert (sp_pid_b sp) (insert (sp_pid_a sp) used)) seen' sps
      in (vs @ ws @ rest, used', seen''))"

record check_state =
  cs_violations :: "schedule_violation list"
  cs_unmatched_seen :: "(string \<times> nat) list"
  cs_pair_seen :: "string \<times> string \<rightharpoonup> nat"

text \<open>\<open>unmatched_seen[p] = unmatched_seen.get(p, 0) + 1\<close> on an insertion-ordered dict.\<close>

definition bump :: "(string \<times> nat) list \<Rightarrow> string \<Rightarrow> (string \<times> nat) list" where
  "bump al p = AList.update p ((case map_of al p of None \<Rightarrow> 0 | Some c \<Rightarrow> c) + 1) al"

definition check_round :: "string set \<Rightarrow> nat \<Rightarrow> check_state \<Rightarrow> schedule_round \<Rightarrow> check_state" where
  "check_round pids pairs_per_round st r =
     (let n = sr_number r;
          bye_vs = (case sr_unmatched_pid r of None \<Rightarrow> []
                    | Some p \<Rightarrow> if p \<notin> pids then [UnknownParticipant n ''unmatched_pid'' p] else []);
          seen_byes = (case sr_unmatched_pid r of None \<Rightarrow> cs_unmatched_seen st
                       | Some p \<Rightarrow> bump (cs_unmatched_seen st) p);
          count_vs = (if length (sr_pairs r) \<noteq> pairs_per_round
                      then [WrongPairCount n pairs_per_round (length (sr_pairs r))] else []);
          (pair_vs, used, seen) = check_pairs pids n {} (cs_pair_seen st) (sr_pairs r);
          paired_vs = (case sr_unmatched_pid r of None \<Rightarrow> []
                       | Some p \<Rightarrow> if p \<in> used then [UnmatchedPaired n p] else [])
      in \<lparr>cs_violations = cs_violations st @ bye_vs @ count_vs @ pair_vs @ paired_vs,
          cs_unmatched_seen = seen_byes, cs_pair_seen = seen\<rparr>)"

definition validate_schedule :: "generated_schedule \<Rightarrow> string set \<Rightarrow> int \<Rightarrow> schedule_violation list" where
  "validate_schedule rounds pids num_rounds =
     (let expected = {1..num_rounds};
          actual = set (map (\<lambda>r. int (sr_number r)) rounds);
          N = card pids;
          pairs_per_round = (if N mod 2 = 0 then N div 2 else (N - 1) div 2);
          st = foldl (check_round pids pairs_per_round)
                 \<lparr>cs_violations = [], cs_unmatched_seen = [], cs_pair_seen = Map.empty\<rparr> rounds
      in (if int (length rounds) \<noteq> num_rounds then [WrongRoundCount num_rounds (length rounds)] else []) @
         (if actual \<noteq> expected then [WrongRoundNumbers expected actual] else []) @
         concat (map (\<lambda>r. case sr_unmatched_pid r of
             None \<Rightarrow> if N mod 2 = 0 then [] else [MissingUnmatched (sr_number r)]
           | Some p \<Rightarrow> if N mod 2 = 0 then [UnmatchedInEvenEvent (sr_number r) p] else []) rounds) @
         cs_violations st @
         concat (map (\<lambda>(p, c). if 1 < c then [UnmatchedTwice p c] else []) (cs_unmatched_seen st)))"

section \<open>The specification\<close>

definition pair_key :: "schedule_pair \<Rightarrow> string \<times> string" where
  "pair_key sp = (sp_pid_a sp, sp_pid_b sp)"

definition pair_ends :: "schedule_pair list \<Rightarrow> string list" where
  "pair_ends sps = concat (map (\<lambda>sp. [sp_pid_a sp, sp_pid_b sp]) sps)"

text \<open>A pair of two known participants, lower UUID first, with a score in \<open>[0, 1]\<close>.\<close>

definition pair_ok :: "string set \<Rightarrow> schedule_pair \<Rightarrow> bool" where
  "pair_ok pids sp \<longleftrightarrow> sp_pid_a sp \<in> pids \<and> sp_pid_b sp \<in> pids \<and>
     uuid_value (sp_pid_a sp) < uuid_value (sp_pid_b sp) \<and>
     (\<exists>s. sp_score sp = Fin s \<and> 0 \<le> s \<and> s \<le> 1)"

text \<open>
  Each participant is in exactly one pair or has the bye; there is a bye exactly when their
  number is odd.
\<close>

definition round_valid :: "string set \<Rightarrow> schedule_round \<Rightarrow> bool" where
  "round_valid pids r \<longleftrightarrow> (\<forall>sp \<in> set (sr_pairs r). pair_ok pids sp) \<and>
     distinct (pair_ends (sr_pairs r)) \<and>
     set (pair_ends (sr_pairs r)) = pids - set_option (sr_unmatched_pid r) \<and>
     set_option (sr_unmatched_pid r) \<subseteq> pids \<and>
     (sr_unmatched_pid r = None \<longleftrightarrow> even (card pids))"

definition valid_schedule :: "string set \<Rightarrow> int \<Rightarrow> generated_schedule \<Rightarrow> bool" where
  "valid_schedule pids R rounds \<longleftrightarrow>
     int (length rounds) = R \<and> int ` sr_number ` set rounds = {1..R} \<and>
     (\<forall>r \<in> set rounds. round_valid pids r) \<and>
     distinct (concat (map (\<lambda>r. map pair_key (sr_pairs r)) rounds)) \<and>
     distinct (concat (map (\<lambda>r. case sr_unmatched_pid r of None \<Rightarrow> [] | Some p \<Rightarrow> [p]) rounds))"

section \<open>The checker decides the specification\<close>

lemma pair_ends_simps [simp]:
  "pair_ends [] = []"
  "pair_ends (sp # sps) = sp_pid_a sp # sp_pid_b sp # pair_ends sps"
  by (simp_all add: pair_ends_def)

lemma length_pair_ends [simp]: "length (pair_ends sps) = 2 * length sps"
  by (induction sps) auto

lemma in_pair_ends: "x \<in> set (pair_ends sps) \<longleftrightarrow> (\<exists>sp \<in> set sps. x = sp_pid_a sp \<or> x = sp_pid_b sp)"
  by (auto simp: pair_ends_def)

lemma distinct_pair_keys: "distinct (pair_ends sps) \<Longrightarrow> distinct (map pair_key sps)"
  by (induction sps) (auto simp: in_pair_ends pair_key_def)

lemma uuid_value_Some: "uuid_of_string p = Some u \<Longrightarrow> uuid_value p = u"
  by (simp add: uuid_value_def)

lemma invalid_score_iff: "invalid_score x \<longleftrightarrow> \<not> (\<exists>s. x = Fin s \<and> 0 \<le> s \<and> s \<le> 1)"
  by (cases x) auto

definition all_uuids :: "string set \<Rightarrow> bool" where
  "all_uuids pids \<longleftrightarrow> (\<forall>p \<in> pids. uuid_of_string p \<noteq> None)"

lemma noncanonical_iff:
  "all_uuids pids \<Longrightarrow> x \<in> pids \<Longrightarrow> y \<in> pids \<Longrightarrow>
   noncanonical x y \<longleftrightarrow> \<not> uuid_value x < uuid_value y"
  by (auto simp: noncanonical_def all_uuids_def uuid_value_def not_less split: option.splits)

lemma pair_violations_Nil:
  assumes "all_uuids pids"
  shows "pair_violations pids n used sp = [] \<longleftrightarrow>
    pair_ok pids sp \<and> sp_pid_a sp \<notin> used \<and> sp_pid_b sp \<notin> used"
  using noncanonical_iff[OF assms]
  by (auto simp: pair_violations_def Let_def pair_ok_def invalid_score_iff split: if_splits)

lemma canon_ok: "all_uuids pids \<Longrightarrow> pair_ok pids sp \<Longrightarrow> canon (sp_pid_a sp) (sp_pid_b sp) = Some (pair_key sp)"
  by (auto simp: canon_def pair_ok_def all_uuids_def pair_key_def uuid_value_def split: option.splits)

lemma check_pairs_Nil:
  assumes "all_uuids pids"
  shows "check_pairs pids n used seen sps = (vs, used', seen') \<Longrightarrow>
    (vs = [] \<longleftrightarrow> (\<forall>sp \<in> set sps. pair_ok pids sp) \<and> distinct (pair_ends sps) \<and>
       set (pair_ends sps) \<inter> used = {} \<and>
       (\<forall>sp \<in> set sps. \<forall>m. seen (pair_key sp) = Some m \<longrightarrow> m = n)) \<and>
    (vs = [] \<longrightarrow> used' = used \<union> set (pair_ends sps) \<and>
       seen' = (\<lambda>k. if k \<in> pair_key ` set sps then Some n else seen k))"
proof (induction sps arbitrary: used seen vs used' seen')
  case (Cons sp sps)
  let ?a = "sp_pid_a sp" and ?b = "sp_pid_b sp"
  let ?used = "insert ?b (insert ?a used)"
  obtain ws seen1 where rep: "repeat_violations n seen sp = (ws, seen1)" by force
  obtain rest u2 s2 where run: "check_pairs pids n ?used seen1 sps = (rest, u2, s2)"
    by (metis prod_cases3)
  have out: "vs = pair_violations pids n used sp @ ws @ rest" "used' = u2" "seen' = s2"
    using Cons.prems rep run by (simp_all add: Let_def)
  show ?case
  proof (cases "pair_ok pids sp")
    case False
    then show ?thesis using out(1) pair_violations_Nil[OF assms] by auto
  next
    case True
    have ab: "?a \<noteq> ?b" using True by (auto simp: pair_ok_def)
    have ws: "ws = [] \<longleftrightarrow> (\<forall>m. seen (pair_key sp) = Some m \<longrightarrow> m = n)"
        "ws = [] \<Longrightarrow> seen1 = seen(pair_key sp \<mapsto> n)"
      using rep by (auto simp: repeat_violations_def canon_ok[OF assms True] split: option.splits if_splits)
    note IH = Cons.IH[OF run]
    show ?thesis
    proof (cases "pair_violations pids n used sp = [] \<and> ws = []")
      case False
      then show ?thesis using out(1) pair_violations_Nil[OF assms] ws True by auto
    next
      case ok: True
      have fresh: "?a \<notin> used" "?b \<notin> used" using ok pair_violations_Nil[OF assms] by auto
      have seen1: "seen1 = seen(pair_key sp \<mapsto> n)" using ok ws(2) by blast
      have key: "\<forall>m. seen (pair_key sp) = Some m \<longrightarrow> m = n" using ok ws(1) by blast
      then have keys: "(\<forall>m. seen1 k = Some m \<longrightarrow> m = n) \<longleftrightarrow> (\<forall>m. seen k = Some m \<longrightarrow> m = n)" for k
        by (simp add: seen1)
      have vs: "vs = rest" using out ok by simp
      have "vs = [] \<longleftrightarrow> (\<forall>sp \<in> set (sp # sps). pair_ok pids sp) \<and> distinct (pair_ends (sp # sps)) \<and>
          set (pair_ends (sp # sps)) \<inter> used = {} \<and>
          (\<forall>sp \<in> set (sp # sps). \<forall>m. seen (pair_key sp) = Some m \<longrightarrow> m = n)"
        using conjunct1[OF IH] True ab fresh key unfolding vs keys by auto
      moreover have "vs = [] \<longrightarrow> used' = used \<union> set (pair_ends (sp # sps)) \<and>
          seen' = (\<lambda>k. if k \<in> pair_key ` set (sp # sps) then Some n else seen k)"
        using conjunct2[OF IH] unfolding vs out(2,3) seen1 by (auto simp: fun_eq_iff)
      ultimately show ?thesis by blast
    qed
  qed
qed auto

text \<open>What the loop over rounds checks of one round on its own.\<close>

definition round_checked :: "string set \<Rightarrow> nat \<Rightarrow> schedule_round \<Rightarrow> bool" where
  "round_checked pids k r \<longleftrightarrow> (\<forall>sp \<in> set (sr_pairs r). pair_ok pids sp) \<and>
     distinct (pair_ends (sr_pairs r)) \<and> length (sr_pairs r) = k \<and>
     set_option (sr_unmatched_pid r) \<subseteq> pids - set (pair_ends (sr_pairs r))"

definition round_keys :: "schedule_round \<Rightarrow> (string \<times> string) list" where
  "round_keys r = map pair_key (sr_pairs r)"

lemma check_round_Nil:
  assumes "all_uuids pids" and new: "sr_number r \<notin> ran (cs_pair_seen st)"
  shows "cs_violations (check_round pids k st r) = [] \<longleftrightarrow> cs_violations st = [] \<and>
      round_checked pids k r \<and> set (round_keys r) \<inter> dom (cs_pair_seen st) = {}"
    and "cs_violations (check_round pids k st r) = [] \<Longrightarrow>
      cs_pair_seen (check_round pids k st r) =
        (\<lambda>key. if key \<in> set (round_keys r) then Some (sr_number r) else cs_pair_seen st key)"
proof -
  obtain vs used seen where run: "check_pairs pids (sr_number r) {} (cs_pair_seen st) (sr_pairs r) = (vs, used, seen)"
    by (metis prod_cases3)
  note C = check_pairs_Nil[OF assms(1) run]
  have "(\<forall>sp \<in> set (sr_pairs r). \<forall>m. cs_pair_seen st (pair_key sp) = Some m \<longrightarrow> m = sr_number r) \<longleftrightarrow>
      set (round_keys r) \<inter> dom (cs_pair_seen st) = {}"
  proof -
    have none: "cs_pair_seen st key \<noteq> Some (sr_number r)" for key using new by (metis ranI)
    have "set (round_keys r) \<inter> dom (cs_pair_seen st) = {} \<longleftrightarrow>
        (\<forall>sp \<in> set (sr_pairs r). cs_pair_seen st (pair_key sp) = None)"
      unfolding round_keys_def set_map disjoint_iff domIff by (auto simp del: split_paired_All)
    then show ?thesis using none by (metis option.exhaust option.discI)
  qed
  then show "cs_violations (check_round pids k st r) = [] \<longleftrightarrow> cs_violations st = [] \<and>
      round_checked pids k r \<and> set (round_keys r) \<inter> dom (cs_pair_seen st) = {}"
    using C run by (auto simp: check_round_def Let_def round_checked_def split: option.splits)
  show "cs_pair_seen (check_round pids k st r) =
        (\<lambda>key. if key \<in> set (round_keys r) then Some (sr_number r) else cs_pair_seen st key)"
    if "cs_violations (check_round pids k st r) = []"
    using that C run by (auto simp: check_round_def Let_def round_keys_def)
qed

lemma check_round_violations_grow:
  "\<exists>vs. cs_violations (check_round pids k st r) = cs_violations st @ vs"
  by (auto simp: check_round_def Let_def split: prod.splits)

lemma check_rounds_violations_grow:
  "\<exists>vs. cs_violations (foldl (check_round pids k) st rs) = cs_violations st @ vs"
proof (induction rs arbitrary: st)
  case (Cons r rs)
  then show ?case using check_round_violations_grow[of pids k st r]
    by (metis append.assoc foldl_Cons)
qed simp

lemma check_rounds_Nil:
  assumes "all_uuids pids"
  shows "distinct (map sr_number rs) \<Longrightarrow> set (map sr_number rs) \<inter> ran (cs_pair_seen st) = {} \<Longrightarrow>
    cs_violations (foldl (check_round pids k) st rs) = [] \<longleftrightarrow> cs_violations st = [] \<and>
      (\<forall>r \<in> set rs. round_checked pids k r) \<and> distinct (concat (map round_keys rs)) \<and>
      set (concat (map round_keys rs)) \<inter> dom (cs_pair_seen st) = {}"
proof (induction rs arbitrary: st)
  case (Cons r rs)
  let ?st = "check_round pids k st r"
  have new: "sr_number r \<notin> ran (cs_pair_seen st)" using Cons.prems by auto
  note R = check_round_Nil[OF assms new, of k]
  show ?case
  proof (cases "cs_violations ?st = []")
    case False
    then have "cs_violations (foldl (check_round pids k) st (r # rs)) \<noteq> []"
      using check_rounds_violations_grow[of pids k ?st rs] by auto
    then show ?thesis using False R(1) by auto
  next
    case True
    have seen: "cs_pair_seen ?st = (\<lambda>key. if key \<in> set (round_keys r) then Some (sr_number r) else cs_pair_seen st key)"
      using R(2)[OF True] .
    have sub: "ran (cs_pair_seen ?st) \<subseteq> insert (sr_number r) (ran (cs_pair_seen st))"
      unfolding seen by (auto simp: ran_def split: if_splits)
    have "set (map sr_number rs) \<inter> insert (sr_number r) (ran (cs_pair_seen st)) = {}"
      using Cons.prems by auto
    then have dis: "set (map sr_number rs) \<inter> ran (cs_pair_seen ?st) = {}" using sub by blast
    have drs: "distinct (map sr_number rs)" using Cons.prems by simp
    have "dom (cs_pair_seen ?st) = set (round_keys r) \<union> dom (cs_pair_seen st)"
      unfolding seen by (auto simp: dom_def)
    moreover have "distinct (round_keys r)"
      using True R(1) distinct_pair_keys by (auto simp: round_checked_def round_keys_def)
    ultimately show ?thesis using Cons.IH[OF drs dis] conjunct2[OF R(1)[THEN iffD1, OF True]] True R(1)
      by (simp add: Int_Un_distrib Int_Un_distrib2) blast
  qed
qed simp

subsection \<open>Byes\<close>

definition bye_pids :: "generated_schedule \<Rightarrow> string list" where
  "bye_pids rs = concat (map (\<lambda>r. case sr_unmatched_pid r of None \<Rightarrow> [] | Some p \<Rightarrow> [p]) rs)"

lemma cs_unmatched_seen_fold:
  "cs_unmatched_seen (foldl (check_round pids k) st rs) = foldl bump (cs_unmatched_seen st) (bye_pids rs)"
proof (induction rs arbitrary: st)
  case (Cons r rs)
  then show ?case
    by (auto simp: bye_pids_def check_round_def Let_def split: option.splits prod.splits)
qed (simp add: bye_pids_def)

lemma bump_counts:
  "distinct (map fst al) \<Longrightarrow>
   distinct (map fst (foldl bump al ps)) \<and>
   (\<forall>p. (case map_of (foldl bump al ps) p of None \<Rightarrow> 0 | Some c \<Rightarrow> c) =
        (case map_of al p of None \<Rightarrow> 0 | Some c \<Rightarrow> c) + count_list ps p)"
proof (induction ps arbitrary: al)
  case (Cons q ps)
  have d: "distinct (map fst (bump al q))" using Cons.prems by (simp add: bump_def distinct_update)
  show ?case using Cons.IH[OF d] by (auto simp: bump_def update_conv' split: if_splits)
qed simp

lemma distinct_count_list: "distinct xs \<longleftrightarrow> (\<forall>x. count_list xs x \<le> 1)"
  by (induction xs) (auto simp: count_list_0_iff le_Suc_eq split: if_splits)

lemma bye_counts_ok:
  "concat (map (\<lambda>(p, c). if 1 < c then [UnmatchedTwice p c] else []) (foldl bump [] ps)) = [] \<longleftrightarrow>
   distinct ps"
proof -
  let ?al = "foldl bump [] ps"
  have d: "distinct (map fst ?al)"
    and m: "\<And>p. (case map_of ?al p of None \<Rightarrow> 0 | Some c \<Rightarrow> c) = count_list ps p"
    using bump_counts[of "[]" ps] by auto
  have "(\<forall>(p, c) \<in> set ?al. c \<le> 1) \<longleftrightarrow> (\<forall>p. count_list ps p \<le> 1)"
    unfolding m[symmetric] using d by (auto split: option.splits dest: map_of_SomeD)
  moreover have "concat (map (\<lambda>(p, c). if 1 < c then [UnmatchedTwice p c] else []) al) = [] \<longleftrightarrow>
      (\<forall>(p, c) \<in> set al. c \<le> 1)" for al
    by (induction al) (auto split: if_splits)
  ultimately show ?thesis by (simp add: distinct_count_list)
qed

lemma round_checked_iff:
  assumes "finite pids"
  shows "round_checked pids (card pids div 2) r \<and> (sr_unmatched_pid r = None \<longleftrightarrow> even (card pids)) \<longleftrightarrow>
    round_valid pids r"
proof -
  let ?E = "pair_ends (sr_pairs r)" and ?U = "set_option (sr_unmatched_pid r)"
  have cardU: "?U \<subseteq> pids \<Longrightarrow> card (pids - ?U) = card pids - card ?U"
    using assms by (simp add: card_Diff_subset finite_subset)
  have "length (sr_pairs r) = card pids div 2 \<and> ?U \<inter> set ?E = {} \<longleftrightarrow> set ?E = pids - ?U"
    if "distinct ?E" "set ?E \<subseteq> pids" "?U \<subseteq> pids" "sr_unmatched_pid r = None \<longleftrightarrow> even (card pids)"
  proof
    assume l: "length (sr_pairs r) = card pids div 2 \<and> ?U \<inter> set ?E = {}"
    have "card (set ?E) = card (pids - ?U)"
      using distinct_card[OF that(1)] l that(4) cardU[OF that(3)]
      by (cases "sr_unmatched_pid r") (auto simp: even_two_times_div_two)
    then show "set ?E = pids - ?U" using l that assms by (intro card_subset_eq) auto
  next
    assume e: "set ?E = pids - ?U"
    then have "2 * length (sr_pairs r) = card pids - card ?U"
      using distinct_card[OF that(1)] cardU[OF that(3)] by simp
    then show "length (sr_pairs r) = card pids div 2 \<and> ?U \<inter> set ?E = {}"
      using e that(4) by (cases "sr_unmatched_pid r") auto
  qed
  moreover have "\<forall>sp \<in> set (sr_pairs r). pair_ok pids sp \<Longrightarrow> set ?E \<subseteq> pids"
    by (auto simp: in_pair_ends pair_ok_def)
  moreover have "?U \<subseteq> pids - set ?E \<longleftrightarrow> ?U \<subseteq> pids \<and> ?U \<inter> set ?E = {}" by blast
  ultimately show ?thesis
    unfolding round_checked_def round_valid_def
    by (cases "(\<forall>sp \<in> set (sr_pairs r). pair_ok pids sp) \<and> distinct ?E \<and> ?U \<subseteq> pids \<and>
      (sr_unmatched_pid r = None \<longleftrightarrow> even (card pids))") auto
qed

text \<open>Rounds numbered \<open>1\<close> to \<open>R\<close>, \<open>R\<close> of them, have distinct numbers.\<close>

lemma round_numbers_distinct:
  assumes "int (length rs) = R" "int ` sr_number ` set rs = {1..R}"
  shows "distinct (map sr_number rs)"
proof -
  have "card (int ` set (map sr_number rs)) = length (map sr_number rs)" using assms by simp
  then have "card (set (map sr_number rs)) = length (map sr_number rs)" by (simp add: card_image)
  then show ?thesis by (rule card_distinct)
qed

lemma validate_accepts:
  assumes "finite pids" "all_uuids pids"
  shows "validate_schedule rounds pids R = [] \<longleftrightarrow> valid_schedule pids R rounds"
proof -
  let ?k = "if card pids mod 2 = 0 then card pids div 2 else (card pids - 1) div 2"
  let ?init = "\<lparr>cs_violations = [], cs_unmatched_seen = [], cs_pair_seen = Map.empty\<rparr>"
  let ?st = "foldl (check_round pids ?k) ?init rounds"
  have k: "?k = card pids div 2" by (cases "even (card pids)") (auto elim!: oddE)
  have parity: "concat (map (\<lambda>r. case sr_unmatched_pid r of
        None \<Rightarrow> if card pids mod 2 = 0 then [] else [MissingUnmatched (sr_number r)]
      | Some p \<Rightarrow> if card pids mod 2 = 0 then [UnmatchedInEvenEvent (sr_number r) p] else []) rounds) = []
    \<longleftrightarrow> (\<forall>r \<in> set rounds. sr_unmatched_pid r = None \<longleftrightarrow> even (card pids))"
    by (induction rounds) (auto simp: even_iff_mod_2_eq_zero split: option.splits)
  have byes: "concat (map (\<lambda>(p, c). if 1 < c then [UnmatchedTwice p c] else []) (cs_unmatched_seen ?st)) = []
    \<longleftrightarrow> distinct (bye_pids rounds)"
    unfolding cs_unmatched_seen_fold check_state.simps by (rule bye_counts_ok)
  have out: "validate_schedule rounds pids R = [] \<longleftrightarrow>
      int (length rounds) = R \<and> int ` sr_number ` set rounds = {1..R} \<and>
      (\<forall>r \<in> set rounds. sr_unmatched_pid r = None \<longleftrightarrow> even (card pids)) \<and>
      cs_violations ?st = [] \<and> distinct (bye_pids rounds)"
    unfolding validate_schedule_def Let_def append_is_Nil_conv parity byes
    by (simp add: image_image)
  show ?thesis
  proof (cases "int (length rounds) = R \<and> int ` sr_number ` set rounds = {1..R}")
    case True
    then have d: "distinct (map sr_number rounds)" using round_numbers_distinct by blast
    have "cs_violations ?st = [] \<longleftrightarrow> (\<forall>r \<in> set rounds. round_checked pids (card pids div 2) r) \<and>
        distinct (concat (map round_keys rounds))"
      unfolding k using check_rounds_Nil[OF assms(2) d, of ?init "card pids div 2"] by simp
    then show ?thesis
      unfolding out valid_schedule_def bye_pids_def[symmetric] round_keys_def[symmetric]
      using round_checked_iff[OF assms(1)] True by blast
  next
    case False
    then show ?thesis unfolding out valid_schedule_def by blast
  qed
qed

section \<open>Schedules that \<open>generate_schedule\<close> returns\<close>

lemma idx_to_pid_set: "set (idx_to_pid inp) = set (pid_list inp)"
  by (simp add: idx_to_pid_def)

lemma idx_to_pid_strict:
  assumes "distinct (pid_list inp)" "inj_on uuid_value (set (pid_list inp))"
  shows "sorted_wrt (\<lambda>x y. uuid_value x < uuid_value y) (idx_to_pid inp)"
proof -
  have "distinct (map uuid_value (idx_to_pid inp))"
    using assms by (simp add: idx_to_pid_def distinct_map)
  moreover have "sorted (map uuid_value (idx_to_pid inp))" by (simp add: idx_to_pid_def)
  ultimately show ?thesis by (simp add: strict_sorted_iff flip: sorted_wrt_map)
qed

definition lift_pair :: "string list \<Rightarrow> ipair \<Rightarrow> string \<times> string" where
  "lift_pair idx q = (idx ! fst q, idx ! snd q)"

lemma output_round_keys:
  "map pair_key (sr_pairs (output_round sm idx r ps bye)) = map (lift_pair idx) (sort ps)"
  by (simp add: output_round_def pair_key_def lift_pair_def case_prod_unfold)

lemma output_round_ends:
  "pair_ends (sr_pairs (output_round sm idx r ps bye)) = map ((!) idx) (endpoints (sort ps))"
proof -
  have "pair_ends (map (\<lambda>(a, b). \<lparr>sp_pid_a = idx ! a, sp_pid_b = idx ! b, sp_score = Fin (sm a b)\<rparr>) qs)
      = map ((!) idx) (endpoints qs)" for qs
    by (induction qs) auto
  then show ?thesis by (simp add: output_round_def)
qed

lemma output_round_valid:
  assumes ok: "round_ok N ps bye" and idx: "length idx = N" "sorted_wrt (\<lambda>x y. uuid_value x < uuid_value y) idx"
    and sm: "\<And>i j. 0 \<le> sm i j \<and> sm i j \<le> (1 :: rat)"
  shows "round_valid (set idx) (output_round sm idx r ps bye)"
proof -
  let ?r = "output_round sm idx r ps bye"
  have dis: "distinct idx"
    using idx(2) by (auto simp: distinct_conv_nth sorted_wrt_iff_nth_less) (metis nat_neq_iff order_less_irrefl)
  have "mset (endpoints (sort ps)) = mset (endpoints ps)" by (simp add: endpoints_mset)
  then have mat: "matched_on ({..<N} - set_option bye) (sort ps)"
    by (rule matched_on_mset[THEN iffD2]) (use ok in \<open>simp add: round_ok_def\<close>)
  have bye: "set_option bye \<subseteq> {..<N}" "bye = None \<longleftrightarrow> even N" using ok by (auto simp: round_ok_def)
  have all: "set idx = (!) idx ` {..<N}" using idx(1) by (auto simp: set_conv_nth)
  have inj: "inj_on ((!) idx) {..<N}" using dis idx(1) by (auto simp: inj_on_def nth_eq_iff_index_eq)
  have "pair_ok (set idx) sp" if "sp \<in> set (sr_pairs ?r)" for sp
  proof -
    from that obtain a b where sp: "sp = \<lparr>sp_pid_a = idx ! a, sp_pid_b = idx ! b, sp_score = Fin (sm a b)\<rparr>"
      and ab: "(a, b) \<in> set ps" by (auto simp: output_round_def)
    have "a < b" using ok ab by (auto simp: round_ok_def ordered_pairs_def)
    moreover have "b < N" "a < N" using ok matched_on_neq[OF _ ab] by (auto simp: round_ok_def)
    ultimately show ?thesis using idx(1) sm sorted_wrt_nth_less[OF idx(2), of a b] by (auto simp: sp pair_ok_def)
  qed
  moreover have ends: "set (endpoints (sort ps)) = {..<N} - set_option bye" "distinct (endpoints (sort ps))"
    using mat by (auto simp: matched_on_def)
  have "distinct (pair_ends (sr_pairs ?r))"
    unfolding output_round_ends distinct_map using ends inj by (auto intro: inj_on_subset)
  moreover have "set (pair_ends (sr_pairs ?r)) = set idx - set_option (sr_unmatched_pid ?r)"
    unfolding output_round_ends set_map ends all
    using bye inj by (cases bye) (auto simp: output_round_def inj_on_def)
  moreover have "sr_unmatched_pid ?r = None \<longleftrightarrow> even (card (set idx))"
    using bye(2) distinct_card[OF dis] idx(1) by (simp add: output_round_def)
  moreover have "set_option (sr_unmatched_pid ?r) \<subseteq> set idx"
    using bye idx(1) by (cases bye) (auto simp: output_round_def)
  ultimately show ?thesis unfolding round_valid_def by blast
qed

lemma mset_concat_sort: "mset (concat (map sort xss)) = mset (concat xss)"
  by (induction xss) auto

text \<open>What a successful run of \<open>generate_schedule\<close> went through.\<close>

lemma generate_schedule_Inr:
  assumes "generate_schedule inp = Inr sched"
  obtains st where "1 \<le> mi_num_rounds inp" "distinct (pid_list inp)" "all_uuids (set (pid_list inp))"
    "2 \<le> length (pid_list inp)" "mi_num_rounds inp \<le> int (max_rounds (length (pid_list inp)))"
    "sched_inv (length (pid_list inp)) st" "length (st_byes st) = nat (mi_num_rounds inp)"
    "sched = map (\<lambda>r. output_round (score_mat inp) (idx_to_pid inp) r
       (improve_rounds (score_mat inp) (set (concat (st_pairs st))) (st_pairs st) ! r) (st_byes st ! r))
       [0..<nat (mi_num_rounds inp)]"
proof -
  let ?N = "length (pid_list inp)"
  have g: "1 \<le> mi_num_rounds inp" "distinct (pid_list inp)" "all_uuids (set (pid_list inp))" "2 \<le> ?N"
      "mi_num_rounds inp \<le> int (max_rounds ?N)"
    using assms card_distinct
    by (auto simp: generate_schedule_def Let_def all_uuids_def split: if_splits)
  from assms obtain st where
    st: "build_rounds (solve_round (sorted_by_score (score_mat inp) ?N)) (idx_to_pid inp) ?N
        [1..<nat (mi_num_rounds inp) + 1] init_sched_state = Inr st"
    and sched: "sched = map (\<lambda>r. output_round (score_mat inp) (idx_to_pid inp) r
       (improve_rounds (score_mat inp) (set (concat (st_pairs st))) (st_pairs st) ! r) (st_byes st ! r))
       [0..<nat (mi_num_rounds inp)]"
    by (auto simp: generate_schedule_def Let_def bindE_Inr_iff split: if_splits)
  show ?thesis
    using that[OF g _ _ sched] solver.build_rounds_inv[OF sched_inv_init st]
    by (simp add: init_sched_state_def)
qed

lemma score_mat_range: "0 \<le> score_mat inp i j \<and> score_mat inp i j \<le> 1"
  by (simp add: score_mat_def compute_match_score_range)

lemma schedule_is_valid:
  assumes gen: "generate_schedule inp = Inr sched"
    and inj: "inj_on uuid_value (set (pid_list inp))"
  shows "valid_schedule (set (pid_list inp)) (mi_num_rounds inp) sched"
proof -
  let ?N = "length (pid_list inp)" and ?idx = "idx_to_pid inp" and ?sm = "score_mat inp"
  obtain st where R: "1 \<le> mi_num_rounds inp" and dis: "distinct (pid_list inp)" and inv: "sched_inv ?N st"
    and len: "length (st_byes st) = nat (mi_num_rounds inp)"
    and sched: "sched = map (\<lambda>r. output_round ?sm ?idx r
       (improve_rounds ?sm (set (concat (st_pairs st))) (st_pairs st) ! r) (st_byes st ! r))
       [0..<nat (mi_num_rounds inp)]"
    using generate_schedule_Inr[OF gen] by metis
  define out where "out = improve_rounds ?sm (set (concat (st_pairs st))) (st_pairs st)"
  have O: "list_all2 (round_ok ?N) out (st_byes st)" "distinct (concat out)"
    using improve_rounds_inv[OF inv, of ?sm] by (simp_all add: out_def)
  have lenO: "length out = nat (mi_num_rounds inp)" using list_all2_lengthD[OF O(1)] len by simp
  note strict = idx_to_pid_strict[OF dis inj]
  have lidx: "length ?idx = ?N" by (simp add: idx_to_pid_def)
  have sets: "set ?idx = set (pid_list inp)" by (rule idx_to_pid_set)
  have dist_idx: "distinct ?idx" using dis by (simp add: idx_to_pid_def)
  have valid: "\<forall>r \<in> set sched. round_valid (set (pid_list inp)) r"
  proof
    fix r assume "r \<in> set sched"
    then obtain k where k: "k < nat (mi_num_rounds inp)" "r = output_round ?sm ?idx k (out ! k) (st_byes st ! k)"
      by (auto simp: sched out_def)
    have "round_ok ?N (out ! k) (st_byes st ! k)" using O(1) k(1) lenO by (auto simp: list_all2_conv_all_nth)
    from output_round_valid[OF this lidx strict score_mat_range]
    show "round_valid (set (pid_list inp)) r" by (simp add: k(2) sets)
  qed
  have nums: "int ` sr_number ` set sched = {1..mi_num_rounds inp}"
  proof -
    have "int ` sr_number ` set sched = (\<lambda>k. int (k + 1)) ` {0..<nat (mi_num_rounds inp)}"
      unfolding sched output_round_def set_map image_image by simp
    also have "\<dots> = {1..mi_num_rounds inp}"
    proof safe
      fix x assume "x \<in> {1..mi_num_rounds inp}"
      then show "x \<in> (\<lambda>k. int (k + 1)) ` {0..<nat (mi_num_rounds inp)}"
        by (intro image_eqI[of _ _ "nat (x - 1)"]) auto
    qed auto
    finally show ?thesis .
  qed
  have "map (\<lambda>r. map pair_key (sr_pairs r)) sched = map (map (lift_pair ?idx)) (map sort out)"
    unfolding sched out_def[symmetric]
    by (rule nth_equalityI) (simp_all add: lenO output_round_keys)
  then have keys: "concat (map (\<lambda>r. map pair_key (sr_pairs r)) sched)
      = map (lift_pair ?idx) (concat (map sort out))"
    by (simp only: map_concat)
  have pairs_lt: "a < ?N \<and> b < ?N" if "(a, b) \<in> set (concat out)" for a b
    using that O(1) by (auto dest!: list_all2_in1 simp: round_ok_def dest: matched_on_neq)
  have "inj_on (lift_pair ?idx) (set (concat out))"
  proof (rule inj_onI, clarify)
    fix a b c d
    assume "(a, b) \<in> set (concat out)" "(c, d) \<in> set (concat out)"
      and eq: "lift_pair ?idx (a, b) = lift_pair ?idx (c, d)"
    then have "a < ?N" "b < ?N" "c < ?N" "d < ?N" using pairs_lt by blast+
    then show "a = c \<and> b = d"
      using eq nth_eq_iff_index_eq[OF dist_idx] by (simp add: lift_pair_def lidx)
  qed
  moreover have "set (concat (map sort out)) = set (concat out)" "distinct (concat (map sort out))"
    using mset_concat_sort[of out] O(2) by (metis set_mset_mset, metis mset_eq_imp_distinct_iff)
  ultimately have dkeys: "distinct (concat (map (\<lambda>r. map pair_key (sr_pairs r)) sched))"
    unfolding keys distinct_map by simp
  have byes: "map (\<lambda>r. case sr_unmatched_pid r of None \<Rightarrow> [] | Some p \<Rightarrow> [p]) sched
      = map (\<lambda>b. case b of None \<Rightarrow> [] | Some i \<Rightarrow> [?idx ! i]) (st_byes st)"
    unfolding sched by (rule nth_equalityI) (simp_all add: len output_round_def split: option.splits)
  have bye_lt: "i < ?N" "odd ?N" if "Some i \<in> set (st_byes st)" for i
  proof -
    from that obtain k where k: "k < length (st_byes st)" "st_byes st ! k = Some i" by (auto simp: in_set_conv_nth)
    with O(1) have "round_ok ?N (out ! k) (Some i)" by (auto simp: list_all2_conv_all_nth)
    then show "i < ?N" "odd ?N" by (auto simp: round_ok_def)
  qed
  have "distinct (concat (map (\<lambda>b. case b of None \<Rightarrow> [] | Some i \<Rightarrow> [?idx ! i]) bs))"
    if "\<forall>i. Some i \<in> set bs \<longrightarrow> i < ?N \<and> distinct bs" for bs
    using that
  proof (induction bs)
    case (Cons b bs)
    show ?case
    proof (cases b)
      case None
      with Cons show ?thesis by auto
    next
      case (Some i)
      then have "distinct (b # bs)" "i < ?N" using Cons.prems by auto
      with Some Cons dist_idx lidx show ?thesis
        by (auto simp: nth_eq_iff_index_eq split: option.splits)
    qed
  qed simp
  moreover have "distinct (st_byes st)" if "Some i \<in> set (st_byes st)" for i
    using inv bye_lt(2)[OF that] by (simp add: sched_inv_def)
  ultimately have dbyes: "distinct (concat (map (\<lambda>r. case sr_unmatched_pid r of None \<Rightarrow> [] | Some p \<Rightarrow> [p]) sched))"
    unfolding byes using bye_lt by blast
  show ?thesis
    unfolding valid_schedule_def
  proof (intro conjI valid nums dkeys dbyes)
    show "int (length sched) = mi_num_rounds inp" using R by (simp add: sched)
  qed
qed

section \<open>Properties\<close>

text \<open>
  C1. Every schedule \<open>generate_schedule\<close> returns, whatever the rounds, the greedy choices, the
  recovery search and the local search did, is a valid schedule for the given participants and
  number of rounds, provided different pid strings denote different UUIDs.
\<close>

theorem generate_schedule_valid:
  assumes "generate_schedule inp = Inr sched" "inj_on uuid_value (set (pid_list inp))"
  shows "valid_schedule (set (pid_list inp)) (mi_num_rounds inp) sched"
  using assms by (rule schedule_is_valid)

text \<open>
  C2. The checker accepts a schedule exactly when it is valid: \<open>R\<close> rounds numbered \<open>1\<close> to \<open>R\<close>, in
  every round each participant in one pair or with the bye (a bye exactly when their number is
  odd), pairs canonical and scored in \<open>[0, 1]\<close>, no pair twice, no participant two byes.
\<close>

theorem validate_schedule_Nil_iff:
  assumes "finite pids" "all_uuids pids"
  shows "validate_schedule rounds pids R = [] \<longleftrightarrow> valid_schedule pids R rounds"
  using assms by (rule validate_accepts)

end
