(* ===== verification/Matching_Total.thy ===== *)
theory Matching_Total
  imports Matching_Validate
begin

text \<open>
  When \<open>generate_schedule\<close> succeeds and what its failures mean: the argument checks, the errors
  that cannot occur, completeness of the search behind \<open>MatchingImpossibleError\<close>, and the
  single-round event, which always has a schedule.
\<close>

section \<open>Accepted arguments\<close>

definition accepted_input :: "match_input \<Rightarrow> bool" where
  "accepted_input inp \<longleftrightarrow> 1 \<le> mi_num_rounds inp \<and> distinct (pid_list inp) \<and>
     all_uuids (set (pid_list inp)) \<and> 2 \<le> length (pid_list inp) \<and>
     mi_num_rounds inp \<le> int (max_rounds (length (pid_list inp)))"

lemma distinct_card_iff: "distinct xs \<longleftrightarrow> card (set xs) = length xs"
  using card_distinct distinct_card by blast

lemma generate_schedule_accepted:
  "accepted_input inp \<Longrightarrow> generate_schedule inp =
    bindE (build_rounds (solve_round (sorted_by_score (score_mat inp) (length (pid_list inp))))
       (idx_to_pid inp) (length (pid_list inp)) [1..<nat (mi_num_rounds inp) + 1] init_sched_state)
     (\<lambda>st. Inr (map (\<lambda>r. output_round (score_mat inp) (idx_to_pid inp) r
        (improve_rounds (score_mat inp) (set (concat (st_pairs st))) (st_pairs st) ! r) (st_byes st ! r))
        [0..<nat (mi_num_rounds inp)]))"
  by (auto simp: accepted_input_def generate_schedule_def Let_def all_uuids_def distinct_card)

lemma generate_schedule_Inr_accepted:
  "generate_schedule inp = Inr sched \<Longrightarrow> accepted_input inp"
  by (erule generate_schedule_Inr) (simp add: accepted_input_def)

section \<open>What a failure means\<close>

text \<open>
  The meaning of every error. The bye loop never finds everyone already unmatched, so that branch
  is unreachable; a stranded participant is reported from a round whose state satisfies the
  schedule invariant and which, unless the 10000 states of the recovery search were used up, had
  no legal matching left.
\<close>

fun error_means :: "match_input \<Rightarrow> matching_error \<Rightarrow> bool" where
  "error_means inp NumRoundsBelowOne \<longleftrightarrow> mi_num_rounds inp < 1"
| "error_means inp PidsNotUnique \<longleftrightarrow> 1 \<le> mi_num_rounds inp \<and> \<not> distinct (pid_list inp)"
| "error_means inp PidsNotUuids \<longleftrightarrow> 1 \<le> mi_num_rounds inp \<and> distinct (pid_list inp) \<and>
     \<not> all_uuids (set (pid_list inp))"
| "error_means inp (FewerThanTwo n) \<longleftrightarrow> 1 \<le> mi_num_rounds inp \<and> distinct (pid_list inp) \<and>
     all_uuids (set (pid_list inp)) \<and> n = length (pid_list inp) \<and> n < 2"
| "error_means inp (TooManyRounds n R m) \<longleftrightarrow> distinct (pid_list inp) \<and>
     all_uuids (set (pid_list inp)) \<and> n = length (pid_list inp) \<and> 2 \<le> n \<and>
     R = mi_num_rounds inp \<and> m = max_rounds n \<and> int m < R"
| "error_means inp (AllUnmatchedBefore r) \<longleftrightarrow> False"
| "error_means inp (Stranded r pid nodes) \<longleftrightarrow> accepted_input inp \<and> 1 \<le> r \<and>
     int r \<le> mi_num_rounds inp \<and> pid \<in> set (pid_list inp) \<and>
     (\<exists>st bye. sched_inv (length (pid_list inp)) st \<and>
        choose_bye (length (pid_list inp)) r st = Inr bye \<and>
        (max_recovery_nodes < nodes \<or> round_blocked (length (pid_list inp)) st bye))"

lemma generate_schedule_accepted_fail:
  assumes acc: "accepted_input inp" and fail: "generate_schedule inp = Inl e"
  shows "error_means inp e"
proof -
  let ?N = "length (pid_list inp)" and ?R = "nat (mi_num_rounds inp)"
  have run: "build_rounds (solve_round (sorted_by_score (score_mat inp) ?N)) (idx_to_pid inp) ?N
      [1..<?R + 1] init_sched_state = Inl e"
    using fail unfolding generate_schedule_accepted[OF acc] by (auto simp: bindE_Inl_iff)
  have "?R \<le> ?N" using acc by (auto simp: accepted_input_def max_rounds_def split: if_splits)
  then have "length (st_byes init_sched_state) + length [1..<?R + 1] \<le> ?N"
    by (simp add: init_sched_state_def)
  from solver.build_rounds_fail[OF sched_inv_init this run]
  obtain r failed nodes st bye where e: "e = Stranded r (idx_to_pid inp ! failed) nodes"
    and r: "r \<in> set [1..<?R + 1]" "failed < ?N"
    and st: "sched_inv ?N st" "choose_bye ?N r st = Inr bye"
      "nodes \<le> max_recovery_nodes \<longrightarrow> round_blocked ?N st bye" by blast
  have "idx_to_pid inp ! failed \<in> set (idx_to_pid inp)"
    using r(2) by (intro nth_mem) (simp add: idx_to_pid_def)
  then show ?thesis using acc r st unfolding e by (auto simp: idx_to_pid_set not_le)
qed

lemma generate_schedule_rejected:
  "\<not> accepted_input inp \<Longrightarrow> \<exists>e. generate_schedule inp = Inl e \<and> error_means inp e"
  by (auto simp: accepted_input_def generate_schedule_def Let_def all_uuids_def distinct_card_iff not_le not_less)


text \<open>An event of one round always has a schedule.\<close>

lemma one_round_schedule:
  assumes acc: "accepted_input inp" and R: "mi_num_rounds inp = 1"
  shows "\<exists>sched. generate_schedule inp = Inr sched"
proof -
  have "length (pid_list inp) \<noteq> 0" using acc by (auto simp: accepted_input_def)
  from first_round_solved[OF this] obtain st where
    "build_round (solve_round (sorted_by_score (score_mat inp) (length (pid_list inp))))
       (idx_to_pid inp) (length (pid_list inp)) 1 init_sched_state = Inr st" by blast
  then show ?thesis
    unfolding generate_schedule_accepted[OF acc] by (simp add: R)
qed

section \<open>A concrete event\<close>

definition sample_pid :: "char \<Rightarrow> string" where
  "sample_pid c = ''00000000-0000-0000-0000-00000000000'' @ [c]"

definition sample_input :: "int \<Rightarrow> match_input" where
  "sample_input R = \<lparr>mi_participants =
      [\<lparr>mp_pid = sample_pid (CHR ''3''), mp_profile = \<lparr>tag_ids = {''music''}\<rparr>\<rparr>,
       \<lparr>mp_pid = sample_pid (CHR ''1''), mp_profile = \<lparr>tag_ids = {''music'', ''art''}\<rparr>\<rparr>,
       \<lparr>mp_pid = sample_pid (CHR ''2''), mp_profile = \<lparr>tag_ids = {}\<rparr>\<rparr>],
     mi_num_rounds = R, mi_weights = \<lparr>tag_weight = 1\<rparr>\<rparr>"

lemma sample_pids: "pid_list (sample_input R) = map sample_pid [CHR ''3'', CHR ''1'', CHR ''2'']"
  by (simp add: pid_list_def sample_input_def)

lemma sample_rounds [simp]: "mi_num_rounds (sample_input R) = R"
  by (simp add: sample_input_def)

lemma sample_pid_eq: "sample_pid c = sample_pid d \<longleftrightarrow> c = d"
  by (simp add: sample_pid_def)

lemma sample_uuids:
  "uuid_of_string (sample_pid (CHR ''1'')) = Some (UUID 1)"
  "uuid_of_string (sample_pid (CHR ''2'')) = Some (UUID 2)"
  "uuid_of_string (sample_pid (CHR ''3'')) = Some (UUID 3)"
  by code_simp+

lemma sample_accepted: "R \<in> {1, 2, 3} \<Longrightarrow> accepted_input (sample_input R)"
  by (auto simp: accepted_input_def sample_pids all_uuids_def sample_uuids max_rounds_def sample_pid_eq
      sample_rounds)

lemma sample_inj: "inj_on uuid_value (set (pid_list (sample_input R)))"
  by (auto simp: sample_pids uuid_value_def sample_uuids)

lemma sample_one_round: "\<exists>sched. generate_schedule (sample_input 1) = Inr sched"
  by (rule one_round_schedule) (simp_all add: sample_accepted)

lemma generate_schedule_valid_witness:
  "\<exists>sched. generate_schedule (sample_input 1) = Inr sched \<and>
     valid_schedule (set (pid_list (sample_input 1))) (mi_num_rounds (sample_input 1)) sched"
  using sample_one_round generate_schedule_valid[OF _ sample_inj] by blast

lemma validate_schedule_Nil_iff_witness:
  "validate_schedule [] {sample_pid (CHR ''1''), sample_pid (CHR ''2'')} 1 = [] \<longleftrightarrow>
   valid_schedule {sample_pid (CHR ''1''), sample_pid (CHR ''2'')} 1 []"
  by (rule validate_schedule_Nil_iff) (simp_all add: all_uuids_def sample_uuids)

text \<open>
  C40. Liveness of the engine for one-round events: with at least two distinct valid participants a
  one-round event always gets a schedule; the greedy pass never strands anyone in round one.
\<close>

theorem generate_schedule_one_round:
  assumes "accepted_input inp" "mi_num_rounds inp = 1"
  shows "\<exists>sched. generate_schedule inp = Inr sched"
  using assms by (rule one_round_schedule)

lemma generate_schedule_one_round_witness:
  "accepted_input (sample_input 1) \<and> (\<exists>sched. generate_schedule (sample_input 1) = Inr sched)"
  using generate_schedule_one_round[OF sample_accepted[of 1]] sample_accepted[of 1] by simp

end
