(* ===== verification/Py_Json.thy ===== *)
theory Py_Json
  imports Float64 "HOL-Library.AList"
begin

text \<open>
  JSON values as \<open>json.loads\<close> returns them and dicts as insertion-ordered association lists:
  \<open>d[k] = v\<close> replaces in place or appends, \<open>{**d, ...}\<close> updates one key after the other.
\<close>

datatype json =
    JNull
  | JBool bool
  | JInt int
  | JFloat pyfloat
  | JStr string
  | JList "json list"
  | JObj "(string \<times> json) list"

type_synonym pydict = "(string \<times> json) list"

definition dict_get :: "pydict \<Rightarrow> string \<Rightarrow> json option" where
  "dict_get d k = map_of d k"

definition dict_set :: "string \<Rightarrow> json \<Rightarrow> pydict \<Rightarrow> pydict" where
  "dict_set k v d = AList.update k v d"

text \<open>\<open>{**d, **e}\<close>.\<close>

definition dict_merge :: "pydict \<Rightarrow> pydict \<Rightarrow> pydict" where
  "dict_merge d e = fold (\<lambda>(k, v). dict_set k v) e d"

definition dict_keys :: "pydict \<Rightarrow> string set" where
  "dict_keys d = set (map fst d)"

lemma dict_get_set [simp]:
  "dict_get (dict_set k v d) k' = (if k' = k then Some v else dict_get d k')"
  by (simp add: dict_get_def dict_set_def update_conv')

lemma dict_merge_simps [simp]:
  "dict_merge d [] = d"
  "dict_merge d ((k, v) # e) = dict_merge (dict_set k v d) e"
  by (simp_all add: dict_merge_def)

lemma dict_keys_simps [simp]:
  "dict_keys [] = {}"
  "dict_keys ((k, v) # d) = insert k (dict_keys d)"
  by (simp_all add: dict_keys_def)

lemma dict_get_None_iff: "dict_get d k = None \<longleftrightarrow> k \<notin> dict_keys d"
  by (auto simp: dict_get_def dict_keys_def map_of_eq_None_iff)

lemma dict_get_Cons: "dict_get ((k, v) # d) k' = (if k' = k then Some v else dict_get d k')"
  by (simp add: dict_get_def)

lemma dict_get_Nil [simp]: "dict_get [] k = None"
  by (simp add: dict_get_def)

lemma dict_get_merge:
  "distinct (map fst e) \<Longrightarrow>
   dict_get (dict_merge d e) k = (case dict_get e k of Some v \<Rightarrow> Some v | None \<Rightarrow> dict_get d k)"
proof (induction e arbitrary: d)
  case (Cons p e)
  obtain k' v where p: "p = (k', v)" by force
  have "k' \<notin> dict_keys e" using Cons.prems by (simp add: p dict_keys_def)
  then have "dict_get e k' = None" by (simp add: dict_get_None_iff)
  then show ?case using Cons by (auto simp: p dict_get_Cons split: option.splits)
qed simp

section \<open>Truthiness\<close>

text \<open>\<open>bool(x)\<close> of a JSON value.\<close>

fun truthy :: "json \<Rightarrow> bool" where
  "truthy JNull = False"
| "truthy (JBool b) = b"
| "truthy (JInt i) = (i \<noteq> 0)"
| "truthy (JFloat f) = (f \<noteq> Fin 0)"
| "truthy (JStr s) = (s \<noteq> [])"
| "truthy (JList xs) = (xs \<noteq> [])"
| "truthy (JObj d) = (d \<noteq> [])"

end
