(* ===== verification/Event_Store.thy ===== *)
theory Event_Store
  imports Py_Json Uuid_Text
begin

text \<open>
  The rows of the Django models of \<open>apps/events/models.py\<close> and the database they form. A table is
  the list of its rows in insertion order, primary keys are UUIDs, instants and durations are
  integers in microseconds. Columns no modelled code reads (creation and update stamps) are left out.
\<close>

section \<open>Enumerations\<close>

datatype event_status =
    ES_Draft | ES_Scheduled | ES_Active | ES_Completed | ES_Cancelled
  | ES_RegistrationOpen | ES_Locked | ES_Running | ES_Paused

definition event_status_value :: "event_status \<Rightarrow> string" where
  "event_status_value s = (case s of
     ES_Draft \<Rightarrow> ''draft'' | ES_Scheduled \<Rightarrow> ''scheduled'' | ES_Active \<Rightarrow> ''active''
   | ES_Completed \<Rightarrow> ''completed'' | ES_Cancelled \<Rightarrow> ''cancelled''
   | ES_RegistrationOpen \<Rightarrow> ''registration_open'' | ES_Locked \<Rightarrow> ''locked''
   | ES_Running \<Rightarrow> ''running'' | ES_Paused \<Rightarrow> ''paused'')"

datatype participant_status = PS_Waiting | PS_Ready | PS_Active | PS_Disconnected | PS_Completed

datatype round_status = RS_Scheduled | RS_Active | RS_Completed | RS_Cancelled

datatype pair_status = PA_Pending | PA_Active | PA_Completed | PA_Cancelled

datatype connection_type = CT_Direct | CT_Relay

datatype path_type = PT_Direct | PT_Turn

datatype operator_action = OA_Pause | OA_Resume | OA_Extend | OA_Recalculate

datatype disconnection_cause = DC_Network | DC_TabClosed | DC_PermissionDenied

lemma event_status_value_inj: "event_status_value s = event_status_value t \<longleftrightarrow> s = t"
  by (cases s; cases t) (simp_all add: event_status_value_def)

section \<open>Rows\<close>

record event_row =
  ev_id :: uuid
  ev_name :: string
  ev_description :: string
  ev_status :: event_status
  ev_num_rounds :: nat
  ev_round_duration :: int
  ev_break_duration :: int
  ev_start_time :: int
  ev_scoring_weights :: json
  ev_unique_tags :: bool

record participant_row =
  pt_id :: uuid
  pt_event :: uuid
  pt_name :: string
  pt_email :: string
  pt_status :: participant_status
  pt_token_hash :: string
  pt_token_digest :: string
  pt_token_expires_at :: "int option"
  pt_joined_at :: "int option"
  pt_age :: "int option"
  pt_gender :: json
  pt_want_to_date :: json
  pt_whatsapp :: json
  pt_tags :: "uuid list"

record round_row =
  rd_id :: uuid
  rd_event :: uuid
  rd_number :: nat
  rd_status :: round_status
  rd_starts_at :: int
  rd_ends_at :: int

record pair_row =
  pr_id :: uuid
  pr_event :: uuid
  pr_round :: uuid
  pr_a :: uuid
  pr_b :: uuid
  pr_status :: pair_status
  pr_room_id :: string
  pr_path_type :: path_type
  pr_conn_type_a :: "connection_type option"
  pr_conn_time_a :: "int option"
  pr_conn_type_b :: "connection_type option"
  pr_conn_time_b :: "int option"

record transition_log =
  tl_event :: uuid
  tl_from :: event_status
  tl_to :: event_status
  tl_leader :: string
  tl_details :: pydict
  tl_complete :: bool

record operator_log =
  ol_event :: uuid
  ol_round :: "uuid option"
  ol_action :: operator_action
  ol_details :: pydict
  ol_performed_at :: int

record disconnection_log =
  dl_event :: uuid
  dl_participant :: uuid
  dl_round :: "uuid option"
  dl_cause :: disconnection_cause
  dl_detail :: string
  dl_disconnected_at :: int
  dl_reconnected_at :: "int option"

record incident_note =
  in_event :: uuid
  in_participant :: uuid
  in_note :: string

text \<open>The tables of \<open>apps/registration/models.py\<close>.\<close>

record verification_token =
  vt_participant :: uuid
  vt_token :: string
  vt_expires_at :: int
  vt_used_at :: "int option"

record device_check =
  dc_event :: "uuid option"
  dc_camera :: bool
  dc_mic :: bool
  dc_error_type :: json
  dc_in_app_browser :: bool
  dc_user_agent :: string

record db =
  db_events :: "event_row list"
  db_participants :: "participant_row list"
  db_rounds :: "round_row list"
  db_pairs :: "pair_row list"
  db_transitions :: "transition_log list"
  db_operator_logs :: "operator_log list"
  db_disconnections :: "disconnection_log list"
  db_notes :: "incident_note list"
  db_tags :: "uuid list"
  db_tokens :: "verification_token list"
  db_terms :: "uuid list"
  db_device_checks :: "device_check list"

definition empty_db :: db where
  "empty_db = \<lparr>db_events = [], db_participants = [], db_rounds = [], db_pairs = [], db_transitions = [],
     db_operator_logs = [], db_disconnections = [], db_notes = [], db_tags = [], db_tokens = [],
     db_terms = [], db_device_checks = []\<rparr>"

section \<open>Constraints of the tables\<close>

text \<open>The check and unique constraints of \<open>Round\<close> and \<open>Pair\<close>.\<close>

definition rounds_ok :: "round_row list \<Rightarrow> bool" where
  "rounds_ok rs \<longleftrightarrow> distinct (map (\<lambda>r. (rd_event r, rd_number r)) rs) \<and>
     (\<forall>r \<in> set rs. rd_starts_at r < rd_ends_at r)"

definition pairs_ok :: "pair_row list \<Rightarrow> bool" where
  "pairs_ok ps \<longleftrightarrow> (\<forall>p \<in> set ps. pr_a p < pr_b p) \<and>
     distinct (map (\<lambda>p. (pr_event p, pr_a p, pr_b p)) ps) \<and>
     distinct (map (\<lambda>p. (pr_round p, pr_a p)) ps) \<and>
     distinct (map (\<lambda>p. (pr_round p, pr_b p)) ps) \<and> distinct (map pr_room_id ps)"

text \<open>\<open>Pair.save\<close> orders the participants before the row is written.\<close>

definition pair_save_order :: "pair_row \<Rightarrow> pair_row" where
  "pair_save_order p = (if pr_b p < pr_a p then p\<lparr>pr_a := pr_b p, pr_b := pr_a p\<rparr> else p)"

lemma pair_save_order_le: "pr_a (pair_save_order p) \<le> pr_b (pair_save_order p)"
  by (auto simp: pair_save_order_def)

section \<open>Lookups and updates\<close>

definition find_event :: "db \<Rightarrow> uuid \<Rightarrow> event_row option" where
  "find_event d e = find (\<lambda>r. ev_id r = e) (db_events d)"

definition update_event :: "uuid \<Rightarrow> (event_row \<Rightarrow> event_row) \<Rightarrow> db \<Rightarrow> db" where
  "update_event e f d = d\<lparr>db_events := map (\<lambda>r. if ev_id r = e then f r else r) (db_events d)\<rparr>"

lemma find_event_Some: "find_event d e = Some r \<Longrightarrow> r \<in> set (db_events d) \<and> ev_id r = e"
  by (auto simp: find_event_def find_Some_iff)

lemma find_append: "find P (xs @ ys) = (case find P xs of Some x \<Rightarrow> Some x | None \<Rightarrow> find P ys)"
  by (induction xs) auto

lemma find_map_update:
  assumes "\<And>r. key (f r) = key r"
  shows "find (\<lambda>r. key r = k) (map (\<lambda>r. if key r = e then f r else r) rs) =
    map_option (\<lambda>r. if key r = e then f r else r) (find (\<lambda>r. key r = k) rs)"
  using assms by (induction rs) auto

lemma find_event_update:
  assumes "\<And>r. ev_id (f r) = ev_id r"
  shows "find_event (update_event e f d) k =
    (if k = e then map_option f (find_event d e) else find_event d k)"
proof -
  have "find_event (update_event e f d) k =
      map_option (\<lambda>r. if ev_id r = e then f r else r) (find_event d k)"
    unfolding find_event_def update_event_def using find_map_update[of ev_id f k e] assms by simp
  then show ?thesis by (cases "find_event d k") (auto dest: find_event_Some)
qed

end
