(* ===== verification/Event_State.thy ===== *)
theory Event_State
  imports Event_Store
begin

text \<open>
  The event lifecycle of \<open>apps/events/state_machine.py\<close>: the transition table, the two-phase
  \<open>transition_event\<close> inside one atomic transaction, and the reconciliation of incomplete logs.
\<close>

section \<open>The transition table\<close>

fun valid_transitions :: "event_status \<Rightarrow> event_status set" where
  "valid_transitions ES_Draft = {ES_RegistrationOpen}"
| "valid_transitions ES_RegistrationOpen = {ES_Locked}"
| "valid_transitions ES_Locked = {ES_Running}"
| "valid_transitions ES_Running = {ES_Paused, ES_Completed}"
| "valid_transitions ES_Paused = {ES_Running, ES_Completed}"
| "valid_transitions ES_Completed = {}"
| "valid_transitions ES_Scheduled = {}"
| "valid_transitions ES_Active = {}"
| "valid_transitions ES_Cancelled = {}"

definition can_transition :: "event_status \<Rightarrow> event_status \<Rightarrow> bool" where
  "can_transition from to \<longleftrightarrow> to \<in> valid_transitions from"

definition get_valid_next_states :: "event_status \<Rightarrow> event_status set" where
  "get_valid_next_states s = valid_transitions s"

datatype state_error = EventDoesNotExist uuid | InvalidTransition event_status event_status

section \<open>Transitions\<close>

text \<open>The three writes of \<open>transition_event\<close>, in order; \<open>i\<close> is the key of the new log row.\<close>

definition transition_writes :: "event_row \<Rightarrow> event_status \<Rightarrow> string \<Rightarrow> pydict \<Rightarrow> (db \<Rightarrow> db) list" where
  "transition_writes ev to leader details =
     [\<lambda>d. d\<lparr>db_transitions := db_transitions d @
            [\<lparr>tl_event = ev_id ev, tl_from = ev_status ev, tl_to = to, tl_leader = leader,
              tl_details = details, tl_complete = False\<rparr>]\<rparr>,
      update_event (ev_id ev) (\<lambda>r. r\<lparr>ev_status := to\<rparr>),
      \<lambda>d. d\<lparr>db_transitions := butlast (db_transitions d) @
            [(last (db_transitions d))\<lparr>tl_complete := True\<rparr>]\<rparr>]"

text \<open>
  \<open>transaction.atomic()\<close>: the writes become visible together at the commit; a crash after any
  number of them rolls all of them back.
\<close>

definition run_atomic :: "nat option \<Rightarrow> (db \<Rightarrow> db) list \<Rightarrow> db \<Rightarrow> db" where
  "run_atomic crash writes d = (case crash of None \<Rightarrow> fold (\<lambda>w. w) writes d | Some k \<Rightarrow> d)"

definition transition_event_crash :: "nat option \<Rightarrow> uuid \<Rightarrow> event_status \<Rightarrow> string \<Rightarrow> pydict \<Rightarrow> db \<Rightarrow>
    state_error + db" where
  "transition_event_crash crash e to leader details d =
     (case find_event d e of
        None \<Rightarrow> Inl (EventDoesNotExist e)
      | Some ev \<Rightarrow>
          if \<not> can_transition (ev_status ev) to then Inl (InvalidTransition (ev_status ev) to)
          else Inr (run_atomic crash (transition_writes ev to leader details) d))"

definition transition_event :: "uuid \<Rightarrow> event_status \<Rightarrow> string \<Rightarrow> pydict \<Rightarrow> db \<Rightarrow>
    state_error + transition_log \<times> db" where
  "transition_event e to leader details d =
     bindE (transition_event_crash None e to leader details d)
       (\<lambda>d'. Inr (last (db_transitions d'), d'))"

section \<open>Reconciliation\<close>

definition find_incomplete_transitions :: "uuid option \<Rightarrow> db \<Rightarrow> transition_log list" where
  "find_incomplete_transitions e d = filter (\<lambda>l. \<not> tl_complete l \<and> (case e of None \<Rightarrow> True | Some e \<Rightarrow> tl_event l = e))
     (db_transitions d)"

datatype reconcile_outcome = RolledForward | AlreadyConsistent | StatusDiverged

definition outcome_text :: "reconcile_outcome \<Rightarrow> string" where
  "outcome_text o1 = (case o1 of RolledForward \<Rightarrow> ''rolled_forward''
     | AlreadyConsistent \<Rightarrow> ''already_consistent'' | StatusDiverged \<Rightarrow> ''status_diverged'')"

definition reconcile_outcome_of :: "transition_log \<Rightarrow> event_status \<Rightarrow> reconcile_outcome" where
  "reconcile_outcome_of l s =
     (if s = tl_to l then RolledForward
      else if s = tl_from l then AlreadyConsistent else StatusDiverged)"

text \<open>The log argument is the row with index \<open>i\<close> in the table.\<close>

definition reconcile_interrupted_transition :: "nat \<Rightarrow> string \<Rightarrow> db \<Rightarrow> state_error + reconcile_outcome \<times> db" where
  "reconcile_interrupted_transition i leader d =
     (let l = db_transitions d ! i in
      case find_event d (tl_event l) of
        None \<Rightarrow> Inl (EventDoesNotExist (tl_event l))
      | Some ev \<Rightarrow>
          let oc = reconcile_outcome_of l (ev_status ev);
              details = dict_merge (tl_details l)
                [(''reconciled_by'', JStr leader), (''outcome'', JStr (outcome_text oc)),
                 (''event_status_at_reconcile'', JStr (event_status_value (ev_status ev)))]
          in Inr (oc, d\<lparr>db_transitions := (db_transitions d)
                         [i := l\<lparr>tl_complete := True, tl_details := details\<rparr>]\<rparr>))"

section \<open>Single transitions\<close>

lemma transition_event_Inr:
  assumes "transition_event e to leader details d = Inr (l, d')"
  obtains ev where "find_event d e = Some ev" "can_transition (ev_status ev) to"
    "l = \<lparr>tl_event = ev_id ev, tl_from = ev_status ev, tl_to = to, tl_leader = leader,
          tl_details = details, tl_complete = True\<rparr>"
    "db_transitions d' = db_transitions d @ [l]"
    "d' = update_event e (\<lambda>r. r\<lparr>ev_status := to\<rparr>) (d\<lparr>db_transitions := db_transitions d @ [l]\<rparr>)"
proof -
  from assms obtain ev where ev: "find_event d e = Some ev" "can_transition (ev_status ev) to"
    by (auto simp: transition_event_def transition_event_crash_def bindE_Inr_iff split: option.splits if_splits)
  with assms find_event_Some[OF ev(1)] show ?thesis
    by (intro that[OF ev])
      (auto simp: transition_event_def transition_event_crash_def run_atomic_def transition_writes_def
        update_event_def)
qed

lemma transition_event_status:
  assumes "transition_event e to leader details d = Inr (l, d')"
  shows "find_event d' k = (if k = e then map_option (\<lambda>r. r\<lparr>ev_status := to\<rparr>) (find_event d e) else find_event d k)"
  using assms by (elim transition_event_Inr) (simp add: find_event_update, simp add: find_event_def)

section \<open>Runs\<close>

text \<open>
  The steps the lifecycle takes: an event is created as a draft, a transition commits or crashes
  after some of its writes, an incomplete log is reconciled.
\<close>

inductive lifecycle_step :: "db \<Rightarrow> db \<Rightarrow> bool" where
  created: "find_event d (ev_id ev) = None \<Longrightarrow> ev_status ev = ES_Draft \<Longrightarrow>
    lifecycle_step d (d\<lparr>db_events := db_events d @ [ev]\<rparr>)"
| committed: "transition_event e to leader details d = Inr (l, d') \<Longrightarrow> lifecycle_step d d'"
| crashed: "transition_event_crash (Some k) e to leader details d = Inr d' \<Longrightarrow> lifecycle_step d d'"
| reconciled: "i < length (db_transitions d) \<Longrightarrow> \<not> tl_complete (db_transitions d ! i) \<Longrightarrow>
    reconcile_interrupted_transition i leader d = Inr (oc, d') \<Longrightarrow> lifecycle_step d d'"

inductive lifecycle_reachable :: "db \<Rightarrow> bool" where
  start: "db_events d = [] \<Longrightarrow> db_transitions d = [] \<Longrightarrow> lifecycle_reachable d"
| step: "lifecycle_reachable d \<Longrightarrow> lifecycle_step d d' \<Longrightarrow> lifecycle_reachable d'"

inductive_cases lifecycle_stepE: "lifecycle_step d d'"

definition event_log :: "db \<Rightarrow> uuid \<Rightarrow> transition_log list" where
  "event_log d e = filter (\<lambda>l. tl_event l = e) (db_transitions d)"

text \<open>A log replays from a status: every entry starts where the one before it ended.\<close>

fun replays :: "event_status \<Rightarrow> transition_log list \<Rightarrow> event_status \<Rightarrow> bool" where
  "replays s [] t = (s = t)"
| "replays s (l # ls) t = (tl_from l = s \<and> can_transition s (tl_to l) \<and> replays (tl_to l) ls t)"

lemma replays_append: "replays s (xs @ ys) u \<longleftrightarrow> (\<exists>t. replays s xs t \<and> replays t ys u)"
  by (induction xs arbitrary: s) auto

definition lifecycle_inv :: "db \<Rightarrow> bool" where
  "lifecycle_inv d \<longleftrightarrow> (\<forall>l \<in> set (db_transitions d). tl_complete l \<and> find_event d (tl_event l) \<noteq> None) \<and>
     (\<forall>e ev. find_event d e = Some ev \<longrightarrow> replays ES_Draft (event_log d e) (ev_status ev))"

lemma lifecycle_inv_create:
  assumes "lifecycle_inv d" "find_event d (ev_id ev) = None" "ev_status ev = ES_Draft"
  shows "lifecycle_inv (d\<lparr>db_events := db_events d @ [ev]\<rparr>)"
proof -
  let ?d = "d\<lparr>db_events := db_events d @ [ev]\<rparr>"
  have find: "find_event ?d e = (if e = ev_id ev then Some ev else find_event d e)" for e
    using assms(2) by (auto simp: find_event_def find_append split: option.splits)
  have log: "event_log ?d e = event_log d e" for e by (simp add: event_log_def)
  have "event_log d (ev_id ev) = []"
    using assms(1,2) unfolding lifecycle_inv_def event_log_def filter_empty_conv by metis
  then show ?thesis
    using assms(1,3) by (auto simp: lifecycle_inv_def find log)
qed

lemma lifecycle_inv_transition:
  assumes "lifecycle_inv d" and run: "transition_event e to leader details d = Inr (l, d')"
  shows "lifecycle_inv d'"
proof -
  note find = transition_event_status[OF run]
  obtain ev where ev: "find_event d e = Some ev" "can_transition (ev_status ev) to"
    and l: "l = \<lparr>tl_event = ev_id ev, tl_from = ev_status ev, tl_to = to, tl_leader = leader,
          tl_details = details, tl_complete = True\<rparr>"
    and logs: "db_transitions d' = db_transitions d @ [l]"
    by (rule transition_event_Inr[OF run])
  have id: "ev_id ev = e" using find_event_Some[OF ev(1)] by simp
  have log: "event_log d' k = event_log d k @ (if k = e then [l] else [])" for k
    by (auto simp: event_log_def logs l id)
  show ?thesis
    using assms(1) ev by (auto simp: lifecycle_inv_def find log logs l id replays_append)
qed

lemma crash_changes_nothing:
  "transition_event_crash (Some k) e to leader details d = Inr d' \<Longrightarrow> d' = d"
  by (auto simp: transition_event_crash_def run_atomic_def split: option.splits if_splits)

lemma lifecycle_step_inv:
  assumes inv: "lifecycle_inv d" and step: "lifecycle_step d d'"
  shows "lifecycle_inv d'"
  using step
proof (cases rule: lifecycle_step.cases)
  case (reconciled i leader oc)
  then have "db_transitions d ! i \<in> set (db_transitions d)" by (intro nth_mem)
  with inv reconciled(2) show ?thesis by (auto simp: lifecycle_inv_def)
next
  case (created ev)
  then show ?thesis using lifecycle_inv_create[OF inv created(2,3)] by (simp only:)
next
  case (committed e to leader details l)
  show ?thesis by (rule lifecycle_inv_transition[OF inv committed])
next
  case (crashed k e to leader details)
  then show ?thesis using crash_changes_nothing inv by blast
qed

lemma lifecycle_reachable_inv: "lifecycle_reachable d \<Longrightarrow> lifecycle_inv d"
proof (induction rule: lifecycle_reachable.induct)
  case (start d)
  then show ?case by (simp add: lifecycle_inv_def find_event_def)
next
  case (step d d')
  then show ?case by (blast intro: lifecycle_step_inv)
qed

lemma replays_live:
  "replays s ls t \<Longrightarrow> s \<notin> {ES_Scheduled, ES_Active, ES_Cancelled} \<Longrightarrow>
   t \<notin> {ES_Scheduled, ES_Active, ES_Cancelled}"
proof (induction s ls t rule: replays.induct)
  case (2 s l ls t)
  then have "tl_to l \<notin> {ES_Scheduled, ES_Active, ES_Cancelled}" by (cases s) (auto simp: can_transition_def)
  with 2 show ?case by simp
qed auto

lemma replays_completed: "replays ES_Completed ls t \<Longrightarrow> ls = []"
  by (cases ls) (auto simp: can_transition_def)

section \<open>Properties\<close>

text \<open>
  C7. The audit log is complete and truthful in every reachable database, crashes included: no log
  row is ever left incomplete, an event's log starts at draft, each entry is an allowed transition
  that starts where the one before it ended, the last one ends in the event's status, and no event
  ever carries one of the legacy statuses.
\<close>

theorem audit_log_replays:
  assumes "lifecycle_reachable d"
  shows "find_incomplete_transitions None d = [] \<and>
    (\<forall>e ev. find_event d e = Some ev \<longrightarrow> replays ES_Draft (event_log d e) (ev_status ev) \<and>
       ev_status ev \<notin> {ES_Scheduled, ES_Active, ES_Cancelled})"
  using lifecycle_reachable_inv[OF assms]
  by (auto simp: lifecycle_inv_def find_incomplete_transitions_def filter_empty_conv dest: replays_live)

definition sample_event :: "uuid \<Rightarrow> event_row" where
  "sample_event e = \<lparr>ev_id = e, ev_name = ''Spring mixer'', ev_description = '''', ev_status = ES_Draft,
     ev_num_rounds = 3, ev_round_duration = 300000000, ev_break_duration = 60000000,
     ev_start_time = 1750000000000000, ev_scoring_weights = JObj [(''tag_overlap'', JFloat (Fin 1))],
     ev_unique_tags = False\<rparr>"

definition sample_db :: db where
  "sample_db = empty_db\<lparr>db_events := [sample_event (UUID 1)\<lparr>ev_status := ES_RegistrationOpen\<rparr>],
     db_transitions := [\<lparr>tl_event = UUID 1, tl_from = ES_Draft, tl_to = ES_RegistrationOpen,
       tl_leader = ''host-1'', tl_details = [], tl_complete = True\<rparr>]\<rparr>"

lemma sample_db_reachable: "lifecycle_reachable sample_db"
proof -
  let ?d1 = "empty_db\<lparr>db_events := [sample_event (UUID 1)]\<rparr>"
  have "lifecycle_reachable empty_db" by (rule lifecycle_reachable.start) (simp_all add: empty_db_def)
  moreover have "lifecycle_step empty_db ?d1"
    using created[of empty_db "sample_event (UUID 1)"]
    by (simp add: find_event_def empty_db_def sample_event_def)
  moreover have "transition_event (UUID 1) ES_RegistrationOpen ''host-1'' [] ?d1 =
      Inr (last (db_transitions sample_db), sample_db)"
    by (simp add: transition_event_def transition_event_crash_def run_atomic_def transition_writes_def
        find_event_def update_event_def sample_db_def empty_db_def sample_event_def can_transition_def)
  then have "lifecycle_step ?d1 sample_db" by (rule committed)
  ultimately show ?thesis by (blast intro: step)
qed

lemma audit_log_replays_witness:
  "lifecycle_reachable sample_db \<and> find_incomplete_transitions None sample_db = []"
  using sample_db_reachable audit_log_replays[OF sample_db_reachable] by simp

text \<open>
  What \<open>transition_event\<close> does on every call: it fails only on an unknown event or a pair of
  statuses outside the table; otherwise exactly that event's status changes, to the requested one,
  and exactly one complete log row with the old and the new status is appended.
\<close>

theorem transition_event_spec:
  "case transition_event e to leader details d of
     Inl (EventDoesNotExist k) \<Rightarrow> k = e \<and> find_event d e = None
   | Inl (InvalidTransition s t) \<Rightarrow> t = to \<and> map_option ev_status (find_event d e) = Some s \<and>
       to \<notin> get_valid_next_states s
   | Inr (l, d') \<Rightarrow> \<exists>ev. find_event d e = Some ev \<and> to \<in> get_valid_next_states (ev_status ev) \<and>
       l = \<lparr>tl_event = e, tl_from = ev_status ev, tl_to = to, tl_leader = leader,
            tl_details = details, tl_complete = True\<rparr> \<and>
       db_transitions d' = db_transitions d @ [l] \<and>
       (\<forall>k. find_event d' k =
          (if k = e then Some (ev\<lparr>ev_status := to\<rparr>) else find_event d k))"
proof (cases "transition_event e to leader details d")
  case (Inl err)
  then show ?thesis
    by (auto simp: transition_event_def transition_event_crash_def can_transition_def
        get_valid_next_states_def split: option.splits if_splits)
next
  case (Inr r)
  obtain l d' where r: "r = (l, d')" by force
  note run = Inr[unfolded r]
  obtain ev where ev: "find_event d e = Some ev" "can_transition (ev_status ev) to"
    and l: "l = \<lparr>tl_event = ev_id ev, tl_from = ev_status ev, tl_to = to, tl_leader = leader,
          tl_details = details, tl_complete = True\<rparr>"
    and logs: "db_transitions d' = db_transitions d @ [l]"
    by (rule transition_event_Inr[OF run])
  show ?thesis
    using ev l logs transition_event_status[OF run] find_event_Some[OF ev(1)]
    by (simp add: Inr r can_transition_def get_valid_next_states_def)
qed

end
