(* ===== verification/Leadership.thy ===== *)
theory Leadership
  imports Prelude
begin

text \<open>
  Leader election by a database lease (\<open>apps/events/leadership.py\<close>). The table is a map from lease
  names to rows (the unique constraint allows one row per name); \<open>now\<close> is the caller's reading of
  the clock in microseconds and an argument of every operation.
\<close>

section \<open>Leases\<close>

record lease =
  ls_leader :: string
  ls_acquired_at :: int
  ls_expires_at :: int
  ls_version :: nat

type_synonym leases = "string \<rightharpoonup> lease"

definition leader_lease_ttl_seconds :: int where
  "leader_lease_ttl_seconds = 30"

definition seconds :: "int \<Rightarrow> int" where
  "seconds n = n * 1000000"

text \<open>
  \<open>rival\<close> is the row a concurrent transaction commits between the lookup and the insert, if any:
  the unique constraint then turns the insert into an \<open>IntegrityError\<close>.
\<close>

definition acquire_lease :: "int \<Rightarrow> string \<Rightarrow> string \<Rightarrow> int \<Rightarrow> lease option \<Rightarrow> leases \<Rightarrow> bool \<times> leases" where
  "acquire_lease now name leader ttl rival t =
     (case t name of
        Some l \<Rightarrow>
          if ls_expires_at l < now
          then (True, t(name \<mapsto> l\<lparr>ls_leader := leader, ls_acquired_at := now,
                  ls_expires_at := now + seconds ttl, ls_version := ls_version l + 1\<rparr>))
          else (ls_leader l = leader \<and> now \<le> ls_expires_at l, t)
      | None \<Rightarrow>
          (case rival of
             Some r \<Rightarrow> (False, t(name \<mapsto> r))
           | None \<Rightarrow> (True, t(name \<mapsto> \<lparr>ls_leader = leader, ls_acquired_at = now,
                  ls_expires_at = now + seconds ttl, ls_version = 1\<rparr>))))"

definition renew_lease :: "int \<Rightarrow> string \<Rightarrow> string \<Rightarrow> int \<Rightarrow> leases \<Rightarrow> bool \<times> leases" where
  "renew_lease now name leader ttl t =
     (case t name of
        Some l \<Rightarrow>
          if ls_leader l = leader \<and> now \<le> ls_expires_at l
          then (True, t(name \<mapsto> l\<lparr>ls_expires_at := now + seconds ttl\<rparr>)) else (False, t)
      | None \<Rightarrow> (False, t))"

text \<open>The epoch, 1970, is 0.\<close>

definition release_lease :: "string \<Rightarrow> string \<Rightarrow> leases \<Rightarrow> bool \<times> leases" where
  "release_lease name leader t =
     (case t name of
        Some l \<Rightarrow> if ls_leader l = leader then (True, t(name \<mapsto> l\<lparr>ls_expires_at := 0\<rparr>)) else (False, t)
      | None \<Rightarrow> (False, t))"

definition get_current_leader :: "int \<Rightarrow> string \<Rightarrow> leases \<Rightarrow> lease option" where
  "get_current_leader now name t =
     (case t name of Some l \<Rightarrow> if now < ls_expires_at l then Some l else None | None \<Rightarrow> None)"

definition is_leader :: "int \<Rightarrow> string \<Rightarrow> string \<Rightarrow> leases \<Rightarrow> bool" where
  "is_leader now name leader t =
     (case get_current_leader now name t of Some l \<Rightarrow> ls_leader l = leader | None \<Rightarrow> False)"

definition lease_is_valid :: "int \<Rightarrow> lease \<Rightarrow> bool" where
  "lease_is_valid now l \<longleftrightarrow> now < ls_expires_at l"

section \<open>Runs of several processes\<close>

datatype lease_op =
    Acquire string string "lease option"
  | Renew string string
  | Release string string

text \<open>All processes use the same time to live, as the callers of the module do.\<close>

fun lease_step :: "int \<Rightarrow> int \<times> lease_op \<Rightarrow> leases \<Rightarrow> bool \<times> leases" where
  "lease_step ttl (now, Acquire name leader rival) t = acquire_lease now name leader ttl rival t"
| "lease_step ttl (now, Renew name leader) t = renew_lease now name leader ttl t"
| "lease_step ttl (now, Release name leader) t = release_lease name leader t"

fun lease_run :: "int \<Rightarrow> (int \<times> lease_op) list \<Rightarrow> leases \<Rightarrow> leases" where
  "lease_run ttl [] t = t"
| "lease_run ttl (x # xs) t = lease_run ttl xs (snd (lease_step ttl x t))"

text \<open>What the table says after a process got or kept a lease at time \<open>now\<close>.\<close>

definition held :: "string \<Rightarrow> string \<Rightarrow> int \<Rightarrow> leases \<Rightarrow> bool" where
  "held name leader until t \<longleftrightarrow> (\<exists>l. t name = Some l \<and> ls_leader l = leader \<and> until \<le> ls_expires_at l)"

definition version_of :: "string \<Rightarrow> leases \<Rightarrow> nat" where
  "version_of name t = (case t name of Some l \<Rightarrow> ls_version l | None \<Rightarrow> 0)"

lemma acquire_held:
  "acquire_lease now name leader ttl rival t = (True, t') \<Longrightarrow> 0 \<le> ttl \<Longrightarrow> held name leader now t'"
  by (auto simp: acquire_lease_def held_def seconds_def split: option.splits if_splits)

text \<open>A lease that is still live survives every step but the holder's own release.\<close>

lemma lease_step_held:
  assumes "held name leader until t" "now \<le> until" "until \<le> now + seconds ttl"
    and "op \<noteq> Release name leader"
  shows "held name leader until (snd (lease_step ttl (now, op) t))"
  using assms
  by (cases op)
    (auto simp: held_def acquire_lease_def renew_lease_def release_lease_def split: option.splits if_splits)

lemma lease_run_held:
  "held name leader until t \<Longrightarrow> \<forall>(now, op) \<in> set xs. now \<le> until \<and> until \<le> now + seconds ttl \<and>
     op \<noteq> Release name leader \<Longrightarrow> held name leader until (lease_run ttl xs t)"
proof (induction xs arbitrary: t)
  case (Cons x xs)
  obtain now op where x: "x = (now, op)" by force
  have "held name leader until (snd (lease_step ttl (now, op) t))"
    using Cons.prems by (intro lease_step_held) (auto simp: x)
  then show ?case using Cons by (simp add: x)
qed simp

text \<open>
  The row after an acquisition at \<open>now\<close> never expires before \<open>now\<close>; a takeover or a fresh insert
  expires \<open>ttl\<close> later.
\<close>

lemma acquire_other_fails:
  assumes "held name leader until t" "now \<le> until" "other \<noteq> leader"
  shows "acquire_lease now name other ttl rival t = (False, t)"
  using assms by (auto simp: held_def acquire_lease_def)

lemma version_step:
  assumes "\<And>r. op = Acquire name leader (Some r) \<Longrightarrow> t name \<noteq> None"
    and "\<And>l r n. op = Acquire n l (Some r) \<Longrightarrow> t n \<noteq> None"
  shows "version_of name t \<le> version_of name (snd (lease_step ttl (now, op) t))"
  using assms
  by (cases op)
    (auto simp: version_of_def acquire_lease_def renew_lease_def release_lease_def split: option.splits if_splits)

section \<open>Properties\<close>



text \<open>
  A lease changes hands only after it expired, and each change raises its version by one, so
  the version is a fencing token; a failed acquisition, a renewal or a release never changes the
  holder or the version.
\<close>

theorem lease_handover:
  "case (t name, snd (lease_step ttl (now, op) t) name) of
     (None, None) \<Rightarrow> True
   | (None, Some l) \<Rightarrow> (\<exists>leader rival. op = Acquire name leader rival \<and>
        (case rival of None \<Rightarrow> ls_leader l = leader \<and> ls_version l = 1 | Some r \<Rightarrow> l = r))
   | (Some l, None) \<Rightarrow> False
   | (Some l, Some l') \<Rightarrow>
       (if l' = l then True
        else if ls_acquired_at l' = ls_acquired_at l \<and> ls_version l' = ls_version l
        then ls_leader l' = ls_leader l
        else ls_expires_at l < now \<and> ls_acquired_at l' = now \<and> ls_version l' = ls_version l + 1 \<and>
             ls_expires_at l' = now + seconds ttl)"
  by (cases op)
    (auto simp: acquire_lease_def renew_lease_def release_lease_def split: option.splits if_splits)

text \<open>
  At the instant a lease expires the module disagrees with itself: re-acquiring succeeds as
  "already held" and leaves the row unchanged, while \<open>is_leader\<close> says the caller does not lead.
\<close>

theorem expiry_instant_disagreement:
  assumes "t name = Some l" "ls_leader l = leader" "ls_expires_at l = now"
  shows "acquire_lease now name leader ttl rival t = (True, t) \<and> \<not> is_leader now name leader t"
  using assms by (simp add: acquire_lease_def is_leader_def get_current_leader_def)

lemma expiry_instant_disagreement_witness:
  "acquire_lease 30 ''event-runner'' ''host-1'' 30 None
     [''event-runner'' \<mapsto> \<lparr>ls_leader = ''host-1'', ls_acquired_at = 0, ls_expires_at = 30, ls_version = 1\<rparr>]
   = (True, [''event-runner'' \<mapsto> \<lparr>ls_leader = ''host-1'', ls_acquired_at = 0, ls_expires_at = 30, ls_version = 1\<rparr>])"
  using expiry_instant_disagreement[of "[''event-runner'' \<mapsto> \<lparr>ls_leader = ''host-1'', ls_acquired_at = 0,
      ls_expires_at = 30, ls_version = 1\<rparr>]" "''event-runner''" "\<lparr>ls_leader = ''host-1'', ls_acquired_at = 0,
      ls_expires_at = 30, ls_version = 1\<rparr>" "''host-1''" 30 30 None]
  by simp

end
