(* ===== verification/Sha256.thy ===== *)
theory Sha256
  imports Prelude "HOL-Library.Word"
begin

text \<open>
  \<open>hashlib.sha256(s.encode()).hexdigest()\<close> of a string of code points 0 to 255: the UTF-8 bytes,
  the padding to blocks of 64 bytes and the compression function of FIPS 180-4, on 32-bit words.
\<close>

unbundle bit_operations_syntax

type_synonym word32 = "32 word"

definition utf8 :: "string \<Rightarrow> nat list" where
  "utf8 s = concat (map (\<lambda>c. let n = of_char c in
     if n < 128 then [n] else [192 + n div 64, 128 + n mod 64]) s)"

definition sha_pad :: "nat list \<Rightarrow> nat list" where
  "sha_pad bs = (let l = length bs; z = (119 - l mod 64) mod 64; bits = 8 * l in
     bs @ [128] @ replicate z 0 @ map (\<lambda>i. (bits div 256 ^ (7 - i)) mod 256) [0..<8])"

fun words_of_bytes :: "nat list \<Rightarrow> word32 list" where
  "words_of_bytes (a # b # c # d # bs) = of_nat (((a * 256 + b) * 256 + c) * 256 + d) # words_of_bytes bs"
| "words_of_bytes _ = []"

definition rotr :: "nat \<Rightarrow> word32 \<Rightarrow> word32" where
  "rotr n x = (drop_bit n x) OR (push_bit (32 - n) x)"

text \<open>
  In decimal, the first 32 bits of the fractional parts of the cube roots of the first 64 primes, and
  of the square roots of the first eight.
\<close>

definition sha_k :: "word32 list" where
  "sha_k = map of_nat [
     1116352408, 1899447441, 3049323471, 3921009573, 961987163, 1508970993, 2453635748, 2870763221,
     3624381080, 310598401, 607225278, 1426881987, 1925078388, 2162078206, 2614888103, 3248222580,
     3835390401, 4022224774, 264347078, 604807628, 770255983, 1249150122, 1555081692, 1996064986, 2554220882,
     2821834349, 2952996808, 3210313671, 3336571891, 3584528711, 113926993, 338241895, 666307205, 773529912,
     1294757372, 1396182291, 1695183700, 1986661051, 2177026350, 2456956037, 2730485921, 2820302411,
     3259730800, 3345764771, 3516065817, 3600352804, 4094571909, 275423344, 430227734, 506948616, 659060556,
     883997877, 958139571, 1322822218, 1537002063, 1747873779, 1955562222, 2024104815, 2227730452,
     2361852424, 2428436474, 2756734187, 3204031479, 3329325298]"

definition sha_init :: "word32 list" where
  "sha_init = map of_nat [
     1779033703, 3144134277, 1013904242, 2773480762, 1359893119, 2600822924, 528734635, 1541459225]"

text \<open>The message schedule, extended from the last sixteen words, kept newest first.\<close>

fun sha_extend :: "nat \<Rightarrow> word32 list \<Rightarrow> word32 list" where
  "sha_extend 0 ws = ws"
| "sha_extend (Suc k) ws =
     (let w15 = ws ! 14; w2 = ws ! 1;
          s0 = (rotr 7 w15) XOR (rotr 18 w15) XOR (drop_bit 3 w15);
          s1 = (rotr 17 w2) XOR (rotr 19 w2) XOR (drop_bit 10 w2)
      in sha_extend k ((ws ! 15 + s0 + ws ! 6 + s1) # ws))"

fun sha_step :: "word32 \<times> word32 \<Rightarrow> word32 list \<Rightarrow> word32 list" where
  "sha_step (k, w) [a, b, c, d, e, f, g, h] =
     (let s1 = (rotr 6 e) XOR (rotr 11 e) XOR (rotr 25 e);
          ch = (e AND f) XOR ((NOT e) AND g);
          t1 = h + s1 + ch + k + w;
          s0 = (rotr 2 a) XOR (rotr 13 a) XOR (rotr 22 a);
          maj = (a AND b) XOR (a AND c) XOR (b AND c)
      in [t1 + s0 + maj, a, b, c, d + t1, e, f, g])"
| "sha_step _ st = st"

definition sha_block :: "word32 list \<Rightarrow> word32 list \<Rightarrow> word32 list" where
  "sha_block ws st = map2 (+) st (fold sha_step (zip sha_k (rev (sha_extend 48 (rev ws)))) st)"

fun sha_blocks :: "nat \<Rightarrow> word32 list \<Rightarrow> word32 list \<Rightarrow> word32 list" where
  "sha_blocks 0 ws st = st"
| "sha_blocks (Suc n) ws st = sha_blocks n (drop 16 ws) (sha_block (take 16 ws) st)"

definition hex_digit :: "nat \<Rightarrow> char" where
  "hex_digit n = char_of (if n < 10 then 48 + n else 87 + n)"

definition hex_word :: "word32 \<Rightarrow> string" where
  "hex_word w = map (\<lambda>i. hex_digit ((unat w div 16 ^ (7 - i)) mod 16)) [0..<8]"

definition sha256_hex :: "string \<Rightarrow> string" where
  "sha256_hex s = (let ws = words_of_bytes (sha_pad (utf8 s)) in
     concat (map hex_word (sha_blocks (length ws div 16) ws sha_init)))"

end
