(* ===== verification/Scheduling.thy ===== *)
theory Scheduling
  imports Matching_Total Event_Store Sha256
begin

text \<open>
  The scheduling service of \<open>apps/events/scheduling.py\<close> with the ORM adapters of
  \<open>apps/events/scoring.py\<close>: building the engine's input from the rows, replacing the stored
  schedule atomically, and the operator's recalculation before the start. Primary keys of new rows
  come from the functions \<open>round_id\<close> and \<open>pair_id\<close>; a raised exception rolls the transaction
  back, so an \<open>Inl\<close> outcome leaves the database as it was.
\<close>

section \<open>Numbers from JSON\<close>

text \<open>\<open>float(x)\<close>: binary64 with overflow to infinity (strings) or an error (integers).\<close>

definition to_float :: "rat \<Rightarrow> pyfloat" where
  "to_float r = (let x = fl64 r in if 2 ^ 1024 \<le> x then PosInf else if x \<le> - (2 ^ 1024) then NegInf else Fin x)"

definition is_digit :: "char \<Rightarrow> bool" where
  "is_digit c \<longleftrightarrow> 48 \<le> (of_char c :: nat) \<and> (of_char c :: nat) \<le> 57"

definition to_lower :: "char \<Rightarrow> char" where
  "to_lower c = (let n = of_char c :: nat in if 65 \<le> n \<and> n \<le> 90 then char_of (n + 32) else c)"

fun underscores_ok :: "bool \<Rightarrow> string \<Rightarrow> bool" where
  "underscores_ok prev [] = True"
| "underscores_ok prev (c # cs) =
     (if c = CHR ''_'' then prev \<and> cs \<noteq> [] \<and> is_digit (hd cs) \<and> underscores_ok False cs
      else underscores_ok (is_digit c) cs)"

definition digits_nat :: "string \<Rightarrow> nat" where
  "digits_nat s = foldl (\<lambda>n c. 10 * n + (of_char c - 48)) 0 s"

definition split_sign :: "string \<Rightarrow> bool \<times> string" where
  "split_sign s = (case s of c # cs \<Rightarrow> if c = CHR ''-'' then (True, cs) else if c = CHR ''+'' then (False, cs)
     else (False, s) | [] \<Rightarrow> (False, s))"

definition ten_pow :: "int \<Rightarrow> rat" where
  "ten_pow e = (if 0 \<le> e then 10 ^ nat e else 1 / 10 ^ nat (- e))"

text \<open>An unsigned decimal literal, lower case and without underscores.\<close>

definition decimal_literal :: "string \<Rightarrow> rat option" where
  "decimal_literal s =
     (let ip = takeWhile is_digit s; r1 = dropWhile is_digit s;
          (fp, r2) = (case r1 of c # cs \<Rightarrow> if c = CHR ''.''
              then (takeWhile is_digit cs, dropWhile is_digit cs) else ([], r1) | [] \<Rightarrow> ([], r1));
          (neg, ex) = (case r2 of c # cs \<Rightarrow> split_sign cs | [] \<Rightarrow> (False, ''0''));
          marker_ok = (case r2 of c # cs \<Rightarrow> c = CHR ''e'' | [] \<Rightarrow> True)
      in if ip @ fp = [] \<or> \<not> marker_ok \<or> ex = [] \<or> \<not> list_all is_digit ex then None
         else Some (of_nat (digits_nat (ip @ fp)) *
                ten_pow ((if neg then - 1 else 1) * int (digits_nat ex) - int (length fp))))"

definition parse_float :: "string \<Rightarrow> pyfloat option" where
  "parse_float s =
     (let (neg, body) = split_sign (map to_lower (py_strip s)) in
      if body = ''nan'' then Some NaN
      else if body = ''inf'' \<or> body = ''infinity'' then Some (if neg then NegInf else PosInf)
      else if \<not> underscores_ok False body then None
      else map_option (\<lambda>r. to_float (if neg then - r else r))
             (decimal_literal (filter (\<lambda>c. c \<noteq> CHR ''_'') body)))"

section \<open>The adapters of the scoring module\<close>

datatype scoring_error =
    ConfigNotADict
  | FloatTypeError
  | FloatValueError string
  | FloatOverflow
  | BadWeight weight_error

fun json_float :: "json \<Rightarrow> scoring_error + pyfloat" where
  "json_float (JInt i) = (case to_float (of_int i) of Fin x \<Rightarrow> Inr (Fin x) | _ \<Rightarrow> Inl FloatOverflow)"
| "json_float (JFloat f) = Inr f"
| "json_float (JBool b) = Inr (Fin (if b then 1 else 0))"
| "json_float (JStr s) = (case parse_float s of Some f \<Rightarrow> Inr f | None \<Rightarrow> Inl (FloatValueError s))"
| "json_float _ = Inl FloatTypeError"

definition build_scoring_weights :: "event_row \<Rightarrow> scoring_error + scoring_weights" where
  "build_scoring_weights ev =
     (let config = (if truthy (ev_scoring_weights ev) then ev_scoring_weights ev else JObj []) in
      case config of
        JObj c \<Rightarrow>
          bindE (json_float (case dict_get c ''tag_overlap'' of Some v \<Rightarrow> v | None \<Rightarrow> JFloat (Fin 1)))
            (\<lambda>w. case make_scoring_weights w of Inl e \<Rightarrow> Inl (BadWeight e) | Inr sw \<Rightarrow> Inr sw)
      | _ \<Rightarrow> Inl ConfigNotADict)"

definition build_participant_profile :: "participant_row \<Rightarrow> participant_profile" where
  "build_participant_profile p = \<lparr>tag_ids = set (map uuid_str (pt_tags p))\<rparr>"

section \<open>Input of the engine\<close>

definition event_participants :: "db \<Rightarrow> uuid \<Rightarrow> participant_row list" where
  "event_participants d e = filter (\<lambda>p. pt_event p = e) (db_participants d)"

definition build_match_input :: "event_row \<Rightarrow> db \<Rightarrow> scoring_error + match_input" where
  "build_match_input ev d =
     bindE (build_scoring_weights ev) (\<lambda>w.
       Inr \<lparr>mi_participants = sort_key mp_pid
              (map (\<lambda>p. \<lparr>mp_pid = uuid_str (pt_id p), mp_profile = build_participant_profile p\<rparr>)
                (event_participants d (ev_id ev))),
            mi_num_rounds = int (ev_num_rounds ev), mi_weights = w\<rparr>)"

section \<open>Replacing the stored schedule\<close>

text \<open>Deleting rounds deletes their pairs and clears the references the logs hold.\<close>

definition delete_rounds :: "uuid \<Rightarrow> db \<Rightarrow> db" where
  "delete_rounds e d =
     (let gone = set (map rd_id (filter (\<lambda>r. rd_event r = e) (db_rounds d)));
          clear = (\<lambda>r. case r of Some i \<Rightarrow> if i \<in> gone then None else Some i | None \<Rightarrow> None)
      in d\<lparr>db_rounds := filter (\<lambda>r. rd_event r \<noteq> e) (db_rounds d),
           db_pairs := filter (\<lambda>p. pr_round p \<notin> gone) (db_pairs d),
           db_operator_logs := map (\<lambda>l. l\<lparr>ol_round := clear (ol_round l)\<rparr>) (db_operator_logs d),
           db_disconnections := map (\<lambda>l. l\<lparr>dl_round := clear (dl_round l)\<rparr>) (db_disconnections d)\<rparr>)"

definition new_round :: "event_row \<Rightarrow> (nat \<Rightarrow> uuid) \<Rightarrow> schedule_round \<Rightarrow> round_row" where
  "new_round ev round_id rnd =
     (let step = ev_round_duration ev + ev_break_duration ev;
          starts_at = ev_start_time ev + (int (sr_number rnd) - 1) * step
      in \<lparr>rd_id = round_id (sr_number rnd), rd_event = ev_id ev, rd_number = sr_number rnd,
          rd_status = RS_Scheduled, rd_starts_at = starts_at, rd_ends_at = starts_at + ev_round_duration ev\<rparr>)"

definition room_key :: "uuid \<Rightarrow> nat \<Rightarrow> string \<Rightarrow> string \<Rightarrow> string" where
  "room_key e n a b = uuid_str e @ '':'' @ show_nat n @ '':'' @ a @ '':'' @ b"

definition room_id_of :: "uuid \<Rightarrow> nat \<Rightarrow> string \<Rightarrow> string \<Rightarrow> string" where
  "room_id_of e n a b = take 32 (sha256_hex (room_key e n a b))"

definition new_pair :: "event_row \<Rightarrow> (nat \<rightharpoonup> round_row) \<Rightarrow> (string \<Rightarrow> uuid) \<Rightarrow> nat \<Rightarrow> schedule_pair \<Rightarrow> pair_row" where
  "new_pair ev by_number pair_id n sp =
     (let (a, b) = (if uuid_value (sp_pid_b sp) < uuid_value (sp_pid_a sp)
                    then (sp_pid_b sp, sp_pid_a sp) else (sp_pid_a sp, sp_pid_b sp));
          rnd = the (by_number n);
          room = room_id_of (ev_id ev) (rd_number rnd) a b
      in \<lparr>pr_id = pair_id room, pr_event = ev_id ev, pr_round = rd_id rnd, pr_a = uuid_value a, pr_b = uuid_value b,
          pr_status = PA_Pending, pr_room_id = room, pr_path_type = PT_Direct, pr_conn_type_a = None,
          pr_conn_time_a = None, pr_conn_type_b = None, pr_conn_time_b = None\<rparr>)"

datatype persist_error = PidNotUuid | ConstraintViolated

definition persist_schedule :: "event_row \<Rightarrow> (nat \<Rightarrow> uuid) \<Rightarrow> (string \<Rightarrow> uuid) \<Rightarrow> generated_schedule \<Rightarrow> db \<Rightarrow>
    persist_error + db" where
  "persist_schedule ev round_id pair_id rounds d =
     (let d1 = delete_rounds (ev_id ev) d;
          new_rounds = map (new_round ev round_id) rounds;
          by_number = map_of (rev (map (\<lambda>r. (rd_number r, r)) new_rounds));
          new_pairs = concat (map (\<lambda>rnd. map (new_pair ev by_number pair_id (sr_number rnd)) (sr_pairs rnd)) rounds);
          d2 = d1\<lparr>db_rounds := db_rounds d1 @ new_rounds, db_pairs := db_pairs d1 @ new_pairs\<rparr>
      in if \<exists>rnd \<in> set rounds. \<exists>sp \<in> set (sr_pairs rnd).
              uuid_of_string (sp_pid_a sp) = None \<or> uuid_of_string (sp_pid_b sp) = None
         then Inl PidNotUuid
         else if \<not> rounds_ok (db_rounds d2) \<or> \<not> pairs_ok (db_pairs d2) then Inl ConstraintViolated
         else Inr d2)"

section \<open>Recalculation before the start\<close>

text \<open>
  \<open>QuerySet.delete\<close> of participants: the rows that reference them go with them, and the returned
  total counts all of these.
\<close>

definition delete_participants :: "uuid \<Rightarrow> uuid set \<Rightarrow> db \<Rightarrow> nat \<times> db" where
  "delete_participants e ids d =
     (let victims = filter (\<lambda>p. pt_event p = e \<and> pt_id p \<in> ids) (db_participants d);
          gone = set (map pt_id victims);
          pair_gone = (\<lambda>p. pr_a p \<in> gone \<or> pr_b p \<in> gone)
      in (length victims + sum_list (map (\<lambda>p. length (pt_tags p)) victims) +
            length (filter pair_gone (db_pairs d)) +
            length (filter (\<lambda>l. dl_participant l \<in> gone) (db_disconnections d)) +
            length (filter (\<lambda>n. in_participant n \<in> gone) (db_notes d)) +
            length (filter (\<lambda>t. vt_participant t \<in> gone) (db_tokens d)) +
            length (filter (\<lambda>p. p \<in> gone) (db_terms d)),
          d\<lparr>db_participants := filter (\<lambda>p. \<not> (pt_event p = e \<and> pt_id p \<in> ids)) (db_participants d),
            db_pairs := filter (\<lambda>p. \<not> pair_gone p) (db_pairs d),
            db_disconnections := filter (\<lambda>l. dl_participant l \<notin> gone) (db_disconnections d),
            db_notes := filter (\<lambda>n. in_participant n \<notin> gone) (db_notes d),
            db_tokens := filter (\<lambda>t. vt_participant t \<notin> gone) (db_tokens d),
            db_terms := filter (\<lambda>p. p \<notin> gone) (db_terms d)\<rparr>))"

datatype recalc_error =
    NotConfirmed
  | NotBeforeStart event_status
  | RecalcUnknownEvent
  | AbsentIdInvalid
  | RecalcWeights scoring_error
  | TooFewActive nat
  | RecalcMatching matching_error
  | ViolationsFound nat
  | RecalcPersist persist_error

definition forbidden_statuses :: "event_status set" where
  "forbidden_statuses = {ES_Running, ES_Paused, ES_Completed, ES_Cancelled, ES_Active}"

definition map_error :: "('e \<Rightarrow> 'f) \<Rightarrow> 'e + 'a \<Rightarrow> 'f + 'a" where
  "map_error f r = (case r of Inl e \<Rightarrow> Inl (f e) | Inr x \<Rightarrow> Inr x)"

text \<open>The locked transaction after the absent participants are gone; \<open>absent_count\<close> rows went.\<close>

definition recalculate_locked :: "(nat \<Rightarrow> uuid) \<Rightarrow> (string \<Rightarrow> uuid) \<Rightarrow> int \<Rightarrow> event_row \<Rightarrow> pydict \<Rightarrow> nat \<Rightarrow> db \<Rightarrow>
    recalc_error + generated_schedule \<times> db" where
  "recalculate_locked round_id pair_id now locked operator_details absent_count d =
     bindE (map_error RecalcWeights (build_match_input locked d)) (\<lambda>inp.
       if length (mi_participants inp) < 2 then Inl (TooFewActive (length (mi_participants inp)))
       else bindE (map_error RecalcMatching (generate_schedule inp)) (\<lambda>sched.
         let violations = validate_schedule sched (set (pid_list inp)) (int (ev_num_rounds locked)) in
         if violations \<noteq> [] then Inl (ViolationsFound (length violations))
         else bindE (map_error RecalcPersist (persist_schedule locked round_id pair_id sched d)) (\<lambda>d2.
           let details = dict_merge
                 [(''confirmed'', JBool True), (''absent_removed_count'', JInt (int absent_count)),
                  (''active_participants'', JInt (int (length (mi_participants inp)))),
                  (''total_rounds'', JInt (int (length sched))), (''violation_count'', JInt 0)]
                 operator_details
           in Inr (sched, d2\<lparr>db_operator_logs := db_operator_logs d2 @
                [\<lparr>ol_event = ev_id locked, ol_round = None, ol_action = OA_Recalculate,
                  ol_details = details, ol_performed_at = now\<rparr>]\<rparr>))))"

text \<open>\<open>ev\<close> is the caller's copy of the row, which may be older than the one in the database.\<close>

definition recalculate_pairs_pre_start :: "(nat \<Rightarrow> uuid) \<Rightarrow> (string \<Rightarrow> uuid) \<Rightarrow> int \<Rightarrow> event_row \<Rightarrow> bool \<Rightarrow>
    string list \<Rightarrow> pydict \<Rightarrow> db \<Rightarrow> recalc_error + generated_schedule \<times> db" where
  "recalculate_pairs_pre_start round_id pair_id now ev confirmed absent operator_details d =
     (if \<not> confirmed then Inl NotConfirmed
      else if ev_status ev \<in> forbidden_statuses then Inl (NotBeforeStart (ev_status ev))
      else case find_event d (ev_id ev) of
        None \<Rightarrow> Inl RecalcUnknownEvent
      | Some locked \<Rightarrow>
          if ev_status locked \<in> forbidden_statuses then Inl (NotBeforeStart (ev_status locked))
          else if \<exists>p \<in> set absent. uuid_of_string p = None then Inl AbsentIdInvalid
          else
            let (absent_count, d1) = (if absent = [] then (0, d)
                  else delete_participants (ev_id locked) (set (map uuid_value absent)) d)
            in recalculate_locked round_id pair_id now locked operator_details absent_count d1)"

section \<open>Facts about the stored rows\<close>

text \<open>Primary keys of participants are distinct and are 128-bit UUIDs.\<close>

definition participants_wf :: "db \<Rightarrow> bool" where
  "participants_wf d \<longleftrightarrow> distinct (map pt_id (db_participants d)) \<and>
     (\<forall>p \<in> set (db_participants d). uuid_int (pt_id p) < 2 ^ 128)"

definition remaining_pids :: "uuid \<Rightarrow> string list \<Rightarrow> db \<Rightarrow> string set" where
  "remaining_pids e absent d = uuid_str ` pt_id `
     {p \<in> set (event_participants d e). pt_id p \<notin> uuid_value ` set absent}"

lemma uuid_value_str: "uuid_int u < 2 ^ 128 \<Longrightarrow> uuid_value (uuid_str u) = u"
  by (simp add: uuid_value_def uuid_of_string_str)

lemma uuid_strs_ok:
  assumes "\<forall>u \<in> U. uuid_int u < 2 ^ 128"
  shows "all_uuids (uuid_str ` U)" "inj_on uuid_value (uuid_str ` U)" "inj_on uuid_str U"
proof -
  show "all_uuids (uuid_str ` U)" using assms by (auto simp: all_uuids_def uuid_of_string_str)
  show "inj_on uuid_value (uuid_str ` U)" using assms by (auto intro!: inj_onI simp: uuid_value_str)
  show "inj_on uuid_str U" using assms by (auto intro!: inj_onI uuid_str_inj)
qed

lemma build_match_input_pids:
  assumes "build_match_input ev d = Inr inp"
  shows "set (pid_list inp) = uuid_str ` pt_id ` set (event_participants d (ev_id ev))"
    and "mi_num_rounds inp = int (ev_num_rounds ev)"
    and "length (mi_participants inp) = length (event_participants d (ev_id ev))"
  using assms by (auto simp: build_match_input_def pid_list_def bindE_Inr_iff image_image)

lemma build_match_input_ok:
  assumes inp: "build_match_input ev d = Inr inp" and wf: "participants_wf d"
  shows "all_uuids (set (pid_list inp)) \<and> inj_on uuid_value (set (pid_list inp)) \<and> distinct (pid_list inp)"
proof -
  let ?ps = "event_participants d (ev_id ev)"
  have sub: "set ?ps \<subseteq> set (db_participants d)" by (auto simp: event_participants_def)
  have U: "\<forall>u \<in> pt_id ` set ?ps. uuid_int u < 2 ^ 128" using wf sub by (auto simp: participants_wf_def)
  have "distinct (map pt_id ?ps)" using wf by (simp add: participants_wf_def event_participants_def distinct_map_filter)
  then have "distinct (map uuid_str (map pt_id ?ps))"
    using uuid_strs_ok(3)[OF U] by (simp add: distinct_map comp_inj_on)
  moreover have "mset (pid_list inp) = mset (map uuid_str (map pt_id ?ps))"
    using inp by (auto simp: build_match_input_def pid_list_def bindE_Inr_iff comp_def multiset.map_comp)
  ultimately have "distinct (pid_list inp)" by (metis mset_eq_imp_distinct_iff)
  then show ?thesis
    using uuid_strs_ok[OF U] build_match_input_pids(1)[OF inp] by simp
qed

lemma delete_participants_event:
  "event_participants (snd (delete_participants e ids d)) e = filter (\<lambda>p. pt_id p \<notin> ids) (event_participants d e)"
  by (auto simp: delete_participants_def event_participants_def Let_def filter_filter intro!: filter_cong)

lemma delete_participants_wf: "participants_wf d \<Longrightarrow> participants_wf (snd (delete_participants e ids d))"
  by (auto simp: delete_participants_def participants_wf_def Let_def distinct_map_filter)

lemma delete_participants_rounds:
  "db_rounds (snd (delete_participants e ids d)) = db_rounds d"
  "set (db_pairs (snd (delete_participants e ids d))) \<subseteq> set (db_pairs d)"
  "db_events (snd (delete_participants e ids d)) = db_events d"
  by (auto simp: delete_participants_def Let_def)

section \<open>The stored schedule\<close>

text \<open>Who meets whom in which round, as stored and as generated.\<close>

definition stored_pairs :: "db \<Rightarrow> uuid \<Rightarrow> (nat \<times> uuid \<times> uuid) set" where
  "stored_pairs d e = {(rd_number r, pr_a p, pr_b p) |r p. r \<in> set (db_rounds d) \<and> rd_event r = e \<and>
     p \<in> set (db_pairs d) \<and> pr_round p = rd_id r}"

definition schedule_pairs :: "generated_schedule \<Rightarrow> (nat \<times> uuid \<times> uuid) set" where
  "schedule_pairs rounds = {(sr_number r, uuid_value (sp_pid_a sp), uuid_value (sp_pid_b sp)) |r sp.
     r \<in> set rounds \<and> sp \<in> set (sr_pairs r)}"

text \<open>New primary keys are fresh: different rounds get different keys, none used by a pair row.\<close>

definition fresh_round_ids :: "(nat \<Rightarrow> uuid) \<Rightarrow> db \<Rightarrow> bool" where
  "fresh_round_ids round_id d \<longleftrightarrow> inj round_id \<and> (\<forall>p \<in> set (db_pairs d). pr_round p \<notin> range round_id)"

lemma map_of_rev_distinct:
  "distinct (map f rs) \<Longrightarrow> r \<in> set rs \<Longrightarrow> map_of (rev (map (\<lambda>r. (f r, r)) rs)) (f r) = Some r"
  by (rule map_of_is_SomeI) (auto simp: comp_def simp flip: rev_map)

lemma new_round_number: "rd_number (new_round ev round_id rnd) = sr_number rnd"
  by (simp add: new_round_def Let_def)

lemma persist_schedule_Inr:
  assumes run: "persist_schedule ev round_id pair_id rounds d = Inr d'"
    and num: "distinct (map sr_number rounds)"
    and ok: "\<forall>r \<in> set rounds. \<forall>sp \<in> set (sr_pairs r). uuid_value (sp_pid_a sp) < uuid_value (sp_pid_b sp)"
    and fresh: "fresh_round_ids round_id d"
  shows "rounds_ok (db_rounds d') \<and> pairs_ok (db_pairs d') \<and>
    filter (\<lambda>r. rd_event r = ev_id ev) (db_rounds d') = map (new_round ev round_id) rounds \<and>
    filter (\<lambda>r. rd_event r \<noteq> ev_id ev) (db_rounds d') = filter (\<lambda>r. rd_event r \<noteq> ev_id ev) (db_rounds d) \<and>
    stored_pairs d' (ev_id ev) = schedule_pairs rounds"
proof -
  let ?new = "map (new_round ev round_id) rounds"
  let ?by = "map_of (rev (map (\<lambda>r. (rd_number r, r)) ?new))"
  let ?pairs = "concat (map (\<lambda>rnd. map (new_pair ev ?by pair_id (sr_number rnd)) (sr_pairs rnd)) rounds)"
  from run have c: "rounds_ok (db_rounds d')" "pairs_ok (db_pairs d')"
    and r': "db_rounds d' = db_rounds (delete_rounds (ev_id ev) d) @ ?new"
    and p': "db_pairs d' = db_pairs (delete_rounds (ev_id ev) d) @ ?pairs"
    by (auto simp: persist_schedule_def Let_def split: if_splits)
  have ev_new: "\<forall>r \<in> set ?new. rd_event r = ev_id ev" by (auto simp: new_round_def Let_def)
  have num_new: "map rd_number ?new = map sr_number rounds" by (simp add: new_round_def Let_def comp_def)
  have bynum: "?by (sr_number rnd) = Some (new_round ev round_id rnd)" if "rnd \<in> set rounds" for rnd
  proof -
    have "?by (rd_number (new_round ev round_id rnd)) = Some (new_round ev round_id rnd)"
      by (rule map_of_rev_distinct) (use num that in \<open>simp_all only: num_new set_map image_eqI\<close>)
    then show ?thesis by (simp only: new_round_number)
  qed
  have row: "pr_round (new_pair ev ?by pair_id (sr_number rnd) sp) = round_id (sr_number rnd) \<and>
      pr_a (new_pair ev ?by pair_id (sr_number rnd) sp) = uuid_value (sp_pid_a sp) \<and>
      pr_b (new_pair ev ?by pair_id (sr_number rnd) sp) = uuid_value (sp_pid_b sp)"
    if "rnd \<in> set rounds" "sp \<in> set (sr_pairs rnd)" for rnd sp
  proof -
    have "\<not> uuid_value (sp_pid_b sp) < uuid_value (sp_pid_a sp)" using ok that by (metis order_less_asym)
    then show ?thesis using bynum[OF that(1)] by (simp add: new_pair_def new_round_def Let_def)
  qed
  have old: "pr_round p \<noteq> round_id n" if "p \<in> set (db_pairs (delete_rounds (ev_id ev) d))" for p n
    using that fresh by (auto simp: delete_rounds_def Let_def fresh_round_ids_def)
  have rounds_of: "r \<in> set (db_rounds d') \<and> rd_event r = ev_id ev \<longleftrightarrow> r \<in> set ?new" for r
    using ev_new by (auto simp: r' delete_rounds_def Let_def)
  have "stored_pairs d' (ev_id ev) = schedule_pairs rounds"
  proof (intro set_eqI iffI)
    fix x assume "x \<in> stored_pairs d' (ev_id ev)"
    then obtain r p where x: "x = (rd_number r, pr_a p, pr_b p)" "r \<in> set ?new" "p \<in> set (db_pairs d')" "pr_round p = rd_id r"
      using rounds_of unfolding stored_pairs_def by blast
    then obtain rnd where rnd: "rnd \<in> set rounds" "r = new_round ev round_id rnd" by auto
    then have rid: "rd_id r = round_id (sr_number rnd)" "rd_number r = sr_number rnd" by (simp_all add: new_round_def Let_def)
    from x(3,4) rid old have "p \<in> set ?pairs" by (auto simp: p')
    then obtain rnd' sp where p: "rnd' \<in> set rounds" "sp \<in> set (sr_pairs rnd')"
        "p = new_pair ev ?by pair_id (sr_number rnd') sp" by auto
    have "round_id (sr_number rnd') = round_id (sr_number rnd)" using row[OF p(1,2)] p(3) x(4) rid by simp
    then have "sr_number rnd' = sr_number rnd" using fresh by (auto simp: fresh_round_ids_def inj_eq)
    then have "x = (sr_number rnd', uuid_value (sp_pid_a sp), uuid_value (sp_pid_b sp))"
      using p(3) row[OF p(1,2)] x(1) rid by simp
    then show "x \<in> schedule_pairs rounds" using p(1,2) unfolding schedule_pairs_def by blast
  next
    fix x assume "x \<in> schedule_pairs rounds"
    then obtain rnd sp where s: "rnd \<in> set rounds" "sp \<in> set (sr_pairs rnd)"
        "x = (sr_number rnd, uuid_value (sp_pid_a sp), uuid_value (sp_pid_b sp))" by (auto simp: schedule_pairs_def)
    let ?p = "new_pair ev ?by pair_id (sr_number rnd) sp" and ?r = "new_round ev round_id rnd"
    have "?p \<in> set (db_pairs d')" using s by (auto simp: p')
    moreover have "?r \<in> set (db_rounds d')" "rd_event ?r = ev_id ev" using s rounds_of[of ?r] by auto
    moreover have "x = (rd_number ?r, pr_a ?p, pr_b ?p)" "pr_round ?p = rd_id ?r"
      using s row[OF s(1,2)] by (simp_all add: new_round_def Let_def)
    ultimately show "x \<in> stored_pairs d' (ev_id ev)" unfolding stored_pairs_def by blast
  qed
  moreover have "filter (\<lambda>r. rd_event r = ev_id ev) (db_rounds d') = ?new"
    using ev_new by (simp add: r' delete_rounds_def Let_def filter_id_conv)
  moreover have "filter (\<lambda>r. rd_event r \<noteq> ev_id ev) (db_rounds d') = filter (\<lambda>r. rd_event r \<noteq> ev_id ev) (db_rounds d)"
    using ev_new by (simp add: r' delete_rounds_def Let_def filter_empty_conv)
  ultimately show ?thesis using c by blast
qed

section \<open>The recalculation\<close>

text \<open>What the locked part leaves behind, on every outcome.\<close>

definition recalculated :: "(nat \<Rightarrow> uuid) \<Rightarrow> event_row \<Rightarrow> string set \<Rightarrow> db \<Rightarrow>
    recalc_error + generated_schedule \<times> db \<Rightarrow> bool" where
  "recalculated round_id locked pids d r =
     (case r of
        Inr (sched, d') \<Rightarrow>
          valid_schedule pids (int (ev_num_rounds locked)) sched \<and>
          stored_pairs d' (ev_id locked) = schedule_pairs sched \<and>
          filter (\<lambda>r. rd_event r = ev_id locked) (db_rounds d') = map (new_round locked round_id) sched \<and>
          filter (\<lambda>r. rd_event r \<noteq> ev_id locked) (db_rounds d') = filter (\<lambda>r. rd_event r \<noteq> ev_id locked) (db_rounds d) \<and>
          rounds_ok (db_rounds d') \<and> pairs_ok (db_pairs d') \<and>
          ol_action (last (db_operator_logs d')) = OA_Recalculate \<and>
          ol_event (last (db_operator_logs d')) = ev_id locked
      | Inl (ViolationsFound n) \<Rightarrow> False
      | Inl (RecalcPersist e) \<Rightarrow> e = ConstraintViolated
      | Inl (RecalcMatching e) \<Rightarrow> (case e of TooManyRounds _ _ _ \<Rightarrow> True | Stranded _ _ _ \<Rightarrow> True
          | NumRoundsBelowOne \<Rightarrow> True | _ \<Rightarrow> False)
      | Inl _ \<Rightarrow> True)"

lemma recalculated_rounds:
  assumes eq: "db_rounds d = db_rounds d'"
  shows "recalculated round_id locked pids d r = recalculated round_id locked pids d' r"
  unfolding recalculated_def eq ..

lemma generate_error_on_uuids:
  assumes "generate_schedule inp = Inl e" "all_uuids (set (pid_list inp))" "distinct (pid_list inp)"
    and "2 \<le> length (mi_participants inp)"
  shows "case e of TooManyRounds _ _ _ \<Rightarrow> True | Stranded _ _ _ \<Rightarrow> True | NumRoundsBelowOne \<Rightarrow> True | _ \<Rightarrow> False"
proof -
  have "error_means inp e"
    using generate_schedule_rejected[of inp] generate_schedule_accepted_fail[of inp e] assms(1)
    by (cases "accepted_input inp") auto
  then show ?thesis using assms(2-4) by (cases e) (auto simp: pid_list_def)
qed

lemma recalculate_locked_sound:
  assumes wf: "participants_wf d" and fresh: "fresh_round_ids round_id d"
  shows "recalculated round_id locked (uuid_str ` pt_id ` set (event_participants d (ev_id locked))) d
    (recalculate_locked round_id pair_id now locked extra n d)"
proof (cases "build_match_input locked d")
  case (Inl e)
  then show ?thesis by (simp add: recalculate_locked_def map_error_def recalculated_def)
next
  case inp: (Inr inp)
  note P = build_match_input_pids[OF inp]
  have ok: "all_uuids (set (pid_list inp))" "inj_on uuid_value (set (pid_list inp))" "distinct (pid_list inp)"
    using build_match_input_ok[OF inp wf] by auto
  show ?thesis
  proof (cases "length (mi_participants inp) < 2")
    case True
    then show ?thesis by (simp add: recalculate_locked_def inp map_error_def recalculated_def)
  next
    case enough: False
    show ?thesis
    proof (cases "generate_schedule inp")
      case (Inl e)
      then show ?thesis
        using generate_error_on_uuids[OF Inl ok(1,3)] enough
        by (simp add: recalculate_locked_def inp map_error_def recalculated_def)
    next
      case sched: (Inr sched)
      have valid: "valid_schedule (set (pid_list inp)) (int (ev_num_rounds locked)) sched"
        using schedule_is_valid[OF sched ok(2)] P(2) by simp
      then have pass: "validate_schedule sched (set (pid_list inp)) (int (ev_num_rounds locked)) = []"
        using validate_accepts[of "set (pid_list inp)"] ok(1) by simp
      have num: "distinct (map sr_number sched)"
        using valid round_numbers_distinct[of sched "int (ev_num_rounds locked)"] by (simp add: valid_schedule_def)
      have pairs: "\<forall>r \<in> set sched. \<forall>sp \<in> set (sr_pairs r). pair_ok (set (pid_list inp)) sp"
        using valid by (auto simp: valid_schedule_def round_valid_def)
      show ?thesis
      proof (cases "persist_schedule locked round_id pair_id sched d")
        case (Inl e)
        have "\<forall>r \<in> set sched. \<forall>sp \<in> set (sr_pairs r).
            uuid_of_string (sp_pid_a sp) \<noteq> None \<and> uuid_of_string (sp_pid_b sp) \<noteq> None"
          using pairs ok(1) unfolding pair_ok_def all_uuids_def by blast
        then have "e = ConstraintViolated"
          using Inl by (auto simp: persist_schedule_def Let_def simp del: not_None_eq split: if_splits)
        then show ?thesis
          using enough by (simp add: recalculate_locked_def inp sched pass Inl map_error_def recalculated_def)
      next
        case (Inr d2)
        have "\<forall>r \<in> set sched. \<forall>sp \<in> set (sr_pairs r). uuid_value (sp_pid_a sp) < uuid_value (sp_pid_b sp)"
          using pairs by (simp add: pair_ok_def)
        from persist_schedule_Inr[OF Inr num this fresh] show ?thesis
          using enough valid P(1)
          by (simp add: recalculate_locked_def inp sched pass[unfolded P(1)] Inr map_error_def
              recalculated_def Let_def stored_pairs_def)
      qed
    qed
  qed
qed

section \<open>Properties\<close>


definition sample_participant :: "nat \<Rightarrow> participant_row" where
  "sample_participant n = \<lparr>pt_id = UUID n, pt_event = UUID 7, pt_name = ''Guest'', pt_email = ''g@example.org'',
     pt_status = PS_Waiting, pt_token_hash = '''', pt_token_digest = '''', pt_token_expires_at = None,
     pt_joined_at = None, pt_age = None, pt_gender = JNull, pt_want_to_date = JNull, pt_whatsapp = JNull,
     pt_tags = []\<rparr>"

definition locked_event :: event_row where
  "locked_event = \<lparr>ev_id = UUID 7, ev_name = ''Demo'', ev_description = '''', ev_status = ES_Locked,
     ev_num_rounds = 1, ev_round_duration = 300, ev_break_duration = 10, ev_start_time = 1000,
     ev_scoring_weights = JNull, ev_unique_tags = False\<rparr>"

definition two_guests_db :: db where
  "two_guests_db = empty_db\<lparr>db_events := [locked_event],
     db_participants := [sample_participant 1, sample_participant 2, sample_participant 3]\<rparr>"


end
