(* ===== verification/Scheduler.thy ===== *)
theory Scheduler
  imports Event_Store
begin

text \<open>
  The round scheduler of \<open>apps/events/scheduler.py\<close>: the timetable of an event computed from its
  durations, its persistence, and the phase of the event at an instant. \<open>start_time\<close> and \<open>now\<close>
  are always given; the defaults (\<open>event.start_time\<close>, the wall clock) are the caller's choice.
\<close>

section \<open>The timetable\<close>

datatype event_phase = EP_NotStarted | EP_Preconnect | EP_InRound | EP_Break | EP_Completed

definition phase_value :: "event_phase \<Rightarrow> string" where
  "phase_value p = (case p of EP_NotStarted \<Rightarrow> ''not_started'' | EP_Preconnect \<Rightarrow> ''preconnect''
     | EP_InRound \<Rightarrow> ''in_round'' | EP_Break \<Rightarrow> ''break'' | EP_Completed \<Rightarrow> ''completed'')"

record scheduled_round =
  sc_number :: nat
  sc_preconnect_starts_at :: int
  sc_starts_at :: int
  sc_ends_at :: int
  sc_break_ends_at :: "int option"

text \<open>The loop body for round \<open>i\<close> and the start of the round after it.\<close>

definition schedule_item :: "event_row \<Rightarrow> int \<Rightarrow> nat \<Rightarrow> int \<Rightarrow> scheduled_round \<times> int" where
  "schedule_item ev pre i current_start =
     (let round_end = current_start + ev_round_duration ev;
          is_last = (i = ev_num_rounds ev);
          break_end = (if is_last then None else Some (round_end + ev_break_duration ev))
      in (\<lparr>sc_number = i, sc_preconnect_starts_at = current_start - pre, sc_starts_at = current_start,
           sc_ends_at = round_end, sc_break_ends_at = break_end\<rparr>,
          case break_end of None \<Rightarrow> current_start | Some b \<Rightarrow> b))"

fun schedule_from :: "event_row \<Rightarrow> int \<Rightarrow> nat list \<Rightarrow> int \<Rightarrow> scheduled_round list" where
  "schedule_from ev pre [] start = []"
| "schedule_from ev pre (i # is) start =
     (let (item, next_start) = schedule_item ev pre i start in item # schedule_from ev pre is next_start)"

definition calculate_full_schedule :: "event_row \<Rightarrow> int option \<Rightarrow> int \<Rightarrow> scheduled_round list" where
  "calculate_full_schedule ev start_time pre =
     schedule_from ev pre [1..<ev_num_rounds ev + 1]
       (case start_time of Some t \<Rightarrow> t | None \<Rightarrow> ev_start_time ev)"

section \<open>Persistence\<close>

definition event_rounds :: "db \<Rightarrow> uuid \<Rightarrow> round_row list" where
  "event_rounds d e = filter (\<lambda>r. rd_event r = e) (db_rounds d)"

text \<open>One item: the existing row of that number gets the new times, otherwise a row is inserted.\<close>

definition upsert_round :: "uuid \<Rightarrow> (nat \<Rightarrow> uuid) \<Rightarrow> scheduled_round \<Rightarrow> round_row list \<Rightarrow> round_row list" where
  "upsert_round e new_id it rs =
     (if \<exists>r \<in> set rs. rd_event r = e \<and> rd_number r = sc_number it
      then map (\<lambda>r. if rd_event r = e \<and> rd_number r = sc_number it
                    then r\<lparr>rd_starts_at := sc_starts_at it, rd_ends_at := sc_ends_at it\<rparr> else r) rs
      else rs @ [\<lparr>rd_id = new_id (sc_number it), rd_event = e, rd_number = sc_number it,
                 rd_status = RS_Scheduled, rd_starts_at = sc_starts_at it, rd_ends_at = sc_ends_at it\<rparr>])"

definition persist_rounds :: "event_row \<Rightarrow> (nat \<Rightarrow> uuid) \<Rightarrow> int option \<Rightarrow> int \<Rightarrow> db \<Rightarrow> db" where
  "persist_rounds ev new_id start_time pre d =
     d\<lparr>db_rounds := fold (upsert_round (ev_id ev) new_id) (calculate_full_schedule ev start_time pre) (db_rounds d)\<rparr>"

section \<open>The current phase\<close>

type_synonym phase_info = "event_phase \<times> round_row option \<times> int option"

text \<open>The checks of the loop for one round; \<open>rounds\<close> is the whole list.\<close>

definition round_phase :: "int \<Rightarrow> int \<Rightarrow> round_row list \<Rightarrow> round_row \<Rightarrow> phase_info option" where
  "round_phase pre now rounds r =
     (if rd_starts_at r - pre \<le> now \<and> now < rd_starts_at r
      then Some (EP_Preconnect, Some r, Some (rd_starts_at r - now))
      else if rd_starts_at r \<le> now \<and> now < rd_ends_at r
      then Some (EP_InRound, Some r, Some (rd_ends_at r - now))
      else
        (case find (\<lambda>n. rd_number n = rd_number r + 1) rounds of
           None \<Rightarrow> None
         | Some n \<Rightarrow>
             if rd_ends_at r \<le> now \<and> now < rd_starts_at n - pre
             then Some (EP_Break, Some r, Some (rd_starts_at n - pre - now)) else None))"

definition current_phase :: "int \<Rightarrow> int \<Rightarrow> round_row list \<Rightarrow> phase_info" where
  "current_phase pre now rounds =
     (if rounds = [] then (EP_NotStarted, None, None)
      else if now < rd_starts_at (hd rounds) - pre
      then (EP_NotStarted, None, Some (rd_starts_at (hd rounds) - pre - now))
      else
        (case first_some (round_phase pre now rounds) rounds of
           Some r \<Rightarrow> r
         | None \<Rightarrow>
             if rd_ends_at (last rounds) \<le> now then (EP_Completed, Some (last rounds), Some 0)
             else (EP_NotStarted, None, None)))"

definition get_current_phase :: "uuid \<Rightarrow> int \<Rightarrow> int \<Rightarrow> db \<Rightarrow> phase_info" where
  "get_current_phase e pre now d = current_phase pre now (sort_key rd_number (event_rounds d e))"

text \<open>The dictionary \<open>execute_transition_if_leader\<close> returns; durations stay in microseconds.\<close>

datatype transition_report =
    NotLeader
  | Executed event_phase "nat option" int int

definition execute_transition_if_leader :: "uuid \<Rightarrow> int \<Rightarrow> bool \<Rightarrow> int \<Rightarrow> db \<Rightarrow> transition_report" where
  "execute_transition_if_leader e pre leader now d =
     (if \<not> leader then NotLeader
      else case get_current_phase e pre now d of (phase, r, remaining) \<Rightarrow>
        Executed phase (map_option rd_number r) (case remaining of Some m \<Rightarrow> m | None \<Rightarrow> 0) now)"

section \<open>The timetable in closed form\<close>

definition round_start :: "event_row \<Rightarrow> int \<Rightarrow> nat \<Rightarrow> int" where
  "round_start ev base i = base + (int i - 1) * (ev_round_duration ev + ev_break_duration ev)"

definition closed_item :: "event_row \<Rightarrow> int \<Rightarrow> int \<Rightarrow> nat \<Rightarrow> scheduled_round" where
  "closed_item ev pre base i =
     \<lparr>sc_number = i, sc_preconnect_starts_at = round_start ev base i - pre,
      sc_starts_at = round_start ev base i, sc_ends_at = round_start ev base i + ev_round_duration ev,
      sc_break_ends_at = (if i = ev_num_rounds ev then None else Some (round_start ev base (i + 1)))\<rparr>"

lemma schedule_from_closed:
  "k \<le> n \<Longrightarrow> n = ev_num_rounds ev + 1 \<Longrightarrow> 1 \<le> k \<Longrightarrow>
   schedule_from ev pre [k..<n] (round_start ev base k) = map (closed_item ev pre base) [k..<n]"
proof (induction "n - k" arbitrary: k)
  case (Suc m)
  then have "k < n" by simp
  then have upt: "[k..<n] = k # [Suc k..<n]" by (rule upt_conv_Cons)
  have "schedule_from ev pre [Suc k..<n] (round_start ev base (Suc k)) = map (closed_item ev pre base) [Suc k..<n]"
    using Suc \<open>k < n\<close> by (intro Suc.hyps(1)) auto
  moreover have next_start: "round_start ev base k + ev_round_duration ev + ev_break_duration ev = round_start ev base (Suc k)"
    by (simp add: round_start_def algebra_simps)
  ultimately show ?case
  proof (cases "k = ev_num_rounds ev")
    case True
    then have e: "[Suc k..<n] = []" using Suc.prems by simp
    show ?thesis unfolding upt e using True by (simp add: schedule_item_def closed_item_def Let_def)
  qed (simp add: upt schedule_item_def closed_item_def Let_def)
qed simp

lemma calculate_full_schedule_closed:
  "calculate_full_schedule ev (Some base) pre = map (closed_item ev pre base) [1..<ev_num_rounds ev + 1]"
  using schedule_from_closed[of 1 "ev_num_rounds ev + 1" ev pre base]
  by (simp add: calculate_full_schedule_def round_start_def)

section \<open>Phases of an ordered timetable\<close>

text \<open>Rounds numbered consecutively, each of positive length, none starting before its predecessor ends.\<close>

definition timetable :: "round_row list \<Rightarrow> bool" where
  "timetable rs \<longleftrightarrow> (\<forall>r \<in> set rs. rd_starts_at r < rd_ends_at r) \<and>
     (\<forall>i. Suc i < length rs \<longrightarrow> rd_number (rs ! Suc i) = Suc (rd_number (rs ! i)) \<and>
        rd_ends_at (rs ! i) \<le> rd_starts_at (rs ! Suc i))"

text \<open>What each phase promises at the instant \<open>now\<close>.\<close>

definition phase_correct :: "int \<Rightarrow> int \<Rightarrow> round_row list \<Rightarrow> phase_info \<Rightarrow> bool" where
  "phase_correct pre now rs info =
     (case info of
        (EP_NotStarted, None, None) \<Rightarrow> rs = []
      | (EP_NotStarted, None, Some m) \<Rightarrow> rs \<noteq> [] \<and> 0 < m \<and> now + m = rd_starts_at (hd rs) - pre
      | (EP_Preconnect, Some r, Some m) \<Rightarrow> \<exists>i < length rs. r = rs ! i \<and> 0 < m \<and>
          now + m = rd_starts_at r \<and> m \<le> pre \<and> (\<forall>j < i. rd_ends_at (rs ! j) \<le> now)
      | (EP_InRound, Some r, Some m) \<Rightarrow> \<exists>i < length rs. r = rs ! i \<and> 0 < m \<and>
          now + m = rd_ends_at r \<and> rd_starts_at r \<le> now
      | (EP_Break, Some r, Some m) \<Rightarrow> \<exists>i. Suc i < length rs \<and> r = rs ! i \<and> 0 < m \<and>
          now + m = rd_starts_at (rs ! Suc i) - pre \<and> rd_ends_at r \<le> now
      | (EP_Completed, Some r, Some m) \<Rightarrow> rs \<noteq> [] \<and> r = last rs \<and> m = 0 \<and>
          (\<forall>r \<in> set rs. rd_ends_at r \<le> now)
      | _ \<Rightarrow> False)"

lemma timetable_number:
  "timetable rs \<Longrightarrow> i < length rs \<Longrightarrow> rd_number (rs ! i) = rd_number (rs ! 0) + i"
  by (induction i) (auto simp: timetable_def)

lemma timetable_ends:
  assumes "timetable rs" "i < j" "j < length rs"
  shows "rd_ends_at (rs ! i) \<le> rd_starts_at (rs ! j)"
  using assms(2,3)
proof (induction j)
  case (Suc j)
  have step: "rd_ends_at (rs ! j) \<le> rd_starts_at (rs ! Suc j)" using assms(1) Suc.prems by (simp add: timetable_def)
  show ?case
  proof (cases "i = j")
    case False
    then have "rd_ends_at (rs ! i) \<le> rd_starts_at (rs ! j)" using Suc by simp
    moreover have "rd_starts_at (rs ! j) < rd_ends_at (rs ! j)" using assms(1) Suc.prems by (auto simp: timetable_def)
    ultimately show ?thesis using step by simp
  qed (use step in simp)
qed simp

lemma timetable_next:
  assumes "timetable rs" "i < length rs"
  shows "find (\<lambda>n. rd_number n = rd_number (rs ! i) + 1) rs =
    (if Suc i < length rs then Some (rs ! Suc i) else None)"
proof (cases "Suc i < length rs")
  case True
  have "rd_number (rs ! j) \<noteq> rd_number (rs ! i) + 1" if "j < Suc i" for j
    using timetable_number[OF assms(1), of j] timetable_number[OF assms] that True by simp
  moreover have "rd_number (rs ! Suc i) = rd_number (rs ! i) + 1"
    using timetable_number[OF assms(1) True] timetable_number[OF assms] by simp
  ultimately have "find (\<lambda>n. rd_number n = rd_number (rs ! i) + 1) rs = Some (rs ! Suc i)"
    unfolding find_Some_iff using True by blast
  then show ?thesis using True by simp
next
  case False
  have "rd_number n \<noteq> rd_number (rs ! i) + 1" if "n \<in> set rs" for n
  proof -
    from that obtain j where j: "j < length rs" "n = rs ! j" by (auto simp: in_set_conv_nth)
    then show ?thesis
      using timetable_number[OF assms(1) j(1)] timetable_number[OF assms] False by simp
  qed
  then show ?thesis using False by (simp add: find_None_iff)
qed

text \<open>Before the first round whose checks hit, every round is over.\<close>

lemma round_phase_None_over:
  assumes tt: "timetable rs" and pre: "rd_starts_at (rs ! 0) - pre \<le> now"
    and none: "\<forall>j < k. round_phase pre now rs (rs ! j) = None" and k: "k \<le> length rs"
  shows "\<forall>j < k. rd_ends_at (rs ! j) \<le> now \<and> (Suc j < length rs \<longrightarrow> rd_starts_at (rs ! Suc j) - pre \<le> now)"
proof (intro allI impI)
  fix j assume "j < k"
  then show "rd_ends_at (rs ! j) \<le> now \<and> (Suc j < length rs \<longrightarrow> rd_starts_at (rs ! Suc j) - pre \<le> now)"
  proof (induction j)
    case 0
    then have "round_phase pre now rs (rs ! 0) = None" using none by blast
    moreover have "0 < length rs" using 0 k by linarith
    ultimately show ?case
      using pre timetable_next[OF tt, of 0] 0 k
      by (auto simp: round_phase_def not_less not_le split: if_splits)
  next
    case (Suc j)
    then have "rd_starts_at (rs ! Suc j) - pre \<le> now" using k by simp
    moreover have "round_phase pre now rs (rs ! Suc j) = None" using none Suc.prems by blast
    moreover have "Suc j < length rs" using Suc.prems k by simp
    ultimately show ?case
      using timetable_next[OF tt, of "Suc j"] Suc.prems k
      by (auto simp: round_phase_def not_less not_le split: if_splits)
  qed
qed

lemma first_some_nth:
  "first_some f xs = Some y \<Longrightarrow> \<exists>i < length xs. f (xs ! i) = Some y \<and> (\<forall>j < i. f (xs ! j) = None)"
proof (induction xs)
  case (Cons x xs)
  show ?case
  proof (cases "f x")
    case None
    with Cons obtain i where "i < length xs" "f (xs ! i) = Some y" "\<forall>j < i. f (xs ! j) = None" by auto
    with None show ?thesis by (intro exI[of _ "Suc i"]) (auto simp: less_Suc_eq_0_disj)
  qed (use Cons.prems in auto)
qed simp

lemma current_phase_correct:
  assumes tt: "timetable rs" and pre0: "0 \<le> pre"
  shows "phase_correct pre now rs (current_phase pre now rs)"
proof -
  consider "rs = []" | "rs \<noteq> []" "now < rd_starts_at (hd rs) - pre"
    | "rs \<noteq> []" "rd_starts_at (hd rs) - pre \<le> now" by fastforce
  then show ?thesis
  proof cases
    case 3
    then have started: "rd_starts_at (rs ! 0) - pre \<le> now" by (simp add: hd_conv_nth)
    show ?thesis
    proof (cases "first_some (round_phase pre now rs) rs")
      case None
      then have "\<forall>j < length rs. round_phase pre now rs (rs ! j) = None" by (simp add: first_some_None)
      from round_phase_None_over[OF tt started this] have "\<forall>r \<in> set rs. rd_ends_at r \<le> now"
        by (auto simp: in_set_conv_nth)
      then show ?thesis using 3 None by (simp add: current_phase_def phase_correct_def)
    next
      case (Some info)
      obtain i where i: "i < length rs" "round_phase pre now rs (rs ! i) = Some info"
          "\<forall>j < i. round_phase pre now rs (rs ! j) = None"
        using first_some_nth[OF Some] by blast
      have over: "\<forall>j < i. rd_ends_at (rs ! j) \<le> now"
        using round_phase_None_over[OF tt started i(3)] i(1) by auto
      have "phase_correct pre now rs info"
        using i(1,2) over timetable_next[OF tt i(1)]
        by (auto simp: round_phase_def phase_correct_def split: if_splits intro!: exI[of _ i])
      then show ?thesis using 3 Some by (simp add: current_phase_def)
    qed
  qed (simp_all add: current_phase_def phase_correct_def)
qed

section \<open>Persisted timetables\<close>

lemma upsert_round_filter:
  "filter (\<lambda>r. rd_event r = e) (upsert_round e new_id it rs) =
   upsert_round e new_id it (filter (\<lambda>r. rd_event r = e) rs)"
proof -
  have "filter (\<lambda>r. rd_event r = e) (map (\<lambda>r. if rd_event r = e \<and> rd_number r = sc_number it
      then r\<lparr>rd_starts_at := sc_starts_at it, rd_ends_at := sc_ends_at it\<rparr> else r) xs) =
      map (\<lambda>r. if rd_event r = e \<and> rd_number r = sc_number it
      then r\<lparr>rd_starts_at := sc_starts_at it, rd_ends_at := sc_ends_at it\<rparr> else r)
      (filter (\<lambda>r. rd_event r = e) xs)" for xs
    by (induction xs) auto
  then show ?thesis by (auto simp: upsert_round_def)
qed

lemma upsert_round_other:
  "k \<noteq> e \<Longrightarrow> filter (\<lambda>r. rd_event r = k) (upsert_round e new_id it rs) = filter (\<lambda>r. rd_event r = k) rs"
proof -
  assume ke: "k \<noteq> e"
  have "filter (\<lambda>r. rd_event r = k) (map (\<lambda>r. if rd_event r = e \<and> rd_number r = sc_number it
      then r\<lparr>rd_starts_at := sc_starts_at it, rd_ends_at := sc_ends_at it\<rparr> else r) xs) =
      filter (\<lambda>r. rd_event r = k) xs" for xs
    using ke by (induction xs) auto
  then show ?thesis using ke by (auto simp: upsert_round_def)
qed

lemma upsert_rounds_filter:
  "filter (\<lambda>r. rd_event r = e) (fold (upsert_round e new_id) its rs) =
   fold (upsert_round e new_id) its (filter (\<lambda>r. rd_event r = e) rs)"
  by (induction its arbitrary: rs) (auto simp: upsert_round_filter)

text \<open>The rows of the event while the items are written one by one.\<close>

definition has_times :: "round_row \<Rightarrow> scheduled_round \<Rightarrow> bool" where
  "has_times r it \<longleftrightarrow> rd_number r = sc_number it \<and> rd_starts_at r = sc_starts_at it \<and> rd_ends_at r = sc_ends_at it"

lemma upsert_round_numbers:
  assumes "\<forall>r \<in> set rs. rd_event r = e" "distinct (map rd_number rs)"
  shows "distinct (map rd_number (upsert_round e new_id it rs))"
    and "set (map rd_number (upsert_round e new_id it rs)) = insert (sc_number it) (set (map rd_number rs))"
    and "\<forall>r \<in> set (upsert_round e new_id it rs). rd_event r = e \<and>
      (rd_number r = sc_number it \<longrightarrow> has_times r it) \<and> (rd_number r \<noteq> sc_number it \<longrightarrow> r \<in> set rs)"
proof -
  let ?f = "\<lambda>r. if rd_event r = e \<and> rd_number r = sc_number it
      then r\<lparr>rd_starts_at := sc_starts_at it, rd_ends_at := sc_ends_at it\<rparr> else r"
  have nums: "map rd_number (map ?f rs) = map rd_number rs" by (induction rs) auto
  show "distinct (map rd_number (upsert_round e new_id it rs))"
    using assms by (auto simp: upsert_round_def nums simp del: map_map)
  show "set (map rd_number (upsert_round e new_id it rs)) = insert (sc_number it) (set (map rd_number rs))"
  proof (cases "\<exists>r \<in> set rs. rd_event r = e \<and> rd_number r = sc_number it")
    case True
    then have "sc_number it \<in> set (map rd_number rs)" by (auto intro: rev_image_eqI)
    with True show ?thesis
      unfolding upsert_round_def by (simp add: nums insert_absorb del: map_map set_map)
  next
    case False
    then show ?thesis unfolding upsert_round_def if_not_P[OF False] by simp
  qed
  show "\<forall>r \<in> set (upsert_round e new_id it rs). rd_event r = e \<and>
      (rd_number r = sc_number it \<longrightarrow> has_times r it) \<and> (rd_number r \<noteq> sc_number it \<longrightarrow> r \<in> set rs)"
    using assms(1) by (auto simp: upsert_round_def has_times_def split: if_splits)
qed

lemma upsert_rounds_inv:
  "\<forall>r \<in> set rs. rd_event r = e \<Longrightarrow> distinct (map rd_number rs) \<Longrightarrow> distinct (map sc_number its) \<Longrightarrow>
   (let rs' = fold (upsert_round e new_id) its rs in
     (\<forall>r \<in> set rs'. rd_event r = e) \<and> distinct (map rd_number rs') \<and>
     set (map rd_number rs') = set (map rd_number rs) \<union> set (map sc_number its) \<and>
     (\<forall>r \<in> set rs'. (\<forall>it \<in> set its. rd_number r = sc_number it \<longrightarrow> has_times r it) \<and>
        (rd_number r \<notin> set (map sc_number its) \<longrightarrow> r \<in> set rs)))"
proof (induction its arbitrary: rs)
  case (Cons it its)
  let ?rs = "upsert_round e new_id it rs"
  note U = upsert_round_numbers[OF Cons.prems(1,2), of new_id it]
  have IH: "let rs' = fold (upsert_round e new_id) its ?rs in
     (\<forall>r \<in> set rs'. rd_event r = e) \<and> distinct (map rd_number rs') \<and>
     set (map rd_number rs') = set (map rd_number ?rs) \<union> set (map sc_number its) \<and>
     (\<forall>r \<in> set rs'. (\<forall>it \<in> set its. rd_number r = sc_number it \<longrightarrow> has_times r it) \<and>
        (rd_number r \<notin> set (map sc_number its) \<longrightarrow> r \<in> set ?rs))"
    by (rule Cons.IH) (use U Cons.prems(3) in auto)
  have other: "sc_number it \<notin> set (map sc_number its)" using Cons.prems(3) by simp
  show ?case
    unfolding Let_def fold_Cons o_apply
  proof (intro conjI ballI impI)
    fix r it' assume r: "r \<in> set (fold (upsert_round e new_id) its ?rs)"
      and it': "it' \<in> set (it # its)" "rd_number r = sc_number it'"
    show "has_times r it'"
    proof (cases "it' \<in> set its")
      case False
      then have "it' = it" using it' by simp
      with IH r it' other have "r \<in> set ?rs" unfolding Let_def by metis
      with U(3) it' \<open>it' = it\<close> show ?thesis by blast
    qed (use IH r it' in \<open>simp add: Let_def\<close>)
  next
    fix r assume r: "r \<in> set (fold (upsert_round e new_id) its ?rs)"
      and no: "rd_number r \<notin> set (map sc_number (it # its))"
    then have "r \<in> set ?rs" using IH unfolding Let_def by auto
    with U(3) no show "r \<in> set rs" by auto
  qed (use IH U(2) in \<open>simp_all add: Let_def\<close>)
qed simp

lemma persisted_rounds:
  fixes base pre :: int and new_id :: "nat \<Rightarrow> uuid"
  assumes nums: "\<forall>r \<in> set (event_rounds d (ev_id ev)). 1 \<le> rd_number r \<and> rd_number r \<le> ev_num_rounds ev"
    and dist: "distinct (map rd_number (event_rounds d (ev_id ev)))"
  defines "rs \<equiv> sort_key rd_number (event_rounds (persist_rounds ev new_id (Some base) pre d) (ev_id ev))"
  shows "length rs = ev_num_rounds ev \<and>
    (\<forall>i < ev_num_rounds ev. has_times (rs ! i) (closed_item ev pre base (i + 1)))"
proof -
  let ?its = "map (closed_item ev pre base) [1..<ev_num_rounds ev + 1]"
  let ?rows = "event_rounds (persist_rounds ev new_id (Some base) pre d) (ev_id ev)"
  have its: "map sc_number ?its = [1..<ev_num_rounds ev + 1]"
    by (simp add: closed_item_def comp_def)
  have rows: "?rows = fold (upsert_round (ev_id ev) new_id) ?its (event_rounds d (ev_id ev))"
    by (simp add: event_rounds_def persist_rounds_def upsert_rounds_filter calculate_full_schedule_closed
        del: upt_Suc)
  have dits: "distinct (map sc_number ?its)" unfolding its by simp
  have evs: "\<forall>r \<in> set (event_rounds d (ev_id ev)). rd_event r = ev_id ev" by (simp add: event_rounds_def)
  note U = upsert_rounds_inv[OF evs dist dits, of new_id, folded rows, unfolded Let_def]
  have set_rows: "set (map rd_number ?rows) = set [1..<ev_num_rounds ev + 1]"
    using U nums unfolding its by auto
  have "sorted (map rd_number rs)" "distinct (map rd_number rs)" "set (map rd_number rs) = set [1..<ev_num_rounds ev + 1]"
    using U set_rows by (simp_all add: rs_def distinct_map)
  then have numbers: "map rd_number rs = [1..<ev_num_rounds ev + 1]"
    by (intro sorted_distinct_set_unique) (auto simp del: upt_Suc)
  then have len: "length rs = ev_num_rounds ev" by (metis length_map length_upt add_diff_cancel_right')
  have "has_times (rs ! i) (closed_item ev pre base (i + 1))" if i: "i < ev_num_rounds ev" for i
  proof -
    have "rd_number (rs ! i) = map rd_number rs ! i" using i len by simp
    also have "\<dots> = i + 1" unfolding numbers using i by (simp add: nth_upt del: upt_Suc)
    finally have "rd_number (rs ! i) = sc_number (closed_item ev pre base (i + 1))" by (simp add: closed_item_def)
    moreover have "closed_item ev pre base (i + 1) \<in> set ?its" using i by (auto simp del: upt_Suc)
    moreover have "rs ! i \<in> set ?rows" using i len nth_mem[of i rs] by (simp add: rs_def)
    ultimately show ?thesis using U by blast
  qed
  with len show ?thesis by blast
qed

section \<open>Properties\<close>

text \<open>
  C9. After the timetable of an event is written (over no, some or all of its rounds), the phase
  the server reports is right at every instant: rounds follow each other without overlap, the
  phase names the round it belongs to, the remaining time leads exactly to the next boundary, and
  the final "not started" fallback is never reached. A break shorter than the pre-connect window
  is allowed: the running round wins.
\<close>

theorem scheduler_phase_correct:
  fixes base pre now :: int and new_id :: "nat \<Rightarrow> uuid"
  assumes "\<forall>r \<in> set (event_rounds d (ev_id ev)). 1 \<le> rd_number r \<and> rd_number r \<le> ev_num_rounds ev"
    and "distinct (map rd_number (event_rounds d (ev_id ev)))"
    and dur: "0 < ev_round_duration ev" "0 \<le> ev_break_duration ev" and pre: "0 \<le> pre"
  defines "d' \<equiv> persist_rounds ev new_id (Some base) pre d"
  defines "rs \<equiv> sort_key rd_number (event_rounds d' (ev_id ev))"
  shows "timetable rs \<and> length rs = ev_num_rounds ev \<and>
    phase_correct pre now rs (get_current_phase (ev_id ev) pre now d')"
proof -
  note P = persisted_rounds[OF assms(1,2), of new_id base pre, folded d'_def, folded rs_def]
  have row: "rd_number (rs ! i) = i + 1 \<and> rd_starts_at (rs ! i) = round_start ev base (i + 1) \<and>
      rd_ends_at (rs ! i) = round_start ev base (i + 1) + ev_round_duration ev" if "i < length rs" for i
    using P that by (auto simp: has_times_def closed_item_def)
  have tt: "timetable rs"
    unfolding timetable_def
  proof (intro conjI ballI allI impI)
    fix r assume "r \<in> set rs"
    then show "rd_starts_at r < rd_ends_at r" using row dur by (auto simp: in_set_conv_nth)
  next
    fix i assume i: "Suc i < length rs"
    show "rd_number (rs ! Suc i) = Suc (rd_number (rs ! i))" using row[of i] row[OF i] i by simp
    show "rd_ends_at (rs ! i) \<le> rd_starts_at (rs ! Suc i)"
      using row[of i] row[OF i] i dur by (simp add: round_start_def algebra_simps)
  qed
  then show ?thesis using P current_phase_correct[OF tt pre] by (simp add: get_current_phase_def rs_def)
qed

definition two_round_event :: event_row where
  "two_round_event = \<lparr>ev_id = UUID 7, ev_name = ''Demo'', ev_description = '''', ev_status = ES_Locked,
     ev_num_rounds = 2, ev_round_duration = 300, ev_break_duration = 10, ev_start_time = 1000,
     ev_scoring_weights = JNull, ev_unique_tags = False\<rparr>"

definition no_rounds_db :: db where
  "no_rounds_db = empty_db\<lparr>db_events := [two_round_event]\<rparr>"

lemma scheduler_phase_correct_witness:
  "phase_correct 20 1295
     (sort_key rd_number (event_rounds (persist_rounds two_round_event UUID (Some 1000) 20 no_rounds_db) (UUID 7)))
     (get_current_phase (UUID 7) 20 1295 (persist_rounds two_round_event UUID (Some 1000) 20 no_rounds_db))"
  using scheduler_phase_correct[of no_rounds_db two_round_event 20 UUID 1000 1295]
  by (simp add: event_rounds_def no_rounds_db_def empty_db_def two_round_event_def)

text \<open>
  The calculated timetable in closed form: round \<open>i\<close> starts \<open>i - 1\<close> rounds and breaks after the
  base start, pre-connect opens the given window before it, and every round but the last has a
  break that ends where the next round starts.
\<close>

theorem full_schedule_closed_form:
  "calculate_full_schedule ev start_time pre =
     map (closed_item ev pre (case start_time of Some t \<Rightarrow> t | None \<Rightarrow> ev_start_time ev))
       [1..<ev_num_rounds ev + 1]"
  using calculate_full_schedule_closed[of ev _ pre]
  by (cases start_time) (simp_all add: calculate_full_schedule_def)

end
