(* ===== verification/Operator.thy ===== *)
theory Operator
  imports Scheduling Scheduler
begin

text \<open>
  The operator's live actions, \<open>OperatorService\<close> of \<open>apps/events/operator.py\<close>: pause, resume and
  extend over the stored rounds and the operator log, and the live metrics with their alerts.
  ISO 8601 texts of instants in log details and messages are the instants themselves, in
  microseconds; \<open>log_id\<close> is the text of the new log row's primary key. An error rolls back.
\<close>

section \<open>Actions\<close>

datatype operator_error =
    OpNotLeader
  | PauseOutsideRound
  | AlreadyPaused
  | NotPaused
  | ResumeRoundMissing
  | ExtensionNotPositive
  | NothingToExtend

record op_outcome =
  oo_reply :: pydict
  oo_broadcast :: "string \<times> pydict"
  oo_db :: db

definition default_preconnect :: int where
  "default_preconnect = 20000000"

text \<open>\<open>int(td.total_seconds())\<close> of a non-negative duration.\<close>

definition whole_seconds :: "int \<Rightarrow> int" where
  "whole_seconds m = max (m div 1000000) 0"

text \<open>\<open>event.operator_logs.first()\<close>: the newest by \<open>performed_at\<close>, the last inserted on a tie.\<close>

definition last_operator_log :: "db \<Rightarrow> uuid \<Rightarrow> operator_log option" where
  "last_operator_log d e =
     (let ls = rev (filter (\<lambda>l. ol_event l = e) (db_operator_logs d)) in
      if ls = [] then None else Some (max_by ol_performed_at ls))"

definition add_operator_log :: "uuid \<Rightarrow> uuid option \<Rightarrow> operator_action \<Rightarrow> pydict \<Rightarrow> int \<Rightarrow> db \<Rightarrow> db" where
  "add_operator_log e r a details now d =
     d\<lparr>db_operator_logs := db_operator_logs d @
        [\<lparr>ol_event = e, ol_round = r, ol_action = a, ol_details = details, ol_performed_at = now\<rparr>]\<rparr>"

definition op_pause :: "bool \<Rightarrow> uuid \<Rightarrow> int \<Rightarrow> string \<Rightarrow> db \<Rightarrow> operator_error + op_outcome" where
  "op_pause leader e now log_id d =
     (if \<not> leader then Inl OpNotLeader
      else case get_current_phase e default_preconnect now d of
        (EP_InRound, Some r, Some remaining) \<Rightarrow>
          if remaining = 0 then Inl PauseOutsideRound
          else if map_option ol_action (last_operator_log d e) = Some OA_Pause then Inl AlreadyPaused
          else
            let remaining_seconds = whole_seconds remaining;
                details = [(''remaining_seconds'', JInt remaining_seconds), (''paused_at'', JInt now)];
                payload = [(''round_number'', JInt (int (rd_number r))),
                           (''remaining_seconds'', JInt remaining_seconds), (''paused_at'', JInt now)]
            in Inr \<lparr>oo_reply = [(''status'', JStr ''paused''), (''log_id'', JStr log_id)] @ payload,
                    oo_broadcast = (''pause'', payload),
                    oo_db = add_operator_log e (Some (rd_id r)) OA_Pause details now d\<rparr>
      | _ \<Rightarrow> Inl PauseOutsideRound)"

text \<open>The running round gets a later end, the rounds after it move as a whole.\<close>

definition push_end :: "uuid \<Rightarrow> int \<Rightarrow> round_row list \<Rightarrow> round_row list" where
  "push_end rid delta rs = map (\<lambda>r. if rd_id r = rid then r\<lparr>rd_ends_at := rd_ends_at r + delta\<rparr> else r) rs"

definition shift_after :: "uuid \<Rightarrow> nat \<Rightarrow> int \<Rightarrow> round_row list \<Rightarrow> round_row list" where
  "shift_after e n delta rs = map (\<lambda>r. if rd_event r = e \<and> n < rd_number r
     then r\<lparr>rd_starts_at := rd_starts_at r + delta, rd_ends_at := rd_ends_at r + delta\<rparr> else r) rs"

definition stretch_round :: "uuid \<Rightarrow> round_row \<Rightarrow> int \<Rightarrow> db \<Rightarrow> db" where
  "stretch_round e r delta d =
     d\<lparr>db_rounds := shift_after e (rd_number r) delta (push_end (rd_id r) delta (db_rounds d))\<rparr>"

definition op_resume :: "bool \<Rightarrow> uuid \<Rightarrow> int \<Rightarrow> string \<Rightarrow> db \<Rightarrow> operator_error + op_outcome" where
  "op_resume leader e now log_id d =
     (if \<not> leader then Inl OpNotLeader
      else case last_operator_log d e of
        None \<Rightarrow> Inl NotPaused
      | Some lg \<Rightarrow>
          if ol_action lg \<noteq> OA_Pause then Inl NotPaused
          else case Option.bind (ol_round lg) (\<lambda>i. find (\<lambda>r. rd_id r = i) (db_rounds d)) of
            None \<Rightarrow> Inl ResumeRoundMissing
          | Some r \<Rightarrow>
              let shift = (case dict_get (ol_details lg) ''paused_at'' of
                    Some (JInt paused_at) \<Rightarrow> max (now - paused_at) 1000000 | _ \<Rightarrow> 1000000);
                  new_end = rd_ends_at r + shift;
                  details = [(''resumed_at'', JInt now), (''new_ends_at'', JInt new_end),
                             (''shifted_seconds'', JInt (whole_seconds shift))];
                  payload = [(''round_number'', JInt (int (rd_number r))), (''resumed_at'', JInt now),
                             (''ends_at'', JInt new_end), (''remaining_seconds'', JInt (whole_seconds (new_end - now)))]
              in Inr \<lparr>oo_reply = [(''status'', JStr ''resumed''), (''log_id'', JStr log_id)] @ payload,
                      oo_broadcast = (''resume'', payload),
                      oo_db = add_operator_log e (Some (rd_id r)) OA_Resume details now (stretch_round e r shift d)\<rparr>)"

definition op_extend :: "bool \<Rightarrow> uuid \<Rightarrow> int \<Rightarrow> int \<Rightarrow> string \<Rightarrow> db \<Rightarrow> operator_error + op_outcome" where
  "op_extend leader e extra_seconds now log_id d =
     (if \<not> leader then Inl OpNotLeader
      else if extra_seconds \<le> 0 then Inl ExtensionNotPositive
      else case get_current_phase e default_preconnect now d of
        (EP_InRound, Some r, _) \<Rightarrow>
          let extension = extra_seconds * 1000000;
              new_end = rd_ends_at r + extension;
              details = [(''extended_by_seconds'', JInt extra_seconds), (''new_ends_at'', JInt new_end)];
              payload = [(''round_number'', JInt (int (rd_number r))), (''extended_by_seconds'', JInt extra_seconds),
                         (''ends_at'', JInt new_end)]
          in Inr \<lparr>oo_reply = [(''status'', JStr ''extended''), (''log_id'', JStr log_id)] @ payload,
                  oo_broadcast = (''extend'', payload),
                  oo_db = add_operator_log e (Some (rd_id r)) OA_Extend details now (stretch_round e r extension d)\<rparr>
      | _ \<Rightarrow> Inl NothingToExtend)"

datatype recalc_outcome_error = RecalcNotLeader | RecalcFailed recalc_error

definition op_recalculate_pairs :: "bool \<Rightarrow> (nat \<Rightarrow> uuid) \<Rightarrow> (string \<Rightarrow> uuid) \<Rightarrow> int \<Rightarrow> event_row \<Rightarrow> bool \<Rightarrow>
    string list \<Rightarrow> pydict \<Rightarrow> db \<Rightarrow> recalc_outcome_error + generated_schedule \<times> db" where
  "op_recalculate_pairs leader round_id pair_id now ev confirmed absent details d =
     (if \<not> leader then Inl RecalcNotLeader
      else map_error RecalcFailed (recalculate_pairs_pre_start round_id pair_id now ev confirmed absent details d))"

section \<open>Live metrics\<close>

record live_metrics =
  lm_active_connections :: int
  lm_active_rooms :: int
  lm_relay_share :: rat
  lm_fallback_upgrades :: int
  lm_message_latency :: rat
  lm_drop_rate :: rat

datatype metric_alert = HighRelayShare rat | HighFallbackUpgrades rat | HighConnectionDrop rat

definition upgrade_percentage :: "live_metrics \<Rightarrow> rat" where
  "upgrade_percentage m =
     (let total_sessions = max (lm_active_rooms m * 2) 1
      in fl64 (fl64 (of_int (lm_fallback_upgrades m) / of_int total_sessions) * 100))"

definition live_alerts :: "live_metrics \<Rightarrow> metric_alert list" where
  "live_alerts m =
     (if 35 < lm_relay_share m then [HighRelayShare (lm_relay_share m)] else []) @
     (if 10 < upgrade_percentage m then [HighFallbackUpgrades (upgrade_percentage m)] else []) @
     (if 5 < lm_drop_rate m then [HighConnectionDrop (lm_drop_rate m)] else [])"

definition get_live_metrics :: "live_metrics \<Rightarrow> live_metrics \<times> bool \<times> metric_alert list" where
  "get_live_metrics m = (m, live_alerts m \<noteq> [], live_alerts m)"

section \<open>The newest log\<close>

lemma last_operator_log_added:
  assumes "\<forall>l \<in> set (db_operator_logs d). ol_event l = e \<longrightarrow> ol_performed_at l \<le> now"
  shows "last_operator_log (add_operator_log e r a details now d) e =
    Some \<lparr>ol_event = e, ol_round = r, ol_action = a, ol_details = details, ol_performed_at = now\<rparr>"
proof -
  have first: "max_by f (x # xs) = x" if "\<forall>y \<in> set xs. f y \<le> f x" for f :: "operator_log \<Rightarrow> int" and x xs
    using that by (induction xs) auto
  show ?thesis
    using assms by (simp add: last_operator_log_def add_operator_log_def Let_def first)
qed

section \<open>Phases after a stretched round\<close>

lemma current_phase_in_round:
  assumes tt: "timetable rs" and pre: "0 \<le> pre" and i: "i < length rs"
    and now: "rd_starts_at (rs ! i) \<le> now" "now < rd_ends_at (rs ! i)"
  shows "current_phase pre now rs = (EP_InRound, Some (rs ! i), Some (rd_ends_at (rs ! i) - now))"
proof -
  obtain ph r m where info: "current_phase pre now rs = (ph, r, m)" by (metis prod_cases3)
  have ok: "phase_correct pre now rs (ph, r, m)" using current_phase_correct[OF tt pre, of now] info by simp
  have len: "rd_starts_at (rs ! j) < rd_ends_at (rs ! j)" if "j < length rs" for j
    using tt that by (auto simp: timetable_def)
  have ord: "rd_ends_at (rs ! j) \<le> rd_starts_at (rs ! k)" if "j < k" "k < length rs" for j k
    using timetable_ends[OF tt that] .
  have hd: "rd_starts_at (hd rs) \<le> rd_starts_at (rs ! i)"
  proof -
    have "rs \<noteq> []" using i by auto
    then show ?thesis using i ord[of 0 i] len[of 0] by (cases i) (auto simp: hd_conv_nth)
  qed
  show ?thesis
  proof (cases ph)
    case EP_InRound
    then obtain j where j: "j < length rs" "r = Some (rs ! j)" "rd_starts_at (rs ! j) \<le> now"
        "now < rd_ends_at (rs ! j)" "m = Some (rd_ends_at (rs ! j) - now)"
      using ok by (auto simp: phase_correct_def split: option.splits)
    have "j = i" using ord[of j i] ord[of i j] j i now by (cases i j rule: linorder_cases) auto
    then show ?thesis using j info EP_InRound by simp
  next
    case EP_Preconnect
    then obtain j where j: "j < length rs" "now < rd_starts_at (rs ! j)" "\<forall>k < j. rd_ends_at (rs ! k) \<le> now"
      using ok by (auto simp: phase_correct_def split: option.splits)
    then have False using ord[of j i] len[of j] i now by (cases i j rule: linorder_cases) auto
    then show ?thesis ..
  next
    case EP_Break
    then obtain j where j: "Suc j < length rs" "now < rd_starts_at (rs ! Suc j) - pre" "rd_ends_at (rs ! j) \<le> now"
      using ok by (auto simp: phase_correct_def split: option.splits)
    have "i \<le> j \<or> Suc j = i \<or> Suc j < i" by auto
    then have False
      using ord[of i j] ord[of "Suc j" i] len[of "Suc j"] len[of j] j i now pre by (cases "i = j") auto
    then show ?thesis ..
  next
    case EP_Completed
    then show ?thesis using ok i now by (auto simp: phase_correct_def split: option.splits) (metis leD nth_mem)
  next
    case EP_NotStarted
    then show ?thesis using ok i now hd pre by (auto simp: phase_correct_def split: option.splits)
  qed
qed

definition stretch_row :: "round_row \<Rightarrow> int \<Rightarrow> round_row \<Rightarrow> round_row" where
  "stretch_row r delta x =
     (if rd_number x = rd_number r then x\<lparr>rd_ends_at := rd_ends_at x + delta\<rparr>
      else if rd_number r < rd_number x
      then x\<lparr>rd_starts_at := rd_starts_at x + delta, rd_ends_at := rd_ends_at x + delta\<rparr> else x)"

lemma stretch_row_number [simp]: "rd_number (stretch_row r delta x) = rd_number x"
  by (simp add: stretch_row_def)

lemma insort_key_map:
  "(\<And>x. k (f x) = k x) \<Longrightarrow> insort_key k (f x) (map f xs) = map f (insort_key k x xs)"
  by (induction xs) auto

lemma sort_key_map: "(\<And>x. k (f x) = k x) \<Longrightarrow> sort_key k (map f xs) = map f (sort_key k xs)"
  by (induction xs) (auto simp: insort_key_map)

text \<open>Primary keys identify rows; a stretched round is a round of its event.\<close>

definition round_keys_ok :: "db \<Rightarrow> uuid \<Rightarrow> bool" where
  "round_keys_ok d e \<longleftrightarrow> distinct (map rd_id (db_rounds d)) \<and> distinct (map rd_number (event_rounds d e))"

lemma stretch_round_rows:
  assumes ok: "round_keys_ok d e" and r: "r \<in> set (db_rounds d)" "rd_event r = e"
  shows "event_rounds (stretch_round e r delta d) e = map (stretch_row r delta) (event_rounds d e)"
proof -
  let ?g = "\<lambda>x. if rd_id x = rd_id r then x\<lparr>rd_ends_at := rd_ends_at x + delta\<rparr> else x"
  define F where "F x = (if rd_event (?g x) = e \<and> rd_number r < rd_number (?g x)
     then (?g x)\<lparr>rd_starts_at := rd_starts_at (?g x) + delta, rd_ends_at := rd_ends_at (?g x) + delta\<rparr> else ?g x)" for x :: round_row
  have ids: "x = r" if "x \<in> set (db_rounds d)" "rd_id x = rd_id r" for x
    using ok that r(1) by (auto simp: round_keys_ok_def distinct_map dest: inj_onD)
  have nums: "x = r" if "x \<in> set (db_rounds d)" "rd_event x = e" "rd_number x = rd_number r" for x
    using ok that r by (auto simp: round_keys_ok_def event_rounds_def distinct_map dest!: inj_onD)
  have row: "F x = stretch_row r delta x" if "x \<in> set (db_rounds d)" "rd_event x = e" for x
    using ids[OF that(1)] nums[OF that] that(2) r(2) by (auto simp: stretch_row_def F_def)
  have ev: "rd_event (F x) = rd_event x" for x by (simp add: F_def)
  have FF: "shift_after e (rd_number r) delta (push_end (rd_id r) delta xs) = map F xs" for xs
    by (induction xs) (simp_all add: shift_after_def push_end_def F_def)
  have "filter (\<lambda>x. rd_event x = e) (map F xs) = map (stretch_row r delta) (filter (\<lambda>x. rd_event x = e) xs)"
    if "set xs \<subseteq> set (db_rounds d)" for xs
    using that
  proof (induction xs)
    case (Cons x xs)
    then show ?case using row[of x] ev[of x] by (cases "rd_event x = e") simp_all
  qed simp
  from this[of "db_rounds d"] show ?thesis
    by (simp add: event_rounds_def stretch_round_def FF)
qed

lemma stretch_timetable:
  assumes tt: "timetable rs" and r: "r \<in> set rs" and d: "0 \<le> delta"
  shows "timetable (map (stretch_row r delta) rs)"
  using tt d unfolding timetable_def
  by (auto simp: stretch_row_def)

lemma in_round_stretched:
  assumes keys: "round_keys_ok d e" and tt: "timetable (sort_key rd_number (event_rounds d e))"
    and pre: "0 \<le> pre" and ph: "get_current_phase e pre now d = (EP_InRound, Some r, Some m)"
    and delta: "0 \<le> delta" "now \<le> later" "later < rd_ends_at r + delta"
  shows "r \<in> set (db_rounds d) \<and> rd_event r = e \<and> 0 < m \<and> now + m = rd_ends_at r \<and>
    event_rounds (stretch_round e r delta d) e = map (stretch_row r delta) (event_rounds d e) \<and>
    timetable (sort_key rd_number (event_rounds (stretch_round e r delta d) e)) \<and>
    get_current_phase e pre later (stretch_round e r delta d) =
      (EP_InRound, Some (r\<lparr>rd_ends_at := rd_ends_at r + delta\<rparr>), Some (rd_ends_at r + delta - later))"
proof -
  let ?rs = "sort_key rd_number (event_rounds d e)"
  have "phase_correct pre now ?rs (EP_InRound, Some r, Some m)"
    using current_phase_correct[OF tt pre, of now] ph by (simp add: get_current_phase_def)
  then obtain i where i: "i < length ?rs" "r = ?rs ! i" "0 < m" "now + m = rd_ends_at r" "rd_starts_at r \<le> now"
    by (auto simp: phase_correct_def)
  then have "r \<in> set ?rs" by (metis nth_mem)
  then have r: "r \<in> set (db_rounds d)" "rd_event r = e" by (auto simp: event_rounds_def)
  let ?d = "stretch_round e r delta d"
  have rows: "event_rounds ?d e = map (stretch_row r delta) (event_rounds d e)"
    by (rule stretch_round_rows[OF keys r])
  then have rs': "sort_key rd_number (event_rounds ?d e) = map (stretch_row r delta) ?rs"
    by (simp add: sort_key_map)
  have tt': "timetable (map (stretch_row r delta) ?rs)"
    by (rule stretch_timetable[OF tt \<open>r \<in> set ?rs\<close> delta(1)])
  have ri: "map (stretch_row r delta) ?rs ! i = r\<lparr>rd_ends_at := rd_ends_at r + delta\<rparr>"
    using i(1,2) by (simp add: stretch_row_def)
  have cp: "current_phase pre later (map (stretch_row r delta) ?rs) =
      (EP_InRound, Some (r\<lparr>rd_ends_at := rd_ends_at r + delta\<rparr>), Some (rd_ends_at r + delta - later))"
    using current_phase_in_round[OF tt' pre, of i later] i delta unfolding ri by simp
  show ?thesis
    by (intro conjI r i(3,4) rows) (simp_all only: get_current_phase_def rs' tt' cp)
qed

lemma op_pause_Inr:
  assumes "op_pause leader e now lid d = Inr p"
  obtains r m where "get_current_phase e default_preconnect now d = (EP_InRound, Some r, Some m)"
    "oo_db p = add_operator_log e (Some (rd_id r)) OA_Pause
       [(''remaining_seconds'', JInt (whole_seconds m)), (''paused_at'', JInt now)] now d"
  using assms
  by (auto simp: op_pause_def Let_def split: if_splits prod.splits event_phase.splits option.splits)

lemma op_extend_Inr:
  assumes "op_extend leader e secs now lid d = Inr p"
  obtains r m details where "get_current_phase e default_preconnect now d = (EP_InRound, Some r, m)"
    "0 < secs" "oo_db p = add_operator_log e (Some (rd_id r)) OA_Extend details now (stretch_round e r (secs * 1000000) d)"
  using assms
  by (auto simp: op_extend_def Let_def split: if_splits prod.splits event_phase.splits option.splits)

lemma phase_of_log [simp]:
  "get_current_phase e pre now (add_operator_log k r a details t d) = get_current_phase e pre now d"
  "event_rounds (add_operator_log k r a details t d) e = event_rounds d e"
  "db_rounds (add_operator_log k r a details t d) = db_rounds d"
  "stretch_round e x delta (add_operator_log k r a details t d) =
     add_operator_log k r a details t (stretch_round e x delta d)"
  by (simp_all add: add_operator_log_def get_current_phase_def event_rounds_def stretch_round_def)

lemma find_by_id:
  assumes "distinct (map rd_id rs)" "r \<in> set rs"
  shows "find (\<lambda>x. rd_id x = rd_id r) rs = Some r"
  using assms by (induction rs) auto

text \<open>No log of the event is newer than the clock of the server that acts.\<close>

definition logs_before :: "db \<Rightarrow> uuid \<Rightarrow> int \<Rightarrow> bool" where
  "logs_before d e now \<longleftrightarrow> (\<forall>l \<in> set (db_operator_logs d). ol_event l = e \<longrightarrow> ol_performed_at l \<le> now)"

section \<open>Properties\<close>

text \<open>
  C10. Pausing a round and resuming it at least a second later gives the round back exactly the time
  it had left, even when its scheduled end passed during the pause: resuming cannot fail, the event
  is in the same round with the frozen remaining time, all later rounds move by the length of the
  pause, and the timetable stays without overlaps.
\<close>

theorem pause_resume_keeps_time:
  assumes keys: "round_keys_ok d e" and tt: "timetable (sort_key rd_number (event_rounds d e))"
    and logs: "logs_before d e t1" and pause: "op_pause leader e t1 lid d = Inr p"
    and later: "t1 + 1000000 \<le> t2"
  shows "\<exists>q r m. op_resume True e t2 lid' (oo_db p) = Inr q \<and>
    get_current_phase e default_preconnect t1 d = (EP_InRound, Some r, Some m) \<and>
    get_current_phase e default_preconnect t2 (oo_db q) =
      (EP_InRound, Some (r\<lparr>rd_ends_at := rd_ends_at r + (t2 - t1)\<rparr>), Some m) \<and>
    event_rounds (oo_db q) e = map (stretch_row r (t2 - t1)) (event_rounds d e) \<and>
    timetable (sort_key rd_number (event_rounds (oo_db q) e))"
proof -
  obtain r m where ph: "get_current_phase e default_preconnect t1 d = (EP_InRound, Some r, Some m)"
    and p: "oo_db p = add_operator_log e (Some (rd_id r)) OA_Pause
       [(''remaining_seconds'', JInt (whole_seconds m)), (''paused_at'', JInt t1)] t1 d"
    by (rule op_pause_Inr[OF pause])
  have pre: "0 \<le> default_preconnect" by (simp add: default_preconnect_def)
  have base: "r \<in> set (db_rounds d) \<and> 0 < m \<and> t1 + m = rd_ends_at r"
    using in_round_stretched[OF keys tt pre ph, of 0 t1]
      current_phase_correct[OF tt pre, of t1] ph
    by (auto simp: get_current_phase_def phase_correct_def)
  have "t2 < rd_ends_at r + (t2 - t1)" "t1 \<le> t2" "0 \<le> t2 - t1" using base later by auto
  note S = in_round_stretched[OF keys tt pre ph this(3,2,1)]
  have S1: "event_rounds (stretch_round e r (t2 - t1) d) e = map (stretch_row r (t2 - t1)) (event_rounds d e)"
    and S2: "timetable (sort_key rd_number (event_rounds (stretch_round e r (t2 - t1) d) e))"
    and S3: "get_current_phase e default_preconnect t2 (stretch_round e r (t2 - t1) d) =
      (EP_InRound, Some (r\<lparr>rd_ends_at := rd_ends_at r + (t2 - t1)\<rparr>), Some (rd_ends_at r + (t2 - t1) - t2))"
    using S by blast+
  have lastl: "last_operator_log (oo_db p) e = Some \<lparr>ol_event = e, ol_round = Some (rd_id r), ol_action = OA_Pause,
      ol_details = [(''remaining_seconds'', JInt (whole_seconds m)), (''paused_at'', JInt t1)], ol_performed_at = t1\<rparr>"
    unfolding p using logs by (intro last_operator_log_added) (simp add: logs_before_def)
  have find: "find (\<lambda>x. rd_id x = rd_id r) (db_rounds (oo_db p)) = Some r"
    using keys base by (simp add: p find_by_id round_keys_ok_def)
  have shift: "max (t2 - t1) 1000000 = t2 - t1" using later by simp
  obtain q details where q: "op_resume True e t2 lid' (oo_db p) = Inr q"
      "oo_db q = add_operator_log e (Some (rd_id r)) OA_Resume details t2 (stretch_round e r (t2 - t1) (oo_db p))"
    by (simp add: op_resume_def lastl find dict_get_Cons shift Let_def)
  have m_eq: "rd_ends_at r + (t2 - t1) - t2 = m" using base by simp
  show ?thesis
    using q(1) ph S3[unfolded m_eq] S2[unfolded S1] S1
    by (intro exI[of _ q] exI[of _ r] exI[of _ m]) (simp add: p q(2))
qed

definition live_round :: round_row where
  "live_round = \<lparr>rd_id = UUID 11, rd_event = UUID 7, rd_number = 1, rd_status = RS_Scheduled,
     rd_starts_at = 0, rd_ends_at = 300000000\<rparr>"

definition live_db :: db where
  "live_db = empty_db\<lparr>db_events := [locked_event], db_rounds := [live_round]\<rparr>"

lemma live_db_ok:
  "round_keys_ok live_db (UUID 7)" "timetable (sort_key rd_number (event_rounds live_db (UUID 7)))"
  "logs_before live_db (UUID 7) t"
  "0 \<le> t \<Longrightarrow> t < 300000000 \<Longrightarrow> get_current_phase (UUID 7) default_preconnect t live_db =
     (EP_InRound, Some live_round, Some (300000000 - t))"
  by (auto simp: round_keys_ok_def event_rounds_def live_db_def empty_db_def timetable_def live_round_def
      logs_before_def get_current_phase_def current_phase_def round_phase_def default_preconnect_def)

lemma live_db_no_log: "last_operator_log live_db e = None"
  by (simp add: last_operator_log_def live_db_def empty_db_def)

lemma live_pause: "\<exists>p. op_pause True (UUID 7) 100000000 lid live_db = Inr p"
  by (simp add: op_pause_def live_db_ok(4) live_db_no_log Let_def)

lemma pause_resume_keeps_time_witness:
  "\<exists>p q r. op_pause True (UUID 7) 100000000 ''log-1'' live_db = Inr p \<and>
     op_resume True (UUID 7) 900000000 ''log-2'' (oo_db p) = Inr q \<and>
     get_current_phase (UUID 7) default_preconnect 900000000 (oo_db q) = (EP_InRound, Some r, Some 200000000)"
proof -
  obtain p where p: "op_pause True (UUID 7) 100000000 ''log-1'' live_db = Inr p" using live_pause by blast
  from pause_resume_keeps_time[OF live_db_ok(1,2,3) p, of 900000000 "''log-2''"]
  show ?thesis using p live_db_ok(4)[of 100000000] by auto
qed

text \<open>
  Extending a paused round silently cancels the pause: after any successful extension the
  newest log is no longer a pause, so resuming is refused, the frozen time is not given back and
  the round keeps running out.
\<close>

theorem extend_cancels_pause:
  assumes pause: "op_pause True e t1 lid d = Inr p" and t: "t1 \<le> t2" and logs: "logs_before d e t1"
    and ext: "op_extend True e secs t2 lid2 (oo_db p) = Inr q"
  shows "op_resume leader e t3 lid3 (oo_db q) = Inl (if leader then NotPaused else OpNotLeader)"
proof -
  obtain r :: round_row and m where p: "oo_db p = add_operator_log e (Some (rd_id r)) OA_Pause
       [(''remaining_seconds'', JInt (whole_seconds m)), (''paused_at'', JInt t1)] t1 d"
    by (rule op_pause_Inr[OF pause]) blast
  obtain r2 :: round_row and details where q: "oo_db q = add_operator_log e (Some (rd_id r2)) OA_Extend details t2
      (stretch_round e r2 (secs * 1000000) (oo_db p))"
    by (rule op_extend_Inr[OF ext]) blast
  have "\<forall>l \<in> set (db_operator_logs (stretch_round e r2 (secs * 1000000) (oo_db p))). ol_event l = e \<longrightarrow> ol_performed_at l \<le> t2"
    using logs t by (auto simp: p logs_before_def add_operator_log_def stretch_round_def)
  from last_operator_log_added[OF this] show ?thesis by (simp add: op_resume_def q)
qed

lemma extend_cancels_pause_witness:
  "\<exists>p q. op_pause True (UUID 7) 100000000 ''log-1'' live_db = Inr p \<and>
     op_extend True (UUID 7) 60 120000000 ''log-2'' (oo_db p) = Inr q \<and>
     op_resume True (UUID 7) 150000000 ''log-3'' (oo_db q) = Inl NotPaused"
proof -
  obtain p where p: "op_pause True (UUID 7) 100000000 ''log-1'' live_db = Inr p" using live_pause by blast
  obtain r :: round_row and m where pd: "oo_db p = add_operator_log (UUID 7) (Some (rd_id r)) OA_Pause
       [(''remaining_seconds'', JInt (whole_seconds m)), (''paused_at'', JInt 100000000)] 100000000 live_db"
    by (rule op_pause_Inr[OF p]) blast
  obtain q where q: "op_extend True (UUID 7) 60 120000000 ''log-2'' (oo_db p) = Inr q"
    by (simp add: op_extend_def pd live_db_ok(4) Let_def)
  show ?thesis using p q extend_cancels_pause[OF p _ live_db_ok(3) q, of True 150000000 "''log-3''"] by auto
qed

text \<open>
  A successful extension leaves the event in the round it was in, adds exactly the requested
  seconds to its remaining time and moves every later round by as much; the timetable stays free
  of overlaps.
\<close>

theorem extend_adds_time:
  assumes keys: "round_keys_ok d e" and tt: "timetable (sort_key rd_number (event_rounds d e))"
    and ext: "op_extend leader e secs now lid d = Inr q"
  shows "\<exists>r m. get_current_phase e default_preconnect now d = (EP_InRound, Some r, Some m) \<and>
    get_current_phase e default_preconnect now (oo_db q) =
      (EP_InRound, Some (r\<lparr>rd_ends_at := rd_ends_at r + secs * 1000000\<rparr>), Some (m + secs * 1000000)) \<and>
    event_rounds (oo_db q) e = map (stretch_row r (secs * 1000000)) (event_rounds d e) \<and>
    timetable (sort_key rd_number (event_rounds (oo_db q) e))"
proof -
  obtain r m details where ph: "get_current_phase e default_preconnect now d = (EP_InRound, Some r, m)" and secs: "0 < secs"
    and q: "oo_db q = add_operator_log e (Some (rd_id r)) OA_Extend details now (stretch_round e r (secs * 1000000) d)"
    by (rule op_extend_Inr[OF ext])
  have pre: "0 \<le> default_preconnect" by (simp add: default_preconnect_def)
  obtain m' where m': "m = Some m'" "0 < m'" "now + m' = rd_ends_at r"
    using current_phase_correct[OF tt pre, of now] ph
    by (auto simp: get_current_phase_def phase_correct_def split: option.splits)
  have "0 \<le> secs * 1000000" "now < rd_ends_at r + secs * 1000000" using m' secs by auto
  note S = in_round_stretched[OF keys tt pre ph[unfolded m'(1)] this(1) order_refl this(2)]
  have S1: "event_rounds (stretch_round e r (secs * 1000000) d) e = map (stretch_row r (secs * 1000000)) (event_rounds d e)"
    and S2: "timetable (sort_key rd_number (event_rounds (stretch_round e r (secs * 1000000) d) e))"
    and S3: "get_current_phase e default_preconnect now (stretch_round e r (secs * 1000000) d) =
      (EP_InRound, Some (r\<lparr>rd_ends_at := rd_ends_at r + secs * 1000000\<rparr>), Some (rd_ends_at r + secs * 1000000 - now))"
    using S by blast+
  have m_eq: "rd_ends_at r + secs * 1000000 - now = m' + secs * 1000000" using m' by simp
  show ?thesis
    using ph m'(1) S3[unfolded m_eq] S2[unfolded S1] S1
    by (intro exI[of _ r] exI[of _ m']) (simp add: q)
qed

lemma extend_adds_time_witness:
  "\<exists>q r. op_extend True (UUID 7) 60 100000000 ''log-1'' live_db = Inr q \<and>
     get_current_phase (UUID 7) default_preconnect 100000000 (oo_db q) = (EP_InRound, Some r, Some 260000000)"
proof -
  obtain q where q: "op_extend True (UUID 7) 60 100000000 ''log-1'' live_db = Inr q"
    by (simp add: op_extend_def live_db_ok(4) Let_def)
  from extend_adds_time[OF live_db_ok(1,2) q] show ?thesis using q live_db_ok(4)[of 100000000] by auto
qed

end
