(* ===== verification/Media.thy ===== *)
theory Media
  imports Prelude Float64
begin

text \<open>
  The transports of \<open>apps/protocol/media_transport.py\<close>: the in-memory \<open>FakeMediaTransport\<close>, the
  lifecycle adapters with their shared local media, and \<open>RoundMediaSession\<close>, the client that depends
  only on the transport interface. The interface is the locale \<open>media_transport\<close>; both adapters
  are interpretations of it.

  A callback is a value of type \<open>listener\<close>. Every operation of an adapter emits as its last statement,
  so it returns the new state and the calls it then makes, in order. Callbacks take keyword
  arguments only, as all of the source's emitters pass.
\<close>

section \<open>Events, arguments and callbacks\<close>

datatype media_state = MS_Idle | MS_Preconnecting | MS_Preconnected | MS_Open | MS_Switching | MS_Closed

datatype media_event = ME_Connected | ME_Degraded | ME_Failed | ME_Stats

definition event_value :: "media_event \<Rightarrow> string" where
  "event_value e = (case e of ME_Connected \<Rightarrow> ''connected'' | ME_Degraded \<Rightarrow> ''degraded''
     | ME_Failed \<Rightarrow> ''failed'' | ME_Stats \<Rightarrow> ''stats'')"

definition media_events :: "media_event list" where
  "media_events = [ME_Connected, ME_Degraded, ME_Failed, ME_Stats]"

record transport_stats =
  ts_round_trip_time_ms :: pyfloat
  ts_packet_loss_rate :: pyfloat
  ts_bitrate_kbps :: pyfloat
  ts_timestamp_ms :: int

datatype arg = ANone | AStr string | AStats transport_stats

type_synonym kwargs = "(string \<times> arg) list"

text \<open>
  \<open>Forwarder b e\<close> is the closure \<open>_make_forwarder(e)\<close> of the b-th binding, \<open>Session e\<close> the bound
  method of a \<open>RoundMediaSession\<close> for the event, \<open>Client n\<close> any other callback.
\<close>

datatype listener = Forwarder nat media_event | Session media_event | Client nat

type_synonym call = "listener \<times> kwargs"

definition opt_arg :: "string option \<Rightarrow> arg" where
  "opt_arg v = (case v of None \<Rightarrow> ANone | Some s \<Rightarrow> AStr s)"

definition room_args :: "string option \<Rightarrow> string option \<Rightarrow> kwargs" where
  "room_args room partner = [(''room_id'', opt_arg room), (''partner_id'', opt_arg partner)]"

definition call_all :: "listener list \<Rightarrow> kwargs \<Rightarrow> call list" where
  "call_all ls kw = map (\<lambda>l. (l, kw)) ls"

lemma call_all_simps [simp]: "call_all [] kw = []" "call_all (l # ls) kw = (l, kw) # call_all ls kw"
  by (simp_all add: call_all_def)

section \<open>The in-memory transport\<close>

text \<open>The fields \<open>FakeMediaTransport\<close> and the lifecycle adapters have in common.\<close>

record transport =
  tr_state :: media_state
  tr_listeners :: "string \<Rightarrow> listener list"
  tr_history :: "string list"
  tr_room :: "string option"
  tr_partner :: "string option"
  tr_audio_muted :: bool
  tr_video_muted :: bool

definition new_fake :: transport where
  "new_fake = \<lparr>tr_state = MS_Idle, tr_listeners = (\<lambda>_. []), tr_history = [], tr_room = None,
     tr_partner = None, tr_audio_muted = True, tr_video_muted = True\<rparr>"

definition transport_on :: "string \<Rightarrow> listener \<Rightarrow> 'a transport_scheme \<Rightarrow> 'a transport_scheme" where
  "transport_on key cb t = t\<lparr>tr_listeners := (tr_listeners t)(key := tr_listeners t key @ [cb])\<rparr>"

definition transport_off :: "string \<Rightarrow> listener \<Rightarrow> 'a transport_scheme \<Rightarrow> 'a transport_scheme" where
  "transport_off key cb t = t\<lparr>tr_listeners := (tr_listeners t)(key := remove1 cb (tr_listeners t key))\<rparr>"

definition transport_emit :: "string \<Rightarrow> kwargs \<Rightarrow> 'a transport_scheme \<Rightarrow> call list" where
  "transport_emit key kw t = call_all (tr_listeners t key) kw"

definition add_history :: "string \<Rightarrow> 'a transport_scheme \<Rightarrow> 'a transport_scheme" where
  "add_history c t = t\<lparr>tr_history := tr_history t @ [c]\<rparr>"

definition set_muted :: "bool \<Rightarrow> 'a transport_scheme \<Rightarrow> 'a transport_scheme" where
  "set_muted b t = t\<lparr>tr_audio_muted := b, tr_video_muted := b\<rparr>"

definition set_pair :: "string option \<Rightarrow> string option \<Rightarrow> 'a transport_scheme \<Rightarrow> 'a transport_scheme" where
  "set_pair room partner t = t\<lparr>tr_room := room, tr_partner := partner\<rparr>"

definition set_tstate :: "media_state \<Rightarrow> 'a transport_scheme \<Rightarrow> 'a transport_scheme" where
  "set_tstate st t = t\<lparr>tr_state := st\<rparr>"

definition fake_preconnect :: "string \<Rightarrow> string \<Rightarrow> transport \<Rightarrow> transport \<times> call list" where
  "fake_preconnect room partner t =
     (let t1 = set_tstate MS_Preconnecting (add_history ''preconnect'' t);
          t2 = set_muted True (set_pair (Some room) (Some partner) t1)
      in (set_tstate MS_Preconnected t2, []))"

definition fake_open :: "transport \<Rightarrow> transport \<times> call list" where
  "fake_open t =
     (let t1 = set_tstate MS_Open (set_muted False (add_history ''open'' t))
      in (t1, transport_emit (event_value ME_Connected) (room_args (tr_room t1) (tr_partner t1)) t1))"

definition fake_switch_partner :: "string \<Rightarrow> string \<Rightarrow> transport \<Rightarrow> transport \<times> call list" where
  "fake_switch_partner room partner t =
     (let t1 = set_tstate MS_Switching (add_history ''switch_partner'' t);
          t2 = set_tstate MS_Open (set_muted False (set_pair (Some room) (Some partner) t1))
      in (t2, transport_emit (event_value ME_Connected) (room_args (Some room) (Some partner)) t2))"

definition fake_leave :: "transport \<Rightarrow> transport \<times> call list" where
  "fake_leave t =
     (let t1 = set_muted True (add_history ''leave'' t)
      in (set_tstate MS_Closed (set_pair None None t1), []))"

lemmas transport_defs = transport_on_def transport_off_def transport_emit_def add_history_def set_muted_def
  set_pair_def set_tstate_def

section \<open>Shared local media\<close>

record shared_media =
  sm_stream_id :: string
  sm_get_user_media_calls :: nat
  sm_tracks_live :: bool
  sm_acquired :: bool

definition new_media :: "string \<Rightarrow> shared_media" where
  "new_media sid = \<lparr>sm_stream_id = sid, sm_get_user_media_calls = 0, sm_tracks_live = False, sm_acquired = False\<rparr>"

definition track_ids :: "shared_media \<Rightarrow> string list" where
  "track_ids m = [sm_stream_id m @ ''-audio'', sm_stream_id m @ ''-video'']"

definition acquire :: "shared_media \<Rightarrow> shared_media" where
  "acquire m = (if sm_acquired m \<and> sm_tracks_live m then m
     else m\<lparr>sm_get_user_media_calls := sm_get_user_media_calls m + 1, sm_acquired := True, sm_tracks_live := True\<rparr>)"

definition release :: "shared_media \<Rightarrow> shared_media" where
  "release m = m\<lparr>sm_tracks_live := False, sm_acquired := False\<rparr>"

section \<open>The lifecycle adapters\<close>

record adapter = transport +
  ad_kind :: string
  ad_peer_generation :: nat
  ad_peer_connection_id :: "string option"
  ad_abandoned_peer_ids :: "string list"
  ad_attached_track_ids :: "string list"
  ad_local_stream_id :: "string option"

definition adapter_kind_direct :: string where
  "adapter_kind_direct = ''direct''"

definition adapter_kind_relay :: string where
  "adapter_kind_relay = ''relay''"

definition new_adapter :: "string \<Rightarrow> adapter" where
  "new_adapter kind = \<lparr>tr_state = MS_Idle, tr_listeners = (\<lambda>_. []), tr_history = [], tr_room = None,
     tr_partner = None, tr_audio_muted = True, tr_video_muted = True, ad_kind = kind,
     ad_peer_generation = 0, ad_peer_connection_id = None, ad_abandoned_peer_ids = [],
     ad_attached_track_ids = [], ad_local_stream_id = None\<rparr>"

definition abandon_peer :: "adapter \<Rightarrow> adapter" where
  "abandon_peer a = (case ad_peer_connection_id a of None \<Rightarrow> a
     | Some p \<Rightarrow> a\<lparr>ad_abandoned_peer_ids := ad_abandoned_peer_ids a @ [p]\<rparr>)"

definition replace_peer :: "adapter \<Rightarrow> adapter" where
  "replace_peer a = (let b = abandon_peer a; g = ad_peer_generation b + 1
     in b\<lparr>ad_peer_generation := g, ad_peer_connection_id := Some (ad_kind b @ ''-pc-'' @ show_nat g)\<rparr>)"

text \<open>An adapter holds a reference to the shared media, so its operations return both.\<close>

type_synonym adapter_state = "adapter \<times> shared_media"

definition attach_shared_tracks :: "adapter_state \<Rightarrow> adapter_state" where
  "attach_shared_tracks s = (let m = acquire (snd s)
     in ((fst s)\<lparr>ad_local_stream_id := Some (sm_stream_id m), ad_attached_track_ids := track_ids m\<rparr>, m))"

definition abandon :: "adapter \<Rightarrow> adapter" where
  "abandon a = (abandon_peer a)\<lparr>ad_peer_connection_id := None, ad_attached_track_ids := [],
     tr_listeners := (\<lambda>_. []), tr_state := MS_Closed\<rparr>"

definition adapter_preconnect :: "string \<Rightarrow> string \<Rightarrow> adapter_state \<Rightarrow> adapter_state \<times> call list" where
  "adapter_preconnect room partner s =
     (let a1 = set_tstate MS_Preconnecting (add_history ''preconnect'' (fst s));
          a2 = replace_peer (set_muted True (set_pair (Some room) (Some partner) a1));
          s3 = attach_shared_tracks (a2, snd s)
      in ((set_tstate MS_Preconnected (fst s3), snd s3), []))"

definition adapter_open :: "adapter_state \<Rightarrow> adapter_state \<times> call list" where
  "adapter_open s =
     (let a1 = set_tstate MS_Open (set_muted False (add_history ''open'' (fst s)))
      in ((a1, snd s), transport_emit (event_value ME_Connected) (room_args (tr_room a1) (tr_partner a1)) a1))"

definition adapter_switch_partner :: "string \<Rightarrow> string \<Rightarrow> adapter_state \<Rightarrow> adapter_state \<times> call list" where
  "adapter_switch_partner room partner s =
     (let a1 = set_tstate MS_Switching (add_history ''switch_partner'' (fst s));
          s2 = attach_shared_tracks (replace_peer (set_pair (Some room) (Some partner) a1), snd s);
          a3 = set_tstate MS_Open (set_muted False (fst s2))
      in ((a3, snd s2), transport_emit (event_value ME_Connected) (room_args (Some room) (Some partner)) a3))"

definition adapter_leave :: "adapter_state \<Rightarrow> adapter_state \<times> call list" where
  "adapter_leave s =
     (let a1 = set_pair None None (set_muted True (add_history ''leave'' (fst s)))
      in ((abandon a1, snd s), []))"

definition adapter_on :: "string \<Rightarrow> listener \<Rightarrow> adapter_state \<Rightarrow> adapter_state" where
  "adapter_on key cb s = (transport_on key cb (fst s), snd s)"

definition adapter_off :: "string \<Rightarrow> listener \<Rightarrow> adapter_state \<Rightarrow> adapter_state" where
  "adapter_off key cb s = (transport_off key cb (fst s), snd s)"

lemma abandon_peer_simps [simp]:
  "tr_state (abandon_peer a) = tr_state a" "tr_listeners (abandon_peer a) = tr_listeners a"
  "tr_history (abandon_peer a) = tr_history a" "tr_room (abandon_peer a) = tr_room a"
  "tr_partner (abandon_peer a) = tr_partner a" "tr_audio_muted (abandon_peer a) = tr_audio_muted a"
  "tr_video_muted (abandon_peer a) = tr_video_muted a" "ad_kind (abandon_peer a) = ad_kind a"
  "ad_peer_connection_id (abandon_peer a) = ad_peer_connection_id a"
  "ad_peer_generation (abandon_peer a) = ad_peer_generation a"
  "ad_attached_track_ids (abandon_peer a) = ad_attached_track_ids a"
  by (simp_all add: abandon_peer_def split: option.split)

lemmas adapter_defs = transport_defs replace_peer_def attach_shared_tracks_def abandon_def adapter_preconnect_def
  adapter_open_def adapter_switch_partner_def adapter_leave_def adapter_on_def adapter_off_def Let_def

section \<open>The session of a client\<close>

text \<open>
  \<open>RoundMediaSession\<close>. Its transport is a parameter: every operation takes the transport's own
  operation. \<open>_on_stats\<close> requires the keyword \<open>stats\<close>; without it Python raises a
  \<open>TypeError\<close>, which is the value \<open>None\<close>.
\<close>

record session =
  ss_is_connected :: bool
  ss_is_degraded :: bool
  ss_last_failure :: "arg option"
  ss_stats_report :: "arg option"

definition reason_arg :: "kwargs \<Rightarrow> arg" where
  "reason_arg kw = (case map_of kw ''reason'' of None \<Rightarrow> AStr '''' | Some r \<Rightarrow> r)"

definition session_handle :: "media_event \<Rightarrow> kwargs \<Rightarrow> session \<Rightarrow> session option" where
  "session_handle e kw ss = (case e of
     ME_Connected \<Rightarrow> Some (ss\<lparr>ss_is_connected := True, ss_is_degraded := False\<rparr>)
   | ME_Degraded \<Rightarrow> Some (ss\<lparr>ss_is_degraded := True\<rparr>)
   | ME_Failed \<Rightarrow> Some (ss\<lparr>ss_is_connected := False, ss_last_failure := Some (reason_arg kw)\<rparr>)
   | ME_Stats \<Rightarrow> (case map_of kw ''stats'' of None \<Rightarrow> None | Some v \<Rightarrow> Some (ss\<lparr>ss_stats_report := Some v\<rparr>)))"

text \<open>The calls a transport makes, executed by the session; other callbacks are not its business.\<close>

fun session_run :: "call list \<Rightarrow> session \<Rightarrow> session option" where
  "session_run [] ss = Some ss"
| "session_run ((Session e, kw) # cs) ss =
     (case session_handle e kw ss of None \<Rightarrow> None | Some ss' \<Rightarrow> session_run cs ss')"
| "session_run ((l, kw) # cs) ss = session_run cs ss"

definition session_init :: "(string \<Rightarrow> listener \<Rightarrow> 's \<Rightarrow> 's) \<Rightarrow> 's \<Rightarrow> session \<times> 's" where
  "session_init on_op t =
     (\<lparr>ss_is_connected = False, ss_is_degraded = False, ss_last_failure = None, ss_stats_report = None\<rparr>,
      fold (\<lambda>e. on_op (event_value e) (Session e)) media_events t)"

text \<open>The four operations: \<open>prepare_next_round\<close>, \<open>start_round\<close>, \<open>advance_to_partner\<close> and
  \<open>terminate_session\<close> call one operation of the transport, which calls back.\<close>

definition session_call :: "('s \<Rightarrow> 's \<times> call list) \<Rightarrow> session \<times> 's \<Rightarrow> (session \<times> 's) option" where
  "session_call transport_op st = (case transport_op (snd st) of (t, cs) \<Rightarrow>
     map_option (\<lambda>ss. (ss, t)) (session_run cs (fst st)))"

definition prepare_next_round :: "(string \<Rightarrow> string \<Rightarrow> 's \<Rightarrow> 's \<times> call list) \<Rightarrow> string \<Rightarrow> string
    \<Rightarrow> session \<times> 's \<Rightarrow> (session \<times> 's) option" where
  "prepare_next_round preconnect_op room partner = session_call (preconnect_op room partner)"

definition start_round :: "('s \<Rightarrow> 's \<times> call list) \<Rightarrow> session \<times> 's \<Rightarrow> (session \<times> 's) option" where
  "start_round open_op = session_call open_op"

definition advance_to_partner :: "(string \<Rightarrow> string \<Rightarrow> 's \<Rightarrow> 's \<times> call list) \<Rightarrow> string \<Rightarrow> string
    \<Rightarrow> session \<times> 's \<Rightarrow> (session \<times> 's) option" where
  "advance_to_partner switch_op room partner = session_call (switch_op room partner)"

definition terminate_session :: "('s \<Rightarrow> 's \<times> call list) \<Rightarrow> session \<times> 's \<Rightarrow> (session \<times> 's) option" where
  "terminate_session leave_op = session_call leave_op"

section \<open>The transport interface\<close>

text \<open>
  What every \<open>MediaTransport\<close> promises its client. \<open>usable\<close> is the provider's invariant; all operations
  but \<open>leave\<close> keep it, so after \<open>leave\<close> the contract promises nothing more.
\<close>

locale media_transport =
  fixes usable :: "'s \<Rightarrow> bool"
    and tstate :: "'s \<Rightarrow> media_state"
    and room :: "'s \<Rightarrow> string option"
    and partner :: "'s \<Rightarrow> string option"
    and muted :: "'s \<Rightarrow> bool"
    and listening :: "'s \<Rightarrow> string \<Rightarrow> listener list"
    and on_op :: "string \<Rightarrow> listener \<Rightarrow> 's \<Rightarrow> 's"
    and preconnect_op :: "string \<Rightarrow> string \<Rightarrow> 's \<Rightarrow> 's \<times> call list"
    and open_op :: "'s \<Rightarrow> 's \<times> call list"
    and switch_op :: "string \<Rightarrow> string \<Rightarrow> 's \<Rightarrow> 's \<times> call list"
    and leave_op :: "'s \<Rightarrow> 's \<times> call list"
  assumes on_law: "usable s \<Longrightarrow> usable (on_op k l s) \<and>
      listening (on_op k l s) = (listening s)(k := listening s k @ [l])"
    and preconnect_law: "usable s \<Longrightarrow> preconnect_op r p s = (t, cs) \<Longrightarrow>
      usable t \<and> tstate t = MS_Preconnected \<and> room t = Some r \<and> partner t = Some p \<and> muted t \<and>
      listening t = listening s \<and> cs = []"
    and open_law: "usable s \<Longrightarrow> open_op s = (t, cs) \<Longrightarrow>
      usable t \<and> tstate t = MS_Open \<and> room t = room s \<and> partner t = partner s \<and> \<not> muted t \<and>
      listening t = listening s \<and>
      cs = call_all (listening s (event_value ME_Connected)) (room_args (room s) (partner s))"
    and switch_law: "usable s \<Longrightarrow> switch_op r p s = (t, cs) \<Longrightarrow>
      usable t \<and> tstate t = MS_Open \<and> room t = Some r \<and> partner t = Some p \<and> \<not> muted t \<and>
      listening t = listening s \<and>
      cs = call_all (listening s (event_value ME_Connected)) (room_args (Some r) (Some p))"
    and leave_law: "usable s \<Longrightarrow> leave_op s = (t, cs) \<Longrightarrow>
      tstate t = MS_Closed \<and> room t = None \<and> partner t = None \<and> muted t \<and> cs = []"
begin

text \<open>The session is attached: its handler for each event listens to that event, once.\<close>

definition attached :: "'s \<Rightarrow> bool" where
  "attached t \<longleftrightarrow> usable t \<and> (\<forall>e. filter (\<lambda>l. \<exists>e'. l = Session e') (listening t (event_value e)) = [Session e])"

lemma session_run_filter:
  "session_run (call_all ls kw) ss = session_run (call_all (filter (\<lambda>l. \<exists>e. l = Session e) ls) kw) ss"
proof (induction ls arbitrary: ss)
  case (Cons l ls)
  then show ?case by (cases l) (auto split: option.split)
qed simp

lemma connected_run:
  assumes "attached s"
  shows "session_run (call_all (listening s (event_value ME_Connected)) kw) ss =
    Some (ss\<lparr>ss_is_connected := True, ss_is_degraded := False\<rparr>)"
  using assms by (subst session_run_filter) (simp add: attached_def session_handle_def)

lemma listening_on: "usable s \<Longrightarrow> listening (on_op k l s) = (listening s)(k := listening s k @ [l])"
  using on_law by blast

lemma usable_on: "usable s \<Longrightarrow> usable (on_op k l s)"
  using on_law by blast

lemma session_init_attached:
  assumes "usable t" and "listening t = (\<lambda>_. [])"
  shows "attached (snd (session_init on_op t))"
  unfolding attached_def
proof (intro conjI allI)
  show "usable (snd (session_init on_op t))"
    by (simp add: session_init_def media_events_def usable_on assms)
  show "filter (\<lambda>l. \<exists>e'. l = Session e') (listening (snd (session_init on_op t)) (event_value e)) = [Session e]"
    for e by (cases e) (simp_all add: session_init_def media_events_def usable_on listening_on assms event_value_def)
qed

lemma prepare_round:
  assumes "attached t"
  obtains t' where "prepare_next_round preconnect_op r p (ss, t) = Some (ss, t')" "attached t'"
    "tstate t' = MS_Preconnected" "room t' = Some r" "partner t' = Some p" "muted t'"
proof -
  obtain t' cs where op: "preconnect_op r p t = (t', cs)" by (cases "preconnect_op r p t")
  have "attached t'" "cs = []" "tstate t' = MS_Preconnected" "room t' = Some r" "partner t' = Some p" "muted t'"
    using preconnect_law[OF _ op] assms by (auto simp: attached_def)
  then show ?thesis by (intro that[of t']) (simp_all add: prepare_next_round_def session_call_def op)
qed

lemma open_round:
  assumes "attached t"
  obtains t' where "start_round open_op (ss, t) = Some (ss\<lparr>ss_is_connected := True, ss_is_degraded := False\<rparr>, t')"
    "attached t'" "tstate t' = MS_Open" "room t' = room t" "partner t' = partner t" "\<not> muted t'"
proof -
  obtain t' cs where op: "open_op t = (t', cs)" by (cases "open_op t")
  have "attached t'" "tstate t' = MS_Open" "room t' = room t" "partner t' = partner t" "\<not> muted t'"
      "cs = call_all (listening t (event_value ME_Connected)) (room_args (room t) (partner t))"
    using open_law[OF _ op] assms by (auto simp: attached_def)
  then show ?thesis
    by (intro that[of t']) (simp_all add: start_round_def session_call_def op connected_run[OF assms])
qed

lemma advance_round:
  assumes "attached t"
  obtains t' where
    "advance_to_partner switch_op r p (ss, t) = Some (ss\<lparr>ss_is_connected := True, ss_is_degraded := False\<rparr>, t')"
    "attached t'" "tstate t' = MS_Open" "room t' = Some r" "partner t' = Some p" "\<not> muted t'"
proof -
  obtain t' cs where op: "switch_op r p t = (t', cs)" by (cases "switch_op r p t")
  have "attached t'" "tstate t' = MS_Open" "room t' = Some r" "partner t' = Some p" "\<not> muted t'"
      "cs = call_all (listening t (event_value ME_Connected)) (room_args (Some r) (Some p))"
    using switch_law[OF _ op] assms by (auto simp: attached_def)
  then show ?thesis
    by (intro that[of t']) (simp_all add: advance_to_partner_def session_call_def op connected_run[OF assms])
qed

lemma leave_session:
  assumes "attached t"
  obtains t' where "terminate_session leave_op (ss, t) = Some (ss, t')"
    "tstate t' = MS_Closed" "room t' = None" "muted t'"
proof -
  obtain t' cs where op: "leave_op t = (t', cs)" by (cases "leave_op t")
  have "cs = []" "tstate t' = MS_Closed" "room t' = None" "muted t'"
    using leave_law[OF _ op] assms by (auto simp: attached_def)
  then show ?thesis by (intro that[of t']) (simp_all add: terminate_session_def session_call_def op)
qed

end

interpretation fake: media_transport "\<lambda>_. True" tr_state tr_room tr_partner "\<lambda>t. tr_audio_muted t \<and> tr_video_muted t"
  tr_listeners transport_on fake_preconnect fake_open fake_switch_partner fake_leave
  by unfold_locales
    (auto simp: transport_defs fake_preconnect_def fake_open_def fake_switch_partner_def fake_leave_def Let_def)

interpretation lifecycle: media_transport "\<lambda>_. True" "\<lambda>s. tr_state (fst s)" "\<lambda>s. tr_room (fst s)"
  "\<lambda>s. tr_partner (fst s)" "\<lambda>s. tr_audio_muted (fst s) \<and> tr_video_muted (fst s)" "\<lambda>s. tr_listeners (fst s)"
  adapter_on adapter_preconnect adapter_open adapter_switch_partner adapter_leave
  by unfold_locales (auto simp: adapter_defs)

end
