(* ===== verification/Failover.thy ===== *)
theory Failover
  imports Media
begin

text \<open>
  \<open>FailoverMediaTransport\<close>: a pair-scoped switch from the direct adapter to a relay adapter, behind
  the same transport interface. The object is a record; the active adapter is the primary unless a
  fallback has been created. Closures are values: the callbacks bound to the active adapter are
  \<open>Forwarder b e\<close> for the b-th binding, the timer's closure is its generation number. Client
  callbacks do not call back into the transport: the calls made to them are the operation's output,
  in order.

  An adapter's own operations emit CONNECTED only, so the forwarders they call are those of
  CONNECTED (\<open>run_connected\<close>); everything else an adapter emits comes from outside and is a step.
  The primary is an argument of the constructor: the default announces CONNECTED from inside \<open>open\<close>
  and \<open>switch_partner\<close>; one whose connection comes up later makes the same state changes and announces
  it by an event of its own (\<open>fo_primary_delayed\<close>).
\<close>

section \<open>State\<close>

record escalation_log =
  el_room_id :: "string option"
  el_partner_id :: "string option"
  el_primary_path :: string
  el_timeout_ms :: int
  el_fallback_configured :: bool
  el_fallback_selected_room_id :: string
  el_fallback_allowed :: bool
  el_using_fallback :: bool
  el_result :: string
  el_reason :: string

record failover =
  fo_media :: shared_media
  fo_selected_room :: string
  fo_primary :: adapter
  fo_fallback :: "adapter option"
  fo_using_fallback :: bool
  fo_switching :: bool
  fo_listeners :: "string \<Rightarrow> listener list"
  fo_bound :: "(string \<times> listener) list"
  fo_bindings :: nat
  fo_activations :: nat
  fo_timeout_ms :: int
  fo_cancel :: "nat option"
  fo_timers :: "nat list"
  fo_generation :: nat
  fo_primary_connected :: bool
  fo_log :: "escalation_log option"
  fo_primary_delayed :: bool

text \<open>
  \<open>fo_timers\<close> holds the generations of all timers ever started: a started timer may fire at any later
  moment, since \<open>cancel\<close> can come too late. \<open>fo_cancel\<close> is the handle of the timer not yet cancelled.
\<close>

definition default_escalation_timeout_ms :: int where
  "default_escalation_timeout_ms = 6000"

text \<open>\<open>setting\<close> is \<open>int(settings.MEDIA_FALLBACK_ESCALATION_TIMEOUT_MS)\<close>, \<open>None\<close> when it is absent or
  the conversion raises.\<close>

definition resolve_escalation_timeout_ms :: "int option \<Rightarrow> int option \<Rightarrow> int" where
  "resolve_escalation_timeout_ms explicit setting = (case explicit of Some n \<Rightarrow> n
     | None \<Rightarrow> (case setting of Some n \<Rightarrow> n | None \<Rightarrow> default_escalation_timeout_ms))"

definition fallback_allowed_for_room :: "string option \<Rightarrow> string \<Rightarrow> bool" where
  "fallback_allowed_for_room room selected = (case room of None \<Rightarrow> False
     | Some r \<Rightarrow> selected \<noteq> [] \<and> r \<noteq> [] \<and> r = selected)"

definition active :: "failover \<Rightarrow> adapter" where
  "active f = (case fo_fallback f of None \<Rightarrow> fo_primary f | Some a \<Rightarrow> a)"

definition set_active :: "adapter \<Rightarrow> failover \<Rightarrow> failover" where
  "set_active a f = (case fo_fallback f of None \<Rightarrow> f\<lparr>fo_primary := a\<rparr> | Some _ \<Rightarrow> f\<lparr>fo_fallback := Some a\<rparr>)"

definition fo_state :: "failover \<Rightarrow> media_state" where
  "fo_state f = tr_state (active f)"

definition fo_kind :: "failover \<Rightarrow> string" where
  "fo_kind f = ad_kind (active f)"

definition fo_room :: "failover \<Rightarrow> string option" where
  "fo_room f = tr_room (active f)"

definition fo_partner :: "failover \<Rightarrow> string option" where
  "fo_partner f = tr_partner (active f)"

definition fo_muted :: "failover \<Rightarrow> bool" where
  "fo_muted f \<longleftrightarrow> tr_audio_muted (active f) \<and> tr_video_muted (active f)"

definition fo_on :: "string \<Rightarrow> listener \<Rightarrow> failover \<Rightarrow> failover" where
  "fo_on key cb f = f\<lparr>fo_listeners := (fo_listeners f)(key := fo_listeners f key @ [cb])\<rparr>"

definition fo_off :: "string \<Rightarrow> listener \<Rightarrow> failover \<Rightarrow> failover" where
  "fo_off key cb f = f\<lparr>fo_listeners := (fo_listeners f)(key := remove1 cb (fo_listeners f key))\<rparr>"

definition fo_emit :: "media_event \<Rightarrow> kwargs \<Rightarrow> failover \<Rightarrow> call list" where
  "fo_emit e kw f = call_all (fo_listeners f (event_value e)) kw"

section \<open>Binding and the timer\<close>

definition bind_active :: "failover \<Rightarrow> failover" where
  "bind_active f =
     (let b = fo_bindings f + 1; hs = map (\<lambda>e. (event_value e, Forwarder b e)) media_events
      in set_active (fold (\<lambda>(k, h). transport_on k h) hs (active f)) f\<lparr>fo_bindings := b, fo_bound := hs\<rparr>)"

definition unbind_active :: "failover \<Rightarrow> failover" where
  "unbind_active f =
     set_active (fold (\<lambda>(k, h). transport_off k h) (fo_bound f) (active f)) f\<lparr>fo_bound := []\<rparr>"

definition close_active_keep_media :: "failover \<Rightarrow> failover" where
  "close_active_keep_media f = (let g = unbind_active f in set_active (abandon (active g)) g)"

definition clear_escalation_timer :: "failover \<Rightarrow> failover" where
  "clear_escalation_timer f = f\<lparr>fo_generation := fo_generation f + 1, fo_cancel := None\<rparr>"

definition arm_escalation_timer :: "failover \<Rightarrow> failover" where
  "arm_escalation_timer f =
     (let g = clear_escalation_timer f in
      if fo_using_fallback g \<or> fo_switching g \<or> fo_primary_connected g then g
      else g\<lparr>fo_cancel := Some (fo_generation g), fo_timers := fo_timers g @ [fo_generation g]\<rparr>)"

definition new_failover :: "bool \<Rightarrow> string \<Rightarrow> string option \<Rightarrow> int option \<Rightarrow> int option \<Rightarrow> failover" where
  "new_failover delayed stream_id selected timeout setting =
     bind_active \<lparr>fo_media = new_media stream_id,
       fo_selected_room = (case selected of None \<Rightarrow> '''' | Some r \<Rightarrow> r),
       fo_primary = new_adapter adapter_kind_direct, fo_fallback = None, fo_using_fallback = False,
       fo_switching = False, fo_listeners = (\<lambda>_. []), fo_bound = [], fo_bindings = 0, fo_activations = 0,
       fo_timeout_ms = resolve_escalation_timeout_ms timeout setting, fo_cancel = None, fo_timers = [],
       fo_generation = 0, fo_primary_connected = False, fo_log = None,
       fo_primary_delayed = delayed\<rparr>"

section \<open>Operations of the active adapter\<close>

definition with_active :: "(adapter_state \<Rightarrow> adapter_state \<times> call list) \<Rightarrow> failover \<Rightarrow> failover \<times> call list" where
  "with_active op f = (case op (active f, fo_media f) of ((a, m), cs) \<Rightarrow>
     ((set_active a f)\<lparr>fo_media := m\<rparr>, if fo_fallback f = None \<and> fo_primary_delayed f then [] else cs))"

definition on_connected :: "kwargs \<Rightarrow> failover \<Rightarrow> failover \<times> call list" where
  "on_connected kw f =
     (let g = clear_escalation_timer (f\<lparr>fo_primary_connected := \<not> fo_using_fallback f\<rparr>)
      in (g, fo_emit ME_Connected kw g))"

fun run_connected :: "call list \<Rightarrow> failover \<Rightarrow> failover \<times> call list" where
  "run_connected [] f = (f, [])"
| "run_connected ((Forwarder b ME_Connected, kw) # cs) f =
     (case on_connected kw f of (g, out) \<Rightarrow> (case run_connected cs g of (h, out') \<Rightarrow> (h, out @ out')))"
| "run_connected (c # cs) f = (case run_connected cs f of (h, out') \<Rightarrow> (h, c # out'))"

definition active_call :: "(adapter_state \<Rightarrow> adapter_state \<times> call list) \<Rightarrow> failover \<Rightarrow> failover \<times> call list" where
  "active_call op f = (case with_active op f of (g, cs) \<Rightarrow> run_connected cs g)"

section \<open>Fallback\<close>

text \<open>\<open>reason or "PRIMARY_FAILED"\<close>.\<close>

definition or_primary_failed :: "arg \<Rightarrow> arg" where
  "or_primary_failed r = (if r = ANone \<or> r = AStr '''' then AStr ''PRIMARY_FAILED'' else r)"

definition start_fallback :: "failover \<Rightarrow> failover" where
  "start_fallback f =
     (let g = close_active_keep_media f;
          h = g\<lparr>fo_fallback := Some (new_adapter adapter_kind_relay), fo_using_fallback := True,
                fo_primary_connected := False, fo_activations := fo_activations g + 1\<rparr>
      in bind_active h)"

definition connect_fallback :: "string option \<Rightarrow> string option \<Rightarrow> bool \<Rightarrow> failover \<Rightarrow> failover \<times> call list" where
  "connect_fallback room partner was_open f =
     (case (room, partner) of
        (Some r, Some p) \<Rightarrow>
          if r \<noteq> [] \<and> p \<noteq> []
          then (case active_call (adapter_preconnect r p) f of (g, cs) \<Rightarrow>
             if was_open then (case active_call adapter_open g of (h, cs') \<Rightarrow> (h, cs @ cs')) else (g, cs))
          else (f, [])
      | _ \<Rightarrow> (f, []))"

definition activate_fallback :: "arg \<Rightarrow> failover \<Rightarrow> bool \<times> failover \<times> call list" where
  "activate_fallback reason f =
     (if fo_switching f \<or> fo_using_fallback f then (False, f, [])
      else if \<not> fallback_allowed_for_room (fo_room f) (fo_selected_room f) then (False, f, [])
      else
        let f1 = clear_escalation_timer f;
            was_open = (fo_state f1 = MS_Open);
            f2 = f1\<lparr>fo_switching := True\<rparr>;
            degraded = fo_emit ME_Degraded [(''reason'', or_primary_failed reason)] f2
        in (case connect_fallback (fo_room f) (fo_partner f) was_open (start_fallback f2) of (f3, cs) \<Rightarrow>
              (True, f3\<lparr>fo_switching := False\<rparr>, degraded @ cs)))"

definition force_fallback :: "failover \<Rightarrow> bool \<times> failover \<times> call list" where
  "force_fallback f = activate_fallback (AStr ''TEST_TRIGGER'') f"

definition restore_primary_if_needed :: "string \<Rightarrow> failover \<Rightarrow> failover" where
  "restore_primary_if_needed room f =
     (if \<not> fo_using_fallback f then f
      else if fallback_allowed_for_room (Some room) (fo_selected_room f) then f
      else
        let g = close_active_keep_media (clear_escalation_timer f)
        in bind_active (g\<lparr>fo_fallback := None, fo_using_fallback := False, fo_primary_connected := False\<rparr>))"

text \<open>\<open>_on_active_failed(reason="", **kwargs)\<close>: the reason leads, the other keywords follow.\<close>

definition on_active_failed :: "kwargs \<Rightarrow> failover \<Rightarrow> failover \<times> call list" where
  "on_active_failed kw f = (case activate_fallback (reason_arg kw) f of
     (True, g, cs) \<Rightarrow> (g, cs)
   | (False, g, cs) \<Rightarrow>
       (g, cs @ fo_emit ME_Failed ((''reason'', reason_arg kw) # filter (\<lambda>(k, v). k \<noteq> ''reason'') kw) g))"

section \<open>Events of the active adapter\<close>

text \<open>The closure \<open>handler\<close> of \<open>_make_forwarder(event)\<close>.\<close>

definition forward :: "media_event \<Rightarrow> kwargs \<Rightarrow> failover \<Rightarrow> failover \<times> call list" where
  "forward e kw f = (case e of
     ME_Connected \<Rightarrow> on_connected kw f
   | ME_Failed \<Rightarrow> on_active_failed kw (clear_escalation_timer f)
   | _ \<Rightarrow> (f, fo_emit e kw f))"

fun run_calls :: "call list \<Rightarrow> failover \<Rightarrow> failover \<times> call list" where
  "run_calls [] f = (f, [])"
| "run_calls ((Forwarder b e, kw) # cs) f =
     (case forward e kw f of (g, out) \<Rightarrow> (case run_calls cs g of (h, out') \<Rightarrow> (h, out @ out')))"
| "run_calls (c # cs) f = (case run_calls cs f of (h, out') \<Rightarrow> (h, c # out'))"

text \<open>An adapter emits an event of its own accord.\<close>

definition active_event :: "media_event \<Rightarrow> kwargs \<Rightarrow> failover \<Rightarrow> failover \<times> call list" where
  "active_event e kw f = run_calls (transport_emit (event_value e) kw (active f)) f"

definition primary_event :: "media_event \<Rightarrow> kwargs \<Rightarrow> failover \<Rightarrow> failover \<times> call list" where
  "primary_event e kw f = run_calls (transport_emit (event_value e) kw (fo_primary f)) f"

section \<open>The escalation timer fires\<close>

definition record_escalation :: "string \<Rightarrow> string \<Rightarrow> failover \<Rightarrow> failover" where
  "record_escalation result reason f = f\<lparr>fo_log := Some \<lparr>el_room_id = fo_room f, el_partner_id = fo_partner f,
     el_primary_path = adapter_kind_direct, el_timeout_ms = fo_timeout_ms f,
     el_fallback_configured = (fo_selected_room f \<noteq> []), el_fallback_selected_room_id = fo_selected_room f,
     el_fallback_allowed = fallback_allowed_for_room (fo_room f) (fo_selected_room f),
     el_using_fallback = fo_using_fallback f, el_result = result, el_reason = reason\<rparr>\<rparr>"

definition reason_is :: "string \<Rightarrow> kwargs" where
  "reason_is r = [(''reason'', AStr r)]"

definition handle_escalation_timeout :: "failover \<Rightarrow> failover \<times> call list" where
  "handle_escalation_timeout f =
     (if \<not> fallback_allowed_for_room (fo_room f) (fo_selected_room f)
      then let g = record_escalation ''skipped'' ''FALLBACK_UNAVAILABLE'' f
        in (g, fo_emit ME_Degraded (reason_is ''ESCALATION_FALLBACK_UNAVAILABLE'') g @
               fo_emit ME_Failed (reason_is ''ESCALATION_FALLBACK_UNAVAILABLE'') g)
      else (case activate_fallback (AStr ''ESCALATION_TIMEOUT'') f of
          (True, g, cs) \<Rightarrow> (record_escalation ''activated'' ''ESCALATION_TIMEOUT'' g, cs)
        | (False, g, cs) \<Rightarrow>
            let h = record_escalation ''failed'' ''FALLBACK_ACTIVATION_FAILED'' g
            in (h, cs @ fo_emit ME_Degraded (reason_is ''ESCALATION_FAILED'') h @
                   fo_emit ME_Failed (reason_is ''ESCALATION_FAILED'') h)))"

definition on_escalation_timeout :: "nat \<Rightarrow> failover \<Rightarrow> failover \<times> call list" where
  "on_escalation_timeout gen f =
     (if gen \<noteq> fo_generation f then (f, [])
      else if fo_using_fallback f \<or> fo_switching f \<or> fo_primary_connected f then (f, [])
      else handle_escalation_timeout f)"

section \<open>The operations of the interface\<close>

definition fo_preconnect :: "string \<Rightarrow> string \<Rightarrow> failover \<Rightarrow> failover \<times> call list" where
  "fo_preconnect room partner f =
     (let g = (clear_escalation_timer f)\<lparr>fo_primary_connected := False\<rparr>
      in active_call (adapter_preconnect room partner) (restore_primary_if_needed room g))"

definition fo_open :: "failover \<Rightarrow> failover \<times> call list" where
  "fo_open f = (case active_call adapter_open (f\<lparr>fo_primary_connected := False\<rparr>) of (g, cs) \<Rightarrow>
     (arm_escalation_timer g, cs))"

definition fo_switch_partner :: "string \<Rightarrow> string \<Rightarrow> failover \<Rightarrow> failover \<times> call list" where
  "fo_switch_partner room partner f =
     (let g = (clear_escalation_timer f)\<lparr>fo_primary_connected := False\<rparr>
      in (case active_call (adapter_switch_partner room partner) (restore_primary_if_needed room g) of (h, cs) \<Rightarrow>
            (arm_escalation_timer h, cs)))"

definition fo_leave :: "failover \<Rightarrow> failover \<times> call list" where
  "fo_leave f =
     (case active_call adapter_leave (unbind_active (clear_escalation_timer f)) of (g, cs) \<Rightarrow>
        (g\<lparr>fo_media := release (fo_media g), fo_using_fallback := False, fo_primary_connected := False\<rparr>, cs))"

section \<open>Steps\<close>

text \<open>What can happen to the transport before its client leaves. A started timer may fire at any time.\<close>

inductive fo_step :: "failover \<Rightarrow> call list \<Rightarrow> failover \<Rightarrow> bool" where
  Preconnect: "fo_preconnect r p f = (g, cs) \<Longrightarrow> fo_step f cs g"
| Open: "fo_open f = (g, cs) \<Longrightarrow> fo_step f cs g"
| Switch: "fo_switch_partner r p f = (g, cs) \<Longrightarrow> fo_step f cs g"
| Force: "force_fallback f = (b, g, cs) \<Longrightarrow> fo_step f cs g"
| ActiveEvent: "active_event e kw f = (g, cs) \<Longrightarrow> fo_step f cs g"
| PrimaryEvent: "primary_event e kw f = (g, cs) \<Longrightarrow> fo_step f cs g"
| Timer: "n \<in> set (fo_timers f) \<Longrightarrow> on_escalation_timeout n f = (g, cs) \<Longrightarrow> fo_step f cs g"
| Listen: "fo_step f [] (fo_on k l f)"
| Unlisten: "fo_step f [] (fo_off k l f)"

inductive fo_reach :: "failover \<Rightarrow> bool" where
  Init: "fo_reach (new_failover delayed stream_id selected timeout setting)"
| Step: "fo_reach f \<Longrightarrow> fo_step f cs g \<Longrightarrow> fo_reach g"

inductive_cases fo_stepE: "fo_step f cs g"

end
