(* ===== verification/Failover_Safety.thy ===== *)
theory Failover_Safety
  imports Failover
begin

text \<open>
  The invariant of \<open>FailoverMediaTransport\<close> on every state reachable before \<open>leave\<close>, by induction over
  the steps, and what follows from it: where the relay may be used, when a timer may act, how often
  the camera is opened, that the transport keeps the contract of the interface, and what happens
  when it is used again after \<open>leave\<close>.
\<close>

section \<open>Frame rules\<close>

definition forwarders :: "nat \<Rightarrow> string \<Rightarrow> listener list" where
  "forwarders b k = map (Forwarder b) (filter (\<lambda>e. event_value e = k) media_events)"

lemma active_set_active [simp]: "active (set_active a f) = a"
  by (simp add: active_def set_active_def split: option.split)

lemma active_primary: "fo_fallback f = None \<Longrightarrow> active f = fo_primary f"
  and active_other: "fo_fallback f = Some a \<Longrightarrow> active f = a"
  by (simp_all add: active_def)

lemma set_active_frame [simp]:
  "fo_media (set_active a f) = fo_media f" "fo_selected_room (set_active a f) = fo_selected_room f"
  "fo_using_fallback (set_active a f) = fo_using_fallback f" "fo_switching (set_active a f) = fo_switching f"
  "fo_listeners (set_active a f) = fo_listeners f" "fo_bound (set_active a f) = fo_bound f"
  "fo_bindings (set_active a f) = fo_bindings f" "fo_activations (set_active a f) = fo_activations f"
  "fo_timeout_ms (set_active a f) = fo_timeout_ms f" "fo_cancel (set_active a f) = fo_cancel f"
  "fo_timers (set_active a f) = fo_timers f" "fo_generation (set_active a f) = fo_generation f"
  "fo_primary_connected (set_active a f) = fo_primary_connected f" "fo_log (set_active a f) = fo_log f"
  "fo_primary_delayed (set_active a f) = fo_primary_delayed f"
  "fo_fallback (set_active a f) = (if fo_fallback f = None then None else Some a)"
  "fo_primary (set_active a f) = (if fo_fallback f = None then a else fo_primary f)"
  by (auto simp: set_active_def split: option.splits)

lemma active_frame [simp]:
  "active (f\<lparr>fo_media := m\<rparr>) = active f" "active (f\<lparr>fo_using_fallback := b\<rparr>) = active f"
  "active (f\<lparr>fo_switching := b\<rparr>) = active f" "active (f\<lparr>fo_listeners := ls\<rparr>) = active f"
  "active (f\<lparr>fo_bound := hs\<rparr>) = active f" "active (f\<lparr>fo_bindings := n\<rparr>) = active f"
  "active (f\<lparr>fo_activations := n\<rparr>) = active f" "active (f\<lparr>fo_cancel := c\<rparr>) = active f"
  "active (f\<lparr>fo_timers := ts\<rparr>) = active f" "active (f\<lparr>fo_generation := n\<rparr>) = active f"
  "active (f\<lparr>fo_primary_connected := b\<rparr>) = active f" "active (f\<lparr>fo_log := lg\<rparr>) = active f"
  by (simp_all add: active_def split: option.split)

lemma active_fallback [simp]:
  "active (f\<lparr>fo_fallback := Some a\<rparr>) = a" "active (f\<lparr>fo_fallback := None\<rparr>) = fo_primary f"
  by (simp_all add: active_def)

lemma transport_on_frame [simp]:
  "ad_kind (transport_on k l a) = ad_kind a" "tr_room (transport_on k l a) = tr_room a"
  "tr_partner (transport_on k l a) = tr_partner a" "tr_state (transport_on k l a) = tr_state a"
  "ad_kind (transport_off k l a) = ad_kind a" "tr_room (transport_off k l a) = tr_room a"
  "tr_partner (transport_off k l a) = tr_partner a" "tr_state (transport_off k l a) = tr_state a"
  by (simp_all add: transport_defs)

section \<open>The invariant\<close>

definition pair_ok :: "failover \<Rightarrow> bool" where
  "pair_ok f \<longleftrightarrow> (fo_using_fallback f \<longleftrightarrow> fo_fallback f \<noteq> None) \<and>
     ad_kind (fo_primary f) = adapter_kind_direct \<and>
     (\<forall>a. fo_fallback f = Some a \<longrightarrow> ad_kind a = adapter_kind_relay) \<and>
     (fo_using_fallback f \<longrightarrow> fo_selected_room f \<noteq> [] \<and> fo_room f \<in> {None, Some (fo_selected_room f)})"

definition bound_ok :: "failover \<Rightarrow> bool" where
  "bound_ok f \<longleftrightarrow>
     fo_bound f = map (\<lambda>e. (event_value e, Forwarder (fo_bindings f) e)) media_events \<and>
     tr_listeners (active f) = forwarders (fo_bindings f) \<and>
     (fo_fallback f \<noteq> None \<longrightarrow> tr_listeners (fo_primary f) = (\<lambda>_. []))"

definition timer_ok :: "failover \<Rightarrow> bool" where
  "timer_ok f \<longleftrightarrow>
     fo_cancel f \<in> {None, Some (fo_generation f)} \<and>
     (fo_cancel f \<noteq> None \<longrightarrow> \<not> fo_using_fallback f \<and> \<not> fo_primary_connected f) \<and>
     (\<forall>n \<in> set (fo_timers f). n \<le> fo_generation f) \<and>
     (fo_generation f \<in> set (fo_timers f) \<longrightarrow> fo_cancel f = Some (fo_generation f))"

definition media_ok :: "shared_media \<Rightarrow> bool" where
  "media_ok m \<longleftrightarrow> sm_get_user_media_calls m \<le> 1 \<and>
     (sm_get_user_media_calls m = 1 \<longrightarrow> sm_acquired m \<and> sm_tracks_live m)"

definition core_ok :: "failover \<Rightarrow> bool" where
  "core_ok f \<longleftrightarrow> pair_ok f \<and> bound_ok f \<and> timer_ok f \<and> media_ok (fo_media f)"

definition fo_ok :: "failover \<Rightarrow> bool" where
  "fo_ok f \<longleftrightarrow> core_ok f \<and> \<not> fo_switching f"

lemmas ok_defs = core_ok_def pair_ok_def bound_ok_def timer_ok_def fo_room_def

lemma media_ok_acquire [simp]: "media_ok m \<Longrightarrow> media_ok (acquire m)"
  by (auto simp: media_ok_def acquire_def)

section \<open>Binding\<close>

lemma forwarders_bind:
  "fold (\<lambda>(k, h). transport_on k h) (map (\<lambda>e. (event_value e, Forwarder b e)) media_events) a =
     (if tr_listeners a = (\<lambda>_. []) then a\<lparr>tr_listeners := forwarders b\<rparr>
      else fold (\<lambda>(k, h). transport_on k h) (map (\<lambda>e. (event_value e, Forwarder b e)) media_events) a)"
  by (auto simp: transport_on_def media_events_def event_value_def forwarders_def fun_eq_iff
      intro!: adapter.equality)

lemma forwarders_unbind:
  "tr_listeners a = forwarders b \<Longrightarrow>
   fold (\<lambda>(k, h). transport_off k h) (map (\<lambda>e. (event_value e, Forwarder b e)) media_events) a =
     a\<lparr>tr_listeners := (\<lambda>_. [])\<rparr>"
  by (auto simp: transport_off_def media_events_def event_value_def forwarders_def fun_eq_iff
      intro!: adapter.equality)

lemma bind_active_eq:
  "tr_listeners (active f) = (\<lambda>_. []) \<Longrightarrow>
   bind_active f = (set_active ((active f)\<lparr>tr_listeners := forwarders (fo_bindings f + 1)\<rparr>) f)\<lparr>
     fo_bindings := fo_bindings f + 1,
     fo_bound := map (\<lambda>e. (event_value e, Forwarder (fo_bindings f + 1) e)) media_events\<rparr>"
  unfolding bind_active_def Let_def
  by (subst forwarders_bind) (auto simp: set_active_def split: option.split)

lemma unbind_active_eq:
  "bound_ok f \<Longrightarrow> unbind_active f = (set_active ((active f)\<lparr>tr_listeners := (\<lambda>_. [])\<rparr>) f)\<lparr>fo_bound := []\<rparr>"
  by (auto simp: unbind_active_def bound_ok_def forwarders_unbind set_active_def split: option.split)

lemma abandon_unlisten [simp]: "abandon (a\<lparr>tr_listeners := ls\<rparr>) = abandon a"
  by (simp add: abandon_def abandon_peer_def split: option.split)

lemma set_active_twice [simp]:
  "set_active a ((set_active b f)\<lparr>fo_bound := hs\<rparr>) = (set_active a f)\<lparr>fo_bound := hs\<rparr>"
  by (simp add: set_active_def split: option.split)

lemma close_active_eq:
  "bound_ok f \<Longrightarrow> close_active_keep_media f = (set_active (abandon (active f)) f)\<lparr>fo_bound := []\<rparr>"
  by (simp add: close_active_keep_media_def unbind_active_eq Let_def)

lemma abandon_frame [simp]:
  "tr_listeners (abandon a) = (\<lambda>_. [])" "ad_kind (abandon a) = ad_kind a" "tr_room (abandon a) = tr_room a"
  "tr_state (abandon a) = MS_Closed"
  by (simp_all add: abandon_def)

section \<open>Preservation\<close>

text \<open>Each part of the invariant reads few fields; these rules say what it takes to keep it.\<close>

lemma adapter_preconnect_frame:
  assumes "adapter_preconnect r p (a, m) = ((b, n), cs)"
  shows "tr_listeners b = tr_listeners a \<and> ad_kind b = ad_kind a \<and> tr_room b = Some r \<and> tr_partner b = Some p \<and>
    tr_state b = MS_Preconnected \<and> n = acquire m \<and> cs = [] \<and> tr_audio_muted b \<and> tr_video_muted b"
proof -
  have "b = fst (fst (adapter_preconnect r p (a, m)))" "n = snd (fst (adapter_preconnect r p (a, m)))"
    "cs = snd (adapter_preconnect r p (a, m))" by (simp_all add: assms)
  then show ?thesis by (simp add: adapter_defs)
qed

lemma adapter_open_frame:
  assumes "adapter_open (a, m) = ((b, n), cs)"
  shows "tr_listeners b = tr_listeners a \<and> ad_kind b = ad_kind a \<and> tr_room b = tr_room a \<and>
    tr_partner b = tr_partner a \<and> tr_state b = MS_Open \<and> n = m \<and> \<not> tr_audio_muted b \<and> \<not> tr_video_muted b \<and>
    cs = call_all (tr_listeners a ''connected'') (room_args (tr_room a) (tr_partner a))"
proof -
  have "b = fst (fst (adapter_open (a, m)))" "n = snd (fst (adapter_open (a, m)))"
    "cs = snd (adapter_open (a, m))" by (simp_all add: assms)
  then show ?thesis by (simp add: adapter_defs event_value_def)
qed

lemma adapter_switch_frame:
  assumes "adapter_switch_partner r p (a, m) = ((b, n), cs)"
  shows "tr_listeners b = tr_listeners a \<and> ad_kind b = ad_kind a \<and> tr_room b = Some r \<and> tr_partner b = Some p \<and>
    tr_state b = MS_Open \<and> n = acquire m \<and> \<not> tr_audio_muted b \<and> \<not> tr_video_muted b \<and>
    cs = call_all (tr_listeners a ''connected'') (room_args (Some r) (Some p))"
proof -
  have "b = fst (fst (adapter_switch_partner r p (a, m)))" "n = snd (fst (adapter_switch_partner r p (a, m)))"
    "cs = snd (adapter_switch_partner r p (a, m))" by (simp_all add: assms)
  then show ?thesis by (simp add: adapter_defs event_value_def)
qed

lemma bind_active_core:
  assumes "pair_ok f" "timer_ok f" "media_ok (fo_media f)" "tr_listeners (active f) = (\<lambda>_. [])"
    and "fo_fallback f \<noteq> None \<longrightarrow> tr_listeners (fo_primary f) = (\<lambda>_. [])"
  shows "core_ok (bind_active f)"
  unfolding bind_active_eq[OF assms(4)] using assms
  by (cases "fo_fallback f"; cases "fo_using_fallback f"; simp add: ok_defs active_primary active_other)

lemma clear_timer_core: "core_ok f \<Longrightarrow> core_ok (clear_escalation_timer f)"
  by (auto simp: ok_defs clear_escalation_timer_def)

lemma clear_timer_frame [simp]:
  "active (clear_escalation_timer f) = active f" "fo_switching (clear_escalation_timer f) = fo_switching f"
  "fo_using_fallback (clear_escalation_timer f) = fo_using_fallback f" "fo_cancel (clear_escalation_timer f) = None"
  "fo_selected_room (clear_escalation_timer f) = fo_selected_room f" "fo_room (clear_escalation_timer f) = fo_room f"
  "fo_partner (clear_escalation_timer f) = fo_partner f" "fo_listeners (clear_escalation_timer f) = fo_listeners f"
  "fo_state (clear_escalation_timer f) = fo_state f" "fo_fallback (clear_escalation_timer f) = fo_fallback f"
  "fo_primary_connected (clear_escalation_timer f) = fo_primary_connected f"
  "fo_activations (clear_escalation_timer f) = fo_activations f" "fo_media (clear_escalation_timer f) = fo_media f"
  "fo_primary_delayed (clear_escalation_timer f) = fo_primary_delayed f"
  by (simp_all add: clear_escalation_timer_def fo_room_def fo_partner_def fo_state_def)

lemma connected_field_core:
  "core_ok f \<Longrightarrow> fo_cancel f = None \<Longrightarrow> core_ok (f\<lparr>fo_primary_connected := b\<rparr>)"
  by (auto simp: ok_defs)

lemma unconnected_core: "core_ok f \<Longrightarrow> core_ok (f\<lparr>fo_primary_connected := False\<rparr>)"
  by (auto simp: ok_defs)

lemma on_connected_eq:
  "on_connected kw f =
     (clear_escalation_timer (f\<lparr>fo_primary_connected := \<not> fo_using_fallback f\<rparr>), fo_emit ME_Connected kw f)"
  by (simp add: on_connected_def fo_emit_def Let_def)

lemma clear_connected_core: "core_ok f \<Longrightarrow> core_ok (clear_escalation_timer (f\<lparr>fo_primary_connected := b\<rparr>))"
  by (auto simp: ok_defs clear_escalation_timer_def)

lemma core_timer_fields:
  "core_ok (f\<lparr>fo_cancel := c, fo_timers := ts\<rparr>) \<longleftrightarrow>
     pair_ok f \<and> bound_ok f \<and> media_ok (fo_media f) \<and> timer_ok (f\<lparr>fo_cancel := c, fo_timers := ts\<rparr>)"
  by (auto simp: core_ok_def pair_ok_def bound_ok_def fo_room_def)

lemma arm_core: "core_ok f \<Longrightarrow> core_ok (arm_escalation_timer f)"
proof -
  assume "core_ok f"
  then have core: "core_ok (clear_escalation_timer f)" by (rule clear_timer_core)
  then have "timer_ok ((clear_escalation_timer f)\<lparr>fo_cancel := Some n, fo_timers := fo_timers (clear_escalation_timer f) @ [n]\<rparr>)"
    if "n = fo_generation (clear_escalation_timer f)" "\<not> fo_using_fallback f" "\<not> fo_primary_connected f" for n
    using that by (simp add: core_ok_def timer_ok_def)
  then show ?thesis using core by (simp add: arm_escalation_timer_def Let_def core_timer_fields) (simp add: core_ok_def)
qed

lemma core_set_adapter:
  assumes "core_ok f" "tr_listeners a = tr_listeners (active f)" "ad_kind a = ad_kind (active f)" "media_ok m"
    and "fo_using_fallback f \<Longrightarrow> tr_room a \<in> {None, Some (fo_selected_room f)}"
  shows "core_ok ((set_active a f)\<lparr>fo_media := m\<rparr>)"
  using assms
  by (cases "fo_fallback f"; cases "fo_using_fallback f"; simp add: ok_defs active_primary active_other)

lemma forwarders_connected [simp]: "forwarders b ''connected'' = [Forwarder b ME_Connected]"
  by (simp add: forwarders_def media_events_def event_value_def)

lemma core_listeners: "core_ok f \<Longrightarrow> tr_listeners (active f) = forwarders (fo_bindings f)"
  by (simp add: ok_defs)

text \<open>The three operations of the active adapter, in closed form.\<close>

lemma active_preconnect:
  assumes "core_ok f" "fo_using_fallback f \<Longrightarrow> r = fo_selected_room f"
  obtains a where "active_call (adapter_preconnect r p) f = ((set_active a f)\<lparr>fo_media := acquire (fo_media f)\<rparr>, [])"
    "core_ok ((set_active a f)\<lparr>fo_media := acquire (fo_media f)\<rparr>)" "tr_room a = Some r" "tr_partner a = Some p"
    "tr_state a = MS_Preconnected" "tr_audio_muted a" "tr_video_muted a" "ad_kind a = ad_kind (active f)"
proof -
  obtain a m cs where op: "adapter_preconnect r p (active f, fo_media f) = ((a, m), cs)" by (metis prod.exhaust)
  note frame = adapter_preconnect_frame[OF op]
  have "media_ok (fo_media f)" using assms(1) by (simp add: core_ok_def)
  then show ?thesis
    using frame assms by (intro that[of a]) (auto simp: active_call_def with_active_def op intro!: core_set_adapter)
qed

text \<open>Whether the active adapter announces its connection from inside its operations.\<close>

definition announces :: "failover \<Rightarrow> bool" where
  "announces f \<longleftrightarrow> fo_fallback f \<noteq> None \<or> \<not> fo_primary_delayed f"

definition opened :: "failover \<Rightarrow> kwargs \<Rightarrow> failover \<Rightarrow> failover \<times> call list" where
  "opened f kw g = (if announces f
     then (clear_escalation_timer (g\<lparr>fo_primary_connected := \<not> fo_using_fallback f\<rparr>), fo_emit ME_Connected kw f)
     else (g, []))"

lemma opened_core: "core_ok g \<Longrightarrow> core_ok (fst (opened f kw g))"
  by (simp add: opened_def clear_connected_core)

lemma active_open:
  assumes "core_ok f"
  obtains a where "active_call adapter_open f = opened f (room_args (fo_room f) (fo_partner f)) (set_active a f)"
    "core_ok (set_active a f)" "tr_room a = fo_room f" "tr_partner a = fo_partner f"
    "tr_state a = MS_Open" "\<not> tr_audio_muted a" "\<not> tr_video_muted a" "ad_kind a = ad_kind (active f)"
proof -
  obtain a m cs where op: "adapter_open (active f, fo_media f) = ((a, m), cs)" by (metis prod.exhaust)
  note frame = adapter_open_frame[OF op]
  have "media_ok (fo_media f)" "fo_using_fallback f \<Longrightarrow> fo_room f \<in> {None, Some (fo_selected_room f)}"
    using assms by (auto simp: ok_defs)
  then have core: "core_ok ((set_active a f)\<lparr>fo_media := m\<rparr>)"
    using frame assms by (intro core_set_adapter) (auto simp: fo_room_def)
  have m: "(set_active a f)\<lparr>fo_media := fo_media f\<rparr> = set_active a f"
    by (simp add: set_active_def split: option.split)
  show ?thesis
    using frame core[simplified frame m]
    by (intro that[of a])
      (simp_all add: active_call_def with_active_def op m core_listeners[OF assms] on_connected_eq fo_emit_def
        fo_room_def fo_partner_def opened_def announces_def)
qed

lemma active_switch:
  assumes "core_ok f" "fo_using_fallback f \<Longrightarrow> r = fo_selected_room f"
  obtains a where "active_call (adapter_switch_partner r p) f =
      opened f (room_args (Some r) (Some p)) ((set_active a f)\<lparr>fo_media := acquire (fo_media f)\<rparr>)"
    "core_ok ((set_active a f)\<lparr>fo_media := acquire (fo_media f)\<rparr>)" "tr_room a = Some r" "tr_partner a = Some p"
    "tr_state a = MS_Open" "\<not> tr_audio_muted a" "\<not> tr_video_muted a" "ad_kind a = ad_kind (active f)"
proof -
  obtain a m cs where op: "adapter_switch_partner r p (active f, fo_media f) = ((a, m), cs)" by (metis prod.exhaust)
  note frame = adapter_switch_frame[OF op]
  have "media_ok (fo_media f)" using assms(1) by (simp add: core_ok_def)
  then have core: "core_ok ((set_active a f)\<lparr>fo_media := m\<rparr>)"
    using frame assms by (intro core_set_adapter) auto
  show ?thesis
    using frame core
    by (intro that[of a])
      (simp_all add: active_call_def with_active_def op core_listeners[OF assms(1)] on_connected_eq fo_emit_def
        opened_def announces_def)
qed

section \<open>Switching between the adapters\<close>

lemma start_fallback_facts:
  assumes "core_ok f" "\<not> fo_using_fallback f" "fo_cancel f = None" "fo_selected_room f \<noteq> []"
  shows "core_ok (start_fallback f)" and "fo_using_fallback (start_fallback f)"
    and "fo_selected_room (start_fallback f) = fo_selected_room f"
    and "fo_listeners (start_fallback f) = fo_listeners f" and "fo_kind (start_fallback f) = adapter_kind_relay"
    and "fo_activations (start_fallback f) = fo_activations f + 1" and "fo_media (start_fallback f) = fo_media f"
    and "fo_room (start_fallback f) = None" and "fo_generation (start_fallback f) = fo_generation f"
    and "fo_cancel (start_fallback f) = None" and "\<not> fo_primary_connected (start_fallback f)"
    and "fo_timers (start_fallback f) = fo_timers f"
proof -
  have bound: "bound_ok f" and nofb: "fo_fallback f = None" using assms by (auto simp: core_ok_def pair_ok_def)
  let ?g = "(set_active (abandon (active f)) f)\<lparr>fo_bound := []\<rparr>"
  let ?h = "?g\<lparr>fo_fallback := Some (new_adapter adapter_kind_relay), fo_using_fallback := True,
    fo_primary_connected := False, fo_activations := fo_activations f + 1\<rparr>"
  have sf: "start_fallback f = bind_active ?h"
    by (simp add: start_fallback_def close_active_eq[OF bound] Let_def)
  have blank: "tr_listeners (active ?h) = (\<lambda>_. [])" by (simp add: active_def new_adapter_def)
  show "core_ok (start_fallback f)"
    unfolding sf
  proof (rule bind_active_core[OF _ _ _ blank])
    show "pair_ok ?h" using assms(1,4) nofb
      by (simp add: ok_defs active_other active_primary new_adapter_def adapter_kind_relay_def)
    show "timer_ok ?h" using assms(1,3) by (simp add: ok_defs)
    show "media_ok (fo_media ?h)" using assms(1) by (simp add: core_ok_def)
    show "fo_fallback ?h \<noteq> None \<longrightarrow> tr_listeners (fo_primary ?h) = (\<lambda>_. [])" using nofb by simp
  qed
  show "fo_using_fallback (start_fallback f)" "fo_selected_room (start_fallback f) = fo_selected_room f"
    "fo_listeners (start_fallback f) = fo_listeners f" "fo_kind (start_fallback f) = adapter_kind_relay"
    "fo_activations (start_fallback f) = fo_activations f + 1" "fo_media (start_fallback f) = fo_media f"
    "fo_room (start_fallback f) = None" "fo_generation (start_fallback f) = fo_generation f"
    "fo_cancel (start_fallback f) = None" "\<not> fo_primary_connected (start_fallback f)"
    "fo_timers (start_fallback f) = fo_timers f"
    unfolding sf bind_active_eq[OF blank]
    by (simp_all add: fo_kind_def fo_room_def active_other new_adapter_def assms(3))
qed

text \<open>What a successful activation does, seen from outside.\<close>

definition activated :: "failover \<Rightarrow> arg \<Rightarrow> failover \<Rightarrow> call list \<Rightarrow> bool" where
  "activated f reason g cs \<longleftrightarrow> core_ok g \<and> \<not> fo_switching g \<and> fo_using_fallback g \<and>
     fo_kind g = adapter_kind_relay \<and> fo_activations g = fo_activations f + 1 \<and> fo_cancel g = None \<and>
     fo_selected_room g = fo_selected_room f \<and> fo_listeners g = fo_listeners f \<and>
     (fo_partner f \<notin> {None, Some []} \<longrightarrow>
        fo_room g = fo_room f \<and> fo_partner g = fo_partner f \<and>
        fo_state g = (if fo_state f = MS_Open then MS_Open else MS_Preconnected) \<and>
        cs = fo_emit ME_Degraded [(''reason'', or_primary_failed reason)] f @
          (if fo_state f = MS_Open then fo_emit ME_Connected (room_args (fo_room f) (fo_partner f)) f else []))"

lemma switching_core [simp]: "core_ok (f\<lparr>fo_switching := b\<rparr>) = core_ok f"
  by (simp add: ok_defs)

lemma connect_fallback_blank:
  "p \<in> {None, Some []} \<Longrightarrow> connect_fallback r p op f = (f, [])"
  by (auto simp: connect_fallback_def split: option.split)

lemma connect_fallback_facts:
  assumes core: "core_ok f" and fb: "fo_using_fallback f" "fo_kind f = adapter_kind_relay" "fo_cancel f = None"
    and r: "r = fo_selected_room f" "r \<noteq> []" and p: "p \<noteq> []"
  obtains g where "connect_fallback (Some r) (Some p) op f =
      (g, if op then fo_emit ME_Connected (room_args (Some r) (Some p)) f else [])"
    "core_ok g" "fo_using_fallback g" "fo_kind g = adapter_kind_relay" "fo_cancel g = None"
    "fo_activations g = fo_activations f" "fo_selected_room g = fo_selected_room f"
    "fo_listeners g = fo_listeners f" "fo_room g = Some r" "fo_partner g = Some p"
    "fo_state g = (if op then MS_Open else MS_Preconnected)"
proof -
  obtain a where a: "active_call (adapter_preconnect r p) f = ((set_active a f)\<lparr>fo_media := acquire (fo_media f)\<rparr>, [])"
      "core_ok ((set_active a f)\<lparr>fo_media := acquire (fo_media f)\<rparr>)" "tr_room a = Some r" "tr_partner a = Some p"
      "tr_state a = MS_Preconnected" "ad_kind a = ad_kind (active f)"
    using active_preconnect[OF core, of r p] r by metis
  let ?g = "(set_active a f)\<lparr>fo_media := acquire (fo_media f)\<rparr>"
  have announce: "announces ?g" using core fb by (auto simp: announces_def ok_defs)
  obtain b where b: "active_call adapter_open ?g = opened ?g (room_args (fo_room ?g) (fo_partner ?g)) (set_active b ?g)"
      "core_ok (set_active b ?g)" "tr_room b = fo_room ?g" "tr_partner b = fo_partner ?g" "tr_state b = MS_Open"
      "ad_kind b = ad_kind (active ?g)"
    using active_open[OF a(2)] by metis
  note views = fo_room_def fo_partner_def fo_state_def fo_kind_def fo_emit_def
  show ?thesis
  proof (cases op)
    case True
    show ?thesis
      using that[of "clear_escalation_timer ((set_active b ?g)\<lparr>fo_primary_connected := \<not> fo_using_fallback ?g\<rparr>)"]
        a b clear_connected_core[OF b(2)] announce using r p True fb
      by (simp add: connect_fallback_def views opened_def)
  next
    case False
    then show ?thesis using that[of ?g] a using r p fb by (simp add: connect_fallback_def views)
  qed
qed

lemma activate_fallback_cases:
  assumes core: "core_ok f"
  shows "activate_fallback reason f = (False, f, []) \<and>
      (fo_switching f \<or> fo_using_fallback f \<or> \<not> fallback_allowed_for_room (fo_room f) (fo_selected_room f)) \<or>
    (\<exists>g cs. activate_fallback reason f = (True, g, cs) \<and> activated f reason g cs \<and> \<not> fo_switching f \<and>
       \<not> fo_using_fallback f \<and> fallback_allowed_for_room (fo_room f) (fo_selected_room f))"
proof (cases "fo_switching f \<or> fo_using_fallback f \<or> \<not> fallback_allowed_for_room (fo_room f) (fo_selected_room f)")
  case True
  then show ?thesis by (auto simp: activate_fallback_def)
next
  case False
  let ?f2 = "(clear_escalation_timer f)\<lparr>fo_switching := True\<rparr>"
  let ?s = "start_fallback ?f2"
  have room: "fo_room f = Some (fo_selected_room f)" "fo_selected_room f \<noteq> []"
    using False by (auto simp: fallback_allowed_for_room_def split: option.splits)
  have c2: "core_ok ?f2" using clear_timer_core[OF core] by simp
  have s: "core_ok ?s" "fo_using_fallback ?s" "fo_selected_room ?s = fo_selected_room f"
      "fo_listeners ?s = fo_listeners f" "fo_kind ?s = adapter_kind_relay"
      "fo_activations ?s = fo_activations f + 1" "fo_cancel ?s = None"
    using start_fallback_facts[OF c2] False room by simp_all
  have step: "activate_fallback reason f = (case connect_fallback (fo_room f) (fo_partner f) (fo_state f = MS_Open) ?s of
      (f3, cs) \<Rightarrow> (True, f3\<lparr>fo_switching := False\<rparr>, fo_emit ME_Degraded [(''reason'', or_primary_failed reason)] f @ cs))"
    using False by (simp add: activate_fallback_def Let_def fo_emit_def)
  note views = fo_room_def fo_partner_def fo_state_def fo_kind_def fo_emit_def
  show ?thesis
  proof (cases "fo_partner f \<in> {None, Some []}")
    case True
    then show ?thesis
      using False s by (auto simp: step connect_fallback_blank activated_def views)
  next
    case partner: False
    then obtain p where p: "fo_partner f = Some p" "p \<noteq> []" by auto
    obtain g where g: "connect_fallback (Some (fo_selected_room f)) (Some p) (fo_state f = MS_Open) ?s =
        (g, if fo_state f = MS_Open then fo_emit ME_Connected (room_args (Some (fo_selected_room f)) (Some p)) ?s else [])"
      "core_ok g" "fo_using_fallback g" "fo_kind g = adapter_kind_relay" "fo_cancel g = None"
      "fo_activations g = fo_activations f + 1" "fo_selected_room g = fo_selected_room f"
      "fo_listeners g = fo_listeners f" "fo_room g = Some (fo_selected_room f)" "fo_partner g = Some p"
      "fo_state g = (if fo_state f = MS_Open then MS_Open else MS_Preconnected)"
      using connect_fallback_facts[OF s(1,2,5,7), of "fo_selected_room f" p "fo_state f = MS_Open"] s room p by metis
    have "activated f reason (g\<lparr>fo_switching := False\<rparr>) (fo_emit ME_Degraded [(''reason'', or_primary_failed reason)] f @
        (if fo_state f = MS_Open then fo_emit ME_Connected (room_args (Some (fo_selected_room f)) (Some p)) ?s else []))"
      unfolding activated_def using g s room p by (simp add: views)
    then show ?thesis using False g(1) by (simp add: step room p)
  qed
qed

lemma restore_primary_facts:
  assumes core: "core_ok f" and idle: "fo_cancel f = None"
  shows "core_ok (restore_primary_if_needed r f)"
    and "fo_using_fallback (restore_primary_if_needed r f) \<Longrightarrow> r = fo_selected_room (restore_primary_if_needed r f)"
    and "fo_listeners (restore_primary_if_needed r f) = fo_listeners f"
    and "fo_selected_room (restore_primary_if_needed r f) = fo_selected_room f"
    and "fo_switching (restore_primary_if_needed r f) = fo_switching f"
    and "fo_cancel (restore_primary_if_needed r f) = None"
    and "fo_primary_delayed (restore_primary_if_needed r f) = fo_primary_delayed f"
proof -
  let ?c = "clear_escalation_timer f"
  let ?g = "(set_active (abandon (active ?c)) ?c)\<lparr>fo_bound := []\<rparr>"
  let ?h = "?g\<lparr>fo_fallback := None, fo_using_fallback := False, fo_primary_connected := False\<rparr>"
  have c: "core_ok ?c" using clear_timer_core[OF core] .
  have bound: "bound_ok ?c" using c by (simp add: core_ok_def)
  have keep: "restore_primary_if_needed r f = f"
    if "\<not> fo_using_fallback f \<or> fallback_allowed_for_room (Some r) (fo_selected_room f)"
    using that by (auto simp: restore_primary_if_needed_def)
  have go: "restore_primary_if_needed r f = bind_active ?h"
    if "\<not> (\<not> fo_using_fallback f \<or> fallback_allowed_for_room (Some r) (fo_selected_room f))"
    using that by (simp add: restore_primary_if_needed_def close_active_eq[OF bound] Let_def)
  have fb: "fo_fallback f \<noteq> None" if "fo_using_fallback f"
    using core that by (simp add: ok_defs)
  have blank: "tr_listeners (active ?h) = (\<lambda>_. [])" if "fo_using_fallback f"
    using c fb[OF that] by (auto simp: ok_defs)
  have bind: "core_ok (bind_active ?h)" if "fo_using_fallback f"
  proof (rule bind_active_core[OF _ _ _ blank[OF that]])
    show "pair_ok ?h" using c fb[OF that] by (auto simp: ok_defs)
    show "timer_ok ?h" using c by (simp add: ok_defs)
    show "media_ok (fo_media ?h)" using c by (simp add: core_ok_def)
    show "fo_fallback ?h \<noteq> None \<longrightarrow> tr_listeners (fo_primary ?h) = (\<lambda>_. [])" by simp
  qed
  have "core_ok (restore_primary_if_needed r f) \<and>
    (fo_using_fallback (restore_primary_if_needed r f) \<longrightarrow> r = fo_selected_room (restore_primary_if_needed r f)) \<and>
    fo_listeners (restore_primary_if_needed r f) = fo_listeners f \<and>
    fo_selected_room (restore_primary_if_needed r f) = fo_selected_room f \<and>
    fo_switching (restore_primary_if_needed r f) = fo_switching f \<and>
    fo_cancel (restore_primary_if_needed r f) = None \<and>
    fo_primary_delayed (restore_primary_if_needed r f) = fo_primary_delayed f"
  proof (cases "\<not> fo_using_fallback f \<or> fallback_allowed_for_room (Some r) (fo_selected_room f)")
    case True
    then show ?thesis
      unfolding keep[OF True] using core idle by (auto simp: fallback_allowed_for_room_def)
  next
    case False
    then have u: "fo_using_fallback f" by simp
    show ?thesis
      using bind[OF u] unfolding go[OF False] bind_active_eq[OF blank[OF u]] by simp
  qed
  then show "core_ok (restore_primary_if_needed r f)"
    "fo_using_fallback (restore_primary_if_needed r f) \<Longrightarrow> r = fo_selected_room (restore_primary_if_needed r f)"
    "fo_listeners (restore_primary_if_needed r f) = fo_listeners f"
    "fo_selected_room (restore_primary_if_needed r f) = fo_selected_room f"
    "fo_switching (restore_primary_if_needed r f) = fo_switching f"
    "fo_cancel (restore_primary_if_needed r f) = None"
    "fo_primary_delayed (restore_primary_if_needed r f) = fo_primary_delayed f"
    by blast+
qed

section \<open>Every step keeps the invariant\<close>

lemma fo_preconnect_ok:
  assumes "core_ok f" and op: "fo_preconnect r p f = (g, cs)"
  shows "core_ok g \<and> fo_switching g = fo_switching f \<and> fo_state g = MS_Preconnected \<and> fo_room g = Some r \<and>
    fo_partner g = Some p \<and> fo_muted g \<and> fo_listeners g = fo_listeners f \<and>
    fo_primary_delayed g = fo_primary_delayed f \<and> cs = []"
proof -
  let ?c = "(clear_escalation_timer f)\<lparr>fo_primary_connected := False\<rparr>"
  let ?r = "restore_primary_if_needed r ?c"
  have c: "core_ok ?c" using connected_field_core[OF clear_timer_core[OF assms(1)]] by simp
  have idle: "fo_cancel ?c = None" by simp
  obtain a where a: "active_call (adapter_preconnect r p) ?r = ((set_active a ?r)\<lparr>fo_media := acquire (fo_media ?r)\<rparr>, [])"
      "core_ok ((set_active a ?r)\<lparr>fo_media := acquire (fo_media ?r)\<rparr>)" "tr_room a = Some r" "tr_partner a = Some p"
      "tr_state a = MS_Preconnected" "tr_audio_muted a" "tr_video_muted a"
    using active_preconnect[OF restore_primary_facts(1)[OF c idle], of r r p] restore_primary_facts(2)[OF c idle, of r] by metis
  have g: "g = (set_active a ?r)\<lparr>fo_media := acquire (fo_media ?r)\<rparr>" "cs = []"
    using op a(1) by (simp_all add: fo_preconnect_def Let_def)
  show ?thesis
    unfolding g using a restore_primary_facts[OF c idle, of r]
    by (simp add: fo_state_def fo_room_def fo_partner_def fo_muted_def)
qed

lemma arm_frame [simp]:
  "active (arm_escalation_timer f) = active f" "fo_switching (arm_escalation_timer f) = fo_switching f"
  "fo_listeners (arm_escalation_timer f) = fo_listeners f" "fo_primary_delayed (arm_escalation_timer f) = fo_primary_delayed f"
  by (simp_all add: arm_escalation_timer_def Let_def)

lemma opened_frame [simp]:
  "active (fst (opened f kw g)) = active g" "fo_switching (fst (opened f kw g)) = fo_switching g"
  "fo_listeners (fst (opened f kw g)) = fo_listeners g" "fo_primary_delayed (fst (opened f kw g)) = fo_primary_delayed g"
  by (simp_all add: opened_def)

lemma opened_calls: "\<not> fo_primary_delayed f \<Longrightarrow> snd (opened f kw g) = fo_emit ME_Connected kw f"
  by (simp add: opened_def announces_def)

lemma fo_open_ok:
  assumes "core_ok f" and op: "fo_open f = (g, cs)"
  shows "core_ok g \<and> fo_switching g = fo_switching f \<and> fo_state g = MS_Open \<and> fo_room g = fo_room f \<and>
    fo_partner g = fo_partner f \<and> \<not> fo_muted g \<and> fo_listeners g = fo_listeners f \<and>
    fo_primary_delayed g = fo_primary_delayed f \<and>
    (\<not> fo_primary_delayed f \<longrightarrow> cs = fo_emit ME_Connected (room_args (fo_room f) (fo_partner f)) f)"
proof -
  let ?c = "f\<lparr>fo_primary_connected := False\<rparr>"
  have c: "core_ok ?c" using unconnected_core[OF assms(1)] .
  note views = fo_state_def fo_room_def fo_partner_def fo_muted_def fo_emit_def
  obtain a where a: "active_call adapter_open ?c = opened ?c (room_args (fo_room ?c) (fo_partner ?c)) (set_active a ?c)"
      "core_ok (set_active a ?c)" "tr_room a = fo_room ?c" "tr_partner a = fo_partner ?c"
      "tr_state a = MS_Open" "\<not> tr_audio_muted a" "\<not> tr_video_muted a"
    using active_open[OF c] by metis
  let ?o = "opened ?c (room_args (fo_room ?c) (fo_partner ?c)) (set_active a ?c)"
  have "g = arm_escalation_timer (fst ?o)" "cs = snd ?o"
    using op a(1) by (simp_all add: fo_open_def split: prod.splits)
  then show ?thesis
    using arm_core[OF opened_core[OF a(2)]] a(3-) opened_calls[of ?c]
    by (simp add: views)
qed

end
