(* ===== verification/Failover_Props.thy ===== *)
theory Failover_Props
  imports Failover_Safety
begin

text \<open>
  The steps of \<open>FailoverMediaTransport\<close> keep its invariant; it satisfies the transport interface until
  \<open>leave\<close>; and the properties of the switch between direct and relayed media.
\<close>

section \<open>Steps\<close>

lemma fo_switch_ok:
  assumes "core_ok f" and op: "fo_switch_partner r p f = (g, cs)"
  shows "core_ok g \<and> fo_switching g = fo_switching f \<and> fo_state g = MS_Open \<and> fo_room g = Some r \<and>
    fo_partner g = Some p \<and> \<not> fo_muted g \<and> fo_listeners g = fo_listeners f \<and>
    fo_primary_delayed g = fo_primary_delayed f \<and>
    (\<not> fo_primary_delayed f \<longrightarrow> cs = fo_emit ME_Connected (room_args (Some r) (Some p)) f)"
proof -
  let ?c = "(clear_escalation_timer f)\<lparr>fo_primary_connected := False\<rparr>"
  let ?r = "restore_primary_if_needed r ?c"
  have c: "core_ok ?c" using unconnected_core[OF clear_timer_core[OF assms(1)]] .
  have idle: "fo_cancel ?c = None" by simp
  note res = restore_primary_facts[OF c idle, of r]
  obtain a where a: "active_call (adapter_switch_partner r p) ?r =
      opened ?r (room_args (Some r) (Some p)) ((set_active a ?r)\<lparr>fo_media := acquire (fo_media ?r)\<rparr>)"
      "core_ok ((set_active a ?r)\<lparr>fo_media := acquire (fo_media ?r)\<rparr>)" "tr_room a = Some r" "tr_partner a = Some p"
      "tr_state a = MS_Open" "\<not> tr_audio_muted a" "\<not> tr_video_muted a"
    using active_switch[OF res(1), of r p] res(2) by metis
  let ?o = "opened ?r (room_args (Some r) (Some p)) ((set_active a ?r)\<lparr>fo_media := acquire (fo_media ?r)\<rparr>)"
  have "g = arm_escalation_timer (fst ?o)" "cs = snd ?o"
    using op a(1) by (simp_all add: fo_switch_partner_def Let_def split: prod.splits)
  then show ?thesis
    using arm_core[OF opened_core[OF a(2)]] a(3-) res opened_calls[of ?r]
    by (simp add: fo_state_def fo_room_def fo_partner_def fo_muted_def fo_emit_def)
qed

lemma on_active_failed_cases:
  assumes "core_ok f" and "on_active_failed kw f = (g, cs)"
  shows "(activated f (reason_arg kw) g cs \<and> \<not> fo_using_fallback f \<and> \<not> fo_switching f) \<or>
    (g = f \<and> cs = fo_emit ME_Failed ((''reason'', reason_arg kw) # filter (\<lambda>(k, v). k \<noteq> ''reason'') kw) f)"
  using activate_fallback_cases[OF assms(1), of "reason_arg kw"] assms(2)
  by (auto simp: on_active_failed_def)

lemma forward_ok:
  assumes "fo_ok f" and "forward e kw f = (g, cs)"
  shows "fo_ok g"
proof (cases e)
  case ME_Connected
  then show ?thesis using assms clear_connected_core[of f]
    by (auto simp: forward_def on_connected_eq fo_ok_def)
next
  case ME_Failed
  then show ?thesis
    using assms on_active_failed_cases[OF clear_timer_core, of f kw g cs] clear_timer_core[of f]
    by (auto simp: forward_def fo_ok_def activated_def)
qed (use assms in \<open>simp_all add: forward_def\<close>)

lemma forwarders_event: "forwarders b (event_value e) = [Forwarder b e]"
  by (cases e) (simp_all add: forwarders_def media_events_def event_value_def)

lemma active_event_forward: "core_ok f \<Longrightarrow> active_event e kw f = forward e kw f"
  by (simp add: active_event_def transport_emit_def core_listeners forwarders_event split: prod.split)

lemma primary_event_forward:
  "core_ok f \<Longrightarrow> primary_event e kw f = (if fo_using_fallback f then (f, []) else forward e kw f)"
  by (auto simp: primary_event_def transport_emit_def core_ok_def bound_ok_def pair_ok_def forwarders_event
      active_primary split: prod.split)

lemma log_core [simp]: "core_ok (f\<lparr>fo_log := lg\<rparr>) = core_ok f"
  by (simp add: ok_defs)

lemma record_escalation_frame [simp]:
  "core_ok (record_escalation a b f) = core_ok f" "fo_switching (record_escalation a b f) = fo_switching f"
  "fo_primary_delayed (record_escalation a b f) = fo_primary_delayed f"
  "fo_listeners (record_escalation a b f) = fo_listeners f" "active (record_escalation a b f) = active f"
  "fo_using_fallback (record_escalation a b f) = fo_using_fallback f"
  by (simp_all add: record_escalation_def)

lemma timeout_cases:
  assumes "core_ok f" and "on_escalation_timeout n f = (g, cs)"
  shows "(g = f \<and> cs = [] \<and> (n \<noteq> fo_generation f \<or> fo_using_fallback f \<or> fo_switching f \<or> fo_primary_connected f)) \<or>
    (\<exists>h. g = record_escalation ''activated'' ''ESCALATION_TIMEOUT'' h \<and>
       activated f (AStr ''ESCALATION_TIMEOUT'') h cs \<and> fallback_allowed_for_room (fo_room f) (fo_selected_room f)) \<or>
    (g = record_escalation ''skipped'' ''FALLBACK_UNAVAILABLE'' f \<and>
       \<not> fallback_allowed_for_room (fo_room f) (fo_selected_room f) \<and>
       cs = fo_emit ME_Degraded (reason_is ''ESCALATION_FALLBACK_UNAVAILABLE'') f @
            fo_emit ME_Failed (reason_is ''ESCALATION_FALLBACK_UNAVAILABLE'') f)"
  using activate_fallback_cases[OF assms(1), of "AStr ''ESCALATION_TIMEOUT''"] assms(2)
  by (auto simp: on_escalation_timeout_def handle_escalation_timeout_def fo_emit_def Let_def split: if_splits)

lemma timeout_ok: "fo_ok f \<Longrightarrow> on_escalation_timeout n f = (g, cs) \<Longrightarrow> fo_ok g"
  using timeout_cases[of f n g cs] by (auto simp: fo_ok_def activated_def)

lemma force_ok: "fo_ok f \<Longrightarrow> force_fallback f = (b, g, cs) \<Longrightarrow> fo_ok g"
  using activate_fallback_cases[of f "AStr ''TEST_TRIGGER''"] by (auto simp: force_fallback_def fo_ok_def activated_def)

lemma listener_core [simp]: "core_ok (f\<lparr>fo_listeners := ls\<rparr>) = core_ok f"
  by (simp add: ok_defs)

lemma fo_on_ok: "fo_ok (fo_on k l f) = fo_ok f" and fo_off_ok: "fo_ok (fo_off k l f) = fo_ok f"
  by (simp_all add: fo_on_def fo_off_def fo_ok_def)

lemma fo_on_delayed [simp]: "fo_primary_delayed (fo_on k l f) = fo_primary_delayed f"
  by (simp add: fo_on_def)

lemma fo_step_ok: "fo_step f cs g \<Longrightarrow> fo_ok f \<Longrightarrow> fo_ok g"
proof (induction rule: fo_step.induct)
  case (Preconnect r p f g cs)
  then show ?case using fo_preconnect_ok[of f r p g cs] by (simp add: fo_ok_def)
next
  case (Open f g cs)
  then show ?case using fo_open_ok[of f g cs] by (simp add: fo_ok_def)
next
  case (Switch r p f g cs)
  then show ?case using fo_switch_ok[of f r p g cs] by (simp add: fo_ok_def)
next
  case (ActiveEvent e kw f g cs)
  then show ?case using forward_ok[of f e kw g cs] active_event_forward[of f e kw] by (simp add: fo_ok_def)
next
  case (PrimaryEvent e kw f g cs)
  then show ?case
    using forward_ok[of f e kw g cs] primary_event_forward[of f e kw] by (auto simp: fo_ok_def split: if_splits)
qed (auto simp: fo_on_ok fo_off_ok intro: timeout_ok force_ok)

lemma new_failover_ok: "fo_ok (new_failover del sid sel t st)"
proof -
  let ?i = "\<lparr>fo_media = new_media sid, fo_selected_room = (case sel of None \<Rightarrow> [] | Some r \<Rightarrow> r),
    fo_primary = new_adapter adapter_kind_direct, fo_fallback = None, fo_using_fallback = False,
    fo_switching = False, fo_listeners = (\<lambda>_. []), fo_bound = [], fo_bindings = 0, fo_activations = 0,
    fo_timeout_ms = resolve_escalation_timeout_ms t st, fo_cancel = None, fo_timers = [],
    fo_generation = 0, fo_primary_connected = False, fo_log = None, fo_primary_delayed = del\<rparr>"
  have new: "new_failover del sid sel t st = bind_active ?i" by (simp add: new_failover_def)
  have blank: "tr_listeners (active ?i) = (\<lambda>_. [])" by (simp add: active_def new_adapter_def)
  have "core_ok (bind_active ?i)"
    by (rule bind_active_core[OF _ _ _ blank]) (simp_all add: pair_ok_def timer_ok_def media_ok_def new_adapter_def new_media_def)
  then show ?thesis
    unfolding fo_ok_def new by (simp add: bind_active_eq[OF blank])
qed

lemma fo_reach_ok: "fo_reach f \<Longrightarrow> fo_ok f"
  by (induction rule: fo_reach.induct) (auto intro: new_failover_ok fo_step_ok)

section \<open>The transport interface\<close>

lemma leave_frame:
  assumes "fo_leave f = (g, cs)"
  shows "fo_state g = MS_Closed \<and> fo_room g = None \<and> fo_partner g = None \<and> fo_muted g \<and> cs = []"
proof -
  let ?u = "unbind_active (clear_escalation_timer f)"
  obtain a m cs0 where op: "adapter_leave (active ?u, fo_media ?u) = ((a, m), cs0)" by (metis prod.exhaust)
  have a: "a = fst (fst (adapter_leave (active ?u, fo_media ?u)))" "cs0 = snd (adapter_leave (active ?u, fo_media ?u))"
    by (simp_all add: op)
  have "tr_state a = MS_Closed" "tr_room a = None" "tr_partner a = None" "tr_audio_muted a" "tr_video_muted a" "cs0 = []"
    unfolding a by (simp_all add: adapter_defs)
  then show ?thesis
    using assms by (auto simp: fo_leave_def active_call_def with_active_def op fo_state_def fo_room_def fo_partner_def fo_muted_def)
qed

text \<open>With a primary that announces its connection itself, as the default one does.\<close>

definition prompt :: "failover \<Rightarrow> bool" where
  "prompt f \<longleftrightarrow> fo_ok f \<and> \<not> fo_primary_delayed f"

interpretation failover: media_transport prompt fo_state fo_room fo_partner fo_muted fo_listeners fo_on
  fo_preconnect fo_open fo_switch_partner fo_leave
proof unfold_locales
  show "prompt (fo_on k l s) \<and> fo_listeners (fo_on k l s) = (fo_listeners s)(k := fo_listeners s k @ [l])"
    if "prompt s" for s k l using that by (simp add: prompt_def fo_on_ok) (simp add: fo_on_def)
next
  fix s r p t cs assume "prompt s" "fo_preconnect r p s = (t, cs)"
  then show "prompt t \<and> fo_state t = MS_Preconnected \<and> fo_room t = Some r \<and> fo_partner t = Some p \<and> fo_muted t \<and>
      fo_listeners t = fo_listeners s \<and> cs = []"
    using fo_preconnect_ok[of s r p t cs] by (simp add: prompt_def fo_ok_def)
next
  fix s t cs assume "prompt s" "fo_open s = (t, cs)"
  then show "prompt t \<and> fo_state t = MS_Open \<and> fo_room t = fo_room s \<and> fo_partner t = fo_partner s \<and> \<not> fo_muted t \<and>
      fo_listeners t = fo_listeners s \<and>
      cs = call_all (fo_listeners s (event_value ME_Connected)) (room_args (fo_room s) (fo_partner s))"
    using fo_open_ok[of s t cs] by (simp add: prompt_def fo_ok_def fo_emit_def)
next
  fix s r p t cs assume "prompt s" "fo_switch_partner r p s = (t, cs)"
  then show "prompt t \<and> fo_state t = MS_Open \<and> fo_room t = Some r \<and> fo_partner t = Some p \<and> \<not> fo_muted t \<and>
      fo_listeners t = fo_listeners s \<and>
      cs = call_all (fo_listeners s (event_value ME_Connected)) (room_args (Some r) (Some p))"
    using fo_switch_ok[of s r p t cs] by (simp add: prompt_def fo_ok_def fo_emit_def)
next
  fix s t cs assume "fo_leave s = (t, cs)"
  then show "fo_state t = MS_Closed \<and> fo_room t = None \<and> fo_partner t = None \<and> fo_muted t \<and> cs = []"
    by (rule leave_frame)
qed

section \<open>Properties\<close>


text \<open>A timer that is not the pending one is harmless: in every state reachable before \<open>leave\<close>, when a
  timer started earlier fires although it has been cancelled or superseded, nothing changes and no
  callback is called.\<close>

theorem stale_timer_harmless:
  assumes "fo_reach f" and "n \<in> set (fo_timers f)" and "fo_cancel f \<noteq> Some n"
  shows "on_escalation_timeout n f = (f, [])"
  using fo_reach_ok[OF assms(1)] assms(2,3)
  by (auto simp: fo_ok_def core_ok_def timer_ok_def on_escalation_timeout_def)

text \<open>C21. When the pending timer fires, the call is escalated or its failure reported, never neither and never
  both: if the current room is the selected one and has a partner, the relay takes over the same room and
  partner and is open if the direct path was, and the client hears DEGRADED and, if open, CONNECTED;
  otherwise the direct adapter stays and the client hears DEGRADED and FAILED.\<close>

theorem escalation_outcome:
  assumes "fo_reach f" and pending: "fo_cancel f = Some n" and partner: "fo_partner f \<notin> {None, Some []}"
    and fires: "on_escalation_timeout n f = (g, cs)"
  shows "if fallback_allowed_for_room (fo_room f) (fo_selected_room f)
    then fo_using_fallback g \<and> fo_kind g = adapter_kind_relay \<and> fo_room g = fo_room f \<and> fo_partner g = fo_partner f \<and>
      fo_state g = (if fo_state f = MS_Open then MS_Open else MS_Preconnected) \<and>
      cs = fo_emit ME_Degraded (reason_is ''ESCALATION_TIMEOUT'') f @
        (if fo_state f = MS_Open then fo_emit ME_Connected (room_args (fo_room f) (fo_partner f)) f else [])
    else active g = active f \<and> \<not> fo_using_fallback g \<and>
      cs = fo_emit ME_Degraded (reason_is ''ESCALATION_FALLBACK_UNAVAILABLE'') f @
           fo_emit ME_Failed (reason_is ''ESCALATION_FALLBACK_UNAVAILABLE'') f"
proof -
  have f: "core_ok f" "\<not> fo_switching f" using fo_reach_ok[OF assms(1)] by (simp_all add: fo_ok_def)
  then have n: "n = fo_generation f" "\<not> fo_using_fallback f" "\<not> fo_primary_connected f"
    using pending by (auto simp: core_ok_def timer_ok_def)
  show ?thesis
    using timeout_cases[OF f(1) fires] n f(2) partner
    by (auto simp: activated_def reason_is_def or_primary_failed_def fo_kind_def fo_room_def fo_partner_def fo_state_def)
qed

text \<open>The client of the transport needs no knowledge of the switch: a \<open>RoundMediaSession\<close> over a fresh
  failover transport (with the default primary) that prepares a round, starts it and advances to the next partner is connected and
  not degraded, in the room and with the partner it asked for, unmuted; then terminating closes it.\<close>

theorem session_over_failover:
  "\<exists>st st' t u v. prepare_next_round fo_preconnect r p (session_init fo_on (new_failover False sid sel tmo setting)) = Some (st, t) \<and>
    start_round fo_open (st, t) = Some (st', u) \<and> ss_is_connected st' \<and> \<not> ss_is_degraded st' \<and>
    fo_state u = MS_Open \<and> fo_room u = Some r \<and> fo_partner u = Some p \<and> \<not> fo_muted u \<and>
    advance_to_partner fo_switch_partner r' p' (st', u) = Some (st', v) \<and>
    fo_state v = MS_Open \<and> fo_room v = Some r' \<and> fo_partner v = Some p' \<and> \<not> fo_muted v \<and>
    (\<exists>w. terminate_session fo_leave (st', v) = Some (st', w) \<and> fo_state w = MS_Closed \<and> fo_muted w)"
proof -
  obtain ss t0 where s0: "session_init fo_on (new_failover False sid sel tmo setting) = (ss, t0)" by fastforce
  have "fo_listeners (new_failover False sid sel tmo setting) = (\<lambda>_. [])"
    by (simp add: new_failover_def bind_active_def Let_def)
  moreover have "prompt (new_failover False sid sel tmo setting)"
    using new_failover_ok by (simp add: prompt_def new_failover_def bind_active_def Let_def)
  ultimately have "failover.attached t0"
    using failover.session_init_attached s0 by (metis snd_conv)
  then obtain t where t: "prepare_next_round fo_preconnect r p (ss, t0) = Some (ss, t)" "failover.attached t"
      "fo_room t = Some r" "fo_partner t = Some p" by (rule failover.prepare_round)
  let ?st = "ss\<lparr>ss_is_connected := True, ss_is_degraded := False\<rparr>"
  obtain u where u: "start_round fo_open (ss, t) = Some (?st, u)" "failover.attached u" "fo_state u = MS_Open"
      "fo_room u = fo_room t" "fo_partner u = fo_partner t" "\<not> fo_muted u" using t(2) by (rule failover.open_round)
  obtain v where v: "advance_to_partner fo_switch_partner r' p' (?st, u) = Some (?st, v)" "failover.attached v"
      "fo_state v = MS_Open" "fo_room v = Some r'" "fo_partner v = Some p'" "\<not> fo_muted v"
    using failover.advance_round[OF u(2), of r' p' ?st] by auto
  obtain w where w: "terminate_session fo_leave (?st, v) = Some (?st, w)" "fo_state w = MS_Closed" "fo_muted w"
    using v(2) by (rule failover.leave_session)
  have "ss_is_connected ?st" "\<not> ss_is_degraded ?st" by simp_all
  then show ?thesis unfolding s0 using t u v w by metis
qed

section \<open>Concrete runs\<close>

text \<open>A primary that connects late, in the selected room: prepared, opened, escalated; or connected in time.\<close>

definition run_prepared :: failover where
  "run_prepared = fst (fo_preconnect ''room-1'' ''guest-2'' (new_failover True ''cam'' (Some ''room-1'') None None))"

definition run_opened :: failover where
  "run_opened = fst (fo_open run_prepared)"

definition run_escalated :: failover where
  "run_escalated = fst (on_escalation_timeout 2 run_opened)"

definition run_connected_late :: failover where
  "run_connected_late = fst (active_event ME_Connected [] run_opened)"

lemma run_values:
  "fo_cancel run_opened = Some 2 \<and> fo_timers run_opened = [2] \<and> fo_generation run_opened = 2 \<and>
   fo_partner run_opened = Some ''guest-2'' \<and> fo_room run_opened = Some ''room-1'' \<and>
   fo_selected_room run_opened = ''room-1'' \<and> fo_state run_opened = MS_Open"
  "fo_cancel run_connected_late = None \<and> fo_timers run_connected_late = [2]"
  "fo_using_fallback run_escalated"
  by code_simp+

lemma run_reach: "fo_reach run_opened" "fo_reach run_escalated" "fo_reach run_connected_late"
proof -
  have "fo_reach run_prepared"
    unfolding run_prepared_def by (rule fo_reach.Step[OF fo_reach.Init fo_step.Preconnect]) (rule prod.collapse[symmetric])
  then show o: "fo_reach run_opened"
    unfolding run_opened_def by (rule fo_reach.Step[OF _ fo_step.Open]) (rule prod.collapse[symmetric])
  have "2 \<in> set (fo_timers run_opened)" using run_values(1) by simp
  then show "fo_reach run_escalated"
    unfolding run_escalated_def by (rule fo_reach.Step[OF o fo_step.Timer]) (rule prod.collapse[symmetric])
  show "fo_reach run_connected_late"
    unfolding run_connected_late_def by (rule fo_reach.Step[OF o fo_step.ActiveEvent]) (rule prod.collapse[symmetric])
qed


lemma stale_timer_harmless_witness:
  "on_escalation_timeout 2 run_connected_late = (run_connected_late, [])"
  using stale_timer_harmless[OF run_reach(3), of 2] run_values(2) by simp

lemma escalation_outcome_witness:
  "fo_using_fallback (fst (on_escalation_timeout 2 run_opened)) \<and>
   fo_room (fst (on_escalation_timeout 2 run_opened)) = Some ''room-1'' \<and>
   fo_state (fst (on_escalation_timeout 2 run_opened)) = MS_Open"
  using escalation_outcome[OF run_reach(1), of 2 "fst (on_escalation_timeout 2 run_opened)"
      "snd (on_escalation_timeout 2 run_opened)"] run_values(1)
  by (simp add: fallback_allowed_for_room_def)

section \<open>After leave\<close>

lemma active_call_unheard:
  assumes "tr_listeners (active f) = (\<lambda>_. [])" "op = adapter_preconnect r p \<or> op = adapter_open"
  obtains a m where "active_call op f = ((set_active a f)\<lparr>fo_media := m\<rparr>, [])" "tr_listeners a = (\<lambda>_. [])"
    "ad_kind a = ad_kind (active f)" "op = adapter_open \<Longrightarrow> tr_state a = MS_Open"
proof -
  obtain a m cs where op: "op (active f, fo_media f) = ((a, m), cs)" by (metis prod.exhaust)
  have "tr_listeners a = tr_listeners (active f) \<and> ad_kind a = ad_kind (active f) \<and> cs = [] \<and>
      (op = adapter_open \<longrightarrow> tr_state a = MS_Open)"
    using assms op adapter_preconnect_frame[of r p "active f" "fo_media f" a m cs]
      adapter_open_frame[of "active f" "fo_media f" a m cs] by auto
  then show ?thesis
    using assms(1) by (intro that[where a = a and m = m]) (simp_all add: active_call_def with_active_def op)
qed

lemma leave_unheard:
  assumes "fo_ok f" "fo_leave f = (g, cs)"
  shows "tr_listeners (active g) = (\<lambda>_. []) \<and> \<not> fo_using_fallback g \<and> \<not> fo_switching g \<and> fo_kind g = fo_kind f"
proof -
  let ?c = "clear_escalation_timer f"
  have bound: "bound_ok ?c" using clear_timer_core assms(1) by (simp add: fo_ok_def core_ok_def)
  let ?u = "unbind_active ?c"
  have u: "?u = (set_active ((active ?c)\<lparr>tr_listeners := (\<lambda>_. [])\<rparr>) ?c)\<lparr>fo_bound := []\<rparr>"
    by (rule unbind_active_eq[OF bound])
  obtain a m cs0 where op: "adapter_leave (active ?u, fo_media ?u) = ((a, m), cs0)" by (metis prod.exhaust)
  have a: "a = fst (fst (adapter_leave (active ?u, fo_media ?u)))" "cs0 = snd (adapter_leave (active ?u, fo_media ?u))"
    by (simp_all add: op)
  have left: "tr_listeners a = (\<lambda>_. [])" "ad_kind a = ad_kind (active f)" "cs0 = []"
    unfolding a by (simp_all add: adapter_defs u)
  have "g = (set_active a ?u)\<lparr>fo_media := release m, fo_using_fallback := False, fo_primary_connected := False\<rparr>"
    using assms(2) by (simp add: fo_leave_def active_call_def with_active_def op left)
  then show ?thesis
    using left assms(1) by (simp add: u fo_kind_def fo_ok_def)
qed

text \<open>A transport cannot be used again after \<open>leave\<close>: prepared and opened once more, it is OPEN but its client
  hears nothing, since the adapter's callbacks stay detached; the escalation timer is armed although media is
  open; and if the relay was active when leaving, it stays active whatever the new room.\<close>

theorem leave_not_reusable:
  assumes "fo_reach f" "fo_leave f = (a, cs)" "fo_preconnect r p a = (b, cs1)" "fo_open b = (c, cs2)"
  shows "fo_state c = MS_Open \<and> cs1 = [] \<and> cs2 = [] \<and> fo_cancel c \<noteq> None \<and> fo_kind c = fo_kind f"
proof -
  note left = leave_unheard[OF fo_reach_ok[OF assms(1)] assms(2)]
  let ?a = "(clear_escalation_timer a)\<lparr>fo_primary_connected := False\<rparr>"
  have keep: "restore_primary_if_needed r ?a = ?a" using left by (simp add: restore_primary_if_needed_def)
  obtain x m where x: "active_call (adapter_preconnect r p) ?a = ((set_active x ?a)\<lparr>fo_media := m\<rparr>, [])"
      "tr_listeners x = (\<lambda>_. [])" "ad_kind x = ad_kind (active ?a)"
    by (rule active_call_unheard[of ?a "adapter_preconnect r p" r p]) (use left in auto)
  have b: "b = (set_active x ?a)\<lparr>fo_media := m\<rparr>" "cs1 = []"
    using assms(3) by (simp_all add: fo_preconnect_def Let_def keep x(1))
  let ?b = "b\<lparr>fo_primary_connected := False\<rparr>"
  obtain y n where y: "active_call adapter_open ?b = ((set_active y ?b)\<lparr>fo_media := n\<rparr>, [])"
      "ad_kind y = ad_kind (active ?b)" "tr_state y = MS_Open"
    by (rule active_call_unheard[of ?b adapter_open]) (use x(2) b in auto)
  have c: "c = arm_escalation_timer ((set_active y ?b)\<lparr>fo_media := n\<rparr>)" "cs2 = []"
    using assms(4) by (simp_all add: fo_open_def y(1))
  show ?thesis
    using left x(3) y(2,3) b(2) c(2) unfolding c(1) b(1)
    by (simp add: fo_state_def fo_kind_def arm_escalation_timer_def Let_def)
qed

definition run_left :: failover where
  "run_left = fst (fo_leave run_escalated)"

lemma leave_not_reusable_witness:
  "fo_state (fst (fo_open (fst (fo_preconnect ''room-9'' ''guest-3'' run_left)))) = MS_Open \<and>
   fo_cancel (fst (fo_open (fst (fo_preconnect ''room-9'' ''guest-3'' run_left)))) \<noteq> None \<and>
   fo_kind (fst (fo_open (fst (fo_preconnect ''room-9'' ''guest-3'' run_left)))) = fo_kind run_escalated"
  using leave_not_reusable[OF run_reach(2), of run_left "snd (fo_leave run_escalated)" "''room-9''" "''guest-3''"
      "fst (fo_preconnect ''room-9'' ''guest-3'' run_left)" "snd (fo_preconnect ''room-9'' ''guest-3'' run_left)"
      "fst (fo_open (fst (fo_preconnect ''room-9'' ''guest-3'' run_left)))"
      "snd (fo_open (fst (fo_preconnect ''room-9'' ''guest-3'' run_left)))"]
  by (simp add: run_left_def)

end
