(* ===== verification/Protocol.thy ===== *)
theory Protocol
  imports Py_Json
begin

text \<open>
  The wire protocol of \<open>apps/protocol\<close>: message types, codes and errors (\<open>constants.py\<close>,
  \<open>exceptions.py\<close>) and the validators of \<open>validators.py\<close>, one definition per validator, with
  every message text, offending type and detail the code attaches to an error.
\<close>

section \<open>Constants\<close>

definition protocol_version :: int where
  "protocol_version = 1"

definition supported_versions :: "int list" where
  "supported_versions = [1]"

definition default_reconnect_window_seconds :: int where
  "default_reconnect_window_seconds = 5 * 60"

definition default_rate_limit_messages_per_minute :: int where
  "default_rate_limit_messages_per_minute = 60"

datatype message_type =
    ClientHello | ServerHello | ClientClockSync | ServerClockSync | ClientPing | ServerPong
  | ServerPairing | ClientReady | ServerRoundStart | ServerRoundWarning | ServerRoundEnd
  | ServerPartnerState | ClientWebrtcOffer | ServerWebrtcOffer | ClientWebrtcAnswer
  | ServerWebrtcAnswer | ClientWebrtcIce | ServerWebrtcIce | ServerTurnCredentials
  | ServerEventEnd | ServerError

definition type_value :: "message_type \<Rightarrow> string" where
  "type_value t = (case t of
     ClientHello \<Rightarrow> ''client.hello'' | ServerHello \<Rightarrow> ''server.hello''
   | ClientClockSync \<Rightarrow> ''client.clock_sync'' | ServerClockSync \<Rightarrow> ''server.clock_sync''
   | ClientPing \<Rightarrow> ''client.ping'' | ServerPong \<Rightarrow> ''server.pong''
   | ServerPairing \<Rightarrow> ''server.pairing'' | ClientReady \<Rightarrow> ''client.ready''
   | ServerRoundStart \<Rightarrow> ''server.round_start'' | ServerRoundWarning \<Rightarrow> ''server.round_warning''
   | ServerRoundEnd \<Rightarrow> ''server.round_end'' | ServerPartnerState \<Rightarrow> ''server.partner_state''
   | ClientWebrtcOffer \<Rightarrow> ''client.webrtc.offer'' | ServerWebrtcOffer \<Rightarrow> ''server.webrtc.offer''
   | ClientWebrtcAnswer \<Rightarrow> ''client.webrtc.answer'' | ServerWebrtcAnswer \<Rightarrow> ''server.webrtc.answer''
   | ClientWebrtcIce \<Rightarrow> ''client.webrtc.ice_candidate'' | ServerWebrtcIce \<Rightarrow> ''server.webrtc.ice_candidate''
   | ServerTurnCredentials \<Rightarrow> ''server.turn_credentials'' | ServerEventEnd \<Rightarrow> ''server.event_end''
   | ServerError \<Rightarrow> ''server.error'')"

definition client_message_types :: "message_type list" where
  "client_message_types = [ClientHello, ClientClockSync, ClientPing, ClientReady, ClientWebrtcOffer,
     ClientWebrtcAnswer, ClientWebrtcIce]"

definition server_message_types :: "message_type list" where
  "server_message_types = [ServerHello, ServerClockSync, ServerPong, ServerPairing, ServerRoundStart,
     ServerRoundWarning, ServerRoundEnd, ServerPartnerState, ServerWebrtcOffer, ServerWebrtcAnswer,
     ServerWebrtcIce, ServerTurnCredentials, ServerEventEnd, ServerError]"

definition type_of_value :: "string \<Rightarrow> message_type option" where
  "type_of_value s = find (\<lambda>t. type_value t = s) (client_message_types @ server_message_types)"

datatype error_code =
    ErrInvalidJson | ErrInvalidMessage | ErrUnknownType | ErrVersionMismatch | ErrNotAuthenticated
  | ErrAlreadyConnected | ErrInvalidState | ErrWrongRoom | ErrRateLimited | ErrInternal

definition code_value :: "error_code \<Rightarrow> string" where
  "code_value c = (case c of
     ErrInvalidJson \<Rightarrow> ''ERR_INVALID_JSON'' | ErrInvalidMessage \<Rightarrow> ''ERR_INVALID_MESSAGE''
   | ErrUnknownType \<Rightarrow> ''ERR_UNKNOWN_TYPE'' | ErrVersionMismatch \<Rightarrow> ''ERR_VERSION_MISMATCH''
   | ErrNotAuthenticated \<Rightarrow> ''ERR_NOT_AUTHENTICATED'' | ErrAlreadyConnected \<Rightarrow> ''ERR_ALREADY_CONNECTED''
   | ErrInvalidState \<Rightarrow> ''ERR_INVALID_STATE'' | ErrWrongRoom \<Rightarrow> ''ERR_WRONG_ROOM''
   | ErrRateLimited \<Rightarrow> ''ERR_RATE_LIMITED'' | ErrInternal \<Rightarrow> ''ERR_INTERNAL'')"

text \<open>\<open>ERROR_CLOSE_CODES\<close>: the codes that close the connection.\<close>

definition error_close_code :: "error_code \<Rightarrow> int option" where
  "error_close_code c = (case c of
     ErrVersionMismatch \<Rightarrow> Some 4002 | ErrNotAuthenticated \<Rightarrow> Some 4001 | ErrAlreadyConnected \<Rightarrow> Some 4001
   | ErrRateLimited \<Rightarrow> Some 4003 | ErrInternal \<Rightarrow> Some 4004 | _ \<Rightarrow> None)"

definition partner_states :: "string list" where
  "partner_states = [''connected'', ''disconnected'', ''reconnecting'']"

definition event_end_reasons :: "string list" where
  "event_end_reasons = [''completed'', ''cancelled'', ''error'']"

section \<open>Errors\<close>

record protocol_error =
  pe_code :: error_code
  pe_message :: string
  pe_original_type :: "string option"
  pe_detail :: pydict

definition perr :: "error_code \<Rightarrow> string \<Rightarrow> string option \<Rightarrow> pydict \<Rightarrow> protocol_error" where
  "perr c m t d = \<lparr>pe_code = c, pe_message = m, pe_original_type = t, pe_detail = d\<rparr>"

text \<open>\<open>type(value).__name__\<close> and the types the validators ask for.\<close>

fun type_name :: "json \<Rightarrow> string" where
  "type_name JNull = ''NoneType''"
| "type_name (JBool b) = ''bool''"
| "type_name (JInt i) = ''int''"
| "type_name (JFloat f) = ''float''"
| "type_name (JStr s) = ''str''"
| "type_name (JList xs) = ''list''"
| "type_name (JObj d) = ''dict''"

datatype py_type = TStr | TInt | TList | TBool

definition py_type_text :: "py_type \<Rightarrow> string" where
  "py_type_text t = (case t of TStr \<Rightarrow> ''<class 'str'>'' | TInt \<Rightarrow> ''<class 'int'>''
     | TList \<Rightarrow> ''<class 'list'>'' | TBool \<Rightarrow> ''<class 'bool'>'')"

fun isinstance :: "json \<Rightarrow> py_type \<Rightarrow> bool" where
  "isinstance (JStr s) TStr = True"
| "isinstance (JInt i) TInt = True"
| "isinstance (JBool b) TInt = True"
| "isinstance (JBool b) TBool = True"
| "isinstance (JList xs) TList = True"
| "isinstance _ _ = False"

text \<open>\<open>repr(s)\<close> of a string over the code points 0 to 255.\<close>

definition hex2 :: "nat \<Rightarrow> string" where
  "hex2 n = map (\<lambda>d. char_of (if d < 10 then 48 + d else 87 + d)) [n div 16, n mod 16]"

definition repr_char :: "char \<Rightarrow> char \<Rightarrow> string" where
  "repr_char q c = (let n = of_char c :: nat in
     if c = q \<or> n = 92 then [char_of (92 :: nat), c]
     else if n = 10 then [char_of (92 :: nat), CHR ''n'']
     else if n = 13 then [char_of (92 :: nat), CHR ''r'']
     else if n = 9 then [char_of (92 :: nat), CHR ''t'']
     else if (32 \<le> n \<and> n < 127) \<or> (161 \<le> n \<and> n \<noteq> 173) then [c]
     else [char_of (92 :: nat), CHR ''x''] @ hex2 n)"

definition py_repr :: "string \<Rightarrow> string" where
  "py_repr s = (let dq = char_of (34 :: nat); sq = char_of (39 :: nat);
      q = (if sq \<in> set s \<and> dq \<notin> set s then dq else sq)
    in [q] @ concat (map (repr_char q) s) @ [q])"

section \<open>Requirements on single fields\<close>

definition field_detail :: "string \<Rightarrow> pydict" where
  "field_detail f = [(''field'', JStr f)]"

definition got_detail :: "string \<Rightarrow> json \<Rightarrow> pydict" where
  "got_detail f v = [(''field'', JStr f), (''got'', v)]"

definition quoted :: "string \<Rightarrow> string" where
  "quoted s = [char_of (39 :: nat)] @ s @ [char_of (39 :: nat)]"

definition require :: "pydict \<Rightarrow> string \<Rightarrow> py_type \<Rightarrow> message_type \<Rightarrow> protocol_error + json" where
  "require payload f t ot =
     (case dict_get payload f of
        None \<Rightarrow> Inl (perr ErrInvalidMessage (''Missing required field: '' @ quoted f) (Some (type_value ot)) (field_detail f))
      | Some v \<Rightarrow>
          if type_name v = ''bool'' \<and> t = TInt
          then Inl (perr ErrInvalidMessage (''Field '' @ quoted f @ '' must be '' @ py_type_text t @ '' (got bool)'')
                 (Some (type_value ot)) (got_detail f (JStr (type_name v))))
          else if \<not> isinstance v t
          then Inl (perr ErrInvalidMessage (''Field '' @ quoted f @ '' must be '' @ py_type_text t @ '' (got '' @ type_name v @ '')'')
                 (Some (type_value ot)) (got_detail f (JStr (type_name v))))
          else Inr v)"

fun int_of :: "json \<Rightarrow> int" where
  "int_of (JInt i) = i"
| "int_of _ = 0"

fun str_of :: "json \<Rightarrow> string" where
  "str_of (JStr s) = s"
| "str_of _ = []"

fun list_of :: "json \<Rightarrow> json list" where
  "list_of (JList xs) = xs"
| "list_of _ = []"

definition require_str :: "pydict \<Rightarrow> string \<Rightarrow> message_type \<Rightarrow> protocol_error + string" where
  "require_str payload f ot = bindE (require payload f TStr ot) (\<lambda>v. Inr (str_of v))"

definition require_int :: "pydict \<Rightarrow> string \<Rightarrow> message_type \<Rightarrow> protocol_error + int" where
  "require_int payload f ot = bindE (require payload f TInt ot) (\<lambda>v. Inr (int_of v))"

definition require_list :: "pydict \<Rightarrow> string \<Rightarrow> message_type \<Rightarrow> protocol_error + json list" where
  "require_list payload f ot = bindE (require payload f TList ot) (\<lambda>v. Inr (list_of v))"

definition require_positive_int :: "pydict \<Rightarrow> string \<Rightarrow> message_type \<Rightarrow> protocol_error + int" where
  "require_positive_int payload f ot = bindE (require_int payload f ot) (\<lambda>n.
     if n \<le> 0 then Inl (perr ErrInvalidMessage
       (''Field '' @ quoted f @ '' must be a positive integer (got '' @ show_int n @ '')'')
       (Some (type_value ot)) (got_detail f (JInt n)))
     else Inr n)"

definition require_nonneg_int :: "pydict \<Rightarrow> string \<Rightarrow> message_type \<Rightarrow> protocol_error + int" where
  "require_nonneg_int payload f ot = bindE (require_int payload f ot) (\<lambda>n.
     if n < 0 then Inl (perr ErrInvalidMessage
       (''Field '' @ quoted f @ '' must be >= 0 (got '' @ show_int n @ '')'')
       (Some (type_value ot)) (got_detail f (JInt n)))
     else Inr n)"

definition require_nonempty_str :: "pydict \<Rightarrow> string \<Rightarrow> message_type \<Rightarrow> protocol_error + string" where
  "require_nonempty_str payload f ot = bindE (require_str payload f ot) (\<lambda>s.
     if py_strip s = [] then Inl (perr ErrInvalidMessage (''Field '' @ quoted f @ '' must not be blank'')
       (Some (type_value ot)) (field_detail f))
     else Inr s)"

text \<open>Statements that check and discard the value, and the failures without a detail.\<close>

definition drop_value :: "'e + 'a \<Rightarrow> 'e + unit" where
  "drop_value m = bindE m (\<lambda>_. Inr ())"

definition bad_message :: "string \<Rightarrow> message_type \<Rightarrow> protocol_error" where
  "bad_message m ot = perr ErrInvalidMessage m (Some (type_value ot)) []"

definition text_field :: "pydict \<Rightarrow> message_type \<Rightarrow> string \<Rightarrow> protocol_error + unit" where
  "text_field payload ot f = drop_value (require_nonempty_str payload f ot)"

definition pos_field :: "pydict \<Rightarrow> message_type \<Rightarrow> string \<Rightarrow> protocol_error + unit" where
  "pos_field payload ot f = drop_value (require_positive_int payload f ot)"

definition nonneg_field :: "pydict \<Rightarrow> message_type \<Rightarrow> string \<Rightarrow> protocol_error + unit" where
  "nonneg_field payload ot f = drop_value (require_nonneg_int payload f ot)"

text \<open>The check of \<open>round_number\<close> five validators repeat.\<close>

definition round_number_field :: "pydict \<Rightarrow> message_type \<Rightarrow> protocol_error + unit" where
  "round_number_field payload ot = bindE (require_int payload ''round_number'' ot) (\<lambda>n.
     guardE (1 \<le> n \<and> n \<le> 6)
       (perr ErrInvalidMessage (''Field '' @ quoted ''round_number'' @ '' must be between 1 and 6'')
         (Some (type_value ot)) (got_detail ''round_number'' (JInt n))))"

definition optional_field :: "pydict \<Rightarrow> string \<Rightarrow> (json \<Rightarrow> protocol_error + unit) \<Rightarrow> protocol_error + unit" where
  "optional_field payload f check = (case dict_get payload f of None \<Rightarrow> Inr () | Some v \<Rightarrow> check v)"

section \<open>Client messages\<close>

definition validate_client_hello :: "pydict \<Rightarrow> protocol_error + unit" where
  "validate_client_hello payload = pos_field payload ClientHello ''client_ts''"

definition validate_client_clock_sync :: "pydict \<Rightarrow> protocol_error + unit" where
  "validate_client_clock_sync payload = pos_field payload ClientClockSync ''client_ts''"

definition validate_client_ping :: "pydict \<Rightarrow> protocol_error + unit" where
  "validate_client_ping payload = pos_field payload ClientPing ''client_ts''"

definition validate_client_ready :: "pydict \<Rightarrow> protocol_error + unit" where
  "validate_client_ready payload = round_number_field payload ClientReady"

definition validate_client_webrtc_offer :: "pydict \<Rightarrow> protocol_error + unit" where
  "validate_client_webrtc_offer payload =
     checks [text_field payload ClientWebrtcOffer ''room_id'', text_field payload ClientWebrtcOffer ''sdp'']"

definition validate_client_webrtc_answer :: "pydict \<Rightarrow> protocol_error + unit" where
  "validate_client_webrtc_answer payload =
     checks [text_field payload ClientWebrtcAnswer ''room_id'', text_field payload ClientWebrtcAnswer ''sdp'']"

definition validate_client_webrtc_ice :: "pydict \<Rightarrow> protocol_error + unit" where
  "validate_client_webrtc_ice payload =
     checks [text_field payload ClientWebrtcIce ''room_id'', text_field payload ClientWebrtcIce ''candidate'',
             text_field payload ClientWebrtcIce ''sdp_mid'', nonneg_field payload ClientWebrtcIce ''sdp_mline_index'']"

section \<open>Server messages\<close>

definition versions_field :: "pydict \<Rightarrow> protocol_error + unit" where
  "versions_field payload = bindE (require_list payload ''supported_versions'' ServerHello) (\<lambda>vs.
     if vs = [] then Inl (bad_message (''Field '' @ quoted ''supported_versions'' @ '' must not be empty'') ServerHello)
     else checks (map (\<lambda>v. guardE (type_name v = ''int'')
       (bad_message (''Each element of '' @ quoted ''supported_versions'' @ '' must be an integer'') ServerHello)) vs))"

fun capacity_check :: "json \<Rightarrow> protocol_error + unit" where
  "capacity_check (JObj c) = bindE (require_positive_int c ''max_participants'' ServerHello) (\<lambda>n.
     guardE (2 \<le> n) (bad_message (''Field '' @ quoted ''capacity.max_participants'' @ '' must be at least 2'') ServerHello))"
| "capacity_check _ = Inl (bad_message (''Optional field '' @ quoted ''capacity'' @ '' must be an object'') ServerHello)"

definition validate_server_hello :: "pydict \<Rightarrow> protocol_error + unit" where
  "validate_server_hello payload =
     checks [text_field payload ServerHello ''participant_id'', pos_field payload ServerHello ''server_ts'',
             pos_field payload ServerHello ''client_ts_echo'', text_field payload ServerHello ''event_id'',
             versions_field payload, optional_field payload ''capacity'' capacity_check]"

definition validate_server_clock_sync :: "pydict \<Rightarrow> protocol_error + unit" where
  "validate_server_clock_sync payload =
     checks [pos_field payload ServerClockSync ''client_ts_echo'', pos_field payload ServerClockSync ''server_ts'']"

definition validate_server_pong :: "pydict \<Rightarrow> protocol_error + unit" where
  "validate_server_pong payload =
     checks [pos_field payload ServerPong ''client_ts_echo'', pos_field payload ServerPong ''server_ts'']"

fun is_str :: "json \<Rightarrow> bool" where
  "is_str (JStr s) = True"
| "is_str _ = False"

fun is_str_list :: "json \<Rightarrow> bool" where
  "is_str_list (JList xs) = list_all is_str xs"
| "is_str_list _ = False"

fun is_obj :: "json \<Rightarrow> bool" where
  "is_obj (JObj d) = True"
| "is_obj _ = False"

definition validate_server_pairing :: "pydict \<Rightarrow> protocol_error + unit" where
  "validate_server_pairing payload =
     checks [round_number_field payload ServerPairing, text_field payload ServerPairing ''room_id'',
             text_field payload ServerPairing ''partner_id'',
             drop_value (require payload ''is_offerer'' TBool ServerPairing),
             pos_field payload ServerPairing ''round_start_ts'', pos_field payload ServerPairing ''round_end_ts'',
             optional_field payload ''partner_display_name'' (\<lambda>v. guardE (is_str v)
               (bad_message (''Optional field '' @ quoted ''partner_display_name'' @ '' must be a string'') ServerPairing)),
             optional_field payload ''partner_tags'' (\<lambda>v. guardE (is_str_list v)
               (bad_message (''Optional field '' @ quoted ''partner_tags'' @ '' must be a list of strings'') ServerPairing))]"

definition validate_server_round_start :: "pydict \<Rightarrow> protocol_error + unit" where
  "validate_server_round_start payload =
     checks [round_number_field payload ServerRoundStart, text_field payload ServerRoundStart ''room_id'',
             pos_field payload ServerRoundStart ''server_ts'']"

definition validate_server_round_warning :: "pydict \<Rightarrow> protocol_error + unit" where
  "validate_server_round_warning payload =
     checks [round_number_field payload ServerRoundWarning, pos_field payload ServerRoundWarning ''server_ts'',
             nonneg_field payload ServerRoundWarning ''remaining_seconds'',
             pos_field payload ServerRoundWarning ''round_end_ts'']"

definition validate_server_round_end :: "pydict \<Rightarrow> protocol_error + unit" where
  "validate_server_round_end payload =
     checks [round_number_field payload ServerRoundEnd, pos_field payload ServerRoundEnd ''server_ts'']"

text \<open>A text field whose value must be in a list; \<open>sorted(...)\<close> of the list is written out.\<close>

definition one_of_field :: "pydict \<Rightarrow> message_type \<Rightarrow> string \<Rightarrow> string list \<Rightarrow> protocol_error + unit" where
  "one_of_field payload ot f allowed = bindE (require_nonempty_str payload f ot) (\<lambda>s.
     guardE (s \<in> set allowed)
       (perr ErrInvalidMessage
         (''Field '' @ quoted f @ '' must be one of ['' @ concat (map (\<lambda>(i, a). (if i = 0 then [] else '', '') @ py_repr a)
            (enumerate 0 (sort allowed))) @ ''] (got '' @ py_repr s @ '')'')
         (Some (type_value ot)) (got_detail f (JStr s))))"

definition validate_server_partner_state :: "pydict \<Rightarrow> protocol_error + unit" where
  "validate_server_partner_state payload =
     checks [text_field payload ServerPartnerState ''partner_id'',
             one_of_field payload ServerPartnerState ''state'' partner_states,
             pos_field payload ServerPartnerState ''server_ts'']"

definition validate_server_webrtc_offer :: "pydict \<Rightarrow> protocol_error + unit" where
  "validate_server_webrtc_offer payload =
     checks [text_field payload ServerWebrtcOffer ''room_id'',
             text_field payload ServerWebrtcOffer ''from_participant_id'', text_field payload ServerWebrtcOffer ''sdp'']"

definition validate_server_webrtc_answer :: "pydict \<Rightarrow> protocol_error + unit" where
  "validate_server_webrtc_answer payload =
     checks [text_field payload ServerWebrtcAnswer ''room_id'',
             text_field payload ServerWebrtcAnswer ''from_participant_id'', text_field payload ServerWebrtcAnswer ''sdp'']"

definition validate_server_webrtc_ice :: "pydict \<Rightarrow> protocol_error + unit" where
  "validate_server_webrtc_ice payload =
     checks [text_field payload ServerWebrtcIce ''room_id'', text_field payload ServerWebrtcIce ''from_participant_id'',
             text_field payload ServerWebrtcIce ''candidate'', text_field payload ServerWebrtcIce ''sdp_mid'',
             nonneg_field payload ServerWebrtcIce ''sdp_mline_index'']"

fun is_text :: "json \<Rightarrow> bool" where
  "is_text (JStr s) = (py_strip s \<noteq> [])"
| "is_text _ = False"

definition urls_field :: "pydict \<Rightarrow> protocol_error + unit" where
  "urls_field payload = bindE (require_list payload ''urls'' ServerTurnCredentials) (\<lambda>us.
     if us = [] then Inl (bad_message (''Field '' @ quoted ''urls'' @ '' must not be empty'') ServerTurnCredentials)
     else guardE (list_all is_text us)
       (bad_message (''Each element of '' @ quoted ''urls'' @ '' must be a non-empty string'') ServerTurnCredentials))"

definition validate_server_turn_credentials :: "pydict \<Rightarrow> protocol_error + unit" where
  "validate_server_turn_credentials payload =
     checks [urls_field payload, text_field payload ServerTurnCredentials ''username'',
             text_field payload ServerTurnCredentials ''credential'', pos_field payload ServerTurnCredentials ''ttl'']"

definition validate_server_event_end :: "pydict \<Rightarrow> protocol_error + unit" where
  "validate_server_event_end payload =
     checks [one_of_field payload ServerEventEnd ''reason'' event_end_reasons,
             pos_field payload ServerEventEnd ''server_ts'',
             optional_field payload ''message'' (\<lambda>v. guardE (is_str v)
               (bad_message (''Optional field '' @ quoted ''message'' @ '' must be a string'') ServerEventEnd))]"

definition validate_server_error :: "pydict \<Rightarrow> protocol_error + unit" where
  "validate_server_error payload =
     checks [text_field payload ServerError ''code'', text_field payload ServerError ''message'',
             optional_field payload ''original_type'' (\<lambda>v. guardE (is_str v)
               (bad_message (''Optional field '' @ quoted ''original_type'' @ '' must be a string'') ServerError)),
             optional_field payload ''detail'' (\<lambda>v. guardE (is_obj v)
               (bad_message (''Optional field '' @ quoted ''detail'' @ '' must be an object'') ServerError))]"

section \<open>Dispatch and the public functions\<close>

definition payload_validator :: "message_type \<Rightarrow> pydict \<Rightarrow> protocol_error + unit" where
  "payload_validator t = (case t of
     ClientHello \<Rightarrow> validate_client_hello | ClientClockSync \<Rightarrow> validate_client_clock_sync
   | ClientPing \<Rightarrow> validate_client_ping | ClientReady \<Rightarrow> validate_client_ready
   | ClientWebrtcOffer \<Rightarrow> validate_client_webrtc_offer | ClientWebrtcAnswer \<Rightarrow> validate_client_webrtc_answer
   | ClientWebrtcIce \<Rightarrow> validate_client_webrtc_ice | ServerHello \<Rightarrow> validate_server_hello
   | ServerClockSync \<Rightarrow> validate_server_clock_sync | ServerPong \<Rightarrow> validate_server_pong
   | ServerPairing \<Rightarrow> validate_server_pairing | ServerRoundStart \<Rightarrow> validate_server_round_start
   | ServerRoundWarning \<Rightarrow> validate_server_round_warning | ServerRoundEnd \<Rightarrow> validate_server_round_end
   | ServerPartnerState \<Rightarrow> validate_server_partner_state | ServerWebrtcOffer \<Rightarrow> validate_server_webrtc_offer
   | ServerWebrtcAnswer \<Rightarrow> validate_server_webrtc_answer | ServerWebrtcIce \<Rightarrow> validate_server_webrtc_ice
   | ServerTurnCredentials \<Rightarrow> validate_server_turn_credentials | ServerEventEnd \<Rightarrow> validate_server_event_end
   | ServerError \<Rightarrow> validate_server_error)"

text \<open>
  What \<open>json.loads\<close> makes of the received text: a value, or a \<open>JSONDecodeError\<close> with its text.
\<close>

datatype raw_message = NotJson string | Parsed json

definition validate_message :: "raw_message \<Rightarrow> protocol_error + message_type \<times> pydict" where
  "validate_message raw =
     (case raw of
        NotJson exc \<Rightarrow> Inl (perr ErrInvalidJson (''Message is not valid JSON: '' @ exc) None [])
      | Parsed (JObj data) \<Rightarrow>
          (case dict_get data ''version'' of
             None \<Rightarrow> Inl (perr ErrInvalidMessage (''Missing required envelope field: '' @ quoted ''version'') None [])
           | Some (JInt version) \<Rightarrow>
               if version \<notin> set supported_versions
               then Inl (perr ErrVersionMismatch (''Protocol version '' @ show_int version @
                      '' is not supported. Supported versions: [1]'') None
                      [(''received'', JInt version), (''supported'', JList (map JInt supported_versions))])
               else
                 (case dict_get data ''type'' of
                    None \<Rightarrow> Inl (perr ErrInvalidMessage (''Missing required envelope field: '' @ quoted ''type'') None [])
                  | Some (JStr msg_type) \<Rightarrow>
                      (case type_of_value msg_type of
                         None \<Rightarrow> Inl (perr ErrUnknownType (''Unknown message type: '' @ py_repr msg_type) (Some msg_type) [])
                       | Some t \<Rightarrow>
                           (case dict_get data ''payload'' of
                              None \<Rightarrow> Inl (perr ErrInvalidMessage (''Missing required envelope field: '' @ quoted ''payload'')
                                     (Some msg_type) [])
                            | Some (JObj payload) \<Rightarrow> bindE (payload_validator t payload) (\<lambda>_. Inr (t, payload))
                            | Some _ \<Rightarrow> Inl (perr ErrInvalidMessage
                                  (''Envelope field '' @ quoted ''payload'' @ '' must be a JSON object'') (Some msg_type) [])))
                  | Some _ \<Rightarrow> Inl (perr ErrInvalidMessage (''Envelope field '' @ quoted ''type'' @ '' must be a string'') None []))
           | Some _ \<Rightarrow> Inl (perr ErrInvalidMessage (''Envelope field '' @ quoted ''version'' @ '' must be an integer'') None []))
      | Parsed _ \<Rightarrow> Inl (perr ErrInvalidMessage ''Message must be a JSON object'' None []))"

definition validate_payload :: "string \<Rightarrow> pydict \<Rightarrow> protocol_error + unit" where
  "validate_payload msg_type payload =
     (case type_of_value msg_type of
        None \<Rightarrow> Inl (perr ErrUnknownType (''No validator registered for type: '' @ py_repr msg_type) None [])
      | Some t \<Rightarrow> payload_validator t payload)"

end
