(* ===== verification/Protocol_Schema.thy ===== *)
theory Protocol_Schema
  imports Protocol
begin

text \<open>
  The message builders of \<open>apps/protocol/schemas.py\<close>, a declarative table of the payload schemas
  (what \<open>docs/protocol.md\<close> states per message), and the proof that the validators accept
  exactly the payloads the table describes, that builders and validators are inverse, and that
  every rejected message has a well-formed \<open>server.error\<close> reply.
\<close>

section \<open>Builders\<close>

definition build_message :: "string \<Rightarrow> pydict \<Rightarrow> protocol_error + json" where
  "build_message msg_type payload = bindE (validate_payload msg_type payload) (\<lambda>_.
     Inr (JObj [(''type'', JStr msg_type), (''version'', JInt protocol_version), (''payload'', JObj payload)]))"

text \<open>An argument that is added to the payload only when it is not \<open>None\<close>.\<close>

definition opt_field :: "string \<Rightarrow> json option \<Rightarrow> pydict" where
  "opt_field f v = (case v of None \<Rightarrow> [] | Some x \<Rightarrow> [(f, x)])"

definition build_server_hello :: "string \<Rightarrow> int \<Rightarrow> int \<Rightarrow> string \<Rightarrow> int list option \<Rightarrow> int option
    \<Rightarrow> protocol_error + json" where
  "build_server_hello participant_id server_ts client_ts_echo event_id versions max_participants =
     build_message (type_value ServerHello)
       ([(''participant_id'', JStr participant_id), (''server_ts'', JInt server_ts),
         (''client_ts_echo'', JInt client_ts_echo), (''event_id'', JStr event_id),
         (''supported_versions'', JList (map JInt (case versions of None \<Rightarrow> sort supported_versions | Some vs \<Rightarrow> vs)))] @
        opt_field ''capacity'' (map_option (\<lambda>n. JObj [(''max_participants'', JInt n)]) max_participants))"

definition build_server_clock_sync :: "int \<Rightarrow> int \<Rightarrow> protocol_error + json" where
  "build_server_clock_sync client_ts_echo server_ts =
     build_message (type_value ServerClockSync)
       [(''client_ts_echo'', JInt client_ts_echo), (''server_ts'', JInt server_ts)]"

definition build_server_pong :: "int \<Rightarrow> int \<Rightarrow> protocol_error + json" where
  "build_server_pong client_ts_echo server_ts =
     build_message (type_value ServerPong)
       [(''client_ts_echo'', JInt client_ts_echo), (''server_ts'', JInt server_ts)]"

definition build_server_pairing :: "int \<Rightarrow> string \<Rightarrow> string \<Rightarrow> int \<Rightarrow> int \<Rightarrow> bool \<Rightarrow> string option
    \<Rightarrow> string list option \<Rightarrow> protocol_error + json" where
  "build_server_pairing round_number room_id partner_id round_start_ts round_end_ts is_offerer name tags =
     build_message (type_value ServerPairing)
       ([(''round_number'', JInt round_number), (''room_id'', JStr room_id), (''partner_id'', JStr partner_id),
         (''round_start_ts'', JInt round_start_ts), (''round_end_ts'', JInt round_end_ts),
         (''is_offerer'', JBool is_offerer)] @
        opt_field ''partner_display_name'' (map_option JStr name) @
        opt_field ''partner_tags'' (map_option (\<lambda>ts. JList (map JStr ts)) tags))"

definition build_server_round_start :: "int \<Rightarrow> string \<Rightarrow> int \<Rightarrow> protocol_error + json" where
  "build_server_round_start round_number room_id server_ts =
     build_message (type_value ServerRoundStart)
       [(''round_number'', JInt round_number), (''room_id'', JStr room_id), (''server_ts'', JInt server_ts)]"

definition build_server_round_warning :: "int \<Rightarrow> int \<Rightarrow> int \<Rightarrow> int \<Rightarrow> protocol_error + json" where
  "build_server_round_warning round_number server_ts remaining_seconds round_end_ts =
     build_message (type_value ServerRoundWarning)
       [(''round_number'', JInt round_number), (''server_ts'', JInt server_ts),
        (''remaining_seconds'', JInt remaining_seconds), (''round_end_ts'', JInt round_end_ts)]"

definition build_server_round_end :: "int \<Rightarrow> int \<Rightarrow> protocol_error + json" where
  "build_server_round_end round_number server_ts =
     build_message (type_value ServerRoundEnd)
       [(''round_number'', JInt round_number), (''server_ts'', JInt server_ts)]"

definition build_server_partner_state :: "string \<Rightarrow> string \<Rightarrow> int \<Rightarrow> protocol_error + json" where
  "build_server_partner_state partner_id state server_ts =
     build_message (type_value ServerPartnerState)
       [(''partner_id'', JStr partner_id), (''state'', JStr state), (''server_ts'', JInt server_ts)]"

definition build_server_webrtc_offer :: "string \<Rightarrow> string \<Rightarrow> string \<Rightarrow> protocol_error + json" where
  "build_server_webrtc_offer room_id from_participant_id sdp =
     build_message (type_value ServerWebrtcOffer)
       [(''room_id'', JStr room_id), (''from_participant_id'', JStr from_participant_id), (''sdp'', JStr sdp)]"

definition build_server_webrtc_answer :: "string \<Rightarrow> string \<Rightarrow> string \<Rightarrow> protocol_error + json" where
  "build_server_webrtc_answer room_id from_participant_id sdp =
     build_message (type_value ServerWebrtcAnswer)
       [(''room_id'', JStr room_id), (''from_participant_id'', JStr from_participant_id), (''sdp'', JStr sdp)]"

definition build_server_ice_candidate :: "string \<Rightarrow> string \<Rightarrow> string \<Rightarrow> string \<Rightarrow> int \<Rightarrow> protocol_error + json" where
  "build_server_ice_candidate room_id from_participant_id candidate sdp_mid sdp_mline_index =
     build_message (type_value ServerWebrtcIce)
       [(''room_id'', JStr room_id), (''from_participant_id'', JStr from_participant_id),
        (''candidate'', JStr candidate), (''sdp_mid'', JStr sdp_mid), (''sdp_mline_index'', JInt sdp_mline_index)]"

definition build_server_turn_credentials :: "string list \<Rightarrow> string \<Rightarrow> string \<Rightarrow> int \<Rightarrow> protocol_error + json" where
  "build_server_turn_credentials urls username credential ttl =
     build_message (type_value ServerTurnCredentials)
       [(''urls'', JList (map JStr urls)), (''username'', JStr username), (''credential'', JStr credential),
        (''ttl'', JInt ttl)]"

definition build_server_event_end :: "string \<Rightarrow> int \<Rightarrow> string option \<Rightarrow> protocol_error + json" where
  "build_server_event_end reason server_ts message =
     build_message (type_value ServerEventEnd)
       ([(''reason'', JStr reason), (''server_ts'', JInt server_ts)] @ opt_field ''message'' (map_option JStr message))"

definition build_server_error :: "string \<Rightarrow> string \<Rightarrow> string option \<Rightarrow> pydict option \<Rightarrow> protocol_error + json" where
  "build_server_error code message original_type detail =
     build_message (type_value ServerError)
       ([(''code'', JStr code), (''message'', JStr message)] @
        opt_field ''original_type'' (map_option JStr original_type) @ opt_field ''detail'' (map_option JObj detail))"

definition error_from_protocol_error :: "protocol_error \<Rightarrow> protocol_error + json" where
  "error_from_protocol_error exc = build_server_error (code_value (pe_code exc)) (pe_message exc)
     (pe_original_type exc) (if pe_detail exc \<noteq> [] then Some (pe_detail exc) else None)"

definition build_client_webrtc_offer :: "string \<Rightarrow> string \<Rightarrow> protocol_error + json" where
  "build_client_webrtc_offer room_id sdp =
     build_message (type_value ClientWebrtcOffer) [(''room_id'', JStr room_id), (''sdp'', JStr sdp)]"

definition build_client_webrtc_answer :: "string \<Rightarrow> string \<Rightarrow> protocol_error + json" where
  "build_client_webrtc_answer room_id sdp =
     build_message (type_value ClientWebrtcAnswer) [(''room_id'', JStr room_id), (''sdp'', JStr sdp)]"

definition build_client_ice_candidate :: "string \<Rightarrow> string \<Rightarrow> string \<Rightarrow> int \<Rightarrow> protocol_error + json" where
  "build_client_ice_candidate room_id candidate sdp_mid sdp_mline_index =
     build_message (type_value ClientWebrtcIce)
       [(''room_id'', JStr room_id), (''candidate'', JStr candidate), (''sdp_mid'', JStr sdp_mid),
        (''sdp_mline_index'', JInt sdp_mline_index)]"

section \<open>The schema table\<close>

text \<open>What a field may hold. \<open>KRound\<close> is a round number, \<open>KOneOf\<close> a closed set of words.\<close>

datatype field_kind =
    KText | KPos | KNonneg | KBool | KRound | KVersions | KUrls | KOneOf "string list"
  | KString | KStrings | KCapacity | KObject

fun is_version :: "json \<Rightarrow> bool" where
  "is_version (JInt i) = True"
| "is_version _ = False"

fun kind_fits :: "field_kind \<Rightarrow> json \<Rightarrow> bool" where
  "kind_fits KText v = (\<exists>s. v = JStr s \<and> (\<exists>c \<in> set s. \<not> py_isspace c))"
| "kind_fits KPos v = (\<exists>i > 0. v = JInt i)"
| "kind_fits KNonneg v = (\<exists>i \<ge> 0. v = JInt i)"
| "kind_fits KBool v = (\<exists>b. v = JBool b)"
| "kind_fits KRound v = (\<exists>i \<in> {1..6}. v = JInt i)"
| "kind_fits KVersions v = (\<exists>xs. v = JList xs \<and> xs \<noteq> [] \<and> (\<forall>x \<in> set xs. is_version x))"
| "kind_fits KUrls v = (\<exists>xs. v = JList xs \<and> xs \<noteq> [] \<and> (\<forall>x \<in> set xs. is_text x))"
| "kind_fits (KOneOf ws) v = (\<exists>w \<in> set ws. v = JStr w)"
| "kind_fits KString v = (\<exists>s. v = JStr s)"
| "kind_fits KStrings v = (\<exists>xs. v = JList xs \<and> (\<forall>x \<in> set xs. is_str x))"
| "kind_fits KCapacity v = (\<exists>d i. v = JObj d \<and> dict_get d ''max_participants'' = Some (JInt i) \<and> 2 \<le> i)"
| "kind_fits KObject v = (\<exists>d. v = JObj d)"

definition required_fields :: "message_type \<Rightarrow> (string \<times> field_kind) list" where
  "required_fields t = (case t of
     ClientHello \<Rightarrow> [(''client_ts'', KPos)]
   | ClientClockSync \<Rightarrow> [(''client_ts'', KPos)]
   | ClientPing \<Rightarrow> [(''client_ts'', KPos)]
   | ClientReady \<Rightarrow> [(''round_number'', KRound)]
   | ClientWebrtcOffer \<Rightarrow> [(''room_id'', KText), (''sdp'', KText)]
   | ClientWebrtcAnswer \<Rightarrow> [(''room_id'', KText), (''sdp'', KText)]
   | ClientWebrtcIce \<Rightarrow> [(''room_id'', KText), (''candidate'', KText), (''sdp_mid'', KText), (''sdp_mline_index'', KNonneg)]
   | ServerHello \<Rightarrow> [(''participant_id'', KText), (''server_ts'', KPos), (''client_ts_echo'', KPos), (''event_id'', KText),
        (''supported_versions'', KVersions)]
   | ServerClockSync \<Rightarrow> [(''client_ts_echo'', KPos), (''server_ts'', KPos)]
   | ServerPong \<Rightarrow> [(''client_ts_echo'', KPos), (''server_ts'', KPos)]
   | ServerPairing \<Rightarrow> [(''round_number'', KRound), (''room_id'', KText), (''partner_id'', KText), (''is_offerer'', KBool),
        (''round_start_ts'', KPos), (''round_end_ts'', KPos)]
   | ServerRoundStart \<Rightarrow> [(''round_number'', KRound), (''room_id'', KText), (''server_ts'', KPos)]
   | ServerRoundWarning \<Rightarrow> [(''round_number'', KRound), (''server_ts'', KPos), (''remaining_seconds'', KNonneg),
        (''round_end_ts'', KPos)]
   | ServerRoundEnd \<Rightarrow> [(''round_number'', KRound), (''server_ts'', KPos)]
   | ServerPartnerState \<Rightarrow> [(''partner_id'', KText), (''state'', KOneOf partner_states), (''server_ts'', KPos)]
   | ServerWebrtcOffer \<Rightarrow> [(''room_id'', KText), (''from_participant_id'', KText), (''sdp'', KText)]
   | ServerWebrtcAnswer \<Rightarrow> [(''room_id'', KText), (''from_participant_id'', KText), (''sdp'', KText)]
   | ServerWebrtcIce \<Rightarrow> [(''room_id'', KText), (''from_participant_id'', KText), (''candidate'', KText), (''sdp_mid'', KText),
        (''sdp_mline_index'', KNonneg)]
   | ServerTurnCredentials \<Rightarrow> [(''urls'', KUrls), (''username'', KText), (''credential'', KText), (''ttl'', KPos)]
   | ServerEventEnd \<Rightarrow> [(''reason'', KOneOf event_end_reasons), (''server_ts'', KPos)]
   | ServerError \<Rightarrow> [(''code'', KText), (''message'', KText)])"

definition optional_fields :: "message_type \<Rightarrow> (string \<times> field_kind) list" where
  "optional_fields t = (case t of
     ServerHello \<Rightarrow> [(''capacity'', KCapacity)]
   | ServerPairing \<Rightarrow> [(''partner_display_name'', KString), (''partner_tags'', KStrings)]
   | ServerEventEnd \<Rightarrow> [(''message'', KString)]
   | ServerError \<Rightarrow> [(''original_type'', KString), (''detail'', KObject)]
   | _ \<Rightarrow> [])"

definition has_field :: "pydict \<Rightarrow> string \<times> field_kind \<Rightarrow> bool" where
  "has_field p fk = (\<exists>v. dict_get p (fst fk) = Some v \<and> kind_fits (snd fk) v)"

definition opt_ok :: "pydict \<Rightarrow> string \<times> field_kind \<Rightarrow> bool" where
  "opt_ok p fk = (\<forall>v. dict_get p (fst fk) = Some v \<longrightarrow> kind_fits (snd fk) v)"

definition payload_fits :: "message_type \<Rightarrow> pydict \<Rightarrow> bool" where
  "payload_fits t p \<longleftrightarrow> list_all (has_field p) (required_fields t) \<and> list_all (opt_ok p) (optional_fields t)"

section \<open>The validators decide the table\<close>

lemma require_Inr_iff:
  "require p f t ot = Inr v \<longleftrightarrow> dict_get p f = Some v \<and> isinstance v t \<and> \<not> (t = TInt \<and> type_name v = ''bool'')"
  by (auto simp: require_def split: option.splits)

lemma isinstance_iff:
  "isinstance v TStr \<longleftrightarrow> (\<exists>s. v = JStr s)"
  "isinstance v TList \<longleftrightarrow> (\<exists>xs. v = JList xs)"
  "isinstance v TBool \<longleftrightarrow> (\<exists>b. v = JBool b)"
  "isinstance v TInt \<longleftrightarrow> (\<exists>i. v = JInt i) \<or> (\<exists>b. v = JBool b)"
  by (cases v; simp)+

lemma require_str_iff: "require_str p f ot = Inr s \<longleftrightarrow> dict_get p f = Some (JStr s)"
  by (auto simp: require_str_def bindE_Inr_iff require_Inr_iff isinstance_iff)

lemma require_int_iff: "require_int p f ot = Inr i \<longleftrightarrow> dict_get p f = Some (JInt i)"
  by (auto simp: require_int_def bindE_Inr_iff require_Inr_iff isinstance_iff)

lemma require_list_iff: "require_list p f ot = Inr xs \<longleftrightarrow> dict_get p f = Some (JList xs)"
  by (auto simp: require_list_def bindE_Inr_iff require_Inr_iff isinstance_iff)

lemma require_positive_int_iff:
  "require_positive_int p f ot = Inr i \<longleftrightarrow> dict_get p f = Some (JInt i) \<and> 0 < i"
  by (auto simp: require_positive_int_def bindE_Inr_iff require_int_iff not_le)

lemma require_nonneg_int_iff:
  "require_nonneg_int p f ot = Inr i \<longleftrightarrow> dict_get p f = Some (JInt i) \<and> 0 \<le> i"
  by (auto simp: require_nonneg_int_def bindE_Inr_iff require_int_iff not_less)

lemma require_nonempty_str_iff:
  "require_nonempty_str p f ot = Inr s \<longleftrightarrow> dict_get p f = Some (JStr s) \<and> (\<exists>c \<in> set s. \<not> py_isspace c)"
  by (auto simp: require_nonempty_str_def bindE_Inr_iff require_str_iff py_strip_def strip_by_Nil_iff)

lemma field_iffs:
  "text_field p ot f = Inr () \<longleftrightarrow> has_field p (f, KText)"
  "pos_field p ot f = Inr () \<longleftrightarrow> has_field p (f, KPos)"
  "nonneg_field p ot f = Inr () \<longleftrightarrow> has_field p (f, KNonneg)"
  "round_number_field p ot = Inr () \<longleftrightarrow> has_field p (''round_number'', KRound)"
  by (auto simp: text_field_def pos_field_def nonneg_field_def round_number_field_def drop_value_def
      bindE_Inr_iff require_nonempty_str_iff require_positive_int_iff require_nonneg_int_iff
      require_int_iff has_field_def)

lemma bool_field_iff: "drop_value (require p f TBool ot) = Inr () \<longleftrightarrow> has_field p (f, KBool)"
  by (auto simp: drop_value_def bindE_Inr_iff require_Inr_iff isinstance_iff has_field_def)

lemma optional_field_iff:
  assumes "\<And>v. chk v = Inr () \<longleftrightarrow> kind_fits k v"
  shows "optional_field p f chk = Inr () \<longleftrightarrow> opt_ok p (f, k)"
  using assms by (auto simp: optional_field_def opt_ok_def split: option.splits)

lemma type_name_int: "type_name v = ''int'' \<longleftrightarrow> is_version v"
  by (cases v) simp_all

lemma versions_field_iff: "versions_field p = Inr () \<longleftrightarrow> has_field p (''supported_versions'', KVersions)"
  by (auto simp: versions_field_def bindE_Inr_iff require_list_iff has_field_def checks_Inr_iff type_name_int)

lemma urls_field_iff: "urls_field p = Inr () \<longleftrightarrow> has_field p (''urls'', KUrls)"
  by (auto simp: urls_field_def bindE_Inr_iff require_list_iff has_field_def list_all_iff)

lemma capacity_check_iff: "capacity_check v = Inr () \<longleftrightarrow> kind_fits KCapacity v"
  by (cases v) (auto simp: bindE_Inr_iff require_positive_int_iff)

lemma is_iffs:
  "is_str v \<longleftrightarrow> kind_fits KString v" "is_str_list v \<longleftrightarrow> kind_fits KStrings v" "is_obj v \<longleftrightarrow> kind_fits KObject v"
  by (cases v; simp add: list_all_iff)+

lemma one_of_field_iff:
  assumes "\<forall>w \<in> set ws. \<exists>c \<in> set w. \<not> py_isspace c"
  shows "one_of_field p ot f ws = Inr () \<longleftrightarrow> has_field p (f, KOneOf ws)"
  using assms by (auto simp: one_of_field_def bindE_Inr_iff require_nonempty_str_iff has_field_def)

lemma words_not_blank:
  "\<forall>w \<in> set partner_states. \<exists>c \<in> set w. \<not> py_isspace c"
  "\<forall>w \<in> set event_end_reasons. \<exists>c \<in> set w. \<not> py_isspace c"
  by (simp_all add: partner_states_def event_end_reasons_def py_isspace_def)

lemmas schema_iffs = checks_Inr_iff list.pred_inject field_iffs bool_field_iff versions_field_iff urls_field_iff
  one_of_field_iff[OF words_not_blank(1)] one_of_field_iff[OF words_not_blank(2)]
  optional_field_iff[where k = KCapacity, OF capacity_check_iff]

lemma optional_iffs:
  "optional_field p f (\<lambda>v. guardE (is_str v) e) = Inr () \<longleftrightarrow> opt_ok p (f, KString)"
  "optional_field p f (\<lambda>v. guardE (is_str_list v) e) = Inr () \<longleftrightarrow> opt_ok p (f, KStrings)"
  "optional_field p f (\<lambda>v. guardE (is_obj v) e) = Inr () \<longleftrightarrow> opt_ok p (f, KObject)"
  by (rule optional_field_iff, simp add: is_iffs)+

lemmas client_validators = validate_client_hello_def validate_client_clock_sync_def validate_client_ping_def
  validate_client_ready_def validate_client_webrtc_offer_def validate_client_webrtc_answer_def
  validate_client_webrtc_ice_def

lemmas server_validators = validate_server_hello_def validate_server_clock_sync_def validate_server_pong_def
  validate_server_pairing_def validate_server_round_start_def validate_server_round_warning_def
  validate_server_round_end_def validate_server_partner_state_def validate_server_webrtc_offer_def
  validate_server_webrtc_answer_def validate_server_webrtc_ice_def validate_server_turn_credentials_def
  validate_server_event_end_def validate_server_error_def

lemma payload_validator_iff: "payload_validator t p = Inr () \<longleftrightarrow> payload_fits t p"
  unfolding payload_fits_def
  by (cases t; simp add: payload_validator_def client_validators server_validators required_fields_def
      optional_fields_def schema_iffs optional_iffs conj_assoc del: checks.simps)

lemma type_of_value_iff: "type_of_value s = Some t \<longleftrightarrow> s = type_value t"
proof
  assume "type_of_value s = Some t"
  then show "s = type_value t" by (auto simp: type_of_value_def find_Some_iff)
next
  assume s: "s = type_value t"
  show "type_of_value s = Some t"
    unfolding s by (cases t; simp add: type_of_value_def client_message_types_def server_message_types_def type_value_def)
qed

lemma type_of_value_type_value [simp]: "type_of_value (type_value t) = Some t"
  by (simp add: type_of_value_iff)

lemma type_value_inj [simp]: "type_value a = type_value b \<longleftrightarrow> a = b"
  by (metis option.inject type_of_value_type_value)

section \<open>Envelopes\<close>

text \<open>The messages \<open>validate_message\<close> accepts, said of the envelope.\<close>

definition well_formed :: "raw_message \<Rightarrow> message_type \<Rightarrow> pydict \<Rightarrow> bool" where
  "well_formed raw t p \<longleftrightarrow> (\<exists>d. raw = Parsed (JObj d) \<and> dict_get d ''version'' = Some (JInt 1) \<and>
     dict_get d ''type'' = Some (JStr (type_value t)) \<and> dict_get d ''payload'' = Some (JObj p) \<and>
     payload_fits t p)"

lemma validate_message_Inr:
  "validate_message raw = Inr (t, p) \<longleftrightarrow> well_formed raw t p"
  by (auto simp: validate_message_def well_formed_def supported_versions_def type_of_value_iff bindE_Inr_iff
      payload_validator_iff split: raw_message.splits json.splits option.splits if_splits)

lemma build_message_Inr:
  "build_message (type_value t) p = Inr m \<longleftrightarrow> payload_fits t p \<and>
     m = JObj [(''type'', JStr (type_value t)), (''version'', JInt 1), (''payload'', JObj p)]"
  by (auto simp: build_message_def bindE_Inr_iff validate_payload_def payload_validator_iff protocol_version_def)

lemma build_message_accepted:
  "build_message (type_value t) p = Inr m \<Longrightarrow> validate_message (Parsed m) = Inr (t, p)"
  by (auto simp: build_message_Inr validate_message_Inr well_formed_def dict_get_Cons)

text \<open>C15. \<open>validate_message\<close> accepts exactly the well-formed messages: JSON objects of protocol version 1
  whose type is one of the 21 known types and whose payload fits the schema of that type (every required
  field present with a value of its kind, every optional field absent or of its kind); it returns that
  type and that payload.\<close>

theorem validate_message_decides: "validate_message raw = Inr (t, p) \<longleftrightarrow> well_formed raw t p"
  by (rule validate_message_Inr)

text \<open>Builder and validator are inverse: \<open>build_message\<close> succeeds exactly for the payloads the schema
  of the type describes, and then the message it returns is read back as that type and payload.\<close>

theorem build_validate_roundtrip:
  "payload_fits t p \<longleftrightarrow>
     (\<exists>m. build_message (type_value t) p = Inr m \<and> validate_message (Parsed m) = Inr (t, p))"
  using build_message_accepted[of t p] by (auto simp: build_message_Inr)

section \<open>Error replies\<close>

text \<open>An error whose text starts with a printing character, as every raised one does.\<close>

definition speaks :: "protocol_error \<Rightarrow> bool" where
  "speaks e \<longleftrightarrow> (\<exists>c cs. pe_message e = c # cs \<and> \<not> py_isspace c)"

lemma speaks_perr [simp]: "speaks (perr k (c # cs) t d) \<longleftrightarrow> \<not> py_isspace c"
  by (simp add: speaks_def perr_def)

lemma speaks_bad [simp]: "speaks (bad_message (c # cs) t) \<longleftrightarrow> \<not> py_isspace c"
  by (simp add: bad_message_def)

definition all_speak :: "protocol_error + 'a \<Rightarrow> bool" where
  "all_speak r = (case r of Inl e \<Rightarrow> speaks e | Inr _ \<Rightarrow> True)"

lemma all_speak_simps [simp]: "all_speak (Inr x)" "all_speak (Inl e) = speaks e"
  by (simp_all add: all_speak_def)

lemma all_speak_bindE: "all_speak m \<Longrightarrow> (\<And>x. all_speak (f x)) \<Longrightarrow> all_speak (bindE m f)"
  by (cases m) simp_all

lemma all_speak_guardE [simp]: "all_speak (guardE b e) \<longleftrightarrow> b \<or> speaks e"
  by (simp add: guardE_def)

lemma all_speak_checks: "\<forall>c \<in> set cs. all_speak c \<Longrightarrow> all_speak (checks cs)"
  by (induction cs) (auto split: sum.splits)

lemma letters_print [simp]:
  "\<not> py_isspace CHR ''M''" "\<not> py_isspace CHR ''F''" "\<not> py_isspace CHR ''E''" "\<not> py_isspace CHR ''O''"
  "\<not> py_isspace CHR ''P''" "\<not> py_isspace CHR ''U''" "\<not> py_isspace CHR ''N''"
  by (simp_all add: py_isspace_def)

lemma all_speak_require: "all_speak (require p f t ot)"
  by (simp add: require_def split: option.split)

lemma all_speak_fields [simp]:
  "all_speak (text_field p ot f)" "all_speak (pos_field p ot f)" "all_speak (nonneg_field p ot f)"
  "all_speak (round_number_field p ot)" "all_speak (drop_value (require p f t ot))"
  "all_speak (versions_field p)" "all_speak (urls_field p)" "all_speak (one_of_field p ot f ws)"
  by (auto simp: text_field_def pos_field_def nonneg_field_def round_number_field_def drop_value_def
      versions_field_def urls_field_def one_of_field_def require_nonempty_str_def require_positive_int_def
      require_nonneg_int_def require_str_def require_int_def require_list_def
      intro!: all_speak_bindE all_speak_require all_speak_checks)

lemma all_speak_optional: "(\<And>v. all_speak (chk v)) \<Longrightarrow> all_speak (optional_field p f chk)"
  by (simp add: optional_field_def split: option.split)

lemma all_speak_capacity: "all_speak (capacity_check v)"
  by (cases v) (auto simp: require_positive_int_def require_int_def intro!: all_speak_bindE all_speak_require)

lemma all_speak_payload_validator: "all_speak (payload_validator t p)"
  by (cases t; simp only: payload_validator_def client_validators server_validators message_type.case;
      (rule all_speak_checks)?; simp add: all_speak_optional all_speak_capacity)

lemma validate_message_speaks: "all_speak (validate_message raw)"
  by (auto simp: validate_message_def all_speak_payload_validator
      intro!: all_speak_bindE split: raw_message.splits json.splits option.splits)

lemma code_value_fits: "\<exists>c \<in> set (code_value k). \<not> py_isspace c"
  by (cases k) (simp_all add: code_value_def)

text \<open>The payload of the reply to an error.\<close>

definition error_payload :: "protocol_error \<Rightarrow> pydict" where
  "error_payload e = [(''code'', JStr (code_value (pe_code e))), (''message'', JStr (pe_message e))] @
     opt_field ''original_type'' (map_option JStr (pe_original_type e)) @
     opt_field ''detail'' (if pe_detail e \<noteq> [] then Some (JObj (pe_detail e)) else None)"

lemma error_payload_fits: "speaks e \<Longrightarrow> payload_fits ServerError (error_payload e)"
  using code_value_fits[of "pe_code e"]
  by (auto simp: payload_fits_def required_fields_def optional_fields_def has_field_def opt_ok_def
      error_payload_def dict_get_Cons opt_field_def speaks_def split: option.splits if_splits)

lemma error_reply_ok:
  assumes "speaks e"
  obtains m where "error_from_protocol_error e = Inr m"
    "validate_message (Parsed m) = Inr (ServerError, error_payload e)"
proof -
  have eq: "error_from_protocol_error e = build_message (type_value ServerError) (error_payload e)"
    by (simp add: error_from_protocol_error_def build_server_error_def error_payload_def)
  obtain m where "build_message (type_value ServerError) (error_payload e) = Inr m"
    using error_payload_fits[OF assms] by (simp add: build_message_Inr)
  then show ?thesis using that build_message_accepted by (simp add: eq)
qed

text \<open>C16. No received text can make the reply fail: whenever \<open>validate_message\<close> rejects a message, the error
  it raises is turned by \<open>error_from_protocol_error\<close> into a message that itself passes
  \<open>validate_message\<close> as a \<open>server.error\<close>, whose payload carries the error's code and text.\<close>

theorem rejected_message_has_reply:
  assumes "validate_message raw = Inl e"
  shows "\<exists>m p. error_from_protocol_error e = Inr m \<and> validate_message (Parsed m) = Inr (ServerError, p) \<and>
    dict_get p ''code'' = Some (JStr (code_value (pe_code e))) \<and>
    dict_get p ''message'' = Some (JStr (pe_message e))"
proof -
  have "speaks e" using validate_message_speaks[of raw] by (simp add: assms)
  then show ?thesis
    by (rule error_reply_ok) (auto simp: error_payload_def dict_get_Cons)
qed

lemma rejected_message_has_reply_witness:
  "\<exists>m p. error_from_protocol_error (perr ErrInvalidMessage ''Message must be a JSON object'' None []) = Inr m \<and>
     validate_message (Parsed m) = Inr (ServerError, p) \<and>
     dict_get p ''code'' = Some (JStr ''ERR_INVALID_MESSAGE'') \<and>
     dict_get p ''message'' = Some (JStr ''Message must be a JSON object'')"
  using rejected_message_has_reply[of "Parsed JNull" "perr ErrInvalidMessage ''Message must be a JSON object'' None []"]
  by (simp add: validate_message_def perr_def code_value_def)

text \<open>A pairing can be announced exactly when its round number is 1 to 6, the room and partner ids are not
  blank and both instants are positive; a name and a list of tags never make it fail. An event with
  more than six rounds therefore cannot be announced past its sixth round.\<close>

theorem server_pairing_buildable:
  "(\<exists>m. build_server_pairing n room partner start finish offerer name tags = Inr m) \<longleftrightarrow>
     n \<in> {1..6} \<and> py_strip room \<noteq> [] \<and> py_strip partner \<noteq> [] \<and> 0 < start \<and> 0 < finish"
  by (auto simp: build_server_pairing_def build_message_Inr payload_fits_def required_fields_def
      optional_fields_def has_field_def opt_ok_def dict_get_Cons opt_field_def py_strip_def strip_by_Nil_iff
      split: option.splits)

end
