(* ===== verification/Realtime.thy ===== *)
theory Realtime
  imports Protocol_Schema Scheduler
begin

text \<open>
  The real-time orchestrator of \<open>apps/events/orchestrator.py\<close>: who receives which lifecycle message,
  the idempotent dispatch of the scheduler's phase, the snapshot for a reconnecting participant and
  the partner-presence messages.

  The channel layer is \<open>None\<close> when the project has none, otherwise the function that says for which
  groups \<open>group_send\<close> succeeds; what is published is the list of group and message, in order. The
  cache is a map from keys to a value and its expiry instant. Instants are microseconds since the
  epoch; a clock the code reads is an argument.
\<close>

section \<open>Clocks\<close>

text \<open>\<open>int(x)\<close> of a float, \<open>timedelta.total_seconds()\<close> and \<open>datetime.timestamp()\<close>.\<close>

definition py_trunc :: "rat \<Rightarrow> int" where
  "py_trunc x = (if 0 \<le> x then \<lfloor>x\<rfloor> else \<lceil>x\<rceil>)"

definition float_seconds :: "int \<Rightarrow> rat" where
  "float_seconds us = fl64 (of_int us / 1000000)"

definition datetime_to_unix_ms :: "int \<Rightarrow> int" where
  "datetime_to_unix_ms us = py_trunc (fl64 (float_seconds us * 1000))"

section \<open>The cache\<close>

datatype cache_value = CTrue | CText string | CNumber int

type_synonym cache = "string \<rightharpoonup> cache_value \<times> int"

definition cache_get :: "cache \<Rightarrow> int \<Rightarrow> string \<Rightarrow> cache_value option" where
  "cache_get c clk k = (case c k of None \<Rightarrow> None | Some (v, expiry) \<Rightarrow> if clk < expiry then Some v else None)"

definition cache_set :: "string \<Rightarrow> cache_value \<Rightarrow> int \<Rightarrow> int \<Rightarrow> cache \<Rightarrow> cache" where
  "cache_set k v ttl_seconds clk c = c(k \<mapsto> (v, clk + ttl_seconds * 1000000))"

definition cache_delete :: "string \<Rightarrow> cache \<Rightarrow> cache" where
  "cache_delete k c = c(k := None)"

lemma cache_get_set [simp]:
  "cache_get (cache_set k v t clk c) clk' k' =
    (if k' = k then (if clk' < clk + t * 1000000 then Some v else None) else cache_get c clk' k')"
  by (simp add: cache_get_def cache_set_def)

lemma cache_get_delete [simp]: "cache_get (cache_delete k c) clk k' = (if k' = k then None else cache_get c clk k')"
  by (simp add: cache_get_def cache_delete_def)

section \<open>Groups and keys\<close>

definition participant_channel_group :: "uuid \<Rightarrow> string" where
  "participant_channel_group p = ''participant_'' @ uuid_str p"

definition event_channel_group :: "uuid \<Rightarrow> string" where
  "event_channel_group e = ''event_'' @ uuid_str e"

definition connection_channel_key :: "uuid \<Rightarrow> string" where
  "connection_channel_key p = ''ws:channel:'' @ uuid_str p"

definition absence_generation_key :: "uuid \<Rightarrow> string" where
  "absence_generation_key p = ''ws:absent:'' @ uuid_str p"

definition default_final_seconds_warning :: int where
  "default_final_seconds_warning = 30"

definition sent_cache_ttl_seconds :: int where
  "sent_cache_ttl_seconds = 24 * 60 * 60"

section \<open>The live pair of a participant\<close>

definition find_participant :: "db \<Rightarrow> uuid \<Rightarrow> participant_row option" where
  "find_participant d i = find (\<lambda>p. pt_id p = i) (db_participants d)"

definition round_pairs :: "db \<Rightarrow> uuid \<Rightarrow> uuid \<Rightarrow> pair_row list" where
  "round_pairs d e r = filter (\<lambda>p. pr_event p = e \<and> pr_round p = r) (db_pairs d)"

definition on_pair :: "uuid \<Rightarrow> pair_row \<Rightarrow> bool" where
  "on_pair i p \<longleftrightarrow> pr_a p = i \<or> pr_b p = i"

text \<open>\<open>.first()\<close> of an unordered query orders by primary key.\<close>

definition first_by_pk :: "pair_row list \<Rightarrow> pair_row option" where
  "first_by_pk ps = (if ps = [] then None else Some (min_by pr_id ps))"

definition current_pair_for_participant :: "uuid \<Rightarrow> uuid \<Rightarrow> int \<Rightarrow> db \<Rightarrow> pair_row option" where
  "current_pair_for_participant e i now d =
     (case get_current_phase e 20000000 now d of
        (phase, Some r, _) \<Rightarrow>
          if phase = EP_Preconnect \<or> phase = EP_InRound
          then first_by_pk (filter (on_pair i) (round_pairs d e (rd_id r))) else None
      | _ \<Rightarrow> None)"

definition partner_on_pair :: "pair_row \<Rightarrow> uuid \<Rightarrow> uuid" where
  "partner_on_pair p i = (if pr_a p = i then pr_b p else pr_a p)"

section \<open>Recipients\<close>

record pairing_recipient =
  pc_participant :: uuid
  pc_partner :: uuid
  pc_room :: string
  pc_is_offerer :: bool
  pc_partner_name :: string
  pc_partner_tags :: "string list"
  pc_group :: string

text \<open>
  \<open>tag_name\<close> gives the names of the tag rows; tags are ordered by name. The rows a pair refers to
  exist, as its foreign keys require.
\<close>

definition display_name_of :: "db \<Rightarrow> uuid \<Rightarrow> string" where
  "display_name_of d i = (case find_participant d i of None \<Rightarrow> '''' | Some p \<Rightarrow> pt_name p)"

definition tag_names_of :: "(uuid \<Rightarrow> string) \<Rightarrow> db \<Rightarrow> uuid \<Rightarrow> string list" where
  "tag_names_of tag_name d i = (case find_participant d i of None \<Rightarrow> [] | Some p \<Rightarrow> sort (map tag_name (pt_tags p)))"

definition pair_recipients :: "(uuid \<Rightarrow> string) \<Rightarrow> db \<Rightarrow> pair_row \<Rightarrow> pairing_recipient list" where
  "pair_recipients tag_name d p =
     [\<lparr>pc_participant = pr_a p, pc_partner = pr_b p, pc_room = pr_room_id p, pc_is_offerer = True,
       pc_partner_name = display_name_of d (pr_b p), pc_partner_tags = tag_names_of tag_name d (pr_b p),
       pc_group = participant_channel_group (pr_a p)\<rparr>,
      \<lparr>pc_participant = pr_b p, pc_partner = pr_a p, pc_room = pr_room_id p, pc_is_offerer = False,
       pc_partner_name = display_name_of d (pr_a p), pc_partner_tags = tag_names_of tag_name d (pr_a p),
       pc_group = participant_channel_group (pr_b p)\<rparr>]"

definition select_pairing_recipients :: "(uuid \<Rightarrow> string) \<Rightarrow> db \<Rightarrow> round_row \<Rightarrow> pairing_recipient list" where
  "select_pairing_recipients tag_name d r =
     concat (map (pair_recipients tag_name d) (round_pairs d (rd_event r) (rd_id r)))"

section \<open>Publishing\<close>

type_synonym channel_layer = "(string \<Rightarrow> bool) option"

type_synonym outbox = "(string \<times> json) list"

definition publish :: "channel_layer \<Rightarrow> string \<Rightarrow> json \<Rightarrow> outbox" where
  "publish layer grp m = (case layer of None \<Rightarrow> [] | Some up \<Rightarrow> if up grp then [(grp, m)] else [])"

text \<open>
  The loop of a broadcast: each message is built and published before the next one; a builder's
  exception ends it, what was published stays published. The count is that of successful sends.
\<close>

fun publish_each :: "channel_layer \<Rightarrow> (string \<times> (protocol_error + json)) list \<Rightarrow> (protocol_error + nat) \<times> outbox" where
  "publish_each layer [] = (Inr 0, [])"
| "publish_each layer ((grp, Inl e) # jobs) = (Inl e, [])"
| "publish_each layer ((grp, Inr m) # jobs) =
     (let sent = publish layer grp m in
      case publish_each layer jobs of (r, out) \<Rightarrow>
        (case r of Inl e \<Rightarrow> Inl e | Inr n \<Rightarrow> Inr (n + length sent), sent @ out))"

definition pairing_message :: "pairing_recipient \<Rightarrow> round_row \<Rightarrow> protocol_error + json" where
  "pairing_message c r = build_server_pairing (int (rd_number r)) (pc_room c) (uuid_str (pc_partner c))
     (datetime_to_unix_ms (rd_starts_at r)) (datetime_to_unix_ms (rd_ends_at r)) (pc_is_offerer c)
     (Some (pc_partner_name c)) (Some (pc_partner_tags c))"

definition round_start_message :: "int \<Rightarrow> pairing_recipient \<Rightarrow> round_row \<Rightarrow> protocol_error + json" where
  "round_start_message now c r = build_server_round_start (int (rd_number r)) (pc_room c) (datetime_to_unix_ms now)"

definition broadcast_report :: "message_type \<Rightarrow> (string \<times> json) list \<Rightarrow> nat \<Rightarrow> pydict" where
  "broadcast_report t extra n = (''type'', JStr (type_value t)) # extra @ [(''delivered'', JInt (int n))]"

definition broadcast_pairing :: "(uuid \<Rightarrow> string) \<Rightarrow> channel_layer \<Rightarrow> db \<Rightarrow> round_row \<Rightarrow> (protocol_error + pydict) \<times> outbox" where
  "broadcast_pairing tag_name layer d r =
     (let recipients = select_pairing_recipients tag_name d r in
      case publish_each layer (map (\<lambda>c. (pc_group c, pairing_message c r)) recipients) of
        (Inl e, out) \<Rightarrow> (Inl e, out)
      | (Inr n, out) \<Rightarrow> (Inr (broadcast_report ServerPairing
            [(''round_number'', JInt (int (rd_number r))), (''recipients'', JInt (int (length recipients)))] n), out))"

definition broadcast_round_start :: "(uuid \<Rightarrow> string) \<Rightarrow> channel_layer \<Rightarrow> db \<Rightarrow> int \<Rightarrow> round_row
    \<Rightarrow> (protocol_error + pydict) \<times> outbox" where
  "broadcast_round_start tag_name layer d now r =
     (let recipients = select_pairing_recipients tag_name d r in
      case publish_each layer (map (\<lambda>c. (pc_group c, round_start_message now c r)) recipients) of
        (Inl e, out) \<Rightarrow> (Inl e, out)
      | (Inr n, out) \<Rightarrow> (Inr (broadcast_report ServerRoundStart
            [(''round_number'', JInt (int (rd_number r))), (''recipients'', JInt (int (length recipients))),
             (''server_ts'', JInt (datetime_to_unix_ms now))] n), out))"

definition remaining_whole_seconds :: "int \<Rightarrow> round_row \<Rightarrow> int" where
  "remaining_whole_seconds now r = max 0 (py_trunc (float_seconds (rd_ends_at r - now)))"

text \<open>One message to the event's group.\<close>

definition broadcast_event :: "channel_layer \<Rightarrow> uuid \<Rightarrow> message_type \<Rightarrow> (string \<times> json) list \<Rightarrow> protocol_error + json
    \<Rightarrow> (protocol_error + pydict) \<times> outbox" where
  "broadcast_event layer e t extra built =
     (case built of
        Inl err \<Rightarrow> (Inl err, [])
      | Inr m \<Rightarrow> (let out = publish layer (event_channel_group e) m
          in (Inr (broadcast_report t ((''group'', JStr (event_channel_group e)) # extra) (length out)), out)))"

definition broadcast_final_seconds_warning :: "channel_layer \<Rightarrow> uuid \<Rightarrow> int \<Rightarrow> round_row
    \<Rightarrow> (protocol_error + pydict) \<times> outbox" where
  "broadcast_final_seconds_warning layer e now r =
     broadcast_event layer e ServerRoundWarning
       [(''round_number'', JInt (int (rd_number r))), (''remaining_seconds'', JInt (remaining_whole_seconds now r)),
        (''server_ts'', JInt (datetime_to_unix_ms now))]
       (build_server_round_warning (int (rd_number r)) (datetime_to_unix_ms now) (remaining_whole_seconds now r)
         (datetime_to_unix_ms (rd_ends_at r)))"

definition broadcast_round_end :: "channel_layer \<Rightarrow> uuid \<Rightarrow> int \<Rightarrow> round_row \<Rightarrow> (protocol_error + pydict) \<times> outbox" where
  "broadcast_round_end layer e now r =
     broadcast_event layer e ServerRoundEnd
       [(''round_number'', JInt (int (rd_number r))), (''server_ts'', JInt (datetime_to_unix_ms now))]
       (build_server_round_end (int (rd_number r)) (datetime_to_unix_ms now))"

definition broadcast_event_end :: "channel_layer \<Rightarrow> uuid \<Rightarrow> int \<Rightarrow> string \<Rightarrow> string option
    \<Rightarrow> (protocol_error + pydict) \<times> outbox" where
  "broadcast_event_end layer e now reason message =
     broadcast_event layer e ServerEventEnd
       [(''reason'', JStr reason), (''server_ts'', JInt (datetime_to_unix_ms now))]
       (build_server_event_end reason (datetime_to_unix_ms now) message)"

section \<open>Dispatch\<close>

text \<open>What one call of \<open>_send_once\<close> is about: the type it reports, its key and the broadcast.\<close>

type_synonym due = "message_type \<times> string \<times> ((protocol_error + pydict) \<times> outbox)"

definition mark_key :: "uuid \<Rightarrow> string \<Rightarrow> string" where
  "mark_key e key = ''orchestrator:'' @ uuid_str e @ '':'' @ key"

definition round_key :: "nat \<Rightarrow> string \<Rightarrow> string" where
  "round_key n what = ''r'' @ show_nat n @ '':'' @ what"

definition already_sent :: "cache \<Rightarrow> int \<Rightarrow> uuid \<Rightarrow> string \<Rightarrow> bool" where
  "already_sent c clk e key \<longleftrightarrow> cache_get c clk (mark_key e key) \<noteq> None"

definition mark_sent :: "int \<Rightarrow> uuid \<Rightarrow> string \<Rightarrow> cache \<Rightarrow> cache" where
  "mark_sent clk e key c = cache_set (mark_key e key) CTrue sent_cache_ttl_seconds clk c"

definition due_messages :: "(uuid \<Rightarrow> string) \<Rightarrow> channel_layer \<Rightarrow> int \<Rightarrow> uuid \<Rightarrow> int \<Rightarrow> db \<Rightarrow> phase_info \<Rightarrow> due list" where
  "due_messages tag_name layer final_seconds e now d info =
     (case info of (phase, active, remaining) \<Rightarrow>
       (let pairing = (\<lambda>r. (ServerPairing, round_key (rd_number r) ''pairing'', broadcast_pairing tag_name layer d r));
            start = (\<lambda>r. (ServerRoundStart, round_key (rd_number r) ''round_start'',
              broadcast_round_start tag_name layer d now r));
            warning = (\<lambda>r. (ServerRoundWarning, round_key (rd_number r) ''warning'',
              broadcast_final_seconds_warning layer e now r));
            round_end = (\<lambda>r. (ServerRoundEnd, round_key (rd_number r) ''round_end'', broadcast_round_end layer e now r));
            event_end = (ServerEventEnd, ''event_end'', broadcast_event_end layer e now ''completed'' None);
            remaining_s = (case remaining of None \<Rightarrow> 0 | Some m \<Rightarrow> float_seconds m)
        in case (phase, active) of
             (EP_Preconnect, Some r) \<Rightarrow> [pairing r]
           | (EP_InRound, Some r) \<Rightarrow>
               [pairing r, start r] @ (if remaining_s \<le> of_int final_seconds then [warning r] else [])
           | (EP_Break, Some r) \<Rightarrow> [round_end r]
           | (EP_Completed, Some r) \<Rightarrow> [round_end r, event_end]
           | (EP_Completed, None) \<Rightarrow> [event_end]
           | _ \<Rightarrow> []))"

text \<open>
  The sequence of \<open>_send_once\<close> calls: types and keys sent, the cache, what was published, and the
  exception if a broadcast raised (its key is then not marked).
\<close>

record dispatch_state =
  ds_cache :: cache
  ds_sent :: "(message_type \<times> string) list"
  ds_out :: outbox

fun send_all_once :: "uuid \<Rightarrow> int \<Rightarrow> due list \<Rightarrow> dispatch_state \<Rightarrow> protocol_error option \<times> dispatch_state" where
  "send_all_once e clk [] st = (None, st)"
| "send_all_once e clk ((t, key, (r, out)) # ds) st =
     (if already_sent (ds_cache st) clk e key then send_all_once e clk ds st
      else case r of
          Inl err \<Rightarrow> (Some err, st\<lparr>ds_out := ds_out st @ out\<rparr>)
        | Inr _ \<Rightarrow> send_all_once e clk ds
            \<lparr>ds_cache = mark_sent clk e key (ds_cache st), ds_sent = ds_sent st @ [(t, key)], ds_out = ds_out st @ out\<rparr>)"

datatype dispatch_report =
    DispatchNotLeader
  | Dispatched event_phase "nat option" "message_type list" int

definition dispatch :: "(uuid \<Rightarrow> string) \<Rightarrow> channel_layer \<Rightarrow> int \<Rightarrow> bool \<Rightarrow> uuid \<Rightarrow> int \<Rightarrow> int \<Rightarrow> db \<Rightarrow> cache
    \<Rightarrow> (protocol_error + dispatch_report) \<times> dispatch_state" where
  "dispatch tag_name layer final_seconds leader e now clk d c =
     (let st0 = \<lparr>ds_cache = c, ds_sent = [], ds_out = []\<rparr> in
      if \<not> leader then (Inr DispatchNotLeader, st0)
      else
        let info = get_current_phase e 20000000 now d in
        case send_all_once e clk (due_messages tag_name layer final_seconds e now d info) st0 of
          (Some err, st) \<Rightarrow> (Inl err, st)
        | (None, st) \<Rightarrow> (Inr (Dispatched (fst info) (map_option rd_number (fst (snd info))) (map fst (ds_sent st)) now), st))"

section \<open>Prepared jobs, snapshots and presence\<close>

text \<open>A list comprehension of builder calls: the first exception is that of the whole.\<close>

fun build_all :: "(string \<times> (protocol_error + json)) list \<Rightarrow> protocol_error + outbox" where
  "build_all [] = Inr []"
| "build_all ((grp, r) # jobs) = bindE r (\<lambda>m. bindE (build_all jobs) (\<lambda>out. Inr ((grp, m) # out)))"

definition pairing_jobs :: "(uuid \<Rightarrow> string) \<Rightarrow> db \<Rightarrow> round_row \<Rightarrow> protocol_error + outbox" where
  "pairing_jobs tag_name d r =
     build_all (map (\<lambda>c. (pc_group c, pairing_message c r)) (select_pairing_recipients tag_name d r))"

definition round_start_jobs :: "(uuid \<Rightarrow> string) \<Rightarrow> db \<Rightarrow> int \<Rightarrow> round_row \<Rightarrow> protocol_error + outbox" where
  "round_start_jobs tag_name d now r =
     build_all (map (\<lambda>c. (pc_group c, round_start_message now c r)) (select_pairing_recipients tag_name d r))"

definition abroadcast_prepared :: "channel_layer \<Rightarrow> outbox \<Rightarrow> nat \<times> outbox" where
  "abroadcast_prepared layer jobs = (let out = concat (map (\<lambda>(g, m). publish layer g m) jobs) in (length out, out))"

definition abroadcast_pairing :: "(uuid \<Rightarrow> string) \<Rightarrow> channel_layer \<Rightarrow> db \<Rightarrow> round_row \<Rightarrow> (protocol_error + pydict) \<times> outbox" where
  "abroadcast_pairing tag_name layer d r =
     (case pairing_jobs tag_name d r of Inl e \<Rightarrow> (Inl e, [])
      | Inr jobs \<Rightarrow> (case abroadcast_prepared layer jobs of (n, out) \<Rightarrow>
          (Inr (broadcast_report ServerPairing
            [(''round_number'', JInt (int (rd_number r))), (''recipients'', JInt (int (length jobs)))] n), out)))"

definition abroadcast_round_start :: "(uuid \<Rightarrow> string) \<Rightarrow> channel_layer \<Rightarrow> db \<Rightarrow> int \<Rightarrow> round_row
    \<Rightarrow> (protocol_error + pydict) \<times> outbox" where
  "abroadcast_round_start tag_name layer d now r =
     (case round_start_jobs tag_name d now r of Inl e \<Rightarrow> (Inl e, [])
      | Inr jobs \<Rightarrow> (case abroadcast_prepared layer jobs of (n, out) \<Rightarrow>
          (Inr (broadcast_report ServerRoundStart
            [(''round_number'', JInt (int (rd_number r))), (''recipients'', JInt (int (length jobs)))] n), out)))"

definition reconnect_snapshot_messages :: "(uuid \<Rightarrow> string) \<Rightarrow> uuid \<Rightarrow> uuid \<Rightarrow> int \<Rightarrow> db \<Rightarrow> protocol_error + json list" where
  "reconnect_snapshot_messages tag_name e i now d =
     (case get_current_phase e 20000000 now d of (phase, active, _) \<Rightarrow>
        if phase = EP_Completed
        then bindE (build_server_event_end ''completed'' (datetime_to_unix_ms now) None) (\<lambda>m. Inr [m])
        else
          (case active of
             None \<Rightarrow> Inr []
           | Some r \<Rightarrow>
               if phase \<noteq> EP_Preconnect \<and> phase \<noteq> EP_InRound then Inr []
               else
                 (case filter (\<lambda>c. uuid_str (pc_participant c) = uuid_str i) (select_pairing_recipients tag_name d r) of
                    [] \<Rightarrow> Inr []
                  | c # _ \<Rightarrow>
                      bindE (pairing_message c r) (\<lambda>m.
                        if phase = EP_InRound
                        then bindE (round_start_message now c r) (\<lambda>m'. Inr [m, m']) else Inr [m]))))"

definition partner_presence_jobs :: "uuid \<Rightarrow> uuid \<Rightarrow> string \<Rightarrow> int \<Rightarrow> db \<Rightarrow> protocol_error + outbox" where
  "partner_presence_jobs e i state now d =
     (case current_pair_for_participant e i now d of
        None \<Rightarrow> Inr []
      | Some p \<Rightarrow>
          bindE (build_server_partner_state (uuid_str i) (if state = [] then ''disconnected'' else state)
              (datetime_to_unix_ms now)) (\<lambda>m.
            Inr [(participant_channel_group (partner_on_pair p i), m)]))"

definition anotify_partner_presence :: "channel_layer \<Rightarrow> uuid \<Rightarrow> uuid \<Rightarrow> string \<Rightarrow> int \<Rightarrow> db
    \<Rightarrow> (protocol_error + nat) \<times> outbox" where
  "anotify_partner_presence layer e i state now d =
     (case partner_presence_jobs e i state now d of Inl err \<Rightarrow> (Inl err, [])
      | Inr jobs \<Rightarrow> (case abroadcast_prepared layer jobs of (n, out) \<Rightarrow> (Inr n, out)))"

text \<open>\<open>invalidate_participant_sockets\<close>: the control message is not a protocol envelope.\<close>

definition invalidate_participant_sockets :: "channel_layer \<Rightarrow> uuid \<Rightarrow> cache \<Rightarrow> cache \<times> outbox" where
  "invalidate_participant_sockets layer i c =
     (cache_delete (absence_generation_key i) (cache_delete (connection_channel_key i) c),
      publish layer (participant_channel_group i) (JObj [(''type'', JStr ''session.replaced'')]))"

end
