(* ===== verification/Auth.thy ===== *)
theory Auth
  imports Realtime Sha256
begin

text \<open>
  Join tokens and participant sessions of \<open>apps/events/auth.py\<close> and the token methods of
  \<open>Participant\<close> in \<open>apps/events/models.py\<close>.

  Django's password hasher is not part of the repository: \<open>make_password\<close> and \<open>check_password\<close> are
  the arguments \<open>mk\<close> and \<open>check\<close> of the operations that call them. The random part of a token and
  the session key Django generates are arguments too. A participant object a caller holds is a
  copy of its row, which \<open>save(update_fields=..)\<close> writes back field by field.
\<close>

section \<open>Constants and keys\<close>

definition token_prefix :: string where
  "token_prefix = ''p1_''"

definition participant_session_age :: int where
  "participant_session_age = 60 * 60 * 24 * 30"

definition participant_session_cache_key :: "uuid \<Rightarrow> string" where
  "participant_session_cache_key p = ''participant:session:'' @ uuid_str p"

section \<open>Join tokens\<close>

definition update_participant :: "uuid \<Rightarrow> (participant_row \<Rightarrow> participant_row) \<Rightarrow> db \<Rightarrow> db" where
  "update_participant i f d = d\<lparr>db_participants := map (\<lambda>p. if pt_id p = i then f p else p) (db_participants d)\<rparr>"

text \<open>\<open>None\<close> is the \<open>ValueError\<close>.\<close>

definition set_join_token :: "(string \<Rightarrow> string) \<Rightarrow> string \<Rightarrow> participant_row \<Rightarrow> participant_row option" where
  "set_join_token mk raw_token p =
     (if raw_token = [] then None
      else Some (p\<lparr>pt_token_hash := mk raw_token, pt_token_digest := sha256_hex raw_token\<rparr>))"

definition verify_join_token_of :: "(string \<Rightarrow> string \<Rightarrow> bool) \<Rightarrow> string \<Rightarrow> participant_row \<Rightarrow> bool" where
  "verify_join_token_of check raw_token p \<longleftrightarrow> raw_token \<noteq> [] \<and> check raw_token (pt_token_hash p)"

definition token_is_expired :: "int \<Rightarrow> participant_row \<Rightarrow> bool" where
  "token_is_expired now p \<longleftrightarrow> (case pt_token_expires_at p of None \<Rightarrow> False | Some t \<Rightarrow> t \<le> now)"

definition event_end_of :: "event_row \<Rightarrow> int" where
  "event_end_of ev = ev_start_time ev +
     (int (ev_num_rounds ev) * ev_round_duration ev + max (int (ev_num_rounds ev) - 1) 0 * ev_break_duration ev)"

text \<open>\<open>urlsafe\<close> is the result of \<open>secrets.token_urlsafe\<close>; \<open>ev\<close> is the participant's event.\<close>

definition issue_join_token :: "(string \<Rightarrow> string) \<Rightarrow> string \<Rightarrow> event_row \<Rightarrow> participant_row \<Rightarrow> db
    \<Rightarrow> (string \<times> participant_row \<times> db) option" where
  "issue_join_token mk urlsafe ev p d =
     (let raw_token = token_prefix @ urlsafe in
      map_option (\<lambda>q. let q' = q\<lparr>pt_token_expires_at := Some (event_end_of ev)\<rparr> in
          (raw_token, q',
           update_participant (pt_id p)
             (\<lambda>row. row\<lparr>pt_token_hash := pt_token_hash q', pt_token_digest := pt_token_digest q',
                pt_token_expires_at := pt_token_expires_at q'\<rparr>) d))
        (set_join_token mk raw_token p))"

definition rstrip_char :: "char \<Rightarrow> string \<Rightarrow> string" where
  "rstrip_char c s = rev (dropWhile (\<lambda>x. x = c) (rev s))"

definition personal_join_link :: "string \<Rightarrow> string option \<Rightarrow> string option" where
  "personal_join_link base_url raw_token =
     (case raw_token of
        None \<Rightarrow> None
      | Some t \<Rightarrow> (let base = rstrip_char CHR ''/'' base_url in
          Some (if base = [] then ''/join/'' @ t @ ''/'' else base @ ''/join/'' @ t @ ''/'')))"

datatype join_error = InvalidJoinToken | ExpiredJoinToken

definition authenticate_join_token :: "(string \<Rightarrow> string \<Rightarrow> bool) \<Rightarrow> string \<Rightarrow> int \<Rightarrow> db
    \<Rightarrow> join_error + participant_row \<times> db" where
  "authenticate_join_token check raw_token now d =
     (if raw_token = [] \<or> take 3 raw_token \<noteq> token_prefix then Inl InvalidJoinToken
      else
        (let found = filter (\<lambda>p. pt_token_digest p = sha256_hex raw_token) (db_participants d) in
         if found = [] then Inl InvalidJoinToken
         else
           (let p = min_by pt_id found in
            if \<not> verify_join_token_of check raw_token p then Inl InvalidJoinToken
            else if token_is_expired now p then Inl ExpiredJoinToken
            else if pt_joined_at p = None
            then Inr (p\<lparr>pt_joined_at := Some now\<rparr>,
                      update_participant (pt_id p) (\<lambda>row. row\<lparr>pt_joined_at := Some now\<rparr>) d)
            else Inr (p, d))))"

section \<open>Sessions\<close>

text \<open>
  A Django session: its key and the entry \<open>participant_id\<close>. \<open>cache_up\<close> says whether the cache answers;
  when it does not, its operations raise and the exception is caught where the source catches it.
\<close>

record web_session =
  ws_key :: "string option"
  ws_participant :: "string option"

definition remember_participant_session :: "bool \<Rightarrow> int \<Rightarrow> uuid \<Rightarrow> string option \<Rightarrow> cache \<Rightarrow> cache" where
  "remember_participant_session cache_up clk i session_key c =
     (case session_key of
        None \<Rightarrow> c
      | Some k \<Rightarrow> if k = [] \<or> \<not> cache_up then c
          else cache_set (participant_session_cache_key i) (CText k) participant_session_age clk c)"

text \<open>\<open>new_key\<close> is the key \<open>cycle_key\<close> gives the session; the old key is gone.\<close>

definition establish_participant_session :: "bool \<Rightarrow> int \<Rightarrow> string \<Rightarrow> participant_row \<Rightarrow> cache \<Rightarrow> web_session \<times> cache" where
  "establish_participant_session cache_up clk new_key p c =
     (\<lparr>ws_key = Some new_key, ws_participant = Some (uuid_str (pt_id p))\<rparr>,
      remember_participant_session cache_up clk (pt_id p) (Some new_key) c)"

definition session_matches_participant :: "bool \<Rightarrow> int \<Rightarrow> web_session \<Rightarrow> participant_row \<Rightarrow> cache \<Rightarrow> bool" where
  "session_matches_participant cache_up clk s p c \<longleftrightarrow>
     (if \<not> cache_up then True
      else case cache_get c clk (participant_session_cache_key (pt_id p)) of
          None \<Rightarrow> True
        | Some (CText k) \<Rightarrow> k = [] \<or> ws_key s = Some k
        | Some (CNumber n) \<Rightarrow> n = 0
        | Some CTrue \<Rightarrow> False)"

text \<open>The outcome of resolving: an exception (a stored id that is no UUID), nobody, or a participant.\<close>

datatype resolved = ResolveRaised | Nobody | Resolved participant_row

definition resolve_participant_from_session :: "bool \<Rightarrow> int \<Rightarrow> web_session \<Rightarrow> cache \<Rightarrow> db \<Rightarrow> resolved" where
  "resolve_participant_from_session cache_up clk s c d =
     (case ws_participant s of
        None \<Rightarrow> Nobody
      | Some pid \<Rightarrow>
          if pid = [] then Nobody
          else case uuid_of_string pid of
              None \<Rightarrow> ResolveRaised
            | Some i \<Rightarrow>
                (case find_participant d i of
                   None \<Rightarrow> Nobody
                 | Some p \<Rightarrow> if session_matches_participant cache_up clk s p c then Resolved p else Nobody))"

definition resolve_participant_from_scope :: "bool \<Rightarrow> int \<Rightarrow> web_session option \<Rightarrow> cache \<Rightarrow> db \<Rightarrow> resolved" where
  "resolve_participant_from_scope cache_up clk s c d =
     (case s of None \<Rightarrow> Nobody | Some s \<Rightarrow> resolve_participant_from_session cache_up clk s c d)"

section \<open>Tokens\<close>

lemma find_participant_Some: "find_participant d i = Some p \<Longrightarrow> p \<in> set (db_participants d) \<and> pt_id p = i"
  by (auto simp: find_participant_def find_Some_iff)

lemma find_participant_update:
  assumes "\<And>p. pt_id (f p) = pt_id p"
  shows "find_participant (update_participant j f d) i = map_option (\<lambda>p. if pt_id p = j then f p else p) (find_participant d i)"
  unfolding find_participant_def update_participant_def using find_map_update[where key = pt_id and f = f, OF assms] by simp

lemma min_by_singleton: "xs \<noteq> [] \<Longrightarrow> \<forall>x \<in> set xs. x = y \<Longrightarrow> min_by f xs = y"
  using min_by_in by blast

text \<open>A token only \<open>p\<close>'s row carries the digest of is accepted for \<open>p\<close> or for nobody.\<close>

lemma authenticate_only:
  assumes only: "\<forall>q \<in> set (db_participants d). pt_token_digest q = sha256_hex raw \<longrightarrow> q = p"
    and p: "p \<in> set (db_participants d)" "pt_token_digest p = sha256_hex raw"
  shows "authenticate_join_token check raw now d =
    (if take 3 raw \<noteq> token_prefix \<or> \<not> check raw (pt_token_hash p) then Inl InvalidJoinToken
     else if token_is_expired now p then Inl ExpiredJoinToken
     else if pt_joined_at p = None
     then Inr (p\<lparr>pt_joined_at := Some now\<rparr>, update_participant (pt_id p) (\<lambda>row. row\<lparr>pt_joined_at := Some now\<rparr>) d)
     else Inr (p, d))"
proof -
  let ?found = "filter (\<lambda>q. pt_token_digest q = sha256_hex raw) (db_participants d)"
  have "p \<in> set ?found" using p by simp
  then have ne: "?found \<noteq> []" by force
  then have "min_by pt_id ?found = p" using only by (intro min_by_singleton) auto
  then show ?thesis
    using ne by (auto simp: authenticate_join_token_def Let_def verify_join_token_of_def token_prefix_def)
qed

lemma authenticate_nobody:
  assumes "\<forall>q \<in> set (db_participants d). pt_token_digest q = sha256_hex raw \<longrightarrow> \<not> check raw (pt_token_hash q)"
  shows "authenticate_join_token check raw now d = Inl InvalidJoinToken"
proof -
  let ?found = "filter (\<lambda>q. pt_token_digest q = sha256_hex raw) (db_participants d)"
  have "?found \<noteq> [] \<Longrightarrow> min_by pt_id ?found \<in> set ?found" by (rule min_by_in)
  then have "?found \<noteq> [] \<Longrightarrow> \<not> check raw (pt_token_hash (min_by pt_id ?found))" using assms by auto
  then show ?thesis by (auto simp: authenticate_join_token_def Let_def verify_join_token_of_def)
qed

text \<open>Primary keys identify rows; no other participant's row carries the digest.\<close>

definition digest_free :: "db \<Rightarrow> uuid \<Rightarrow> string \<Rightarrow> bool" where
  "digest_free d i raw \<longleftrightarrow> (\<forall>q \<in> set (db_participants d). pt_id q \<noteq> i \<longrightarrow> pt_token_digest q \<noteq> sha256_hex raw)"

lemma issued_rows:
  assumes d: "distinct (map pt_id (db_participants d))" and p: "p \<in> set (db_participants d)"
    and issue: "issue_join_token mk urlsafe ev p d = Some (raw, q, d')"
  shows "raw = token_prefix @ urlsafe" and "q \<in> set (db_participants d')"
    and "q = p\<lparr>pt_token_hash := mk raw, pt_token_digest := sha256_hex raw, pt_token_expires_at := Some (event_end_of ev)\<rparr>"
    and "x \<in> set (db_participants d') \<Longrightarrow> x = q \<or> (pt_id x \<noteq> pt_id p \<and> x \<in> set (db_participants d))"
proof -
  have raw: "raw = token_prefix @ urlsafe"
    and q: "q = p\<lparr>pt_token_hash := mk raw, pt_token_digest := sha256_hex raw, pt_token_expires_at := Some (event_end_of ev)\<rparr>"
    and d': "d' = update_participant (pt_id p) (\<lambda>row. row\<lparr>pt_token_hash := mk raw, pt_token_digest := sha256_hex raw,
        pt_token_expires_at := Some (event_end_of ev)\<rparr>) d"
    using issue by (auto simp: issue_join_token_def set_join_token_def Let_def split: if_splits)
  have same: "x = p" if "x \<in> set (db_participants d)" "pt_id x = pt_id p" for x
    using d p that by (meson distinct_map inj_onD)
  show "raw = token_prefix @ urlsafe" by (rule raw)
  show "q = p\<lparr>pt_token_hash := mk raw, pt_token_digest := sha256_hex raw, pt_token_expires_at := Some (event_end_of ev)\<rparr>" by (rule q)
  show "q \<in> set (db_participants d')" using p q d' by (auto simp: update_participant_def image_iff)
  show "x = q \<or> (pt_id x \<noteq> pt_id p \<and> x \<in> set (db_participants d))" if "x \<in> set (db_participants d')"
    using that q d' same by (auto simp: update_participant_def split: if_splits)
qed


section \<open>The life of a token\<close>

lemma event_end_timetable:
  assumes "1 \<le> ev_num_rounds ev"
  shows "event_end_of ev = sc_ends_at (last (calculate_full_schedule ev None pre))"
proof -
  have "calculate_full_schedule ev None pre = calculate_full_schedule ev (Some (ev_start_time ev)) pre"
    by (simp add: calculate_full_schedule_def)
  moreover have "last (map (closed_item ev pre (ev_start_time ev)) [1..<ev_num_rounds ev + 1]) =
      closed_item ev pre (ev_start_time ev) (ev_num_rounds ev)" using assms by simp
  ultimately show ?thesis using assms
    by (simp add: calculate_full_schedule_closed closed_item_def round_start_def event_end_of_def algebra_simps del: upt_Suc)
qed

text \<open>C23. A freshly issued token admits its participant until the instant the calculated timetable's last round
  ends, keeping the first join time; from that instant on it is refused as expired.\<close>

theorem issued_token_lifetime:
  assumes hasher: "\<forall>r. check r (mk r)"
    and d: "distinct (map pt_id (db_participants d))" "p \<in> set (db_participants d)"
    and rounds: "1 \<le> ev_num_rounds ev"
    and issue: "issue_join_token mk urlsafe ev p d = Some (raw, q, d')"
    and free: "digest_free d (pt_id p) raw"
  shows "if now < sc_ends_at (last (calculate_full_schedule ev None pre))
    then (\<exists>a d''. authenticate_join_token check raw now d' = Inr (a, d'') \<and> pt_id a = pt_id p \<and>
      find_participant d'' (pt_id p) \<noteq> None \<and>
      pt_joined_at a = Some (case pt_joined_at p of Some t \<Rightarrow> t | None \<Rightarrow> now))
    else authenticate_join_token check raw now d' = Inl ExpiredJoinToken"
proof -
  note rows = issued_rows[OF d issue]
  have only: "\<forall>x \<in> set (db_participants d'). pt_token_digest x = sha256_hex raw \<longrightarrow> x = q"
    using rows(4) free by (auto simp: digest_free_def)
  have q: "pt_token_digest q = sha256_hex raw" "pt_token_hash q = mk raw" "pt_id q = pt_id p"
    "pt_token_expires_at q = Some (event_end_of ev)" "pt_joined_at q = pt_joined_at p" by (simp_all add: rows(3))
  have prefix: "take 3 raw = token_prefix" by (simp add: rows(1) token_prefix_def)
  have "find (\<lambda>x. pt_id x = pt_id p) (db_participants d') \<noteq> None"
    using rows(2) q(3) by (auto simp: find_None_iff)
  then have found: "find_participant d' (pt_id p) \<noteq> None" by (simp add: find_participant_def)
  then have found': "find_participant (update_participant (pt_id p) (\<lambda>row. row\<lparr>pt_joined_at := Some now\<rparr>) d') (pt_id p) \<noteq> None"
    by (auto simp: find_participant_update)
  have "token_is_expired now q \<longleftrightarrow> \<not> now < sc_ends_at (last (calculate_full_schedule ev None pre))"
    using event_end_timetable[OF rounds, of pre] q(4) by (simp add: token_is_expired_def not_less)
  then show ?thesis
    using authenticate_only[OF only rows(2) q(1), of check now] prefix hasher q found found' by (auto split: option.split)
qed

text \<open>Issuing a new token revokes the old one: nobody is admitted with it any more.\<close>

theorem rotated_token_refused:
  assumes hasher: "\<forall>r r'. check r (mk r') \<longleftrightarrow> r = r'"
    and d: "distinct (map pt_id (db_participants d))" "p \<in> set (db_participants d)"
    and old: "issue_join_token mk urlsafe ev p d = Some (raw, q, d')" "digest_free d (pt_id p) raw"
    and new: "issue_join_token mk urlsafe' ev q d' = Some (raw', q', d'')" "urlsafe' \<noteq> urlsafe"
  shows "authenticate_join_token check raw now d'' = Inl InvalidJoinToken"
proof -
  note r1 = issued_rows[OF d old(1)]
  have id: "pt_id q = pt_id p" by (simp add: r1(3))
  have "map pt_id (db_participants d') = map pt_id (db_participants d)"
    using old(1) by (auto simp: issue_join_token_def set_join_token_def Let_def update_participant_def split: if_splits)
  then have d': "distinct (map pt_id (db_participants d'))" using d(1) by simp
  note r2 = issued_rows[OF d' r1(2) new(1)]
  have "raw \<noteq> raw'" using r1(1) r2(1) new(2) by simp
  then have "\<not> check raw (pt_token_hash q')" using hasher by (simp add: r2(3))
  moreover have "x = q' \<or> pt_token_digest x \<noteq> sha256_hex raw" if "x \<in> set (db_participants d'')" for x
    using r2(4)[OF that] r1(4)[of x] old(2) id by (auto simp: digest_free_def)
  ultimately show ?thesis by (intro authenticate_nobody) auto
qed

text \<open>Opening the personal link again leaves one usable session: with the cache answering and until its entry
  expires, the new session resolves to the participant and every session with another key to nobody.\<close>

theorem latest_session_only:
  assumes p: "find_participant d (pt_id p) = Some p" "uuid_int (pt_id p) < 2 ^ 128"
    and est: "establish_participant_session True clk key p c = (s, c')" "key \<noteq> []"
    and later: "clk \<le> clk'" "clk' < clk + 30 * 24 * 60 * 60 * 1000000"
    and other: "ws_participant s' = Some (uuid_str (pt_id p))" "ws_key s' \<noteq> Some key"
  shows "resolve_participant_from_session True clk' s c' d = Resolved p \<and>
    resolve_participant_from_session True clk' s' c' d = Nobody"
proof -
  have "uuid_str (pt_id p) \<noteq> []" by (simp add: uuid_str_def Let_def)
  moreover have "cache_get c' clk' (participant_session_cache_key (pt_id p)) = Some (CText key)"
    using est later by (auto simp: establish_participant_session_def remember_participant_session_def
        participant_session_age_def)
  ultimately show ?thesis using p est other uuid_of_string_str[OF p(2)]
    by (auto simp: establish_participant_session_def resolve_participant_from_session_def session_matches_participant_def)
qed

section \<open>One participant\<close>

definition lone_participant :: participant_row where
  "lone_participant = \<lparr>pt_id = UUID 3, pt_event = UUID 7, pt_name = ''Guest'', pt_email = ''g@example.org'',
     pt_status = PS_Waiting, pt_token_hash = '''', pt_token_digest = '''', pt_token_expires_at = None,
     pt_joined_at = None, pt_age = None, pt_gender = JNull, pt_want_to_date = JNull, pt_whatsapp = JNull,
     pt_tags = []\<rparr>"

definition lone_event :: event_row where
  "lone_event = \<lparr>ev_id = UUID 7, ev_name = ''Demo'', ev_description = '''', ev_status = ES_Running,
     ev_num_rounds = 2, ev_round_duration = 300, ev_break_duration = 10, ev_start_time = 1000,
     ev_scoring_weights = JNull, ev_unique_tags = False\<rparr>"

definition lone_db :: db where
  "lone_db = empty_db\<lparr>db_events := [lone_event], db_participants := [lone_participant]\<rparr>"

lemma lone_db_simps [simp]:
  "distinct (map pt_id (db_participants lone_db))" "lone_participant \<in> set (db_participants lone_db)"
  "digest_free lone_db (UUID 3) raw" "1 \<le> ev_num_rounds lone_event"
  "find_participant lone_db (UUID 3) = Some lone_participant" "pt_id lone_participant = UUID 3"
  by (simp_all add: lone_db_def lone_participant_def lone_event_def digest_free_def find_participant_def)

lemma lone_issue: "\<exists>raw q d'. issue_join_token mk urlsafe ev p d = Some (raw, q, d')"
  by (simp add: issue_join_token_def set_join_token_def Let_def token_prefix_def)

lemma issued_token_lifetime_witness:
  "\<exists>raw q d'. issue_join_token (\<lambda>r. r) ''abc'' lone_event lone_participant lone_db = Some (raw, q, d') \<and>
     authenticate_join_token (=) raw 1610 d' = Inl ExpiredJoinToken \<and>
     (\<exists>a d''. authenticate_join_token (=) raw 1609 d' = Inr (a, d'') \<and> pt_id a = UUID 3)"
proof -
  obtain raw q d' where issue: "issue_join_token (\<lambda>r. r) ''abc'' lone_event lone_participant lone_db = Some (raw, q, d')"
    using lone_issue by blast
  have "sc_ends_at (last (calculate_full_schedule lone_event None 20)) = 1610"
    using event_end_timetable[of lone_event 20] by (simp add: event_end_of_def lone_event_def)
  then show ?thesis
    using issued_token_lifetime[where check = "(=)" and now = 1610 and pre = 20, OF _ lone_db_simps(1,2,4) issue]
      issued_token_lifetime[where check = "(=)" and now = 1609 and pre = 20, OF _ lone_db_simps(1,2,4) issue] issue by auto
qed

lemma rotated_token_refused_witness:
  "\<exists>raw q d' raw' q' d''. issue_join_token (\<lambda>r. r) ''abc'' lone_event lone_participant lone_db = Some (raw, q, d') \<and>
     issue_join_token (\<lambda>r. r) ''def'' lone_event q d' = Some (raw', q', d'') \<and>
     authenticate_join_token (=) raw 1000 d'' = Inl InvalidJoinToken"
proof -
  obtain raw q d' where old: "issue_join_token (\<lambda>r. r) ''abc'' lone_event lone_participant lone_db = Some (raw, q, d')"
    using lone_issue by blast
  moreover obtain raw' q' d'' where "issue_join_token (\<lambda>r. r) ''def'' lone_event q d' = Some (raw', q', d'')"
    using lone_issue by blast
  ultimately show ?thesis
    using rotated_token_refused[where check = "(=)" and now = 1000, OF _ lone_db_simps(1,2) old] by auto
qed

lemma latest_session_only_witness:
  "resolve_participant_from_session True 6 \<lparr>ws_key = Some ''old'', ws_participant = Some (uuid_str (UUID 3))\<rparr>
     (snd (establish_participant_session True 5 ''new'' lone_participant Map.empty)) lone_db = Nobody"
  using latest_session_only[of lone_db lone_participant 5 "''new''" Map.empty
      "fst (establish_participant_session True 5 ''new'' lone_participant Map.empty)"
      "snd (establish_participant_session True 5 ''new'' lone_participant Map.empty)" 6
      "\<lparr>ws_key = Some ''old'', ws_participant = Some (uuid_str (UUID 3))\<rparr>"] by simp

end
