(* ===== verification/Consumer.thy ===== *)
theory Consumer
  imports Auth
begin

text \<open>
  The WebSocket consumer of \<open>apps/events/consumers.py\<close>: connecting, the handshake, the guards on
  incoming messages, WebRTC signalling, the exclusive connection of a participant, and the watch
  that tells the partner of a long absence.

  The world holds what the consumers share: the database, the cache, the members of the channel
  layer's groups, the messages the layer has yet to hand to a channel, the frames each socket was
  sent, and the absence watches of the process. A handler is a function on the world that also says
  whether it returned or raised. The clocks it reads, whether the cache answers and the channel layer
  are its environment. Sending a frame to a socket and joining or leaving a group do not fail here;
  \<open>group_send\<close> fails for the groups the layer says.
\<close>

section \<open>Python's \<open>str\<close> of a parsed value\<close>

text \<open>\<open>fr\<close> is \<open>repr\<close> of a float.\<close>

definition comma_join :: "string list \<Rightarrow> string" where
  "comma_join xs = concat (map (\<lambda>(i, x). (if i = 0 then [] else '', '') @ x) (enumerate 0 xs))"

fun py_value_repr :: "(pyfloat \<Rightarrow> string) \<Rightarrow> json \<Rightarrow> string" where
  "py_value_repr fr JNull = ''None''"
| "py_value_repr fr (JBool b) = (if b then ''True'' else ''False'')"
| "py_value_repr fr (JInt i) = show_int i"
| "py_value_repr fr (JFloat x) = fr x"
| "py_value_repr fr (JStr s) = py_repr s"
| "py_value_repr fr (JList xs) = ''['' @ comma_join (map (py_value_repr fr) xs) @ '']''"
| "py_value_repr fr (JObj kvs) = ''{'' @ comma_join (map (\<lambda>(k, v). py_repr k @ '': '' @ py_value_repr fr v) kvs) @ ''}''"

definition py_value_str :: "(pyfloat \<Rightarrow> string) \<Rightarrow> json \<Rightarrow> string" where
  "py_value_str fr v = (case v of JStr s \<Rightarrow> s | _ \<Rightarrow> py_value_repr fr v)"

section \<open>State\<close>

record settings =
  st_max_bytes :: nat
  st_rate_limit :: nat
  st_heartbeat_timeout :: int
  st_reconnect_window :: int
  st_session_age :: int
  st_float_repr :: "pyfloat \<Rightarrow> string"

text \<open>The defaults the source gives to \<open>getattr\<close>.\<close>

definition default_settings :: "(pyfloat \<Rightarrow> string) \<Rightarrow> settings" where
  "default_settings fr = \<lparr>st_max_bytes = 64 * 1024, st_rate_limit = 60, st_heartbeat_timeout = 90,
     st_reconnect_window = 300, st_session_age = 60 * 60 * 24 * 30, st_float_repr = fr\<rparr>"

text \<open>Wall clock and monotonic clock in microseconds, \<open>time_ns\<close>, the cache and the channel layer.\<close>

record env =
  en_now :: int
  en_mono :: int
  en_ns :: int
  en_cache_up :: bool
  en_layer :: channel_layer

datatype layer_message =
    OrchestratorMessage json
  | WebrtcRelay json
  | SessionReplaced
  | OperatorAction string json
  | RoundPreconnect json
  | RoundStartNotice json

datatype frame = Sent json | Closed int

text \<open>The attributes of one consumer; \<open>None\<close> as a telemetry cause is \<open>JNull\<close>.\<close>

record conn =
  cn_participant :: "participant_row option"
  cn_authenticated :: bool
  cn_handshake :: bool
  cn_last_activity :: int
  cn_rate :: "int list"
  cn_heartbeat :: bool
  cn_replaced :: bool
  cn_cause :: json
  cn_detail :: string
  cn_joined :: bool

record absence_watch =
  aw_participant :: participant_row
  aw_generation :: int
  aw_done :: bool

record world =
  wd_db :: db
  wd_cache :: cache
  wd_conns :: "string \<rightharpoonup> conn"
  wd_groups :: "string \<Rightarrow> string list"
  wd_inbox :: "(string \<times> layer_message) list"
  wd_wire :: "(string \<times> frame) list"
  wd_watches :: "uuid \<rightharpoonup> absence_watch"

text \<open>A handler, its sequencing and \<open>try: .. except Exception: log\<close>.\<close>

type_synonym act = "world \<Rightarrow> bool \<times> world"

definition skip :: act where
  "skip w = (True, w)"

definition raise :: act where
  "raise w = (False, w)"

definition andthen :: "act \<Rightarrow> act \<Rightarrow> act" where
  "andthen a b w = (case a w of (ok, w') \<Rightarrow> if ok then b w' else (False, w'))"

definition caught :: "act \<Rightarrow> act" where
  "caught a w = (True, snd (a w))"

definition update :: "(world \<Rightarrow> world) \<Rightarrow> act" where
  "update f w = (True, f w)"

definition new_conn :: "int \<Rightarrow> conn" where
  "new_conn clk = \<lparr>cn_participant = None, cn_authenticated = False, cn_handshake = False, cn_last_activity = clk,
     cn_rate = [], cn_heartbeat = False, cn_replaced = False, cn_cause = JNull, cn_detail = '''', cn_joined = False\<rparr>"

definition set_conn :: "string \<Rightarrow> (conn \<Rightarrow> conn) \<Rightarrow> world \<Rightarrow> world" where
  "set_conn ch f w = w\<lparr>wd_conns := (wd_conns w)(ch := map_option f (wd_conns w ch))\<rparr>"

text \<open>What a handler does with its own consumer; a channel without one does nothing.\<close>

definition with_conn :: "string \<Rightarrow> (conn \<Rightarrow> act) \<Rightarrow> act" where
  "with_conn ch f w = (case wd_conns w ch of None \<Rightarrow> (True, w) | Some c \<Rightarrow> f c w)"

definition with_participant :: "string \<Rightarrow> (conn \<Rightarrow> participant_row \<Rightarrow> act) \<Rightarrow> act" where
  "with_participant ch f = with_conn ch (\<lambda>c. case cn_participant c of None \<Rightarrow> skip | Some p \<Rightarrow> f c p)"

section \<open>Frames\<close>

definition emit :: "string \<Rightarrow> frame \<Rightarrow> act" where
  "emit ch f = update (\<lambda>w. w\<lparr>wd_wire := wd_wire w @ [(ch, f)]\<rparr>)"

definition send_built :: "string \<Rightarrow> protocol_error + json \<Rightarrow> act" where
  "send_built ch built = (case built of Inl _ \<Rightarrow> raise | Inr m \<Rightarrow> emit ch (Sent m))"

definition send_error :: "string \<Rightarrow> error_code \<Rightarrow> string \<Rightarrow> string option \<Rightarrow> act" where
  "send_error ch code message original_type = send_built ch (build_server_error (code_value code) message original_type None)"

definition close_internal_error :: int where
  "close_internal_error = 4004"

definition close_socket :: "string \<Rightarrow> int \<Rightarrow> act" where
  "close_socket ch code = emit ch (Closed code)"

definition fatal_message :: "error_code \<Rightarrow> string option" where
  "fatal_message code = (case code of
     ErrNotAuthenticated \<Rightarrow> Some ''Authentication is required.''
   | ErrRateLimited \<Rightarrow> Some ''Too many messages; connection closed.''
   | ErrInternal \<Rightarrow> Some ''An internal server error occurred.''
   | _ \<Rightarrow> None)"

definition fatal :: "string \<Rightarrow> error_code \<Rightarrow> act" where
  "fatal ch code =
     (case fatal_message code of
        None \<Rightarrow> raise
      | Some m \<Rightarrow> andthen (send_error ch code m None)
          (close_socket ch (case error_close_code code of Some k \<Rightarrow> k | None \<Rightarrow> close_internal_error)))"

section \<open>The channel layer\<close>

definition group_add :: "string \<Rightarrow> string \<Rightarrow> world \<Rightarrow> world" where
  "group_add g ch w = w\<lparr>wd_groups := (wd_groups w)(g := (if ch \<in> set (wd_groups w g) then wd_groups w g else wd_groups w g @ [ch]))\<rparr>"

definition group_discard :: "string \<Rightarrow> string \<Rightarrow> world \<Rightarrow> world" where
  "group_discard g ch w = w\<lparr>wd_groups := (wd_groups w)(g := filter (\<lambda>x. x \<noteq> ch) (wd_groups w g))\<rparr>"

definition fan_out :: "string \<Rightarrow> layer_message \<Rightarrow> world \<Rightarrow> world" where
  "fan_out g m w = w\<lparr>wd_inbox := wd_inbox w @ map (\<lambda>ch. (ch, m)) (wd_groups w g)\<rparr>"

definition group_send :: "channel_layer \<Rightarrow> string \<Rightarrow> layer_message \<Rightarrow> act" where
  "group_send layer g m = (case layer of None \<Rightarrow> skip | Some up \<Rightarrow> if up g then update (fan_out g m) else raise)"

text \<open>What the orchestrator published, handed to the members of the groups.\<close>

definition publish_out :: "outbox \<Rightarrow> world \<Rightarrow> world" where
  "publish_out out w = fold (\<lambda>(g, m). fan_out g (OrchestratorMessage m)) out w"

section \<open>Connecting\<close>

definition connect :: "env \<Rightarrow> string \<Rightarrow> web_session option \<Rightarrow> act" where
  "connect en ch session w =
     (let w0 = w\<lparr>wd_conns := (wd_conns w)(ch \<mapsto> new_conn (en_mono en))\<rparr> in
      case resolve_participant_from_scope (en_cache_up en) (en_now en) session (wd_cache w) (wd_db w) of
        ResolveRaised \<Rightarrow> fatal ch ErrInternal w0
      | Nobody \<Rightarrow> fatal ch ErrNotAuthenticated w0
      | Resolved p \<Rightarrow>
          (True, set_conn ch (\<lambda>c. c\<lparr>cn_participant := Some p, cn_authenticated := True, cn_heartbeat := True\<rparr>) w0))"


section \<open>The exclusive connection and presence\<close>

text \<open>The truth value of what \<open>cache.get\<close> returned.\<close>

definition cache_truthy :: "cache_value option \<Rightarrow> bool" where
  "cache_truthy v = (case v of None \<Rightarrow> False | Some CTrue \<Rightarrow> True | Some (CText s) \<Rightarrow> s \<noteq> [] | Some (CNumber n) \<Rightarrow> n \<noteq> 0)"

definition hello_seen_key :: "uuid \<Rightarrow> string" where
  "hello_seen_key p = ''ws:hello-seen:'' @ uuid_str p"

definition set_cache :: "(cache \<Rightarrow> cache) \<Rightarrow> world \<Rightarrow> world" where
  "set_cache f w = w\<lparr>wd_cache := f (wd_cache w)\<rparr>"

definition claim_exclusive_connection :: "settings \<Rightarrow> env \<Rightarrow> string \<Rightarrow> act" where
  "claim_exclusive_connection cfg en ch = with_participant ch (\<lambda>c p w.
     if \<not> en_cache_up en then (True, w)
     else
       (let key = connection_channel_key (pt_id p);
            previous = cache_get (wd_cache w) (en_now en) key;
            w1 = set_cache (cache_set key (CText ch) (st_session_age cfg) (en_now en)) w
        in case previous of
             Some (CText other) \<Rightarrow>
               if other \<noteq> [] \<and> other \<noteq> ch \<and> en_layer en \<noteq> None
               then (True, w1\<lparr>wd_inbox := wd_inbox w1 @ [(other, SessionReplaced)]\<rparr>) else (True, w1)
           | _ \<Rightarrow> (True, w1)))"

definition clear_absence_watch :: "env \<Rightarrow> string \<Rightarrow> act" where
  "clear_absence_watch en ch = with_participant ch (\<lambda>c p. update (\<lambda>w.
     (if en_cache_up en then set_cache (cache_delete (absence_generation_key (pt_id p))) w else w)
       \<lparr>wd_watches := (wd_watches w)(pt_id p := None)\<rparr>))"

text \<open>\<open>save(update_fields=("status", ..))\<close>: the object's status goes to its row, which must exist.\<close>

definition save_status :: "string \<Rightarrow> participant_status \<Rightarrow> act" where
  "save_status ch s = with_participant ch (\<lambda>c p w.
     (let w1 = set_conn ch (\<lambda>c. c\<lparr>cn_participant := Some (p\<lparr>pt_status := s\<rparr>)\<rparr>) w in
      if find_participant (wd_db w) (pt_id p) = None then (False, w1)
      else (True, w1\<lparr>wd_db := update_participant (pt_id p) (\<lambda>row. row\<lparr>pt_status := s\<rparr>) (wd_db w1)\<rparr>)))"

definition close_open_logs :: "uuid \<Rightarrow> int \<Rightarrow> db \<Rightarrow> db" where
  "close_open_logs i now d = d\<lparr>db_disconnections := map (\<lambda>l.
     if dl_participant l = i \<and> dl_reconnected_at l = None then l\<lparr>dl_reconnected_at := Some now\<rparr> else l) (db_disconnections d)\<rparr>"

definition mark_reconnected :: "env \<Rightarrow> string \<Rightarrow> act" where
  "mark_reconnected en ch = with_participant ch (\<lambda>c p.
     andthen (update (\<lambda>w. w\<lparr>wd_db := close_open_logs (pt_id p) (en_now en) (wd_db w)\<rparr>))
       (if pt_status p \<noteq> PS_Active then save_status ch PS_Active else skip))"

definition notify_partner_presence :: "env \<Rightarrow> participant_row \<Rightarrow> string \<Rightarrow> act" where
  "notify_partner_presence en p state = caught (\<lambda>w.
     case anotify_partner_presence (en_layer en) (pt_event p) (pt_id p) state (en_now en) (wd_db w) of
       (Inl err, out) \<Rightarrow> (False, publish_out out w)
     | (Inr n, out) \<Rightarrow> (True, publish_out out w))"

definition maybe_send_reconnect_snapshot :: "(uuid \<Rightarrow> string) \<Rightarrow> settings \<Rightarrow> env \<Rightarrow> string \<Rightarrow> act" where
  "maybe_send_reconnect_snapshot tag_name cfg en ch = with_participant ch (\<lambda>c p w.
     if \<not> en_cache_up en then (True, w)
     else
       (let key = hello_seen_key (pt_id p);
            seen = cache_get (wd_cache w) (en_now en) key;
            w1 = set_cache (cache_set key CTrue (st_reconnect_window cfg) (en_now en)) w
        in if \<not> cache_truthy seen then (True, w1)
           else case reconnect_snapshot_messages tag_name (pt_event p) (pt_id p) (en_now en) (wd_db w1) of
               Inl _ \<Rightarrow> (True, w1)
             | Inr ms \<Rightarrow> (True, w1\<lparr>wd_wire := wd_wire w1 @ map (\<lambda>m. (ch, Sent m)) ms\<rparr>)))"

section \<open>The handshake\<close>

definition payload_int :: "pydict \<Rightarrow> string \<Rightarrow> int option" where
  "payload_int p f = (case dict_get p f of Some (JInt i) \<Rightarrow> Some i | _ \<Rightarrow> None)"

definition payload_str :: "pydict \<Rightarrow> string \<Rightarrow> string option" where
  "payload_str p f = (case dict_get p f of Some (JStr s) \<Rightarrow> Some s | _ \<Rightarrow> None)"

definition timestamp_ms :: "env \<Rightarrow> int" where
  "timestamp_ms en = datetime_to_unix_ms (en_now en)"

definition join_groups :: "env \<Rightarrow> string \<Rightarrow> participant_row \<Rightarrow> world \<Rightarrow> world" where
  "join_groups en ch p w = (if en_layer en = None then w
     else group_add (event_channel_group (pt_event p)) ch
       (group_add (participant_channel_group (pt_id p)) ch (set_conn ch (\<lambda>c. c\<lparr>cn_joined := True\<rparr>) w)))"

definition complete_handshake :: "(uuid \<Rightarrow> string) \<Rightarrow> settings \<Rightarrow> env \<Rightarrow> string \<Rightarrow> pydict \<Rightarrow> act" where
  "complete_handshake tag_name cfg en ch payload = with_conn ch (\<lambda>c.
     case cn_participant c of
       None \<Rightarrow> fatal ch ErrNotAuthenticated
     | Some p \<Rightarrow>
         if \<not> cn_authenticated c then fatal ch ErrNotAuthenticated
         else
           andthen (update (\<lambda>w. join_groups en ch p (set_conn ch (\<lambda>c. c\<lparr>cn_handshake := True\<rparr>) w)))
          (andthen (case payload_int payload ''client_ts'' of
               None \<Rightarrow> raise
             | Some ts \<Rightarrow> send_built ch (build_server_hello (uuid_str (pt_id p)) (timestamp_ms en) ts (uuid_str (pt_event p)) None None))
          (andthen (claim_exclusive_connection cfg en ch)
          (andthen (clear_absence_watch en ch)
          (andthen (mark_reconnected en ch)
          (andthen (notify_partner_presence en p ''connected'')
             (maybe_send_reconnect_snapshot tag_name cfg en ch)))))))"

section \<open>WebRTC signalling\<close>

definition resolve_partner :: "db \<Rightarrow> uuid \<Rightarrow> string \<Rightarrow> uuid option" where
  "resolve_partner d i room =
     (if room = [] then None
      else map_option (\<lambda>p. partner_on_pair p i) (first_by_pk (filter (on_pair i) (filter (\<lambda>p. pr_room_id p = room) (db_pairs d)))))"

definition outbound_signal :: "message_type \<Rightarrow> string \<Rightarrow> string \<Rightarrow> pydict \<Rightarrow> (protocol_error + json) option" where
  "outbound_signal t room from_id payload =
     (case t of
        ClientWebrtcOffer \<Rightarrow> map_option (build_server_webrtc_offer room from_id) (payload_str payload ''sdp'')
      | ClientWebrtcAnswer \<Rightarrow> map_option (build_server_webrtc_answer room from_id) (payload_str payload ''sdp'')
      | ClientWebrtcIce \<Rightarrow>
          (case (payload_str payload ''candidate'', payload_str payload ''sdp_mid'', payload_int payload ''sdp_mline_index'') of
             (Some cand, Some mid, Some i) \<Rightarrow> Some (build_server_ice_candidate room from_id cand mid i)
           | _ \<Rightarrow> None)
      | _ \<Rightarrow> None)"

definition handle_webrtc_signal :: "env \<Rightarrow> string \<Rightarrow> message_type \<Rightarrow> pydict \<Rightarrow> act" where
  "handle_webrtc_signal en ch t payload = with_participant ch (\<lambda>c p w.
     case payload_str payload ''room_id'' of
       None \<Rightarrow> (False, w)
     | Some room \<Rightarrow>
         (case resolve_partner (wd_db w) (pt_id p) room of
            None \<Rightarrow> send_error ch ErrWrongRoom (''Participant is not assigned to room '' @ room @ ''.'') (Some (type_value t)) w
          | Some partner \<Rightarrow>
              (case outbound_signal t room (uuid_str (pt_id p)) payload of
                 Some (Inr m) \<Rightarrow> group_send (en_layer en) (participant_channel_group partner) (WebrtcRelay m) w
               | _ \<Rightarrow> (False, w))))"

section \<open>Incoming messages\<close>

definition handle_message :: "(uuid \<Rightarrow> string) \<Rightarrow> settings \<Rightarrow> env \<Rightarrow> string \<Rightarrow> message_type \<Rightarrow> pydict \<Rightarrow> act" where
  "handle_message tag_name cfg en ch t payload = with_conn ch (\<lambda>c.
     if \<not> cn_authenticated c \<or> cn_participant c = None then fatal ch ErrNotAuthenticated
     else if \<not> cn_handshake c
     then (if t \<noteq> ClientHello
           then send_error ch ErrInvalidState ''client.hello is required before other messages.'' (Some (type_value t))
           else complete_handshake tag_name cfg en ch payload)
     else (case t of
         ClientPing \<Rightarrow> (case payload_int payload ''client_ts'' of None \<Rightarrow> raise
           | Some ts \<Rightarrow> send_built ch (build_server_pong ts (timestamp_ms en)))
       | ClientClockSync \<Rightarrow> (case payload_int payload ''client_ts'' of None \<Rightarrow> raise
           | Some ts \<Rightarrow> send_built ch (build_server_clock_sync ts (timestamp_ms en)))
       | ClientHello \<Rightarrow> send_error ch ErrInvalidState ''client.hello has already been accepted.'' (Some (type_value t))
       | ClientReady \<Rightarrow> skip
       | ClientWebrtcOffer \<Rightarrow> handle_webrtc_signal en ch t payload
       | ClientWebrtcAnswer \<Rightarrow> handle_webrtc_signal en ch t payload
       | ClientWebrtcIce \<Rightarrow> handle_webrtc_signal en ch t payload
       | _ \<Rightarrow> send_error ch ErrInvalidState ''This message is not available until pairing is implemented.'' (Some (type_value t))))"

text \<open>The sliding window of a minute.\<close>

definition within_rate_limit :: "nat \<Rightarrow> int \<Rightarrow> int list \<Rightarrow> bool \<times> int list" where
  "within_rate_limit limit now stamps =
     (let recent = dropWhile (\<lambda>t. t \<le> now - 60000000) stamps
      in if limit \<le> length recent then (False, recent) else (True, recent @ [now]))"

text \<open>Cause and detail of a telemetry message, which is read before any other check.\<close>

definition telemetry_of :: "settings \<Rightarrow> raw_message \<Rightarrow> (json \<times> string) option" where
  "telemetry_of cfg raw =
     (case raw of
        Parsed (JObj data) \<Rightarrow>
          if dict_get data ''type'' = Some (JStr ''client.telemetry'')
          then (case (case dict_get data ''payload'' of None \<Rightarrow> JObj [] | Some v \<Rightarrow> v) of
                  JObj payload \<Rightarrow> Some ((case dict_get payload ''cause'' of None \<Rightarrow> JNull | Some v \<Rightarrow> v),
                    py_value_str (st_float_repr cfg) (case dict_get payload ''detail'' of None \<Rightarrow> JStr '''' | Some v \<Rightarrow> v))
                | _ \<Rightarrow> None)
          else None
      | _ \<Rightarrow> None)"

text \<open>\<open>raw\<close> is the parsed text and its size in bytes; a frame without data is \<open>None\<close>.\<close>

definition receive :: "(uuid \<Rightarrow> string) \<Rightarrow> settings \<Rightarrow> env \<Rightarrow> string \<Rightarrow> (raw_message \<times> nat) option \<Rightarrow> act" where
  "receive tag_name cfg en ch raw = with_conn ch (\<lambda>c0 w0.
     let w = set_conn ch (\<lambda>c. c\<lparr>cn_last_activity := en_mono en\<rparr>) w0 in
     case raw of
       None \<Rightarrow> (True, w)
     | Some (msg, nbytes) \<Rightarrow>
         (case telemetry_of cfg msg of
            Some (cause, detail) \<Rightarrow> (True, set_conn ch (\<lambda>c. c\<lparr>cn_cause := cause, cn_detail := detail\<rparr>) w)
          | None \<Rightarrow>
              if st_max_bytes cfg < nbytes
              then andthen (send_error ch ErrInvalidMessage ''Message exceeds the maximum allowed size.'' None)
                (close_socket ch 1009) w
              else
                (case within_rate_limit (st_rate_limit cfg) (en_mono en) (cn_rate c0) of
                   (ok, stamps) \<Rightarrow>
                     (let w1 = set_conn ch (\<lambda>c. c\<lparr>cn_rate := stamps\<rparr>) w in
                      if \<not> ok then fatal ch ErrRateLimited w1
                      else
                        (case validate_message msg of
                           Inl exc \<Rightarrow>
                             andthen (send_built ch (error_from_protocol_error exc))
                               (case error_close_code (pe_code exc) of None \<Rightarrow> skip | Some k \<Rightarrow> close_socket ch k) w1
                         | Inr (t, payload) \<Rightarrow>
                             (case handle_message tag_name cfg en ch t payload w1 of
                                (True, w2) \<Rightarrow> (True, w2)
                              | (False, w2) \<Rightarrow> fatal ch ErrInternal w2))))))"

section \<open>Disconnecting\<close>

definition hashable :: "json \<Rightarrow> bool" where
  "hashable v = (case v of JList _ \<Rightarrow> False | JObj _ \<Rightarrow> False | _ \<Rightarrow> True)"

definition cause_of :: "json \<Rightarrow> disconnection_cause" where
  "cause_of v = (if v = JStr ''tab_closed'' then DC_TabClosed
     else if v = JStr ''permission_denied'' then DC_PermissionDenied else DC_Network)"

definition round_at :: "uuid \<Rightarrow> int \<Rightarrow> db \<Rightarrow> round_row option" where
  "round_at e now d = (let rs = filter (\<lambda>r. rd_starts_at r \<le> now \<and> now \<le> rd_ends_at r) (event_rounds d e)
     in if rs = [] then None else Some (min_by rd_number rs))"

text \<open>An unhashable cause raises at the lookup of the valid causes, a missing row at the insert.\<close>

definition record_disconnection :: "env \<Rightarrow> string \<Rightarrow> json \<Rightarrow> string \<Rightarrow> act" where
  "record_disconnection en ch cause detail = with_participant ch (\<lambda>c p w.
     if \<not> hashable cause \<or> find_participant (wd_db w) (pt_id p) = None then (False, w)
     else
       (let row = \<lparr>dl_event = pt_event p, dl_participant = pt_id p,
                   dl_round = map_option rd_id (round_at (pt_event p) (en_now en) (wd_db w)), dl_cause = cause_of cause,
                   dl_detail = detail, dl_disconnected_at = en_now en, dl_reconnected_at = None\<rparr>
        in save_status ch PS_Disconnected
             (w\<lparr>wd_db := (wd_db w)\<lparr>db_disconnections := db_disconnections (wd_db w) @ [row]\<rparr>\<rparr>)))"

definition begin_absence_watch :: "settings \<Rightarrow> env \<Rightarrow> string \<Rightarrow> act" where
  "begin_absence_watch cfg en ch = with_participant ch (\<lambda>c p w.
     case current_pair_for_participant (pt_event p) (pt_id p) (en_now en) (wd_db w) of
       None \<Rightarrow> (True, w)
     | Some _ \<Rightarrow>
         if \<not> en_cache_up en then (True, w)
         else (True, (set_cache (cache_set (absence_generation_key (pt_id p)) (CNumber (en_ns en)) (st_reconnect_window cfg) (en_now en)) w)
           \<lparr>wd_watches := (wd_watches w)(pt_id p \<mapsto> \<lparr>aw_participant = p, aw_generation = en_ns en, aw_done = False\<rparr>)\<rparr>))"

definition on_live_socket_closed :: "settings \<Rightarrow> env \<Rightarrow> string \<Rightarrow> act" where
  "on_live_socket_closed cfg en ch = with_participant ch (\<lambda>c p w.
     if \<not> cn_handshake c \<or> cn_replaced c \<or> \<not> en_cache_up en then (True, w)
     else if cache_get (wd_cache w) (en_now en) (connection_channel_key (pt_id p)) \<noteq> Some (CText ch) then (True, w)
     else begin_absence_watch cfg en ch (set_cache (cache_delete (connection_channel_key (pt_id p))) w))"

definition leave_groups :: "env \<Rightarrow> string \<Rightarrow> conn \<Rightarrow> world \<Rightarrow> world" where
  "leave_groups en ch c w =
     (case cn_participant c of
        None \<Rightarrow> w
      | Some p \<Rightarrow> if en_layer en = None \<or> \<not> cn_joined c then w
          else group_discard (event_channel_group (pt_event p)) ch
            (group_discard (participant_channel_group (pt_id p)) ch w))"

text \<open>The consumer is gone after its disconnect handler.\<close>

definition disconnect :: "settings \<Rightarrow> env \<Rightarrow> string \<Rightarrow> int \<Rightarrow> act" where
  "disconnect cfg en ch close_code = with_conn ch (\<lambda>c.
     andthen (update (\<lambda>w. leave_groups en ch c (set_conn ch (\<lambda>c. c\<lparr>cn_heartbeat := False\<rparr>) w)))
    (andthen
       (if cn_participant c \<noteq> None \<and> cn_handshake c \<and> \<not> cn_replaced c
        then caught (record_disconnection en ch
          (if truthy (cn_cause c) then cn_cause c
           else if close_code = 1001 then JStr ''tab_closed'' else JStr ''network'') (cn_detail c))
        else skip)
    (andthen (on_live_socket_closed cfg en ch)
       (update (\<lambda>w. w\<lparr>wd_conns := (wd_conns w)(ch := None)\<rparr>)))))"

section \<open>The other events of a consumer\<close>

definition session_replaced :: "string \<Rightarrow> act" where
  "session_replaced ch = with_conn ch (\<lambda>c.
     if cn_replaced c then skip
     else andthen (update (set_conn ch (\<lambda>c. c\<lparr>cn_replaced := True\<rparr>)))
       (andthen (caught (send_error ch ErrAlreadyConnected
           ''You joined from another window. This session is no longer active.'' None))
         (close_socket ch (case error_close_code ErrAlreadyConnected of Some k \<Rightarrow> k | None \<Rightarrow> 4001))))"

definition handle_layer_message :: "string \<Rightarrow> layer_message \<Rightarrow> act" where
  "handle_layer_message ch m = with_conn ch (\<lambda>c.
     case m of
       OrchestratorMessage msg \<Rightarrow> if truthy msg then emit ch (Sent msg) else skip
     | WebrtcRelay msg \<Rightarrow> emit ch (Sent msg)
     | SessionReplaced \<Rightarrow> session_replaced ch
     | OperatorAction action payload \<Rightarrow>
         emit ch (Sent (JObj [(''type'', JStr (''operator.'' @ (if action = [] then ''action'' else action))), (''payload'', payload)]))
     | RoundPreconnect payload \<Rightarrow> emit ch (Sent (JObj [(''type'', JStr ''round.preconnect''), (''payload'', payload)]))
     | RoundStartNotice payload \<Rightarrow> emit ch (Sent (JObj [(''type'', JStr ''round.start''), (''payload'', payload)])))"

text \<open>The channel layer hands a channel its oldest message.\<close>

fun take_for :: "string \<Rightarrow> (string \<times> layer_message) list \<Rightarrow> (layer_message \<times> (string \<times> layer_message) list) option" where
  "take_for ch [] = None"
| "take_for ch ((x, m) # ms) = (if x = ch then Some (m, ms) else map_option (\<lambda>(m', ms'). (m', (x, m) # ms')) (take_for ch ms))"

definition deliver :: "string \<Rightarrow> act" where
  "deliver ch w = (case take_for ch (wd_inbox w) of
     None \<Rightarrow> (True, w) | Some (m, rest) \<Rightarrow> handle_layer_message ch m (w\<lparr>wd_inbox := rest\<rparr>))"

definition heartbeat :: "settings \<Rightarrow> env \<Rightarrow> string \<Rightarrow> act" where
  "heartbeat cfg en ch = with_conn ch (\<lambda>c.
     if cn_heartbeat c \<and> st_heartbeat_timeout cfg * 1000000 < en_mono en - cn_last_activity c
     then andthen (close_socket ch 1000) (update (set_conn ch (\<lambda>c. c\<lparr>cn_heartbeat := False\<rparr>))) else skip)"

text \<open>The grace period of a watch is over.\<close>

definition watch_partner_absence :: "env \<Rightarrow> uuid \<Rightarrow> act" where
  "watch_partner_absence en i w =
     (case wd_watches w i of
        None \<Rightarrow> (True, w)
      | Some a \<Rightarrow>
          if aw_done a then (True, w)
          else
            (let w1 = w\<lparr>wd_watches := (wd_watches w)(i \<mapsto> a\<lparr>aw_done := True\<rparr>)\<rparr> in
             if \<not> en_cache_up en then (True, w1)
             else if cache_get (wd_cache w) (en_now en) (absence_generation_key (pt_id (aw_participant a))) \<noteq> Some (CNumber (aw_generation a))
             then (True, w1)
             else notify_partner_presence en (aw_participant a) ''disconnected'' w1))"

end
