(* ===== verification/Consumer_Safety.thy ===== *)
theory Consumer_Safety
  imports Consumer
begin

text \<open>
  What the handlers of the consumer leave alone, the invariant of its sockets and groups, and its
  preservation by every step of the server.
\<close>

named_theorems keeps_rules \<open>handlers that keep a part of the world\<close>
named_theorems guard_rules \<open>handlers that keep the socket invariant\<close>

section \<open>What a handler keeps\<close>

definition keeps :: "(world \<Rightarrow> 'a) \<Rightarrow> act \<Rightarrow> bool" where
  "keeps f a \<longleftrightarrow> (\<forall>w. f (snd (a w)) = f w)"

lemma keepsD: "keeps f a \<Longrightarrow> f (snd (a w)) = f w"
  by (simp add: keeps_def)

lemma keeps_basic [keeps_rules]: "keeps f skip" "keeps f raise"
  by (simp_all add: keeps_def skip_def raise_def)

lemma keeps_andthen [keeps_rules]: "keeps f a \<Longrightarrow> keeps f b \<Longrightarrow> keeps f (andthen a b)"
  by (auto simp: keeps_def andthen_def split: prod.split) (metis snd_conv)+

lemma keeps_caught [keeps_rules]: "keeps f a \<Longrightarrow> keeps f (caught a)"
  by (simp add: keeps_def caught_def)

lemma keeps_update [keeps_rules]: "(\<And>w. f (g w) = f w) \<Longrightarrow> keeps f (update g)"
  by (simp add: keeps_def update_def)

lemma keeps_with_conn [keeps_rules]: "(\<And>c. keeps f (g c)) \<Longrightarrow> keeps f (with_conn ch g)"
  by (simp add: keeps_def with_conn_def split: option.split)

lemma keeps_with_participant [keeps_rules]: "(\<And>c p. keeps f (g c p)) \<Longrightarrow> keeps f (with_participant ch g)"
  unfolding with_participant_def by (rule keeps_with_conn) (simp add: keeps_basic split: option.split)

lemma keeps_if [keeps_rules]: "(b \<Longrightarrow> keeps f x) \<Longrightarrow> (\<not> b \<Longrightarrow> keeps f y) \<Longrightarrow> keeps f (if b then x else y)"
  by simp

lemma set_conn_sel [simp]:
  "wd_db (set_conn ch f w) = wd_db w" "wd_cache (set_conn ch f w) = wd_cache w" "wd_groups (set_conn ch f w) = wd_groups w"
  "wd_inbox (set_conn ch f w) = wd_inbox w" "wd_wire (set_conn ch f w) = wd_wire w" "wd_watches (set_conn ch f w) = wd_watches w"
  "wd_conns (set_conn ch f w) x = (if x = ch then map_option f (wd_conns w ch) else wd_conns w x)"
  by (simp_all add: set_conn_def)

lemma set_cache_sel [simp]:
  "wd_db (set_cache f w) = wd_db w" "wd_cache (set_cache f w) = f (wd_cache w)" "wd_groups (set_cache f w) = wd_groups w"
  "wd_inbox (set_cache f w) = wd_inbox w" "wd_wire (set_cache f w) = wd_wire w" "wd_watches (set_cache f w) = wd_watches w"
  "wd_conns (set_cache f w) = wd_conns w"
  by (simp_all add: set_cache_def)

text \<open>Everything but the frames sent.\<close>

definition but_wire :: "world \<Rightarrow> world" where
  "but_wire w = w\<lparr>wd_wire := []\<rparr>"

lemma keeps_emit [keeps_rules]: "keeps but_wire (emit ch f)"
  by (simp add: keeps_def emit_def update_def but_wire_def)

lemma keeps_frames [keeps_rules]:
  "keeps but_wire (send_built ch b)" "keeps but_wire (send_error ch k m t)" "keeps but_wire (close_socket ch n)"
  "keeps but_wire (fatal ch k)"
proof -
  show sb: "keeps but_wire (send_built ch b)" for b
    by (cases b) (simp_all add: send_built_def keeps_rules)
  show se: "keeps but_wire (send_error ch k m t)" for k m t unfolding send_error_def by (rule sb)
  show cs: "keeps but_wire (close_socket ch n)" for n unfolding close_socket_def by (rule keeps_emit)
  show "keeps but_wire (fatal ch k)"
    by (cases "fatal_message k") (simp_all add: fatal_def keeps_basic keeps_andthen se cs)
qed

lemma but_wire_fields:
  "but_wire w = but_wire w' \<longleftrightarrow> wd_db w = wd_db w' \<and> wd_cache w = wd_cache w' \<and> wd_conns w = wd_conns w' \<and>
     wd_groups w = wd_groups w' \<and> wd_inbox w = wd_inbox w' \<and> wd_watches w = wd_watches w'"
  by (cases w; cases w') (auto simp: but_wire_def)

section \<open>The invariant\<close>

text \<open>
  A socket that completed the handshake is authenticated; a member of a group is a live socket that
  completed the handshake as a participant the group is for.
\<close>

definition conn_ok :: "conn \<Rightarrow> bool" where
  "conn_ok c \<longleftrightarrow> (cn_handshake c \<longrightarrow> cn_authenticated c \<and> cn_participant c \<noteq> None) \<and>
     (cn_joined c \<longrightarrow> cn_handshake c)"

definition groups_of :: "participant_row \<Rightarrow> string set" where
  "groups_of p = {participant_channel_group (pt_id p), event_channel_group (pt_event p)}"

definition member_ok :: "conn option \<Rightarrow> string \<Rightarrow> bool" where
  "member_ok co g \<longleftrightarrow> (\<exists>c p. co = Some c \<and> cn_handshake c \<and> cn_joined c \<and> cn_participant c = Some p \<and> g \<in> groups_of p)"

definition ws_ok :: "world \<Rightarrow> bool" where
  "ws_ok w \<longleftrightarrow> (\<forall>ch c. wd_conns w ch = Some c \<longrightarrow> conn_ok c) \<and> (\<forall>g. \<forall>ch \<in> set (wd_groups w g). member_ok (wd_conns w ch) g)"

definition guards :: "act \<Rightarrow> bool" where
  "guards a \<longleftrightarrow> (\<forall>w. ws_ok w \<longrightarrow> ws_ok (snd (a w)))"

lemma guardsD: "guards a \<Longrightarrow> ws_ok w \<Longrightarrow> ws_ok (snd (a w))"
  by (simp add: guards_def)

lemma guards_basic [guard_rules]: "guards skip" "guards raise"
  by (simp_all add: guards_def skip_def raise_def)

lemma guards_andthen [guard_rules]: "guards a \<Longrightarrow> guards b \<Longrightarrow> guards (andthen a b)"
  by (auto simp: guards_def andthen_def split: prod.split)

lemma guards_caught [guard_rules]: "guards a \<Longrightarrow> guards (caught a)"
  by (simp add: guards_def caught_def)

lemma guards_update [guard_rules]: "(\<And>w. ws_ok w \<Longrightarrow> ws_ok (f w)) \<Longrightarrow> guards (update f)"
  by (simp add: guards_def update_def)

lemma guards_with_conn [guard_rules]: "(\<And>c. guards (g c)) \<Longrightarrow> guards (with_conn ch g)"
  by (simp add: guards_def with_conn_def split: option.split)

lemma guards_with_participant [guard_rules]: "(\<And>c p. guards (g c p)) \<Longrightarrow> guards (with_participant ch g)"
  unfolding with_participant_def by (rule guards_with_conn) (simp add: guards_basic split: option.split)

lemma guards_if [guard_rules]: "(b \<Longrightarrow> guards x) \<Longrightarrow> (\<not> b \<Longrightarrow> guards y) \<Longrightarrow> guards (if b then x else y)"
  by simp

lemma ws_ok_cong: "wd_conns w' = wd_conns w \<Longrightarrow> wd_groups w' = wd_groups w \<Longrightarrow> ws_ok w' = ws_ok w"
  by (simp add: ws_ok_def)

text \<open>A handler that touches neither sockets nor groups keeps the invariant.\<close>

definition membership :: "world \<Rightarrow> (string \<rightharpoonup> conn) \<times> (string \<Rightarrow> string list)" where
  "membership w = (wd_conns w, wd_groups w)"

lemma guards_membership: "keeps membership a \<Longrightarrow> guards a"
  unfolding guards_def keeps_def membership_def
proof (intro allI impI)
  fix w assume "\<forall>w. (wd_conns (snd (a w)), wd_groups (snd (a w))) = (wd_conns w, wd_groups w)" and ok: "ws_ok w"
  then have "ws_ok (snd (a w)) = ws_ok w" by (intro ws_ok_cong) auto
  then show "ws_ok (snd (a w))" using ok by simp
qed

lemma but_wire_membership: "keeps but_wire a \<Longrightarrow> keeps membership a"
  by (simp add: keeps_def but_wire_fields membership_def)

lemma guards_frames [guard_rules]:
  "guards (emit ch f)" "guards (send_built ch b)" "guards (send_error ch k m t)" "guards (close_socket ch n)" "guards (fatal ch k)"
  by (rule guards_membership, rule but_wire_membership, rule keeps_rules)+

text \<open>Changing one socket without touching what the invariant reads.\<close>

lemma ws_ok_set_conn:
  assumes "ws_ok w"
    and "\<And>c. wd_conns w ch = Some c \<Longrightarrow> conn_ok c \<Longrightarrow> conn_ok (f c)"
    and "\<And>c g. wd_conns w ch = Some c \<Longrightarrow> member_ok (Some c) g \<Longrightarrow> member_ok (Some (f c)) g"
  shows "ws_ok (set_conn ch f w)"
  unfolding ws_ok_def
proof (intro conjI allI ballI impI)
  fix x c assume "wd_conns (set_conn ch f w) x = Some c"
  then show "conn_ok c" using assms(1,2) by (auto simp: ws_ok_def split: if_splits)
next
  fix g x assume "x \<in> set (wd_groups (set_conn ch f w) g)"
  then have "member_ok (wd_conns w x) g" using assms(1) by (simp add: ws_ok_def)
  then show "member_ok (wd_conns (set_conn ch f w) x) g"
    using assms(3) by (cases "wd_conns w x") (auto simp: member_ok_def)
qed

lemma guards_set_conn:
  assumes "\<And>c. conn_ok c \<Longrightarrow> conn_ok (f c)" "\<And>c g. member_ok (Some c) g \<Longrightarrow> member_ok (Some (f c)) g"
  shows "guards (update (set_conn ch f))"
  by (rule guards_update, rule ws_ok_set_conn) (use assms in auto)

section \<open>Every handler keeps the invariant\<close>

lemma fan_out_sel [simp]:
  "wd_db (fan_out g m w) = wd_db w" "wd_cache (fan_out g m w) = wd_cache w" "wd_conns (fan_out g m w) = wd_conns w"
  "wd_groups (fan_out g m w) = wd_groups w" "wd_wire (fan_out g m w) = wd_wire w" "wd_watches (fan_out g m w) = wd_watches w"
  "wd_inbox (fan_out g m w) = wd_inbox w @ map (\<lambda>ch. (ch, m)) (wd_groups w g)"
  by (simp_all add: fan_out_def)

lemma publish_out_sel [simp]:
  "wd_db (publish_out out w) = wd_db w" "wd_cache (publish_out out w) = wd_cache w" "wd_conns (publish_out out w) = wd_conns w"
  "wd_groups (publish_out out w) = wd_groups w" "wd_wire (publish_out out w) = wd_wire w" "wd_watches (publish_out out w) = wd_watches w"
  unfolding publish_out_def by (induction out arbitrary: w) auto

lemma publish_out_Nil [simp]: "publish_out [] w = w"
  by (simp add: publish_out_def)

lemma keeps_membershipI: "(\<And>w. wd_conns (snd (a w)) = wd_conns w \<and> wd_groups (snd (a w)) = wd_groups w) \<Longrightarrow> keeps membership a"
  by (simp add: keeps_def membership_def)

lemma guards_presence [guard_rules]:
  "guards (claim_exclusive_connection cfg en ch)" "guards (clear_absence_watch en ch)"
  "guards (notify_partner_presence en p s)" "guards (maybe_send_reconnect_snapshot tag_name cfg en ch)"
  "guards (group_send layer g m)" "guards (begin_absence_watch cfg en ch)" "guards (watch_partner_absence en i)"
proof -
  show notify: "guards (notify_partner_presence en p s)" for p s
    by (rule guards_membership, rule keeps_membershipI)
      (simp add: notify_partner_presence_def caught_def split: prod.split sum.split)
  show "guards (claim_exclusive_connection cfg en ch)"
    by (rule guards_membership, rule keeps_membershipI)
      (simp add: claim_exclusive_connection_def with_participant_def with_conn_def skip_def Let_def
        split: option.split cache_value.split)
  show "guards (clear_absence_watch en ch)"
    by (rule guards_membership, rule keeps_membershipI)
      (simp add: clear_absence_watch_def with_participant_def with_conn_def skip_def update_def split: option.split)
  show "guards (maybe_send_reconnect_snapshot tag_name cfg en ch)"
    by (rule guards_membership, rule keeps_membershipI)
      (simp add: maybe_send_reconnect_snapshot_def with_participant_def with_conn_def skip_def Let_def
        split: option.split sum.split)
  show "guards (group_send layer g m)"
    by (rule guards_membership, rule keeps_membershipI) (simp add: group_send_def skip_def raise_def update_def split: option.split)
  show "guards (begin_absence_watch cfg en ch)"
    by (rule guards_membership, rule keeps_membershipI)
      (simp add: begin_absence_watch_def with_participant_def with_conn_def skip_def split: option.split)
  have "wd_conns (snd (watch_partner_absence en i w)) = wd_conns w \<and> wd_groups (snd (watch_partner_absence en i w)) = wd_groups w" for w
    by (simp add: watch_partner_absence_def Let_def notify_partner_presence_def caught_def split: option.split prod.split sum.split)
  then show "guards (watch_partner_absence en i)" by (intro guards_membership keeps_membershipI)
qed

lemma guards_save_status [guard_rules]: "guards (save_status ch s)"
  unfolding guards_def
proof (intro allI impI)
  fix w assume ok: "ws_ok w"
  have "ws_ok (set_conn ch (\<lambda>c. c\<lparr>cn_participant := Some (p\<lparr>pt_status := s\<rparr>)\<rparr>) w)"
    if "wd_conns w ch = Some c" "cn_participant c = Some p" for c p
    by (rule ws_ok_set_conn[OF ok]) (use that in \<open>auto simp: conn_ok_def member_ok_def groups_of_def\<close>)
  then show "ws_ok (snd (save_status ch s w))"
    using ok by (auto simp: save_status_def with_participant_def with_conn_def skip_def Let_def
        ws_ok_cong[of "set_conn ch f w\<lparr>wd_db := d\<rparr>" "set_conn ch f w" for f d] split: option.split)
qed

lemma guards_mark_reconnected [guard_rules]: "guards (mark_reconnected en ch)"
  unfolding mark_reconnected_def
  by (intro guard_rules) (simp_all add: ws_ok_def)

lemma guards_record_disconnection [guard_rules]: "guards (record_disconnection en ch cause detail)"
proof -
  have "ws_ok (snd (save_status ch PS_Disconnected (w\<lparr>wd_db := d\<rparr>)))" if "ws_ok w" for w d
    by (rule guardsD[OF guards_save_status]) (use that in \<open>simp add: ws_ok_def\<close>)
  then show ?thesis
    by (auto simp: guards_def record_disconnection_def with_participant_def with_conn_def skip_def Let_def split: option.split)
qed

lemma guards_live_closed [guard_rules]: "guards (on_live_socket_closed cfg en ch)"
proof -
  have "ws_ok (snd (begin_absence_watch cfg en ch (set_cache f w)))" if "ws_ok w" for w f
    by (rule guardsD[OF guards_presence(6)]) (use that in \<open>simp add: ws_ok_def\<close>)
  then show ?thesis
    by (auto simp: guards_def on_live_socket_closed_def with_participant_def with_conn_def skip_def split: option.split)
qed

lemma group_add_conns [simp]: "wd_conns (group_add g ch w) = wd_conns w"
  by (simp add: group_add_def)

lemma ws_ok_join:
  assumes ok: "ws_ok w" and c: "wd_conns w ch = Some c" "cn_participant c = Some p" "cn_authenticated c"
  shows "ws_ok (join_groups en ch p (set_conn ch (\<lambda>c. c\<lparr>cn_handshake := True\<rparr>) w))"
proof -
  let ?w = "set_conn ch (\<lambda>c. c\<lparr>cn_handshake := True\<rparr>) w"
  have w1: "ws_ok ?w" by (rule ws_ok_set_conn[OF ok]) (use c in \<open>auto simp: conn_ok_def member_ok_def\<close>)
  have w2: "ws_ok (set_conn ch (\<lambda>c. c\<lparr>cn_joined := True\<rparr>) ?w)"
    by (rule ws_ok_set_conn[OF w1]) (use c in \<open>auto simp: conn_ok_def member_ok_def\<close>)
  have add: "ws_ok (group_add g ch w')" if "ws_ok w'" "member_ok (wd_conns w' ch) g" for g w'
    using that by (auto simp: ws_ok_def group_add_def split: if_splits)
  have "member_ok (wd_conns (set_conn ch (\<lambda>c. c\<lparr>cn_joined := True\<rparr>) ?w) ch) g" if "g \<in> groups_of p" for g
    using c that by (simp add: member_ok_def)
  then have member: "member_ok (wd_conns (set_conn ch (\<lambda>c. c\<lparr>cn_joined := True\<rparr>) ?w) ch) (participant_channel_group (pt_id p))"
    "member_ok (wd_conns (set_conn ch (\<lambda>c. c\<lparr>cn_joined := True\<rparr>) ?w) ch) (event_channel_group (pt_event p))"
    by (auto simp: groups_of_def)
  have "ws_ok (group_add (event_channel_group (pt_event p)) ch (group_add (participant_channel_group (pt_id p)) ch
      (set_conn ch (\<lambda>c. c\<lparr>cn_joined := True\<rparr>) ?w)))"
    by (rule add, rule add[OF w2 member(1)]) (simp only: group_add_conns member(2))
  then show ?thesis using w1 by (simp add: join_groups_def)
qed

lemma guards_complete_handshake [guard_rules]: "guards (complete_handshake tag_name cfg en ch payload)"
  unfolding guards_def
proof (intro allI impI)
  fix w assume ok: "ws_ok w"
  let ?rest = "\<lambda>p. andthen (case payload_int payload ''client_ts'' of
               None \<Rightarrow> raise
             | Some ts \<Rightarrow> send_built ch (build_server_hello (uuid_str (pt_id p)) (timestamp_ms en) ts (uuid_str (pt_event p)) None None))
          (andthen (claim_exclusive_connection cfg en ch)
          (andthen (clear_absence_watch en ch)
          (andthen (mark_reconnected en ch)
          (andthen (notify_partner_presence en p ''connected'')
             (maybe_send_reconnect_snapshot tag_name cfg en ch)))))"
  have rest: "guards (?rest p)" for p by (intro guard_rules) (simp add: guard_rules split: option.split)
  have "ws_ok (snd (?rest p (join_groups en ch p (set_conn ch (\<lambda>c. c\<lparr>cn_handshake := True\<rparr>) w))))"
    if "wd_conns w ch = Some c" "cn_participant c = Some p" "cn_authenticated c" for c p
    by (rule guardsD[OF rest ws_ok_join[OF ok that]])
  then show "ws_ok (snd (complete_handshake tag_name cfg en ch payload w))"
    using ok guardsD[OF guards_frames(5)[of ch ErrNotAuthenticated]]
    by (auto simp: complete_handshake_def with_conn_def andthen_def[of "update f" for f] update_def split: option.split)
qed


lemma guards_handle_webrtc [guard_rules]: "guards (handle_webrtc_signal en ch t payload)"
  by (rule guards_membership, rule keeps_membershipI)
    (auto simp: handle_webrtc_signal_def with_participant_def with_conn_def skip_def group_send_def raise_def update_def
      send_error_def send_built_def emit_def split: option.split sum.split)

lemma guards_handle_message [guard_rules]: "guards (handle_message tag_name cfg en ch t payload)"
  unfolding handle_message_def
  by (intro guard_rules) (simp_all add: guard_rules split: message_type.split option.split)

lemma guards_set_plain [guard_rules]:
  "guards (update (set_conn ch (\<lambda>c. c\<lparr>cn_last_activity := t\<rparr>)))" "guards (update (set_conn ch (\<lambda>c. c\<lparr>cn_rate := r\<rparr>)))"
  "guards (update (set_conn ch (\<lambda>c. c\<lparr>cn_cause := v, cn_detail := s\<rparr>)))" "guards (update (set_conn ch (\<lambda>c. c\<lparr>cn_replaced := b\<rparr>)))"
  "guards (update (set_conn ch (\<lambda>c. c\<lparr>cn_heartbeat := b\<rparr>)))"
  by (rule guards_set_conn; auto simp: conn_ok_def member_ok_def)+

lemma ws_ok_set_plain:
  assumes "ws_ok w"
  shows "ws_ok (set_conn ch (\<lambda>c. c\<lparr>cn_last_activity := t\<rparr>) w)" "ws_ok (set_conn ch (\<lambda>c. c\<lparr>cn_rate := r\<rparr>) w)"
    "ws_ok (set_conn ch (\<lambda>c. c\<lparr>cn_cause := v, cn_detail := s\<rparr>) w)" "ws_ok (set_conn ch (\<lambda>c. c\<lparr>cn_heartbeat := b\<rparr>) w)"
  using guardsD[OF guards_set_plain(1) assms] guardsD[OF guards_set_plain(2) assms] guardsD[OF guards_set_plain(3) assms]
    guardsD[OF guards_set_plain(5) assms] by (simp_all add: update_def)

text \<open>The body of \<open>receive\<close> after the guards on the text.\<close>

definition checked_message :: "(uuid \<Rightarrow> string) \<Rightarrow> settings \<Rightarrow> env \<Rightarrow> string \<Rightarrow> raw_message \<Rightarrow> act" where
  "checked_message tag_name cfg en ch msg = (\<lambda>w1.
     case validate_message msg of
       Inl exc \<Rightarrow> andthen (send_built ch (error_from_protocol_error exc))
         (case error_close_code (pe_code exc) of None \<Rightarrow> skip | Some k \<Rightarrow> close_socket ch k) w1
     | Inr (t, payload) \<Rightarrow>
         (case handle_message tag_name cfg en ch t payload w1 of (True, w2) \<Rightarrow> (True, w2) | (False, w2) \<Rightarrow> fatal ch ErrInternal w2))"

lemma receive_cases:
  "receive tag_name cfg en ch raw = with_conn ch (\<lambda>c0 w0.
     let w = set_conn ch (\<lambda>c. c\<lparr>cn_last_activity := en_mono en\<rparr>) w0 in
     case raw of
       None \<Rightarrow> (True, w)
     | Some (msg, nbytes) \<Rightarrow>
         (case telemetry_of cfg msg of
            Some (cause, detail) \<Rightarrow> (True, set_conn ch (\<lambda>c. c\<lparr>cn_cause := cause, cn_detail := detail\<rparr>) w)
          | None \<Rightarrow>
              if st_max_bytes cfg < nbytes
              then andthen (send_error ch ErrInvalidMessage ''Message exceeds the maximum allowed size.'' None) (close_socket ch 1009) w
              else (case within_rate_limit (st_rate_limit cfg) (en_mono en) (cn_rate c0) of
                   (ok, stamps) \<Rightarrow>
                     (if ok then checked_message tag_name cfg en ch msg else fatal ch ErrRateLimited)
                       (set_conn ch (\<lambda>c. c\<lparr>cn_rate := stamps\<rparr>) w))))"
  unfolding receive_def checked_message_def
  by (intro arg_cong[where f = "with_conn ch"] ext) (auto simp: Let_def split: option.split prod.split)

lemma guards_checked [guard_rules]: "guards (checked_message tag_name cfg en ch msg)"
proof -
  have "guards (andthen (send_built ch (error_from_protocol_error exc))
      (case error_close_code (pe_code exc) of None \<Rightarrow> skip | Some k \<Rightarrow> close_socket ch k))" for exc
    by (intro guard_rules) (simp add: guard_rules split: option.split)
  then have "ws_ok (snd (checked_message tag_name cfg en ch msg w))" if "ws_ok w" for w
    using that guardsD[OF guards_handle_message that] guardsD[OF guards_frames(5)]
    by (auto simp: checked_message_def guards_def split: sum.split prod.split bool.split) (metis snd_conv)+
  then show ?thesis by (simp add: guards_def)
qed

lemma guards_receive [guard_rules]: "guards (receive tag_name cfg en ch raw)"
  unfolding guards_def
proof (intro allI impI)
  fix w assume ok: "ws_ok w"
  let ?w = "set_conn ch (\<lambda>c. c\<lparr>cn_last_activity := en_mono en\<rparr>) w"
  have w1: "ws_ok ?w" by (rule ws_ok_set_plain(1)[OF ok])
  have w2: "ws_ok (set_conn ch (\<lambda>c. c\<lparr>cn_rate := r\<rparr>) ?w)" for r by (rule ws_ok_set_plain(2)[OF w1])
  have w3: "ws_ok (set_conn ch (\<lambda>c. c\<lparr>cn_cause := v, cn_detail := s\<rparr>) ?w)" for v s by (rule ws_ok_set_plain(3)[OF w1])
  have f1: "ws_ok (snd (andthen (send_error ch k m t) (close_socket ch n) ?w))" for k m t n
    by (rule guardsD[OF _ w1]) (intro guard_rules)
  have f2: "ws_ok (snd ((if b then checked_message tag_name cfg en ch msg else fatal ch ErrRateLimited)
      (set_conn ch (\<lambda>c. c\<lparr>cn_rate := r\<rparr>) ?w)))" for b msg r
    by (rule guardsD[OF _ w2]) (intro guard_rules)
  show "ws_ok (snd (receive tag_name cfg en ch raw w))"
    unfolding receive_cases with_conn_def Let_def
    using ok w1 w3 f1 f2 by (auto split: option.split prod.split simp del: set_conn_sel)
qed

lemma guards_session_replaced [guard_rules]: "guards (session_replaced ch)"
  unfolding session_replaced_def by (intro guard_rules)

lemma guards_layer_message [guard_rules]: "guards (handle_layer_message ch m)"
  unfolding handle_layer_message_def by (cases m) (auto intro!: guard_rules)

lemma guards_deliver [guard_rules]: "guards (deliver ch)"
proof -
  have "ws_ok (snd (handle_layer_message ch m (w\<lparr>wd_inbox := rest\<rparr>)))" if "ws_ok w" for m w rest
    by (rule guardsD[OF guards_layer_message]) (use that in \<open>simp add: ws_ok_def\<close>)
  then show ?thesis by (auto simp: guards_def deliver_def split: option.split prod.split)
qed

lemma guards_heartbeat [guard_rules]: "guards (heartbeat cfg en ch)"
  unfolding heartbeat_def by (intro guard_rules)

lemma ws_ok_gone:
  assumes ok: "ws_ok w" and gone: "\<And>g. ch \<notin> set (wd_groups w g)"
  shows "ws_ok (w\<lparr>wd_conns := (wd_conns w)(ch := None)\<rparr>)"
  using assms by (auto simp: ws_ok_def)

lemma ws_ok_leave:
  assumes ok: "ws_ok w" and c: "wd_conns w ch = Some c" and layer: "en_layer en \<noteq> None"
  shows "ws_ok (leave_groups en ch c w)" "ch \<notin> set (wd_groups (leave_groups en ch c w) g)"
proof -
  have sub: "ws_ok (group_discard g ch w')" if "ws_ok w'" for g w'
    using that by (auto simp: ws_ok_def group_discard_def)
  show "ws_ok (leave_groups en ch c w)" using ok by (auto simp: leave_groups_def intro!: sub split: option.split)
  have "ch \<in> set (wd_groups w g) \<Longrightarrow> \<exists>p. cn_participant c = Some p \<and> cn_joined c \<and> g \<in> groups_of p"
    using ok[unfolded ws_ok_def member_ok_def, THEN conjunct2, rule_format, of ch g] c by auto
  then show "ch \<notin> set (wd_groups (leave_groups en ch c w) g)"
    using layer by (auto simp: leave_groups_def group_discard_def groups_of_def split: option.split)
qed


lemma keeps_groups [keeps_rules]:
  "keeps wd_groups (save_status ch s)" "keeps wd_groups (record_disconnection en ch cause detail)"
  "keeps wd_groups (begin_absence_watch cfg en ch)" "keeps wd_groups (on_live_socket_closed cfg en ch)"
proof -
  show save: "keeps wd_groups (save_status ch s)" for s
    by (simp add: keeps_def save_status_def with_participant_def with_conn_def skip_def Let_def split: option.split)
  show watch: "keeps wd_groups (begin_absence_watch cfg en ch)"
    by (simp add: keeps_def begin_absence_watch_def with_participant_def with_conn_def skip_def Let_def split: option.split)
  show "keeps wd_groups (record_disconnection en ch cause detail)"
    using keepsD[OF save] by (simp add: keeps_def record_disconnection_def with_participant_def with_conn_def skip_def Let_def split: option.split)
  show "keeps wd_groups (on_live_socket_closed cfg en ch)"
    using keepsD[OF watch] by (simp add: keeps_def on_live_socket_closed_def with_participant_def with_conn_def skip_def Let_def split: option.split)
qed

lemma guards_disconnect:
  assumes layer: "en_layer en \<noteq> None" and ok: "ws_ok w"
  shows "ws_ok (snd (disconnect cfg en ch code w))"
proof (cases "wd_conns w ch")
  case None
  then show ?thesis using ok by (simp add: disconnect_def with_conn_def)
next
  case (Some c)
  let ?w = "set_conn ch (\<lambda>c. c\<lparr>cn_heartbeat := False\<rparr>) w"
  let ?c = "c\<lparr>cn_heartbeat := False\<rparr>"
  define rec where "rec = (if cn_participant c \<noteq> None \<and> cn_handshake c \<and> \<not> cn_replaced c
      then caught (record_disconnection en ch (if truthy (cn_cause c) then cn_cause c
           else if code = 1001 then JStr ''tab_closed'' else JStr ''network'') (cn_detail c)) else skip)"
  have w: "ws_ok ?w" by (rule ws_ok_set_plain(4)[OF ok])
  have leave: "leave_groups en ch c ?w = leave_groups en ch ?c ?w" by (simp add: leave_groups_def split: option.split)
  have conn: "wd_conns ?w ch = Some ?c" using Some by simp
  have lw: "ws_ok (leave_groups en ch c ?w)" "ch \<notin> set (wd_groups (leave_groups en ch c ?w) g)" for g
    unfolding leave using ws_ok_leave[OF w conn layer] by blast+
  have mid: "guards (andthen rec (on_live_socket_closed cfg en ch))" "keeps wd_groups (andthen rec (on_live_socket_closed cfg en ch))"
    unfolding rec_def by (intro guard_rules keeps_rules)+
  have run: "disconnect cfg en ch code w = andthen rec (andthen (on_live_socket_closed cfg en ch)
      (update (\<lambda>w. w\<lparr>wd_conns := (wd_conns w)(ch := None)\<rparr>))) (leave_groups en ch c ?w)"
    using Some by (simp add: disconnect_def with_conn_def rec_def andthen_def[of "update f" for f] update_def[of "\<lambda>w. leave_groups en ch c (set_conn ch (\<lambda>c. c\<lparr>cn_heartbeat := False\<rparr>) w)"])
  let ?m = "andthen rec (on_live_socket_closed cfg en ch) (leave_groups en ch c ?w)"
  have "disconnect cfg en ch code w = (if fst ?m then (True, (snd ?m)\<lparr>wd_conns := (wd_conns (snd ?m))(ch := None)\<rparr>) else (False, snd ?m))"
    unfolding run by (auto simp: andthen_def update_def split: prod.split)
  moreover have "ws_ok (snd ?m)" by (rule guardsD[OF mid(1) lw(1)])
  moreover have "ch \<notin> set (wd_groups (snd ?m) g)" for g unfolding keepsD[OF mid(2)] by (rule lw(2))
  ultimately show ?thesis using ws_ok_gone by simp
qed

section \<open>The server\<close>

text \<open>
  One step of the server process: a handler runs to its end, or the rest of the program changes the
  database, the cache, or publishes to groups. Channel names are never reused, and the channel layer
  is configured.
\<close>

inductive server_step :: "(uuid \<Rightarrow> string) \<Rightarrow> settings \<Rightarrow> world \<Rightarrow> world \<Rightarrow> bool" for tag_name cfg where
  Connect: "wd_conns w ch = None \<Longrightarrow> ch \<notin> fst ` set (wd_inbox w) \<Longrightarrow>
    server_step tag_name cfg w (snd (connect en ch session w))"
| Receive: "en_layer en \<noteq> None \<Longrightarrow> server_step tag_name cfg w (snd (receive tag_name cfg en ch raw w))"
| Disconnect: "en_layer en \<noteq> None \<Longrightarrow> server_step tag_name cfg w (snd (disconnect cfg en ch code w))"
| Deliver: "server_step tag_name cfg w (snd (deliver ch w))"
| Heartbeat: "server_step tag_name cfg w (snd (heartbeat cfg en ch w))"
| Watch: "en_layer en \<noteq> None \<Longrightarrow> server_step tag_name cfg w (snd (watch_partner_absence en i w))"
| Publish: "server_step tag_name cfg w (publish_out out w)"
| Operator_action: "server_step tag_name cfg w (fan_out g (OperatorAction action payload) w)"
| Elsewhere: "server_step tag_name cfg w (w\<lparr>wd_db := d, wd_cache := c\<rparr>)"

definition start_world :: "db \<Rightarrow> cache \<Rightarrow> world" where
  "start_world d c = \<lparr>wd_db = d, wd_cache = c, wd_conns = Map.empty, wd_groups = (\<lambda>_. []), wd_inbox = [], wd_wire = [],
     wd_watches = Map.empty\<rparr>"

inductive server_reach :: "(uuid \<Rightarrow> string) \<Rightarrow> settings \<Rightarrow> world \<Rightarrow> bool" for tag_name cfg where
  Start: "server_reach tag_name cfg (start_world d c)"
| Step: "server_reach tag_name cfg w \<Longrightarrow> server_step tag_name cfg w w' \<Longrightarrow> server_reach tag_name cfg w'"

inductive_cases server_stepE: "server_step tag_name cfg w w'"

lemma ws_ok_connect:
  assumes ok: "ws_ok w" and fresh: "wd_conns w ch = None"
  shows "ws_ok (snd (connect en ch session w))"
proof -
  have none: "ch \<notin> set (wd_groups w g)" for g
    using ok[unfolded ws_ok_def member_ok_def, THEN conjunct2, rule_format, of ch g] fresh by auto
  have new: "ws_ok (w\<lparr>wd_conns := (wd_conns w)(ch \<mapsto> c)\<rparr>)" if "conn_ok c" for c
    using ok none that by (auto simp: ws_ok_def)
  have plain: "conn_ok (new_conn t)" "conn_ok ((new_conn t)\<lparr>cn_participant := Some p, cn_authenticated := True, cn_heartbeat := True\<rparr>)" for t p
    by (simp_all add: conn_ok_def new_conn_def)
  have "set_conn ch f (w\<lparr>wd_conns := (wd_conns w)(ch \<mapsto> c)\<rparr>) = w\<lparr>wd_conns := (wd_conns w)(ch \<mapsto> f c)\<rparr>" for f c
    by (simp add: set_conn_def)
  then show ?thesis
    using new[OF plain(1)] new[OF plain(2)] guardsD[OF guards_frames(5)] by (auto simp: connect_def Let_def split: resolved.split)
qed

lemma server_step_ok: "server_step tag_name cfg w w' \<Longrightarrow> ws_ok w \<Longrightarrow> ws_ok w'"
proof (induction rule: server_step.induct)
  case (Connect w ch en session)
  then show ?case by (simp add: ws_ok_connect)
next
  case (Disconnect en w ch code)
  then show ?case by (simp add: guards_disconnect)
qed (simp_all add: guardsD guard_rules, simp_all add: ws_ok_def)

lemma server_reach_ok: "server_reach tag_name cfg w \<Longrightarrow> ws_ok w"
proof (induction rule: server_reach.induct)
  case (Step w w')
  then show ?case by (simp add: server_step_ok)
qed (simp add: start_world_def ws_ok_def)

end
