(* ===== verification/Realtime_Clock.thy ===== *)
theory Realtime_Clock
  imports Realtime
begin

text \<open>
  The conversion of instants to protocol milliseconds goes through two binary64 roundings. It is exact
  (the floor of the instant) from November 2004 to January 2038 and can be one millisecond early after.
\<close>

text \<open>\<open>timestamp()\<close> is within half a unit in the last place, 2 to the -23, of the exact seconds.\<close>

lemma float_seconds_error:
  assumes "2 ^ 30 * 1000000 \<le> us" "us < 2 ^ 31 * 1000000"
  shows "\<bar>float_seconds us - of_int us / 1000000\<bar> \<le> 1 / 2 ^ 23"
proof -
  have "(of_int us :: rat) \<ge> of_int (2 ^ 30 * 1000000)" "(of_int us :: rat) < of_int (2 ^ 31 * 1000000)"
    using assms by (simp_all only: of_int_le_iff of_int_less_iff)
  then have "\<bar>fl64 (of_int us / 1000000) - of_int us / 1000000\<bar> \<le> 2 powi (30 - 52) / 2"
    by (intro fl64_binade_error) (simp_all add: power_int_def field_simps)
  then show ?thesis by (simp add: float_seconds_def power_int_def power_divide)
qed

lemma unix_ms_rounding:
  assumes us: "2 ^ 40 * 1000 < us" "us < 2 ^ 31 * 1000000"
  obtains y :: rat where "datetime_to_unix_ms us = \<lfloor>y\<rfloor>" and "\<bar>y - of_int us / 1000\<bar> < 1/1000"
    and "us mod 1000 = 0 \<Longrightarrow> y = of_int us / 1000"
proof -
  define s where "s = float_seconds us"
  have s: "\<bar>s - of_int us / 1000000\<bar> \<le> 1 / 2 ^ 23"
    unfolding s_def by (rule float_seconds_error) (use us in simp_all)
  have usq: "(of_int us :: rat) \<ge> of_int (2 ^ 40 * 1000 + 1)" "(of_int us :: rat) < of_int (2 ^ 31 * 1000000)"
    using us by (simp_all only: of_int_le_iff of_int_less_iff)
  have off: "\<bar>s * 1000 - of_int us / 1000\<bar> \<le> 1000 / 2 ^ 23" using s by (simp add: abs_le_iff field_simps)
  have range: "2 powi 40 \<le> s * 1000" "s * 1000 < 2 powi (40 + 1)"
  proof -
    have "us \<ge> 1099511627776001" using us by simp
    then have "(of_int us :: rat) \<ge> of_int 1099511627776001" by (simp only: of_int_le_iff)
    moreover have "(of_int us :: rat) < of_int 2147483648000000" using us by (simp only: of_int_less_iff) simp
    moreover have "(2 :: rat) powi 40 = 1099511627776" "(2 :: rat) powi (40 + 1) = 2199023255552"
      by (simp_all add: power_int_def)
    moreover have "\<bar>s * 1000 - of_int us / 1000\<bar> \<le> 1000 / 8388608" using off by simp
    ultimately show "2 powi 40 \<le> s * 1000" "s * 1000 < 2 powi (40 + 1)" unfolding of_int_numeral by linarith+
  qed
  define y where "y = fl64 (s * 1000)"
  have ye: "\<bar>y - s * 1000\<bar> \<le> 1 / 2 ^ 13"
    using fl64_binade_error[OF range] by (simp add: y_def power_int_def power_divide)
  have "(2 :: rat) powi 40 = 1099511627776" by (simp add: power_int_def)
  moreover have "\<bar>y - s * 1000\<bar> \<le> 1 / 8192" using ye by simp
  ultimately have "0 \<le> y" using range(1) by linarith
  then have "datetime_to_unix_ms us = \<lfloor>y\<rfloor>" by (simp add: datetime_to_unix_ms_def s_def y_def py_trunc_def)
  moreover have "\<bar>y - of_int us / 1000\<bar> < 1/1000" using ye off by (simp only: abs_le_iff abs_less_iff) (simp add: field_simps)
  moreover have "y = of_int us / 1000" if "us mod 1000 = 0"
  proof -
    obtain k where k: "us = 1000 * k" using \<open>us mod 1000 = 0\<close> by auto
    have "\<bar>s * 1000 - of_int k\<bar> \<le> 1000 / 8388608" using off by (simp add: k)
    moreover have "s * 1000 / 2 powi (40 - 52) = s * 1000 * 4096" by (simp add: power_int_def power_divide)
    ultimately have "\<bar>s * 1000 / 2 powi (40 - 52) - of_int (k * 4096)\<bar> < 1 / 2"
      by (simp only: abs_le_iff abs_less_iff of_int_mult of_int_numeral) (simp add: field_simps)
    then have "round_even (s * 1000 / 2 powi (40 - 52)) = k * 4096" by (rule round_even_nearest)
    then show ?thesis using fl64_binade[OF range] by (simp add: y_def k power_int_def power_divide)
  qed
  ultimately show ?thesis by (rule that)
qed

lemma unix_ms_positive:
  assumes "2 ^ 40 * 1000 < us" "us < 2 ^ 31 * 1000000"
  shows "0 < datetime_to_unix_ms us"
proof -
  obtain y :: rat where y: "datetime_to_unix_ms us = \<lfloor>y\<rfloor>" "\<bar>y - of_int us / 1000\<bar> < 1/1000"
    by (rule unix_ms_rounding[OF assms]) blast
  define z :: rat where "z = of_int us"
  have "z \<ge> of_int 1099511627776001" unfolding z_def using assms(1) by (simp only: of_int_le_iff) simp
  then have "2000 \<le> z" by simp
  moreover have "\<bar>y - z / 1000\<bar> < 1/1000" using y(2) by (simp only: z_def)
  ultimately have "1 \<le> y - 0" by (simp only: abs_less_iff) (simp add: field_simps)
  then have "1 \<le> y" by simp
  then show ?thesis using y(1) by simp
qed

text \<open>Every instant between 3 November 2004 and 19 January 2038 is sent to the clients as exactly the
  millisecond it lies in, although \<open>datetime_to_unix_ms\<close> computes with rounded floats.\<close>

theorem unix_ms_exact:
  assumes "2 ^ 40 * 1000 < us" "us < 2 ^ 31 * 1000000"
  shows "datetime_to_unix_ms us = us div 1000"
proof -
  obtain y :: rat where y: "datetime_to_unix_ms us = \<lfloor>y\<rfloor>" "\<bar>y - of_int us / 1000\<bar> < 1/1000"
      "us mod 1000 = 0 \<Longrightarrow> y = of_int us / 1000" 
    by (rule unix_ms_rounding[OF assms]) blast
  define q r where "q = us div 1000" and "r = us mod 1000"
  have us: "(of_int us :: rat) = of_int q * 1000 + of_int r" and r: "0 \<le> r" "r < 1000"
  proof -
    have "us = q * 1000 + r" by (simp add: q_def r_def)
    then show "(of_int us :: rat) = of_int q * 1000 + of_int r" by (metis of_int_add of_int_mult of_int_numeral)
  qed (simp_all add: r_def)
  have "\<lfloor>y\<rfloor> = q"
  proof (cases "r = 0")
    case True
    then show ?thesis using y(3) us by (simp add: r_def)
  next
    case False
    then have "(of_int r :: rat) \<ge> 1" "(of_int r :: rat) \<le> 999" using r by simp_all
    then show ?thesis using y(2) us by (intro floor_unique) (simp_all add: abs_less_iff field_simps)
  qed
  then show ?thesis using y(1) by (simp add: q_def)
qed

lemma unix_ms_exact_witness: "datetime_to_unix_ms 1790000000123456 = 1790000000123"
  using unix_ms_exact[of 1790000000123456] by simp

text \<open>After 19 January 2038 the conversion can be a millisecond early: ten seconds after the boundary an
  instant that is a whole number of milliseconds is sent as the millisecond before.\<close>

theorem unix_ms_early_after_2038: "datetime_to_unix_ms 2147483650002000 = 2147483650001"
proof -
  have "float_seconds 2147483650002000 = 2 powi (31 - 52) * of_int (round_even ((2147483650002000 / 1000000) / 2 powi (31 - 52)))"
    unfolding float_seconds_def by (subst fl64_binade[where e = 31]) (simp_all add: power_int_def power_divide)
  moreover have "round_even ((2147483650002000 / 1000000) / 2 powi (31 - 52)) = 4503599631568994"
    by (rule round_even_nearest) (simp add: power_int_def power_divide)
  ultimately have s: "float_seconds 2147483650002000 = 4503599631568994 / 2097152" by (simp add: power_int_def power_divide)
  have "fl64 (float_seconds 2147483650002000 * 1000) =
      2 powi (40 - 52) * of_int (round_even ((float_seconds 2147483650002000 * 1000) / 2 powi (40 - 52)))"
    by (rule fl64_binade) (simp_all add: s power_int_def power_divide)
  moreover have "round_even ((float_seconds 2147483650002000 * 1000) / 2 powi (40 - 52)) = 8796093030408191"
    by (rule round_even_nearest) (simp add: s power_int_def power_divide)
  ultimately have ms: "fl64 (float_seconds 2147483650002000 * 1000) = 8796093030408191 / 4096"
    by (simp add: power_int_def power_divide)
  have "\<lfloor>8796093030408191 / 4096 :: rat\<rfloor> = 2147483650001" by (rule floor_unique) simp_all
  then show ?thesis unfolding datetime_to_unix_ms_def ms py_trunc_def by simp
qed

end
