(* ===== verification/Realtime_Messages.thy ===== *)
theory Realtime_Messages
  imports Realtime_Clock
begin

text \<open>
  When the orchestrator's message builders succeed, and what is left of a run of them when they do;
  a small event with one live round and one pair.
\<close>

section \<open>When the messages of a round can be built\<close>

text \<open>The instants \<open>unix_ms_exact\<close> covers.\<close>

definition in_clock :: "int \<Rightarrow> bool" where
  "in_clock us \<longleftrightarrow> 2 ^ 40 * 1000 < us \<and> us < 2 ^ 31 * 1000000"

lemma in_clock_positive [simp]: "in_clock us \<Longrightarrow> 0 < datetime_to_unix_ms us"
  by (simp add: in_clock_def unix_ms_positive)

definition round_sendable :: "db \<Rightarrow> round_row \<Rightarrow> bool" where
  "round_sendable d r \<longleftrightarrow> rd_number r \<in> {1..6} \<and> in_clock (rd_starts_at r) \<and> in_clock (rd_ends_at r) \<and>
     (\<forall>p \<in> set (round_pairs d (rd_event r) (rd_id r)). py_strip (pr_room_id p) \<noteq> [])"

lemma py_strip_uuid_str [simp]: "py_strip (uuid_str u) \<noteq> []"
proof -
  have "hd (hex_fixed 32 (uuid_int u)) \<in> set (hex_fixed 32 (uuid_int u))"
    by (rule hd_in_set) (use length_hex_fixed[of 32 "uuid_int u"] in fastforce)
  moreover have "hd (hex_fixed 32 (uuid_int u)) = hd (uuid_str u)"
    using length_hex_fixed[of 32 "uuid_int u"] by (cases "hex_fixed 32 (uuid_int u)") (auto simp: uuid_str_def Let_def)
  moreover have "uuid_str u \<noteq> []" by (simp add: uuid_str_def Let_def)
  ultimately have "\<exists>c \<in> set (uuid_str u). \<not> py_isspace c"
    using set_hex_fixed lower_hex_not_space by (metis hd_in_set)
  then show ?thesis by (auto simp: py_strip_def strip_by_Nil_iff)
qed

lemma pairing_message_Inr:
  "(\<exists>m. pairing_message c r = Inr m) \<longleftrightarrow> rd_number r \<in> {1..6} \<and> py_strip (pc_room c) \<noteq> [] \<and>
     0 < datetime_to_unix_ms (rd_starts_at r) \<and> 0 < datetime_to_unix_ms (rd_ends_at r)"
  using py_strip_uuid_str[of "pc_partner c"]
  by (auto simp: pairing_message_def build_server_pairing_def build_message_Inr payload_fits_def required_fields_def
      optional_fields_def has_field_def opt_ok_def dict_get_Cons opt_field_def py_strip_def strip_by_Nil_iff)

lemma round_start_message_Inr:
  "(\<exists>m. round_start_message now c r = Inr m) \<longleftrightarrow> rd_number r \<in> {1..6} \<and> py_strip (pc_room c) \<noteq> [] \<and>
     0 < datetime_to_unix_ms now"
  by (auto simp: round_start_message_def build_server_round_start_def build_message_Inr payload_fits_def
      required_fields_def optional_fields_def has_field_def opt_ok_def dict_get_Cons py_strip_def strip_by_Nil_iff)

lemma recipient_room:
  "c \<in> set (select_pairing_recipients tag_name d r) \<Longrightarrow> \<exists>p \<in> set (round_pairs d (rd_event r) (rd_id r)). pc_room c = pr_room_id p"
  by (auto simp: select_pairing_recipients_def pair_recipients_def)

lemma sendable_pairing:
  "round_sendable d r \<Longrightarrow> c \<in> set (select_pairing_recipients tag_name d r) \<Longrightarrow> \<exists>m. pairing_message c r = Inr m"
  using recipient_room[of c tag_name d r] by (auto simp: pairing_message_Inr round_sendable_def)

lemma sendable_start:
  "round_sendable d r \<Longrightarrow> in_clock now \<Longrightarrow> c \<in> set (select_pairing_recipients tag_name d r) \<Longrightarrow>
   \<exists>m. round_start_message now c r = Inr m"
  using recipient_room[of c tag_name d r] by (auto simp: round_start_message_Inr round_sendable_def)

section \<open>Runs of built messages\<close>

lemma publish_each_built:
  "\<forall>j \<in> set jobs. \<exists>m. snd j = Inr m \<Longrightarrow> \<exists>n. publish_each layer jobs =
     (Inr n, concat (map (\<lambda>(grp, b). publish layer grp (projr b)) jobs))"
  by (induction layer jobs rule: publish_each.induct) (auto simp: Let_def)

lemma build_all_built:
  "\<forall>j \<in> set jobs. \<exists>m. snd j = Inr m \<Longrightarrow> build_all jobs = Inr (map (\<lambda>(grp, b). (grp, projr b)) jobs)"
  by (induction jobs rule: build_all.induct) auto

lemma build_all_InrD: "build_all jobs = Inr out \<Longrightarrow> (\<forall>j \<in> set jobs. \<exists>m. snd j = Inr m) \<and> out = map (\<lambda>(grp, b). (grp, projr b)) jobs"
  by (induction jobs arbitrary: out rule: build_all.induct) (auto simp: bindE_Inr_iff)

lemma broadcast_pairing_built:
  assumes "round_sendable d r"
  shows "\<exists>rep. broadcast_pairing tag_name layer d r = (Inr rep,
    concat (map (\<lambda>c. publish layer (pc_group c) (projr (pairing_message c r))) (select_pairing_recipients tag_name d r)))"
proof -
  obtain n where "publish_each layer (map (\<lambda>c. (pc_group c, pairing_message c r)) (select_pairing_recipients tag_name d r)) =
    (Inr n, concat (map (\<lambda>c. publish layer (pc_group c) (projr (pairing_message c r))) (select_pairing_recipients tag_name d r)))"
    using publish_each_built[of "map (\<lambda>c. (pc_group c, pairing_message c r)) (select_pairing_recipients tag_name d r)" layer]
      sendable_pairing[OF assms] by (auto simp: comp_def)
  then show ?thesis by (simp add: broadcast_pairing_def Let_def)
qed

lemma broadcast_round_start_built:
  assumes "round_sendable d r" "in_clock now"
  shows "\<exists>rep. broadcast_round_start tag_name layer d now r = (Inr rep,
    concat (map (\<lambda>c. publish layer (pc_group c) (projr (round_start_message now c r))) (select_pairing_recipients tag_name d r)))"
proof -
  obtain n where "publish_each layer (map (\<lambda>c. (pc_group c, round_start_message now c r)) (select_pairing_recipients tag_name d r)) =
    (Inr n, concat (map (\<lambda>c. publish layer (pc_group c) (projr (round_start_message now c r))) (select_pairing_recipients tag_name d r)))"
    using publish_each_built[of "map (\<lambda>c. (pc_group c, round_start_message now c r)) (select_pairing_recipients tag_name d r)" layer]
      sendable_start[OF assms] by (auto simp: comp_def)
  then show ?thesis by (simp add: broadcast_round_start_def Let_def)
qed

text \<open>A round number the protocol does not know stops the broadcast at its first message.\<close>

lemma broadcast_pairing_refused:
  assumes "rd_number r \<notin> {1..6}" "select_pairing_recipients tag_name d r \<noteq> []"
  shows "\<exists>err. broadcast_pairing tag_name layer d r = (Inl err, [])"
proof -
  obtain c cs where cs: "select_pairing_recipients tag_name d r = c # cs" using assms(2) by (cases "select_pairing_recipients tag_name d r") auto
  obtain err where "pairing_message c r = Inl err"
    using pairing_message_Inr[of c r] assms(1) by (cases "pairing_message c r") auto
  then show ?thesis by (simp add: broadcast_pairing_def cs)
qed

section \<open>An event with one live round\<close>

definition live_round :: "nat \<Rightarrow> round_row" where
  "live_round n = \<lparr>rd_id = UUID 30, rd_event = UUID 7, rd_number = n, rd_status = RS_Active,
     rd_starts_at = 1790000000000000, rd_ends_at = 1790000300000000\<rparr>"

definition live_pair :: pair_row where
  "live_pair = \<lparr>pr_id = UUID 40, pr_event = UUID 7, pr_round = UUID 30, pr_a = UUID 1, pr_b = UUID 2,
     pr_status = PA_Pending, pr_room_id = ''room'', pr_path_type = PT_Direct, pr_conn_type_a = None,
     pr_conn_time_a = None, pr_conn_type_b = None, pr_conn_time_b = None\<rparr>"

definition live_db :: "nat \<Rightarrow> db" where
  "live_db n = empty_db\<lparr>db_rounds := [live_round n], db_pairs := [live_pair]\<rparr>"

lemma live_db_pairs [simp]: "round_pairs (live_db n) (UUID 7) (UUID 30) = [live_pair]"
  by (simp add: round_pairs_def live_db_def live_pair_def empty_db_def)

lemma live_round_sel [simp]:
  "rd_event (live_round n) = UUID 7" "rd_id (live_round n) = UUID 30" "rd_number (live_round n) = n"
  by (simp_all add: live_round_def)

lemma live_round_sendable [simp]: "n \<in> {1..6} \<Longrightarrow> round_sendable (live_db n) (live_round n)"
  by (simp add: round_sendable_def in_clock_def) (simp add: live_round_def live_pair_def py_strip_def strip_by_def py_isspace_def)

lemma live_phase:
  "1790000000000000 \<le> now \<Longrightarrow> now < 1790000300000000 \<Longrightarrow>
   get_current_phase (UUID 7) 20000000 now (live_db n) = (EP_InRound, Some (live_round n), Some (1790000300000000 - now))"
  "1789999980000000 \<le> now \<Longrightarrow> now < 1790000000000000 \<Longrightarrow>
   get_current_phase (UUID 7) 20000000 now (live_db n) = (EP_Preconnect, Some (live_round n), Some (1790000000000000 - now))"
  by (simp_all add: get_current_phase_def event_rounds_def live_db_def empty_db_def current_phase_def round_phase_def)
    (simp_all add: live_round_def)

end
