(* ===== verification/Realtime_Props.thy ===== *)
theory Realtime_Props
  imports Realtime_Messages
begin

text \<open>
  What the orchestrator promises: each lifecycle message is broadcast once per day and event however
  many instances tick, a round starts after its pairing was announced, both sides of a pair get
  matching messages, and the messages made for one participant reach that participant only.
\<close>

section \<open>Keys\<close>

lemma show_nat_inj: "show_nat m = show_nat n \<Longrightarrow> m = n"
proof (induction m arbitrary: n rule: show_nat.induct)
  case (1 m)
  have small: "show_nat k = [char_of (48 + k)]" if "k < 10" for k using that by (subst show_nat.simps) simp
  have big: "show_nat k = show_nat (k div 10) @ [char_of (48 + k mod 10)]" if "\<not> k < 10" for k
    using that by (subst show_nat.simps) simp
  have dig: "a = b" if "(char_of (48 + a) :: char) = char_of (48 + b)" "a < 10" "b < 10" for a b :: nat
    using arg_cong[OF that(1), of "of_char :: char \<Rightarrow> nat"] that(2,3) by simp
  show ?case
  proof (cases "m < 10"; cases "n < 10")
    assume "m < 10" "n < 10"
    then show ?thesis using 1(2) dig by (simp add: small)
  next
    assume "m < 10" "\<not> n < 10"
    then show ?thesis using 1(2) show_nat_nonempty[of "m div 10"] show_nat_nonempty[of "n div 10"]
      by (simp add: small big)
  next
    assume "\<not> m < 10" "n < 10"
    then show ?thesis using 1(2) show_nat_nonempty[of "m div 10"] show_nat_nonempty[of "n div 10"]
      by (simp add: small big)
  next
    assume "\<not> m < 10" "\<not> n < 10"
    then have "show_nat (m div 10) = show_nat (n div 10)" "(char_of (48 + m mod 10) :: char) = char_of (48 + n mod 10)"
      using 1(2) by (simp_all add: big)
    then have "m div 10 = n div 10" "m mod 10 = n mod 10" using 1(1)[OF \<open>\<not> m < 10\<close>] dig[of "m mod 10" "n mod 10"]
      by simp_all
    then have "m div 10 * 10 + m mod 10 = n div 10 * 10 + n mod 10" by (simp only:)
    then show ?thesis by (simp only: div_mult_mod_eq)
  qed
qed

lemma round_key_inj [simp]: "round_key m w = round_key n w \<longleftrightarrow> m = n"
  by (auto simp: round_key_def dest: show_nat_inj)

lemma mark_key_inj [simp]: "mark_key e k = mark_key e k' \<longleftrightarrow> k = k'"
  by (simp add: mark_key_def)

lemma last_round_key: "w \<noteq> [] \<Longrightarrow> last (round_key n w) = last w"
  by (simp add: round_key_def)

lemma round_keys_differ [simp]:
  "round_key m ''pairing'' \<noteq> round_key n ''round_start''" "round_key m ''warning'' \<noteq> round_key n ''round_start''"
  "round_key m ''round_end'' \<noteq> round_key n ''round_start''" "''event_end'' \<noteq> round_key n ''round_start''"
  "round_key n ''round_start'' \<noteq> round_key m ''pairing''"
  by (auto dest!: arg_cong[where f = last] simp: last_round_key)

section \<open>One call of the dispatcher\<close>

lemma already_sent_mark [simp]: "already_sent (mark_sent clk e k c) clk e k' \<longleftrightarrow> k' = k \<or> already_sent c clk e k'"
  by (auto simp: already_sent_def mark_sent_def sent_cache_ttl_seconds_def)

lemma already_sent_empty [simp]: "\<not> already_sent (\<lambda>_. None) clk e k"
  by (simp add: already_sent_def cache_get_def)

text \<open>A key that stays marked until the instant \<open>h\<close>.\<close>

definition marked_until :: "int \<Rightarrow> uuid \<Rightarrow> cache \<Rightarrow> string \<Rightarrow> bool" where
  "marked_until h e c k \<longleftrightarrow> (\<exists>v x. c (mark_key e k) = Some (v, x) \<and> h \<le> x)"

lemma marked_until_mark [simp]:
  "h \<le> clk + 86400000000 \<Longrightarrow> marked_until h e (mark_sent clk e k c) k' \<longleftrightarrow> k' = k \<or> marked_until h e c k'"
  by (auto simp: marked_until_def mark_sent_def cache_set_def sent_cache_ttl_seconds_def)

lemma marked_until_sent: "marked_until h e c k \<Longrightarrow> clk < h \<Longrightarrow> already_sent c clk e k"
  by (auto simp: marked_until_def already_sent_def cache_get_def)

lemma send_all_once_keys:
  assumes "send_all_once e clk ds st = (err, st')" "clk < h" "h \<le> clk + 86400000000"
  shows "\<exists>new. ds_sent st' = ds_sent st @ new \<and> distinct (map snd new) \<and>
    (\<forall>k \<in> snd ` set new. \<not> already_sent (ds_cache st) clk e k) \<and>
    (\<forall>k. marked_until h e (ds_cache st') k \<longleftrightarrow> k \<in> snd ` set new \<or> marked_until h e (ds_cache st) k)"
  using assms
proof (induction e clk ds st rule: send_all_once.induct)
  case (2 e clk t key r out ds st)
  show ?case
  proof (cases "already_sent (ds_cache st) clk e key")
    case True
    then show ?thesis using 2 by simp
  next
    case new: False
    show ?thesis
    proof (cases r)
      case (Inl x)
      then show ?thesis using 2 new by auto
    next
      case (Inr x)
      let ?st = "\<lparr>ds_cache = mark_sent clk e key (ds_cache st), ds_sent = ds_sent st @ [(t, key)], ds_out = ds_out st @ out\<rparr>"
      have run: "send_all_once e clk ds ?st = (err, st')" using 2(3) new Inr by simp
      obtain ks where ks: "ds_sent st' = ds_sent st @ (t, key) # ks" "distinct (map snd ks)"
        "\<forall>k \<in> snd ` set ks. \<not> already_sent (mark_sent clk e key (ds_cache st)) clk e k"
        "\<forall>k. marked_until h e (ds_cache st') k \<longleftrightarrow>
           k \<in> snd ` set ks \<or> marked_until h e (mark_sent clk e key (ds_cache st)) k"
        using 2(2)[OF new Inr run 2(4,5)] by auto
      show ?thesis
        by (rule exI[of _ "(t, key) # ks"]) (use ks new 2(5) in auto)
    qed
  qed
qed simp

text \<open>\<open>k'\<close> occurs before the first \<open>k\<close>.\<close>

fun precedes :: "string \<Rightarrow> string \<Rightarrow> string list \<Rightarrow> bool" where
  "precedes k' k [] = True"
| "precedes k' k (x # xs) \<longleftrightarrow> x = k' \<or> x \<noteq> k \<and> precedes k' k xs"

lemma precedes_append:
  "precedes k' k xs \<Longrightarrow> k' \<in> set xs \<or> precedes k' k ys \<Longrightarrow> precedes k' k (xs @ ys)"
  by (induction xs) auto

lemma precedes_nth: "precedes k' k xs \<Longrightarrow> k' \<noteq> k \<Longrightarrow> i < length xs \<Longrightarrow> xs ! i = k \<Longrightarrow> \<exists>j < i. xs ! j = k'"
proof (induction xs arbitrary: i)
  case (Cons x xs)
  show ?case
  proof (cases "x = k'")
    case True
    then have "0 < i" using Cons.prems by (cases i) auto
    then show ?thesis using True by (intro exI[of _ 0]) simp
  next
    case False
    then have "x \<noteq> k" "precedes k' k xs" using Cons.prems by simp_all
    then obtain i' where i: "i = Suc i'" using Cons.prems by (cases i) auto
    then obtain j where "j < i'" "xs ! j = k'" using Cons.IH[of i'] Cons.prems \<open>precedes k' k xs\<close> by auto
    then show ?thesis using i by (intro exI[of _ "Suc j"]) simp
  qed
qed simp

lemma precedes_notin: "k \<notin> set xs \<Longrightarrow> precedes k' k xs"
  by (induction xs) auto

lemma send_all_once_order:
  "send_all_once e clk ds st = (err, st') \<Longrightarrow> precedes k' k (map (fst \<circ> snd) ds) \<Longrightarrow> \<not> already_sent (ds_cache st) clk e k' \<Longrightarrow>
   \<exists>new. ds_sent st' = ds_sent st @ new \<and> precedes k' k (map snd new)"
proof (induction e clk ds st rule: send_all_once.induct)
  case (2 e clk t key r out ds st)
  show ?case
  proof (cases "already_sent (ds_cache st) clk e key")
    case True
    then show ?thesis using 2 by auto
  next
    case new: False
    show ?thesis
    proof (cases r)
      case (Inl x)
      then show ?thesis using 2 new by auto
    next
      case (Inr x)
      let ?st = "\<lparr>ds_cache = mark_sent clk e key (ds_cache st), ds_sent = ds_sent st @ [(t, key)], ds_out = ds_out st @ out\<rparr>"
      have run: "send_all_once e clk ds ?st = (err, st')" using 2(3) new Inr by simp
      show ?thesis
      proof (cases "key = k'")
        case True
        obtain ks where "ds_sent st' = ds_sent st @ (t, key) # ks"
          using send_all_once_keys[OF run, of "clk + 1"] by auto
        then show ?thesis using True by (intro exI[of _ "(t, key) # ks"]) simp
      next
        case False
        then obtain ks where "ds_sent st' = ds_sent st @ (t, key) # ks" "precedes k' k (map snd ks)"
          using 2(2)[OF new Inr run] 2(4,5) by auto
        then show ?thesis using False 2(4) by (intro exI[of _ "(t, key) # ks"]) auto
      qed
    qed
  qed
qed simp

lemma due_messages_order:
  "precedes (round_key n ''pairing'') (round_key n ''round_start'')
     (map (fst \<circ> snd) (due_messages tag_name layer final_seconds e now d info))"
  by (auto simp: due_messages_def Let_def split: prod.split option.split event_phase.split)

section \<open>A day of ticks\<close>

text \<open>Any instance may tick; all share the cache. Each tick has its own clock readings and database.\<close>

record tick =
  tk_layer :: channel_layer
  tk_final_seconds :: int
  tk_leader :: bool
  tk_now :: int
  tk_clock :: int
  tk_db :: db

definition tick_result :: "(uuid \<Rightarrow> string) \<Rightarrow> uuid \<Rightarrow> tick \<Rightarrow> cache \<Rightarrow> dispatch_state" where
  "tick_result tag_name e t c =
     snd (dispatch tag_name (tk_layer t) (tk_final_seconds t) (tk_leader t) e (tk_now t) (tk_clock t) (tk_db t) c)"

fun keys_sent :: "(uuid \<Rightarrow> string) \<Rightarrow> uuid \<Rightarrow> tick list \<Rightarrow> cache \<Rightarrow> string list" where
  "keys_sent tag_name e [] c = []"
| "keys_sent tag_name e (t # ts) c =
     (let st = tick_result tag_name e t c in map snd (ds_sent st) @ keys_sent tag_name e ts (ds_cache st))"

lemma tick_result_cases:
  obtains "tick_result tag_name e t c = \<lparr>ds_cache = c, ds_sent = [], ds_out = []\<rparr>"
  | err where "send_all_once e (tk_clock t)
      (due_messages tag_name (tk_layer t) (tk_final_seconds t) e (tk_now t) (tk_db t) (get_current_phase e 20000000 (tk_now t) (tk_db t)))
      \<lparr>ds_cache = c, ds_sent = [], ds_out = []\<rparr> = (err, tick_result tag_name e t c)"
proof (cases "tk_leader t")
  case False
  then show ?thesis using that(1) by (simp add: tick_result_def dispatch_def)
next
  case True
  obtain err st where run: "send_all_once e (tk_clock t)
      (due_messages tag_name (tk_layer t) (tk_final_seconds t) e (tk_now t) (tk_db t) (get_current_phase e 20000000 (tk_now t) (tk_db t)))
      \<lparr>ds_cache = c, ds_sent = [], ds_out = []\<rparr> = (err, st)" by (rule prod.exhaust)
  then have "tick_result tag_name e t c = st"
    using True by (simp add: tick_result_def dispatch_def Let_def split: option.split)
  then show ?thesis using that(2) run by simp
qed

text \<open>What a tick between \<open>h\<close> less a day and \<open>h\<close> sends is new until \<open>h\<close> and marked afterwards.\<close>

lemma tick_result_keys:
  assumes "tk_clock t < h" "h \<le> tk_clock t + 86400000000"
  shows "distinct (map snd (ds_sent (tick_result tag_name e t c)))"
    and "k \<in> set (map snd (ds_sent (tick_result tag_name e t c))) \<Longrightarrow> \<not> marked_until h e c k"
    and "marked_until h e (ds_cache (tick_result tag_name e t c)) k \<longleftrightarrow>
      k \<in> set (map snd (ds_sent (tick_result tag_name e t c))) \<or> marked_until h e c k"
proof -
  let ?st = "tick_result tag_name e t c"
  have "distinct (map snd (ds_sent ?st)) \<and> (\<forall>k \<in> set (map snd (ds_sent ?st)). \<not> marked_until h e c k) \<and>
    (\<forall>k. marked_until h e (ds_cache ?st) k \<longleftrightarrow> k \<in> set (map snd (ds_sent ?st)) \<or> marked_until h e c k)"
  proof (cases rule: tick_result_cases[of tag_name e t c])
    case (2 err)
    show ?thesis using send_all_once_keys[OF 2 assms] marked_until_sent[OF _ assms(1), of e c] by auto
  qed simp
  then show "distinct (map snd (ds_sent ?st))"
    "k \<in> set (map snd (ds_sent ?st)) \<Longrightarrow> \<not> marked_until h e c k"
    "marked_until h e (ds_cache ?st) k \<longleftrightarrow> k \<in> set (map snd (ds_sent ?st)) \<or> marked_until h e c k" by auto
qed

lemma keys_sent_new:
  "\<forall>t \<in> set ts. h - 86400000000 \<le> tk_clock t \<and> tk_clock t < h \<Longrightarrow>
   distinct (keys_sent tag_name e ts c) \<and> (\<forall>k \<in> set (keys_sent tag_name e ts c). \<not> marked_until h e c k)"
proof (induction ts arbitrary: c)
  case (Cons t ts)
  then have t: "tk_clock t < h" "h \<le> tk_clock t + 86400000000" by simp_all
  have IH: "distinct (keys_sent tag_name e ts (ds_cache (tick_result tag_name e t c)))"
    "\<And>k. k \<in> set (keys_sent tag_name e ts (ds_cache (tick_result tag_name e t c))) \<Longrightarrow>
      \<not> marked_until h e (ds_cache (tick_result tag_name e t c)) k"
    using Cons by auto
  show ?case using IH tick_result_keys[OF t, where tag_name = tag_name and e = e and c = c] by (auto simp: Let_def)
qed simp


lemma send_all_once_marks:
  "send_all_once e clk ds st = (err, st') \<Longrightarrow> ds_cache st' (mark_key e k) \<noteq> None \<Longrightarrow>
   \<forall>x. x \<in> set (ds_sent st) \<longrightarrow> x \<in> set (ds_sent st') \<Longrightarrow>
   ds_cache st (mark_key e k) \<noteq> None \<or> k \<in> snd ` set (ds_sent st')"
proof (induction e clk ds st rule: send_all_once.induct)
  case (2 e clk t key r out ds st)
  show ?case
  proof (cases "already_sent (ds_cache st) clk e key")
    case True
    then show ?thesis using 2 by simp
  next
    case new: False
    show ?thesis
    proof (cases r)
      case (Inl x)
      then show ?thesis using 2 new by auto
    next
      case (Inr x)
      let ?st = "\<lparr>ds_cache = mark_sent clk e key (ds_cache st), ds_sent = ds_sent st @ [(t, key)], ds_out = ds_out st @ out\<rparr>"
      have run: "send_all_once e clk ds ?st = (err, st')" using 2(3) new Inr by simp
      obtain ks where ks: "ds_sent st' = ds_sent st @ (t, key) # ks"
        using send_all_once_keys[OF run, of "clk + 1"] by auto
      then have "mark_sent clk e key (ds_cache st) (mark_key e k) \<noteq> None \<or> k \<in> snd ` set (ds_sent st')"
        using 2(2)[OF new Inr run 2(4)] by simp
      then show ?thesis using ks by (auto simp: mark_sent_def cache_set_def)
    qed
  qed
qed simp

lemma keys_sent_order:
  "c (mark_key e (round_key n ''pairing'')) = None \<Longrightarrow>
   precedes (round_key n ''pairing'') (round_key n ''round_start'') (keys_sent tag_name e ts c)"
proof (induction ts arbitrary: c)
  case (Cons t ts)
  let ?k = "round_key n ''pairing''" and ?st = "tick_result tag_name e t c"
  have "precedes ?k (round_key n ''round_start'') (map snd (ds_sent ?st)) \<and>
    (ds_cache ?st (mark_key e ?k) \<noteq> None \<longrightarrow> ?k \<in> set (map snd (ds_sent ?st)))"
  proof (cases rule: tick_result_cases[of tag_name e t c])
    case 1
    then show ?thesis using Cons.prems by simp
  next
    case (2 err)
    have "\<not> already_sent c (tk_clock t) e ?k" using Cons.prems by (simp add: already_sent_def cache_get_def)
    then show ?thesis
      using send_all_once_order[OF 2 due_messages_order] send_all_once_marks[OF 2, of ?k] Cons.prems by auto
  qed
  then have "precedes ?k (round_key n ''round_start'') (map snd (ds_sent ?st))"
    and "?k \<in> set (map snd (ds_sent ?st)) \<or>
      precedes ?k (round_key n ''round_start'') (keys_sent tag_name e ts (ds_cache ?st))"
    using Cons.IH[of "ds_cache ?st"] by blast+
  then show ?case unfolding keys_sent.simps Let_def by (rule precedes_append)
qed simp


text \<open>C18. If the cache has no mark of the round yet, no run of ticks broadcasts the round's start before its
  pairing.\<close>

theorem round_start_after_pairing:
  assumes "c (mark_key e (round_key n ''pairing'')) = None"
    and "i < length (keys_sent tag_name e ts c)" "keys_sent tag_name e ts c ! i = round_key n ''round_start''"
  shows "\<exists>j < i. keys_sent tag_name e ts c ! j = round_key n ''pairing''"
  using precedes_nth[OF keys_sent_order[where c = c and e = e and n = n, OF assms(1)] _ assms(2,3)] by simp

definition live_tick :: "int \<Rightarrow> bool \<Rightarrow> tick" where
  "live_tick now up = \<lparr>tk_layer = (if up then Some (\<lambda>_. True) else None), tk_final_seconds = 30, tk_leader = True,
     tk_now = now, tk_clock = now, tk_db = live_db 1\<rparr>"

lemma live_tick_sent:
  assumes "1790000000000000 \<le> now" "now < 1790000100000000"
  shows "map snd (ds_sent (tick_result tag_name (UUID 7) (live_tick now True) Map.empty)) =
    [round_key 1 ''pairing'', round_key 1 ''round_start'']"
proof -
  have clock: "in_clock now" using assms by (simp add: in_clock_def)
  obtain rep out where pairing: "broadcast_pairing tag_name (Some (\<lambda>_. True)) (live_db 1) (live_round 1) = (Inr rep, out)"
    using broadcast_pairing_built[OF live_round_sendable] by fastforce
  obtain rep' out' where start: "broadcast_round_start tag_name (Some (\<lambda>_. True)) (live_db 1) now (live_round 1) = (Inr rep', out')"
    using broadcast_round_start_built[OF live_round_sendable clock] by fastforce
  have "\<not> float_seconds (1790000300000000 - now) \<le> 30"
  proof -
    have "2 powi 7 \<le> (of_int (1790000300000000 - now) / 1000000 :: rat)"
    proof -
      have "(200000000 :: int) \<le> 1790000300000000 - now" using assms by simp
      then have "(of_int 200000000 :: rat) \<le> of_int (1790000300000000 - now)" by (simp only: of_int_le_iff)
      then show ?thesis by (simp add: power_int_def)
    qed
    then have "fl64 (2 powi 7) \<le> float_seconds (1790000300000000 - now)" unfolding float_seconds_def by (rule fl64_mono)
    then show ?thesis by (simp only: fl64_powi) (simp add: power_int_def)
  qed
  then show ?thesis using assms
    by (simp add: tick_result_def dispatch_def live_tick_def live_phase due_messages_def Let_def pairing start del: One_nat_def)
qed


lemma round_start_after_pairing_witness:
  "\<exists>j < 1. keys_sent (\<lambda>_. '''') (UUID 7) [live_tick 1790000001000000 True] Map.empty ! j = round_key 1 ''pairing''"
  by (rule round_start_after_pairing) (simp_all add: live_tick_sent Let_def del: One_nat_def)

section \<open>Recipients\<close>

lemma recipients_mset_swap:
  "mset (map (\<lambda>c. (pc_participant c, pc_partner c, pc_room c, pc_is_offerer c)) (concat (map (pair_recipients tag_name d) ps))) =
   mset (map (\<lambda>c. (pc_partner c, pc_participant c, pc_room c, \<not> pc_is_offerer c)) (concat (map (pair_recipients tag_name d) ps)))"
  by (induction ps) (simp_all add: pair_recipients_def)

text \<open>Pairing messages come in matching pairs: for every recipient there is one with the roles swapped, in
  the same room, of which exactly one is the offerer; each is sent to its own participant's group and
  carries the partner's name and tags; and there are two for each pair of the round.\<close>

theorem recipients_matched:
  "mset (map (\<lambda>c. (pc_participant c, pc_partner c, pc_room c, pc_is_offerer c)) (select_pairing_recipients tag_name d r)) =
   mset (map (\<lambda>c. (pc_partner c, pc_participant c, pc_room c, \<not> pc_is_offerer c)) (select_pairing_recipients tag_name d r)) \<and>
   map pc_group (select_pairing_recipients tag_name d r) =
   map (participant_channel_group \<circ> pc_participant) (select_pairing_recipients tag_name d r) \<and>
   map (\<lambda>c. (pc_partner_name c, pc_partner_tags c)) (select_pairing_recipients tag_name d r) =
   map (\<lambda>c. (display_name_of d (pc_partner c), tag_names_of tag_name d (pc_partner c))) (select_pairing_recipients tag_name d r) \<and>
   length (select_pairing_recipients tag_name d r) = 2 * length (round_pairs d (rd_event r) (rd_id r))"
proof -
  have "map pc_group (concat (map (pair_recipients tag_name d) ps)) =
      map (participant_channel_group \<circ> pc_participant) (concat (map (pair_recipients tag_name d) ps))"
    "map (\<lambda>c. (pc_partner_name c, pc_partner_tags c)) (concat (map (pair_recipients tag_name d) ps)) =
      map (\<lambda>c. (display_name_of d (pc_partner c), tag_names_of tag_name d (pc_partner c))) (concat (map (pair_recipients tag_name d) ps))"
    "length (concat (map (pair_recipients tag_name d) ps)) = 2 * length ps" for ps
    by (induction ps) (simp_all add: pair_recipients_def)
  then show ?thesis unfolding select_pairing_recipients_def by (intro conjI recipients_mset_swap)
qed


section \<open>Reconnecting\<close>

lemma at_most_one: "length (filter P xs) \<le> 1 \<Longrightarrow> filter P xs = [] \<or> (\<exists>x. filter P xs = [x])"
  by (cases "filter P xs") auto

text \<open>The jobs of a round that go to one participant are those of its recipient entries.\<close>

lemma jobs_of_participant:
  assumes "build_all (map (\<lambda>c. (pc_group c, f c)) (select_pairing_recipients tag_name d r)) = Inr out"
  shows "map snd (filter (\<lambda>j. fst j = participant_channel_group i) out) =
      map (projr \<circ> f) (filter (\<lambda>c. uuid_str (pc_participant c) = uuid_str i) (select_pairing_recipients tag_name d r))"
    and "c \<in> set (select_pairing_recipients tag_name d r) \<Longrightarrow> f c = Inr (projr (f c))"
proof -
  let ?cs = "select_pairing_recipients tag_name d r"
  have grp: "pc_group c = participant_channel_group i \<longleftrightarrow> uuid_str (pc_participant c) = uuid_str i" if "c \<in> set ?cs" for c
    using that by (auto simp: select_pairing_recipients_def pair_recipients_def participant_channel_group_def)
  have "out = map (\<lambda>c. (pc_group c, projr (f c))) ?cs" using build_all_InrD[OF assms] by (simp add: comp_def)
  moreover have "filter (\<lambda>c. pc_group c = participant_channel_group i) ?cs =
      filter (\<lambda>c. uuid_str (pc_participant c) = uuid_str i) ?cs" using grp by (intro filter_cong) auto
  ultimately show "map snd (filter (\<lambda>j. fst j = participant_channel_group i) out) =
      map (projr \<circ> f) (filter (\<lambda>c. uuid_str (pc_participant c) = uuid_str i) ?cs)"
    by (simp add: filter_map comp_def)
  show "f c = Inr (projr (f c))" if "c \<in> set ?cs" using build_all_InrD[OF assms] that by fastforce
qed

lemma participant_recipients_le:
  assumes "uuid_int i < 2 ^ 128" "\<forall>p \<in> set ps. uuid_int (pr_a p) < 2 ^ 128 \<and> uuid_int (pr_b p) < 2 ^ 128 \<and> pr_a p \<noteq> pr_b p"
  shows "length (filter (\<lambda>c. uuid_str (pc_participant c) = uuid_str i) (concat (map (pair_recipients tag_name d) ps))) =
    length (filter (on_pair i) ps)"
  using assms(2)
proof (induction ps)
  case (Cons p ps)
  have "uuid_str (pr_a p) = uuid_str i \<longleftrightarrow> pr_a p = i" "uuid_str (pr_b p) = uuid_str i \<longleftrightarrow> pr_b p = i"
    using assms(1) Cons.prems uuid_str_inj by auto
  then show ?case using Cons by (auto simp: pair_recipients_def on_pair_def)
qed simp


lemma live_jobs:
  assumes "in_clock now"
  shows "\<exists>jobs starts. pairing_jobs tag_name (live_db 1) (live_round 1) = Inr jobs \<and>
    round_start_jobs tag_name (live_db 1) now (live_round 1) = Inr starts"
  using build_all_built[of "map (\<lambda>c. (pc_group c, pairing_message c (live_round 1))) (select_pairing_recipients tag_name (live_db 1) (live_round 1))"]
    build_all_built[of "map (\<lambda>c. (pc_group c, round_start_message now c (live_round 1))) (select_pairing_recipients tag_name (live_db 1) (live_round 1))"]
    sendable_pairing[OF live_round_sendable] sendable_start[OF live_round_sendable assms]
  by (simp add: pairing_jobs_def round_start_jobs_def)



section \<open>Presence\<close>

lemma first_by_pk_filter: "first_by_pk (filter P xs) = Some x \<Longrightarrow> x \<in> set xs \<and> P x"
  using min_by_in[of "filter P xs" pr_id] by (auto simp: first_by_pk_def split: if_splits)

lemma current_pair_live:
  assumes "current_pair_for_participant e i now d = Some p"
  shows "\<exists>ph r m. get_current_phase e 20000000 now d = (ph, Some r, m) \<and> (ph = EP_Preconnect \<or> ph = EP_InRound) \<and>
    p \<in> set (round_pairs d e (rd_id r)) \<and> on_pair i p"
  using assms by (auto simp: current_pair_for_participant_def split: prod.splits option.splits if_splits
      dest!: first_by_pk_filter)

text \<open>A participant's presence is told to at most one group, that of the partner in the round being played
  or prepared, and never outside a live round; the message is a valid \<open>server.partner_state\<close> about
  that participant.\<close>

theorem presence_only_to_partner:
  assumes "partner_presence_jobs e i state now d = Inr jobs" "(grp, m) \<in> set jobs"
    and distinct: "\<forall>p \<in> set (db_pairs d). pr_a p \<noteq> pr_b p"
  shows "\<exists>ph r rest p partner. get_current_phase e 20000000 now d = (ph, Some r, rest) \<and>
    (ph = EP_Preconnect \<or> ph = EP_InRound) \<and> p \<in> set (db_pairs d) \<and> pr_round p = rd_id r \<and>
    {pr_a p, pr_b p} = {i, partner} \<and> partner \<noteq> i \<and> grp = participant_channel_group partner \<and> jobs = [(grp, m)] \<and>
    (\<exists>payload. validate_message (Parsed m) = Inr (ServerPartnerState, payload) \<and>
      dict_get payload ''partner_id'' = Some (JStr (uuid_str i)))"
proof -
  obtain p where p: "current_pair_for_participant e i now d = Some p"
    and m: "build_server_partner_state (uuid_str i) (if state = [] then ''disconnected'' else state) (datetime_to_unix_ms now) = Inr m"
    and jobs: "jobs = [(participant_channel_group (partner_on_pair p i), m)]" "grp = participant_channel_group (partner_on_pair p i)"
    using assms(1,2) by (auto simp: partner_presence_jobs_def bindE_Inr_iff split: option.splits)
  obtain ph r rest where r: "get_current_phase e 20000000 now d = (ph, Some r, rest)" "ph = EP_Preconnect \<or> ph = EP_InRound"
    "p \<in> set (db_pairs d)" "pr_round p = rd_id r" "on_pair i p"
    using current_pair_live[OF p] by (auto simp: round_pairs_def)
  have "{pr_a p, pr_b p} = {i, partner_on_pair p i}" "partner_on_pair p i \<noteq> i"
    using r(3,5) distinct by (auto simp: partner_on_pair_def on_pair_def)
  moreover have "\<exists>payload. validate_message (Parsed m) = Inr (ServerPartnerState, payload) \<and>
      dict_get payload ''partner_id'' = Some (JStr (uuid_str i))"
    using build_message_accepted[OF m[unfolded build_server_partner_state_def]] by (auto simp: dict_get_Cons)
  ultimately show ?thesis using r jobs by blast
qed

lemma presence_only_to_partner_witness:
  "\<exists>m partner. partner_presence_jobs (UUID 7) (UUID 2) ''connected'' 1790000001000000 (live_db 1) =
     Inr [(participant_channel_group partner, m)] \<and> partner \<noteq> UUID 2"
proof -
  have clock: "in_clock 1790000001000000" by (simp add: in_clock_def)
  have pair: "current_pair_for_participant (UUID 7) (UUID 2) 1790000001000000 (live_db 1) = Some live_pair"
    by (simp add: current_pair_for_participant_def live_phase first_by_pk_def on_pair_def)
      (simp add: live_pair_def)
  obtain m where m: "partner_presence_jobs (UUID 7) (UUID 2) ''connected'' 1790000001000000 (live_db 1) =
      Inr [(participant_channel_group (UUID 1), m)]"
    using pair py_strip_uuid_str[of "UUID 2"] in_clock_positive[OF clock]
    by (auto simp: partner_presence_jobs_def build_server_partner_state_def build_message_Inr payload_fits_def
        required_fields_def optional_fields_def has_field_def opt_ok_def dict_get_Cons bindE_Inr_iff partner_on_pair_def live_pair_def
        partner_states_def py_strip_def strip_by_Nil_iff)
  show ?thesis
    using presence_only_to_partner[OF m, of "participant_channel_group (UUID 1)" m] m
    by (auto simp: live_db_def empty_db_def live_pair_def)
qed

section \<open>What dispatching cannot do\<close>

lemma first_broadcast_refused:
  "due_messages tag_name layer fs e now d info = (t, key, (Inl err, [])) # ds \<Longrightarrow> \<not> already_sent c clk e key \<Longrightarrow>
   send_all_once e clk (due_messages tag_name layer fs e now d info) \<lparr>ds_cache = c, ds_sent = [], ds_out = []\<rparr> =
     (Some err, \<lparr>ds_cache = c, ds_sent = [], ds_out = []\<rparr>)"
  by simp

text \<open>A round numbered above 6, which \<open>Event.num_rounds\<close> and the matching engine allow, can never be run:
  while it is live every dispatch raises at its pairing, sends nothing and marks nothing.\<close>

theorem seventh_round_never_starts:
  assumes phase: "get_current_phase e 20000000 now d = (ph, Some r, remaining)" "ph = EP_Preconnect \<or> ph = EP_InRound"
    and r: "6 < rd_number r" "round_pairs d (rd_event r) (rd_id r) \<noteq> []"
    and new: "\<not> already_sent c clk e (round_key (rd_number r) ''pairing'')"
  shows "\<exists>err. dispatch tag_name layer fs True e now clk d c = (Inl err, \<lparr>ds_cache = c, ds_sent = [], ds_out = []\<rparr>)"
proof -
  have "select_pairing_recipients tag_name d r \<noteq> []"
    using r(2) by (cases "round_pairs d (rd_event r) (rd_id r)") (auto simp: select_pairing_recipients_def pair_recipients_def)
  then obtain err where "broadcast_pairing tag_name layer d r = (Inl err, [])"
    using broadcast_pairing_refused[of r tag_name d layer] r(1) by auto
  then obtain ds where "due_messages tag_name layer fs e now d (ph, Some r, remaining) =
      (ServerPairing, round_key (rd_number r) ''pairing'', (Inl err, [])) # ds"
    using phase(2) by (auto simp: due_messages_def Let_def)
  then show ?thesis using first_broadcast_refused[OF _ new] by (simp add: dispatch_def phase(1) Let_def)
qed

lemma seventh_round_never_starts_witness:
  "\<exists>err. dispatch (\<lambda>_. '''') None 30 True (UUID 7) 1790000001000000 0 (live_db 7) Map.empty =
     (Inl err, \<lparr>ds_cache = Map.empty, ds_sent = [], ds_out = []\<rparr>)"
  by (rule seventh_round_never_starts[OF live_phase(1)]) simp_all

lemma publish_down [simp]: "publish None g m = []"
  by (simp add: publish_def)

lemma already_sent_later:
  "clk \<le> clk' \<Longrightarrow> clk' < clk + 86400000000 \<Longrightarrow> already_sent (mark_sent clk e k c) clk' e k"
  by (simp add: already_sent_def mark_sent_def sent_cache_ttl_seconds_def)

text \<open>A pairing broadcast that reached nobody because there was no channel layer is marked as sent all the
  same, so the dispatches of the following day do not repeat it even when the layer is back.\<close>

theorem undelivered_pairing_not_retried:
  assumes phase: "get_current_phase e 20000000 now d = (EP_Preconnect, Some r, remaining)"
      "get_current_phase e 20000000 now' d = (EP_Preconnect, Some r, remaining')"
    and ok: "round_sendable d r"
    and new: "\<not> already_sent c clk e (round_key (rd_number r) ''pairing'')"
    and later: "clk \<le> clk'" "clk' < clk + 24 * 60 * 60 * 1000000"
  shows "\<exists>report c'. dispatch tag_name None fs True e now clk d c =
      (report, \<lparr>ds_cache = c', ds_sent = [(ServerPairing, round_key (rd_number r) ''pairing'')], ds_out = []\<rparr>) \<and>
    ds_out (snd (dispatch tag_name (Some (\<lambda>_. True)) fs True e now' clk' d c')) = []"
proof -
  let ?k = "round_key (rd_number r) ''pairing''"
  obtain rep where "broadcast_pairing tag_name None d r = (Inr rep, [])"
    using broadcast_pairing_built[OF ok, of tag_name None] by auto
  then have "\<exists>report. dispatch tag_name None fs True e now clk d c =
      (report, \<lparr>ds_cache = mark_sent clk e ?k c, ds_sent = [(ServerPairing, ?k)], ds_out = []\<rparr>)"
    using new by (simp add: dispatch_def phase(1) due_messages_def Let_def)
  moreover have "ds_out (snd (dispatch tag_name (Some (\<lambda>_. True)) fs True e now' clk' d (mark_sent clk e ?k c))) = []"
  proof -
    obtain b where "due_messages tag_name (Some (\<lambda>_. True)) fs e now' d (EP_Preconnect, Some r, remaining') = [(ServerPairing, ?k, b)]"
      by (simp add: due_messages_def Let_def)
    then show ?thesis using already_sent_later[of clk clk' e ?k c] later
      by (cases b) (simp add: dispatch_def phase(2) Let_def)
  qed
  ultimately show ?thesis by blast
qed

lemma undelivered_pairing_not_retried_witness:
  "\<exists>report c'. dispatch (\<lambda>_. '''') None 30 True (UUID 7) 1789999985000000 5 (live_db 1) Map.empty =
      (report, \<lparr>ds_cache = c', ds_sent = [(ServerPairing, round_key 1 ''pairing'')], ds_out = []\<rparr>) \<and>
    ds_out (snd (dispatch (\<lambda>_. '''') (Some (\<lambda>_. True)) 30 True (UUID 7) 1789999990000000 6 (live_db 1) c')) = []"
  using undelivered_pairing_not_retried[OF live_phase(2)[of 1789999985000000 1] live_phase(2)[of 1789999990000000 1],
      of Map.empty 5 6 "\<lambda>_. ''''" 30] by (simp del: One_nat_def)

end
