(* ===== verification/Consumer_Props.thy ===== *)
theory Consumer_Props
  imports Consumer_Safety Realtime_Props
begin

text \<open>
  What the consumer promises: nothing happens before the handshake, the rate limit holds in every
  window of a minute, signalling reaches the partner of the room only, a new connection takes over from
  the old one, a reconnect silences the absence watch; and how a telemetry message escapes all of this.
\<close>

section \<open>Before the handshake\<close>

definition error_frame :: "frame \<Rightarrow> bool" where
  "error_frame f \<longleftrightarrow> (case f of Closed _ \<Rightarrow> True | Sent m \<Rightarrow> \<exists>p. validate_message (Parsed m) = Inr (ServerError, p))"

definition only_errors :: "string \<Rightarrow> act \<Rightarrow> bool" where
  "only_errors ch a \<longleftrightarrow> (\<forall>w. \<exists>fs. snd (a w) = w\<lparr>wd_wire := wd_wire w @ map (Pair ch) fs\<rparr> \<and> list_all error_frame fs)"

named_theorems error_rules \<open>handlers that only send errors and close\<close>

lemma only_errors_skip [error_rules]: "only_errors ch skip" "only_errors ch raise"
  by (auto simp: only_errors_def skip_def raise_def intro!: exI[of _ "[]"])

lemma only_errors_andthen [error_rules]:
  assumes "only_errors ch a" "only_errors ch b"
  shows "only_errors ch (andthen a b)"
  unfolding only_errors_def
proof
  fix w
  obtain fs where fs: "snd (a w) = w\<lparr>wd_wire := wd_wire w @ map (Pair ch) fs\<rparr>" "list_all error_frame fs"
    using assms(1) unfolding only_errors_def by blast
  obtain gs where gs: "snd (b (snd (a w))) = (snd (a w))\<lparr>wd_wire := wd_wire (snd (a w)) @ map (Pair ch) gs\<rparr>" "list_all error_frame gs"
    using assms(2) unfolding only_errors_def by blast
  have "snd (andthen a b w) = (if fst (a w) then snd (b (snd (a w))) else snd (a w))"
    by (simp add: andthen_def split: prod.split)
  moreover have "snd (b (snd (a w))) = w\<lparr>wd_wire := wd_wire w @ map (Pair ch) (fs @ gs)\<rparr>"
    unfolding gs(1) by (simp add: fs(1))
  moreover have "list_all error_frame (fs @ gs)" using fs(2) gs(2) by simp
  ultimately show "\<exists>fs. snd (andthen a b w) = w\<lparr>wd_wire := wd_wire w @ map (Pair ch) fs\<rparr> \<and> list_all error_frame fs"
    using fs by (cases "fst (a w)") (auto intro: exI[of _ "fs @ gs"])
qed

lemma only_errors_close [error_rules]: "only_errors ch (close_socket ch n)"
  by (auto simp: only_errors_def close_socket_def emit_def update_def error_frame_def intro!: exI[of _ "[Closed n]"])

lemma only_errors_built [error_rules]: "only_errors ch (send_built ch (build_server_error k m t d))"
proof (cases "build_server_error k m t d")
  case (Inl e)
  then show ?thesis by (simp add: send_built_def error_rules)
next
  case (Inr msg)
  then have "\<exists>p. validate_message (Parsed msg) = Inr (ServerError, p)"
    unfolding build_server_error_def by (blast dest: build_message_accepted)
  then show ?thesis
    by (auto simp: only_errors_def Inr send_built_def emit_def update_def error_frame_def intro!: exI[of _ "[Sent msg]"])
qed

lemma only_errors_send [error_rules]:
  "only_errors ch (send_error ch k m t)" "only_errors ch (fatal ch k)" "only_errors ch (send_built ch (error_from_protocol_error e))"
  unfolding send_error_def fatal_def error_from_protocol_error_def
  by (auto intro!: error_rules split: option.split)

text \<open>A message that is not an authenticated socket's hello.\<close>

lemma handle_message_early:
  assumes "wd_conns w ch = Some c" "\<not> cn_handshake c" "t \<noteq> ClientHello \<or> \<not> cn_authenticated c"
  shows "\<exists>fs. snd (handle_message tag_name cfg en ch t payload w) = w\<lparr>wd_wire := wd_wire w @ map (Pair ch) fs\<rparr> \<and> list_all error_frame fs"
proof -
  have "only_errors ch (if \<not> cn_authenticated c \<or> cn_participant c = None then fatal ch ErrNotAuthenticated
      else send_error ch ErrInvalidState ''client.hello is required before other messages.'' (Some (type_value t)))"
    by (simp add: error_rules)
  then show ?thesis using assms by (auto simp: handle_message_def with_conn_def only_errors_def)
qed

lemma checked_message_early:
  assumes c: "wd_conns w ch = Some c" "\<not> cn_handshake c"
    and early: "\<forall>payload. cn_authenticated c \<longrightarrow> validate_message msg \<noteq> Inr (ClientHello, payload)"
  shows "\<exists>fs. snd (checked_message tag_name cfg en ch msg w) = w\<lparr>wd_wire := wd_wire w @ map (Pair ch) fs\<rparr> \<and> list_all error_frame fs"
proof (cases "validate_message msg")
  case (Inl exc)
  have "only_errors ch (andthen (send_built ch (error_from_protocol_error exc))
      (case error_close_code (pe_code exc) of None \<Rightarrow> skip | Some k \<Rightarrow> close_socket ch k))"
    by (intro error_rules) (simp add: error_rules split: option.split)
  then show ?thesis by (simp add: checked_message_def Inl only_errors_def)
next
  case (Inr tp)
  obtain t payload where tp: "tp = (t, payload)" by (rule prod.exhaust)
  have t: "t \<noteq> ClientHello \<or> \<not> cn_authenticated c" using early Inr tp by auto
  obtain fs where fs: "snd (handle_message tag_name cfg en ch t payload w) = w\<lparr>wd_wire := wd_wire w @ map (Pair ch) fs\<rparr>" "list_all error_frame fs"
    using handle_message_early[OF c t] by blast
  obtain gs where gs: "snd (fatal ch ErrInternal (w\<lparr>wd_wire := wd_wire w @ map (Pair ch) fs\<rparr>)) =
      w\<lparr>wd_wire := wd_wire w @ map (Pair ch) (fs @ gs)\<rparr>" "list_all error_frame gs"
    using only_errors_send(2)[of ch ErrInternal, unfolded only_errors_def, rule_format, of "w\<lparr>wd_wire := wd_wire w @ map (Pair ch) fs\<rparr>"]
    by auto
  obtain ok where run: "handle_message tag_name cfg en ch t payload w = (ok, w\<lparr>wd_wire := wd_wire w @ map (Pair ch) fs\<rparr>)"
    using fs(1) by (metis prod.collapse)
  show ?thesis
  proof (cases ok)
    case True
    then show ?thesis using fs by (auto simp: checked_message_def Inr tp run)
  next
    case False
    then show ?thesis using fs gs by (auto simp: checked_message_def Inr tp run intro!: exI[of _ "fs @ gs"])
  qed
qed

text \<open>C14. Until its hello is accepted a socket changes nothing: whatever text it sends, and whatever it sends
  without being authenticated, only its own counters change and it is sent nothing but errors and
  closing frames.\<close>

theorem nothing_before_hello:
  assumes c: "wd_conns w ch = Some c" "\<not> cn_handshake c"
    and early: "\<forall>msg n payload. cn_authenticated c \<longrightarrow> raw = Some (msg, n) \<longrightarrow> validate_message msg \<noteq> Inr (ClientHello, payload)"
  shows "\<exists>fs c'. snd (receive tag_name cfg en ch raw w) =
      w\<lparr>wd_conns := (wd_conns w)(ch \<mapsto> c'), wd_wire := wd_wire w @ map (Pair ch) fs\<rparr> \<and> list_all error_frame fs \<and>
    \<not> cn_handshake c' \<and> cn_participant c' = cn_participant c \<and> cn_authenticated c' = cn_authenticated c"
proof -
  let ?w = "set_conn ch (\<lambda>c. c\<lparr>cn_last_activity := en_mono en\<rparr>) w"
  have upd: "set_conn ch f w = w\<lparr>wd_conns := (wd_conns w)(ch \<mapsto> f c)\<rparr>" for f
    using c(1) by (simp add: set_conn_def)
  have upd2: "set_conn ch f ?w = w\<lparr>wd_conns := (wd_conns w)(ch \<mapsto> f (c\<lparr>cn_last_activity := en_mono en\<rparr>))\<rparr>" for f
    using c(1) by (simp add: set_conn_def)
  have no_text: ?thesis if "snd (receive tag_name cfg en ch raw w) = set_conn ch f w" "\<not> cn_handshake (f c)"
      "cn_participant (f c) = cn_participant c" "cn_authenticated (f c) = cn_authenticated c" for f
    using that by (intro exI[of _ "[]"] exI[of _ "f c"]) (simp add: upd)
  show ?thesis
  proof (cases raw)
    case None
    then show ?thesis using c by (intro no_text[of "\<lambda>c. c\<lparr>cn_last_activity := en_mono en\<rparr>"]) (simp_all add: receive_def with_conn_def Let_def)
  next
    case (Some mn)
    obtain msg n where mn: "mn = (msg, n)" by (rule prod.exhaust)
    have early': "\<forall>payload. cn_authenticated c \<longrightarrow> validate_message msg \<noteq> Inr (ClientHello, payload)" using early Some mn by auto
    consider cause detail where "telemetry_of cfg msg = Some (cause, detail)" | "telemetry_of cfg msg = None"
      by (cases "telemetry_of cfg msg") auto
    then show ?thesis
    proof cases
      case (1 cause detail)
      then show ?thesis using c
        by (intro exI[of _ "[]"] exI[of _ "c\<lparr>cn_last_activity := en_mono en, cn_cause := cause, cn_detail := detail\<rparr>"])
          (simp add: receive_def with_conn_def Let_def Some mn upd2)
    next
      case 2
      show ?thesis
      proof (cases "st_max_bytes cfg < n")
        case True
        have "only_errors ch (andthen (send_error ch ErrInvalidMessage ''Message exceeds the maximum allowed size.'' None) (close_socket ch 1009))"
          by (intro error_rules)
        then obtain fs where "snd (andthen (send_error ch ErrInvalidMessage ''Message exceeds the maximum allowed size.'' None) (close_socket ch 1009) ?w) =
            ?w\<lparr>wd_wire := wd_wire ?w @ map (Pair ch) fs\<rparr>" "list_all error_frame fs" unfolding only_errors_def by blast
        then show ?thesis using c True 2
          by (intro exI[of _ fs] exI[of _ "c\<lparr>cn_last_activity := en_mono en\<rparr>"]) (simp add: receive_def with_conn_def Let_def Some mn upd)
      next
        case False
        obtain ok stamps where rate: "within_rate_limit (st_rate_limit cfg) (en_mono en) (cn_rate c) = (ok, stamps)" by (rule prod.exhaust)
        let ?c = "c\<lparr>cn_last_activity := en_mono en, cn_rate := stamps\<rparr>"
        let ?w2 = "w\<lparr>wd_conns := (wd_conns w)(ch \<mapsto> ?c)\<rparr>"
        have "\<exists>fs. snd ((if ok then checked_message tag_name cfg en ch msg else fatal ch ErrRateLimited) ?w2) =
            ?w2\<lparr>wd_wire := wd_wire ?w2 @ map (Pair ch) fs\<rparr> \<and> list_all error_frame fs"
        proof (cases ok)
          case True
          have "wd_conns ?w2 ch = Some ?c" "\<not> cn_handshake ?c"
            "\<forall>payload. cn_authenticated ?c \<longrightarrow> validate_message msg \<noteq> Inr (ClientHello, payload)" using c early' by simp_all
          then show ?thesis unfolding if_P[OF True] by (rule checked_message_early)
        next
          case False
          show ?thesis unfolding if_not_P[OF False]
            by (rule only_errors_send(2)[of ch ErrRateLimited, unfolded only_errors_def, rule_format])
        qed
        then obtain fs where "snd ((if ok then checked_message tag_name cfg en ch msg else fatal ch ErrRateLimited) ?w2) =
            ?w2\<lparr>wd_wire := wd_wire ?w2 @ map (Pair ch) fs\<rparr>" "list_all error_frame fs" by blast
        then show ?thesis using c False 2
          by (intro exI[of _ fs] exI[of _ ?c]) (simp add: receive_cases with_conn_def Let_def Some mn rate upd2)
      qed
    qed
  qed
qed


section \<open>The rate limit\<close>

text \<open>The instants of the messages that pass, when messages arrive at the given instants.\<close>

fun accepted_at :: "nat \<Rightarrow> int list \<Rightarrow> int list \<Rightarrow> int list" where
  "accepted_at limit stamps [] = []"
| "accepted_at limit stamps (t # ts) =
     (case within_rate_limit limit t stamps of (ok, stamps') \<Rightarrow> (if ok then [t] else []) @ accepted_at limit stamps' ts)"

definition in_window :: "int \<Rightarrow> int list \<Rightarrow> int list" where
  "in_window x ts = filter (\<lambda>t. x - 60000000 < t \<and> t \<le> x) ts"

lemma dropWhile_sorted: "sorted xs \<Longrightarrow> dropWhile (\<lambda>t. t \<le> b) xs = filter (\<lambda>t. \<not> t \<le> b) xs" for xs :: "int list"
proof (induction xs)
  case (Cons x xs)
  show ?case
  proof (cases "x \<le> b")
    case False
    then have "\<forall>y \<in> set xs. \<not> y \<le> b" using Cons.prems by fastforce
    then have "filter (\<lambda>t. \<not> t \<le> b) xs = xs" by (simp add: filter_id_conv)
    then show ?thesis using False by simp
  qed (use Cons in simp)
qed simp

text \<open>
  The stamps kept are the recent ones of all messages that passed: the older ones left the window of
  the last arrival \<open>b\<close>.
\<close>

lemma accepted_window:
  assumes "sorted (acc @ ts)" "sorted stamps" "acc = old @ stamps" "\<forall>t \<in> set old. \<forall>t' \<in> set ts. t \<le> t' - 60000000"
    and "\<forall>x. length (in_window x acc) \<le> limit"
  shows "length (in_window x (acc @ accepted_at limit stamps ts)) \<le> limit"
  using assms
proof (induction ts arbitrary: acc old stamps)
  case (Cons t ts)
  let ?recent = "filter (\<lambda>s. \<not> s \<le> t - 60000000) stamps" and ?gone = "takeWhile (\<lambda>s. s \<le> t - 60000000) stamps"
  have acc_le: "s \<le> t" if "s \<in> set acc" for s using Cons.prems(1) that by (auto simp: sorted_append)
  have ts_ge: "t \<le> s" if "s \<in> set ts" for s using Cons.prems(1) that by (auto simp: sorted_append)
  have rec: "dropWhile (\<lambda>s. s \<le> t - 60000000) stamps = ?recent" by (rule dropWhile_sorted[OF Cons.prems(2)])
  have split: "stamps = ?gone @ ?recent" using takeWhile_dropWhile_id[of "\<lambda>s. s \<le> t - 60000000" stamps] by (simp only: rec)
  have old': "\<forall>s \<in> set (old @ ?gone). \<forall>s' \<in> set ts. s \<le> s' - 60000000"
    using Cons.prems(4) ts_ge by (fastforce dest!: set_takeWhileD)
  have acc': "acc = (old @ ?gone) @ ?recent" unfolding append_assoc using Cons.prems(3) by (simp only: split[symmetric])
  show ?case
  proof (cases "limit \<le> length ?recent")
    case True
    have "length (in_window x (acc @ accepted_at limit ?recent ts)) \<le> limit"
    proof (rule Cons.IH[of acc ?recent "old @ ?gone"])
      show "sorted (acc @ ts)" using Cons.prems(1) by (auto simp: sorted_append)
      show "sorted ?recent" using Cons.prems(2) by (rule sorted_wrt_filter)
    qed (rule acc', rule old', rule Cons.prems(5))
    then show ?thesis using True rec by (simp add: within_rate_limit_def Let_def)
  next
    case False
    have win: "length (in_window y (acc @ [t])) \<le> limit" for y
    proof (cases "t \<le> y")
      case True
      have "in_window y (old @ ?gone) = []"
        using Cons.prems(4) True by (auto simp: in_window_def filter_empty_conv dest!: set_takeWhileD)
      then have "in_window y acc = in_window y ?recent" by (subst acc') (simp add: in_window_def)
      moreover have "length (in_window y ?recent) \<le> length ?recent" unfolding in_window_def by (rule length_filter_le)
      moreover have "length (in_window y (acc @ [t])) \<le> length (in_window y acc) + 1" by (simp add: in_window_def)
      ultimately have "length (in_window y (acc @ [t])) \<le> length ?recent + 1" by simp
      then show ?thesis using False by simp
    next
      case False
      then show ?thesis using Cons.prems(5) by (simp add: in_window_def)
    qed
    have "length (in_window x ((acc @ [t]) @ accepted_at limit (?recent @ [t]) ts)) \<le> limit"
    proof (rule Cons.IH[of "acc @ [t]" "?recent @ [t]" "old @ ?gone"])
      show "sorted ((acc @ [t]) @ ts)" using Cons.prems(1) by simp
      have "\<forall>s \<in> set ?recent. s \<le> t" using acc_le Cons.prems(3) by auto
      then show "sorted (?recent @ [t])" using Cons.prems(2) by (auto simp: sorted_append sorted_wrt_filter)
      show "acc @ [t] = (old @ ?gone) @ ?recent @ [t]" using acc' by (simp only: append_assoc)
      show "\<forall>y. length (in_window y (acc @ [t])) \<le> limit" using win by blast
    qed (rule old')
    then show ?thesis using False rec by (simp add: within_rate_limit_def Let_def)
  qed
qed simp

text \<open>However messages arrive on a socket, at most the configured number of them passes the rate limit in any
  minute.\<close>

theorem rate_limit_holds:
  assumes "sorted ts"
  shows "length (filter (\<lambda>t. x - 60 * 1000000 < t \<and> t \<le> x) (accepted_at limit [] ts)) \<le> limit"
  using accepted_window[of "[]" ts "[]" "[]" limit x] assms by (simp add: in_window_def)

lemma rate_limit_holds_witness:
  "length (filter (\<lambda>t. 7 - 60 * 1000000 < t \<and> t \<le> 7) (accepted_at 2 [] [1, 2, 3, 4])) \<le> 2"
  using rate_limit_holds[of "[1, 2, 3, 4]" 7 2] by simp


section \<open>Facts that handlers keep\<close>

definition invar :: "(world \<Rightarrow> bool) \<Rightarrow> act \<Rightarrow> bool" where
  "invar P a \<longleftrightarrow> (\<forall>w. P w \<longrightarrow> P (snd (a w)))"

named_theorems invar_rules \<open>handlers that keep a fact about the world\<close>

lemma invarD: "invar P a \<Longrightarrow> P w \<Longrightarrow> P (snd (a w))"
  by (simp add: invar_def)

lemma invar_skip [invar_rules]: "invar P skip" "invar P raise"
  by (simp_all add: invar_def skip_def raise_def)

lemma invar_andthen [invar_rules]: "invar P a \<Longrightarrow> invar P b \<Longrightarrow> invar P (andthen a b)"
  by (auto simp: invar_def andthen_def split: prod.split)

text \<open>A fact about the cache that writing other keys keeps, and about messages waiting for channels.\<close>

definition cache_fact :: "string \<Rightarrow> (world \<Rightarrow> bool) \<Rightarrow> bool" where
  "cache_fact k P \<longleftrightarrow> (\<forall>w w'. P w \<longrightarrow> wd_cache w' k = wd_cache w k \<longrightarrow> set (wd_inbox w) \<subseteq> set (wd_inbox w') \<longrightarrow> P w')"

lemma cache_factD: "cache_fact k P \<Longrightarrow> P w \<Longrightarrow> wd_cache w' k = wd_cache w k \<Longrightarrow> set (wd_inbox w) \<subseteq> set (wd_inbox w') \<Longrightarrow> P w'"
  by (auto simp: cache_fact_def)

lemma publish_out_inbox: "set (wd_inbox w) \<subseteq> set (wd_inbox (publish_out out w))"
  unfolding publish_out_def by (induction out arbitrary: w) (auto, fastforce)

lemma hello_seen_other: "hello_seen_key i \<noteq> connection_channel_key j" "hello_seen_key i \<noteq> absence_generation_key j"
  "absence_generation_key i \<noteq> connection_channel_key j"
  by (simp_all add: hello_seen_key_def connection_channel_key_def absence_generation_key_def)

lemma after_claim:
  assumes P: "cache_fact k P" and k: "\<And>i. k \<noteq> hello_seen_key i"
  shows "invar P (mark_reconnected en ch)" "invar P (notify_partner_presence en p s)"
    "invar P (maybe_send_reconnect_snapshot tag_name cfg en ch)"
proof -
  note keep = cache_factD[OF P]
  have "keeps wd_cache (mark_reconnected en ch) \<and> keeps wd_inbox (mark_reconnected en ch)"
    unfolding mark_reconnected_def by (intro conjI keeps_rules)
      (simp_all add: keeps_def save_status_def with_participant_def with_conn_def skip_def Let_def split: option.split)
  then show "invar P (mark_reconnected en ch)" unfolding invar_def by (auto intro: keep simp: keepsD)
  show "invar P (notify_partner_presence en p s)"
    using keep[OF _ _ publish_out_inbox] by (auto simp: invar_def notify_partner_presence_def caught_def split: prod.split sum.split)
  have "wd_inbox (snd (maybe_send_reconnect_snapshot tag_name cfg en ch w)) = wd_inbox w \<and>
    wd_cache (snd (maybe_send_reconnect_snapshot tag_name cfg en ch w)) k = wd_cache w k" for w
    using k by (simp add: maybe_send_reconnect_snapshot_def with_participant_def with_conn_def skip_def Let_def cache_set_def
      split: option.split sum.split)
  then show "invar P (maybe_send_reconnect_snapshot tag_name cfg en ch)" unfolding invar_def by (auto intro: keep)
qed

text \<open>The handshake of an authenticated socket up to the claim of the connection.\<close>

definition claimed :: "settings \<Rightarrow> env \<Rightarrow> string \<Rightarrow> participant_row \<Rightarrow> json \<Rightarrow> world \<Rightarrow> world" where
  "claimed cfg en ch p m w =
     (let w1 = join_groups en ch p (set_conn ch (\<lambda>c. c\<lparr>cn_handshake := True\<rparr>) w)
      in snd (claim_exclusive_connection cfg en ch (w1\<lparr>wd_wire := wd_wire w1 @ [(ch, Sent m)]\<rparr>)))"

lemma hello_built:
  assumes "in_clock (en_now en)" "0 < ts"
  shows "\<exists>m. build_server_hello (uuid_str i) (timestamp_ms en) ts (uuid_str e) None None = Inr m"
  using assms py_strip_uuid_str[of i] py_strip_uuid_str[of e]
  by (auto simp: build_server_hello_def timestamp_ms_def build_message_Inr payload_fits_def required_fields_def
      optional_fields_def has_field_def opt_ok_def dict_get_Cons opt_field_def py_strip_def strip_by_Nil_iff supported_versions_def)


lemma handshake_run:
  assumes c: "wd_conns w ch = Some c" "cn_participant c = Some p" "cn_authenticated c"
    and ts: "payload_int payload ''client_ts'' = Some ts" "0 < ts" "in_clock (en_now en)"
  shows "\<exists>m. snd (complete_handshake tag_name cfg en ch payload w) =
    snd (andthen (clear_absence_watch en ch) (andthen (mark_reconnected en ch)
      (andthen (notify_partner_presence en p ''connected'') (maybe_send_reconnect_snapshot tag_name cfg en ch)))
      (claimed cfg en ch p m w))"
proof -
  obtain m where m: "build_server_hello (uuid_str (pt_id p)) (timestamp_ms en) ts (uuid_str (pt_event p)) None None = Inr m"
    using hello_built[OF ts(3,2)] by blast
  have claim: "claim_exclusive_connection cfg en ch w' = (True, snd (claim_exclusive_connection cfg en ch w'))" for w'
    by (simp add: claim_exclusive_connection_def with_participant_def with_conn_def skip_def Let_def split: option.split cache_value.split)
  have "andthen (update f) b w' = b (f w')" for f b w' by (simp add: andthen_def update_def)
  moreover have "andthen (send_built ch (Inr m)) b w' = b (w'\<lparr>wd_wire := wd_wire w' @ [(ch, Sent m)]\<rparr>)" for b w'
    by (simp add: andthen_def send_built_def emit_def update_def)
  moreover have "andthen (claim_exclusive_connection cfg en ch) b w' = b (snd (claim_exclusive_connection cfg en ch w'))" for b w'
    by (subst andthen_def, subst claim) simp
  ultimately show ?thesis
    using c ts(1) by (intro exI[of _ m]) (simp add: complete_handshake_def with_conn_def m claimed_def Let_def)
qed

lemma claimed_cache:
  assumes "wd_conns w ch = Some c" "cn_participant c = Some p" "en_cache_up en"
  shows "wd_cache (claimed cfg en ch p m w) = cache_set (connection_channel_key (pt_id p)) (CText ch) (st_session_age cfg) (en_now en) (wd_cache w)"
    and "cache_get (wd_cache w) (en_now en) (connection_channel_key (pt_id p)) = Some (CText other) \<Longrightarrow> other \<noteq> [] \<Longrightarrow> other \<noteq> ch \<Longrightarrow>
      en_layer en \<noteq> None \<Longrightarrow> (other, SessionReplaced) \<in> set (wd_inbox (claimed cfg en ch p m w))"
proof -
  let ?w1 = "join_groups en ch p (set_conn ch (\<lambda>c. c\<lparr>cn_handshake := True\<rparr>) w)"
  have j: "wd_cache ?w1 = wd_cache w" by (simp add: join_groups_def group_add_def)
  have p: "\<exists>c'. wd_conns ?w1 ch = Some c' \<and> cn_participant c' = Some p"
    using assms by (auto simp: join_groups_def)
  then show "wd_cache (claimed cfg en ch p m w) = cache_set (connection_channel_key (pt_id p)) (CText ch) (st_session_age cfg) (en_now en) (wd_cache w)"
    using assms(3) j by (auto simp: claimed_def claim_exclusive_connection_def with_participant_def with_conn_def Let_def
        split: option.split cache_value.split)
  show "(other, SessionReplaced) \<in> set (wd_inbox (claimed cfg en ch p m w))"
    if "cache_get (wd_cache w) (en_now en) (connection_channel_key (pt_id p)) = Some (CText other)" "other \<noteq> []" "other \<noteq> ch"
      "en_layer en \<noteq> None"
    using p assms(3) j that by (auto simp: claimed_def claim_exclusive_connection_def with_participant_def with_conn_def Let_def)
qed

section \<open>Taking over a connection\<close>

lemma other_socket_kept:
  assumes "ch \<noteq> x"
  shows "wd_conns (snd (andthen (clear_absence_watch en ch) (andthen (mark_reconnected en ch)
      (andthen (notify_partner_presence en p s) (maybe_send_reconnect_snapshot tag_name cfg en ch))) w)) x = wd_conns w x"
    and "wd_conns (claimed cfg en ch p m w) x = wd_conns w x"
proof -
  let ?f = "\<lambda>w. wd_conns w x"
  have clear: "keeps ?f (clear_absence_watch en ch)"
    by (simp add: keeps_def clear_absence_watch_def with_participant_def with_conn_def skip_def update_def split: option.split)
  have mark: "keeps ?f (mark_reconnected en ch)" unfolding mark_reconnected_def
    by (intro keeps_rules) (use assms in \<open>simp_all add: keeps_def save_status_def with_participant_def with_conn_def skip_def Let_def split: option.split\<close>)
  have notify: "keeps ?f (notify_partner_presence en p s)"
    by (simp add: keeps_def notify_partner_presence_def caught_def split: prod.split sum.split)
  have snap: "keeps ?f (maybe_send_reconnect_snapshot tag_name cfg en ch)"
    by (simp add: keeps_def maybe_send_reconnect_snapshot_def with_participant_def with_conn_def skip_def Let_def
      split: option.split sum.split)
  have "keeps ?f (andthen (clear_absence_watch en ch) (andthen (mark_reconnected en ch)
      (andthen (notify_partner_presence en p s) (maybe_send_reconnect_snapshot tag_name cfg en ch))))"
    by (intro keeps_andthen clear mark notify snap)
  then show "wd_conns (snd (andthen (clear_absence_watch en ch) (andthen (mark_reconnected en ch)
      (andthen (notify_partner_presence en p s) (maybe_send_reconnect_snapshot tag_name cfg en ch))) w)) x = wd_conns w x"
    by (rule keepsD)
  have "wd_conns (snd (claim_exclusive_connection cfg en ch w')) = wd_conns w'" for w'
    by (simp add: claim_exclusive_connection_def with_participant_def with_conn_def skip_def Let_def split: option.split cache_value.split)
  then show "wd_conns (claimed cfg en ch p m w) x = wd_conns w x"
    using assms by (simp add: claimed_def Let_def join_groups_def)
qed

text \<open>The old socket is told and closed, and its disconnect then leaves no trace.\<close>

lemma replaced_socket:
  assumes c: "wd_conns w ch = Some c" "\<not> cn_replaced c"
  shows "\<exists>m. wd_wire (snd (handle_layer_message ch SessionReplaced w)) = wd_wire w @ [(ch, Sent m), (ch, Closed 4001)]"
    and "but_wire (snd (handle_layer_message ch SessionReplaced w)) = but_wire (set_conn ch (\<lambda>c. c\<lparr>cn_replaced := True\<rparr>) w)"
proof -
  let ?w = "set_conn ch (\<lambda>c. c\<lparr>cn_replaced := True\<rparr>) w"
  obtain m where m: "build_server_error (code_value ErrAlreadyConnected) ''You joined from another window. This session is no longer active.'' None None = Inr m"
    by (auto simp: build_server_error_def build_message_Inr payload_fits_def required_fields_def optional_fields_def has_field_def
        opt_ok_def dict_get_Cons opt_field_def code_value_def py_isspace_def)
  have "snd (handle_layer_message ch SessionReplaced w) = ?w\<lparr>wd_wire := wd_wire ?w @ [(ch, Sent m), (ch, Closed 4001)]\<rparr>"
    using c m by (simp add: handle_layer_message_def session_replaced_def with_conn_def andthen_def update_def caught_def
        send_error_def send_built_def emit_def close_socket_def error_close_code_def)
  then show "\<exists>m. wd_wire (snd (handle_layer_message ch SessionReplaced w)) = wd_wire w @ [(ch, Sent m), (ch, Closed 4001)]"
    "but_wire (snd (handle_layer_message ch SessionReplaced w)) = but_wire ?w" by (auto simp: but_wire_def)
qed

lemma replaced_disconnect:
  assumes "wd_conns w ch = Some c" "cn_replaced c"
  shows "wd_db (snd (disconnect cfg en ch code w)) = wd_db w" "wd_cache (snd (disconnect cfg en ch code w)) = wd_cache w"
    "wd_watches (snd (disconnect cfg en ch code w)) = wd_watches w" "wd_inbox (snd (disconnect cfg en ch code w)) = wd_inbox w"
proof -
  let ?w = "leave_groups en ch c (set_conn ch (\<lambda>c. c\<lparr>cn_heartbeat := False\<rparr>) w)"
  have w: "wd_db ?w = wd_db w" "wd_cache ?w = wd_cache w" "wd_watches ?w = wd_watches w" "wd_inbox ?w = wd_inbox w"
    "wd_conns ?w ch = Some (c\<lparr>cn_heartbeat := False\<rparr>)"
    using assms(1) by (simp_all add: leave_groups_def group_discard_def split: option.split)
  then have "on_live_socket_closed cfg en ch ?w = (True, ?w)"
    using assms(2) by (simp add: on_live_socket_closed_def with_participant_def with_conn_def skip_def split: option.split)
  then have "snd (disconnect cfg en ch code w) = ?w\<lparr>wd_conns := (wd_conns ?w)(ch := None)\<rparr>"
    using assms by (simp add: disconnect_def with_conn_def andthen_def update_def skip_def)
  then show "wd_db (snd (disconnect cfg en ch code w)) = wd_db w" "wd_cache (snd (disconnect cfg en ch code w)) = wd_cache w"
    "wd_watches (snd (disconnect cfg en ch code w)) = wd_watches w" "wd_inbox (snd (disconnect cfg en ch code w)) = wd_inbox w"
    using w by simp_all
qed

text \<open>When a participant's second socket completes its handshake the connection is claimed for it and the
  first socket is told to go: handling that message it is sent an error and closed with 4001, and its
  disconnect then records no disconnection, releases no claim and starts no absence watch.\<close>

theorem new_connection_takes_over:
  assumes c: "wd_conns w ch = Some c" "cn_participant c = Some p" "cn_authenticated c"
    and hello: "payload_int payload ''client_ts'' = Some ts" "0 < ts" "in_clock (en_now en)"
    and up: "en_cache_up en" "en_layer en \<noteq> None" "0 < st_session_age cfg"
    and old: "cache_get (wd_cache w) (en_now en) (connection_channel_key (pt_id p)) = Some (CText old)" "old \<noteq> []" "old \<noteq> ch"
      "wd_conns w old = Some c'" "\<not> cn_replaced c'"
    and w1: "w1 = snd (complete_handshake tag_name cfg en ch payload w)"
    and w2: "w2 = snd (handle_layer_message old SessionReplaced w1)"
    and w3: "w3 = snd (disconnect cfg en' old code w2)"
  shows "cache_get (wd_cache w1) (en_now en) (connection_channel_key (pt_id p)) = Some (CText ch) \<and>
    (old, SessionReplaced) \<in> set (wd_inbox w1) \<and>
    (\<exists>m. wd_wire w2 = wd_wire w1 @ [(old, Sent m), (old, Closed 4001)]) \<and>
    wd_db w3 = wd_db w1 \<and> wd_cache w3 = wd_cache w1 \<and> wd_watches w3 = wd_watches w1 \<and> wd_inbox w3 = wd_inbox w1"
proof -
  let ?k = "connection_channel_key (pt_id p)"
  let ?P = "\<lambda>w'. wd_cache w' ?k = Some (CText ch, en_now en + st_session_age cfg * 1000000) \<and> (old, SessionReplaced) \<in> set (wd_inbox w')"
  obtain m where run: "w1 = snd (andthen (clear_absence_watch en ch) (andthen (mark_reconnected en ch)
      (andthen (notify_partner_presence en p ''connected'') (maybe_send_reconnect_snapshot tag_name cfg en ch))) (claimed cfg en ch p m w))"
    using handshake_run[OF c hello, of tag_name cfg] w1 by blast
  have P: "?P (claimed cfg en ch p m w)"
    using claimed_cache[OF c(1,2) up(1)] old up(2) by (simp add: cache_set_def)
  have fact: "cache_fact ?k ?P" by (auto simp: cache_fact_def)
  have clear: "invar ?P (clear_absence_watch en ch)"
    using hello_seen_other(3)[symmetric] by (auto simp: invar_def clear_absence_watch_def with_participant_def with_conn_def skip_def update_def
        cache_delete_def split: option.split)
  have "invar ?P (andthen (clear_absence_watch en ch) (andthen (mark_reconnected en ch)
      (andthen (notify_partner_presence en p ''connected'') (maybe_send_reconnect_snapshot tag_name cfg en ch))))"
    by (intro invar_andthen clear after_claim[OF fact]) (rule hello_seen_other(1)[symmetric])+
  then have P1: "?P w1" unfolding run using P by (rule invarD)
  have "wd_conns w1 old = Some c'"
    unfolding run other_socket_kept(1)[OF old(3)[symmetric]] other_socket_kept(2)[OF old(3)[symmetric]] by (rule old(4))
  note r = replaced_socket[OF this old(5)]
  have bw: "wd_db w2 = wd_db w1" "wd_cache w2 = wd_cache w1" "wd_watches w2 = wd_watches w1" "wd_inbox w2 = wd_inbox w1"
    "wd_conns w2 old = Some (c'\<lparr>cn_replaced := True\<rparr>)"
    using r(2) \<open>wd_conns w1 old = Some c'\<close> unfolding but_wire_fields w2 by simp_all
  then have "wd_db w3 = wd_db w1 \<and> wd_cache w3 = wd_cache w1 \<and> wd_watches w3 = wd_watches w1 \<and> wd_inbox w3 = wd_inbox w1"
    unfolding w3 using replaced_disconnect[OF bw(5)] by simp
  then show ?thesis using P1 r(1) up(3) unfolding w2 by (simp add: cache_get_def)
qed


definition guest_conn :: "bool \<Rightarrow> conn" where
  "guest_conn shaken = (new_conn 0)\<lparr>cn_participant := Some lone_participant, cn_authenticated := True, cn_handshake := shaken\<rparr>"

definition guest_env :: env where
  "guest_env = \<lparr>en_now = 1790000000000000, en_mono = 5, en_ns = 9, en_cache_up = True, en_layer = Some (\<lambda>_. True)\<rparr>"

definition two_sockets :: world where
  "two_sockets = (start_world lone_db (cache_set (connection_channel_key (UUID 3)) (CText ''old'') 600 1790000000000000 Map.empty))
     \<lparr>wd_conns := [''old'' \<mapsto> guest_conn True, ''new'' \<mapsto> guest_conn False]\<rparr>"

lemma guest_simps [simp]:
  "cn_participant (guest_conn b) = Some lone_participant" "cn_authenticated (guest_conn b)" "cn_handshake (guest_conn b) = b"
  "\<not> cn_replaced (guest_conn b)" "in_clock (en_now guest_env)" "en_cache_up guest_env" "en_layer guest_env = Some (\<lambda>_. True)"
  "wd_conns two_sockets ''new'' = Some (guest_conn False)" "wd_conns two_sockets ''old'' = Some (guest_conn True)"
  by (simp_all add: guest_conn_def new_conn_def guest_env_def in_clock_def two_sockets_def)

lemma new_connection_takes_over_witness:
  "cache_get (wd_cache (snd (complete_handshake (\<lambda>_. '''') (default_settings (\<lambda>_. '''')) guest_env ''new'' [(''client_ts'', JInt 1)] two_sockets)))
     (en_now guest_env) (connection_channel_key (UUID 3)) = Some (CText ''new'')"
proof -
  have old: "cache_get (wd_cache two_sockets) (en_now guest_env) (connection_channel_key (pt_id lone_participant)) = Some (CText ''old'')"
    by (simp add: two_sockets_def start_world_def guest_env_def)
  have pay: "payload_int [(''client_ts'', JInt 1)] ''client_ts'' = Some 1" by (simp add: payload_int_def dict_get_Cons)
  have up: "en_layer guest_env \<noteq> None" "0 < st_session_age (default_settings (\<lambda>_. ''''))" by (simp_all add: default_settings_def)
  have names: "''old'' \<noteq> []" "''old'' \<noteq> ''new''" by simp_all
  show ?thesis
    using new_connection_takes_over[OF guest_simps(8) guest_simps(1,2) pay zero_less_one guest_simps(5,6) up old names
        guest_simps(9) guest_simps(4) refl refl refl, THEN conjunct1]
    by (simp only: lone_db_simps(6))
qed

lemma nothing_before_hello_witness:
  "wd_db (snd (receive (\<lambda>_. '''') (default_settings (\<lambda>_. '''')) guest_env ''new'' (Some (NotJson '''', 3)) two_sockets)) = wd_db two_sockets"
proof -
  have "\<not> cn_handshake (guest_conn False)" by simp
  moreover have "\<forall>msg n payload. cn_authenticated (guest_conn False) \<longrightarrow> Some (NotJson '''', 3 :: nat) = Some (msg, n) \<longrightarrow>
      validate_message msg \<noteq> Inr (ClientHello, payload)" by (auto simp: validate_message_def)
  ultimately obtain fs c' where "snd (receive (\<lambda>_. '''') (default_settings (\<lambda>_. '''')) guest_env ''new'' (Some (NotJson '''', 3)) two_sockets) =
      two_sockets\<lparr>wd_conns := (wd_conns two_sockets)(''new'' \<mapsto> c'), wd_wire := wd_wire two_sockets @ map (Pair ''new'') fs\<rparr>"
    using nothing_before_hello[OF guest_simps(8)] by blast
  then show ?thesis by simp
qed

section \<open>Coming back\<close>

text \<open>When a participant has completed the handshake again, the absence watch of this process is gone, and a
  watch another process may still hold for the participant tells the partner nothing when it ends.\<close>

theorem reconnect_silences_absence_watch:
  assumes c: "wd_conns w ch = Some c" "cn_participant c = Some p" "cn_authenticated c"
    and hello: "payload_int payload ''client_ts'' = Some ts" "0 < ts" "in_clock (en_now en)"
    and up: "en_cache_up en"
    and w1: "w1 = snd (complete_handshake tag_name cfg en ch payload w)"
    and a: "pt_id (aw_participant a) = pt_id p"
  shows "wd_watches w1 (pt_id p) = None \<and>
    but_wire (snd (watch_partner_absence en' (pt_id p) (w1\<lparr>wd_watches := (wd_watches w1)(pt_id p \<mapsto> a)\<rparr>))) =
    but_wire (w1\<lparr>wd_watches := (wd_watches w1)(pt_id p \<mapsto> a\<lparr>aw_done := True\<rparr>)\<rparr>)"
proof -
  let ?k = "absence_generation_key (pt_id p)"
  let ?rest = "andthen (mark_reconnected en ch) (andthen (notify_partner_presence en p ''connected'') (maybe_send_reconnect_snapshot tag_name cfg en ch))"
  let ?P = "\<lambda>w'. wd_cache w' ?k = None"
  obtain m where run: "w1 = snd (andthen (clear_absence_watch en ch) ?rest (claimed cfg en ch p m w))"
    using handshake_run[OF c hello, of tag_name cfg] w1 by blast
  have conn: "\<exists>c'. wd_conns (claimed cfg en ch p m w) ch = Some c' \<and> cn_participant c' = Some p"
    using c(1,2) by (auto simp: claimed_def Let_def claim_exclusive_connection_def with_participant_def with_conn_def join_groups_def
        skip_def split: option.split cache_value.split)
  define w' where "w' = snd (clear_absence_watch en ch (claimed cfg en ch p m w))"
  have w': "?P w'" "wd_watches w' (pt_id p) = None"
    using conn up by (auto simp: w'_def clear_absence_watch_def with_participant_def with_conn_def update_def cache_delete_def)
  have rest: "w1 = snd (?rest w')"
  proof -
    have "clear_absence_watch en ch v = (True, snd (clear_absence_watch en ch v))" for v
      by (simp add: clear_absence_watch_def with_participant_def with_conn_def update_def skip_def split: option.split)
    then have "clear_absence_watch en ch (claimed cfg en ch p m w) = (True, w')" by (simp add: w'_def)
    then show ?thesis unfolding run by (simp add: andthen_def[of "clear_absence_watch en ch"])
  qed
  have fact: "cache_fact ?k ?P" by (auto simp: cache_fact_def)
  have "invar ?P ?rest" by (intro invar_andthen after_claim[OF fact]) (rule hello_seen_other(2)[symmetric])+
  then have P1: "?P w1" unfolding rest using w'(1) by (rule invarD)
  have "keeps wd_watches ?rest"
  proof (intro keeps_andthen)
    show "keeps wd_watches (mark_reconnected en ch)" unfolding mark_reconnected_def by (intro keeps_rules)
      (simp_all add: keeps_def save_status_def with_participant_def with_conn_def skip_def Let_def split: option.split)
    show "keeps wd_watches (notify_partner_presence en p ''connected'')"
      by (simp add: keeps_def notify_partner_presence_def caught_def split: prod.split sum.split)
    show "keeps wd_watches (maybe_send_reconnect_snapshot tag_name cfg en ch)"
      by (simp add: keeps_def maybe_send_reconnect_snapshot_def with_participant_def with_conn_def skip_def Let_def
          split: option.split sum.split)
  qed
  then have "wd_watches w1 (pt_id p) = None" unfolding rest using w'(2) by (simp add: keepsD)
  then show ?thesis using P1 a
    by (cases a) (simp add: watch_partner_absence_def Let_def cache_get_def but_wire_def)
qed

lemma reconnect_silences_absence_watch_witness:
  "wd_watches (snd (complete_handshake (\<lambda>_. '''') (default_settings (\<lambda>_. '''')) guest_env ''new'' [(''client_ts'', JInt 1)]
     (two_sockets\<lparr>wd_watches := [UUID 3 \<mapsto> \<lparr>aw_participant = lone_participant, aw_generation = 4, aw_done = False\<rparr>]\<rparr>))) (UUID 3) = None"
  using reconnect_silences_absence_watch[where tag_name = "\<lambda>_. ''''" and cfg = "default_settings (\<lambda>_. '''')" and en' = guest_env
      and a = "\<lparr>aw_participant = lone_participant, aw_generation = 4, aw_done = False\<rparr>" and payload = "[(''client_ts'', JInt 1)]" and ts = 1,
      OF _ guest_simps(1,2) _ _ guest_simps(5,6) refl,
      of "two_sockets\<lparr>wd_watches := [UUID 3 \<mapsto> \<lparr>aw_participant = lone_participant, aw_generation = 4, aw_done = False\<rparr>]\<rparr>" "''new''" False]
  by (simp add: payload_int_def dict_get_Cons)

section \<open>Signalling\<close>

definition relays :: "world \<Rightarrow> (string \<times> json) list" where
  "relays w = concat (map (\<lambda>(ch, m). case m of WebrtcRelay j \<Rightarrow> [(ch, j)] | _ \<Rightarrow> []) (wd_inbox w))"

lemma relays_append: "wd_inbox w' = wd_inbox w @ ms \<Longrightarrow> relays w' = relays w @ concat (map (\<lambda>(ch, m). case m of WebrtcRelay j \<Rightarrow> [(ch, j)] | _ \<Rightarrow> []) ms)"
  by (simp add: relays_def)

lemma relays_fan_out:
  "relays (fan_out g (OrchestratorMessage m) w) = relays w"
  "relays (fan_out g (WebrtcRelay m) w) = relays w @ map (\<lambda>ch. (ch, m)) (wd_groups w g)"
proof -
  have o: "concat (map (\<lambda>(ch, m). case m of WebrtcRelay j \<Rightarrow> [(ch, j)] | _ \<Rightarrow> []) (map (\<lambda>ch. (ch, OrchestratorMessage m)) xs)) = []" for xs
    by (induction xs) simp_all
  have r: "concat (map (\<lambda>(ch, m). case m of WebrtcRelay j \<Rightarrow> [(ch, j)] | _ \<Rightarrow> []) (map (\<lambda>ch. (ch, WebrtcRelay m)) xs)) = map (\<lambda>ch. (ch, m)) xs" for xs
    by (induction xs) simp_all
  show "relays (fan_out g (OrchestratorMessage m) w) = relays w" by (subst relays_append[OF fan_out_sel(7)]) (simp only: o append_Nil2)
  show "relays (fan_out g (WebrtcRelay m) w) = relays w @ map (\<lambda>ch. (ch, m)) (wd_groups w g)"
    by (subst relays_append[OF fan_out_sel(7)]) (simp only: r)
qed

lemma relays_publish: "relays (publish_out out w) = relays w"
  unfolding publish_out_def by (induction out arbitrary: w) (auto simp: relays_fan_out)

lemma relays_cong: "wd_inbox w' = wd_inbox w \<Longrightarrow> relays w' = relays w"
  by (simp add: relays_def)

lemma keeps_relays [keeps_rules]: "keeps wd_inbox a \<Longrightarrow> keeps relays a"
  by (simp add: keeps_def relays_def)


text \<open>Only the signalling branch relays.\<close>

lemma inbox_frames [keeps_rules]:
  "keeps wd_inbox (emit ch f)" "keeps wd_inbox (send_built ch b)" "keeps wd_inbox (send_error ch k m t)"
  "keeps wd_inbox (close_socket ch n)" "keeps wd_inbox (fatal ch k)"
proof -
  have "keeps but_wire a \<Longrightarrow> keeps wd_inbox a" for a by (simp add: keeps_def but_wire_fields)
  then show "keeps wd_inbox (emit ch f)" "keeps wd_inbox (send_built ch b)" "keeps wd_inbox (send_error ch k m t)"
    "keeps wd_inbox (close_socket ch n)" "keeps wd_inbox (fatal ch k)" by (simp_all add: keeps_rules)
qed

lemma relays_handshake: "keeps relays (complete_handshake tag_name cfg en ch payload)"
proof -
  have claim: "keeps relays (claim_exclusive_connection cfg en ch)"
    by (auto simp: keeps_def relays_def claim_exclusive_connection_def with_participant_def with_conn_def skip_def Let_def
        split: option.split cache_value.split)
  have clear: "keeps relays (clear_absence_watch en ch)"
    by (auto simp: keeps_def relays_def clear_absence_watch_def with_participant_def with_conn_def skip_def update_def split: option.split)
  have mark: "keeps wd_inbox (mark_reconnected en ch)" unfolding mark_reconnected_def by (intro keeps_rules)
    (simp_all add: keeps_def save_status_def with_participant_def with_conn_def skip_def Let_def split: option.split)
  have notify: "keeps relays (notify_partner_presence en p s)" for p s
    by (simp add: keeps_def notify_partner_presence_def caught_def relays_publish split: prod.split sum.split)
  have snap: "keeps wd_inbox (maybe_send_reconnect_snapshot tag_name cfg en ch)"
    by (simp add: keeps_def maybe_send_reconnect_snapshot_def with_participant_def with_conn_def skip_def Let_def
        split: option.split sum.split)
  have join: "relays (join_groups en ch p (set_conn ch f w)) = relays w" for p f w
    by (rule relays_cong) (simp add: join_groups_def group_add_def)
  have hello: "keeps relays (case x of None \<Rightarrow> raise | Some ts \<Rightarrow> send_built ch (h ts))" for x :: "int option" and h
    by (simp add: keeps_rules split: option.split)
  show ?thesis unfolding complete_handshake_def
    by (rule keeps_with_conn) (auto simp: join intro!: keeps_andthen keeps_update hello claim clear notify
        keeps_relays[OF mark] keeps_relays[OF snap] keeps_relays[OF inbox_frames(5)] keeps_relays[OF inbox_frames(2)] keeps_basic
        split: option.split)
qed

lemma relays_signal:
  assumes c: "wd_conns w ch = Some c" "cn_participant c = Some p"
  shows "relays (snd (handle_webrtc_signal en ch t payload w)) = relays w \<or>
    (\<exists>room partner m. payload_str payload ''room_id'' = Some room \<and> resolve_partner (wd_db w) (pt_id p) room = Some partner \<and>
      outbound_signal t room (uuid_str (pt_id p)) payload = Some (Inr m) \<and>
      relays (snd (handle_webrtc_signal en ch t payload w)) =
        relays w @ map (\<lambda>x. (x, m)) (wd_groups w (participant_channel_group partner)))"
proof -
  have err: "relays (snd (send_error ch k m t w)) = relays w" for k m t
    using keepsD[OF keeps_relays[OF inbox_frames(3)]] by simp
  show ?thesis using c err
    by (auto simp: handle_webrtc_signal_def with_participant_def with_conn_def group_send_def skip_def raise_def update_def
        relays_fan_out split: option.split sum.split)
qed

lemma outbound_valid:
  assumes "outbound_signal t room from_id payload = Some (Inr m)"
  shows "\<exists>out p. validate_message (Parsed m) = Inr (out, p) \<and> out \<in> {ServerWebrtcOffer, ServerWebrtcAnswer, ServerWebrtcIce} \<and>
    dict_get p ''room_id'' = Some (JStr room) \<and> dict_get p ''from_participant_id'' = Some (JStr from_id)"
  using assms by (auto simp: outbound_signal_def build_server_webrtc_offer_def build_server_webrtc_answer_def
      build_server_ice_candidate_def dict_get_Cons dest!: build_message_accepted split: message_type.splits option.splits)

lemma resolve_partner_Some:
  assumes "resolve_partner d i room = Some partner"
  shows "\<exists>pr \<in> set (db_pairs d). pr_room_id pr = room \<and> on_pair i pr \<and> partner = partner_on_pair pr i"
  using assms by (auto simp: resolve_partner_def split: if_splits dest!: first_by_pk_filter)

lemma not_event_group: "participant_channel_group i \<noteq> event_channel_group e"
  by (simp add: participant_channel_group_def event_channel_group_def)

lemma handle_message_relays:
  assumes "wd_conns w ch = Some c"
  shows "relays (snd (handle_message tag_name cfg en ch t payload w)) = relays w \<or>
    cn_handshake c \<and> handle_message tag_name cfg en ch t payload w = handle_webrtc_signal en ch t payload w"
proof (cases "cn_authenticated c \<and> cn_participant c \<noteq> None \<and> cn_handshake c \<and> t \<in> {ClientWebrtcOffer, ClientWebrtcAnswer, ClientWebrtcIce}")
  case True
  then show ?thesis using assms by (auto simp: handle_message_def with_conn_def)
next
  case False
  note frames = keepsD[OF keeps_relays[OF inbox_frames(2)]] keepsD[OF keeps_relays[OF inbox_frames(3)]]
    keepsD[OF keeps_relays[OF inbox_frames(5)]] keepsD[OF relays_handshake]
  show ?thesis using False assms frames
    by (auto simp: handle_message_def with_conn_def skip_def raise_def split: message_type.split option.split)
qed

lemma receive_relays:
  assumes c: "wd_conns w ch = Some c"
  shows "relays (snd (receive tag_name cfg en ch raw w)) = relays w \<or> (\<exists>t payload w'. cn_handshake c \<and> relays w' = relays w \<and>
    wd_db w' = wd_db w \<and> wd_groups w' = wd_groups w \<and> (\<exists>c'. wd_conns w' ch = Some c' \<and> cn_participant c' = cn_participant c) \<and>
    relays (snd (receive tag_name cfg en ch raw w)) = relays (snd (handle_webrtc_signal en ch t payload w')))"
proof -
  let ?w = "set_conn ch (\<lambda>c. c\<lparr>cn_last_activity := en_mono en\<rparr>) w"
  have set: "relays (set_conn ch f w') = relays w'" for f w' by (rule relays_cong) simp
  note frames = keepsD[OF keeps_relays[OF inbox_frames(2)]] keepsD[OF keeps_relays[OF inbox_frames(3)]]
    keepsD[OF keeps_relays[OF inbox_frames(5)]]
  have big: "keeps relays (andthen (send_error ch k m t) (close_socket ch n))" for k m t n
    by (intro keeps_andthen keeps_relays inbox_frames)
  have checked: "relays (snd (checked_message tag_name cfg en ch msg w')) = relays w' \<or>
      (\<exists>t payload. relays (snd (checked_message tag_name cfg en ch msg w')) = relays (snd (handle_message tag_name cfg en ch t payload w')))"
    for msg w'
  proof (cases "validate_message msg")
    case (Inl exc)
    have "keeps relays (andthen (send_built ch (error_from_protocol_error exc))
        (case error_close_code (pe_code exc) of None \<Rightarrow> skip | Some k \<Rightarrow> close_socket ch k))"
      by (intro keeps_andthen keeps_relays inbox_frames) (simp add: keeps_basic inbox_frames split: option.split)
    then show ?thesis by (simp add: checked_message_def Inl keepsD)
  next
    case (Inr tp)
    obtain t payload where tp: "tp = (t, payload)" by (rule prod.exhaust)
    obtain b w'' where run: "handle_message tag_name cfg en ch t payload w' = (b, w'')" by (rule prod.exhaust)
    have "relays (snd (checked_message tag_name cfg en ch msg w')) = relays w''"
      by (cases b) (simp_all add: checked_message_def Inr tp run frames)
    then show ?thesis using run by (metis snd_conv)
  qed
  show ?thesis
  proof (cases "\<exists>msg n stamps. raw = Some (msg, n) \<and> telemetry_of cfg msg = None \<and> \<not> st_max_bytes cfg < n \<and>
      within_rate_limit (st_rate_limit cfg) (en_mono en) (cn_rate c) = (True, stamps)")
    case False
    then show ?thesis using c set frames keepsD[OF big]
      by (auto simp: receive_cases with_conn_def Let_def split: option.split prod.split)
  next
    case True
    then obtain msg n stamps where m: "raw = Some (msg, n)" "telemetry_of cfg msg = None" "\<not> st_max_bytes cfg < n"
      "within_rate_limit (st_rate_limit cfg) (en_mono en) (cn_rate c) = (True, stamps)" by blast
    let ?w2 = "set_conn ch (\<lambda>c. c\<lparr>cn_rate := stamps\<rparr>) ?w"
    let ?c = "c\<lparr>cn_last_activity := en_mono en, cn_rate := stamps\<rparr>"
    have run: "receive tag_name cfg en ch raw w = checked_message tag_name cfg en ch msg ?w2"
      using m c by (simp add: receive_cases with_conn_def Let_def)
    have w2: "wd_conns ?w2 ch = Some ?c" "relays ?w2 = relays w" using c by (simp_all add: set)
    consider "relays (snd (checked_message tag_name cfg en ch msg ?w2)) = relays ?w2"
      | t payload where "relays (snd (checked_message tag_name cfg en ch msg ?w2)) = relays (snd (handle_message tag_name cfg en ch t payload ?w2))"
      using checked[of msg ?w2] by blast
    then show ?thesis
    proof cases
      case 1
      then show ?thesis using run w2 by simp
    next
      case (2 t payload)
      show ?thesis
      proof (cases "relays (snd (handle_message tag_name cfg en ch t payload ?w2)) = relays ?w2")
        case True
        then show ?thesis using 2 run w2 by simp
      next
        case False
        then have h: "cn_handshake c" "handle_message tag_name cfg en ch t payload ?w2 = handle_webrtc_signal en ch t payload ?w2"
          using handle_message_relays[OF w2(1), of tag_name cfg en t payload] by auto
        have "wd_db ?w2 = wd_db w" "wd_groups ?w2 = wd_groups w" "cn_participant ?c = cn_participant c" by simp_all
        then show ?thesis using h 2 run w2 by metis
      qed
    qed
  qed
qed

text \<open>C13. Whatever a socket sends, a WebRTC message is relayed to no one but sockets that completed the handshake as
  the participant with whom the sender shares the room it names, and the message names that room and
  its true sender.\<close>

theorem signal_reaches_partner_only:
  assumes reach: "server_reach tag_name cfg w" and c: "wd_conns w ch = Some c"
    and new: "relays (snd (receive tag_name cfg en ch raw w)) = relays w @ new" "(x, m) \<in> set new"
  shows "\<exists>p pair out payload cx px. cn_participant c = Some p \<and> cn_handshake c \<and> pair \<in> set (db_pairs (wd_db w)) \<and>
    on_pair (pt_id p) pair \<and>
    validate_message (Parsed m) = Inr (out, payload) \<and> out \<in> {ServerWebrtcOffer, ServerWebrtcAnswer, ServerWebrtcIce} \<and>
    dict_get payload ''room_id'' = Some (JStr (pr_room_id pair)) \<and>
    dict_get payload ''from_participant_id'' = Some (JStr (uuid_str (pt_id p))) \<and>
    wd_conns w x = Some cx \<and> cn_handshake cx \<and> cn_participant cx = Some px \<and>
    uuid_str (pt_id px) = uuid_str (partner_on_pair pair (pt_id p))"
proof -
  have ok: "ws_ok w" by (rule server_reach_ok[OF reach])
  have "relays (snd (receive tag_name cfg en ch raw w)) \<noteq> relays w" using new by auto
  then obtain t payload w' where ready: "cn_handshake c"
    and same: "relays w' = relays w" "wd_db w' = wd_db w" "wd_groups w' = wd_groups w"
    and c': "\<exists>c'. wd_conns w' ch = Some c' \<and> cn_participant c' = cn_participant c"
    and run: "relays (snd (receive tag_name cfg en ch raw w)) = relays (snd (handle_webrtc_signal en ch t payload w'))"
    using receive_relays[OF c, of tag_name cfg en raw] by blast
  obtain p where p: "cn_participant c = Some p" 
    using ok[unfolded ws_ok_def conn_ok_def, THEN conjunct1, rule_format, OF c] ready by auto
  obtain room partner j where room: "resolve_partner (wd_db w) (pt_id p) room = Some partner"
      "outbound_signal t room (uuid_str (pt_id p)) payload = Some (Inr j)"
      "relays (snd (handle_webrtc_signal en ch t payload w')) = relays w' @ map (\<lambda>x. (x, j)) (wd_groups w (participant_channel_group partner))"
    using relays_signal[of w' ch _ p en t payload] c' p run same new by auto
  then have x: "x \<in> set (wd_groups w (participant_channel_group partner))" "m = j"
    using new run same by auto
  obtain pair where pair: "pair \<in> set (db_pairs (wd_db w))" "pr_room_id pair = room" "on_pair (pt_id p) pair"
      "partner = partner_on_pair pair (pt_id p)" using resolve_partner_Some[OF room(1)] by blast
  have "member_ok (wd_conns w x) (participant_channel_group partner)" using ok x(1) by (simp add: ws_ok_def)
  then obtain cx px where cx: "wd_conns w x = Some cx" "cn_handshake cx" "cn_participant cx = Some px"
      "participant_channel_group partner \<in> groups_of px" by (auto simp: member_ok_def)
  then have "uuid_str (pt_id px) = uuid_str partner"
    using not_event_group by (auto simp: groups_of_def participant_channel_group_def)
  then show ?thesis using p ready pair cx outbound_valid[OF room(2)] x(2) by blast
qed

section \<open>A call between two guests\<close>

text \<open>What the example looks at: the groups, the pairs, and who each socket is.\<close>

definition who :: "conn \<Rightarrow> bool \<times> bool \<times> uuid option \<times> int list" where
  "who c = (cn_handshake c, cn_authenticated c, map_option pt_id (cn_participant c), cn_rate c)"

definition seen :: "world \<Rightarrow> (string \<Rightarrow> string list) \<times> pair_row list \<times> (string \<Rightarrow> (bool \<times> bool \<times> uuid option \<times> int list) option)" where
  "seen w = (wd_groups w, db_pairs (wd_db w), \<lambda>ch. map_option who (wd_conns w ch))"

lemma seen_set_conn: "(\<And>c. who (f c) = who c) \<Longrightarrow> seen (set_conn ch f w) = seen w"
  by (auto simp: seen_def fun_eq_iff option.map_comp comp_def)

lemma seen_frames: "keeps seen (fatal ch k)"
proof -
  have "keeps but_wire a \<Longrightarrow> keeps seen a" for a by (simp add: keeps_def but_wire_fields seen_def)
  then show ?thesis by (simp add: keeps_rules)
qed

lemma seen_save: "keeps seen (save_status ch s)"
  unfolding keeps_def
proof
  fix w :: world
  have "map_option who (map_option (\<lambda>c. c\<lparr>cn_participant := Some (p\<lparr>pt_status := s\<rparr>)\<rparr>) (wd_conns w ch)) = map_option who (wd_conns w ch)"
    if "wd_conns w ch = Some c" "cn_participant c = Some p" for c p using that by (simp add: who_def)
  then show "seen (snd (save_status ch s w)) = seen w"
    by (auto simp: save_status_def with_participant_def with_conn_def skip_def Let_def seen_def update_participant_def fun_eq_iff
        split: option.split)
qed

lemma seen_handshake:
  assumes c: "wd_conns w ch = Some c" "cn_participant c = Some p" "cn_authenticated c"
    and ts: "payload_int payload ''client_ts'' = Some ts" "0 < ts" "in_clock (en_now en)"
  shows "seen (snd (complete_handshake tag_name cfg en ch payload w)) = seen (join_groups en ch p (set_conn ch (\<lambda>c. c\<lparr>cn_handshake := True\<rparr>) w))"
proof -
  obtain m where run: "snd (complete_handshake tag_name cfg en ch payload w) =
    snd (andthen (clear_absence_watch en ch) (andthen (mark_reconnected en ch)
      (andthen (notify_partner_presence en p ''connected'') (maybe_send_reconnect_snapshot tag_name cfg en ch)))
      (claimed cfg en ch p m w))" using handshake_run[OF c ts] by blast
  have "keeps seen (andthen (clear_absence_watch en ch) (andthen (mark_reconnected en ch)
      (andthen (notify_partner_presence en p ''connected'') (maybe_send_reconnect_snapshot tag_name cfg en ch))))"
  proof (intro keeps_andthen)
    show "keeps seen (clear_absence_watch en ch)"
      by (simp add: keeps_def seen_def clear_absence_watch_def with_participant_def with_conn_def skip_def update_def split: option.split)
    show "keeps seen (mark_reconnected en ch)" unfolding mark_reconnected_def
      by (intro keeps_rules seen_save) (simp add: seen_def close_open_logs_def)
    show "keeps seen (notify_partner_presence en p ''connected'')"
      by (simp add: keeps_def seen_def notify_partner_presence_def caught_def split: prod.split sum.split)
    show "keeps seen (maybe_send_reconnect_snapshot tag_name cfg en ch)"
      by (simp add: keeps_def seen_def maybe_send_reconnect_snapshot_def with_participant_def with_conn_def skip_def Let_def
          split: option.split sum.split)
  qed
  moreover have "seen (snd (claim_exclusive_connection cfg en ch w')) = seen w'" for w'
    by (simp add: seen_def claim_exclusive_connection_def with_participant_def with_conn_def skip_def Let_def split: option.split cache_value.split)
  ultimately show ?thesis by (simp add: run keepsD claimed_def Let_def) (simp add: seen_def)
qed

definition hello_text :: "(raw_message \<times> nat) option" where
  "hello_text = Some (Parsed (JObj [(''type'', JStr ''client.hello''), (''version'', JInt 1),
     (''payload'', JObj [(''client_ts'', JInt 1)])]), 80)"

lemma receive_hello:
  assumes c: "wd_conns w ch = Some c" "cn_participant c = Some p" "cn_authenticated c" "\<not> cn_handshake c" "cn_rate c = []"
    and now: "in_clock (en_now en)"
  shows "seen (snd (receive tag_name (default_settings fr) en ch hello_text w)) =
    seen (join_groups en ch p (set_conn ch (\<lambda>c. c\<lparr>cn_handshake := True, cn_rate := [en_mono en]\<rparr>) w))"
proof -
  let ?c = "c\<lparr>cn_last_activity := en_mono en, cn_rate := [en_mono en]\<rparr>"
  let ?w = "set_conn ch (\<lambda>c. c\<lparr>cn_rate := [en_mono en]\<rparr>) (set_conn ch (\<lambda>c. c\<lparr>cn_last_activity := en_mono en\<rparr>) w)"
  have valid: "validate_message (Parsed (JObj [(''type'', JStr ''client.hello''), (''version'', JInt 1),
      (''payload'', JObj [(''client_ts'', JInt 1)])])) = Inr (ClientHello, [(''client_ts'', JInt 1)])"
    by (simp add: validate_message_Inr well_formed_def dict_get_Cons payload_fits_def required_fields_def optional_fields_def
        has_field_def type_value_def supported_versions_def)
  have run: "snd (receive tag_name (default_settings fr) en ch hello_text w) =
      snd (case complete_handshake tag_name (default_settings fr) en ch [(''client_ts'', JInt 1)] ?w of
        (True, w2) \<Rightarrow> (True, w2) | (False, w2) \<Rightarrow> fatal ch ErrInternal w2)"
    using c by (simp add: receive_cases with_conn_def Let_def hello_text_def telemetry_of_def dict_get_Cons default_settings_def
        within_rate_limit_def checked_message_def valid handle_message_def)
  have "seen (snd (case r of (True, w2) \<Rightarrow> (True, w2) | (False, w2) \<Rightarrow> fatal ch ErrInternal w2)) = seen (snd r)" for r :: "bool \<times> world"
    by (cases r; cases "fst r") (simp_all add: keepsD[OF seen_frames])
  moreover have "wd_conns ?w ch = Some ?c" using c(1) by simp
  ultimately have "seen (snd (receive tag_name (default_settings fr) en ch hello_text w)) =
      seen (join_groups en ch p (set_conn ch (\<lambda>c. c\<lparr>cn_handshake := True\<rparr>) ?w))"
    using run seen_handshake[of ?w ch ?c p "[(''client_ts'', JInt 1)]" 1 en tag_name "default_settings fr"] c now
    by (simp add: payload_int_def dict_get_Cons)
  then show ?thesis using c(1)
    by (auto simp: seen_def join_groups_def group_add_def fun_eq_iff who_def)
qed


definition offer_text :: "(raw_message \<times> nat) option" where
  "offer_text = Some (Parsed (JObj [(''type'', JStr ''client.webrtc.offer''), (''version'', JInt 1),
     (''payload'', JObj [(''room_id'', JStr ''room''), (''sdp'', JStr ''v=0'')])]), 120)"

lemma offer_relayed:
  assumes "wd_conns w ch = Some c" "cn_participant c = Some p" "resolve_partner (wd_db w) (pt_id p) ''room'' = Some partner"
    and "en_layer en = Some (\<lambda>_. True)" "build_server_webrtc_offer ''room'' (uuid_str (pt_id p)) ''v=0'' = Inr m"
  shows "handle_webrtc_signal en ch ClientWebrtcOffer [(''room_id'', JStr ''room''), (''sdp'', JStr ''v=0'')] w =
    (True, fan_out (participant_channel_group partner) (WebrtcRelay m) w)"
  using assms by (simp add: handle_webrtc_signal_def with_participant_def with_conn_def payload_str_def dict_get_Cons
      outbound_signal_def group_send_def update_def)

lemma receive_offer:
  assumes c: "wd_conns w ch = Some c" "cn_participant c = Some p" "cn_authenticated c" "cn_handshake c" "cn_rate c = [en_mono en]"
    and layer: "en_layer en = Some (\<lambda>_. True)" and partner: "resolve_partner (wd_db w) (pt_id p) ''room'' = Some partner"
  shows "\<exists>m. relays (snd (receive tag_name (default_settings fr) en ch offer_text w)) =
    relays w @ map (\<lambda>x. (x, m)) (wd_groups w (participant_channel_group partner))"
proof -
  let ?c = "c\<lparr>cn_last_activity := en_mono en, cn_rate := [en_mono en, en_mono en]\<rparr>"
  let ?w = "set_conn ch (\<lambda>c. c\<lparr>cn_rate := [en_mono en, en_mono en]\<rparr>) (set_conn ch (\<lambda>c. c\<lparr>cn_last_activity := en_mono en\<rparr>) w)"
  have texts: "py_strip ''room'' \<noteq> []" "py_strip ''v=0'' \<noteq> []" by (simp_all add: py_strip_def strip_by_def py_isspace_def)
  have valid: "validate_message (Parsed (JObj [(''type'', JStr ''client.webrtc.offer''), (''version'', JInt 1),
      (''payload'', JObj [(''room_id'', JStr ''room''), (''sdp'', JStr ''v=0'')])])) =
      Inr (ClientWebrtcOffer, [(''room_id'', JStr ''room''), (''sdp'', JStr ''v=0'')])"
    using texts by (simp add: validate_message_Inr well_formed_def dict_get_Cons payload_fits_def required_fields_def optional_fields_def
        has_field_def type_value_def supported_versions_def py_strip_def strip_by_Nil_iff)
  obtain m where m: "build_server_webrtc_offer ''room'' (uuid_str (pt_id p)) ''v=0'' = Inr m"
    using texts py_strip_uuid_str[of "pt_id p"]
    by (auto simp: build_server_webrtc_offer_def build_message_Inr payload_fits_def required_fields_def optional_fields_def
        has_field_def opt_ok_def dict_get_Cons py_strip_def strip_by_Nil_iff)
  have w: "wd_conns ?w ch = Some ?c" "wd_db ?w = wd_db w" "wd_groups ?w = wd_groups w" "relays ?w = relays w" using c(1)
    by (simp_all add: relays_def)
  have "receive tag_name (default_settings fr) en ch offer_text w =
      (case handle_webrtc_signal en ch ClientWebrtcOffer [(''room_id'', JStr ''room''), (''sdp'', JStr ''v=0'')] ?w of
        (True, w2) \<Rightarrow> (True, w2) | (False, w2) \<Rightarrow> fatal ch ErrInternal w2)"
    using c by (simp add: receive_cases with_conn_def Let_def offer_text_def telemetry_of_def dict_get_Cons default_settings_def
        within_rate_limit_def checked_message_def valid handle_message_def)
  moreover have "handle_webrtc_signal en ch ClientWebrtcOffer [(''room_id'', JStr ''room''), (''sdp'', JStr ''v=0'')] ?w =
      (True, fan_out (participant_channel_group partner) (WebrtcRelay m) ?w)"
    by (rule offer_relayed[OF w(1) _ _ layer m]) (use c(2) partner w(2) in simp_all)
  ultimately have "relays (snd (receive tag_name (default_settings fr) en ch offer_text w)) =
      relays w @ map (\<lambda>x. (x, m)) (wd_groups w (participant_channel_group partner))"
    using w by (simp add: relays_fan_out del: fan_out_sel)
  then show ?thesis by blast
qed

definition guest :: "nat \<Rightarrow> participant_row" where
  "guest i = lone_participant\<lparr>pt_id := UUID i\<rparr>"

definition call_db :: db where
  "call_db = empty_db\<lparr>db_participants := [guest 1, guest 2], db_pairs := [live_pair]\<rparr>"

definition guest_session :: "nat \<Rightarrow> web_session option" where
  "guest_session i = Some \<lparr>ws_key = Some ''key'', ws_participant = Some (uuid_str (UUID i))\<rparr>"

lemma connect_guest:
  assumes "wd_db w = call_db" "wd_cache w = Map.empty" "i = 1 \<or> i = 2"
  shows "snd (connect guest_env ch (guest_session i) w) =
    w\<lparr>wd_conns := (wd_conns w)(ch \<mapsto> (new_conn 5)\<lparr>cn_participant := Some (guest i), cn_authenticated := True, cn_heartbeat := True\<rparr>)\<rparr>"
proof -
  have "uuid_str (UUID i) \<noteq> []" by (simp add: uuid_str_def Let_def)
  moreover have "uuid_of_string (uuid_str (UUID i)) = Some (UUID i)" by (rule uuid_of_string_str) (use assms(3) in auto)
  moreover have "find_participant call_db (UUID i) = Some (guest i)"
    using assms(3) by (auto simp: find_participant_def call_db_def guest_def simp del: One_nat_def)
  ultimately have "resolve_participant_from_scope True (en_now guest_env) (guest_session i) Map.empty call_db = Resolved (guest i)"
    by (simp add: resolve_participant_from_scope_def guest_session_def resolve_participant_from_session_def
        session_matches_participant_def cache_get_def)
  then show ?thesis using assms(1,2) by (simp add: connect_def Let_def set_conn_def guest_env_def)
qed

definition call_world :: world where
  "call_world = snd (receive (\<lambda>_. '''') (default_settings (\<lambda>_. '''')) guest_env ''b'' hello_text
     (snd (receive (\<lambda>_. '''') (default_settings (\<lambda>_. '''')) guest_env ''a'' hello_text
       (snd (connect guest_env ''b'' (guest_session 2) (snd (connect guest_env ''a'' (guest_session 1) (start_world call_db Map.empty))))))))"

lemma call_world_reach: "server_reach (\<lambda>_. '''') (default_settings (\<lambda>_. '''')) call_world"
proof -
  let ?r = "server_reach (\<lambda>_. '''') (default_settings (\<lambda>_. ''''))"
  let ?w1 = "snd (connect guest_env ''a'' (guest_session 1) (start_world call_db Map.empty))"
  have "?r (start_world call_db Map.empty)" by (rule server_reach.Start)
  then have r1: "?r ?w1" by (rule server_reach.Step) (rule server_step.Connect, simp_all add: start_world_def)
  have "wd_conns ?w1 ''b'' = None" "wd_inbox ?w1 = []"
    by (simp_all add: connect_guest start_world_def)
  then have "?r (snd (connect guest_env ''b'' (guest_session 2) ?w1))"
    using server_reach.Step[OF r1 server_step.Connect] by simp
  then have r2: "?r (snd (connect guest_env ''b'' (guest_session 2) ?w1))" .
  have layer: "en_layer guest_env \<noteq> None" by simp
  show ?thesis unfolding call_world_def
    by (rule server_reach.Step[OF server_reach.Step[OF r2 server_step.Receive[OF layer]] server_step.Receive[OF layer]])
qed


lemma seen_join:
  assumes c: "wd_conns w ch = Some c" "cn_participant c = Some p"
  shows "wd_groups (join_groups guest_env ch p (set_conn ch f w)) (participant_channel_group i) =
      (if uuid_str (pt_id p) = uuid_str i \<and> ch \<notin> set (wd_groups w (participant_channel_group i))
       then wd_groups w (participant_channel_group i) @ [ch] else wd_groups w (participant_channel_group i))"
    and "wd_db (join_groups guest_env ch p (set_conn ch f w)) = wd_db w"
    and "x \<noteq> ch \<Longrightarrow> wd_conns (join_groups guest_env ch p (set_conn ch f w)) x = wd_conns w x"
    and "\<exists>c'. wd_conns (join_groups guest_env ch p (set_conn ch f w)) ch = Some c' \<and> who c' = who (f c)"
proof -
  have "participant_channel_group i = participant_channel_group (pt_id p) \<longleftrightarrow> uuid_str (pt_id p) = uuid_str i"
    by (auto simp: participant_channel_group_def)
  then show "wd_groups (join_groups guest_env ch p (set_conn ch f w)) (participant_channel_group i) =
      (if uuid_str (pt_id p) = uuid_str i \<and> ch \<notin> set (wd_groups w (participant_channel_group i))
       then wd_groups w (participant_channel_group i) @ [ch] else wd_groups w (participant_channel_group i))"
    using not_event_group[of i "pt_event p"]
    by (cases "uuid_str (pt_id p) = uuid_str i") (auto simp: join_groups_def group_add_def)
  show "wd_db (join_groups guest_env ch p (set_conn ch f w)) = wd_db w" by (simp add: join_groups_def group_add_def)
  show "wd_conns (join_groups guest_env ch p (set_conn ch f w)) x = wd_conns w x" if "x \<noteq> ch"
    using that by (simp add: join_groups_def)
  show "\<exists>c'. wd_conns (join_groups guest_env ch p (set_conn ch f w)) ch = Some c' \<and> who c' = who (f c)"
    using c by (simp add: join_groups_def who_def)
qed

lemma seenD: "seen w = seen w' \<Longrightarrow> wd_groups w = wd_groups w' \<and> db_pairs (wd_db w) = db_pairs (wd_db w') \<and>
   map_option who (wd_conns w x) = map_option who (wd_conns w' x)"
  by (auto simp: seen_def fun_eq_iff)

lemma call_world_facts:
  "\<exists>c p. wd_conns call_world ''a'' = Some c \<and> cn_participant c = Some p \<and> pt_id p = UUID 1 \<and> cn_authenticated c \<and> cn_handshake c \<and>
     cn_rate c = [5]"
  "''b'' \<in> set (wd_groups call_world (participant_channel_group (UUID 2)))" "db_pairs (wd_db call_world) = [live_pair]"
proof -
  let ?fr = "\<lambda>_. ''''"
  let ?g = "\<lambda>i. (new_conn 5)\<lparr>cn_participant := Some (guest i), cn_authenticated := True, cn_heartbeat := True\<rparr>"
  define w2 where "w2 = snd (connect guest_env ''b'' (guest_session 2) (snd (connect guest_env ''a'' (guest_session 1) (start_world call_db Map.empty))))"
  define w3 where "w3 = snd (receive ?fr (default_settings ?fr) guest_env ''a'' hello_text w2)"
  have call: "call_world = snd (receive ?fr (default_settings ?fr) guest_env ''b'' hello_text w3)" by (simp add: call_world_def w3_def w2_def)
  have w2: "wd_conns w2 ''a'' = Some (?g 1)" "wd_conns w2 ''b'' = Some (?g 2)" "wd_groups w2 = (\<lambda>_. [])" "db_pairs (wd_db w2) = [live_pair]"
    by (simp_all add: w2_def connect_guest start_world_def call_db_def empty_db_def del: One_nat_def)
  have g: "cn_participant (?g i) = Some (guest i)" "cn_authenticated (?g i)" "\<not> cn_handshake (?g i)" "cn_rate (?g i) = []"
    "pt_id (guest i) = UUID i" for i
    by (simp_all add: new_conn_def guest_def)
  have mono: "en_mono guest_env = 5" by (simp add: guest_env_def)
  let ?f = "\<lambda>c. c\<lparr>cn_handshake := True, cn_rate := [5]\<rparr>"
  let ?v3 = "join_groups guest_env ''a'' (guest 1) (set_conn ''a'' ?f w2)"
  have s3: "seen w3 = seen ?v3" unfolding w3_def using receive_hello[OF w2(1) g(1-4) guest_simps(5)] by (simp only: mono)
  note j3 = seen_join[OF w2(1) g(1), where f = ?f]
  have b3: "map_option who (wd_conns w3 ''b'') = Some (who (?g 2))" using seenD[OF s3, of "''b''"] j3(3)[of "''b''"] w2(2) by simp
  have a3: "map_option who (wd_conns w3 ''a'') = Some (who (?f (?g 1)))" using seenD[OF s3, of "''a''"] j3(4) by auto
  have d3: "db_pairs (wd_db w3) = [live_pair]" using seenD[OF s3] j3(2) w2(4) by simp
  obtain c where "wd_conns w3 ''b'' = Some c" "who c = who (?g 2)" using b3 by auto
  then obtain p where c: "wd_conns w3 ''b'' = Some c" "cn_participant c = Some p" "pt_id p = UUID 2" "cn_authenticated c"
      "\<not> cn_handshake c" "cn_rate c = []"
    using g[of 2] by (auto simp: who_def)
  let ?v4 = "join_groups guest_env ''b'' p (set_conn ''b'' ?f w3)"
  have s4: "seen call_world = seen ?v4" unfolding call using receive_hello[OF c(1,2,4,5,6) guest_simps(5)] by (simp only: mono)
  note j4 = seen_join[OF c(1,2), where f = ?f]
  have "map_option who (wd_conns call_world ''a'') = Some (who (?f (?g 1)))" using seenD[OF s4, of "''a''"] j4(3)[of "''a''"] a3 by simp
  then show "\<exists>c p. wd_conns call_world ''a'' = Some c \<and> cn_participant c = Some p \<and> pt_id p = UUID 1 \<and> cn_authenticated c \<and>
      cn_handshake c \<and> cn_rate c = [5]"
    using g[of 1] by (auto simp: who_def simp del: One_nat_def)
  show "''b'' \<in> set (wd_groups call_world (participant_channel_group (UUID 2)))"
    using seenD[OF s4] j4(1)[of "UUID 2"] c(3) by auto
  show "db_pairs (wd_db call_world) = [live_pair]" using seenD[OF s4] j4(2) d3 by simp
qed

lemma signal_reaches_partner_only_witness:
  "\<exists>m out payload cx px. (''b'', m) \<in> set (relays (snd (receive (\<lambda>_. '''') (default_settings (\<lambda>_. '''')) guest_env ''a'' offer_text call_world))) \<and>
     validate_message (Parsed m) = Inr (out, payload) \<and> dict_get payload ''from_participant_id'' = Some (JStr (uuid_str (UUID 1))) \<and>
     wd_conns call_world ''b'' = Some cx \<and> cn_handshake cx \<and> cn_participant cx = Some px \<and> uuid_str (pt_id px) = uuid_str (UUID 2)"
proof -
  obtain c p where c: "wd_conns call_world ''a'' = Some c" "cn_participant c = Some p" "pt_id p = UUID 1" "cn_authenticated c"
      "cn_handshake c" "cn_rate c = [en_mono guest_env]"
    using call_world_facts(1) by (auto simp: guest_env_def)
  have partner: "resolve_partner (wd_db call_world) (pt_id p) ''room'' = Some (UUID 2)"
    by (simp add: resolve_partner_def call_world_facts(3) c(3) first_by_pk_def on_pair_def partner_on_pair_def)
      (simp add: live_pair_def)
  obtain m where m: "relays (snd (receive (\<lambda>_. '''') (default_settings (\<lambda>_. '''')) guest_env ''a'' offer_text call_world)) =
      relays call_world @ map (\<lambda>x. (x, m)) (wd_groups call_world (participant_channel_group (UUID 2)))"
    using receive_offer[OF c(1,2,4,5,6) guest_simps(7) partner] by blast
  have inb: "(''b'', m) \<in> set (map (\<lambda>x. (x, m)) (wd_groups call_world (participant_channel_group (UUID 2))))"
    using call_world_facts(2) by simp
  obtain p' pair out payload cx px where s: "cn_participant c = Some p'" "pair \<in> set (db_pairs (wd_db call_world))"
      "validate_message (Parsed m) = Inr (out, payload)"
      "dict_get payload ''from_participant_id'' = Some (JStr (uuid_str (pt_id p')))" "wd_conns call_world ''b'' = Some cx"
      "cn_handshake cx" "cn_participant cx = Some px" "uuid_str (pt_id px) = uuid_str (partner_on_pair pair (pt_id p'))"
    using signal_reaches_partner_only[OF call_world_reach c(1) m inb] by blast
  then have "pair = live_pair" "p' = p" using c(2) by (simp_all add: call_world_facts(3))
  then have "uuid_str (pt_id px) = uuid_str (UUID 2)" using s(8) c(3) by (simp add: partner_on_pair_def live_pair_def)
  then show ?thesis using m inb s c(3) \<open>p' = p\<close> by (auto simp del: One_nat_def)
qed

section \<open>Telemetry\<close>

text \<open>A telemetry message with a list for a cause.\<close>

definition odd_telemetry :: raw_message where
  "odd_telemetry = Parsed (JObj [(''type'', JStr ''client.telemetry''), (''payload'', JObj [(''cause'', JList [JNull])])])"

text \<open>A socket can keep its disconnection out of the records: a telemetry message whose cause is a list is
  accepted whatever its size and however many were sent before, and when the socket then closes, no
  disconnection is logged and the participant's status stays as it was.\<close>

theorem telemetry_hides_disconnection:
  "wd_wire (snd (receive tag_name cfg en ch (Some (odd_telemetry, n)) w)) = wd_wire w \<and>
   wd_db (snd (disconnect cfg en' ch code (snd (receive tag_name cfg en ch (Some (odd_telemetry, n)) w)))) = wd_db w"
proof (cases "wd_conns w ch")
  case None
  then show ?thesis by (simp add: receive_def with_conn_def disconnect_def)
next
  case (Some c)
  define w1 where "w1 = snd (receive tag_name cfg en ch (Some (odd_telemetry, n)) w)"
  define c1 where "c1 = c\<lparr>cn_last_activity := en_mono en, cn_cause := JList [JNull], cn_detail := ''''\<rparr>"
  have w1: "wd_wire w1 = wd_wire w" "wd_db w1 = wd_db w" "wd_conns w1 ch = Some c1"
    using Some by (simp_all add: w1_def receive_def with_conn_def Let_def odd_telemetry_def telemetry_of_def dict_get_Cons
        py_value_str_def c1_def)
  let ?w2 = "leave_groups en' ch c1 (set_conn ch (\<lambda>c. c\<lparr>cn_heartbeat := False\<rparr>) w1)"
  have w2: "wd_db ?w2 = wd_db w" using w1(2) by (simp add: leave_groups_def group_discard_def split: option.split)
  have rec: "keeps wd_db (caught (record_disconnection en' ch (JList [JNull]) d))" for d
    by (rule keeps_caught) (simp add: keeps_def record_disconnection_def with_participant_def with_conn_def skip_def hashable_def
        split: option.split)
  have watch: "keeps wd_db (begin_absence_watch cfg en' ch)"
    by (simp add: keeps_def begin_absence_watch_def with_participant_def with_conn_def skip_def split: option.split)
  have live: "keeps wd_db (on_live_socket_closed cfg en' ch)"
    using keepsD[OF watch] by (simp add: keeps_def on_live_socket_closed_def with_participant_def with_conn_def skip_def split: option.split)
  have "keeps wd_db (andthen (if cn_participant c1 \<noteq> None \<and> cn_handshake c1 \<and> \<not> cn_replaced c1
        then caught (record_disconnection en' ch (JList [JNull]) d) else skip)
      (andthen (on_live_socket_closed cfg en' ch) (update (\<lambda>w. w\<lparr>wd_conns := (wd_conns w)(ch := None)\<rparr>))))" for d
    by (intro keeps_rules rec live) simp
  moreover have "snd (disconnect cfg en' ch code w1) = snd (andthen (if cn_participant c1 \<noteq> None \<and> cn_handshake c1 \<and> \<not> cn_replaced c1
        then caught (record_disconnection en' ch (JList [JNull]) (cn_detail c1)) else skip)
      (andthen (on_live_socket_closed cfg en' ch) (update (\<lambda>w. w\<lparr>wd_conns := (wd_conns w)(ch := None)\<rparr>))) ?w2)"
  proof -
    have "truthy (cn_cause c1)" "cn_cause c1 = JList [JNull]" by (simp_all add: c1_def)
    then show ?thesis using w1(3)
      by (cases "cn_participant c1") (simp_all add: disconnect_def with_conn_def andthen_def[of "update f" for f] update_def[of "\<lambda>w. leave_groups e h k (s w)" for e h k s])
  qed
  ultimately have "wd_db (snd (disconnect cfg en' ch code w1)) = wd_db w" using w2 by (simp add: keepsD)
  then show ?thesis using w1(1) by (simp add: w1_def)
qed

end
