(* ===== verification/Preconnect.thy ===== *)
theory Preconnect
  imports Consumer_Safety
begin

text \<open>
  The pre-connect notices of \<open>apps/events/preconnect.py\<close> and where they arrive. \<open>fmt\<close> renders an instant
  as \<open>datetime.isoformat\<close> does. A notice published to a group the channel layer refuses ends the call
  with its exception; what was published before stays published.
\<close>

section \<open>The service\<close>

definition preconnect_window_seconds :: int where
  "preconnect_window_seconds = 25"

text \<open>\<open>order_by("number").first()\<close> over the rounds that start within the window.\<close>

definition get_upcoming_round :: "uuid \<Rightarrow> int \<Rightarrow> db \<Rightarrow> round_row option" where
  "get_upcoming_round e now d =
     (case get_current_phase e 20000000 now d of
        (EP_Preconnect, Some r, _) \<Rightarrow> Some r
      | _ \<Rightarrow>
          (let rs = filter (\<lambda>r. now < rd_starts_at r \<and> rd_starts_at r \<le> now + preconnect_window_seconds * 1000000) (event_rounds d e)
           in if rs = [] then None else Some (min_by rd_number rs)))"

definition room_group :: "string \<Rightarrow> string" where
  "room_group room = ''room_'' @ room"

datatype preconnect_error = NoUpcomingRound | NoPairs nat | PublishFailed

type_synonym notices = "(string \<times> layer_message) list"

definition seconds_until :: "round_row \<Rightarrow> int \<Rightarrow> int" where
  "seconds_until r now = max (py_trunc (float_seconds (rd_starts_at r - now))) 0"

definition peer_payload :: "(int \<Rightarrow> string) \<Rightarrow> db \<Rightarrow> round_row \<Rightarrow> int \<Rightarrow> pair_row \<Rightarrow> uuid \<Rightarrow> bool \<Rightarrow> json" where
  "peer_payload fmt d r now p peer initiator = JObj
     [(''round_number'', JInt (int (rd_number r))), (''room_id'', JStr (pr_room_id p)), (''peer_id'', JStr (uuid_str peer)),
      (''peer_name'', JStr (display_name_of d peer)), (''is_initiator'', JBool initiator),
      (''starts_at'', JStr (fmt (rd_starts_at r))), (''seconds_until_start'', JInt (seconds_until r now)),
      (''media_muted'', JBool True)]"

definition room_payload :: "(int \<Rightarrow> string) \<Rightarrow> round_row \<Rightarrow> int \<Rightarrow> pair_row \<Rightarrow> json" where
  "room_payload fmt r now p = JObj
     [(''round_number'', JInt (int (rd_number r))), (''room_id'', JStr (pr_room_id p)),
      (''starts_at'', JStr (fmt (rd_starts_at r))), (''seconds_until_start'', JInt (seconds_until r now))]"

definition pair_notices :: "(int \<Rightarrow> string) \<Rightarrow> db \<Rightarrow> round_row \<Rightarrow> int \<Rightarrow> pair_row \<Rightarrow> notices" where
  "pair_notices fmt d r now p =
     [(participant_channel_group (pr_a p), RoundPreconnect (peer_payload fmt d r now p (pr_b p) True)),
      (participant_channel_group (pr_b p), RoundPreconnect (peer_payload fmt d r now p (pr_a p) False)),
      (room_group (pr_room_id p), RoundPreconnect (room_payload fmt r now p))]"

text \<open>Sending one after the other; the first refusal ends it.\<close>

fun send_notices :: "channel_layer \<Rightarrow> notices \<Rightarrow> bool \<times> notices" where
  "send_notices None ns = (True, [])"
| "send_notices (Some up) [] = (True, [])"
| "send_notices (Some up) ((g, m) # ns) =
     (if up g then (case send_notices (Some up) ns of (ok, out) \<Rightarrow> (ok, (g, m) # out)) else (False, []))"

record preconnect_reply =
  pn_round_number :: nat
  pn_pairs_notified :: nat
  pn_seconds_until_start :: int

definition trigger_preconnect :: "(int \<Rightarrow> string) \<Rightarrow> channel_layer \<Rightarrow> uuid \<Rightarrow> round_row option \<Rightarrow> int \<Rightarrow> db
    \<Rightarrow> (preconnect_error + preconnect_reply) \<times> notices" where
  "trigger_preconnect fmt layer e target now d =
     (case (case target of Some r \<Rightarrow> Some r | None \<Rightarrow> get_upcoming_round e now d) of
        None \<Rightarrow> (Inl NoUpcomingRound, [])
      | Some r \<Rightarrow>
          (let pairs = round_pairs d e (rd_id r) in
           if pairs = [] then (Inl (NoPairs (rd_number r)), [])
           else case send_notices layer (concat (map (pair_notices fmt d r now) pairs)) of
               (True, out) \<Rightarrow> (Inr \<lparr>pn_round_number = rd_number r, pn_pairs_notified = length pairs,
                  pn_seconds_until_start = seconds_until r now\<rparr>, out)
             | (False, out) \<Rightarrow> (Inl PublishFailed, out)))"

definition start_payload :: "(int \<Rightarrow> string) \<Rightarrow> round_row \<Rightarrow> pair_row \<Rightarrow> json" where
  "start_payload fmt r p = JObj
     [(''round_number'', JInt (int (rd_number r))), (''room_id'', JStr (pr_room_id p)),
      (''ends_at'', JStr (fmt (rd_ends_at r))), (''media_muted'', JBool False)]"

definition trigger_round_start :: "(int \<Rightarrow> string) \<Rightarrow> channel_layer \<Rightarrow> uuid \<Rightarrow> round_row \<Rightarrow> db
    \<Rightarrow> (preconnect_error + nat \<times> nat) \<times> notices" where
  "trigger_round_start fmt layer e r d =
     (let pairs = round_pairs d e (rd_id r) in
      case send_notices layer (map (\<lambda>p. (room_group (pr_room_id p), RoundStartNotice (start_payload fmt r p))) pairs) of
        (True, out) \<Rightarrow> (Inr (rd_number r, length pairs), out)
      | (False, out) \<Rightarrow> (Inl PublishFailed, out))"

section \<open>Where the notices arrive\<close>

definition deliver_notices :: "notices \<Rightarrow> world \<Rightarrow> world" where
  "deliver_notices ns w = fold (\<lambda>(g, m). fan_out g m) ns w"

lemma deliver_notices_groups [simp]: "wd_groups (deliver_notices ns w) = wd_groups w"
  unfolding deliver_notices_def by (induction ns arbitrary: w) auto

lemma deliver_notices_inbox:
  "wd_inbox (deliver_notices ns w) = wd_inbox w @ concat (map (\<lambda>(g, m). map (\<lambda>ch. (ch, m)) (wd_groups w g)) ns)"
  unfolding deliver_notices_def
proof (induction ns arbitrary: w)
  case (Cons n ns)
  obtain g m where n: "n = (g, m)" by (rule prod.exhaust)
  show ?case using Cons[of "fan_out g m w"] by (simp add: n)
qed simp

lemma no_room_group:
  assumes "server_reach tag_name cfg w"
  shows "wd_groups w (room_group room) = []"
proof -
  have "member_ok (wd_conns w ch) (room_group room)" if "ch \<in> set (wd_groups w (room_group room))" for ch
    using server_reach_ok[OF assms] that by (simp add: ws_ok_def)
  moreover have "\<not> member_ok c (room_group room)" for c
    by (auto simp: member_ok_def groups_of_def room_group_def participant_channel_group_def event_channel_group_def)
  ultimately have "ch \<notin> set (wd_groups w (room_group room))" for ch by blast
  then show ?thesis by (cases "wd_groups w (room_group room)") auto
qed

lemma send_notices_sub: "set (snd (send_notices layer ns)) \<subseteq> set ns"
  by (induction layer ns rule: send_notices.induct) (auto split: prod.split if_splits)

lemma send_notices_all: "send_notices (Some up) ns = (True, out) \<Longrightarrow> out = ns"
  by (induction "Some up" ns arbitrary: out rule: send_notices.induct) (auto split: prod.splits if_splits)

lemma concat_map_Nil: "\<forall>x \<in> set xs. f x = [] \<Longrightarrow> concat (map f xs) = []"
  by (induction xs) auto

text \<open>The start notice of a round reaches no one: it goes to the groups of the rooms, and in every state the
  server can reach no socket is in one. The service reports the round as started all the same.\<close>

theorem round_start_notice_reaches_nobody:
  assumes "server_reach tag_name cfg w"
  shows "wd_inbox (deliver_notices (snd (trigger_round_start fmt layer e r d)) w) = wd_inbox w \<and>
    fst (trigger_round_start fmt (Some (\<lambda>_. True)) e r d) = Inr (rd_number r, length (round_pairs d e (rd_id r)))"
proof -
  let ?ns = "map (\<lambda>p. (room_group (pr_room_id p), RoundStartNotice (start_payload fmt r p))) (round_pairs d e (rd_id r))"
  have "snd (trigger_round_start fmt layer e r d) = snd (send_notices layer ?ns)"
    by (simp add: trigger_round_start_def Let_def split: prod.split bool.split)
  then have "\<forall>n \<in> set (snd (trigger_round_start fmt layer e r d)). \<exists>room. fst n = room_group room"
    using send_notices_sub[of layer ?ns] by force
  then have "\<forall>n \<in> set (snd (trigger_round_start fmt layer e r d)). (\<lambda>(g, m). map (\<lambda>ch. (ch, m)) (wd_groups w g)) n = []"
    using no_room_group[OF assms] by (fastforce split: prod.split)
  then have "wd_inbox (deliver_notices (snd (trigger_round_start fmt layer e r d)) w) = wd_inbox w"
    by (simp add: deliver_notices_inbox concat_map_Nil)
  moreover have "fst (send_notices (Some (\<lambda>_. True)) ns)" for ns :: notices by (induction ns) (auto split: prod.split)
  ultimately show ?thesis
    by (auto simp: trigger_round_start_def Let_def split: prod.split bool.split) (metis fst_conv)
qed

lemma round_start_notice_reaches_nobody_witness:
  "wd_inbox (deliver_notices (snd (trigger_round_start (\<lambda>_. '''') (Some (\<lambda>_. True)) (UUID 7)
     \<lparr>rd_id = UUID 30, rd_event = UUID 7, rd_number = 2, rd_status = RS_Active, rd_starts_at = 0, rd_ends_at = 300\<rparr> empty_db))
     (start_world empty_db Map.empty)) = []"
  using round_start_notice_reaches_nobody[OF server_reach.Start[of "\<lambda>_. ''''" "default_settings (\<lambda>_. '''')" empty_db Map.empty],
      of "\<lambda>_. ''''" "Some (\<lambda>_. True)" "UUID 7"]
  by (simp add: start_world_def)

text \<open>The pre-connect notice of a participant reaches exactly the participant's sockets.\<close>

lemma preconnect_notices_arrive:
  assumes "trigger_preconnect fmt (Some up) e target now d = (Inr reply, out)"
  shows "\<exists>r. pn_round_number reply = rd_number r \<and> pn_pairs_notified reply = length (round_pairs d e (rd_id r)) \<and>
    out = concat (map (pair_notices fmt d r now) (round_pairs d e (rd_id r)))"
  using assms by (auto simp: trigger_preconnect_def Let_def dest!: send_notices_all split: option.splits if_splits prod.splits bool.splits)

end
