(* ===== verification/Py_Text.thy ===== *)
theory Py_Text
  imports Py_Json
begin

text \<open>
  Python's \<open>int(x)\<close>, \<open>str(x)\<close> and \<open>str.lower()\<close> of the values a JSON payload or a form can hold.
  Characters are the code points 0 to 255, of which only 0 to 9 are decimal digits.
\<close>

datatype call_error = CallValueError | CallTypeError | CallKeyError string | CallOverflowError

section \<open>Lower case\<close>

definition lower_char :: "char \<Rightarrow> char" where
  "lower_char c = (let n = of_char c :: nat
     in if (65 \<le> n \<and> n \<le> 90) \<or> (192 \<le> n \<and> n \<le> 222 \<and> n \<noteq> 215) then char_of (n + 32) else c)"

definition py_lower :: "string \<Rightarrow> string" where
  "py_lower s = map lower_char s"

lemma of_char_char_of: "n < 256 \<Longrightarrow> of_char (char_of (n :: nat)) = n"
  by simp

lemma lower_char_idem [simp]: "lower_char (lower_char c) = lower_char c"
proof -
  have "of_char c < (256 :: nat)" by simp
  show ?thesis
  proof (cases "lower_char c = c")
    case False
    let ?n = "of_char c :: nat"
    have n: "(65 \<le> ?n \<and> ?n \<le> 90) \<or> (192 \<le> ?n \<and> ?n \<le> 222 \<and> ?n \<noteq> 215)" and l: "lower_char c = char_of (?n + 32)"
      using False by (auto simp: lower_char_def Let_def split: if_splits)
    then have "of_char (lower_char c) = ?n + 32" by auto
    with n show ?thesis by (auto simp: lower_char_def[of "lower_char c"] Let_def)
  qed simp
qed

lemma py_lower_idem [simp]: "py_lower (py_lower s) = py_lower s"
  by (simp add: py_lower_def)

lemma length_py_lower [simp]: "length (py_lower s) = length s"
  by (simp add: py_lower_def)

section \<open>Integers\<close>

definition is_digit :: "char \<Rightarrow> bool" where
  "is_digit c = (48 \<le> (of_char c :: nat) \<and> (of_char c :: nat) \<le> 57)"

text \<open>Digits with single underscores between them; \<open>prev\<close> says that a digit came just before.\<close>

fun digits_of :: "bool \<Rightarrow> string \<Rightarrow> string option" where
  "digits_of prev [] = (if prev then Some [] else None)"
| "digits_of prev (c # s) =
     (if is_digit c then map_option (Cons c) (digits_of True s)
      else if c = CHR ''_'' \<and> prev then digits_of False s else None)"

definition digits_value :: "string \<Rightarrow> int" where
  "digits_value ds = fold (\<lambda>c v. 10 * v + (of_char c - 48)) ds 0"

definition int_of_text :: "string \<Rightarrow> int option" where
  "int_of_text s =
     (case py_strip s of
        [] \<Rightarrow> None
      | c # t \<Rightarrow>
          (let (sign, body) = (if c = CHR ''-'' then (- 1, t) else if c = CHR ''+'' then (1, t) else (1, c # t)) in
           case digits_of False body of
             None \<Rightarrow> None
           | Some ds \<Rightarrow> if 4300 < length ds then None else Some (sign * digits_value ds)))"

text \<open>\<open>int(x)\<close>; a float is truncated towards zero.\<close>

fun json_int :: "json \<Rightarrow> call_error + int" where
  "json_int (JInt i) = Inr i"
| "json_int (JBool b) = Inr (if b then 1 else 0)"
| "json_int (JFloat (Fin x)) = Inr (if 0 \<le> x then \<lfloor>x\<rfloor> else \<lceil>x\<rceil>)"
| "json_int (JFloat NaN) = Inl CallValueError"
| "json_int (JFloat _) = Inl CallOverflowError"
| "json_int (JStr s) = (case int_of_text s of None \<Rightarrow> Inl CallValueError | Some i \<Rightarrow> Inr i)"
| "json_int _ = Inl CallTypeError"

section \<open>str\<close>

text \<open>\<open>repr_of\<close> renders floats, lists and dicts.\<close>

fun py_str :: "(json \<Rightarrow> string) \<Rightarrow> json \<Rightarrow> string" where
  "py_str repr_of JNull = ''None''"
| "py_str repr_of (JBool b) = (if b then ''True'' else ''False'')"
| "py_str repr_of (JInt i) = show_int i"
| "py_str repr_of (JStr s) = s"
| "py_str repr_of v = repr_of v"

lemma map_py_str [simp]: "map (py_str repr_of \<circ> JStr) xs = xs"
  by (induction xs) auto

text \<open>\<open>d.get(k, default)\<close> and \<open>d[k]\<close>.\<close>

definition get_or :: "pydict \<Rightarrow> string \<Rightarrow> json \<Rightarrow> json" where
  "get_or d k v = (case dict_get d k of None \<Rightarrow> v | Some x \<Rightarrow> x)"

definition dict_item :: "pydict \<Rightarrow> string \<Rightarrow> call_error + json" where
  "dict_item d k = (case dict_get d k of None \<Rightarrow> Inl (CallKeyError k) | Some x \<Rightarrow> Inr x)"

text \<open>\<open>a or b\<close>.\<close>

definition py_or :: "json \<Rightarrow> json \<Rightarrow> json" where
  "py_or a b = (if truthy a then a else b)"

lemma get_or_Cons [simp]: "get_or ((k, v) # d) k' w = (if k' = k then v else get_or d k' w)"
  by (simp add: get_or_def dict_get_Cons)

lemma get_or_Nil [simp]: "get_or [] k w = w"
  by (simp add: get_or_def)

lemma dict_item_Cons [simp]: "dict_item ((k, v) # d) k' = (if k' = k then Inr v else dict_item d k')"
  by (simp add: dict_item_def dict_get_Cons)

section \<open>Reading back a printed integer\<close>

lemma show_nat_digits: "c \<in> set (show_nat n) \<Longrightarrow> is_digit c"
proof (induction n rule: show_nat.induct)
  case (1 n)
  have "is_digit (char_of (48 + k))" if "k < 10" for k :: nat using that by (simp add: is_digit_def)
  then show ?case using 1 by (subst (asm) show_nat.simps) (auto split: if_splits)
qed

lemma digits_value_snoc: "digits_value (ds @ [c]) = 10 * digits_value ds + (of_char c - 48)"
  by (simp add: digits_value_def)

lemma digits_value_show: "digits_value (show_nat n) = int n"
proof (induction n rule: show_nat.induct)
  case (1 n)
  have one: "(of_char (char_of (48 + k)) :: int) = 48 + int k" if "k < 10" for k :: nat
  proof -
    have "(of_char (char_of (48 + k)) :: nat) = 48 + k" using that by (intro of_char_char_of) simp
    then have "int (of_char (char_of (48 + k))) = 48 + int k" by simp
    then show ?thesis by (simp only: of_nat_of_char)
  qed
  show ?case
  proof (cases "n < 10")
    case True
    then show ?thesis using one[of n] by (subst show_nat.simps) (simp add: digits_value_def)
  next
    case False
    then have "digits_value (show_nat n) = 10 * int (n div 10) + int (n mod 10)"
      using 1 one[of "n mod 10"] by (subst show_nat.simps) (simp add: digits_value_snoc)
    moreover have "10 * int (n div 10) + int (n mod 10) = int n" by presburger
    ultimately show ?thesis by simp
  qed
qed

lemma digits_of_all: "\<forall>c \<in> set s. is_digit c \<Longrightarrow> prev \<or> s \<noteq> [] \<Longrightarrow> digits_of prev s = Some s"
  by (induction s arbitrary: prev) auto

lemma length_show_nat: "n < 10 ^ k \<Longrightarrow> 0 < k \<Longrightarrow> length (show_nat n) \<le> k"
proof (induction n arbitrary: k rule: show_nat.induct)
  case (1 n)
  show ?case
  proof (cases "n < 10")
    case True
    then show ?thesis using "1.prems" by (subst show_nat.simps) simp
  next
    case False
    then obtain j where k: "k = Suc j" "0 < j" using "1.prems" by (cases k; cases "k = 1") auto
    have "n div 10 < 10 ^ j" using "1.prems"(1) by (simp add: k less_mult_imp_div_less mult.commute)
    then have "length (show_nat (n div 10)) \<le> j" using "1.IH"[OF False] k(2) by blast
    then show ?thesis using False by (subst show_nat.simps) (simp add: k)
  qed
qed

lemma digit_not_space: "is_digit c \<Longrightarrow> \<not> py_isspace c"
  by (auto simp: is_digit_def py_isspace_def Let_def)

lemma int_of_text_show:
  assumes "length (show_nat n) \<le> 4300"
  shows "int_of_text (show_nat n) = Some (int n)"
proof -
  have dig: "\<forall>c \<in> set (show_nat n). is_digit c" using show_nat_digits by blast
  obtain c t where ct: "show_nat n = c # t" by (cases "show_nat n") auto
  have "\<not> py_isspace (hd (show_nat n))" "\<not> py_isspace (last (show_nat n))" using dig digit_not_space by auto
  then have "py_strip (show_nat n) = show_nat n" unfolding py_strip_def by (intro strip_by_id) blast
  moreover have "c \<noteq> CHR ''-''" "c \<noteq> CHR ''+''" using dig by (auto simp: ct is_digit_def)
  moreover have "digits_of False (c # t) = Some (c # t)" using dig by (intro digits_of_all) (auto simp: ct)
  moreover have "length (c # t) \<le> 4300" using assms by (simp only: ct)
  ultimately show ?thesis using digits_value_show[of n] by (simp only: int_of_text_def ct) simp
qed

end
