(* ===== verification/Call_Room.thy ===== *)
theory Call_Room
  imports Py_Text Realtime_Messages Operator
begin

text \<open>
  The state a client keeps in a call room, \<open>apps/events/call_room_logic.py\<close>: reconnect and absence
  policy, the countdown, and \<open>CallRoomState\<close> with its handlers. A handler is a function from the state
  and the payload to the next state or the exception it raises. \<open>parse\<close> is \<open>datetime.fromisoformat\<close>
  followed by \<open>timestamp()\<close>: the instant of a text, in microseconds; \<open>repr_of\<close> is Python's rendering
  of floats, lists and dicts.
\<close>

section \<open>Reconnect and absence policy\<close>

definition reconnect_initial_delay_ms :: int where
  "reconnect_initial_delay_ms = 500"

definition reconnect_max_delay_ms :: int where
  "reconnect_max_delay_ms = 4000"

definition reconnect_window_ms :: int where
  "reconnect_window_ms = 45000"

definition partner_absence_grace_ms :: int where
  "partner_absence_grace_ms = 25000"

definition next_reconnect_delay_ms :: "int \<Rightarrow> int \<Rightarrow> int \<Rightarrow> int" where
  "next_reconnect_delay_ms initial_ms max_ms attempt =
     (let n = nat (max 0 attempt) in min max_ms (initial_ms * 2 ^ n))"

definition reconnect_window_exhausted :: "int \<Rightarrow> int \<Rightarrow> int \<Rightarrow> bool" where
  "reconnect_window_exhausted window_ms started_at_ms now_ms \<longleftrightarrow> now_ms - started_at_ms \<ge> window_ms"

definition absence_grace_elapsed :: "int \<Rightarrow> int \<Rightarrow> int \<Rightarrow> bool" where
  "absence_grace_elapsed grace_ms disconnected_at_ms now_ms \<longleftrightarrow> now_ms - disconnected_at_ms \<ge> grace_ms"

definition should_announce_partner_gone :: "bool \<Rightarrow> bool \<Rightarrow> int \<Rightarrow> int \<Rightarrow> int \<Rightarrow> bool" where
  "should_announce_partner_gone owns_connection session_replaced grace_ms disconnected_at_ms now_ms =
     (if session_replaced \<or> \<not> owns_connection then False
      else absence_grace_elapsed grace_ms disconnected_at_ms now_ms)"

section \<open>Partner presence\<close>

datatype partner_presence = PresConnected | PresReconnecting | PresGone

definition presence_field :: "pydict \<Rightarrow> json" where
  "presence_field d = py_or (py_or (get_or d ''state'' JNull) (get_or d ''presence'' JNull)) (get_or d ''status'' JNull)"

definition presence_of_word :: "string \<Rightarrow> partner_presence option" where
  "presence_of_word val =
     (if val = ''disconnected'' \<or> val = ''gone'' then Some PresGone
      else if val = ''reconnecting'' then Some PresReconnecting
      else if val = ''connected'' then Some PresConnected else None)"

text \<open>
  The argument is a \<open>PartnerPresence\<close> or a JSON value, \<open>None\<close> being \<open>JNull\<close>. A field that is not a
  string is rendered by \<open>str()\<close>, which yields none of the words.
\<close>

definition partner_presence_from_protocol :: "partner_presence + json \<Rightarrow> partner_presence option" where
  "partner_presence_from_protocol payload =
     (case payload of
        Inl p \<Rightarrow> Some p
      | Inr (JObj d) \<Rightarrow>
          (let raw = (if truthy (presence_field d) then presence_field d
                      else case dict_get d ''payload'' of Some (JObj inner) \<Rightarrow> presence_field inner | _ \<Rightarrow> presence_field d)
           in if \<not> truthy raw then None else case raw of JStr s \<Rightarrow> presence_of_word (py_lower s) | _ \<Rightarrow> None)
      | Inr (JStr s) \<Rightarrow> if s = [] then None else presence_of_word (py_lower s)
      | Inr _ \<Rightarrow> None)"

section \<open>The countdown\<close>

text \<open>\<open>int(round(now + offset))\<close>: the sum of an integer and a float, rounded to even.\<close>

definition estimated_server_ms :: "rat \<Rightarrow> int \<Rightarrow> int" where
  "estimated_server_ms offset_ms client_ms = round_even (fl64 (fl64 (of_int client_ms) + offset_ms))"

definition compute_remaining_ms :: "int \<Rightarrow> rat \<Rightarrow> int \<Rightarrow> int" where
  "compute_remaining_ms round_end_ts offset_ms client_now_ms =
     max 0 (round_end_ts - estimated_server_ms offset_ms client_now_ms)"

text \<open>\<open>02d\<close> of a number that is not negative.\<close>

definition two_digits :: "int \<Rightarrow> string" where
  "two_digits n = (if n < 10 then CHR ''0'' # show_int n else show_int n)"

definition format_timer_display :: "int \<Rightarrow> string" where
  "format_timer_display remaining_ms =
     (let total_seconds = max 0 (remaining_ms div 1000)
      in two_digits (total_seconds div 60) @ '':'' @ two_digits (total_seconds mod 60))"

datatype timer_visual_state = TV_Waiting | TV_Normal | TV_Warning | TV_Expired | TV_Paused

definition timer_visual_state :: "bool \<Rightarrow> bool \<Rightarrow> int \<Rightarrow> int \<Rightarrow> timer_visual_state" where
  "timer_visual_state server_warning_active is_paused remaining_ms warning_threshold_seconds =
     (if is_paused then TV_Paused
      else if remaining_ms \<le> 0 then TV_Expired
      else if server_warning_active \<or> remaining_ms \<le> warning_threshold_seconds * 1000 then TV_Warning
      else TV_Normal)"

section \<open>The state of the room\<close>

datatype call_room_phase = CR_Idle | CR_Preconnecting | CR_InRound | CR_RoundEnding | CR_EventEnded | CR_Disconnected

definition keep_round_on_transient_disconnect :: "call_room_phase set" where
  "keep_round_on_transient_disconnect = {CR_Preconnecting, CR_InRound, CR_RoundEnding}"

record partner_info =
  pi_partner_id :: string
  pi_room_id :: string
  pi_round_number :: int
  pi_round_start_ts :: int
  pi_round_end_ts :: int
  pi_is_offerer :: bool
  pi_display_name :: string
  pi_tags :: "string list"

definition parse_pairing_payload :: "(json \<Rightarrow> string) \<Rightarrow> pydict \<Rightarrow> call_error + partner_info" where
  "parse_pairing_payload repr_of d =
     (let tags = (case dict_get d ''partner_tags'' of Some (JList ts) \<Rightarrow> map (py_str repr_of) ts | _ \<Rightarrow> []);
          display_name = (case dict_get d ''partner_display_name'' of
              Some (JStr s) \<Rightarrow> if py_strip s = [] then ''Partner'' else s | _ \<Rightarrow> ''Partner'')
      in bindE (dict_item d ''partner_id'') (\<lambda>pid.
         bindE (dict_item d ''room_id'') (\<lambda>room.
         bindE (bindE (dict_item d ''round_number'') json_int) (\<lambda>n.
         bindE (bindE (dict_item d ''round_start_ts'') json_int) (\<lambda>start.
         bindE (bindE (dict_item d ''round_end_ts'') json_int) (\<lambda>finish.
           Inr \<lparr>pi_partner_id = py_str repr_of pid, pi_room_id = py_str repr_of room, pi_round_number = n,
                pi_round_start_ts = start, pi_round_end_ts = finish,
                pi_is_offerer = truthy (get_or d ''is_offerer'' (JBool False)),
                pi_display_name = display_name, pi_tags = tags\<rparr>))))))"

record room_state =
  rs_phase :: call_room_phase
  rs_round_number :: "int option"
  rs_round_end_ts :: "int option"
  rs_server_warning :: bool
  rs_partner :: "partner_info option"
  rs_end_reason :: "string option"
  rs_is_paused :: bool
  rs_paused_remaining_ms :: "int option"
  rs_presence :: "partner_presence option"

definition new_room_state :: room_state where
  "new_room_state = \<lparr>rs_phase = CR_Idle, rs_round_number = None, rs_round_end_ts = None, rs_server_warning = False,
     rs_partner = None, rs_end_reason = None, rs_is_paused = False, rs_paused_remaining_ms = None, rs_presence = None\<rparr>"

text \<open>\<open>x or 0\<close> of an optional integer, and \<open>int(payload.get(k, x or 0))\<close>.\<close>

definition int_field :: "pydict \<Rightarrow> string \<Rightarrow> int option \<Rightarrow> call_error + int" where
  "int_field d k x = json_int (get_or d k (JInt (case x of None \<Rightarrow> 0 | Some i \<Rightarrow> i)))"

section \<open>The handlers\<close>

definition on_pairing :: "(json \<Rightarrow> string) \<Rightarrow> pydict \<Rightarrow> room_state \<Rightarrow> call_error + room_state" where
  "on_pairing repr_of d s = bindE (parse_pairing_payload repr_of d) (\<lambda>partner.
     Inr \<lparr>rs_phase = CR_Preconnecting, rs_round_number = Some (pi_round_number partner),
          rs_round_end_ts = Some (pi_round_end_ts partner), rs_server_warning = False, rs_partner = Some partner,
          rs_end_reason = None, rs_is_paused = False, rs_paused_remaining_ms = None, rs_presence = Some PresConnected\<rparr>)"

definition on_round_start :: "pydict \<Rightarrow> room_state \<Rightarrow> call_error + room_state" where
  "on_round_start d s = bindE (int_field d ''round_number'' (rs_round_number s)) (\<lambda>n.
     Inr (s\<lparr>rs_phase := CR_InRound, rs_round_number := Some n, rs_server_warning := False, rs_end_reason := None,
            rs_is_paused := False, rs_paused_remaining_ms := None\<rparr>))"

definition on_round_warning :: "pydict \<Rightarrow> room_state \<Rightarrow> call_error + room_state" where
  "on_round_warning d s = bindE (int_field d ''round_end_ts'' (rs_round_end_ts s)) (\<lambda>ts.
     bindE (int_field d ''round_number'' (rs_round_number s)) (\<lambda>n.
       Inr (s\<lparr>rs_round_number := Some n, rs_round_end_ts := (if ts \<noteq> 0 then Some ts else rs_round_end_ts s),
              rs_server_warning := True, rs_end_reason := None\<rparr>)))"

definition on_round_end :: "pydict \<Rightarrow> room_state \<Rightarrow> call_error + room_state" where
  "on_round_end d s = bindE (int_field d ''round_number'' (rs_round_number s)) (\<lambda>n.
     Inr (s\<lparr>rs_phase := CR_RoundEnding, rs_round_number := Some n, rs_server_warning := False, rs_partner := None,
            rs_end_reason := None, rs_is_paused := False, rs_paused_remaining_ms := None, rs_presence := None\<rparr>))"

definition on_event_end :: "(json \<Rightarrow> string) \<Rightarrow> pydict \<Rightarrow> room_state \<Rightarrow> room_state" where
  "on_event_end repr_of d s =
     s\<lparr>rs_phase := CR_EventEnded, rs_server_warning := False, rs_partner := None,
       rs_end_reason := Some (py_str repr_of (get_or d ''reason'' (JStr ''completed''))), rs_is_paused := False,
       rs_paused_remaining_ms := None, rs_presence := None\<rparr>"

definition on_disconnect :: "room_state \<Rightarrow> room_state" where
  "on_disconnect s = s\<lparr>rs_phase := CR_Disconnected\<rparr>"

definition on_transient_disconnect :: "room_state \<Rightarrow> room_state" where
  "on_transient_disconnect s =
     (if rs_phase s \<in> keep_round_on_transient_disconnect then s else on_disconnect s)"

definition on_operator_pause :: "pydict \<Rightarrow> room_state \<Rightarrow> call_error + room_state" where
  "on_operator_pause d s = bindE (int_field d ''remaining_seconds'' None) (\<lambda>secs.
     bindE (int_field d ''round_number'' (rs_round_number s)) (\<lambda>n.
       Inr (s\<lparr>rs_round_number := Some n, rs_is_paused := True, rs_paused_remaining_ms := Some (secs * 1000)\<rparr>)))"

text \<open>\<open>int(datetime.fromisoformat(text).timestamp() * 1000)\<close>.\<close>

definition iso_ms :: "(string \<Rightarrow> int option) \<Rightarrow> json \<Rightarrow> call_error + int" where
  "iso_ms parse v =
     (case v of
        JStr text \<Rightarrow> (case parse text of None \<Rightarrow> Inl CallValueError | Some us \<Rightarrow> Inr (datetime_to_unix_ms us))
      | _ \<Rightarrow> Inl CallTypeError)"

definition on_operator_resume :: "(string \<Rightarrow> int option) \<Rightarrow> pydict \<Rightarrow> room_state \<Rightarrow> call_error + room_state" where
  "on_operator_resume parse d s =
     (let ends_at = get_or d ''ends_at'' JNull in
      bindE (if truthy ends_at then map_sum id Some (iso_ms parse ends_at) else Inr (rs_round_end_ts s)) (\<lambda>new_end.
      bindE (int_field d ''round_number'' (rs_round_number s)) (\<lambda>n.
        Inr (s\<lparr>rs_round_number := Some n, rs_round_end_ts := new_end, rs_server_warning := False,
               rs_is_paused := False, rs_paused_remaining_ms := None\<rparr>))))"

definition on_operator_extend :: "(string \<Rightarrow> int option) \<Rightarrow> pydict \<Rightarrow> room_state \<Rightarrow> call_error + room_state" where
  "on_operator_extend parse d s =
     (let ends_at = get_or d ''ends_at'' JNull in
      bindE (if truthy ends_at then map_sum id Some (iso_ms parse ends_at)
             else case (dict_get d ''extended_by_seconds'', rs_round_end_ts s) of
               (Some v, Some t) \<Rightarrow> if t \<noteq> 0 then map_sum id (\<lambda>k. Some (t + k * 1000)) (json_int v) else Inr (rs_round_end_ts s)
             | _ \<Rightarrow> Inr (rs_round_end_ts s)) (\<lambda>new_end.
      bindE (int_field d ''round_number'' (rs_round_number s)) (\<lambda>n.
        Inr (s\<lparr>rs_round_number := Some n, rs_round_end_ts := new_end\<rparr>))))"

definition on_partner_state :: "partner_presence + json \<Rightarrow> room_state \<Rightarrow> room_state" where
  "on_partner_state payload s = s\<lparr>rs_presence := partner_presence_from_protocol payload\<rparr>"

end
