(* ===== verification/Call_Room_Props.thy ===== *)
theory Call_Room_Props
  imports Call_Room
begin

text \<open>
  What the room state keeps over any sequence of messages, what a pairing announcement becomes in the
  client, and how the client's countdown and the server's timetable follow each other through the
  operator's actions.
\<close>

section \<open>Runs of the handlers\<close>

datatype room_event =
    RoomPairing pydict
  | RoomStart pydict
  | RoomWarning pydict
  | RoomEnd pydict
  | RoomEventEnd pydict
  | RoomDisconnect
  | RoomTransient
  | RoomPause pydict
  | RoomResume pydict
  | RoomExtend pydict
  | RoomPartner "partner_presence + json"

text \<open>A handler that raises leaves the state as it was.\<close>

definition room_step :: "(string \<Rightarrow> int option) \<Rightarrow> (json \<Rightarrow> string) \<Rightarrow> room_event \<Rightarrow> room_state \<Rightarrow> call_error + room_state" where
  "room_step parse repr_of ev s =
     (case ev of
        RoomPairing d \<Rightarrow> on_pairing repr_of d s
      | RoomStart d \<Rightarrow> on_round_start d s
      | RoomWarning d \<Rightarrow> on_round_warning d s
      | RoomEnd d \<Rightarrow> on_round_end d s
      | RoomEventEnd d \<Rightarrow> Inr (on_event_end repr_of d s)
      | RoomDisconnect \<Rightarrow> Inr (on_disconnect s)
      | RoomTransient \<Rightarrow> Inr (on_transient_disconnect s)
      | RoomPause d \<Rightarrow> on_operator_pause d s
      | RoomResume d \<Rightarrow> on_operator_resume parse d s
      | RoomExtend d \<Rightarrow> on_operator_extend parse d s
      | RoomPartner p \<Rightarrow> Inr (on_partner_state p s))"

definition room_after :: "(string \<Rightarrow> int option) \<Rightarrow> (json \<Rightarrow> string) \<Rightarrow> room_event list \<Rightarrow> room_state \<Rightarrow> room_state" where
  "room_after parse repr_of evs s =
     fold (\<lambda>ev s. case room_step parse repr_of ev s of Inr s' \<Rightarrow> s' | Inl _ \<Rightarrow> s) evs s"

definition room_ok :: "room_state \<Rightarrow> bool" where
  "room_ok s \<longleftrightarrow> (rs_is_paused s \<longleftrightarrow> rs_paused_remaining_ms s \<noteq> None) \<and>
     (rs_partner s \<noteq> None \<longrightarrow> rs_round_end_ts s \<noteq> None \<and> rs_round_number s \<noteq> None) \<and>
     (rs_phase s = CR_Preconnecting \<longrightarrow> rs_partner s \<noteq> None) \<and>
     (rs_phase s \<in> {CR_RoundEnding, CR_EventEnded} \<longrightarrow> rs_partner s = None) \<and>
     (rs_end_reason s \<noteq> None \<longrightarrow> rs_phase s \<in> {CR_EventEnded, CR_Disconnected} \<and> rs_partner s = None)"

lemma map_sum_Inr_iff: "map_sum id f m = Inr y \<longleftrightarrow> (\<exists>x. m = Inr x \<and> y = f x)"
  by (cases m) auto

text \<open>A handler keeps the invariant: one fact per handler.\<close>

lemma plain_handlers_ok:
  assumes "room_ok s"
  shows "room_ok (on_event_end repr_of d s)" "room_ok (on_disconnect s)" "room_ok (on_transient_disconnect s)"
    "room_ok (on_partner_state p s)"
  using assms by (auto simp: room_ok_def on_event_end_def on_disconnect_def on_transient_disconnect_def on_partner_state_def)

lemma pairing_ok: "on_pairing repr_of d s = Inr s' \<Longrightarrow> room_ok s'"
  by (auto simp: room_ok_def on_pairing_def bindE_Inr_iff)

text \<open>The forms the successor can take.\<close>

lemma room_ok_cleared:
  assumes "room_ok s" "k = CR_InRound \<or> k = CR_RoundEnding \<and> P = None"
    and "P = rs_partner s \<or> P = None"
  shows "room_ok (s\<lparr>rs_phase := k, rs_round_number := Some n, rs_server_warning := w, rs_partner := P, rs_end_reason := None,
    rs_is_paused := False, rs_paused_remaining_ms := None, rs_presence := q\<rparr>)"
  using assms by (auto simp: room_ok_def)

lemma room_ok_ends:
  assumes "room_ok s" "rs_round_end_ts s \<noteq> None \<Longrightarrow> ts \<noteq> None" "E = rs_end_reason s \<or> E = None"
  shows "room_ok (s\<lparr>rs_round_number := Some n, rs_round_end_ts := ts, rs_server_warning := w, rs_end_reason := E\<rparr>)"
    and "room_ok (s\<lparr>rs_round_number := Some n, rs_round_end_ts := ts, rs_server_warning := w, rs_end_reason := E,
      rs_is_paused := b, rs_paused_remaining_ms := (if b then Some k else None)\<rparr>)"
  using assms by (auto simp: room_ok_def)

lemma start_ok: "room_ok s \<Longrightarrow> on_round_start d s = Inr s' \<Longrightarrow> room_ok s'"
  using room_ok_cleared[where k = CR_InRound and P = "rs_partner s" and w = False and q = "rs_presence s"] by (fastforce simp: on_round_start_def bindE_Inr_iff)

lemma end_ok: "room_ok s \<Longrightarrow> on_round_end d s = Inr s' \<Longrightarrow> room_ok s'"
  using room_ok_cleared[where k = CR_RoundEnding and P = None and w = False and q = None] by (auto simp: on_round_end_def bindE_Inr_iff)

lemma warning_ok: "room_ok s \<Longrightarrow> on_round_warning d s = Inr s' \<Longrightarrow> room_ok s'"
  unfolding on_round_warning_def bindE_Inr_iff by (elim exE conjE) (simp del: not_None_eq, erule subst, rule room_ok_ends(1), auto)

lemma pause_ok: "room_ok s \<Longrightarrow> on_operator_pause d s = Inr s' \<Longrightarrow> room_ok s'"
  using room_ok_ends(2)[where s = s and ts = "rs_round_end_ts s" and E = "rs_end_reason s" and w = "rs_server_warning s" and b = True]
  by (fastforce simp: on_operator_pause_def bindE_Inr_iff)

lemma resume_ok:
  assumes "room_ok s" "on_operator_resume parse d s = Inr s'"
  shows "room_ok s'"
proof -
  obtain ts n where s': "s' = s\<lparr>rs_round_number := Some n, rs_round_end_ts := ts, rs_server_warning := False,
      rs_is_paused := False, rs_paused_remaining_ms := None\<rparr>"
    and ts: "(if truthy (get_or d ''ends_at'' JNull) then map_sum id Some (iso_ms parse (get_or d ''ends_at'' JNull))
      else Inr (rs_round_end_ts s)) = Inr ts"
    using assms(2) unfolding on_operator_resume_def Let_def bindE_Inr_iff by blast
  have "ts \<noteq> None" if "rs_round_end_ts s = Some t" for t using ts[unfolded that] by (auto simp: map_sum_Inr_iff split: if_splits)
  then have "rs_round_end_ts s \<noteq> None \<Longrightarrow> ts \<noteq> None" by blast
  then show ?thesis using room_ok_ends(2)[OF assms(1), where ts = ts and E = "rs_end_reason s" and n = n and w = False and b = False] by (simp add: s')
qed

lemma extend_ok:
  assumes "room_ok s" "on_operator_extend parse d s = Inr s'"
  shows "room_ok s'"
proof -
  obtain ts n where s': "s' = s\<lparr>rs_round_number := Some n, rs_round_end_ts := ts\<rparr>"
    and ts: "(if truthy (get_or d ''ends_at'' JNull) then map_sum id Some (iso_ms parse (get_or d ''ends_at'' JNull))
      else case (dict_get d ''extended_by_seconds'', rs_round_end_ts s) of
        (Some v, Some t) \<Rightarrow> if t \<noteq> 0 then map_sum id (\<lambda>k. Some (t + k * 1000)) (json_int v) else Inr (rs_round_end_ts s)
      | _ \<Rightarrow> Inr (rs_round_end_ts s)) = Inr ts"
    using assms(2) unfolding on_operator_extend_def Let_def bindE_Inr_iff by blast
  have "ts \<noteq> None" if "rs_round_end_ts s = Some t" for t
    using ts[unfolded that] by (auto simp: map_sum_Inr_iff split: if_splits option.splits)
  then have "rs_round_end_ts s \<noteq> None \<Longrightarrow> ts \<noteq> None" by blast
  then show ?thesis using room_ok_ends(1)[OF assms(1), where ts = ts and E = "rs_end_reason s" and n = n and w = "rs_server_warning s"] by (simp add: s')
qed

lemma room_step_ok: "room_ok s \<Longrightarrow> room_step parse repr_of ev s = Inr s' \<Longrightarrow> room_ok s'"
  by (cases ev) (auto simp: room_step_def intro: plain_handlers_ok pairing_ok start_ok end_ok warning_ok pause_ok resume_ok extend_ok)

lemma new_room_state_ok: "room_ok new_room_state"
  by (simp add: room_ok_def new_room_state_def)

text \<open>C12. Whatever messages, in whatever order and with whatever payloads, a client receives from its start:
  the timer is frozen exactly when there is a frozen remaining time, a partner is held only with a round and
  its end, never while the round is ending or the event has ended, always while pre-connecting, and an end
  reason is held only after the end of the event.\<close>

theorem call_room_invariant: "room_ok (room_after parse repr_of evs new_room_state)"
proof -
  have "room_ok s \<Longrightarrow> room_ok (room_after parse repr_of evs s)" for s
    unfolding room_after_def
    by (induction evs arbitrary: s) (auto split: sum.splits dest: room_step_ok)
  then show ?thesis using new_room_state_ok .
qed

section \<open>Pairing\<close>

text \<open>What the server announces is what the client holds: the pairing message of a recipient passes the
  protocol check and the client then pre-connects to the partner, room, round, role and tags of that
  recipient, with the round's instants in milliseconds; only a blank name becomes the word Partner.\<close>

theorem pairing_read_back:
  assumes "pairing_message c r = Inr m"
  shows "\<exists>payload s'. validate_message (Parsed m) = Inr (ServerPairing, payload) \<and> on_pairing repr_of payload s = Inr s' \<and>
    rs_phase s' = CR_Preconnecting \<and> rs_round_number s' = Some (int (rd_number r)) \<and>
    rs_round_end_ts s' = Some (datetime_to_unix_ms (rd_ends_at r)) \<and> \<not> rs_is_paused s' \<and>
    rs_presence s' = Some PresConnected \<and>
    rs_partner s' = Some \<lparr>pi_partner_id = uuid_str (pc_partner c), pi_room_id = pc_room c,
      pi_round_number = int (rd_number r), pi_round_start_ts = datetime_to_unix_ms (rd_starts_at r),
      pi_round_end_ts = datetime_to_unix_ms (rd_ends_at r), pi_is_offerer = pc_is_offerer c,
      pi_display_name = (if py_strip (pc_partner_name c) = [] then ''Partner'' else pc_partner_name c),
      pi_tags = pc_partner_tags c\<rparr>"
proof -
  obtain p where p: "build_message (type_value ServerPairing) p = Inr m" and
    pd: "p = [(''round_number'', JInt (int (rd_number r))), (''room_id'', JStr (pc_room c)), (''partner_id'', JStr (uuid_str (pc_partner c))),
         (''round_start_ts'', JInt (datetime_to_unix_ms (rd_starts_at r))), (''round_end_ts'', JInt (datetime_to_unix_ms (rd_ends_at r))),
         (''is_offerer'', JBool (pc_is_offerer c)), (''partner_display_name'', JStr (pc_partner_name c)),
         (''partner_tags'', JList (map JStr (pc_partner_tags c)))]"
    using assms by (auto simp: pairing_message_def build_server_pairing_def opt_field_def)
  have "validate_message (Parsed m) = Inr (ServerPairing, p)" by (rule build_message_accepted[OF p])
  moreover have "on_pairing repr_of p s \<noteq> Inl e" for e
    by (simp add: on_pairing_def parse_pairing_payload_def pd Let_def dict_get_Cons)
  ultimately show ?thesis
    by (intro exI[of _ p] exI[of _ "projr (on_pairing repr_of p s)"])
      (simp add: on_pairing_def parse_pairing_payload_def pd Let_def dict_get_Cons)
qed

definition shown_recipient :: pairing_recipient where
  "shown_recipient = \<lparr>pc_participant = UUID 21, pc_partner = UUID 22, pc_room = ''room-9'', pc_is_offerer = True,
     pc_partner_name = '' '', pc_partner_tags = [''art'', ''tea''], pc_group = ''participant_21''\<rparr>"

definition shown_round :: round_row where
  "shown_round = \<lparr>rd_id = UUID 30, rd_event = UUID 7, rd_number = 2, rd_status = RS_Scheduled,
     rd_starts_at = 1790000000000000, rd_ends_at = 1790000300000000\<rparr>"

lemma pairing_read_back_witness:
  "\<exists>m payload s'. pairing_message shown_recipient shown_round = Inr m \<and>
     on_pairing (\<lambda>_. '''') payload new_room_state = Inr s' \<and>
     map_option pi_display_name (rs_partner s') = Some ''Partner'' \<and> map_option pi_tags (rs_partner s') = Some [''art'', ''tea'']"
proof -
  have "in_clock (rd_starts_at shown_round)" "in_clock (rd_ends_at shown_round)" by (simp_all add: in_clock_def shown_round_def)
  then have "\<exists>m. pairing_message shown_recipient shown_round = Inr m"
    unfolding pairing_message_Inr
    by (simp add: shown_recipient_def py_strip_def strip_by_Nil_iff py_isspace_def) (simp add: shown_round_def)
  then obtain m where m: "pairing_message shown_recipient shown_round = Inr m" by blast
  have "py_strip (pc_partner_name shown_recipient) = []"
    by (simp add: shown_recipient_def py_strip_def strip_by_Nil_iff py_isspace_def)
  with pairing_read_back[OF m, of "\<lambda>_. ''''" new_room_state] m show ?thesis
    by (force simp: shown_recipient_def)
qed

section \<open>The operator's actions in the client\<close>

datatype operator_command = CmdPause | CmdResume | CmdExtend int

definition run_command :: "operator_command \<Rightarrow> bool \<Rightarrow> uuid \<Rightarrow> int \<Rightarrow> string \<Rightarrow> db \<Rightarrow> operator_error + op_outcome" where
  "run_command cmd leader e now lid d =
     (case cmd of CmdPause \<Rightarrow> op_pause leader e now lid d | CmdResume \<Rightarrow> op_resume leader e now lid d
      | CmdExtend secs \<Rightarrow> op_extend leader e secs now lid d)"

text \<open>The wire form of a broadcast payload: instants as the texts \<open>fmt\<close> renders.\<close>

definition iso_payload :: "(int \<Rightarrow> string) \<Rightarrow> pydict \<Rightarrow> pydict" where
  "iso_payload fmt d = map (\<lambda>(k, v). (k, case v of
     JInt t \<Rightarrow> if k \<in> {''ends_at'', ''paused_at'', ''resumed_at''} then JStr (fmt t) else v | _ \<Rightarrow> v)) d"

definition client_handles :: "(string \<Rightarrow> int option) \<Rightarrow> operator_command \<Rightarrow> pydict \<Rightarrow> room_state \<Rightarrow> call_error + room_state" where
  "client_handles parse cmd d s =
     (case cmd of CmdPause \<Rightarrow> on_operator_pause d s | CmdResume \<Rightarrow> on_operator_resume parse d s
      | CmdExtend _ \<Rightarrow> on_operator_extend parse d s)"

text \<open>\<open>fromisoformat\<close> reads back what \<open>isoformat\<close> writes.\<close>

definition iso_inverse :: "(int \<Rightarrow> string) \<Rightarrow> (string \<Rightarrow> int option) \<Rightarrow> bool" where
  "iso_inverse fmt parse \<longleftrightarrow> (\<forall>t. parse (fmt t) = Some t \<and> fmt t \<noteq> [])"

definition event_paused :: "db \<Rightarrow> uuid \<Rightarrow> bool" where
  "event_paused d e \<longleftrightarrow> map_option ol_action (last_operator_log d e) = Some OA_Pause"

definition the_round :: "db \<Rightarrow> uuid \<Rightarrow> round_row option" where
  "the_round d i = find (\<lambda>r. rd_id r = i) (db_rounds d)"

text \<open>The client's countdown ends when the stored round does, in its numbering.\<close>

definition client_in_step :: "db \<Rightarrow> uuid \<Rightarrow> room_state \<Rightarrow> bool" where
  "client_in_step d i s \<longleftrightarrow>
     (\<exists>r. the_round d i = Some r \<and> rs_round_end_ts s = Some (datetime_to_unix_ms (rd_ends_at r)) \<and>
       rs_round_number s = Some (int (rd_number r)))"

lemma find_map_same:
  assumes "\<And>x. k (f x) = k x"
  shows "find (\<lambda>x. k x = i) (map f xs) = map_option f (find (\<lambda>x. k x = i) xs)"
  using assms by (induction xs) auto

lemma stretched_row:
  assumes "the_round d (rd_id r) = Some r"
  shows "the_round (stretch_round e r delta d) (rd_id r) = Some (r\<lparr>rd_ends_at := rd_ends_at r + delta\<rparr>)"
proof -
  have "the_round (stretch_round e r delta d) (rd_id r) =
      map_option (\<lambda>x. if rd_event x = e \<and> rd_number r < rd_number x
        then x\<lparr>rd_starts_at := rd_starts_at x + delta, rd_ends_at := rd_ends_at x + delta\<rparr> else x)
      (map_option (\<lambda>x. if rd_id x = rd_id r then x\<lparr>rd_ends_at := rd_ends_at x + delta\<rparr> else x) (the_round d (rd_id r)))"
    unfolding the_round_def stretch_round_def shift_after_def push_end_def by (simp add: find_map_same option.map_comp)
  then show ?thesis using assms by simp
qed

lemma round_phase_in_round: "round_phase pre now rs r = Some (EP_InRound, Some x, m) \<Longrightarrow> x = r"
  by (auto simp: round_phase_def split: if_splits option.splits)

lemma in_round_row:
  assumes "round_keys_ok d e" "get_current_phase e pre now d = (EP_InRound, Some r, m)"
  shows "the_round d (rd_id r) = Some r"
proof -
  let ?rs = "sort_key rd_number (event_rounds d e)"
  have "first_some (round_phase pre now ?rs) ?rs = Some (EP_InRound, Some r, m)"
    using assms(2) by (auto simp: get_current_phase_def current_phase_def split: if_splits option.splits)
  then have "r \<in> set ?rs" by (auto dest!: first_some_Some round_phase_in_round)
  then have "r \<in> set (db_rounds d)" by (auto simp: event_rounds_def)
  then show ?thesis using assms(1) by (simp add: the_round_def round_keys_ok_def find_by_id)
qed

lemma the_round_log [simp]: "the_round (add_operator_log k r a details t d) i = the_round d i"
  by (simp add: the_round_def add_operator_log_def)

lemma paused_after_log:
  "logs_before d e now \<Longrightarrow> event_paused (add_operator_log e r a details now d) e \<longleftrightarrow> a = OA_Pause"
  using last_operator_log_added[of d e now r a details] by (simp add: event_paused_def logs_before_def)

lemma logs_before_stretch [simp]: "logs_before (stretch_round e r delta d) e' now = logs_before d e' now"
  by (simp add: logs_before_def stretch_round_def)

text \<open>What a successful command stores and broadcasts, and the client's answer to it.\<close>

lemma command_Inr:
  assumes "run_command cmd leader e now lid d = Inr q" "round_keys_ok d e"
  obtains r a details d' where "oo_db q = add_operator_log e (Some (rd_id r)) a details now d'"
    and "the_round d (rd_id r) = Some r" and "dict_get (snd (oo_broadcast q)) ''round_number'' = Some (JInt (int (rd_number r)))"
    and "case cmd of
        CmdPause \<Rightarrow> a = OA_Pause \<and> d' = d \<and> (\<exists>k. dict_get (snd (oo_broadcast q)) ''remaining_seconds'' = Some (JInt k))
      | CmdResume \<Rightarrow> a = OA_Resume \<and> (\<exists>delta. d' = stretch_round e r delta d \<and>
          dict_get (snd (oo_broadcast q)) ''ends_at'' = Some (JInt (rd_ends_at r + delta)))
      | CmdExtend _ \<Rightarrow> a = OA_Extend \<and> (\<exists>delta. d' = stretch_round e r delta d \<and>
          dict_get (snd (oo_broadcast q)) ''ends_at'' = Some (JInt (rd_ends_at r + delta)))"
proof (cases cmd)
  case CmdPause
  then obtain r m where "get_current_phase e default_preconnect now d = (EP_InRound, Some r, Some m)"
      "oo_db q = add_operator_log e (Some (rd_id r)) OA_Pause
        [(''remaining_seconds'', JInt (whole_seconds m)), (''paused_at'', JInt now)] now d"
      "snd (oo_broadcast q) = [(''round_number'', JInt (int (rd_number r))), (''remaining_seconds'', JInt (whole_seconds m)), (''paused_at'', JInt now)]"
    using assms(1) by (auto simp: run_command_def op_pause_def Let_def split: if_splits prod.splits event_phase.splits option.splits)
  then show ?thesis using in_round_row[OF assms(2)] CmdPause by (intro that) (auto simp: dict_get_Cons)
next
  case CmdResume
  then obtain lg i r delta details rest where "last_operator_log d e = Some lg" "ol_round lg = Some i"
      "find (\<lambda>r. rd_id r = i) (db_rounds d) = Some r"
      "oo_db q = add_operator_log e (Some (rd_id r)) OA_Resume details now (stretch_round e r delta d)"
      "snd (oo_broadcast q) = [(''round_number'', JInt (int (rd_number r))), (''resumed_at'', JInt now), (''ends_at'', JInt (rd_ends_at r + delta))] @ rest"
    using assms(1) by (auto simp: run_command_def op_resume_def Let_def bind_eq_Some_conv split: if_splits option.splits)
  moreover from this have "rd_id r = i" by (auto simp: find_Some_iff)
  ultimately show ?thesis using CmdResume by (intro that) (auto simp: dict_get_Cons the_round_def)
next
  case (CmdExtend secs)
  then obtain r m details rest where "get_current_phase e default_preconnect now d = (EP_InRound, Some r, m)"
      "oo_db q = add_operator_log e (Some (rd_id r)) OA_Extend details now (stretch_round e r (secs * 1000000) d)"
      "snd (oo_broadcast q) = [(''round_number'', JInt (int (rd_number r))), (''extended_by_seconds'', JInt secs), (''ends_at'', JInt (rd_ends_at r + secs * 1000000))] @ rest"
    using assms(1) by (auto simp: run_command_def op_extend_def Let_def split: if_splits prod.splits event_phase.splits option.splits)
  then show ?thesis using in_round_row[OF assms(2)] CmdExtend by (intro that) (auto simp: dict_get_Cons)
qed

lemma iso_payload_get:
  "dict_get (iso_payload fmt d) k = map_option (\<lambda>v. case v of
     JInt t \<Rightarrow> if k \<in> {''ends_at'', ''paused_at'', ''resumed_at''} then JStr (fmt t) else v | _ \<Rightarrow> v) (dict_get d k)"
  unfolding iso_payload_def by (induction d) (auto simp: dict_get_Cons)

lemma int_field_Inr: "dict_get d k = Some (JInt i) \<Longrightarrow> int_field d k x = Inr i"
  by (simp add: int_field_def get_or_def)

lemma handles_pause:
  assumes "dict_get b ''round_number'' = Some (JInt n)" "dict_get b ''remaining_seconds'' = Some (JInt k)"
  shows "client_handles parse CmdPause (iso_payload fmt b) s =
    Inr (s\<lparr>rs_round_number := Some n, rs_is_paused := True, rs_paused_remaining_ms := Some (k * 1000)\<rparr>)"
proof -
  have "dict_get (iso_payload fmt b) ''round_number'' = Some (JInt n)" "dict_get (iso_payload fmt b) ''remaining_seconds'' = Some (JInt k)"
    using assms by (simp_all add: iso_payload_get)
  then show ?thesis by (simp add: client_handles_def on_operator_pause_def int_field_Inr)
qed

lemma handles_end:
  assumes iso: "iso_inverse fmt parse"
    and b: "dict_get b ''round_number'' = Some (JInt n)" "dict_get b ''ends_at'' = Some (JInt t)"
  shows "client_handles parse CmdResume (iso_payload fmt b) s = Inr (s\<lparr>rs_round_number := Some n,
      rs_round_end_ts := Some (datetime_to_unix_ms t), rs_server_warning := False, rs_is_paused := False, rs_paused_remaining_ms := None\<rparr>)"
    and "client_handles parse (CmdExtend secs) (iso_payload fmt b) s =
      Inr (s\<lparr>rs_round_number := Some n, rs_round_end_ts := Some (datetime_to_unix_ms t)\<rparr>)"
proof -
  have n: "dict_get (iso_payload fmt b) ''round_number'' = Some (JInt n)" and e: "get_or (iso_payload fmt b) ''ends_at'' JNull = JStr (fmt t)"
    using b by (simp_all add: iso_payload_get get_or_def)
  have p: "parse (fmt t) = Some t" "fmt t \<noteq> []" using iso by (auto simp: iso_inverse_def)
  show "client_handles parse CmdResume (iso_payload fmt b) s = Inr (s\<lparr>rs_round_number := Some n,
      rs_round_end_ts := Some (datetime_to_unix_ms t), rs_server_warning := False, rs_is_paused := False, rs_paused_remaining_ms := None\<rparr>)"
    using int_field_Inr[OF n] p by (simp add: client_handles_def on_operator_resume_def e iso_ms_def)
  show "client_handles parse (CmdExtend secs) (iso_payload fmt b) s =
      Inr (s\<lparr>rs_round_number := Some n, rs_round_end_ts := Some (datetime_to_unix_ms t)\<rparr>)"
    using int_field_Inr[OF n] p by (simp add: client_handles_def on_operator_extend_def e iso_ms_def)
qed

text \<open>C11. The client's room is a simulation of the server's round: when a client's countdown ends with the
  stored round an operator acts on and its timer is frozen exactly when the event is paused, then after any
  successful pause, resume or extension and the client's handling of its broadcast the countdown ends with
  the round as it is now stored, and the timer is frozen exactly when the event is paused, except that an
  extension leaves it frozen although it ends the pause on the server.\<close>

theorem client_follows_operator:
  assumes iso: "iso_inverse fmt parse" and keys: "round_keys_ok d e" and logs: "logs_before d e now"
    and run: "run_command cmd leader e now lid d = Inr q"
    and same: "map_option ol_round (last_operator_log (oo_db q) e) = Some (Some i)"
    and step: "client_in_step d i s" and frozen: "rs_is_paused s \<longleftrightarrow> event_paused d e"
  shows "\<exists>s'. client_handles parse cmd (iso_payload fmt (snd (oo_broadcast q))) s = Inr s' \<and> client_in_step (oo_db q) i s' \<and>
    (rs_is_paused s' \<longleftrightarrow> event_paused (oo_db q) e \<or> (\<exists>secs. cmd = CmdExtend secs) \<and> event_paused d e)"
proof -
  obtain r a details d' where q: "oo_db q = add_operator_log e (Some (rd_id r)) a details now d'"
    and r: "the_round d (rd_id r) = Some r" and n: "dict_get (snd (oo_broadcast q)) ''round_number'' = Some (JInt (int (rd_number r)))"
    and c: "case cmd of
        CmdPause \<Rightarrow> a = OA_Pause \<and> d' = d \<and> (\<exists>k. dict_get (snd (oo_broadcast q)) ''remaining_seconds'' = Some (JInt k))
      | CmdResume \<Rightarrow> a = OA_Resume \<and> (\<exists>delta. d' = stretch_round e r delta d \<and>
          dict_get (snd (oo_broadcast q)) ''ends_at'' = Some (JInt (rd_ends_at r + delta)))
      | CmdExtend _ \<Rightarrow> a = OA_Extend \<and> (\<exists>delta. d' = stretch_round e r delta d \<and>
          dict_get (snd (oo_broadcast q)) ''ends_at'' = Some (JInt (rd_ends_at r + delta)))"
    by (rule command_Inr[OF run keys]) blast
  have lb: "logs_before d' e now" using c logs by (cases cmd) auto
  have i: "rd_id r = i" using same last_operator_log_added[of d' e now] lb by (simp add: q logs_before_def)
  have paused: "event_paused (oo_db q) e \<longleftrightarrow> a = OA_Pause" using paused_after_log[OF lb] by (simp add: q)
  have old: "rs_round_end_ts s = Some (datetime_to_unix_ms (rd_ends_at r))"
    using step r by (simp add: client_in_step_def i)
  show ?thesis
  proof (cases cmd)
    case CmdPause
    then obtain k where "dict_get (snd (oo_broadcast q)) ''remaining_seconds'' = Some (JInt k)" using c by auto
    from handles_pause[OF n this, of parse fmt s] show ?thesis
      using CmdPause c r old by (simp add: paused) (simp add: client_in_step_def q i)
  next
    case CmdResume
    then obtain delta where "d' = stretch_round e r delta d" "a = OA_Resume"
        "dict_get (snd (oo_broadcast q)) ''ends_at'' = Some (JInt (rd_ends_at r + delta))" using c by auto
    with handles_end(1)[OF iso n this(3), of s] stretched_row[OF r, of e delta] show ?thesis
      using CmdResume by (simp add: paused) (simp add: client_in_step_def q i)
  next
    case (CmdExtend secs)
    then obtain delta where "d' = stretch_round e r delta d" "a = OA_Extend"
        "dict_get (snd (oo_broadcast q)) ''ends_at'' = Some (JInt (rd_ends_at r + delta))" using c by auto
    with handles_end(2)[OF iso n this(3), of secs s] stretched_row[OF r, of e delta] frozen show ?thesis
      using CmdExtend by (simp add: paused) (simp add: client_in_step_def q i)
  qed
qed

text \<open>A rendering of instants that can be read back, for the examples.\<close>

definition tally :: "int \<Rightarrow> string" where
  "tally t = (if 0 \<le> t then CHR ''p'' else CHR ''m'') # replicate (nat \<bar>t\<bar>) CHR ''x''"

fun read_tally :: "string \<Rightarrow> int option" where
  "read_tally [] = None"
| "read_tally (c # cs) = Some (if c = CHR ''p'' then int (length cs) else - int (length cs))"

lemma tally_inverse: "iso_inverse tally read_tally"
  by (simp add: iso_inverse_def tally_def)

definition watching_room :: room_state where
  "watching_room = new_room_state\<lparr>rs_phase := CR_InRound, rs_round_number := Some 1,
     rs_round_end_ts := Some (datetime_to_unix_ms 300000000)\<rparr>"

lemma watching_in_step: "client_in_step Operator.live_db (UUID 11) watching_room" "\<not> rs_is_paused watching_room"
  by (simp_all add: client_in_step_def the_round_def Operator.live_db_def Operator.live_round_def watching_room_def new_room_state_def)

lemma client_follows_operator_witness:
  "\<exists>q s'. op_extend True (UUID 7) 60 100000000 ''log-1'' Operator.live_db = Inr q \<and>
     client_handles read_tally (CmdExtend 60) (iso_payload tally (snd (oo_broadcast q))) watching_room = Inr s' \<and>
     client_in_step (oo_db q) (UUID 11) s' \<and> \<not> rs_is_paused s'"
proof -
  obtain q where q: "op_extend True (UUID 7) 60 100000000 ''log-1'' Operator.live_db = Inr q"
    by (simp add: op_extend_def Operator.live_db_ok(4) Let_def)
  then have run: "run_command (CmdExtend 60) True (UUID 7) 100000000 ''log-1'' Operator.live_db = Inr q" by (simp add: run_command_def)
  obtain details where qd: "oo_db q = add_operator_log (UUID 7) (Some (UUID 11)) OA_Extend details 100000000
      (stretch_round (UUID 7) Operator.live_round 60000000 Operator.live_db)"
    using q by (auto simp: op_extend_def Operator.live_db_ok(4) Let_def Operator.live_round_def)
  have lb: "logs_before (stretch_round (UUID 7) Operator.live_round 60000000 Operator.live_db) (UUID 7) 100000000"
    by (simp add: Operator.live_db_ok(3))
  have last: "map_option ol_round (last_operator_log (oo_db q) (UUID 7)) = Some (Some (UUID 11))"
    using last_operator_log_added[OF lb[unfolded logs_before_def]] by (simp add: qd)
  have np: "\<not> event_paused Operator.live_db (UUID 7)" by (simp add: event_paused_def Operator.live_db_no_log)
  from client_follows_operator[OF tally_inverse Operator.live_db_ok(1) Operator.live_db_ok(3) run last watching_in_step(1)]
    watching_in_step(2) np paused_after_log[OF lb]
  show ?thesis using q by (auto simp: qd)
qed

text \<open>An extension during a pause strands the clients: they stay frozen at the remaining time of the pause,
  showing the paused timer whatever the clock says, while the server counts the round on and refuses every
  resume, the only message that would unfreeze them within the round.\<close>

theorem extend_strands_client:
  assumes iso: "iso_inverse fmt parse" and keys: "round_keys_ok d e" and logs: "logs_before d e t1"
    and pause: "op_pause True e t1 lid d = Inr p" and t: "t1 \<le> t2"
    and ext: "op_extend True e secs t2 lid2 (oo_db p) = Inr q"
  shows "\<exists>s1 s2 k. client_handles parse CmdPause (iso_payload fmt (snd (oo_broadcast p))) s = Inr s1 \<and>
    client_handles parse (CmdExtend secs) (iso_payload fmt (snd (oo_broadcast q))) s1 = Inr s2 \<and>
    rs_paused_remaining_ms s2 = Some k \<and>
    (\<forall>warning remaining threshold. timer_visual_state warning (rs_is_paused s2) remaining threshold = TV_Paused) \<and>
    (\<forall>t3 lid3. op_resume True e t3 lid3 (oo_db q) = Inl NotPaused)"
proof -
  have run: "run_command CmdPause True e t1 lid d = Inr p" using pause by (simp add: run_command_def)
  have "\<exists>j k. oo_db p = add_operator_log e j OA_Pause k t1 d"
    and bp: "\<exists>n. dict_get (snd (oo_broadcast p)) ''round_number'' = Some (JInt n)" "\<exists>k. dict_get (snd (oo_broadcast p)) ''remaining_seconds'' = Some (JInt k)"
    by (rule command_Inr[OF run keys], force)+
  then obtain j k where p: "oo_db p = add_operator_log e j OA_Pause k t1 d" by blast
  have keys': "round_keys_ok (oo_db p) e" using keys by (simp add: p round_keys_ok_def)
  have "run_command (CmdExtend secs) True e t2 lid2 (oo_db p) = Inr q" using ext by (simp add: run_command_def)
  then obtain n u where bq: "dict_get (snd (oo_broadcast q)) ''round_number'' = Some (JInt n)" "dict_get (snd (oo_broadcast q)) ''ends_at'' = Some (JInt u)"
    by (rule command_Inr[OF _ keys']) auto
  obtain n' k where "dict_get (snd (oo_broadcast p)) ''round_number'' = Some (JInt n')" "dict_get (snd (oo_broadcast p)) ''remaining_seconds'' = Some (JInt k)"
    using bp by blast
  from handles_pause[OF this, of parse fmt s] handles_end(2)[OF iso bq, of secs]
  show ?thesis using extend_cancels_pause[OF pause t logs ext, of True]
    by (auto simp: timer_visual_state_def)
qed

lemma extend_strands_client_witness:
  "\<exists>p q s1 s2. op_pause True (UUID 7) 100000000 ''log-1'' Operator.live_db = Inr p \<and>
     op_extend True (UUID 7) 60 120000000 ''log-2'' (oo_db p) = Inr q \<and>
     client_handles read_tally CmdPause (iso_payload tally (snd (oo_broadcast p))) watching_room = Inr s1 \<and>
     client_handles read_tally (CmdExtend 60) (iso_payload tally (snd (oo_broadcast q))) s1 = Inr s2 \<and>
     timer_visual_state False (rs_is_paused s2) (- 1) 30 = TV_Paused"
proof -
  obtain p where p: "op_pause True (UUID 7) 100000000 ''log-1'' Operator.live_db = Inr p" using live_pause by blast
  obtain r :: round_row and m where pd: "oo_db p = add_operator_log (UUID 7) (Some (rd_id r)) OA_Pause
       [(''remaining_seconds'', JInt (whole_seconds m)), (''paused_at'', JInt 100000000)] 100000000 Operator.live_db"
    by (rule op_pause_Inr[OF p]) blast
  obtain q where q: "op_extend True (UUID 7) 60 120000000 ''log-2'' (oo_db p) = Inr q"
    by (simp add: op_extend_def pd Operator.live_db_ok(4) Let_def)
  have "(100000000 :: int) \<le> 120000000" by simp
  from extend_strands_client[OF tally_inverse Operator.live_db_ok(1) Operator.live_db_ok(3) p this q, of watching_room]
  show ?thesis using p q by blast
qed

end
