(* ===== verification/Clock_Sync.thy ===== *)
theory Clock_Sync
  imports Call_Room
begin

text \<open>
  Client-side estimation of the server's clock, \<open>apps/events/clock_sync.py\<close>, with its floats rounded as
  \<open>fl64\<close> says, and how far the estimate can be off. The clients' clock reads are arguments.
\<close>

section \<open>Samples\<close>

record clock_sample =
  cs_client_send_ms :: int
  cs_server_ms :: int
  cs_client_receive_ms :: int
  cs_rtt_ms :: rat
  cs_offset_ms :: rat

definition make_sample :: "int \<Rightarrow> int \<Rightarrow> int \<Rightarrow> rat \<Rightarrow> rat \<Rightarrow> clock_sample" where
  "make_sample client_send_ms server_ms client_receive_ms monotonic_send monotonic_receive =
     \<lparr>cs_client_send_ms = client_send_ms, cs_server_ms = server_ms, cs_client_receive_ms = client_receive_ms,
      cs_rtt_ms = max 0 (fl64 (fl64 (monotonic_receive - monotonic_send) * 1000)),
      cs_offset_ms = fl64 (fl64 (of_int server_ms) - fl64 (of_int (client_send_ms + client_receive_ms) / 2))\<rparr>"

datatype sync_status = Unsynchronised | Insufficient | Synchronised

record clock_sync_state =
  sy_samples :: "clock_sample list"
  sy_offset_ms :: "rat option"
  sy_rtt_ms :: "rat option"
  sy_status :: sync_status

definition new_clock_sync_state :: clock_sync_state where
  "new_clock_sync_state = \<lparr>sy_samples = [], sy_offset_ms = None, sy_rtt_ms = None, sy_status = Unsynchronised\<rparr>"

definition add_sample :: "rat \<Rightarrow> clock_sample \<Rightarrow> clock_sync_state \<Rightarrow> bool \<times> clock_sync_state" where
  "add_sample max_rtt_ms c s =
     (if cs_rtt_ms c < 0 \<or> cs_rtt_ms c > max_rtt_ms then (False, s)
      else (True, s\<lparr>sy_samples := sy_samples s @ [c]\<rparr>))"

text \<open>\<open>statistics.median\<close> of a list that is not empty.\<close>

definition py_median :: "rat list \<Rightarrow> rat" where
  "py_median xs =
     (let s = sort xs; n = length s
      in if odd n then s ! (n div 2) else fl64 (fl64 (s ! (n div 2 - 1) + s ! (n div 2)) / 2))"

definition finalize :: "nat \<Rightarrow> clock_sync_state \<Rightarrow> clock_sync_state" where
  "finalize minimum_samples s =
     (if sy_samples s = [] then s\<lparr>sy_status := Unsynchronised, sy_offset_ms := None, sy_rtt_ms := None\<rparr>
      else s\<lparr>sy_offset_ms := Some (py_median (map cs_offset_ms (sy_samples s))),
             sy_rtt_ms := Some (py_median (map cs_rtt_ms (sy_samples s))),
             sy_status := (if minimum_samples \<le> length (sy_samples s) then Synchronised else Insufficient)\<rparr>)"

definition sample_count :: "clock_sync_state \<Rightarrow> nat" where
  "sample_count s = length (sy_samples s)"

definition estimated_server_time_ms :: "int \<Rightarrow> clock_sync_state \<Rightarrow> int option" where
  "estimated_server_time_ms client_time_ms s = map_option (\<lambda>offset. estimated_server_ms offset client_time_ms) (sy_offset_ms s)"

definition monotonic_ms :: "rat \<Rightarrow> rat" where
  "monotonic_ms reading = fl64 (reading * 1000)"

section \<open>Numbers the floats hold exactly\<close>

text \<open>Quarters below 2 to the 51 are exact.\<close>

definition on_grid :: "rat \<Rightarrow> bool" where
  "on_grid x \<longleftrightarrow> (\<exists>k::int. x = of_int k / 4 \<and> \<bar>k\<bar> \<le> 2 ^ 53)"

lemma fl64_uminus: "fl64 (- x) = - fl64 x"
  by (auto simp: fl64_def)

lemma flpos_grid:
  assumes "0 < k" "k \<le> 2 ^ 53"
  shows "flpos (of_int k / 4) = of_int k / 4"
proof -
  define x :: rat where "x = of_int k / 4"
  have pos: "0 < x" using assms(1) by (simp add: x_def)
  have "(of_int k :: rat) \<le> of_int (2 ^ 53)" using assms(2) by (simp only: of_int_le_iff)
  then have le: "x \<le> 2 powi 51" by (simp add: x_def power_int_def)
  have b: "2 powi fexp x \<le> x" using fexp_bounds[OF pos] by simp
  then have "2 powi fexp x \<le> (2 :: rat) powi 51" using le by (rule order_trans)
  then have f: "fexp x \<le> 51" unfolding powi_le_iff .
  have "\<exists>j::int. x = 2 powi ulp_exp x * of_int j"
  proof (cases "fexp x = 51")
    case True
    with b le have "x = 2 powi 51" by simp
    then show ?thesis using powi_multiple[of "ulp_exp x" 51] True by (simp add: ulp_exp_def)
  next
    case False
    then have "ulp_exp x \<le> - 2" using f by (simp add: ulp_exp_def)
    then obtain j :: int where j: "(2::rat) powi (- 2) = 2 powi ulp_exp x * of_int j" using powi_multiple by blast
    have "(2::rat) powi ulp_exp x * of_int (j * k) = (2 powi ulp_exp x * of_int j) * of_int k" by simp
    also have "\<dots> = 2 powi (- 2) * of_int k" by (simp only: j)
    also have "\<dots> = x" by (simp add: x_def power_int_def power_divide)
    finally show ?thesis by metis
  qed
  then show ?thesis using flpos_multiple[OF pos] by (auto simp: x_def)
qed

lemma fl64_grid: "on_grid x \<Longrightarrow> fl64 x = x"
proof -
  assume "on_grid x"
  then obtain k :: int where k: "x = of_int k / 4" "\<bar>k\<bar> \<le> 2 ^ 53" by (auto simp: on_grid_def)
  consider "k = 0" | "0 < k" | "k < 0" by linarith
  then show ?thesis
  proof cases
    case 2
    then have "0 < x" by (simp add: k)
    then show ?thesis using flpos_grid[OF 2] k by (simp only: fl64_def) auto
  next
    case 3
    have "x < 0" "- x = of_int (- k) / 4" using 3 by (simp_all add: k)
    then show ?thesis using flpos_grid[of "- k"] 3 k(2) by (simp only: fl64_def) auto
  qed (simp add: k)
qed

lemma on_gridI: "x = of_int k / 4 \<Longrightarrow> \<bar>x\<bar> \<le> 2 ^ 51 \<Longrightarrow> on_grid x"
proof -
  assume x: "x = of_int k / 4" "\<bar>x\<bar> \<le> 2 ^ 51"
  then have "(of_int \<bar>k\<bar> :: rat) \<le> of_int (2 ^ 53)" by (simp add: abs_le_iff field_simps)
  then have "\<bar>k\<bar> \<le> 2 ^ 53" by (simp only: of_int_le_iff)
  then show ?thesis using x by (auto simp: on_grid_def)
qed

section \<open>The median of a majority\<close>

lemma filter_split_length:
  assumes "\<forall>x \<in> set xs. \<not> P x"
  shows "length (filter P (xs @ ys)) \<le> length ys" "length (filter P (ys @ xs)) \<le> length ys"
  using assms length_filter_le[of P ys] by (simp_all add: filter_False)

lemma sorted_middle:
  fixes s :: "rat list"
  assumes "sorted s" and maj: "length s < 2 * length (filter (\<lambda>x. lo \<le> x \<and> x \<le> hi) s)"
  shows "lo \<le> s ! ((length s - 1) div 2)" "s ! (length s div 2) \<le> hi"
proof -
  let ?P = "\<lambda>x. lo \<le> x \<and> x \<le> hi" and ?n = "length s"
  have n: "0 < ?n" using maj by (cases s) auto
  show "s ! (?n div 2) \<le> hi"
  proof (rule ccontr)
    assume h: "\<not> s ! (?n div 2) \<le> hi"
    have "\<not> ?P x" if m: "x \<in> set (drop (?n div 2) s)" for x
    proof -
      obtain j where "j < length (drop (?n div 2) s)" "drop (?n div 2) s ! j = x" using m unfolding in_set_conv_nth by blast
      then have j: "j < ?n - ?n div 2" "x = s ! (?n div 2 + j)" by simp_all
      then have "s ! (?n div 2) \<le> x" using sorted_nth_mono[OF assms(1), of "?n div 2" "?n div 2 + j"] by simp
      then show ?thesis using h by simp
    qed
    then have "length (filter ?P (take (?n div 2) s @ drop (?n div 2) s)) \<le> length (take (?n div 2) s)"
      by (intro filter_split_length(2)) blast
    then show False using maj by simp
  qed
  show "lo \<le> s ! ((?n - 1) div 2)"
  proof (rule ccontr)
    assume l: "\<not> lo \<le> s ! ((?n - 1) div 2)"
    let ?k = "Suc ((?n - 1) div 2)"
    have "\<not> ?P x" if m: "x \<in> set (take ?k s)" for x
    proof -
      obtain j where j: "j < ?k" "j < ?n" "x = s ! j" using m by (auto simp: in_set_conv_nth)
      have "(?n - 1) div 2 < ?n" using n by linarith
      then have "x \<le> s ! ((?n - 1) div 2)" using sorted_nth_mono[OF assms(1), of j "(?n - 1) div 2"] j by simp
      then show ?thesis using l by simp
    qed
    then have "length (filter ?P (take ?k s @ drop ?k s)) \<le> length (drop ?k s)"
      by (intro filter_split_length(1)) blast
    then show False using maj n by simp
  qed
qed

lemma length_filter_sort: "length (filter P (sort xs)) = length (filter P (xs :: rat list))"
  by (metis mset_filter mset_sort size_mset)

text \<open>If more than half of the values lie between two bounds, so does the median, on exact floats.\<close>

lemma median_majority:
  assumes grid: "\<forall>x \<in> set xs. \<exists>k::int. x = of_int k / 2 \<and> \<bar>x\<bar> \<le> 2 ^ 50"
    and maj: "length xs < 2 * length (filter (\<lambda>x. lo \<le> x \<and> x \<le> hi) xs)"
  shows "lo \<le> py_median xs \<and> py_median xs \<le> hi \<and> (\<exists>k::int. py_median xs = of_int k / 4) \<and> \<bar>py_median xs\<bar> \<le> 2 ^ 50"
proof -
  let ?s = "sort xs" and ?n = "length xs"
  have n: "0 < ?n" using maj by (cases xs) auto
  have mid: "lo \<le> ?s ! ((?n - 1) div 2)" "?s ! (?n div 2) \<le> hi"
    using sorted_middle[of ?s lo hi] maj by (simp_all add: length_filter_sort)
  have le: "?s ! ((?n - 1) div 2) \<le> ?s ! (?n div 2)" using n by (intro sorted_nth_mono) auto
  have el: "\<exists>k::int. ?s ! j = of_int k / 2 \<and> \<bar>?s ! j\<bar> \<le> 2 ^ 50" if "j < ?n" for j
    using grid that nth_mem[of j ?s] by simp
  have "(?n - 1) div 2 < ?n" "?n div 2 < ?n" using n by linarith+
  from el[OF this(1)] el[OF this(2)] obtain a b :: int
    where a: "?s ! ((?n - 1) div 2) = of_int a / 2" "\<bar>?s ! ((?n - 1) div 2)\<bar> \<le> 2 ^ 50"
      and b: "?s ! (?n div 2) = of_int b / 2" "\<bar>?s ! (?n div 2)\<bar> \<le> 2 ^ 50" by blast
  show ?thesis
  proof (cases "odd ?n")
    case True
    then have "(?n - 1) div 2 = ?n div 2" by presburger
    then show ?thesis using True mid b(2) b(1) by (auto simp: py_median_def Let_def intro: exI[of _ "2 * b"])
  next
    case False
    have h: "?n div 2 - 1 = (?n - 1) div 2" using False n by presburger
    define u v where "u = ?s ! ((?n - 1) div 2)" and "v = ?s ! (?n div 2)"
    note uv = u_def[symmetric] v_def[symmetric]
    have ab: "u = of_int a / 2" "v = of_int b / 2" "\<bar>u\<bar> \<le> 2 ^ 50" "\<bar>v\<bar> \<le> 2 ^ 50"
      using a b by (simp_all only: uv)
    have w: "\<bar>u + v\<bar> \<le> 2 ^ 51" "\<bar>(u + v) / 2\<bar> \<le> 2 ^ 50" using ab(3,4) by (simp_all add: abs_le_iff)
    have q: "u + v = of_int (2 * (a + b)) / 4" "(u + v) / 2 = of_int (a + b) / 4"
      unfolding ab(1,2) by (simp_all add: add_divide_distrib)
    have "on_grid (u + v)" by (rule on_gridI[OF q(1) w(1)])
    moreover have "on_grid ((u + v) / 2)" by (rule on_gridI[OF q(2)]) (use w(2) in simp)
    ultimately have m: "py_median xs = (u + v) / 2"
      unfolding py_median_def Let_def length_sort h uv using False by (simp add: fl64_grid uv h)
    have "lo \<le> u" "v \<le> hi" "u \<le> v" using mid le by (simp_all only: uv)
    then have "lo \<le> (u + v) / 2" "(u + v) / 2 \<le> hi" by simp_all
    then show ?thesis unfolding m using q(2) w(2) by blast
  qed
qed

section \<open>How far the estimate is off\<close>

text \<open>
  The server's clock is \<open>theta\<close> ahead of the client's. An exchange is fair when the server's stamp lies
  between sending and receiving, up to the rounding of the stamps to whole milliseconds, and the round
  trip took at most \<open>w\<close>.
\<close>

definition fair_sample :: "rat \<Rightarrow> rat \<Rightarrow> clock_sample \<Rightarrow> bool" where
  "fair_sample theta w c \<longleftrightarrow>
     of_int (cs_client_send_ms c) + theta - 1 \<le> of_int (cs_server_ms c) \<and>
     of_int (cs_server_ms c) \<le> of_int (cs_client_receive_ms c) + theta + 1 \<and>
     of_int (cs_client_receive_ms c) - of_int (cs_client_send_ms c) \<le> w"

text \<open>Any exchange at instants in causal order gives a fair sample.\<close>

lemma causal_fair:
  assumes "u \<le> v" "v \<le> x" "x - u \<le> w"
  shows "fair_sample theta (w + 1) (make_sample \<lfloor>u\<rfloor> \<lfloor>v + theta\<rfloor> \<lfloor>x\<rfloor> ms mr)"
proof -
  have "of_int \<lfloor>u\<rfloor> \<le> u" "u < of_int \<lfloor>u\<rfloor> + 1" "of_int \<lfloor>v + theta\<rfloor> \<le> v + theta" "v + theta < of_int \<lfloor>v + theta\<rfloor> + 1"
    "of_int \<lfloor>x\<rfloor> \<le> x" "x < of_int \<lfloor>x\<rfloor> + 1" by linarith+
  with assms have "of_int \<lfloor>u\<rfloor> + theta - 1 \<le> of_int \<lfloor>v + theta\<rfloor>" "of_int \<lfloor>v + theta\<rfloor> \<le> of_int \<lfloor>x\<rfloor> + theta + 1"
    "of_int \<lfloor>x\<rfloor> - of_int \<lfloor>u\<rfloor> \<le> w + 1" by linarith+
  then show ?thesis by (simp add: fair_sample_def make_sample_def)
qed

text \<open>The stamps of a sample the module made, at any time up to the year 19,000.\<close>

definition made_sample :: "clock_sample \<Rightarrow> bool" where
  "made_sample c \<longleftrightarrow> cs_client_send_ms c \<in> {0..2^49} \<and> cs_server_ms c \<in> {0..2^49} \<and> cs_client_receive_ms c \<in> {0..2^49} \<and>
     cs_offset_ms c = fl64 (fl64 (of_int (cs_server_ms c)) - fl64 (of_int (cs_client_send_ms c + cs_client_receive_ms c) / 2))"

lemma int_on_grid: "\<bar>i\<bar> \<le> 2 ^ 51 \<Longrightarrow> on_grid (of_int i)"
proof (rule on_gridI)
  show "(of_int i :: rat) = of_int (4 * i) / 4" by simp
  assume "\<bar>i\<bar> \<le> 2 ^ 51"
  then have "(of_int \<bar>i\<bar> :: rat) \<le> of_int (2 ^ 51)" by (simp only: of_int_le_iff)
  then show "\<bar>of_int i :: rat\<bar> \<le> 2 ^ 51" by simp
qed

lemma made_offset:
  assumes "made_sample c"
  shows "cs_offset_ms c = of_int (2 * cs_server_ms c - (cs_client_send_ms c + cs_client_receive_ms c)) / 2" (is ?eq)
    and "\<bar>cs_offset_ms c\<bar> \<le> 2 ^ 50" (is ?b)
proof -
  define a b z where "a = cs_client_send_ms c" and "b = cs_client_receive_ms c" and "z = cs_server_ms c"
  note abz = a_def[symmetric] b_def[symmetric] z_def[symmetric]
  have r: "a \<in> {0..2^49}" "b \<in> {0..2^49}" "z \<in> {0..2^49}" using assms by (simp_all add: made_sample_def abz)
  have half: "\<bar>of_int i / 2 :: rat\<bar> \<le> 2 ^ k" if "\<bar>i\<bar> \<le> 2 * 2 ^ k" for i :: int and k :: nat
  proof -
    have "(of_int \<bar>i\<bar> :: rat) \<le> of_int (2 * 2 ^ k)" using that by (simp only: of_int_le_iff)
    then show ?thesis by simp
  qed
  have "\<bar>of_int (a + b) / 2 :: rat\<bar> \<le> 2 ^ 51" by (rule half) (use r in simp)
  then have 1: "on_grid (of_int (a + b) / 2)" by (intro on_gridI[of _ "2 * (a + b)"]) simp_all
  have 2: "on_grid (of_int z)" by (rule int_on_grid) (use r in simp)
  have eq: "of_int z - of_int (a + b) / 2 = (of_int (2 * z - (a + b)) / 2 :: rat)" by (simp add: diff_divide_distrib)
  have d: "\<bar>of_int (2 * z - (a + b)) / 2 :: rat\<bar> \<le> 2 ^ 50" by (rule half) (use r in \<open>simp add: abs_le_iff\<close>)
  have 3: "on_grid (of_int (2 * z - (a + b)) / 2)"
    by (rule on_gridI[of _ "2 * (2 * z - (a + b))"]) (use d in simp_all)
  have "cs_offset_ms c = fl64 (fl64 (of_int z) - fl64 (of_int (a + b) / 2))" using assms by (simp add: made_sample_def abz)
  also have "\<dots> = of_int (2 * z - (a + b)) / 2" by (simp only: fl64_grid[OF 1] fl64_grid[OF 2] eq fl64_grid[OF 3])
  finally have "cs_offset_ms c = of_int (2 * z - (a + b)) / 2" .
  then show ?eq ?b using d by (simp_all only: abz)
qed

lemma fair_offset:
  assumes "made_sample c" "fair_sample theta w c"
  shows "theta - (w / 2 + 1) \<le> cs_offset_ms c \<and> cs_offset_ms c \<le> theta + (w / 2 + 1)"
  using assms(2) unfolding made_offset(1)[OF assms(1)] fair_sample_def by (simp add: field_simps)

lemma estimate_rounds:
  assumes "offset_ms = of_int k / 4" "\<bar>offset_ms\<bar> \<le> 2 ^ 50" "t \<in> {0..2^49}"
  shows "\<bar>of_int (estimated_server_ms offset_ms t) - (of_int t + offset_ms)\<bar> \<le> 1 / 2"
proof -
  have t: "on_grid (of_int t)" by (rule int_on_grid) (use assms(3) in simp)
  have "(of_int t :: rat) \<le> of_int (2 ^ 49)" "0 \<le> (of_int t :: rat)" using assms(3) by (simp_all only: of_int_le_iff atLeastAtMost_iff of_int_0_le_iff)
  then have "on_grid (of_int t + offset_ms)"
    by (intro on_gridI[of _ "4 * t + k"]) (use assms(1,2) in \<open>simp_all add: abs_le_iff add_divide_distrib\<close>)
  then show ?thesis using round_even_error[of "of_int t + offset_ms"]
    by (simp add: estimated_server_ms_def fl64_grid[OF t] fl64_grid)
qed

text \<open>C33. The countdown of a synchronised client is right: when more than half of its samples are fair for a
  clock difference \<open>theta\<close> with round trips of at most \<open>w\<close>, whatever the others say, its estimate of the
  server's time and the remaining time it shows are off by at most half the round trip and a millisecond
  and a half, all float roundings included.\<close>

theorem countdown_error_bound:
  assumes made: "\<forall>c \<in> set (sy_samples s). made_sample c"
    and fair: "length (sy_samples s) < 2 * length (filter (fair_sample theta w) (sy_samples s))"
    and now: "now \<in> {0..2^49}"
  shows "\<exists>offset est. sy_offset_ms (finalize k s) = Some offset \<and> estimated_server_time_ms now (finalize k s) = Some est \<and>
    \<bar>of_int est - (of_int now + theta)\<bar> \<le> w / 2 + 3 / 2 \<and>
    \<bar>of_int (compute_remaining_ms end_ts offset now) - max 0 (of_int end_ts - (of_int now + theta))\<bar> \<le> w / 2 + 3 / 2"
proof -
  let ?xs = "map cs_offset_ms (sy_samples s)" and ?e = "w / 2 + 1"
  let ?P = "\<lambda>x. theta - ?e \<le> x \<and> x \<le> theta + ?e"
  have "\<exists>k::int. x = of_int k / 2 \<and> \<bar>x\<bar> \<le> 2 ^ 50" if "x \<in> set ?xs" for x
  proof -
    obtain c where "made_sample c" "x = cs_offset_ms c" using \<open>x \<in> set ?xs\<close> made by auto
    then show ?thesis using made_offset[of c] by blast
  qed
  moreover have "length ?xs < 2 * length (filter ?P ?xs)"
  proof -
    have "length (filter (fair_sample theta w) cs) \<le> length (filter ?P (map cs_offset_ms cs))"
      if "\<forall>c \<in> set cs. made_sample c" for cs
      using that fair_offset[of _ theta w] by (induction cs) auto
    then show ?thesis using fair made by fastforce
  qed
  ultimately obtain j :: int where m: "?P (py_median ?xs)" "py_median ?xs = of_int j / 4" "\<bar>py_median ?xs\<bar> \<le> 2 ^ 50"
    using median_majority[of ?xs "theta - ?e" "theta + ?e"] by blast
  let ?est = "estimated_server_ms (py_median ?xs) now"
  have "sy_samples s \<noteq> []" using fair by auto
  then have off: "sy_offset_ms (finalize k s) = Some (py_median ?xs)" by (simp add: finalize_def)
  have "\<bar>of_int ?est - (of_int now + py_median ?xs)\<bar> \<le> 1 / 2" by (rule estimate_rounds[OF m(2,3) now])
  then have est: "\<bar>of_int ?est - (of_int now + theta)\<bar> \<le> w / 2 + 3 / 2" using m(1) unfolding abs_le_iff by linarith
  have "\<bar>of_int (max 0 (end_ts - ?est)) - max 0 (of_int end_ts - (of_int now + theta))\<bar> \<le> w / 2 + 3 / 2"
    using est by (auto simp: abs_le_iff max_def)
  then show ?thesis using off est by (auto simp: estimated_server_time_ms_def compute_remaining_ms_def)
qed

text \<open>Three exchanges with a server 5 s ahead, one of them wildly wrong.\<close>

definition three_samples :: clock_sync_state where
  "three_samples = new_clock_sync_state\<lparr>sy_samples :=
     [make_sample 1790000000000 1790000005020 1790000000040 0 (1/8), make_sample 1790000001000 1790009999999 1790000001040 0 (1/8),
      make_sample 1790000002000 1790000007010 1790000002040 0 (1/8)]\<rparr>"

lemma countdown_error_bound_witness:
  "\<exists>offset. sy_offset_ms (finalize 3 three_samples) = Some offset \<and>
     \<bar>of_int (compute_remaining_ms 1790000300000 offset 1790000003000) - (291999 + 1 :: rat)\<bar> \<le> 43 / 2"
proof -
  have "\<forall>c \<in> set (sy_samples three_samples). made_sample c"
    by (simp add: three_samples_def made_sample_def make_sample_def)
  moreover have "length (sy_samples three_samples) < 2 * length (filter (fair_sample 5000 40) (sy_samples three_samples))"
    by (simp add: three_samples_def fair_sample_def make_sample_def)
  ultimately show ?thesis
    using countdown_error_bound[of three_samples 5000 40 1790000003000 3 1790000300000] by auto
qed

end
