(* ===== verification/Registration.thy ===== *)
theory Registration
  imports Py_Text Realtime
begin

text \<open>
  Registration and e-mail confirmation: \<open>validate_registration_data\<close> of \<open>apps/registration/forms.py\<close>, the
  tokens of \<open>models.py\<close>, \<open>EmailService\<close>, the attempt counter of \<open>rate_limit.py\<close> and the views of
  \<open>apps/registration/views.py\<close>. A view returns its reply and the state it leaves: the database, whose
  writes are committed one by one, and the mail sent. An exception nobody catches is \<open>Crash\<close>.
\<close>

section \<open>The form\<close>

datatype form_error = RegistrationError string string | FormRaised string

datatype event_arg = NoEvent | ModelEvent event_row | DictEvent pydict

record registration =
  rg_display_name :: string
  rg_age :: "int option"
  rg_gender :: json
  rg_want_to_date :: json
  rg_email :: string
  rg_whatsapp :: json
  rg_tag_ids :: json
  rg_accepted_terms :: json

text \<open>\<open>x.strip()\<close> and \<open>len(x)\<close> of a JSON value; the other types have no such operation.\<close>

definition form_text :: "pydict \<Rightarrow> string \<Rightarrow> form_error + string" where
  "form_text d k = (case get_or d k (JStr []) of JStr s \<Rightarrow> Inr (py_strip s) | _ \<Rightarrow> Inl (FormRaised ''AttributeError''))"

fun json_len :: "json \<Rightarrow> form_error + nat" where
  "json_len (JStr s) = Inr (length s)"
| "json_len (JList xs) = Inr (length xs)"
| "json_len (JObj d) = Inr (length d)"
| "json_len _ = Inl (FormRaised ''TypeError'')"

definition age_error :: form_error where
  "age_error = RegistrationError ''Valid age (at least 18) is required.'' ''invalid_age''"

definition form_age :: "json \<Rightarrow> form_error + int option" where
  "form_age age =
     (if age = JNull \<or> age = JStr [] then Inr None
      else case json_int age of
        Inl CallOverflowError \<Rightarrow> Inl (FormRaised ''OverflowError'')
      | Inl _ \<Rightarrow> Inl age_error
      | Inr i \<Rightarrow> if i < 18 \<or> 100 < i then Inl age_error else Inr (Some i))"

definition unique_tags_of :: "event_arg \<Rightarrow> bool" where
  "unique_tags_of event = (case event of ModelEvent ev \<Rightarrow> ev_unique_tags ev | _ \<Rightarrow> False)"

definition validate_registration_data :: "event_arg \<Rightarrow> json \<Rightarrow> form_error + registration" where
  "validate_registration_data event data =
     (let (event, data) = (case (event, data) of (DictEvent d, JNull) \<Rightarrow> (NoEvent, JObj d) | _ \<Rightarrow> (event, data)) in
      case data of
        JObj d \<Rightarrow>
          bindE (form_text d ''display_name'') (\<lambda>display_name.
          bindE (guardE (display_name \<noteq> []) (RegistrationError ''Full name is required.'' ''missing_full_name'')) (\<lambda>_.
          bindE (form_text d ''email'') (\<lambda>email.
          bindE (guardE (email \<noteq> [] \<and> CHR ''@'' \<in> set email)
              (RegistrationError ''A valid email address is required.'' ''invalid_email'')) (\<lambda>_.
          let accepted_terms = get_or d ''accepted_terms'' (JBool True) in
          bindE (guardE (truthy accepted_terms)
              (RegistrationError ''You must accept the terms and conditions.'' ''terms_not_accepted'')) (\<lambda>_.
          let tag_ids = py_or (py_or (get_or d ''tag_ids'' JNull) (get_or d ''tags'' JNull)) (JList []) in
          bindE (json_len tag_ids) (\<lambda>n.
          bindE (guardE (n \<le> 5) (RegistrationError ''Too many tags selected.'' ''invalid_tag_count'')) (\<lambda>_.
          bindE (guardE (\<not> unique_tags_of event \<or> n = 1)
              (RegistrationError ''Exactly one tag must be selected.'' ''invalid_tag_count'')) (\<lambda>_.
          bindE (form_age (get_or d ''age'' JNull)) (\<lambda>age.
            Inr \<lparr>rg_display_name = display_name, rg_age = age,
                 rg_gender = get_or d ''gender'' (JStr ''Other/Prefer Not to Say''),
                 rg_want_to_date = get_or d ''want_to_date'' (JStr ''Any''), rg_email = email,
                 rg_whatsapp = get_or d ''whatsapp'' (JStr []), rg_tag_ids = tag_ids,
                 rg_accepted_terms = accepted_terms\<rparr>)))))))))
      | _ \<Rightarrow> Inl (RegistrationError ''Invalid request data format.'' ''invalid_json''))"

section \<open>The attempt counter\<close>

definition rate_limit_window_seconds :: int where
  "rate_limit_window_seconds = 300"

definition rate_limit_max_attempts :: int where
  "rate_limit_max_attempts = 3"

definition attempts_of :: "cache \<Rightarrow> int \<Rightarrow> string \<Rightarrow> int" where
  "attempts_of c clk key = (case cache_get c clk (''rate_limit:'' @ key) of Some (CNumber n) \<Rightarrow> n | _ \<Rightarrow> 0)"

definition is_rate_limited :: "cache \<Rightarrow> int \<Rightarrow> string \<Rightarrow> bool" where
  "is_rate_limited c clk key \<longleftrightarrow> attempts_of c clk key \<ge> rate_limit_max_attempts"

definition record_attempt :: "int \<Rightarrow> string \<Rightarrow> cache \<Rightarrow> cache" where
  "record_attempt clk key c =
     cache_set (''rate_limit:'' @ key) (CNumber (attempts_of c clk key + 1)) rate_limit_window_seconds clk c"

text \<open>The helper of the same name the views use.\<close>

definition view_rate_limited :: bool where
  "view_rate_limited = False"

section \<open>Tokens\<close>

definition token_ttl :: int where
  "token_ttl = 24 * 60 * 60 * 1000000"

definition token_create_for :: "string \<Rightarrow> int \<Rightarrow> participant_row \<Rightarrow> verification_token" where
  "token_create_for raw_token now p =
     \<lparr>vt_participant = pt_id p, vt_token = raw_token, vt_expires_at = now + token_ttl, vt_used_at = None\<rparr>"

definition token_is_valid :: "int \<Rightarrow> verification_token \<Rightarrow> bool" where
  "token_is_valid now t \<longleftrightarrow> vt_used_at t = None \<and> vt_expires_at t > now"

definition mark_used :: "int \<Rightarrow> verification_token \<Rightarrow> verification_token" where
  "mark_used now t = t\<lparr>vt_used_at := Some now\<rparr>"

section \<open>Mail\<close>

record mail =
  ml_recipient :: string
  ml_subject :: string
  ml_message :: string

definition newline :: string where
  "newline = [CHR 0x0A]"

text \<open>\<open>verify_url\<close> is the front-end address and the reversed route of the token.\<close>

definition verification_email :: "(string \<Rightarrow> string) \<Rightarrow> string \<Rightarrow> string \<Rightarrow> string \<Rightarrow> string \<Rightarrow> mail" where
  "verification_email verify_url recipient_email name token event_title =
     \<lparr>ml_recipient = recipient_email,
      ml_subject = ''Registration Verification for: '' @ event_title,
      ml_message = ''Hello '' @ name @ '','' @ newline @ newline @
        ''Thank you for registering for '' @ event_title @ ''.'' @ newline @
        ''Please click the link below to activate your account:'' @ newline @ newline @
        verify_url token @ newline @ newline @ ''This link is valid for the next 24 hours.''\<rparr>"

text \<open>The transport either takes the mail or raises, which the service turns into \<open>RuntimeError\<close>.\<close>

definition send_verification_email :: "(string \<Rightarrow> string) \<Rightarrow> bool \<Rightarrow> string \<Rightarrow> string \<Rightarrow> string \<Rightarrow> mail list \<Rightarrow> bool \<times> mail list" where
  "send_verification_email verify_url mail_up recipient_email name token sent =
     (if mail_up then (True, sent @ [verification_email verify_url recipient_email name token ''Event'']) else (False, sent))"

section \<open>Requests and replies\<close>

datatype http_reply = JsonReply int pydict | HtmlReply int "string option" | Crash

fun reply_status :: "http_reply \<Rightarrow> int" where
  "reply_status (JsonReply n _) = n"
| "reply_status (HtmlReply n _) = n"
| "reply_status Crash = 500"

definition error_reply :: "int \<Rightarrow> string \<Rightarrow> string \<Rightarrow> http_reply" where
  "error_reply code text name = JsonReply code [(''error'', JStr text), (''code'', JStr name)]"

datatype request_body = BodyJson json | BodyNotJson | BodyRaises | BodyEmpty

text \<open>The first template that exists; \<open>None\<close> is the inline fallback.\<close>

definition safe_render :: "(string \<Rightarrow> bool) \<Rightarrow> string list \<Rightarrow> int \<Rightarrow> http_reply" where
  "safe_render exists template_names code = HtmlReply code (find exists template_names)"

text \<open>
  What a request meets: the column checks of the database beside the unique constraints, the ids a
  \<open>Tag\<close> lookup finds in a value (\<open>None\<close> when the lookup raises), the rendering of exceptions, whether the mail
  transport works, and the fresh primary key, token and instant.
\<close>

datatype register_failure = ParticipantRejected | TagLookupFailed | TokenTaken | MailFailed

record site_env =
  se_fits :: "participant_row \<Rightarrow> bool"
  se_find_tags :: "json \<Rightarrow> uuid list option"
  se_verify_url :: "string \<Rightarrow> string"
  se_describe :: "register_failure \<Rightarrow> string"
  se_mail_up :: bool
  se_new_id :: uuid
  se_raw_token :: string
  se_now :: int

record site =
  st_db :: db
  st_sent :: "mail list"

definition new_participant :: "uuid \<Rightarrow> event_row \<Rightarrow> registration \<Rightarrow> participant_row" where
  "new_participant i ev r =
     \<lparr>pt_id = i, pt_event = ev_id ev, pt_name = rg_display_name r, pt_email = rg_email r, pt_status = PS_Waiting,
      pt_token_hash = [], pt_token_digest = [], pt_token_expires_at = None, pt_joined_at = None, pt_age = rg_age r,
      pt_gender = rg_gender r, pt_want_to_date = rg_want_to_date r, pt_whatsapp = rg_whatsapp r, pt_tags = []\<rparr>"

text \<open>The unique constraint on event and display name, and the primary key.\<close>

definition participant_fits :: "site_env \<Rightarrow> participant_row \<Rightarrow> db \<Rightarrow> bool" where
  "participant_fits v p d \<longleftrightarrow> se_fits v p \<and>
     (\<forall>q \<in> set (db_participants d). pt_id q \<noteq> pt_id p \<and> (pt_event q, pt_name q) \<noteq> (pt_event p, pt_name p))"

definition set_tags :: "uuid \<Rightarrow> uuid list \<Rightarrow> db \<Rightarrow> db" where
  "set_tags i ids d = d\<lparr>db_participants := map (\<lambda>p. if pt_id p = i
     then p\<lparr>pt_tags := filter (\<lambda>t. t \<in> set ids) (db_tags d)\<rparr> else p) (db_participants d)\<rparr>"

text \<open>The body of the second \<open>try\<close>: what was written before an exception stays.\<close>

definition create_registration :: "site_env \<Rightarrow> event_row \<Rightarrow> registration \<Rightarrow> site \<Rightarrow> (register_failure + participant_row) \<times> site" where
  "create_registration v ev r s =
     (let p = new_participant (se_new_id v) ev r; d = st_db s in
      if \<not> participant_fits v p d then (Inl ParticipantRejected, s)
      else
        (let d1 = d\<lparr>db_participants := db_participants d @ [p]\<rparr> in
         case (if truthy (rg_tag_ids r) then map_option (\<lambda>ids. set_tags (pt_id p) ids d1) (se_find_tags v (rg_tag_ids r)) else Some d1) of
           None \<Rightarrow> (Inl TagLookupFailed, s\<lparr>st_db := d1\<rparr>)
         | Some d2 \<Rightarrow>
             if se_raw_token v \<in> set (map vt_token (db_tokens d2)) then (Inl TokenTaken, s\<lparr>st_db := d2\<rparr>)
             else
               (let t = token_create_for (se_raw_token v) (se_now v) p;
                    d3 = d2\<lparr>db_tokens := db_tokens d2 @ [t]\<rparr>;
                    (ok, sent) = send_verification_email (se_verify_url v) (se_mail_up v) (rg_email r) (pt_name p) (vt_token t) (st_sent s)
                in (if ok then Inr p else Inl MailFailed, s\<lparr>st_db := d3, st_sent := sent\<rparr>))))"

definition register_view :: "site_env \<Rightarrow> bool \<Rightarrow> uuid option \<Rightarrow> request_body \<Rightarrow> site \<Rightarrow> http_reply \<times> site" where
  "register_view v is_post event_id body s =
     (if \<not> is_post then (JsonReply 405 [(''error'', JStr ''Method not allowed.'')], s)
      else if view_rate_limited then (JsonReply 429 [(''error'', JStr ''Too many requests. Please try again later.'')], s)
      else case body of
        BodyRaises \<Rightarrow> (Crash, s)
      | BodyNotJson \<Rightarrow> (error_reply 400 ''Invalid request data.'' ''invalid_json'', s)
      | BodyEmpty \<Rightarrow> (error_reply 400 ''Invalid request data.'' ''invalid_json'', s)
      | BodyJson data \<Rightarrow>
          (case Option.bind event_id (find_event (st_db s)) of
             None \<Rightarrow> (Crash, s)
           | Some ev \<Rightarrow>
               (case validate_registration_data (ModelEvent ev) data of
                  Inl (RegistrationError message code) \<Rightarrow> (error_reply 400 message code, s)
                | Inl (FormRaised _) \<Rightarrow> (Crash, s)
                | Inr r \<Rightarrow>
                    if \<exists>p \<in> set (db_participants (st_db s)). pt_email p = rg_email r \<and> pt_event p = ev_id ev
                    then (error_reply 400 ''This email is already registered for this event.'' ''duplicate_email'', s)
                    else
                      (case create_registration v ev r s of
                         (Inl failure, s') \<Rightarrow> (error_reply 500 (''Registration failed: '' @ se_describe v failure) ''server_error'', s')
                       | (Inr p, s') \<Rightarrow>
                           (JsonReply 201
                              [(''message'', JStr ''Your registration has been successfully received. Please check your email.''),
                               (''participant_id'', JStr (uuid_str (pt_id p)))], s')))))"

definition confirm_participant :: "uuid \<Rightarrow> int \<Rightarrow> db \<Rightarrow> db" where
  "confirm_participant i now d = d\<lparr>db_participants := map (\<lambda>p. if pt_id p = i
     then (if pt_joined_at p = None then p\<lparr>pt_joined_at := Some now\<rparr> else p) else p) (db_participants d)\<rparr>"

definition verify_email_view :: "(string \<Rightarrow> bool) \<Rightarrow> bool \<Rightarrow> string \<Rightarrow> int \<Rightarrow> site \<Rightarrow> http_reply \<times> site" where
  "verify_email_view exists is_json token now s =
     (case find (\<lambda>t. vt_token t = token) (db_tokens (st_db s)) of
        None \<Rightarrow>
          (if is_json then JsonReply 404 [(''error'', JStr ''Invalid verification link.'')]
           else safe_render exists [''registration/token_expired.html'', ''registration/verify_result.html'', ''registration/error.html''] 404, s)
      | Some t \<Rightarrow>
          (let is_expired = vt_expires_at t < now; is_used = (vt_used_at t \<noteq> None) in
           if is_expired \<or> is_used then
             (if is_json then JsonReply 410 [(''error'', JStr ''This link has expired or has already been used.'')]
              else safe_render exists [''registration/token_expired.html'', ''registration/verify_result.html'', ''registration/error.html''] 410, s)
           else
             (let d = st_db s;
                  d1 = d\<lparr>db_tokens := map (\<lambda>u. if vt_token u = token then mark_used now u else u) (db_tokens d)\<rparr>;
                  d2 = confirm_participant (vt_participant t) now d1
              in (if is_json then JsonReply 200 [(''message'', JStr ''Your registration has been successfully verified.'')]
                  else safe_render exists [''registration/verify_result.html'', ''registration/verify_success.html'', ''registration/success.html''] 200,
                  s\<lparr>st_db := d2\<rparr>))))"

definition check_email_view :: "(string \<Rightarrow> bool) \<Rightarrow> bool \<Rightarrow> string \<Rightarrow> site \<Rightarrow> http_reply" where
  "check_email_view exists is_json email s =
     (let email = py_strip email in
      if is_json then
        (if email = [] then JsonReply 400 [(''error'', JStr ''Email parameter is required.'')]
         else JsonReply 200 [(''exists'', JBool (\<exists>p \<in> set (db_participants (st_db s)). pt_email p = email))])
      else safe_render exists [''registration/check_email.html'', ''registration/check_inbox.html''] 200)"

definition device_check_view :: "(string \<Rightarrow> bool) \<Rightarrow> http_reply" where
  "device_check_view exists = safe_render exists [''registration/device_check.html''] 200"

definition device_check_report_view :: "bool \<Rightarrow> (device_check \<Rightarrow> bool) \<Rightarrow> uuid option \<Rightarrow> string \<Rightarrow> request_body \<Rightarrow> site \<Rightarrow> http_reply \<times> site" where
  "device_check_report_view is_post fits event_id user_agent body s =
     (if \<not> is_post then (JsonReply 405 [(''error'', JStr ''Method not allowed.'')], s)
      else case body of
        BodyNotJson \<Rightarrow> (JsonReply 400 [(''error'', JStr ''Invalid JSON.'')], s)
      | BodyRaises \<Rightarrow> (Crash, s)
      | _ \<Rightarrow>
          (case (case body of BodyJson data \<Rightarrow> data | _ \<Rightarrow> JObj []) of
             JObj d \<Rightarrow>
               (let row = \<lparr>dc_event = map_option ev_id (Option.bind event_id (find_event (st_db s))),
                      dc_camera = truthy (get_or d ''camera_working'' (JBool False)),
                      dc_mic = truthy (get_or d ''mic_working'' (JBool False)),
                      dc_error_type = get_or d ''error_type'' (JStr []),
                      dc_in_app_browser = truthy (get_or d ''is_in_app_browser'' (JBool False)),
                      dc_user_agent = user_agent\<rparr>
                in if fits row then (JsonReply 201 [(''status'', JStr ''received'')],
                     s\<lparr>st_db := (st_db s)\<lparr>db_device_checks := db_device_checks (st_db s) @ [row]\<rparr>\<rparr>)
                   else (Crash, s))
           | _ \<Rightarrow> (Crash, s)))"

end
