(* ===== verification/Registration_Props.thy ===== *)
theory Registration_Props
  imports Registration
begin

text \<open>
  What the registration form accepts, what a sequence of requests keeps of the tables, and the life of a
  confirmation link.
\<close>

section \<open>The form\<close>

lemma dropWhile_idem: "dropWhile P (dropWhile P xs) = dropWhile P xs"
  by (induction xs) auto

lemma dropWhile_hd: "dropWhile P xs \<noteq> [] \<Longrightarrow> \<not> P (hd (dropWhile P xs))"
  by (induction xs) auto

lemma strip_by_ends: "strip_by P s = [] \<or> (\<not> P (hd (strip_by P s)) \<and> \<not> P (last (strip_by P s)))"
proof (cases "strip_by P s = []")
  case False
  let ?t = "dropWhile P s" and ?u = "dropWhile P (rev (dropWhile P s))"
  have u: "?u \<noteq> []" using False by (simp add: strip_by_def del: dropWhile_eq_Nil_conv)
  then have t: "?t \<noteq> []" by (metis dropWhile.simps(1) rev.simps(1))
  obtain pre where pre: "rev ?t = pre @ ?u" using takeWhile_dropWhile_id[of P "rev ?t"] by metis
  then have "?t = rev ?u @ rev pre" by (metis rev_append rev_rev_ident)
  then have "hd (rev ?u) = hd ?t" using u by (metis hd_append2 rev_is_Nil_conv)
  then have "\<not> P (hd (rev ?u))" using dropWhile_hd[OF t] by simp
  moreover have "\<not> P (last (rev ?u))" using dropWhile_hd[OF u] u by (simp add: last_rev)
  ultimately show ?thesis by (simp add: strip_by_def)
qed simp

lemma py_strip_idem [simp]: "py_strip (py_strip s) = py_strip s"
  unfolding py_strip_def by (rule strip_by_id[OF strip_by_ends])

text \<open>A registration as a form accepts it: trimmed name and address, accepted terms, at most five tags (one when
  the event wants a unique tag), an age of 18 to 100 if any.\<close>

definition registration_ok :: "event_arg \<Rightarrow> registration \<Rightarrow> bool" where
  "registration_ok ev r \<longleftrightarrow>
     rg_display_name r \<noteq> [] \<and> py_strip (rg_display_name r) = rg_display_name r \<and>
     CHR ''@'' \<in> set (rg_email r) \<and> py_strip (rg_email r) = rg_email r \<and>
     truthy (rg_accepted_terms r) \<and> (truthy (rg_tag_ids r) \<or> rg_tag_ids r = JList []) \<and>
     (\<exists>n. json_len (rg_tag_ids r) = Inr n \<and> n \<le> 5 \<and> (unique_tags_of ev \<longrightarrow> n = 1)) \<and>
     (\<forall>a. rg_age r = Some a \<longrightarrow> 18 \<le> a \<and> a \<le> 100)"

definition form_of :: "registration \<Rightarrow> pydict" where
  "form_of r = [(''display_name'', JStr (rg_display_name r)), (''email'', JStr (rg_email r)),
     (''accepted_terms'', rg_accepted_terms r), (''tag_ids'', rg_tag_ids r),
     (''age'', case rg_age r of None \<Rightarrow> JNull | Some a \<Rightarrow> JInt a), (''gender'', rg_gender r),
     (''want_to_date'', rg_want_to_date r), (''whatsapp'', rg_whatsapp r)]"

lemma form_text_Inr: "form_text d k = Inr t \<Longrightarrow> py_strip t = t"
  by (auto simp: form_text_def split: json.splits)

lemma form_age_Inr: "form_age v = Inr (Some a) \<Longrightarrow> 18 \<le> a \<and> a \<le> 100"
  by (auto simp: form_age_def split: if_splits sum.splits call_error.splits)

lemma py_or_list [simp]: "py_or a (JList []) \<noteq> JList [] \<Longrightarrow> truthy (py_or a (JList []))"
  by (cases "truthy a") (auto simp: py_or_def)

lemma validated_ok:
  assumes "validate_registration_data ev data = Inr r" "\<And>d. ev \<noteq> DictEvent d"
  shows "registration_ok ev r"
  using assms form_text_Inr form_age_Inr
  by (cases ev; cases data) (auto simp: validate_registration_data_def registration_ok_def Let_def bindE_Inr_iff)

lemma ok_validated:
  assumes "registration_ok ev r" "\<And>d. ev \<noteq> DictEvent d"
  shows "validate_registration_data ev (JObj (form_of r)) = Inr r"
proof -
  have age: "form_age (case rg_age r of None \<Rightarrow> JNull | Some a \<Rightarrow> JInt a) = Inr (rg_age r)"
    using assms(1) by (auto simp: form_age_def registration_ok_def split: option.splits)
  have "rg_email r \<noteq> []" using assms(1) by (auto simp: registration_ok_def)
  then show ?thesis using assms age
    by (cases ev) (auto simp: validate_registration_data_def registration_ok_def Let_def form_of_def form_text_def py_or_def guardE_def)
qed


section \<open>Runs of requests\<close>

datatype site_request =
    ReqRegister site_env bool "uuid option" request_body
  | ReqVerify bool string int
  | ReqDeviceReport bool "device_check \<Rightarrow> bool" "uuid option" string request_body

definition site_step :: "(string \<Rightarrow> bool) \<Rightarrow> site_request \<Rightarrow> site \<Rightarrow> http_reply \<times> site" where
  "site_step exists req s =
     (case req of
        ReqRegister v is_post event_id body \<Rightarrow> register_view v is_post event_id body s
      | ReqVerify is_json token now \<Rightarrow> verify_email_view exists is_json token now s
      | ReqDeviceReport is_post fits event_id agent body \<Rightarrow> device_check_report_view is_post fits event_id agent body s)"

fun site_run :: "(string \<Rightarrow> bool) \<Rightarrow> site_request list \<Rightarrow> site \<Rightarrow> http_reply list \<times> site" where
  "site_run exists [] s = ([], s)"
| "site_run exists (req # reqs) s =
     (case site_step exists req s of (reply, s1) \<Rightarrow>
      case site_run exists reqs s1 of (replies, s2) \<Rightarrow> (reply # replies, s2))"

text \<open>The keys of the tables: ids, one name and one address per event, one row per token.\<close>

definition tables_ok :: "db \<Rightarrow> bool" where
  "tables_ok d \<longleftrightarrow> distinct (map pt_id (db_participants d)) \<and>
     distinct (map (\<lambda>p. (pt_event p, pt_name p)) (db_participants d)) \<and>
     distinct (map (\<lambda>p. (pt_event p, pt_email p)) (db_participants d)) \<and>
     distinct (map vt_token (db_tokens d))"

lemma map_if_same: "(\<And>x. k (f x) = k x) \<Longrightarrow> map k (map (\<lambda>x. if c x then f x else x) xs) = map k xs"
  by (induction xs) auto

lemma set_tags_keys [simp]:
  "map pt_id (db_participants (set_tags i ids d)) = map pt_id (db_participants d)"
  "map (\<lambda>p. (pt_event p, pt_name p)) (db_participants (set_tags i ids d)) = map (\<lambda>p. (pt_event p, pt_name p)) (db_participants d)"
  "map (\<lambda>p. (pt_event p, pt_email p)) (db_participants (set_tags i ids d)) = map (\<lambda>p. (pt_event p, pt_email p)) (db_participants d)"
  "db_tokens (set_tags i ids d) = db_tokens d"
  by (simp_all add: set_tags_def)

text \<open>What creating a registration adds, however far it gets.\<close>

lemma create_registration_cases:
  assumes "create_registration v ev r s = (res, s')"
  obtains (rejected) "res = Inl ParticipantRejected" "s' = s"
  | (stored) p d1 where "participant_fits v p (st_db s)" "p = new_participant (se_new_id v) ev r"
      "d1 = (st_db s)\<lparr>db_participants := db_participants (st_db s) @ [p]\<rparr>"
      "st_db s' = d1 \<or> (\<exists>ids. st_db s' = set_tags (pt_id p) ids d1)" "st_sent s' = st_sent s"
      "res = Inl TagLookupFailed \<or> res = Inl TokenTaken"
  | (tokened) p d1 d2 where "participant_fits v p (st_db s)" "p = new_participant (se_new_id v) ev r"
      "d1 = (st_db s)\<lparr>db_participants := db_participants (st_db s) @ [p]\<rparr>"
      "d2 = d1 \<or> (\<exists>ids. d2 = set_tags (pt_id p) ids d1)" "se_raw_token v \<notin> set (map vt_token (db_tokens (st_db s)))"
      "st_db s' = d2\<lparr>db_tokens := db_tokens d2 @ [token_create_for (se_raw_token v) (se_now v) p]\<rparr>"
      "res = (if se_mail_up v then Inr p else Inl MailFailed)"
      "st_sent s' = (if se_mail_up v then st_sent s @ [verification_email (se_verify_url v) (rg_email r) (pt_name p) (se_raw_token v) ''Event''] else st_sent s)"
proof -
  define p where "p = new_participant (se_new_id v) ev r"
  define d1 where "d1 = (st_db s)\<lparr>db_participants := db_participants (st_db s) @ [p]\<rparr>"
  define t where "t = (if truthy (rg_tag_ids r) then map_option (\<lambda>ids. set_tags (pt_id p) ids d1) (se_find_tags v (rg_tag_ids r)) else Some d1)"
  have tk: "db_tokens d1 = db_tokens (st_db s)" by (simp add: d1_def)
  note eq = assms[unfolded create_registration_def Let_def, folded p_def, folded d1_def, folded t_def]
  show ?thesis
  proof (cases "participant_fits v p (st_db s)")
    case False
    then show ?thesis using eq rejected by simp
  next
    case fits: True
    show ?thesis
    proof (cases t)
      case None
      then show ?thesis using eq fits stored[OF fits p_def d1_def] by auto
    next
      case (Some d2)
      then have d2: "d2 = d1 \<or> (\<exists>ids. d2 = set_tags (pt_id p) ids d1)" by (auto simp: t_def split: if_splits)
      then have tk2: "db_tokens d2 = db_tokens (st_db s)" using tk by auto
      show ?thesis
      proof (cases "se_raw_token v \<in> set (map vt_token (db_tokens d2))")
        case True
        then show ?thesis
          by (intro stored[OF fits p_def d1_def]) (use eq fits Some d2 in \<open>auto split: prod.splits\<close>)
      next
        case False
        then have new: "se_raw_token v \<notin> set (map vt_token (db_tokens (st_db s)))" by (simp add: tk2)
        show ?thesis
          by (rule tokened[OF fits p_def d1_def d2 new])
            (use eq fits Some False in \<open>auto simp: send_verification_email_def token_create_for_def split: if_splits\<close>)
      qed
    qed
  qed
qed

lemma new_participant_sel [simp]:
  "pt_id (new_participant i ev r) = i" "pt_event (new_participant i ev r) = ev_id ev"
  "pt_name (new_participant i ev r) = rg_display_name r" "pt_email (new_participant i ev r) = rg_email r"
  "pt_joined_at (new_participant i ev r) = None"
  by (simp_all add: new_participant_def)

lemma register_view_cases:
  assumes "register_view v is_post event_id body s = (reply, s')"
  obtains (refused) "s' = s" "reply_status reply \<noteq> 201" "reply_status reply \<noteq> 200"
  | (tried) data ev r res where "body = BodyJson data" "Option.bind event_id (find_event (st_db s)) = Some ev" "is_post"
      "validate_registration_data (ModelEvent ev) data = Inr r"
      "\<forall>p \<in> set (db_participants (st_db s)). pt_email p = rg_email r \<longrightarrow> pt_event p \<noteq> ev_id ev"
      "create_registration v ev r s = (res, s')" "reply_status reply = (case res of Inl _ \<Rightarrow> 500 | Inr _ \<Rightarrow> 201)"
  using assms unfolding register_view_def error_reply_def
  by (auto split: if_splits request_body.splits option.splits sum.splits form_error.splits prod.splits)

lemma tables_ok_add:
  assumes ok: "tables_ok d" and fits: "participant_fits v p d"
    and fresh: "\<forall>q \<in> set (db_participants d). pt_email q = pt_email p \<longrightarrow> pt_event q \<noteq> pt_event p"
  shows "tables_ok (d\<lparr>db_participants := db_participants d @ [p]\<rparr>)"
  using assms by (auto simp: tables_ok_def participant_fits_def)

lemma tables_ok_cong:
  assumes "tables_ok d" "map pt_id (db_participants d') = map pt_id (db_participants d)"
    "map (\<lambda>p. (pt_event p, pt_name p)) (db_participants d') = map (\<lambda>p. (pt_event p, pt_name p)) (db_participants d)"
    "map (\<lambda>p. (pt_event p, pt_email p)) (db_participants d') = map (\<lambda>p. (pt_event p, pt_email p)) (db_participants d)"
    "map vt_token (db_tokens d') = map vt_token (db_tokens d)"
  shows "tables_ok d'"
  using assms unfolding tables_ok_def by metis

lemma tables_ok_tags: "tables_ok d \<Longrightarrow> tables_ok (set_tags i ids d)"
  by (erule tables_ok_cong) simp_all

lemma create_registration_ok:
  assumes ok: "tables_ok (st_db s)" and create: "create_registration v ev r s = (res, s')"
    and fresh: "\<forall>q \<in> set (db_participants (st_db s)). pt_email q = rg_email r \<longrightarrow> pt_event q \<noteq> ev_id ev"
  shows "tables_ok (st_db s')"
  using create
proof (cases rule: create_registration_cases)
  case rejected
  then show ?thesis using ok by simp
next
  case (stored p d1)
  then have "tables_ok d1" using tables_ok_add[OF ok, of v p] fresh by simp
  then show ?thesis using stored(4) tables_ok_tags by auto
next
  case (tokened p d1 d2)
  then have "tables_ok d1" using tables_ok_add[OF ok, of v p] fresh by simp
  then have d2: "tables_ok d2" using tokened(4) tables_ok_tags by auto
  have "db_tokens d2 = db_tokens (st_db s)" using tokened(3,4) by auto
  then show ?thesis using d2 tokened(5,6) by (simp add: tables_ok_def token_create_for_def)
qed

lemma verify_view_cases:
  assumes "verify_email_view exists is_json token now s = (reply, s')"
  obtains (unknown) "token \<notin> set (map vt_token (db_tokens (st_db s)))" "s' = s" "reply_status reply = 404"
  | (over) t where "find (\<lambda>t. vt_token t = token) (db_tokens (st_db s)) = Some t" "vt_expires_at t < now \<or> vt_used_at t \<noteq> None"
      "s' = s" "reply_status reply = 410"
  | (confirmed) t where "find (\<lambda>t. vt_token t = token) (db_tokens (st_db s)) = Some t" "now \<le> vt_expires_at t" "vt_used_at t = None"
      "s' = s\<lparr>st_db := confirm_participant (vt_participant t) now ((st_db s)\<lparr>db_tokens :=
         map (\<lambda>u. if vt_token u = token then mark_used now u else u) (db_tokens (st_db s))\<rparr>)\<rparr>" "reply_status reply = 200"
proof (cases "find (\<lambda>t. vt_token t = token) (db_tokens (st_db s))")
  case None
  moreover from this have "token \<notin> set (map vt_token (db_tokens (st_db s)))" by (auto simp: find_None_iff)
  ultimately show ?thesis using assms by (intro unknown) (auto simp: verify_email_view_def safe_render_def split: if_splits)
next
  case (Some t)
  show ?thesis
  proof (cases "vt_expires_at t < now \<or> vt_used_at t \<noteq> None")
    case True
    then show ?thesis using assms Some by (intro over[OF Some]) (auto simp: verify_email_view_def safe_render_def Let_def split: if_splits)
  next
    case False
    then show ?thesis using assms Some
      by (intro confirmed[OF Some]) (auto simp: verify_email_view_def safe_render_def Let_def split: if_splits)
  qed
qed

lemma confirm_participant_tables: "tables_ok d \<Longrightarrow> tables_ok (confirm_participant i now d)"
  by (erule tables_ok_cong) (simp_all add: confirm_participant_def)

lemma device_report_state:
  assumes "device_check_report_view is_post fits event_id agent body s = (reply, s')"
  shows "db_participants (st_db s') = db_participants (st_db s) \<and> db_tokens (st_db s') = db_tokens (st_db s)"
  using assms by (auto simp: device_check_report_view_def Let_def split: if_splits request_body.splits json.splits)

lemma site_step_ok:
  assumes ok: "tables_ok (st_db s)" and step: "site_step exists req s = (reply, s')"
  shows "tables_ok (st_db s')"
proof (cases req)
  case (ReqRegister v is_post event_id body)
  then have "register_view v is_post event_id body s = (reply, s')" using step by (simp add: site_step_def)
  then show ?thesis
  proof (cases rule: register_view_cases)
    case (tried data ev r res)
    then show ?thesis using create_registration_ok[OF ok] by blast
  qed (use ok in simp)
next
  case (ReqVerify is_json token now)
  then have "verify_email_view exists is_json token now s = (reply, s')" using step by (simp add: site_step_def)
  then show ?thesis
  proof (cases rule: verify_view_cases)
    case (confirmed t)
    have "tables_ok ((st_db s)\<lparr>db_tokens := map (\<lambda>u. if vt_token u = token then mark_used now u else u) (db_tokens (st_db s))\<rparr>)"
      using ok by (rule tables_ok_cong) (simp_all add: mark_used_def)
    then show ?thesis using confirmed(4) confirm_participant_tables by simp
  qed (use ok in simp_all)
next
  case (ReqDeviceReport is_post fits event_id agent body)
  then show ?thesis using device_report_state[of is_post fits event_id agent body s reply s'] step ok
    by (simp add: site_step_def tables_ok_def)
qed

text \<open>C27. However requests follow each other, successful, refused or broken off halfway, nobody registers twice: an
  event never has two participants of one address or of one display name, and no two confirmation links
  carry the same token.\<close>

theorem nobody_registers_twice:
  assumes "tables_ok (st_db s)"
  shows "tables_ok (st_db (snd (site_run exists reqs s)))"
  using assms
  by (induction exists reqs s rule: site_run.induct) (auto split: prod.split dest: site_step_ok)

section \<open>Confirmation links\<close>

definition token_used :: "string \<Rightarrow> db \<Rightarrow> bool" where
  "token_used token d \<longleftrightarrow> (\<exists>t \<in> set (db_tokens d). vt_token t = token \<and> vt_used_at t \<noteq> None)"

lemma create_registration_tokens:
  assumes "create_registration v ev r s = (res, s')"
  shows "set (db_tokens (st_db s)) \<subseteq> set (db_tokens (st_db s'))"
  using assms by (cases rule: create_registration_cases) auto

lemma token_used_marked:
  assumes "token_used token d"
  shows "token_used token (confirm_participant i now (d\<lparr>db_tokens := map (\<lambda>u. if vt_token u = k then mark_used now u else u) (db_tokens d)\<rparr>))"
proof -
  obtain t where "t \<in> set (db_tokens d)" "vt_token t = token" "vt_used_at t \<noteq> None" using assms by (auto simp: token_used_def)
  then have "\<exists>t \<in> set (db_tokens d). vt_token (if vt_token t = k then mark_used now t else t) = token \<and>
      vt_used_at (if vt_token t = k then mark_used now t else t) \<noteq> None"
    by (intro bexI[of _ t]) (simp_all add: mark_used_def)
  moreover have "db_tokens (confirm_participant i now (d\<lparr>db_tokens := ts\<rparr>)) = ts" for ts by (simp add: confirm_participant_def)
  ultimately show ?thesis unfolding token_used_def by (simp only: set_map bex_simps)
qed

lemma token_used_step:
  assumes used: "token_used token (st_db s)" and step: "site_step exists req s = (reply, s')"
  shows "token_used token (st_db s')"
proof (cases req)
  case (ReqRegister v is_post event_id body)
  then have "register_view v is_post event_id body s = (reply, s')" using step by (simp add: site_step_def)
  then show ?thesis
  proof (cases rule: register_view_cases)
    case (tried data ev r res)
    then show ?thesis using create_registration_tokens[OF tried(6)] used unfolding token_used_def by blast
  qed (use used in simp)
next
  case (ReqVerify is_json token' now)
  then have "verify_email_view exists is_json token' now s = (reply, s')" using step by (simp add: site_step_def)
  then show ?thesis using used by (cases rule: verify_view_cases) (simp_all add: token_used_marked)
next
  case (ReqDeviceReport is_post fits event_id agent body)
  then show ?thesis using device_report_state[of is_post fits event_id agent body s reply s'] step used
    by (simp add: site_step_def token_used_def)
qed

lemma used_not_confirmed:
  assumes ok: "tables_ok (st_db s)" and used: "token_used token (st_db s)"
    and verify: "verify_email_view exists is_json token now s = (reply, s')"
  shows "reply_status reply = 410 \<and> s' = s"
  using verify
proof (cases rule: verify_view_cases)
  case (confirmed t)
  then have "t \<in> set (db_tokens (st_db s))" "vt_token t = token" by (auto simp: find_Some_iff)
  moreover obtain u where "u \<in> set (db_tokens (st_db s))" "vt_token u = token" "vt_used_at u \<noteq> None"
    using used by (auto simp: token_used_def)
  ultimately have "t = u" using ok unfolding tables_ok_def distinct_map by (metis inj_onD)
  then show ?thesis using confirmed \<open>vt_used_at u \<noteq> None\<close> by simp
qed (use used in \<open>auto simp: token_used_def\<close>)

lemma confirmed_used:
  assumes "verify_email_view exists is_json token now s = (reply, s')" "reply_status reply = 200"
  shows "token_used token (st_db s')"
  using assms(1)
proof (cases rule: verify_view_cases)
  case (confirmed t)
  then have "t \<in> set (db_tokens (st_db s))" "vt_token t = token" by (auto simp: find_Some_iff)
  then have "mark_used now t \<in> set (db_tokens (st_db s'))" using confirmed(4) by (auto simp: confirm_participant_def image_iff)
  then show ?thesis using \<open>vt_token t = token\<close> by (auto simp: token_used_def mark_used_def intro!: bexI[of _ "mark_used now t"])
qed (use assms(2) in simp_all)

fun confirms :: "string \<Rightarrow> site_request \<times> http_reply \<Rightarrow> bool" where
  "confirms token (ReqVerify _ t _, reply) = (t = token \<and> reply_status reply = 200)"
| "confirms token _ = False"

lemma confirms_step:
  assumes "site_step exists req s = (reply, s')" "confirms token (req, reply)"
  shows "token_used token (st_db s')" "tables_ok (st_db s) \<Longrightarrow> \<not> token_used token (st_db s)"
proof -
  obtain is_json now where req: "req = ReqVerify is_json token now" "reply_status reply = 200"
    using assms(2) by (cases req) auto
  then have v: "verify_email_view exists is_json token now s = (reply, s')" using assms(1) by (simp add: site_step_def)
  show "token_used token (st_db s')" by (rule confirmed_used[OF v req(2)])
  show "tables_ok (st_db s) \<Longrightarrow> \<not> token_used token (st_db s)" using used_not_confirmed[OF _ _ v] req(2) by auto
qed

lemma confirmations_bound:
  assumes "tables_ok (st_db s)"
  shows "length (filter (confirms token) (zip reqs (fst (site_run exists reqs s)))) \<le> (if token_used token (st_db s) then 0 else 1)"
  using assms
proof (induction reqs arbitrary: s)
  case (Cons req reqs)
  obtain reply s1 where st: "site_step exists req s = (reply, s1)" by force
  obtain replies s2 where run: "site_run exists reqs s1 = (replies, s2)" by force
  have "length (filter (confirms token) (zip reqs replies)) \<le> (if token_used token (st_db s1) then 0 else 1)"
    using Cons.IH[OF site_step_ok[OF Cons.prems st]] run by simp
  moreover have "token_used token (st_db s) \<Longrightarrow> token_used token (st_db s1)" using token_used_step st by blast
  ultimately show ?case
    using confirms_step[OF st, of token] Cons.prems by (cases "confirms token (req, reply)") (auto simp: st run split: if_splits)
qed simp

text \<open>C28. A confirmation link confirms at most once: in any run of requests, whatever their order and instants, at most
  one visit of a link is answered with success.\<close>

theorem link_confirms_once:
  assumes "tables_ok (st_db s)"
  shows "length (filter (confirms token) (zip reqs (fst (site_run exists reqs s)))) \<le> 1"
  using confirmations_bound[OF assms, of token reqs exists] by (auto split: if_splits)

lemma find_unique:
  assumes "distinct (map k xs)" "x \<in> set xs"
  shows "find (\<lambda>y. k y = k x) xs = Some x"
  using assms by (induction xs) auto

text \<open>A registration that succeeds sends its address one mail with a link, and that link works: its first visit
  within 24 hours confirms the new participant at that instant, after 24 hours it confirms nobody, and once it
  has confirmed every later visit is refused and changes nothing.\<close>

theorem registered_link_works:
  assumes ok: "tables_ok (st_db s)" and reg: "register_view v is_post event_id body s = (reply, s')"
    and success: "reply_status reply = 201"
  shows "\<exists>p m. find_participant (st_db s') (se_new_id v) = Some p \<and> pt_joined_at p = None \<and>
    st_sent s' = st_sent s @ [m] \<and> ml_recipient m = pt_email p \<and>
    (\<exists>before after. ml_message m = before @ se_verify_url v (se_raw_token v) @ after) \<and>
    (if now \<le> se_now v + token_ttl then
       (\<exists>reply' s''. verify_email_view exists js (se_raw_token v) now s' = (reply', s'') \<and> reply_status reply' = 200 \<and>
         find_participant (st_db s'') (se_new_id v) = Some (p\<lparr>pt_joined_at := Some now\<rparr>) \<and>
         (\<forall>js2 later. snd (verify_email_view exists js2 (se_raw_token v) later s'') = s'' \<and>
            reply_status (fst (verify_email_view exists js2 (se_raw_token v) later s'')) = 410))
     else snd (verify_email_view exists js (se_raw_token v) now s') = s' \<and>
       reply_status (fst (verify_email_view exists js (se_raw_token v) now s')) = 410)"
  using reg
proof (cases rule: register_view_cases)
  case (tried data ev r res)
  then obtain q where res: "res = Inr q" using success by (auto split: sum.splits)
  have ok': "tables_ok (st_db s')" using create_registration_ok[OF ok tried(6)] tried(5) by blast
  show ?thesis
    using tried(6)
  proof (cases rule: create_registration_cases)
    case (tokened p d1 d2)
    let ?t = "token_create_for (se_raw_token v) (se_now v) p"
    have up: "se_mail_up v" using tokened(7) res by (auto split: if_splits)
    have ids: "distinct (map pt_id (db_participants (st_db s')))" "distinct (map vt_token (db_tokens (st_db s')))"
      using ok' by (simp_all add: tables_ok_def)
    have "\<exists>x \<in> set (db_participants d2). pt_id x = se_new_id v \<and> pt_joined_at x = None \<and> pt_email x = rg_email r"
      using tokened(4) unfolding tokened(2,3) by (auto simp: set_tags_def)
    then obtain x where x: "x \<in> set (db_participants (st_db s'))" "pt_id x = se_new_id v" "pt_joined_at x = None" "pt_email x = rg_email r"
      using tokened(6) by auto
    have fx: "find_participant (st_db s') (se_new_id v) = Some x"
      using find_unique[OF ids(1) x(1)] x(2) by (simp add: find_participant_def)
    have t: "?t \<in> set (db_tokens (st_db s'))" "vt_token ?t = se_raw_token v" "vt_expires_at ?t = se_now v + token_ttl"
      "vt_participant ?t = se_new_id v" "vt_used_at ?t = None"
      using tokened(2,6) by (simp_all add: token_create_for_def)
    have ft: "find (\<lambda>u. vt_token u = se_raw_token v) (db_tokens (st_db s')) = Some ?t"
      using find_unique[OF ids(2) t(1)] t(2) by simp
    define m where "m = verification_email (se_verify_url v) (rg_email r) (pt_name p) (se_raw_token v) ''Event''"
    have "ml_message m = (''Hello '' @ pt_name p @ '','' @ newline @ newline @ ''Thank you for registering for '' @ ''Event'' @ ''.'' @
        newline @ ''Please click the link below to activate your account:'' @ newline @ newline) @
      se_verify_url v (se_raw_token v) @ (newline @ newline @ ''This link is valid for the next 24 hours.'')"
      by (simp add: m_def verification_email_def)
    then have body: "\<exists>before after. ml_message m = before @ se_verify_url v (se_raw_token v) @ after" by blast
    have mail: "st_sent s' = st_sent s @ [m]" "ml_recipient m = pt_email x"
      using tokened(8) up x(4) by (simp_all add: m_def verification_email_def)
    obtain reply' s'' where ver: "verify_email_view exists js (se_raw_token v) now s' = (reply', s'')" by force
    have "(now \<le> se_now v + token_ttl \<and> reply_status reply' = 200 \<and>
        find_participant (st_db s'') (se_new_id v) = Some (x\<lparr>pt_joined_at := Some now\<rparr>)) \<or>
      (\<not> now \<le> se_now v + token_ttl \<and> s'' = s' \<and> reply_status reply' = 410)"
      using ver
    proof (cases rule: verify_view_cases)
      case (confirmed u)
      then have "u = ?t" using ft by simp
      moreover have "find (\<lambda>p. pt_id p = se_new_id v) (map (\<lambda>p. if pt_id p = se_new_id v then
          (if pt_joined_at p = None then p\<lparr>pt_joined_at := Some now\<rparr> else p) else p) (db_participants (st_db s'))) = Some (x\<lparr>pt_joined_at := Some now\<rparr>)"
        using find_map_update[of pt_id "\<lambda>p. if pt_joined_at p = None then p\<lparr>pt_joined_at := Some now\<rparr> else p" "se_new_id v" "se_new_id v" "db_participants (st_db s')"]
          fx x(2,3) by (simp add: find_participant_def)
      ultimately show ?thesis using confirmed t by (simp add: find_participant_def confirm_participant_def)
    qed (use ft t in \<open>auto simp: image_iff\<close>)
    moreover have "reply_status reply' = 200 \<Longrightarrow> tables_ok (st_db s'')"
      using site_step_ok[OF ok', of exists "ReqVerify js (se_raw_token v) now" reply' s''] ver by (simp add: site_step_def)
    moreover have "reply_status reply' = 200 \<Longrightarrow> token_used (se_raw_token v) (st_db s'')" using confirmed_used[OF ver] by blast
    ultimately have "(now \<le> se_now v + token_ttl \<and> reply_status reply' = 200 \<and>
        find_participant (st_db s'') (se_new_id v) = Some (x\<lparr>pt_joined_at := Some now\<rparr>) \<and>
        (\<forall>js2 later. snd (verify_email_view exists js2 (se_raw_token v) later s'') = s'' \<and>
            reply_status (fst (verify_email_view exists js2 (se_raw_token v) later s'')) = 410)) \<or>
      (\<not> now \<le> se_now v + token_ttl \<and> s'' = s' \<and> reply_status reply' = 410)"
      using used_not_confirmed by (metis prod.collapse)
    then show ?thesis using fx x(3) mail body ver by (intro exI[of _ x] exI[of _ m]) auto
  qed (use res in simp_all)
qed (use success in simp_all)

text \<open>When the mail of a registration cannot be sent, its participant is locked out: the request fails, nothing is
  sent, yet the participant stays in the database unconfirmed, and from then on every registration with that
  address for that event is refused as a duplicate.\<close>

theorem failed_mail_locks_out:
  assumes valid: "validate_registration_data (ModelEvent ev) data = Inr r" and ev: "find_event (st_db s) e = Some ev"
    and create: "create_registration v ev r s = (Inl MailFailed, s')"
    and new: "\<forall>p \<in> set (db_participants (st_db s)). pt_email p = rg_email r \<longrightarrow> pt_event p \<noteq> ev_id ev"
    and retry: "validate_registration_data (ModelEvent ev) data' = Inr r'" "rg_email r' = rg_email r"
  shows "reply_status (fst (register_view v True (Some e) (BodyJson data) s)) = 500 \<and>
    snd (register_view v True (Some e) (BodyJson data) s) = s' \<and> st_sent s' = st_sent s \<and>
    (\<exists>p \<in> set (db_participants (st_db s')). pt_email p = rg_email r \<and> pt_event p = ev_id ev \<and> pt_joined_at p = None) \<and>
    register_view v' True (Some e) (BodyJson data') s' =
      (error_reply 400 ''This email is already registered for this event.'' ''duplicate_email'', s')"
  using create
proof (cases rule: create_registration_cases)
  case (tokened p d1 d2)
  have sent: "st_sent s' = st_sent s" using tokened(7,8) by (auto split: if_splits)
  have "\<exists>x \<in> set (db_participants d2). pt_email x = rg_email r \<and> pt_event x = ev_id ev \<and> pt_joined_at x = None"
    using tokened(4) unfolding tokened(2,3) by (auto simp: set_tags_def)
  then have p: "\<exists>x \<in> set (db_participants (st_db s')). pt_email x = rg_email r \<and> pt_event x = ev_id ev \<and> pt_joined_at x = None"
    using tokened(6) by simp
  have ev': "find_event (st_db s') e = Some ev"
    using ev tokened(3,4,6) by (auto simp: find_event_def set_tags_def)
  have dup: "(\<exists>p \<in> set (db_participants (st_db s)). pt_email p = rg_email r \<and> pt_event p = ev_id ev) \<longleftrightarrow> False" using new by blast
  have first: "register_view v True (Some e) (BodyJson data) s =
      (error_reply 500 (''Registration failed: '' @ se_describe v MailFailed) ''server_error'', s')"
    by (simp add: register_view_def view_rate_limited_def ev valid create dup)
  have again: "register_view v' True (Some e) (BodyJson data') s' =
      (error_reply 400 ''This email is already registered for this event.'' ''duplicate_email'', s')"
    using p by (auto simp: register_view_def view_rate_limited_def ev' retry)
  show ?thesis using first again p sent by (simp add: error_reply_def)
qed simp_all

section \<open>A site\<close>

definition open_event :: event_row where
  "open_event = \<lparr>ev_id = UUID 7, ev_name = ''Mixer'', ev_description = [], ev_status = ES_RegistrationOpen, ev_num_rounds = 3,
     ev_round_duration = 300000000, ev_break_duration = 60000000, ev_start_time = 0, ev_scoring_weights = JObj [], ev_unique_tags = False\<rparr>"

definition new_site :: site where
  "new_site = \<lparr>st_db = empty_db\<lparr>db_events := [open_event]\<rparr>, st_sent = []\<rparr>"

definition ana_env :: "bool \<Rightarrow> site_env" where
  "ana_env up = \<lparr>se_fits = \<lambda>_. True, se_find_tags = \<lambda>_. None, se_verify_url = \<lambda>t. ''/verify/'' @ t, se_describe = \<lambda>_. ''error'',
     se_mail_up = up, se_new_id = UUID 21, se_raw_token = ''tok'', se_now = 1000\<rparr>"

definition ana_form :: json where
  "ana_form = JObj [(''display_name'', JStr '' Ana ''), (''email'', JStr ''ana@x.org''), (''age'', JStr ''30'')]"

definition ana :: registration where
  "ana = \<lparr>rg_display_name = ''Ana'', rg_age = Some 30, rg_gender = JStr ''Other/Prefer Not to Say'', rg_want_to_date = JStr ''Any'',
     rg_email = ''ana@x.org'', rg_whatsapp = JStr [], rg_tag_ids = JList [], rg_accepted_terms = JBool True\<rparr>"

lemma new_site_ok: "tables_ok (st_db new_site)"
  by (simp add: tables_ok_def new_site_def empty_db_def)

lemma ana_valid: "validate_registration_data (ModelEvent open_event) ana_form = Inr ana"
  by (simp add: validate_registration_data_def ana_form_def form_text_def py_strip_def strip_by_def py_isspace_def guardE_def
      py_or_def form_age_def int_of_text_def is_digit_def digits_value_def unique_tags_of_def open_event_def ana_def Let_def)

lemma new_site_event: "find_event (st_db new_site) (UUID 7) = Some open_event"
  by (simp add: find_event_def new_site_def open_event_def)

definition ana_site :: "bool \<Rightarrow> site" where
  "ana_site up = snd (create_registration (ana_env up) open_event ana new_site)"

lemma ana_created: "create_registration (ana_env up) open_event ana new_site =
    (if up then Inr (new_participant (UUID 21) open_event ana) else Inl MailFailed, ana_site up)"
  by (simp add: ana_site_def create_registration_def participant_fits_def ana_env_def new_site_def empty_db_def
      send_verification_email_def ana_def Let_def)

lemma ana_registered: "register_view (ana_env True) True (Some (UUID 7)) (BodyJson ana_form) new_site =
    (JsonReply 201 [(''message'', JStr ''Your registration has been successfully received. Please check your email.''),
       (''participant_id'', JStr (uuid_str (UUID 21)))], ana_site True)"
proof -
  have "db_participants (st_db new_site) = []" by (simp add: new_site_def empty_db_def)
  then show ?thesis
    by (simp add: register_view_def view_rate_limited_def new_site_event ana_valid ana_created)
qed

lemma registered_link_works_witness:
  "\<exists>reply' s'' p. verify_email_view (\<lambda>_. False) True ''tok'' 5000 (ana_site True) = (reply', s'') \<and> reply_status reply' = 200 \<and>
     find_participant (st_db s'') (UUID 21) = Some p \<and> pt_joined_at p = Some 5000"
  using registered_link_works[OF new_site_ok ana_registered, of 5000 "\<lambda>_. False" True]
  by (auto simp: ana_env_def token_ttl_def)

lemma nobody_registers_twice_witness:
  "tables_ok (st_db (snd (site_run (\<lambda>_. False)
     [ReqRegister (ana_env False) True (Some (UUID 7)) (BodyJson ana_form), ReqRegister (ana_env True) True (Some (UUID 7)) (BodyJson ana_form)] new_site)))"
  by (rule nobody_registers_twice[OF new_site_ok])

lemma link_confirms_once_witness:
  "length (filter (confirms ''tok'') (zip [ReqVerify True ''tok'' 5000, ReqVerify False ''tok'' 6000]
     (fst (site_run (\<lambda>_. False) [ReqVerify True ''tok'' 5000, ReqVerify False ''tok'' 6000] (ana_site True))))) \<le> 1"
proof (rule link_confirms_once)
  have "db_participants (st_db new_site) = []" by (simp add: new_site_def empty_db_def)
  then show "tables_ok (st_db (ana_site True))" using create_registration_ok[OF new_site_ok ana_created[of True]] by simp
qed

lemma failed_mail_locks_out_witness:
  "reply_status (fst (register_view (ana_env False) True (Some (UUID 7)) (BodyJson ana_form) new_site)) = 500 \<and>
     fst (register_view (ana_env True) True (Some (UUID 7)) (BodyJson ana_form) (ana_site False)) =
       error_reply 400 ''This email is already registered for this event.'' ''duplicate_email''"
proof -
  have "db_participants (st_db new_site) = []" by (simp add: new_site_def empty_db_def)
  then show ?thesis
    using failed_mail_locks_out[OF ana_valid new_site_event _ _ ana_valid, of "ana_env False" "ana_site False" "ana_env True"]
      ana_created[of False] by simp
qed

end
