(* ===== verification/Hmac_Sha1.thy ===== *)
theory Hmac_Sha1
  imports Sha256
begin

text \<open>
  \<open>base64.b64encode(hmac.new(key, msg, hashlib.sha1).digest())\<close> of texts of code points 0 to 255: SHA-1 of
  FIPS 180-4, HMAC of RFC 2104 and base64 of RFC 4648.
\<close>

unbundle bit_operations_syntax

section \<open>SHA-1\<close>

definition rotl :: "nat \<Rightarrow> word32 \<Rightarrow> word32" where
  "rotl n x = (push_bit n x) OR (drop_bit (32 - n) x)"

text \<open>The message schedule, kept newest first.\<close>

fun sha1_extend :: "nat \<Rightarrow> word32 list \<Rightarrow> word32 list" where
  "sha1_extend 0 ws = ws"
| "sha1_extend (Suc k) ws = sha1_extend k (rotl 1 ((ws ! 2) XOR (ws ! 7) XOR (ws ! 13) XOR (ws ! 15)) # ws)"

definition sha1_f :: "nat \<Rightarrow> word32 \<Rightarrow> word32 \<Rightarrow> word32 \<Rightarrow> word32 \<times> word32" where
  "sha1_f t b c d =
     (if t < 20 then ((b AND c) OR ((NOT b) AND d), of_nat 1518500249)
      else if t < 40 then (b XOR c XOR d, of_nat 1859775393)
      else if t < 60 then ((b AND c) OR (b AND d) OR (c AND d), of_nat 2400959708)
      else (b XOR c XOR d, of_nat 3395469782))"

fun sha1_step :: "nat \<times> word32 \<Rightarrow> word32 list \<Rightarrow> word32 list" where
  "sha1_step (t, w) [a, b, c, d, e] =
     (let (f, k) = sha1_f t b c d in [rotl 5 a + f + e + k + w, a, rotl 30 b, c, d])"
| "sha1_step _ st = st"

definition sha1_init :: "word32 list" where
  "sha1_init = map of_nat [1732584193, 4023233417, 2562383102, 271733878, 3285377520]"

definition sha1_block :: "word32 list \<Rightarrow> word32 list \<Rightarrow> word32 list" where
  "sha1_block ws st = map2 (+) st (fold sha1_step (zip [0..<80] (rev (sha1_extend 64 (rev ws)))) st)"

fun sha1_blocks :: "nat \<Rightarrow> word32 list \<Rightarrow> word32 list \<Rightarrow> word32 list" where
  "sha1_blocks 0 ws st = st"
| "sha1_blocks (Suc n) ws st = sha1_blocks n (drop 16 ws) (sha1_block (take 16 ws) st)"

definition bytes_of_word :: "word32 \<Rightarrow> nat list" where
  "bytes_of_word w = map (\<lambda>i. (unat w div 256 ^ (3 - i)) mod 256) [0..<4]"

definition sha1 :: "nat list \<Rightarrow> nat list" where
  "sha1 bs = (let ws = words_of_bytes (sha_pad bs) in
     concat (map bytes_of_word (sha1_blocks (length ws div 16) ws sha1_init)))"

section \<open>HMAC and base64\<close>

definition hmac_sha1 :: "nat list \<Rightarrow> nat list \<Rightarrow> nat list" where
  "hmac_sha1 key msg =
     (let k0 = (if 64 < length key then sha1 key else key);
          k = k0 @ replicate (64 - length k0) 0
      in sha1 (map (\<lambda>b. b XOR 92) k @ sha1 (map (\<lambda>b. b XOR 54) k @ msg)))"

definition b64_char :: "nat \<Rightarrow> char" where
  "b64_char n = char_of (if n < 26 then 65 + n else if n < 52 then 71 + n else if n < 62 then n - 4 else if n = 62 then 43 else 47)"

fun base64 :: "nat list \<Rightarrow> string" where
  "base64 [] = []"
| "base64 [a] = [b64_char (a div 4), b64_char ((a mod 4) * 16), CHR ''='', CHR ''='']"
| "base64 [a, b] = [b64_char (a div 4), b64_char ((a mod 4) * 16 + b div 16), b64_char ((b mod 16) * 4), CHR ''='']"
| "base64 (a # b # c # bs) =
     b64_char (a div 4) # b64_char ((a mod 4) * 16 + b div 16) # b64_char ((b mod 16) * 4 + c div 64) # b64_char (c mod 64) # base64 bs"

definition hmac_b64 :: "string \<Rightarrow> string \<Rightarrow> string" where
  "hmac_b64 key msg = base64 (hmac_sha1 (utf8 key) (utf8 msg))"

end
