(* ===== verification/Turn.thy ===== *)
theory Turn
  imports Py_Text Hmac_Sha1
begin

text \<open>
  Relay credentials of \<open>apps/events/turn.py\<close>. A setting is \<open>None\<close> where the project leaves it out, so that the
  defaults of \<open>getattr\<close> apply. \<open>now\<close> is \<open>int(time.time())\<close>.
\<close>

section \<open>Settings\<close>

record turn_settings =
  tc_region1_domain :: "string option"
  tc_port :: "int option"
  tc_tls_port :: "int option"
  tc_region2_domain :: "string option"
  tc_region2_port :: "int option"
  tc_region2_tls_port :: "int option"
  tc_coturn_secret :: "string option"
  tc_turn_secret :: "string option"
  tc_region2_secret :: "string option"
  tc_udp_transport_param :: "bool option"
  tc_credential_ttl :: "int option"
  tc_stun_url :: "string option"
  tc_turn_urls :: "string list option"

definition setting :: "'a option \<Rightarrow> 'a \<Rightarrow> 'a" where
  "setting x d = (case x of None \<Rightarrow> d | Some v \<Rightarrow> v)"

text \<open>\<open>getattr(settings, "X", "") or y\<close>.\<close>

definition text_or :: "string option \<Rightarrow> string \<Rightarrow> string" where
  "text_or x y = (if setting x [] = [] then y else setting x [])"

section \<open>The service\<close>

record turn_service =
  ts_domain :: string
  ts_port :: int
  ts_tls_port :: int
  ts_region2_domain :: string
  ts_region2_port :: int
  ts_region2_tls_port :: int
  ts_shared_secret :: string
  ts_region2_shared_secret :: string
  ts_udp_transport_param :: bool
  ts_ttl :: int

datatype turn_error = ImproperlyConfigured

text \<open>No second region is the empty domain.\<close>

definition new_turn_service :: "turn_settings \<Rightarrow> int option \<Rightarrow> turn_error + turn_service" where
  "new_turn_service c ttl =
     (let port = setting (tc_port c) 3478; tls_port = setting (tc_tls_port c) 5349;
          shared_secret = text_or (tc_coturn_secret c) (setting (tc_turn_secret c) []);
          service = \<lparr>ts_domain = setting (tc_region1_domain c) ''staging-turn.yourdomain.com'',
             ts_port = port, ts_tls_port = tls_port, ts_region2_domain = setting (tc_region2_domain c) [],
             ts_region2_port = setting (tc_region2_port c) port, ts_region2_tls_port = setting (tc_region2_tls_port c) tls_port,
             ts_shared_secret = shared_secret, ts_region2_shared_secret = text_or (tc_region2_secret c) shared_secret,
             ts_udp_transport_param = setting (tc_udp_transport_param c) True,
             ts_ttl = (case ttl of Some t \<Rightarrow> t | None \<Rightarrow> setting (tc_credential_ttl c) 1800)\<rparr>
      in if shared_secret = [] then Inl ImproperlyConfigured else Inr service)"

record ice_server =
  is_urls :: "string list"
  is_login :: "(string \<times> string) option"

record ice_config =
  ic_servers :: "ice_server list"
  ic_ttl :: int
  ic_expires_at :: "int option"
  ic_region :: "(string \<times> string list) option"
  ic_fallback_only :: bool

definition at_port :: "string \<Rightarrow> string \<Rightarrow> int \<Rightarrow> string" where
  "at_port scheme domain port = scheme @ '':'' @ domain @ '':'' @ show_int port"

definition turn_urls :: "turn_service \<Rightarrow> string \<Rightarrow> int \<Rightarrow> string list" where
  "turn_urls s domain port =
     (let udp_suffix = (if ts_udp_transport_param s then ''?transport=udp'' else [])
      in [at_port ''turn'' domain port @ udp_suffix, at_port ''turn'' domain port @ ''?transport=tcp''])"

definition turn_username :: "int \<Rightarrow> string \<Rightarrow> string" where
  "turn_username expiry_timestamp participant_id = show_int expiry_timestamp @ '':'' @ participant_id"

definition stun_entry :: "string \<Rightarrow> ice_server" where
  "stun_entry url = \<lparr>is_urls = [url], is_login = None\<rparr>"

definition relay_entry :: "string list \<Rightarrow> string \<Rightarrow> string \<Rightarrow> ice_server" where
  "relay_entry urls username secret = \<lparr>is_urls = urls, is_login = Some (username, hmac_b64 secret username)\<rparr>"

definition region_entries :: "turn_service \<Rightarrow> string \<Rightarrow> int \<Rightarrow> int \<Rightarrow> string \<Rightarrow> string \<Rightarrow> ice_server list" where
  "region_entries s domain port tls_port username secret =
     [stun_entry (at_port ''stun'' domain port),
      relay_entry (turn_urls s domain port) username secret,
      relay_entry [at_port ''turns'' domain tls_port @ ''?transport=tcp''] username secret]"

definition generate_credentials :: "turn_service \<Rightarrow> int \<Rightarrow> string \<Rightarrow> int option \<Rightarrow> ice_config" where
  "generate_credentials s now participant_id ttl =
     (let effective_ttl = (case ttl of Some t \<Rightarrow> t | None \<Rightarrow> ts_ttl s);
          expiry_timestamp = now + effective_ttl;
          username = turn_username expiry_timestamp participant_id;
          two = ts_region2_domain s \<noteq> []
      in \<lparr>ic_servers = region_entries s (ts_domain s) (ts_port s) (ts_tls_port s) username (ts_shared_secret s) @
            (if two then region_entries s (ts_region2_domain s) (ts_region2_port s) (ts_region2_tls_port s) username
               (ts_region2_shared_secret s) else []),
          ic_ttl = effective_ttl, ic_expires_at = Some expiry_timestamp,
          ic_region = Some (if two then (''multi-region'', [''region-1-staging'', ''region-2-staging''])
            else (''region-1-staging'', [''region-1-staging''])),
          ic_fallback_only = False\<rparr>)"

text \<open>\<open>ttl or x\<close> of an optional integer.\<close>

definition ttl_or :: "int option \<Rightarrow> int \<Rightarrow> int" where
  "ttl_or ttl x = (case ttl of None \<Rightarrow> x | Some t \<Rightarrow> if t = 0 then x else t)"

definition generate_ice_servers :: "turn_settings \<Rightarrow> int \<Rightarrow> string \<Rightarrow> int option \<Rightarrow> string option \<Rightarrow> string list option
    \<Rightarrow> turn_error + ice_config" where
  "generate_ice_servers c now participant_id ttl turn_secret urls =
     (let secret = (case turn_secret of Some s \<Rightarrow> s | None \<Rightarrow> text_or (tc_turn_secret c) (setting (tc_coturn_secret c) []));
          stun_url = setting (tc_stun_url c) ''stun:stun.l.google.com:19302''
      in if secret = [] then
           Inr \<lparr>ic_servers = [stun_entry stun_url], ic_ttl = ttl_or ttl 0, ic_expires_at = None, ic_region = None,
                ic_fallback_only = True\<rparr>
         else
           (let effective_turn_urls = (case urls of Some us \<Rightarrow> us | None \<Rightarrow> setting (tc_turn_urls c) [])
            in if effective_turn_urls \<noteq> [] then
                 (let effective_ttl = ttl_or ttl 1800;
                      expiry_timestamp = now + effective_ttl;
                      username = turn_username expiry_timestamp participant_id
                  in Inr \<lparr>ic_servers = [stun_entry stun_url, relay_entry effective_turn_urls username secret],
                          ic_ttl = effective_ttl, ic_expires_at = Some expiry_timestamp, ic_region = None,
                          ic_fallback_only = False\<rparr>)
               else bindE (new_turn_service c ttl) (\<lambda>service.
                      Inr (generate_credentials service now participant_id ttl))))"

section \<open>What a relay accepts\<close>

text \<open>
  The check of a relay with a shared secret (the TURN REST convention): the username begins with the
  expiry in decimal, which is not over, and the password is the keyed hash of the username.
\<close>

definition relay_accepts :: "string \<Rightarrow> int \<Rightarrow> string \<times> string \<Rightarrow> bool" where
  "relay_accepts secret clock login =
     (case int_of_text (takeWhile (\<lambda>c. c \<noteq> CHR '':'') (fst login)) of
        None \<Rightarrow> False
      | Some expiry \<Rightarrow> clock \<le> expiry \<and> snd login = hmac_b64 secret (fst login))"

end
