(* ===== verification/Views.thy ===== *)
theory Views
  imports Auth Turn
begin

text \<open>
  The participant's HTTP views, \<open>apps/events/views.py\<close>, over the database, the cache and the session of the
  request. A view returns its reply and what it leaves. \<open>Raised\<close> is an exception nobody catches, the 500 of
  the framework; what was written before it stays. Methods and CSRF are the decorators' business.
\<close>

section \<open>Replies\<close>

datatype view_reply = Json int pydict | Page string pydict | Raised

fun status_of :: "view_reply \<Rightarrow> int" where
  "status_of (Json n _) = n"
| "status_of (Page _ _) = 200"
| "status_of Raised = 500"

definition participant_json :: "participant_row \<Rightarrow> pydict" where
  "participant_json p =
     [(''id'', JStr (uuid_str (pt_id p))), (''display_name'', JStr (pt_name p)), (''event_id'', JStr (uuid_str (pt_event p)))]"

definition signed_in :: "participant_row \<Rightarrow> view_reply" where
  "signed_in p = Json 200 [(''authenticated'', JBool True), (''participant'', JObj (participant_json p))]"

definition view_error :: "int \<Rightarrow> string \<Rightarrow> string \<Rightarrow> pydict \<Rightarrow> view_reply" where
  "view_error code name message extra =
     Json code ((''error'', JObj [(''code'', JStr name), (''message'', JStr message)]) # extra)"

definition unauthenticated :: view_reply where
  "unauthenticated = Json 401 [(''error'', JStr ''Authentication required''), (''authenticated'', JBool False)]"

section \<open>Joining\<close>

text \<open>What a request meets: its clock and whether the cache answers; the channel layer.\<close>

record request_env =
  rq_now :: int
  rq_cache_up :: bool
  rq_layer :: channel_layer

record server =
  sv_db :: db
  sv_cache :: cache

text \<open>\<open>new_key\<close> is the key \<open>cycle_key\<close> gives the session. The cache deletions are not guarded.\<close>

definition join_participant :: "(string \<Rightarrow> string \<Rightarrow> bool) \<Rightarrow> request_env \<Rightarrow> string \<Rightarrow> string \<Rightarrow> web_session \<Rightarrow> server
    \<Rightarrow> view_reply \<times> web_session \<times> server \<times> outbox" where
  "join_participant check q token new_key session w =
     (case authenticate_join_token check token (rq_now q) (sv_db w) of
        Inl InvalidJoinToken \<Rightarrow>
          (view_error 400 ''join_token_invalid'' ''Invalid join token'' [(''authenticated'', JBool False)], session, w, [])
      | Inl ExpiredJoinToken \<Rightarrow>
          (view_error 410 ''join_token_expired'' ''Join token expired'' [(''authenticated'', JBool False)], session, w, [])
      | Inr (p, d) \<Rightarrow>
          (let (session', c) = establish_participant_session (rq_cache_up q) (rq_now q) new_key p (sv_cache w) in
           if \<not> rq_cache_up q then (Raised, session', \<lparr>sv_db = d, sv_cache = c\<rparr>, [])
           else (let (c', out) = invalidate_participant_sockets (rq_layer q) (pt_id p) c
                 in (signed_in p, session', \<lparr>sv_db = d, sv_cache = c'\<rparr>, out))))"

definition get_authenticated_participant :: "request_env \<Rightarrow> web_session \<Rightarrow> server \<Rightarrow> resolved" where
  "get_authenticated_participant q session w =
     resolve_participant_from_session (rq_cache_up q) (rq_now q) session (sv_cache w) (sv_db w)"

text \<open>The guard of the views: \<open>k\<close> is what follows for an authenticated participant.\<close>

definition authenticated :: "request_env \<Rightarrow> web_session \<Rightarrow> server \<Rightarrow> view_reply \<Rightarrow> (participant_row \<Rightarrow> view_reply) \<Rightarrow> view_reply" where
  "authenticated q session w refusal k =
     (case get_authenticated_participant q session w of ResolveRaised \<Rightarrow> Raised | Nobody \<Rightarrow> refusal | Resolved p \<Rightarrow> k p)"

definition current_participant :: "request_env \<Rightarrow> web_session \<Rightarrow> server \<Rightarrow> view_reply" where
  "current_participant q session w = authenticated q session w unauthenticated signed_in"

definition landing_page :: view_reply where
  "landing_page = Page ''events/landing.html'' []"

definition clock_sync_page :: "request_env \<Rightarrow> web_session \<Rightarrow> server \<Rightarrow> view_reply" where
  "clock_sync_page q session w = authenticated q session w unauthenticated (\<lambda>_. Page ''events/clock_sync.html'' [])"

section \<open>The video room\<close>

text \<open>\<open>order_by("-round__number").first()\<close> over the participant's pairs of the event.\<close>

definition round_number_of :: "db \<Rightarrow> pair_row \<Rightarrow> nat" where
  "round_number_of d p = (case find (\<lambda>r. rd_id r = pr_round p) (db_rounds d) of None \<Rightarrow> 0 | Some r \<Rightarrow> rd_number r)"

definition latest_pair :: "db \<Rightarrow> participant_row \<Rightarrow> pair_row option" where
  "latest_pair d p =
     (let ps = filter (\<lambda>x. pr_event x = pt_event p \<and> (pr_a x = pt_id p \<or> pr_b x = pt_id p)) (db_pairs d)
      in if ps = [] then None else Some (max_by (round_number_of d) ps))"

record room_settings =
  rm_warning_seconds :: "int option"
  rm_fallback_room :: "string option"
  rm_escalation_timeout_ms :: int

definition video_room_page :: "room_settings \<Rightarrow> request_env \<Rightarrow> web_session \<Rightarrow> server \<Rightarrow> view_reply" where
  "video_room_page c q session w = authenticated q session w unauthenticated (\<lambda>p.
     let (room_id, partner_id) = (case latest_pair (sv_db w) p of
           None \<Rightarrow> ([], [])
         | Some x \<Rightarrow> (pr_room_id x, uuid_str (if pr_a x = pt_id p then pr_b x else pr_a x)))
     in Page ''events/video_room.html''
          [(''room_id'', JStr room_id), (''partner_id'', JStr partner_id),
           (''warning_threshold_seconds'', JInt (setting (rm_warning_seconds c) 30)),
           (''media_fallback_room_id'', JStr (setting (rm_fallback_room c) [])),
           (''media_fallback_escalation_timeout_ms'', JInt (rm_escalation_timeout_ms c))])"

section \<open>Relay credentials\<close>

definition login_json :: "ice_server \<Rightarrow> json" where
  "login_json s = JObj ((''urls'', JList (map JStr (is_urls s))) # (case is_login s of None \<Rightarrow> []
     | Some (username, credential) \<Rightarrow> [(''username'', JStr username), (''credential'', JStr credential)]))"

definition ice_json :: "ice_config \<Rightarrow> pydict" where
  "ice_json c =
     (let servers = JList (map login_json (ic_servers c)) in
      [(''ice_servers'', servers), (''iceServers'', servers), (''ttl'', JInt (ic_ttl c)),
       (''expires_at'', case ic_expires_at c of None \<Rightarrow> JNull | Some t \<Rightarrow> JInt t)] @
      (case ic_region c of None \<Rightarrow> [] | Some (region, regions) \<Rightarrow>
        [(''region'', JStr region), (''regions'', JList (map JStr regions))]) @
      [(''fallback_only'', JBool (ic_fallback_only c))])"

text \<open>The \<open>ttl\<close> parameter of the query, clamped to one minute up to one day.\<close>

definition requested_ttl :: "string option \<Rightarrow> int" where
  "requested_ttl param =
     (case param of None \<Rightarrow> 3600
      | Some text \<Rightarrow> (case int_of_text text of None \<Rightarrow> 3600 | Some n \<Rightarrow> min (max n 60) 86400))"

definition ice_servers_view :: "turn_settings \<Rightarrow> string option \<Rightarrow> request_env \<Rightarrow> web_session \<Rightarrow> server \<Rightarrow> view_reply" where
  "ice_servers_view c param q session w =
     authenticated q session w (Json 401 [(''error'', JStr ''Authentication required''), (''code'', JStr ''UNAUTHORIZED'')]) (\<lambda>p.
       case generate_ice_servers c (rq_now q div 1000000) (uuid_str (pt_id p)) (Some (requested_ttl param)) None None of
         Inl ImproperlyConfigured \<Rightarrow> Raised
       | Inr config \<Rightarrow> Json 200 (ice_json config))"

text \<open>\<open>TurnCredentialsAPIView.get\<close>, for a user the framework has let through.\<close>

definition turn_credentials_view :: "turn_settings \<Rightarrow> int \<Rightarrow> uuid option \<Rightarrow> string \<Rightarrow> view_reply" where
  "turn_credentials_view c now profile user_id =
     (let participant_id = (case profile of Some i \<Rightarrow> uuid_str i | None \<Rightarrow> user_id) in
      case new_turn_service c None of
        Inl ImproperlyConfigured \<Rightarrow> Raised
      | Inr service \<Rightarrow> Json 200 (ice_json (generate_credentials service now participant_id None)))"

section \<open>Connection reports\<close>

fun connection_type_of :: "json \<Rightarrow> connection_type option" where
  "connection_type_of (JStr s) = (if s = ''direct'' then Some CT_Direct else if s = ''relay'' then Some CT_Relay else None)"
| "connection_type_of _ = None"

text \<open>\<open>isinstance(x, int)\<close> holds of truth values too.\<close>

fun int_instance :: "json \<Rightarrow> int option" where
  "int_instance (JInt i) = Some i"
| "int_instance (JBool b) = Some (if b then 1 else 0)"
| "int_instance _ = None"

text \<open>A bulk update and the number of rows it changed.\<close>

definition update_pairs :: "(pair_row \<Rightarrow> bool) \<Rightarrow> (pair_row \<Rightarrow> pair_row) \<Rightarrow> db \<Rightarrow> nat \<times> db" where
  "update_pairs P f d =
     (length (filter P (db_pairs d)), d\<lparr>db_pairs := map (\<lambda>p. if P p then f p else p) (db_pairs d)\<rparr>)"

definition record_a :: "connection_type \<Rightarrow> int \<Rightarrow> pair_row \<Rightarrow> pair_row" where
  "record_a t ms p = p\<lparr>pr_conn_type_a := Some t, pr_conn_time_a := Some ms\<rparr>"

definition record_b :: "connection_type \<Rightarrow> int \<Rightarrow> pair_row \<Rightarrow> pair_row" where
  "record_b t ms p = p\<lparr>pr_conn_type_b := Some t, pr_conn_time_b := Some ms\<rparr>"

definition max_positive_integer :: int where
  "max_positive_integer = 2147483647"

text \<open>\<open>None\<close> is a body that is no JSON. A time above the column's range makes the update raise.\<close>

definition submit_connection_report :: "(json \<Rightarrow> string) \<Rightarrow> json option \<Rightarrow> request_env \<Rightarrow> web_session \<Rightarrow> server \<Rightarrow> view_reply \<times> server" where
  "submit_connection_report repr_of body q session w =
     (case get_authenticated_participant q session w of
        ResolveRaised \<Rightarrow> (Raised, w)
      | Nobody \<Rightarrow> (view_error 401 ''unauthorized'' ''Participant session required'' [], w)
      | Resolved p \<Rightarrow>
          (case body of
             None \<Rightarrow> (view_error 400 ''invalid_json'' ''Malformed JSON payload'' [], w)
           | Some (JObj data) \<Rightarrow>
               (let room_id = get_or data ''room_id'' JNull; conn_type = connection_type_of (get_or data ''connection_type'' JNull) in
                case (truthy room_id, conn_type) of
                  (True, Some t) \<Rightarrow>
                    (case int_instance (get_or data ''connection_time_ms'' JNull) of
                       None \<Rightarrow> (view_error 400 ''invalid_payload'' ''connection_time_ms must be a non-negative integer'' [], w)
                     | Some ms \<Rightarrow>
                         if ms < 0 then (view_error 400 ''invalid_payload'' ''connection_time_ms must be a non-negative integer'' [], w)
                         else if max_positive_integer < ms then (Raised, w)
                         else
                           (let room = py_str repr_of room_id;
                                (updated_a, d1) = update_pairs (\<lambda>x. pr_room_id x = room \<and> pr_a x = pt_id p) (record_a t ms) (sv_db w)
                            in if updated_a \<noteq> 0 then (Json 200 [(''status'', JStr ''recorded'')], w\<lparr>sv_db := d1\<rparr>)
                               else
                                 (let (updated_b, d2) = update_pairs (\<lambda>x. pr_room_id x = room \<and> pr_b x = pt_id p) (record_b t ms) d1
                                  in if updated_b \<noteq> 0 then (Json 200 [(''status'', JStr ''recorded'')], w\<lparr>sv_db := d2\<rparr>)
                                     else (view_error 404 ''pair_not_found'' ''No matching pair found for this room and participant'' [], w\<lparr>sv_db := d2\<rparr>))))
                | _ \<Rightarrow> (view_error 400 ''invalid_payload'' ''Valid room_id and connection_type (direct/relay) required'' [], w))
           | Some _ \<Rightarrow> (Raised, w)))"

end
