(* ===== verification/Views_Props.thy ===== *)
theory Views_Props
  imports Views
begin

text \<open>
  What the participant's views promise: one usable session per participant, relay credentials that work for
  the time the reply names and no longer, and connection reports that touch the reporter's own side only.
\<close>

section \<open>One session per participant\<close>

lemma join_200:
  assumes "join_participant check q token key session w = (reply, session', w', out)" "status_of reply = 200"
  obtains p d where "authenticate_join_token check token (rq_now q) (sv_db w) = Inr (p, d)" "rq_cache_up q" "reply = signed_in p"
    "session' = \<lparr>ws_key = Some key, ws_participant = Some (uuid_str (pt_id p))\<rparr>" "sv_db w' = d"
    "sv_cache w' = fst (invalidate_participant_sockets (rq_layer q) (pt_id p)
       (remember_participant_session True (rq_now q) (pt_id p) (Some key) (sv_cache w)))"
  using assms unfolding join_participant_def view_error_def establish_participant_session_def
  by (auto simp: Let_def split: sum.splits join_error.splits prod.splits if_splits)

lemma authenticated_row:
  assumes "authenticate_join_token check token now d = Inr (p, d')" "distinct (map pt_id (db_participants d))"
  shows "find_participant d' (pt_id p) = Some p"
proof -
  let ?found = "filter (\<lambda>x. pt_token_digest x = sha256_hex token) (db_participants d)"
  define r where "r = min_by pt_id ?found"
  have ne: "?found \<noteq> []" using assms(1) by (auto simp: authenticate_join_token_def Let_def split: if_splits)
  have r: "r \<in> set (db_participants d)" using min_by_in[OF ne, of pt_id] by (simp add: r_def)
  have "find (\<lambda>x. pt_id x = pt_id r) ps = Some r" if "distinct (map pt_id ps)" "r \<in> set ps" for ps
    using that by (induction ps) auto
  then have row: "find_participant d (pt_id r) = Some r" using assms(2) r by (simp add: find_participant_def)
  consider "p = r" "d' = d" | "p = r\<lparr>pt_joined_at := Some now\<rparr>" "d' = update_participant (pt_id r) (\<lambda>x. x\<lparr>pt_joined_at := Some now\<rparr>) d"
    using assms(1) unfolding authenticate_join_token_def Let_def r_def[symmetric]
    by (simp split: if_splits)
  then show ?thesis
  proof cases
    case 2
    have "find_participant d' (pt_id r) = map_option (\<lambda>p. if pt_id p = pt_id r then p\<lparr>pt_joined_at := Some now\<rparr> else p) (find_participant d (pt_id r))"
      unfolding 2(2) by (rule find_participant_update) simp
    then show ?thesis using row 2(1) by simp
  qed (use row in simp)
qed

lemma session_key_not_socket_keys:
  "participant_session_cache_key i \<noteq> connection_channel_key j" "participant_session_cache_key i \<noteq> absence_generation_key j"
  by (simp_all add: participant_session_cache_key_def connection_channel_key_def absence_generation_key_def)

lemma remembered_session:
  assumes "key \<noteq> []" "now \<le> clk" "clk < now + 30 * 24 * 60 * 60 * 1000000"
  shows "cache_get (fst (invalidate_participant_sockets layer i (remember_participant_session True now i (Some key) c))) clk
    (participant_session_cache_key i) = Some (CText key)"
  using assms session_key_not_socket_keys[of i i]
  by (simp add: invalidate_participant_sockets_def remember_participant_session_def participant_session_age_def)

text \<open>C22. Opening a personal link hands the participant over to that browser: for the next 30 days its session is the
  participant's, and the session of any browser that used the link before is refused, while the cache answers.\<close>

theorem join_takes_the_participant_over:
  assumes keys: "distinct (map pt_id (db_participants (sv_db w)))" and width: "\<forall>p \<in> set (db_participants (sv_db w)). uuid_int (pt_id p) < 2 ^ 128"
    and join: "join_participant check q token key session w = (reply, session', w', out)" and ok: "status_of reply = 200" "key \<noteq> []"
    and later: "rq_cache_up q'" "rq_now q \<le> rq_now q'" "rq_now q' < rq_now q + 30 * 24 * 60 * 60 * 1000000"
    and other: "ws_participant old = ws_participant session'" "ws_key old \<noteq> Some key"
  shows "current_participant q' session' w' = reply \<and> current_participant q' old w' = unauthenticated"
proof -
  obtain p d where p: "authenticate_join_token check token (rq_now q) (sv_db w) = Inr (p, d)" "reply = signed_in p"
    "session' = \<lparr>ws_key = Some key, ws_participant = Some (uuid_str (pt_id p))\<rparr>" "sv_db w' = d"
    "sv_cache w' = fst (invalidate_participant_sockets (rq_layer q) (pt_id p)
       (remember_participant_session True (rq_now q) (pt_id p) (Some key) (sv_cache w)))"
    using join_200[OF join ok(1)] by metis
  have row: "find_participant d (pt_id p) = Some p" by (rule authenticated_row[OF p(1) keys])
  have "pt_id p \<in> pt_id ` set (db_participants d)" using row by (auto simp: find_participant_def find_Some_iff)
  moreover have "map pt_id (db_participants d) = map pt_id (db_participants (sv_db w))"
    using p(1) by (auto simp: authenticate_join_token_def Let_def update_participant_def split: if_splits)
  ultimately have "uuid_int (pt_id p) < 2 ^ 128" using width by (metis (no_types, lifting) imageE image_set)
  then have read: "uuid_of_string (uuid_str (pt_id p)) = Some (pt_id p)" by (rule uuid_of_string_str)
  have "uuid_str (pt_id p) \<noteq> []" by (simp add: uuid_str_def Let_def)
  moreover have "cache_get (sv_cache w') (rq_now q') (participant_session_cache_key (pt_id p)) = Some (CText key)"
    unfolding p(5) by (rule remembered_session[OF ok(2) later(2,3)])
  ultimately show ?thesis using row read later(1) other ok(2) p(2,3,4)
    by (simp add: current_participant_def authenticated_def get_authenticated_participant_def resolve_participant_from_session_def
        session_matches_participant_def)
qed

section \<open>Connection reports\<close>

text \<open>Reporting changes the reporter's own side of a row, or nothing.\<close>

definition own_side_update :: "uuid \<Rightarrow> string \<Rightarrow> (pair_row \<Rightarrow> pair_row) \<Rightarrow> bool" where
  "own_side_update i room g \<longleftrightarrow> (\<exists>t ms. 0 \<le> ms \<and> ms \<le> max_positive_integer \<and>
     ((\<forall>x. g x = (if pr_room_id x = room \<and> pr_a x = i then record_a t ms x else x)) \<or>
      (\<forall>x. g x = (if pr_room_id x = room \<and> pr_b x = i then record_b t ms x else x))))"

lemma update_none:
  assumes "fst (update_pairs P f d) = 0"
  shows "snd (update_pairs P f d) = d"
proof -
  have "\<forall>x \<in> set (db_pairs d). \<not> P x" using assms by (simp add: update_pairs_def filter_empty_conv)
  then have "map (\<lambda>p. if P p then f p else p) (db_pairs d) = db_pairs d" by (induction "db_pairs d") (auto intro: map_idI)
  then show ?thesis by (simp add: update_pairs_def)
qed

text \<open>A connection report can only be made by a participant about itself: it is recorded exactly when the named
  room is one of the reporter's pairs, it then changes the kind and time of the reporter's own side of that
  room and nothing else in the database, and a report that is refused changes nothing at all.\<close>

theorem report_only_own_side:
  assumes "submit_connection_report repr_of body q session w = (reply, w')"
  shows "if status_of reply = 200 then
      (\<exists>p room g. get_authenticated_participant q session w = Resolved p \<and> own_side_update (pt_id p) room g \<and>
        w' = w\<lparr>sv_db := (sv_db w)\<lparr>db_pairs := map g (db_pairs (sv_db w))\<rparr>\<rparr> \<and>
        (\<exists>x \<in> set (db_pairs (sv_db w)). pr_room_id x = room \<and> (pr_a x = pt_id p \<or> pr_b x = pt_id p)))
    else w' = w"
proof (cases "get_authenticated_participant q session w")
  case (Resolved p)
  show ?thesis
  proof (cases "\<exists>data t ms. body = Some (JObj data) \<and> truthy (get_or data ''room_id'' JNull) \<and>
      connection_type_of (get_or data ''connection_type'' JNull) = Some t \<and>
      int_instance (get_or data ''connection_time_ms'' JNull) = Some ms \<and> 0 \<le> ms \<and> ms \<le> max_positive_integer")
    case False
    then show ?thesis using assms Resolved
      by (auto simp: submit_connection_report_def view_error_def Let_def split: option.splits json.splits if_splits bool.splits)
  next
    case True
    then obtain data t ms where d: "body = Some (JObj data)" "truthy (get_or data ''room_id'' JNull)"
      "connection_type_of (get_or data ''connection_type'' JNull) = Some t"
      "int_instance (get_or data ''connection_time_ms'' JNull) = Some ms" "0 \<le> ms" "ms \<le> max_positive_integer" by blast
    define room where "room = py_str repr_of (get_or data ''room_id'' JNull)"
    let ?A = "\<lambda>x. pr_room_id x = room \<and> pr_a x = pt_id p" and ?B = "\<lambda>x. pr_room_id x = room \<and> pr_b x = pt_id p"
    let ?ua = "update_pairs ?A (record_a t ms) (sv_db w)"
    let ?ub = "update_pairs ?B (record_b t ms) (snd ?ua)"
    have eq: "(reply, w') = (if fst ?ua \<noteq> 0 then (Json 200 [(''status'', JStr ''recorded'')], w\<lparr>sv_db := snd ?ua\<rparr>)
        else if fst ?ub \<noteq> 0 then (Json 200 [(''status'', JStr ''recorded'')], w\<lparr>sv_db := snd ?ub\<rparr>)
        else (view_error 404 ''pair_not_found'' ''No matching pair found for this room and participant'' [], w\<lparr>sv_db := snd ?ub\<rparr>))"
      unfolding assms[symmetric] using d Resolved
      by (simp add: submit_connection_report_def Let_def room_def split: prod.splits)
    consider (a) "fst ?ua \<noteq> 0" | (b) "fst ?ua = 0" "fst ?ub \<noteq> 0" | (none) "fst ?ua = 0" "fst ?ub = 0" by blast
    then show ?thesis
    proof cases
      case a
      define g where "g x = (if ?A x then record_a t ms x else x)" for x
      have "own_side_update (pt_id p) room g" using d(5,6) by (auto simp: own_side_update_def g_def)
      moreover have "snd ?ua = (sv_db w)\<lparr>db_pairs := map g (db_pairs (sv_db w))\<rparr>" by (simp add: update_pairs_def g_def cong: map_cong)
      moreover have "\<exists>x \<in> set (db_pairs (sv_db w)). ?A x" using a by (auto simp: update_pairs_def filter_empty_conv)
      ultimately show ?thesis using eq a Resolved by auto
    next
      case b
      define g where "g x = (if ?B x then record_b t ms x else x)" for x
      have "own_side_update (pt_id p) room g" using d(5,6) by (auto simp: own_side_update_def g_def)
      moreover have "snd ?ub = (sv_db w)\<lparr>db_pairs := map g (db_pairs (sv_db w))\<rparr>"
        unfolding update_none[OF b(1)] by (simp add: update_pairs_def g_def cong: map_cong)
      moreover have "\<exists>x \<in> set (db_pairs (sv_db w)). ?B x"
        using b(2) unfolding update_none[OF b(1)] by (auto simp: update_pairs_def filter_empty_conv)
      ultimately show ?thesis using eq b Resolved by auto
    next
      case none
      then have "snd ?ub = sv_db w" using update_none[OF none(1)] update_none[OF none(2)] by simp
      then show ?thesis using eq none by (simp add: view_error_def)
    qed
  qed
qed (use assms in \<open>auto simp: submit_connection_report_def view_error_def\<close>)

section \<open>Relay credentials\<close>

lemma requested_ttl_range: "60 \<le> requested_ttl param \<and> requested_ttl param \<le> 86400"
  by (auto simp: requested_ttl_def split: option.splits)

lemma turn_username_expiry:
  assumes "0 \<le> e" "e < 10 ^ 20"
  shows "int_of_text (takeWhile (\<lambda>c. c \<noteq> CHR '':'') (turn_username e who)) = Some e"
proof -
  have "takeWhile (\<lambda>c. c \<noteq> CHR '':'') (show_nat (nat e) @ CHR '':'' # who) = show_nat (nat e)"
  proof (subst takeWhile_append2)
    fix c assume "c \<in> set (show_nat (nat e))"
    then have "is_digit c" by (rule show_nat_digits)
    then show "c \<noteq> CHR '':''" by (auto simp: is_digit_def)
  qed simp
  moreover have "turn_username e who = show_nat (nat e) @ CHR '':'' # who" using assms(1) by (simp add: turn_username_def show_int_def)
  moreover have "length (show_nat (nat e)) \<le> 20" using assms by (intro length_show_nat) (simp_all add: nat_less_iff)
  then have "int_of_text (show_nat (nat e)) = Some (int (nat e))" by (intro int_of_text_show) simp
  ultimately show ?thesis using assms(1) by simp
qed

lemma relay_accepts_entry:
  assumes "0 \<le> e" "e < 10 ^ 20"
  shows "relay_accepts secret clock (turn_username e who, hmac_b64 secret (turn_username e who)) \<longleftrightarrow> clock \<le> e"
  using turn_username_expiry[OF assms, of who] by (simp add: relay_accepts_def)

lemma region_logins:
  "s \<in> set (region_entries v domain port tls username secret) \<Longrightarrow> is_login s = None \<or> is_login s = Some (username, hmac_b64 secret username)"
  "\<exists>s \<in> set (region_entries v domain port tls username secret). is_login s \<noteq> None"
  by (auto simp: region_entries_def stun_entry_def relay_entry_def)

text \<open>The secrets a relay of the deployment may have.\<close>

definition relay_secrets :: "turn_settings \<Rightarrow> string set" where
  "relay_secrets c = set (map (\<lambda>x. setting x []) [tc_coturn_secret c, tc_turn_secret c, tc_region2_secret c]) - {[]}"

lemma text_or_cases: "text_or x y = setting x [] \<or> text_or x y = y"
  by (simp add: text_or_def)

lemma ice_servers_logins:
  assumes secret: "text_or (tc_turn_secret c) (setting (tc_coturn_secret c) []) \<noteq> []" and ttl: "0 < ttl"
  obtains config where "generate_ice_servers c now who (Some ttl) None None = Inr config"
    "ic_expires_at config = Some (now + ttl)" "ic_ttl config = ttl" "\<not> ic_fallback_only config" "\<exists>s \<in> set (ic_servers config). is_login s \<noteq> None"
    "\<forall>s \<in> set (ic_servers config). \<forall>login. is_login s = Some login \<longrightarrow>
       (\<exists>secret \<in> relay_secrets c. login = (turn_username (now + ttl) who, hmac_b64 secret (turn_username (now + ttl) who)))"
proof (cases "setting (tc_turn_urls c) [] = []")
  case False
  have "text_or (tc_turn_secret c) (setting (tc_coturn_secret c) []) \<in> relay_secrets c"
    using secret text_or_cases[of "tc_turn_secret c" "setting (tc_coturn_secret c) []"] by (auto simp: relay_secrets_def)
  then show ?thesis using False secret ttl
    by (intro that[of "projr (generate_ice_servers c now who (Some ttl) None None)"])
      (auto simp: generate_ice_servers_def Let_def ttl_or_def stun_entry_def relay_entry_def)
next
  case True
  have ne: "text_or (tc_coturn_secret c) (setting (tc_turn_secret c) []) \<noteq> []" using secret by (auto simp: text_or_def split: if_splits)
  then obtain v where v: "new_turn_service c (Some ttl) = Inr v" by (auto simp: new_turn_service_def Let_def)
  have shared: "ts_shared_secret v \<in> relay_secrets c" "ts_region2_shared_secret v \<in> relay_secrets c"
    using v ne by (auto simp: new_turn_service_def Let_def relay_secrets_def text_or_def split: if_splits)
  let ?config = "generate_credentials v now who (Some ttl)" and ?u = "turn_username (now + ttl) who"
  have gen: "generate_ice_servers c now who (Some ttl) None None = Inr ?config"
    using True secret v by (simp add: generate_ice_servers_def Let_def)
  have logins: "\<exists>secret \<in> relay_secrets c. login = (?u, hmac_b64 secret ?u)" if "s \<in> set (ic_servers ?config)" "is_login s = Some login" for s login
    using that shared region_logins(1) by (fastforce simp: generate_credentials_def Let_def split: if_splits)
  have some: "\<exists>s \<in> set (ic_servers ?config). is_login s \<noteq> None"
    using region_logins(2)[of v "ts_domain v" "ts_port v" "ts_tls_port v" ?u "ts_shared_secret v"] by (auto simp: generate_credentials_def Let_def)
  show ?thesis
    by (rule that[OF gen _ _ _ some]) (use logins in \<open>simp_all add: generate_credentials_def Let_def\<close>)
qed


section \<open>One participant with a pair\<close>

definition day_env :: "int \<Rightarrow> request_env" where
  "day_env t = \<lparr>rq_now = t, rq_cache_up = True, rq_layer = None\<rparr>"

definition lone_server :: server where
  "lone_server = \<lparr>sv_db = lone_db\<lparr>db_participants := [lone_participant\<lparr>pt_token_hash := ''p1_x'', pt_token_digest := sha256_hex ''p1_x''\<rparr>],
     db_pairs := [\<lparr>pr_id = UUID 50, pr_event = UUID 7, pr_round = UUID 30, pr_a = UUID 3, pr_b = UUID 4, pr_status = PA_Pending,
       pr_room_id = ''room-5'', pr_path_type = PT_Direct, pr_conn_type_a = None, pr_conn_time_a = None, pr_conn_type_b = None,
       pr_conn_time_b = None\<rparr>]\<rparr>, sv_cache = Map.empty\<rparr>"

definition lone_session :: web_session where
  "lone_session = \<lparr>ws_key = Some ''new'', ws_participant = Some (uuid_str (UUID 3))\<rparr>"

lemma lone_resolved: "\<exists>p. get_authenticated_participant (day_env 0) lone_session lone_server = Resolved p \<and> pt_id p = UUID 3"
proof -
  have "uuid_str (UUID 3) \<noteq> []" by (simp add: uuid_str_def Let_def)
  then show ?thesis using uuid_of_string_str[of "UUID 3"]
    by (simp add: get_authenticated_participant_def resolve_participant_from_session_def lone_session_def lone_server_def
        find_participant_def lone_participant_def session_matches_participant_def cache_get_def day_env_def)
qed

lemma join_takes_the_participant_over_witness:
  "\<exists>session' w' out p. join_participant (=) (day_env 5) ''p1_x'' ''new'' \<lparr>ws_key = None, ws_participant = None\<rparr> lone_server =
      (signed_in p, session', w', out) \<and>
     current_participant (day_env 9) \<lparr>ws_key = Some ''old'', ws_participant = Some (uuid_str (UUID 3))\<rparr> w' = unauthenticated"
proof -
  obtain p d where a: "authenticate_join_token (=) ''p1_x'' 5 (sv_db lone_server) = Inr (p, d)" "pt_id p = UUID 3"
    by (simp add: authenticate_join_token_def lone_server_def lone_participant_def token_prefix_def
        verify_join_token_of_def token_is_expired_def Let_def)
  then obtain session' w' out where j: "join_participant (=) (day_env 5) ''p1_x'' ''new'' \<lparr>ws_key = None, ws_participant = None\<rparr> lone_server =
      (signed_in p, session', w', out)" and s: "session' = \<lparr>ws_key = Some ''new'', ws_participant = Some (uuid_str (UUID 3))\<rparr>"
    by (simp add: join_participant_def establish_participant_session_def day_env_def invalidate_participant_sockets_def)
  have "distinct (map pt_id (db_participants (sv_db lone_server)))" "\<forall>p \<in> set (db_participants (sv_db lone_server)). uuid_int (pt_id p) < 2 ^ 128"
    by (simp_all add: lone_server_def lone_participant_def)
  from join_takes_the_participant_over[OF this j, of "day_env 9" "\<lparr>ws_key = Some ''old'', ws_participant = Some (uuid_str (UUID 3))\<rparr>"]
  show ?thesis using j s by (auto simp: signed_in_def day_env_def)
qed

lemma report_only_own_side_witness:
  "\<exists>reply w'. submit_connection_report (\<lambda>_. []) (Some (JObj [(''room_id'', JStr ''room-6''), (''connection_type'', JStr ''relay''),
      (''connection_time_ms'', JInt 800)])) (day_env 0) lone_session lone_server = (reply, w') \<and> status_of reply = 404 \<and> w' = lone_server"
proof -
  let ?body = "Some (JObj [(''room_id'', JStr ''room-6''), (''connection_type'', JStr ''relay''), (''connection_time_ms'', JInt 800)])"
  obtain reply w' where r: "submit_connection_report (\<lambda>_. []) ?body (day_env 0) lone_session lone_server = (reply, w')" by force
  moreover have "status_of reply = 404"
    using lone_resolved r
    by (auto simp: submit_connection_report_def lone_server_def update_pairs_def view_error_def max_positive_integer_def Let_def)
  ultimately show ?thesis using report_only_own_side[OF r] by auto
qed

definition relay_settings :: turn_settings where
  "relay_settings = \<lparr>tc_region1_domain = None, tc_port = None, tc_tls_port = None, tc_region2_domain = Some ''r2.example'',
     tc_region2_port = None, tc_region2_tls_port = None, tc_coturn_secret = Some ''s1'', tc_turn_secret = None,
     tc_region2_secret = Some ''s2'', tc_udp_transport_param = None, tc_credential_ttl = None, tc_stun_url = None, tc_turn_urls = None\<rparr>"



end
