(* ===== verification/Report.thy ===== *)
theory Report
  imports Matching_Total
begin

text \<open>
  The matching report of \<open>apps/events/report.py\<close>: the metrics of each round and the totals the operator sees
  before a schedule is locked. \<open>sum\<close> of floats is the compensated sum of Python 3.12.
\<close>

section \<open>Sums and percentiles\<close>

text \<open>One step of the sum: the running total and the running compensation.\<close>

fun comp_step :: "rat \<times> rat \<Rightarrow> rat \<Rightarrow> rat \<times> rat" where
  "comp_step (hi, lo) x =
     (let t = fl64 (hi + x) in
      (t, if \<bar>x\<bar> \<le> \<bar>hi\<bar> then fl64 (lo + fl64 (fl64 (hi - t) + x)) else fl64 (lo + fl64 (fl64 (x - t) + hi))))"

definition py_sum :: "rat list \<Rightarrow> rat" where
  "py_sum xs = (let (hi, lo) = foldl comp_step (0, 0) xs in if lo = 0 then hi else fl64 (hi + lo))"

text \<open>
  \<open>statistics.quantiles(scores, n=10, method="inclusive")[0]\<close>: the sorted scores interpolated at a tenth of the
  last index.
\<close>

definition percentile10 :: "rat list \<Rightarrow> rat" where
  "percentile10 scores =
     (if scores = [] then 0
      else if length scores = 1 then hd scores
      else
        (let ordered = sort scores; m = length ordered - 1; j = m div 10; delta = m mod 10
         in fl64 (fl64 (fl64 (ordered ! j * of_nat (10 - delta)) + fl64 (ordered ! (j + 1) * of_nat delta)) / 10)))"

section \<open>The report\<close>

record round_report =
  rr_number :: nat
  rr_pair_count :: nat
  rr_avg_score :: rat
  rr_p10_score :: rat
  rr_zero_tag_pairs :: nat
  rr_unmatched_pid :: "string option"

record matching_report =
  mr_rounds :: "round_report list"
  mr_total_pairs :: nat
  mr_total_zero_tag_pairs :: nat
  mr_bye_distribution :: "(string \<times> nat) list"
  mr_violation_count :: nat
  mr_violations :: "schedule_violation list"

definition can_lock :: "matching_report \<Rightarrow> bool" where
  "can_lock m \<longleftrightarrow> mr_violation_count m = 0"

text \<open>A score that is no finite float is outside the model: the engine never produces one.\<close>

fun finite_scores :: "schedule_pair list \<Rightarrow> rat list option" where
  "finite_scores [] = Some []"
| "finite_scores (sp # sps) =
     (case (sp_score sp, finite_scores sps) of (Fin x, Some xs) \<Rightarrow> Some (x # xs) | _ \<Rightarrow> None)"

definition round_report_of :: "schedule_round \<Rightarrow> rat list \<Rightarrow> round_report" where
  "round_report_of rnd scores =
     \<lparr>rr_number = sr_number rnd, rr_pair_count = length (sr_pairs rnd),
      rr_avg_score = (if scores = [] then 0 else fl64 (py_sum scores / of_nat (length scores))),
      rr_p10_score = percentile10 scores, rr_zero_tag_pairs = length (filter (\<lambda>x. x = 0) scores),
      rr_unmatched_pid = sr_unmatched_pid rnd\<rparr>"

text \<open>An empty identifier counts as no bye.\<close>

definition count_bye :: "(string \<times> nat) list \<Rightarrow> schedule_round \<Rightarrow> (string \<times> nat) list" where
  "count_bye byes rnd =
     (case sr_unmatched_pid rnd of None \<Rightarrow> byes | Some p \<Rightarrow> if p = [] then byes else bump byes p)"

definition report_step :: "matching_report \<Rightarrow> schedule_round \<Rightarrow> rat list \<Rightarrow> matching_report" where
  "report_step m rnd scores =
     m\<lparr>mr_rounds := mr_rounds m @ [round_report_of rnd scores],
       mr_total_pairs := mr_total_pairs m + length (sr_pairs rnd),
       mr_total_zero_tag_pairs := mr_total_zero_tag_pairs m + length (filter (\<lambda>x. x = 0) scores),
       mr_bye_distribution := count_bye (mr_bye_distribution m) rnd\<rparr>"

fun report_rounds :: "matching_report \<Rightarrow> generated_schedule \<Rightarrow> matching_report option" where
  "report_rounds m [] = Some m"
| "report_rounds m (rnd # rnds) =
     Option.bind (finite_scores (sr_pairs rnd)) (\<lambda>scores. report_rounds (report_step m rnd scores) rnds)"

definition build_report :: "generated_schedule \<Rightarrow> schedule_violation list \<Rightarrow> matching_report option" where
  "build_report schedule violations = report_rounds
     \<lparr>mr_rounds = [], mr_total_pairs = 0, mr_total_zero_tag_pairs = 0, mr_bye_distribution = [],
      mr_violation_count = length violations, mr_violations = violations\<rparr> schedule"

section \<open>The percentile\<close>

lemma sorted_bounds:
  assumes "k < length xs"
  shows "sort xs ! k \<in> set xs"
  using assms nth_mem[of k "sort xs"] by simp

lemma interpolation_error:
  assumes ab: "0 \<le> a" "a \<le> b" "b \<le> (1::rat)" and d: "d \<le> 9"
  shows "a - 1 / 2 ^ 48 \<le> fl64 (fl64 (fl64 (a * of_nat (10 - d)) + fl64 (b * of_nat d)) / 10)"
    and "fl64 (fl64 (fl64 (a * of_nat (10 - d)) + fl64 (b * of_nat d)) / 10) \<le> b + 1 / 2 ^ 48"
proof -
  define c where "c = (of_nat (10 - d) :: rat)"
  define e where "e = (of_nat d :: rat)"
  have ce: "c + e = 10" "0 \<le> c" "0 \<le> e" "e \<le> 9" using d by (auto simp: c_def e_def of_nat_diff)
  have le: "a * c \<le> c" "b * e \<le> e" using ab ce mult_right_mono[of a 1 c] mult_right_mono[of b 1 e] by auto
  have ge: "0 \<le> a * c" "0 \<le> b * e" using ab ce by simp_all
  define z :: rat where "z = 1 / 2 ^ 50"
  have z: "0 \<le> z" "z \<le> 1" "1 / 2 ^ 48 = 4 * z" by (simp_all add: z_def)
  note err = fl64_error_16[folded z_def]
  have p: "\<bar>fl64 (a * c) - a * c\<bar> \<le> z" "\<bar>fl64 (b * e) - b * e\<bar> \<le> z"
    using err[OF ge(1)] err[OF ge(2)] le ce by linarith+
  have n: "0 \<le> fl64 (a * c)" "0 \<le> fl64 (b * e)" using ge fl64_nonneg by simp_all
  have s: "0 \<le> fl64 (a * c) + fl64 (b * e)" "fl64 (a * c) + fl64 (b * e) < 16" using n p le ce z by linarith+
  define w where "w = fl64 (fl64 (a * c) + fl64 (b * e))"
  have w: "\<bar>w - (a * c + b * e)\<bar> \<le> 3 * z" "0 \<le> w" using p err[OF s] fl64_nonneg[OF s(1)] unfolding w_def by linarith+
  have "a * c \<le> b * c" "a * e \<le> b * e" using ab(2) ce(2,3) by (simp_all add: mult_right_mono)
  moreover have "x * 10 = x * c + x * e" for x by (simp add: distrib_left flip: ce(1))
  ultimately have ac: "a * 10 \<le> a * c + b * e" "a * c + b * e \<le> b * 10" by simp_all
  then have q: "a - 3 * z \<le> w / 10" "w / 10 \<le> b + 3 * z" "0 \<le> w / 10" "w / 10 < 16" using w z ab by linarith+
  from err[OF q(3,4)] have "a - 4 * z \<le> fl64 (w / 10)" "fl64 (w / 10) \<le> b + 4 * z" using q by linarith+
  then show "a - 1 / 2 ^ 48 \<le> fl64 (fl64 (fl64 (a * of_nat (10 - d)) + fl64 (b * of_nat d)) / 10)"
    "fl64 (fl64 (fl64 (a * of_nat (10 - d)) + fl64 (b * of_nat d)) / 10) \<le> b + 1 / 2 ^ 48"
    unfolding z(3) by (simp_all only: w_def c_def e_def)
qed

text \<open>Two neighbours in the order carry the percentile.\<close>

lemma percentile10_neighbours:
  assumes "1 < length scores"
  obtains a b d where "a \<in> set scores" "b \<in> set scores" "a \<le> b" "d \<le> 9"
    "percentile10 scores = fl64 (fl64 (fl64 (a * of_nat (10 - d)) + fl64 (b * of_nat d)) / 10)"
proof -
  let ?m = "length scores - 1"
  have lt: "?m div 10 + 1 < length scores" using assms by linarith
  then have "sort scores ! (?m div 10) \<le> sort scores ! (?m div 10 + 1)" by (intro sorted_nth_mono) simp_all
  moreover have "?m mod 10 \<le> 9" using mod_less_divisor[of 10 ?m] by linarith
  moreover have "percentile10 scores = fl64 (fl64 (fl64 (sort scores ! (?m div 10) * of_nat (10 - ?m mod 10)) +
      fl64 (sort scores ! (?m div 10 + 1) * of_nat (?m mod 10))) / 10)"
    using assms by (auto simp: percentile10_def Let_def)
  ultimately show ?thesis using that sorted_bounds[of "?m div 10" scores] sorted_bounds[of "?m div 10 + 1" scores] lt by simp
qed

lemma percentile10_bounds:
  assumes "scores \<noteq> []" and range: "\<forall>x \<in> set scores. 0 \<le> x \<and> x \<le> 1"
  shows "Min (set scores) - 1 / 2 ^ 48 \<le> percentile10 scores \<and> percentile10 scores \<le> Max (set scores) + 1 / 2 ^ 48"
proof (cases "1 < length scores")
  case True
  then obtain a b d where p: "a \<in> set scores" "b \<in> set scores" "a \<le> b" "d \<le> 9"
    "percentile10 scores = fl64 (fl64 (fl64 (a * of_nat (10 - d)) + fl64 (b * of_nat d)) / 10)"
    by (rule percentile10_neighbours)
  have "Min (set scores) \<le> a" "b \<le> Max (set scores)" using p(1,2) by simp_all
  moreover have ab: "0 \<le> a" "b \<le> 1" using p(1,2) range by blast+
  note interpolation_error[OF ab(1) p(3) ab(2) p(4), folded p(5)]
  ultimately show ?thesis by linarith
next
  case False
  then obtain x where "scores = [x]" using assms(1) by (cases scores) auto
  then show ?thesis by (simp add: percentile10_def)
qed

lemma fl64_eval:
  assumes "2 powi e \<le> x" "x < 2 powi (e + 1)" "- 1022 \<le> e" "\<bar>x / 2 powi (e - 52) - of_int j\<bar> < 1/2"
  shows "fl64 x = 2 powi (e - 52) * of_int j"
  using fl64_binade[OF assms(1-3)] round_even_nearest[OF assms(4)] by simp

text \<open>The float next to a third, and the percentile of two of them, which is the float after it.\<close>

lemma third: "fl64 (1 / 3) = 6004799503160661 / 2 ^ 54"
  using fl64_eval[of "- 2" "1 / 3" 6004799503160661] by (simp add: power_int_def power_divide)

lemma thirds: "percentile10 [fl64 (1 / 3), fl64 (1 / 3)] = 6004799503160662 / 2 ^ 54"
proof -
  let ?a = "6004799503160661 / 2 ^ 54 :: rat"
  have "fl64 (?a * 9) = 3"
    using fl64_eval[of 1 "?a * 9" 6755399441055744] by (simp add: power_int_def power_divide)
  moreover have "fl64 ?a = ?a" using fl64_idem[of "1 / 3"] unfolding third .
  moreover have "fl64 (3 + ?a) = 60047995031606616 / 2 ^ 54"
    using fl64_eval[of 1 "3 + ?a" 7505999378950827] by (simp add: power_int_def power_divide)
  moreover have "fl64 (60047995031606616 / 2 ^ 54 / 10) = 6004799503160662 / 2 ^ 54"
    using fl64_eval[of "- 2" "60047995031606616 / 2 ^ 54 / 10" 6004799503160662] by (simp add: power_int_def power_divide)
  moreover have "percentile10 [x, x] = fl64 (fl64 (fl64 (x * 9) + fl64 x) / 10)" for x by (simp add: percentile10_def)
  ultimately show ?thesis by (simp only: third)
qed

section \<open>The report of a valid schedule\<close>

lemma finite_scores_valid:
  assumes "\<forall>sp \<in> set sps. \<exists>x. sp_score sp = Fin x \<and> 0 \<le> x \<and> x \<le> 1"
  shows "\<exists>xs. finite_scores sps = Some xs \<and> map sp_score sps = map Fin xs \<and> (\<forall>x \<in> set xs. 0 \<le> x \<and> x \<le> 1)"
  using assms
proof (induction sps)
  case (Cons sp sps)
  then obtain x xs where x: "sp_score sp = Fin x" "0 \<le> x" "x \<le> 1" "finite_scores sps = Some xs"
      "map sp_score sps = map Fin xs" "\<forall>x \<in> set xs. 0 \<le> x \<and> x \<le> 1" by auto
  then show ?case by (intro exI[of _ "x # xs"]) simp
qed simp

text \<open>Pairs without a common tag, counted over the schedule.\<close>

definition zero_pairs :: "schedule_round \<Rightarrow> nat" where
  "zero_pairs rnd = length (filter (\<lambda>sp. sp_score sp = Fin 0) (sr_pairs rnd))"

lemma zero_scores:
  "map sp_score sps = map Fin xs \<Longrightarrow> length (filter (\<lambda>x. x = 0) xs) = length (filter (\<lambda>sp. sp_score sp = Fin 0) sps)"
proof (induction sps arbitrary: xs)
  case (Cons sp sps)
  then obtain x xs' where "xs = x # xs'" "sp_score sp = Fin x" "map sp_score sps = map Fin xs'" by (cases xs) auto
  then show ?case using Cons.IH[of xs'] by simp
qed simp

text \<open>What the report says of one round.\<close>

definition round_reported :: "schedule_round \<Rightarrow> round_report \<Rightarrow> bool" where
  "round_reported rnd rr \<longleftrightarrow> rr_number rr = sr_number rnd \<and> rr_pair_count rr = length (sr_pairs rnd) \<and>
     rr_unmatched_pid rr = sr_unmatched_pid rnd \<and> rr_zero_tag_pairs rr = zero_pairs rnd \<and>
     - 1 / 2 ^ 48 \<le> rr_p10_score rr \<and> rr_p10_score rr \<le> 1 + 1 / 2 ^ 48"

lemma round_report_ok:
  assumes "map sp_score (sr_pairs rnd) = map Fin xs" "\<forall>x \<in> set xs. 0 \<le> x \<and> x \<le> 1"
  shows "round_reported rnd (round_report_of rnd xs)"
proof -
  have "- 1 / 2 ^ 48 \<le> percentile10 xs \<and> percentile10 xs \<le> 1 + 1 / 2 ^ 48"
  proof (cases "xs = []")
    case False
    then have "Min (set xs) \<in> set xs" "Max (set xs) \<in> set xs" by simp_all
    then have "0 \<le> Min (set xs)" "Max (set xs) \<le> 1" using assms(2) by blast+
    then show ?thesis using percentile10_bounds[OF False assms(2)] by linarith
  qed (simp add: percentile10_def)
  then show ?thesis using zero_scores[OF assms(1)] by (simp add: round_reported_def round_report_of_def zero_pairs_def)
qed

lemma report_rounds_ok:
  assumes "\<forall>rnd \<in> set rnds. \<forall>sp \<in> set (sr_pairs rnd). \<exists>x. sp_score sp = Fin x \<and> 0 \<le> x \<and> x \<le> 1"
  shows "\<exists>m' rrs. report_rounds m rnds = Some m' \<and> mr_rounds m' = mr_rounds m @ rrs \<and> list_all2 round_reported rnds rrs \<and>
    mr_total_pairs m' = mr_total_pairs m + sum_list (map (\<lambda>r. length (sr_pairs r)) rnds) \<and>
    mr_total_zero_tag_pairs m' = mr_total_zero_tag_pairs m + sum_list (map zero_pairs rnds) \<and>
    mr_bye_distribution m' = foldl count_bye (mr_bye_distribution m) rnds \<and>
    mr_violation_count m' = mr_violation_count m \<and> mr_violations m' = mr_violations m"
  using assms
proof (induction rnds arbitrary: m)
  case (Cons rnd rnds)
  then obtain xs where xs: "finite_scores (sr_pairs rnd) = Some xs" "map sp_score (sr_pairs rnd) = map Fin xs"
      "\<forall>x \<in> set xs. 0 \<le> x \<and> x \<le> 1" using finite_scores_valid[of "sr_pairs rnd"] by auto
  have "\<forall>rnd \<in> set rnds. \<forall>sp \<in> set (sr_pairs rnd). \<exists>x. sp_score sp = Fin x \<and> 0 \<le> x \<and> x \<le> 1"
    using Cons.prems by simp
  from Cons.IH[OF this, of "report_step m rnd xs"] obtain m' rrs where
    m': "report_rounds (report_step m rnd xs) rnds = Some m'" "list_all2 round_reported rnds rrs"
      "mr_rounds m' = mr_rounds (report_step m rnd xs) @ rrs"
      "mr_total_pairs m' = mr_total_pairs (report_step m rnd xs) + sum_list (map (\<lambda>r. length (sr_pairs r)) rnds)"
      "mr_total_zero_tag_pairs m' = mr_total_zero_tag_pairs (report_step m rnd xs) + sum_list (map zero_pairs rnds)"
      "mr_bye_distribution m' = foldl count_bye (mr_bye_distribution (report_step m rnd xs)) rnds"
      "mr_violation_count m' = mr_violation_count (report_step m rnd xs)" "mr_violations m' = mr_violations (report_step m rnd xs)"
    by blast
  then show ?case
    using round_report_ok[OF xs(2,3)] zero_scores[OF xs(2), folded zero_pairs_def]
    by (intro exI[of _ m'] exI[of _ "round_report_of rnd xs # rrs"]) (simp add: xs(1) report_step_def)
qed simp

lemma bump_new: "p \<notin> fst ` set al \<Longrightarrow> bump al p = al @ [(p, 1)]"
proof -
  assume p: "p \<notin> fst ` set al"
  then have "map_of al p = None" by (simp add: map_of_eq_None_iff)
  moreover have "AList.update p (1::nat) al = al @ [(p, 1)]" using p by (induction al) auto
  ultimately show ?thesis by (simp add: bump_def)
qed

lemma count_byes:
  "distinct (map fst al @ bye_pids rs) \<Longrightarrow> [] \<notin> set (bye_pids rs) \<Longrightarrow>
   foldl count_bye al rs = al @ map (\<lambda>p. (p, 1)) (bye_pids rs)"
proof (induction rs arbitrary: al)
  case (Cons r rs)
  show ?case
  proof (cases "sr_unmatched_pid r")
    case None
    then show ?thesis using Cons.IH[of al] Cons.prems by (simp add: count_bye_def bye_pids_def)
  next
    case (Some p)
    then have b: "bye_pids (r # rs) = p # bye_pids rs" by (simp add: bye_pids_def)
    have "bump al p = al @ [(p, 1)]" using Cons.prems b by (intro bump_new) auto
    then show ?thesis using Cons.IH[of "al @ [(p, 1)]"] Cons.prems b Some by (auto simp: count_bye_def)
  qed
qed (simp add: bye_pids_def)

lemma round_valid_pairs:
  assumes "round_valid pids r" "finite pids"
  shows "length (sr_pairs r) = card pids div 2"
proof -
  have ends: "distinct (pair_ends (sr_pairs r))" "set (pair_ends (sr_pairs r)) = pids - set_option (sr_unmatched_pid r)"
    using assms(1) by (simp_all add: round_valid_def)
  then have "2 * length (sr_pairs r) = card (pids - set_option (sr_unmatched_pid r))"
    using distinct_card[OF ends(1)] by simp
  moreover have "card (pids - set_option (sr_unmatched_pid r)) = card pids - (if even (card pids) then 0 else 1)"
    using assms by (cases "sr_unmatched_pid r") (auto simp: round_valid_def card_Diff_singleton)
  ultimately show ?thesis by (cases "even (card pids)") (auto elim!: evenE oddE)
qed

lemma valid_byes_length:
  assumes "\<forall>r \<in> set rs. round_valid pids r"
  shows "length (bye_pids rs) = (if even (card pids) then 0 else length rs)"
  using assms by (induction rs) (auto simp: bye_pids_def round_valid_def split: option.splits)

section \<open>Properties\<close>

text \<open>
  C37. The report of a generated schedule is the truth about it: it can be built and locked, it has one entry per round with
  that round's number, pairs, bye and pairs without a common tag and a percentile of \<open>[0, 1]\<close> up to rounding,
  the totals are those of the schedule (half the participants pair up in every round), and every bye is
  counted once.
\<close>

theorem report_of_generated_schedule:
  assumes gen: "generate_schedule inp = Inr sched" and inj: "inj_on uuid_value (set (pid_list inp))"
  shows "\<exists>m. build_report sched (validate_schedule sched (set (pid_list inp)) (mi_num_rounds inp)) = Some m \<and> can_lock m \<and>
    list_all2 round_reported sched (mr_rounds m) \<and> int (length (mr_rounds m)) = mi_num_rounds inp \<and>
    mr_total_pairs m = length (mr_rounds m) * (card (set (pid_list inp)) div 2) \<and>
    mr_total_zero_tag_pairs m = sum_list (map zero_pairs sched) \<and>
    mr_bye_distribution m = map (\<lambda>p. (p, 1)) (bye_pids sched) \<and> distinct (bye_pids sched) \<and>
    length (bye_pids sched) = (if even (card (set (pid_list inp))) then 0 else length (mr_rounds m))"
proof -
  let ?pids = "set (pid_list inp)" and ?R = "mi_num_rounds inp"
  have uuids: "all_uuids ?pids" using generate_schedule_Inr_accepted[OF gen] by (simp add: accepted_input_def)
  have valid: "valid_schedule ?pids ?R sched" by (rule schedule_is_valid[OF gen inj])
  then have rounds: "\<forall>r \<in> set sched. round_valid ?pids r" and len: "int (length sched) = ?R"
    and byes: "distinct (bye_pids sched)" by (simp_all add: valid_schedule_def bye_pids_def)
  have none: "validate_schedule sched ?pids ?R = []" using valid validate_accepts[of ?pids] uuids by simp
  have scored: "\<forall>rnd \<in> set sched. \<forall>sp \<in> set (sr_pairs rnd). \<exists>x. sp_score sp = Fin x \<and> 0 \<le> x \<and> x \<le> 1"
    using rounds unfolding round_valid_def pair_ok_def by blast
  have "[] \<notin> set (bye_pids sched)"
  proof
    assume "[] \<in> set (bye_pids sched)"
    then have "[] \<in> ?pids" using rounds by (auto simp: bye_pids_def round_valid_def split: option.splits)
    moreover have "uuid_of_string [] = None" by code_simp
    ultimately show False using uuids by (auto simp: all_uuids_def)
  qed
  then have bd: "foldl count_bye [] sched = map (\<lambda>p. (p, 1)) (bye_pids sched)" using count_byes[of "[]"] byes by simp
  have "map (\<lambda>r. length (sr_pairs r)) sched = map (\<lambda>_. card ?pids div 2) sched" using rounds round_valid_pairs by simp
  then have pairs: "sum_list (map (\<lambda>r. length (sr_pairs r)) sched) = length sched * (card ?pids div 2)"
    by (simp add: map_replicate_const sum_list_replicate)
  from report_rounds_ok[OF scored] obtain m where m: "build_report sched [] = Some m" "list_all2 round_reported sched (mr_rounds m)"
    "mr_total_pairs m = length sched * (card ?pids div 2)" "mr_total_zero_tag_pairs m = sum_list (map zero_pairs sched)"
    "mr_bye_distribution m = map (\<lambda>p. (p, 1)) (bye_pids sched)" "can_lock m"
    unfolding build_report_def can_lock_def by (fastforce simp: pairs bd)
  then have l: "length (mr_rounds m) = length sched" using list_all2_lengthD by metis
  show ?thesis
    unfolding none by (intro exI[of _ m]) (use m l len byes valid_byes_length[OF rounds] in simp)
qed

lemma report_of_generated_schedule_witness:
  "\<exists>sched m. generate_schedule (sample_input 1) = Inr sched \<and> build_report sched [] = Some m \<and> mr_total_pairs m = 1"
proof -
  obtain sched where g: "generate_schedule (sample_input 1) = Inr sched" using sample_one_round by blast
  have c: "card (set (pid_list (sample_input 1))) = 3" by (simp add: sample_pids sample_pid_eq)
  have v: "validate_schedule sched (set (pid_list (sample_input 1))) 1 = []"
    using validate_accepts[of "set (pid_list (sample_input 1))"] schedule_is_valid[OF g sample_inj]
    by (simp add: all_uuids_def sample_pids sample_uuids)
  show ?thesis using report_of_generated_schedule[OF g sample_inj] g c v by auto
qed

text \<open>
  The tenth percentile lies between the lowest and the highest score only up to rounding: it stays within 2 to the
  -48 of that range, and of two pairs scored a third it is above both.
\<close>

theorem percentile_range:
  "(\<forall>scores. scores \<noteq> [] \<and> (\<forall>x \<in> set scores. 0 \<le> x \<and> x \<le> 1) \<longrightarrow>
     Min (set scores) - 1 / 2 ^ 48 \<le> percentile10 scores \<and> percentile10 scores \<le> Max (set scores) + 1 / 2 ^ 48) \<and>
   (\<exists>scores. scores \<noteq> [] \<and> (\<forall>x \<in> set scores. 0 \<le> x \<and> x \<le> 1) \<and> Max (set scores) < percentile10 scores)"
proof (intro conjI allI impI)
  show "\<exists>scores. scores \<noteq> [] \<and> (\<forall>x \<in> set scores. 0 \<le> x \<and> x \<le> 1) \<and> Max (set scores) < percentile10 scores"
    by (rule exI[of _ "[fl64 (1 / 3), fl64 (1 / 3)]"]) (simp add: thirds, simp add: third)
qed (use percentile10_bounds in blast)+

lemma percentile_range_witness: "percentile10 [0, 1] \<le> 1 + 1 / 2 ^ 48"
  using conjunct1[OF percentile_range, rule_format, of "[0, 1]"] by simp

end
