(* ===== verification/Admin.thy ===== *)
theory Admin
  imports Operator Event_State Report Py_Text
begin

text \<open>
  The operator's pages of \<open>apps/events/admin.py\<close>: the event form with its guard on unique tags, the tag
  deletion guards, the live monitoring page, the matching report page and the CSV export. The form of
  a request is \<open>None\<close> for a GET and the map of its fields for a POST. Messages to the operator are
  values, their wording is left out.
\<close>

section \<open>The event form\<close>

text \<open>The cleaned data of the declared fields.\<close>

record event_form =
  ef_name :: string
  ef_description :: string
  ef_status :: event_status
  ef_start_time :: int
  ef_num_rounds :: nat
  ef_round_duration :: int
  ef_break_duration :: int
  ef_unique_tags :: bool

definition multi_tag_participants :: "uuid \<Rightarrow> db \<Rightarrow> participant_row list" where
  "multi_tag_participants e d = filter (\<lambda>p. 1 < length (pt_tags p)) (event_participants d e)"

text \<open>The refusal names the number of participants in the way. A new event has no row yet.\<close>

definition clean_event_form :: "uuid \<Rightarrow> event_form \<Rightarrow> db \<Rightarrow> nat + event_form" where
  "clean_event_form e f d =
     (let was_unique = map_option ev_unique_tags (find_event d e); multi = multi_tag_participants e d
      in if ef_unique_tags f \<and> was_unique \<noteq> Some True \<and> multi \<noteq> [] then Inl (length multi) else Inr f)"

definition apply_event_form :: "event_form \<Rightarrow> event_row \<Rightarrow> event_row" where
  "apply_event_form f r = r\<lparr>ev_name := ef_name f, ev_description := ef_description f, ev_status := ef_status f,
     ev_start_time := ef_start_time f, ev_num_rounds := ef_num_rounds f, ev_round_duration := ef_round_duration f,
     ev_break_duration := ef_break_duration f, ev_unique_tags := ef_unique_tags f\<rparr>"

definition new_event :: "uuid \<Rightarrow> event_form \<Rightarrow> event_row" where
  "new_event e f = \<lparr>ev_id = e, ev_name = ef_name f, ev_description = ef_description f, ev_status = ef_status f,
     ev_num_rounds = ef_num_rounds f, ev_round_duration = ef_round_duration f, ev_break_duration = ef_break_duration f,
     ev_start_time = ef_start_time f, ev_scoring_weights = JObj [(''tag_overlap'', JFloat (Fin 1))],
     ev_unique_tags = ef_unique_tags f\<rparr>"

definition save_event_form :: "uuid \<Rightarrow> event_form \<Rightarrow> db \<Rightarrow> nat option \<times> db" where
  "save_event_form e f d =
     (case clean_event_form e f d of
        Inl n \<Rightarrow> (Some n, d)
      | Inr f \<Rightarrow> (None, if find_event d e = None then d\<lparr>db_events := db_events d @ [new_event e f]\<rparr>
          else update_event e (apply_event_form f) d))"

text \<open>\<open>list_editable\<close>: the status column of the list is a form of its own.\<close>

definition edit_status_in_list :: "uuid \<Rightarrow> event_status \<Rightarrow> db \<Rightarrow> db" where
  "edit_status_in_list e s d = update_event e (\<lambda>r. r\<lparr>ev_status := s\<rparr>) d"

section \<open>Tags\<close>

definition tag_in_use :: "db \<Rightarrow> uuid \<Rightarrow> bool" where
  "tag_in_use d i \<longleftrightarrow> (\<exists>p \<in> set (db_participants d). i \<in> set (pt_tags p))"

definition usage_count :: "db \<Rightarrow> uuid \<Rightarrow> nat" where
  "usage_count d i = length (filter (\<lambda>p. i \<in> set (pt_tags p)) (db_participants d))"

definition has_delete_permission :: "bool \<Rightarrow> uuid option \<Rightarrow> db \<Rightarrow> bool" where
  "has_delete_permission granted obj d =
     (case obj of Some i \<Rightarrow> if tag_in_use d i then False else granted | None \<Rightarrow> granted)"

text \<open>Deleting tag rows takes their participant links along.\<close>

definition drop_tags :: "uuid set \<Rightarrow> db \<Rightarrow> db" where
  "drop_tags ids d = d\<lparr>db_tags := filter (\<lambda>i. i \<notin> ids) (db_tags d),
     db_participants := map (\<lambda>p. p\<lparr>pt_tags := filter (\<lambda>i. i \<notin> ids) (pt_tags p)\<rparr>) (db_participants d)\<rparr>"

text \<open>The refused tags and the database.\<close>

definition delete_model :: "uuid \<Rightarrow> db \<Rightarrow> uuid list \<times> db" where
  "delete_model i d = (if tag_in_use d i then ([i], d) else ([], drop_tags {i} d))"

definition delete_queryset :: "uuid list \<Rightarrow> db \<Rightarrow> uuid list \<times> db" where
  "delete_queryset ids d =
     (let used_tags = filter (tag_in_use d) ids;
          queryset = (if used_tags \<noteq> [] then filter (\<lambda>i. i \<notin> set used_tags) ids else ids)
      in (used_tags, if queryset \<noteq> [] then drop_tags (set queryset) d else d))"

section \<open>The live monitoring page\<close>

text \<open>
  A POST redirects to the page with at most one message. Every exception of an action, a missing
  participant included, becomes an error message; a service call that raises, also at its
  broadcast, leaves nothing behind. \<open>send_up\<close> says whether the broadcast goes through.
\<close>

datatype console_failure = ServiceRefused operator_error | BroadcastFailed | UnknownParticipant | SecondsNotInteger

datatype console_message = NoteSaved uuid | Paused | Resumed | Extended int | ActionFailed console_failure

record console_env =
  ce_send_up :: bool
  ce_now :: int
  ce_log_id :: string

definition service_result :: "bool \<Rightarrow> console_message \<Rightarrow> db \<Rightarrow> operator_error + op_outcome \<Rightarrow> console_message \<times> (string \<times> pydict) list \<times> db" where
  "service_result send_up ok d r =
     (case r of
        Inl e \<Rightarrow> (ActionFailed (ServiceRefused e), [], d)
      | Inr oc \<Rightarrow> if send_up then (ok, [oo_broadcast oc], oo_db oc) else (ActionFailed BroadcastFailed, [], d))"

definition add_incident_note :: "uuid \<Rightarrow> string \<Rightarrow> string \<Rightarrow> db \<Rightarrow> console_message option \<times> db" where
  "add_incident_note e p_id note d =
     (if p_id = [] \<or> py_strip note = [] then (None, d)
      else case Option.bind (uuid_of_string p_id) (\<lambda>i. find (\<lambda>p. pt_id p = i \<and> pt_event p = e) (db_participants d)) of
        None \<Rightarrow> (Some (ActionFailed UnknownParticipant), d)
      | Some p \<Rightarrow> (Some (NoteSaved (pt_id p)),
          d\<lparr>db_notes := db_notes d @ [\<lparr>in_event = e, in_participant = pt_id p, in_note = py_strip note\<rparr>]\<rparr>))"

definition field_or :: "(string \<rightharpoonup> string) \<Rightarrow> string \<Rightarrow> string" where
  "field_or form k = (case form k of None \<Rightarrow> [] | Some s \<Rightarrow> s)"

definition console_action :: "console_env \<Rightarrow> uuid \<Rightarrow> (string \<rightharpoonup> string) \<Rightarrow> db \<Rightarrow> console_message option \<times> (string \<times> pydict) list \<times> db" where
  "console_action v e form d =
     (let done = (\<lambda>ok r. let (m, out, d') = service_result (ce_send_up v) ok d r in (Some m, out, d')) in
      case form ''action'' of
        None \<Rightarrow> (None, [], d)
      | Some action \<Rightarrow>
          if action = ''add_incident_note'' then
            (let (m, d') = add_incident_note e (field_or form ''participant_id'') (field_or form ''note'') d in (m, [], d'))
          else if action = ''pause'' then done Paused (op_pause True e (ce_now v) (ce_log_id v) d)
          else if action = ''resume'' then done Resumed (op_resume True e (ce_now v) (ce_log_id v) d)
          else if action = ''extend'' then
            (case (case form ''seconds'' of None \<Rightarrow> Some 60 | Some s \<Rightarrow> int_of_text s) of
               None \<Rightarrow> (Some (ActionFailed SecondsNotInteger), [], d)
             | Some seconds \<Rightarrow> done (Extended seconds) (op_extend True e seconds (ce_now v) (ce_log_id v) d))
          else (None, [], d))"

text \<open>
  What the page shows: the round that runs or the next one, its pairs, the twenty newest operator
  logs, the disconnected participants (in table order, the update stamps are not modelled) and the
  search hits; \<open>contains\<close> is the database's case-insensitive search.
\<close>

record console_page =
  cp_active_round :: "round_row option"
  cp_pairs :: "pair_row list"
  cp_action_logs :: "operator_log list"
  cp_disconnected :: "participant_row list"
  cp_search_results :: "participant_row list"

definition shown_round :: "uuid \<Rightarrow> int \<Rightarrow> db \<Rightarrow> round_row option" where
  "shown_round e now d =
     (let rs = sort_key rd_number (event_rounds d e);
          running = filter (\<lambda>r. rd_starts_at r \<le> now \<and> now \<le> rd_ends_at r) rs;
          upcoming = filter (\<lambda>r. now < rd_starts_at r) rs
      in if running \<noteq> [] then Some (hd running)
         else if upcoming = [] then None else Some (min_by rd_starts_at upcoming))"

definition console_view :: "(string \<Rightarrow> string \<Rightarrow> bool) \<Rightarrow> uuid \<Rightarrow> string \<Rightarrow> int \<Rightarrow> db \<Rightarrow> console_page" where
  "console_view contains e q now d =
     (let active_round = shown_round e now d; search_query = py_strip q in
      \<lparr>cp_active_round = active_round,
       cp_pairs = (case active_round of None \<Rightarrow> [] | Some r \<Rightarrow> filter (\<lambda>p. pr_round p = rd_id r) (db_pairs d)),
       cp_action_logs = take 20 (sort_key (\<lambda>l. - ol_performed_at l) (rev (filter (\<lambda>l. ol_event l = e) (db_operator_logs d)))),
       cp_disconnected = filter (\<lambda>p. pt_status p = PS_Disconnected) (event_participants d e),
       cp_search_results = (if search_query = [] then []
          else filter (\<lambda>p. contains search_query (pt_name p) \<or> contains search_query (pt_email p)) (event_participants d e))\<rparr>)"

text \<open>\<open>None\<close> is the 404 of an unknown event.\<close>

datatype console_reply = ConsoleRedirect "console_message option" | ConsolePage console_page

definition operator_monitoring_view :: "(string \<Rightarrow> string \<Rightarrow> bool) \<Rightarrow> console_env \<Rightarrow> uuid \<Rightarrow> (string \<rightharpoonup> string) option \<Rightarrow> string \<Rightarrow> db
    \<Rightarrow> console_reply option \<times> (string \<times> pydict) list \<times> db" where
  "operator_monitoring_view contains v e post q d =
     (case find_event d e of
        None \<Rightarrow> (None, [], d)
      | Some ev \<Rightarrow>
          (case post of
             Some form \<Rightarrow> (let (m, out, d') = console_action v e form d in (Some (ConsoleRedirect m), out, d'))
           | None \<Rightarrow> (Some (ConsolePage (console_view contains e q (ce_now v) d)), [], d)))"

section \<open>The matching report page\<close>

definition matching_runnable_states :: "event_status set" where
  "matching_runnable_states = {ES_Scheduled, ES_Active, ES_Completed}"

datatype matching_page_error =
    NotRunnable event_status
  | TooFewToMatch nat
  | MatchingRefused matching_error
  | NotLockable nat
  | BadScoring scoring_error
  | NotPersisted persist_error

record matching_page =
  mp_report :: "matching_report option"
  mp_error :: "matching_page_error option"
  mp_can_run :: bool
  mp_has_schedule :: bool
  mp_locked :: bool
  mp_needs_confirmation :: bool

text \<open>The body of the \<open>try\<close>. The report of a generated schedule exists.\<close>

definition run_matching :: "(nat \<Rightarrow> uuid) \<Rightarrow> (string \<Rightarrow> uuid) \<Rightarrow> event_row \<Rightarrow> bool \<Rightarrow> matching_page \<Rightarrow> db \<Rightarrow> matching_page \<times> db" where
  "run_matching round_id pair_id ev lock page d =
     (case build_match_input ev d of
        Inl e \<Rightarrow> (page\<lparr>mp_error := Some (BadScoring e)\<rparr>, d)
      | Inr inp \<Rightarrow>
          if length (mi_participants inp) < 2
          then (page\<lparr>mp_error := Some (TooFewToMatch (length (mi_participants inp)))\<rparr>, d)
          else case generate_schedule inp of
            Inl e \<Rightarrow> (page\<lparr>mp_error := Some (MatchingRefused e)\<rparr>, d)
          | Inr schedule \<Rightarrow>
              (let violations = validate_schedule schedule (set (pid_list inp)) (int (ev_num_rounds ev));
                   report = the (build_report schedule violations);
                   page = page\<lparr>mp_report := Some report\<rparr>
               in if \<not> lock then (page, d)
                  else if can_lock report then
                    (case persist_schedule ev round_id pair_id schedule d of
                       Inl e \<Rightarrow> (page\<lparr>mp_error := Some (NotPersisted e)\<rparr>, d)
                     | Inr d' \<Rightarrow> (page\<lparr>mp_locked := True, mp_has_schedule := True\<rparr>, d'))
                  else (page\<lparr>mp_error := Some (NotLockable (mr_violation_count report))\<rparr>, d)))"

definition matching_report_view :: "(nat \<Rightarrow> uuid) \<Rightarrow> (string \<Rightarrow> uuid) \<Rightarrow> uuid \<Rightarrow> (string \<rightharpoonup> string) option \<Rightarrow> db
    \<Rightarrow> matching_page option \<times> db" where
  "matching_report_view round_id pair_id e post d =
     (case find_event d e of
        None \<Rightarrow> (None, d)
      | Some ev \<Rightarrow>
          (let can_run = (ev_status ev \<in> matching_runnable_states); has_schedule = (event_rounds d e \<noteq> []);
               page = \<lparr>mp_report = None, mp_error = None, mp_can_run = can_run, mp_has_schedule = has_schedule,
                  mp_locked = False, mp_needs_confirmation = False\<rparr>
           in case post of
             None \<Rightarrow> (Some page, d)
           | Some form \<Rightarrow>
               (let action = field_or form ''action''; confirmed = (form ''confirmed'' = Some ''yes'') in
                if action \<noteq> ''run'' \<and> action \<noteq> ''lock'' then (Some page, d)
                else if \<not> can_run then (Some (page\<lparr>mp_error := Some (NotRunnable (ev_status ev))\<rparr>), d)
                else if has_schedule \<and> \<not> confirmed then (Some (page\<lparr>mp_needs_confirmation := True\<rparr>), d)
                else (let (page, d') = run_matching round_id pair_id ev (action = ''lock'') page d in (Some page, d')))))"

section \<open>The CSV export\<close>

text \<open>\<open>csv.writer\<close> with its default dialect.\<close>

definition csv_special :: "char \<Rightarrow> bool" where
  "csv_special c \<longleftrightarrow> c \<in> {CHR '','', CHR 0x22, CHR 0x0D, CHR 0x0A}"

definition csv_field :: "string \<Rightarrow> string" where
  "csv_field s =
     (if list_ex csv_special s
      then CHR 0x22 # concat (map (\<lambda>c. if c = CHR 0x22 then [c, c] else [c]) s) @ [CHR 0x22] else s)"

definition crlf :: string where
  "crlf = [CHR 0x0D, CHR 0x0A]"

fun csv_fields :: "string list \<Rightarrow> string" where
  "csv_fields [] = []"
| "csv_fields [s] = csv_field s"
| "csv_fields (s # ss) = csv_field s @ CHR '','' # csv_fields ss"

definition csv_row :: "string list \<Rightarrow> string" where
  "csv_row cells = (if cells = [[]] then [CHR 0x22, CHR 0x22] else csv_fields cells) @ crlf"

definition participant_status_label :: "participant_status \<Rightarrow> string" where
  "participant_status_label s = (case s of PS_Waiting \<Rightarrow> ''Waiting'' | PS_Ready \<Rightarrow> ''Ready'' | PS_Active \<Rightarrow> ''Active''
     | PS_Disconnected \<Rightarrow> ''Disconnected'' | PS_Completed \<Rightarrow> ''Completed'')"

fun comma_join :: "string list \<Rightarrow> string" where
  "comma_join [] = []"
| "comma_join [s] = s"
| "comma_join (s # ss) = s @ '', '' @ comma_join ss"

definition display_tags :: "(uuid \<Rightarrow> string) \<Rightarrow> participant_row \<Rightarrow> string" where
  "display_tags tag_name p = (if pt_tags p = [] then ''-'' else comma_join (sort (map tag_name (pt_tags p))))"

definition token_status :: "participant_row \<Rightarrow> string" where
  "token_status p = (if pt_token_digest p = [] then ''Missing'' else ''Configured'')"

text \<open>
  The row of a participant; \<open>tag_name\<close> gives the names of the tags, which come ordered by name, and \<open>created\<close> the
  formatted creation stamp.
\<close>

definition export_row :: "(uuid \<Rightarrow> string) \<Rightarrow> (uuid \<Rightarrow> string) \<Rightarrow> db \<Rightarrow> participant_row \<Rightarrow> string list" where
  "export_row tag_name created d p =
     [uuid_str (pt_id p), pt_name p, pt_email p, participant_status_label (pt_status p),
      (case find_event d (pt_event p) of None \<Rightarrow> [] | Some ev \<Rightarrow> ev_name ev),
      comma_join (sort (map tag_name (pt_tags p))), created (pt_id p)]"

text \<open>The text after the byte order mark; \<open>header\<close> is the row of seven column titles.\<close>

definition export_as_csv :: "string list \<Rightarrow> (uuid \<Rightarrow> string) \<Rightarrow> (uuid \<Rightarrow> string) \<Rightarrow> db \<Rightarrow> participant_row list \<Rightarrow> string" where
  "export_as_csv header tag_name created d ps = concat (map csv_row (header # map (export_row tag_name created d) ps))"

end
