(* ===== verification/Admin_Props.thy ===== *)
theory Admin_Props
  imports Admin Registration_Props
begin

text \<open>
  What the operator's pages keep: unique tags, the tags in use, the audit log and the stored schedule;
  and that an exported table reads back.
\<close>

section \<open>Matching from the page\<close>

text \<open>A schedule the engine made of the stored participants, and what storing it leaves.\<close>

definition schedule_stored :: "(nat \<Rightarrow> uuid) \<Rightarrow> event_row \<Rightarrow> generated_schedule \<Rightarrow> db \<Rightarrow> db \<Rightarrow> bool" where
  "schedule_stored round_id ev sched d d' \<longleftrightarrow>
     valid_schedule (uuid_str ` pt_id ` set (event_participants d (ev_id ev))) (int (ev_num_rounds ev)) sched \<and>
     stored_pairs d' (ev_id ev) = schedule_pairs sched \<and>
     filter (\<lambda>r. rd_event r = ev_id ev) (db_rounds d') = map (new_round ev round_id) sched \<and>
     filter (\<lambda>r. rd_event r \<noteq> ev_id ev) (db_rounds d') = filter (\<lambda>r. rd_event r \<noteq> ev_id ev) (db_rounds d) \<and>
     rounds_ok (db_rounds d') \<and> pairs_ok (db_pairs d')"

lemma generated_for_event:
  assumes inp: "build_match_input ev d = Inr inp" and wf: "participants_wf d" and gen: "generate_schedule inp = Inr sched"
  shows "valid_schedule (set (pid_list inp)) (int (ev_num_rounds ev)) sched"
    and "validate_schedule sched (set (pid_list inp)) (int (ev_num_rounds ev)) = []"
    and "\<exists>m. build_report sched [] = Some m \<and> can_lock m \<and> mr_violation_count m = 0"
proof -
  have ok: "all_uuids (set (pid_list inp))" "inj_on uuid_value (set (pid_list inp))"
    using build_match_input_ok[OF inp wf] by auto
  show v: "valid_schedule (set (pid_list inp)) (int (ev_num_rounds ev)) sched"
    using schedule_is_valid[OF gen ok(2)] build_match_input_pids(2)[OF inp] by simp
  then show "validate_schedule sched (set (pid_list inp)) (int (ev_num_rounds ev)) = []"
    using validate_accepts[of "set (pid_list inp)"] ok(1) by simp
  have "\<forall>rnd \<in> set sched. \<forall>sp \<in> set (sr_pairs rnd). \<exists>x. sp_score sp = Fin x \<and> 0 \<le> x \<and> x \<le> 1"
    using v unfolding valid_schedule_def round_valid_def pair_ok_def by blast
  from report_rounds_ok[OF this] show "\<exists>m. build_report sched [] = Some m \<and> can_lock m \<and> mr_violation_count m = 0"
    unfolding build_report_def can_lock_def by fastforce
qed

lemma persist_generated:
  assumes inp: "build_match_input ev d = Inr inp" and wf: "participants_wf d" and gen: "generate_schedule inp = Inr sched"
    and fresh: "fresh_round_ids round_id d"
  shows "case persist_schedule ev round_id pair_id sched d of Inl e \<Rightarrow> e = ConstraintViolated | Inr d' \<Rightarrow> schedule_stored round_id ev sched d d'"
proof -
  note v = generated_for_event(1)[OF inp wf gen]
  then have pairs: "\<forall>r \<in> set sched. \<forall>sp \<in> set (sr_pairs r). pair_ok (set (pid_list inp)) sp"
    by (auto simp: valid_schedule_def round_valid_def)
  have num: "distinct (map sr_number sched)"
    using v round_numbers_distinct[of sched "int (ev_num_rounds ev)"] by (simp add: valid_schedule_def)
  show ?thesis
  proof (cases "persist_schedule ev round_id pair_id sched d")
    case (Inl e)
    have "\<forall>r \<in> set sched. \<forall>sp \<in> set (sr_pairs r). uuid_of_string (sp_pid_a sp) \<noteq> None \<and> uuid_of_string (sp_pid_b sp) \<noteq> None"
      using pairs build_match_input_ok[OF inp wf] unfolding pair_ok_def all_uuids_def by blast
    then show ?thesis using Inl by (auto simp: persist_schedule_def Let_def simp del: not_None_eq split: if_splits)
  next
    case (Inr d')
    have "\<forall>r \<in> set sched. \<forall>sp \<in> set (sr_pairs r). uuid_value (sp_pid_a sp) < uuid_value (sp_pid_b sp)"
      using pairs by (simp add: pair_ok_def)
    from persist_schedule_Inr[OF Inr num this fresh] show ?thesis
      using v build_match_input_pids(1)[OF inp] Inr by (simp add: schedule_stored_def)
  qed
qed

text \<open>A page without news: what a request shows that starts no matching.\<close>

lemma run_matching_cases:
  assumes wf: "participants_wf d" and fresh: "fresh_round_ids round_id d"
    and run: "run_matching round_id pair_id ev lock page d = (page', d')"
  obtains (failed) err where "page' = page\<lparr>mp_error := Some err\<rparr>" "d' = d" "\<And>n. err \<noteq> NotLockable n"
  | (shown) inp sched m where "build_match_input ev d = Inr inp" "generate_schedule inp = Inr sched" "build_report sched [] = Some m"
      "\<not> lock" "page' = page\<lparr>mp_report := Some m\<rparr>" "d' = d"
  | (not_stored) m where "lock" "page' = page\<lparr>mp_report := Some m, mp_error := Some (NotPersisted ConstraintViolated)\<rparr>" "d' = d"
  | (stored) inp sched m where "build_match_input ev d = Inr inp" "generate_schedule inp = Inr sched" "build_report sched [] = Some m"
      "lock" "page' = page\<lparr>mp_report := Some m, mp_locked := True, mp_has_schedule := True\<rparr>"
      "persist_schedule ev round_id pair_id sched d = Inr d'" "schedule_stored round_id ev sched d d'"
proof (cases "build_match_input ev d")
  case (Inl e)
  then show ?thesis using run failed by (auto simp: run_matching_def)
next
  case inp: (Inr inp)
  show ?thesis
  proof (cases "length (mi_participants inp) < 2")
    case True
    then show ?thesis using run failed inp by (auto simp: run_matching_def)
  next
    case enough: False
    show ?thesis
    proof (cases "generate_schedule inp")
      case (Inl e)
      then show ?thesis using run failed inp enough by (auto simp: run_matching_def)
    next
      case gen: (Inr sched)
      obtain m where m: "build_report sched [] = Some m" "can_lock m" using generated_for_event(3)[OF inp wf gen] by blast
      note eq = run[unfolded run_matching_def, simplified inp gen sum.case Let_def generated_for_event(2)[OF inp wf gen] m(1) option.sel]
      show ?thesis
      proof (cases lock)
        case False
        then show ?thesis using eq enough shown[OF inp gen m(1)] by simp
      next
        case True
        then show ?thesis
          using eq enough m(2) not_stored stored[OF inp gen m(1)] persist_generated[OF inp wf gen fresh, of pair_id]
          by (auto split: sum.splits)
      qed
    qed
  qed
qed



text \<open>For an event whose status only the state machine moves, the page is of use only after the event: before
  it has completed, every request to match or to lock is refused and changes nothing, because two of the three
  states it wants are states no event ever reaches.\<close>

theorem matching_page_before_the_end:
  assumes reach: "lifecycle_reachable d" and ev: "find_event d e = Some ev" "ev_status ev \<noteq> ES_Completed"
  shows "\<exists>page. matching_report_view round_id pair_id e post d = (Some page, d) \<and> mp_report page = None \<and>
    \<not> mp_can_run page \<and> \<not> mp_locked page"
proof -
  have "ev_status ev \<notin> {ES_Scheduled, ES_Active, ES_Cancelled}"
    using lifecycle_reachable_inv[OF reach] ev(1) by (auto simp: lifecycle_inv_def dest: replays_live)
  then have "ev_status ev \<notin> matching_runnable_states" using ev(2) by (simp add: matching_runnable_states_def)
  then show ?thesis using ev(1) by (cases post) (auto simp: matching_report_view_def Let_def)
qed

lemma matching_page_before_the_end_witness:
  "\<exists>page. matching_report_view UUID (\<lambda>_. UUID 0) (UUID 1) (Some [''action'' \<mapsto> ''lock'', ''confirmed'' \<mapsto> ''yes'']) sample_db =
     (Some page, sample_db) \<and> mp_report page = None"
proof -
  have "find_event sample_db (UUID 1) = Some (sample_event (UUID 1)\<lparr>ev_status := ES_RegistrationOpen\<rparr>)"
    by (simp add: find_event_def sample_db_def sample_event_def)
  from matching_page_before_the_end[OF sample_db_reachable this] show ?thesis by fastforce
qed

section \<open>The audit log and the event form\<close>

lemma replays_end: "replays s ls t \<Longrightarrow> replays s ls t' \<Longrightarrow> t = t'"
  by (induction s ls t rule: replays.induct) auto

lemma save_event_form_cases:
  assumes "save_event_form e f d = (refused, d')"
  obtains (refused) "refused = Some (length (multi_tag_participants e d))" "d' = d"
  | (created) "refused = None" "find_event d e = None" "d' = d\<lparr>db_events := db_events d @ [new_event e f]\<rparr>"
      "ef_unique_tags f \<Longrightarrow> multi_tag_participants e d = []"
  | (changed) ev where "refused = None" "find_event d e = Some ev" "d' = update_event e (apply_event_form f) d"
      "ef_unique_tags f \<Longrightarrow> ev_unique_tags ev \<or> multi_tag_participants e d = []"
proof (cases "ef_unique_tags f \<and> map_option ev_unique_tags (find_event d e) \<noteq> Some True \<and> multi_tag_participants e d \<noteq> []")
  case True
  then have "(Some (length (multi_tag_participants e d)), d) = (refused, d')"
    using assms by (simp only: save_event_form_def clean_event_form_def Let_def if_True sum.case simp_thms)
  then show ?thesis by (intro refused) auto
next
  case False
  then have eq: "refused = None"
    "d' = (if find_event d e = None then d\<lparr>db_events := db_events d @ [new_event e f]\<rparr> else update_event e (apply_event_form f) d)"
    using assms by (simp_all only: save_event_form_def clean_event_form_def Let_def if_False sum.case prod.inject)
  show ?thesis
  proof (cases "find_event d e")
    case None
    then show ?thesis using created[OF eq(1)] eq(2) False by simp
  next
    case (Some ev)
    then show ?thesis using changed[OF eq(1) Some] eq(2) False by auto
  qed
qed

text \<open>A status set in the admin, in the event form or in the list, escapes the audit log: after any such change to
  a different status the log of the event no longer replays to its status, no log row is incomplete, so
  reconciliation finds nothing to repair, and no later transition can mend it.\<close>

theorem status_edit_escapes_audit:
  assumes reach: "lifecycle_reachable d" and ev: "find_event d e = Some ev" "s \<noteq> ev_status ev"
    and edit: "d' = edit_status_in_list e s d \<or> (\<exists>f. ef_status f = s \<and> save_event_form e f d = (None, d'))"
  shows "\<not> replays ES_Draft (event_log d' e) s \<and> map_option ev_status (find_event d' e) = Some s \<and>
    find_incomplete_transitions None d' = [] \<and>
    (\<forall>to leader details l d2. transition_event e to leader details d' = Inr (l, d2) \<longrightarrow>
       \<not> replays ES_Draft (event_log d2 e) to)"
proof -
  have inv: "lifecycle_inv d" by (rule lifecycle_reachable_inv[OF reach])
  obtain g where g: "d' = update_event e g d" "\<And>r. ev_status (g r) = s" "\<And>r. ev_id (g r) = ev_id r"
    using edit
  proof
    assume "d' = edit_status_in_list e s d"
    then show ?thesis by (intro that[of "\<lambda>r. r\<lparr>ev_status := s\<rparr>"]) (simp_all add: edit_status_in_list_def)
  next
    assume "\<exists>f. ef_status f = s \<and> save_event_form e f d = (None, d')"
    then obtain f where f: "ef_status f = s" "save_event_form e f d = (None, d')" by blast
    from f(2) show ?thesis
      by (cases rule: save_event_form_cases) (use ev f(1) in \<open>auto intro!: that[of "apply_event_form f"] simp: apply_event_form_def\<close>)
  qed
  have logs: "db_transitions d' = db_transitions d" by (simp add: g(1) update_event_def)
  have st: "map_option ev_status (find_event d' e) = Some s" using ev(1) g by (simp add: find_event_update)
  have end1: "\<not> replays ES_Draft (event_log d' e) s"
    using inv ev replays_end[of ES_Draft "event_log d e"] by (auto simp: lifecycle_inv_def event_log_def logs)
  have "\<not> replays ES_Draft (event_log d2 e) to" if t: "transition_event e to leader details d' = Inr (l, d2)" for to leader details l d2
  proof -
    from t obtain ev' where e': "find_event d' e = Some ev'" "db_transitions d2 = db_transitions d' @ [l]"
      "l = \<lparr>tl_event = ev_id ev', tl_from = ev_status ev', tl_to = to, tl_leader = leader, tl_details = details, tl_complete = True\<rparr>"
      by (rule transition_event_Inr) blast
    then have "event_log d2 e = event_log d' e @ [l]" "tl_from l = s"
      using find_event_Some[OF e'(1)] st by (auto simp: event_log_def)
    then show ?thesis using end1 by (auto simp: replays_append)
  qed
  then show ?thesis
    using end1 st inv by (auto simp: find_incomplete_transitions_def filter_empty_conv logs lifecycle_inv_def)
qed

lemma status_edit_escapes_audit_witness:
  "\<not> replays ES_Draft (event_log (edit_status_in_list (UUID 1) ES_Completed sample_db) (UUID 1)) ES_Completed"
proof -
  have "find_event sample_db (UUID 1) = Some (sample_event (UUID 1)\<lparr>ev_status := ES_RegistrationOpen\<rparr>)"
    by (simp add: find_event_def sample_db_def sample_event_def)
  from status_edit_escapes_audit[OF sample_db_reachable this, of ES_Completed "edit_status_in_list (UUID 1) ES_Completed sample_db"]
  show ?thesis by simp
qed

section \<open>Unique tags\<close>

text \<open>Participants carry existing tags, and at most one where their event wants a unique tag.\<close>

definition tags_inv :: "db \<Rightarrow> bool" where
  "tags_inv d \<longleftrightarrow> distinct (db_tags d) \<and>
     (\<forall>p \<in> set (db_participants d). set (pt_tags p) \<subseteq> set (db_tags d) \<and>
        (\<forall>ev. find_event d (pt_event p) = Some ev \<longrightarrow> ev_unique_tags ev \<longrightarrow> length (pt_tags p) \<le> 1))"

lemma tags_inv_cong:
  assumes "tags_inv d" "db_events d' = db_events d" "db_tags d' = db_tags d"
    and "\<And>p'. p' \<in> set (db_participants d') \<Longrightarrow> \<exists>p \<in> set (db_participants d). pt_tags p' = pt_tags p \<and> pt_event p' = pt_event p"
  shows "tags_inv d'"
  using assms unfolding tags_inv_def find_event_def by metis

text \<open>A lookup of one value finds at most one tag.\<close>

definition lookup_ok :: "site_env \<Rightarrow> bool" where
  "lookup_ok v \<longleftrightarrow> (\<forall>x ids. se_find_tags v x = Some ids \<longrightarrow> json_len x = Inr 1 \<longrightarrow> card (set ids) \<le> 1)"

lemma create_registration_participants:
  assumes "create_registration v ev r s = (res, s')" "p' \<in> set (db_participants (st_db s'))"
  shows "p' \<in> set (db_participants (st_db s)) \<or> pt_event p' = ev_id ev \<and> (pt_tags p' = [] \<or>
    (\<exists>ids. truthy (rg_tag_ids r) \<and> se_find_tags v (rg_tag_ids r) = Some ids \<and> pt_tags p' = filter (\<lambda>t. t \<in> set ids) (db_tags (st_db s))))"
proof -
  let ?p = "new_participant (se_new_id v) ev r" and ?d = "st_db s"
  let ?d1 = "?d\<lparr>db_participants := db_participants ?d @ [?p]\<rparr>"
  have old: "set_tags (se_new_id v) ids ?d1 = ?d1\<lparr>db_participants := db_participants ?d @ [?p\<lparr>pt_tags := filter (\<lambda>t. t \<in> set ids) (db_tags ?d)\<rparr>]\<rparr>"
    if "participant_fits v ?p ?d" for ids
  proof -
    have "map (\<lambda>p. if pt_id p = pt_id ?p then p\<lparr>pt_tags := filter (\<lambda>t. t \<in> set ids) (db_tags ?d)\<rparr> else p) (db_participants ?d) = db_participants ?d"
      using that by (intro map_idI) (auto simp: participant_fits_def)
    then show ?thesis by (simp add: set_tags_def cong: if_cong)
  qed
  have t: "pt_tags ?p = []" by (simp add: new_participant_def)
  show ?thesis
    using assms unfolding create_registration_def Let_def
    by (cases "participant_fits v ?p ?d") (auto simp: old t split: if_splits option.splits prod.splits)
qed

lemma create_registration_rest:
  assumes "create_registration v ev r s = (res, s')"
  shows "db_events (st_db s') = db_events (st_db s) \<and> db_tags (st_db s') = db_tags (st_db s)"
  using assms by (cases rule: create_registration_cases) (auto simp: set_tags_def)

lemma register_tags_inv:
  assumes inv: "tags_inv (st_db s)" and look: "lookup_ok v" and run: "register_view v is_post event_id body s = (reply, s')"
  shows "tags_inv (st_db s')"
  using run
proof (cases rule: register_view_cases)
  case (tried data ev r res)
  have ev: "find_event (st_db s) (ev_id ev) = Some ev"
    using tried(2) find_event_Some by (cases event_id) fastforce+
  have reg: "registration_ok (ModelEvent ev) r" using validated_ok[OF tried(4)] by simp
  note rest = create_registration_rest[OF tried(6)]
  have find: "find_event (st_db s') k = find_event (st_db s) k" for k using rest by (simp add: find_event_def)
  show ?thesis
    unfolding tags_inv_def
  proof (intro conjI ballI allI impI)
    show "distinct (db_tags (st_db s'))" using inv rest by (simp add: tags_inv_def)
    fix p' assume p': "p' \<in> set (db_participants (st_db s'))"
    from create_registration_participants[OF tried(6) p'] show "set (pt_tags p') \<subseteq> set (db_tags (st_db s'))"
      using inv rest by (auto simp: tags_inv_def)
    fix ev' assume ev': "find_event (st_db s') (pt_event p') = Some ev'" "ev_unique_tags ev'"
    from create_registration_participants[OF tried(6) p'] show "length (pt_tags p') \<le> 1"
    proof
      assume "p' \<in> set (db_participants (st_db s))"
      then show ?thesis using inv ev' find by (auto simp: tags_inv_def)
    next
      assume new: "pt_event p' = ev_id ev \<and> (pt_tags p' = [] \<or> (\<exists>ids. truthy (rg_tag_ids r) \<and>
        se_find_tags v (rg_tag_ids r) = Some ids \<and> pt_tags p' = filter (\<lambda>t. t \<in> set ids) (db_tags (st_db s))))"
      then have "ev' = ev" using ev ev' find by simp
      then have one: "json_len (rg_tag_ids r) = Inr 1" using reg ev'(2) by (auto simp: registration_ok_def unique_tags_of_def)
      from new show ?thesis
      proof (elim conjE disjE exE)
        fix ids assume ids: "se_find_tags v (rg_tag_ids r) = Some ids" "pt_tags p' = filter (\<lambda>t. t \<in> set ids) (db_tags (st_db s))"
        have "distinct (pt_tags p')" using inv ids(2) by (simp add: tags_inv_def)
        then have "length (pt_tags p') = card (set (pt_tags p'))" by (simp only: distinct_card)
        also have "\<dots> \<le> card (set ids)" unfolding ids(2) by (intro card_mono) auto
        also have "\<dots> \<le> 1" using look one ids(1) by (simp add: lookup_ok_def)
        finally show ?thesis .
      qed simp
    qed
  qed
qed (use inv in simp)

text \<open>The requests of the site and the admin's forms and deletions that touch events, tags or participants.\<close>

inductive portal_step :: "site \<Rightarrow> site \<Rightarrow> bool" where
  registered: "lookup_ok v \<Longrightarrow> register_view v is_post event_id body s = (reply, s') \<Longrightarrow> portal_step s s'"
| verified: "verify_email_view exists is_json token now s = (reply, s') \<Longrightarrow> portal_step s s'"
| reported: "device_check_report_view is_post fits event_id agent body s = (reply, s') \<Longrightarrow> portal_step s s'"
| saved: "save_event_form e f (st_db s) = (refused, d) \<Longrightarrow> portal_step s (s\<lparr>st_db := d\<rparr>)"
| listed: "portal_step s (s\<lparr>st_db := edit_status_in_list e st (st_db s)\<rparr>)"
| deleted: "delete_model i (st_db s) = (refused, d) \<Longrightarrow> portal_step s (s\<lparr>st_db := d\<rparr>)"
| deleted_many: "delete_queryset ids (st_db s) = (refused, d) \<Longrightarrow> portal_step s (s\<lparr>st_db := d\<rparr>)"

lemma drop_unused:
  assumes "\<And>i. i \<in> ids \<Longrightarrow> \<not> tag_in_use d i"
  shows "db_participants (drop_tags ids d) = db_participants d" "db_events (drop_tags ids d) = db_events d"
proof -
  have "filter (\<lambda>i. i \<notin> ids) (pt_tags p) = pt_tags p" if "p \<in> set (db_participants d)" for p
    using assms that by (intro filter_True) (auto simp: tag_in_use_def)
  then have "map (\<lambda>p. p\<lparr>pt_tags := filter (\<lambda>i. i \<notin> ids) (pt_tags p)\<rparr>) (db_participants d) = db_participants d"
    by (intro map_idI) simp
  then show "db_participants (drop_tags ids d) = db_participants d" "db_events (drop_tags ids d) = db_events d"
    by (simp_all add: drop_tags_def)
qed

lemma drop_tags_inv:
  assumes inv: "tags_inv d" and unused: "\<And>i. i \<in> ids \<Longrightarrow> \<not> tag_in_use d i"
  shows "tags_inv (drop_tags ids d)"
proof -
  have "find_event (drop_tags ids d) k = find_event d k" for k by (simp add: find_event_def drop_tags_def)
  moreover have "set (pt_tags p) \<subseteq> set (db_tags (drop_tags ids d))" if "p \<in> set (db_participants d)" for p
    using inv unused that by (fastforce simp: tags_inv_def tag_in_use_def drop_tags_def)
  moreover have "distinct (db_tags (drop_tags ids d))" using inv by (simp add: tags_inv_def drop_tags_def)
  ultimately show ?thesis using inv drop_unused(1)[OF unused] by (simp add: tags_inv_def)
qed

text \<open>No deletion touches a tag in use.\<close>

lemma delete_tags_inv:
  assumes inv: "tags_inv d"
  shows "delete_model i d = (refused, d') \<Longrightarrow> tags_inv d'" "delete_queryset ids d = (refused, d') \<Longrightarrow> tags_inv d'"
proof -
  show "delete_model i d = (refused, d') \<Longrightarrow> tags_inv d'"
    using inv drop_tags_inv[OF inv, of "{i}"] by (auto simp: delete_model_def split: if_splits)
  assume q: "delete_queryset ids d = (refused, d')"
  let ?rest = "if filter (tag_in_use d) ids \<noteq> [] then filter (\<lambda>i. i \<notin> set (filter (tag_in_use d) ids)) ids else ids"
  have "d' = snd (delete_queryset ids d)" using q by simp
  also have "\<dots> = (if ?rest \<noteq> [] then drop_tags (set ?rest) d else d)" by (simp only: delete_queryset_def Let_def snd_conv)
  finally have "d' = (if ?rest \<noteq> [] then drop_tags (set ?rest) d else d)" .
  moreover have "\<And>i. i \<in> set ?rest \<Longrightarrow> \<not> tag_in_use d i" by (auto simp: filter_empty_conv split: if_splits)
  then have "tags_inv (drop_tags (set ?rest) d)" by (rule drop_tags_inv[OF inv])
  ultimately show "tags_inv d'" using inv by simp
qed

lemma new_event_unique: "ev_unique_tags (new_event e f) = ef_unique_tags f"
  by (simp add: new_event_def)

lemma save_form_tags_inv:
  assumes inv: "tags_inv d" and run: "save_event_form e f d = (refused, d')"
  shows "tags_inv d'"
proof -
  have short: "length (pt_tags p) \<le> 1" if "multi_tag_participants e d = []" "p \<in> set (db_participants d)" "pt_event p = e" for p
    using that by (fastforce simp: multi_tag_participants_def event_participants_def filter_empty_conv)
  from run show ?thesis
  proof (cases rule: save_event_form_cases)
    case refused
    then show ?thesis using inv by simp
  next
    case created
    have find: "find_event (d\<lparr>db_events := db_events d @ [new_event e f]\<rparr>) k = (if k = e then Some (new_event e f) else find_event d k)" for k
      using created(2) by (auto simp: find_event_def find_append new_event_def split: option.splits)
    show ?thesis
      using inv short created(4) unfolding created(3) by (auto simp: tags_inv_def find new_event_unique split: if_splits)
  next
    case (changed ev)
    have find: "find_event d' k = (if k = e then Some (apply_event_form f ev) else find_event d k)" for k
      using changed(2,3) by (simp add: find_event_update apply_event_form_def)
    have "db_participants d' = db_participants d" "db_tags d' = db_tags d" using changed(3) by (simp_all add: update_event_def)
    then show ?thesis using inv short changed(2,4) by (auto simp: tags_inv_def find apply_event_form_def)
  qed
qed

lemma portal_step_inv:
  assumes "tags_inv (st_db s)" "portal_step s s'"
  shows "tags_inv (st_db s')"
  using assms(2)
proof cases
  case (registered v is_post event_id body reply)
  then show ?thesis using register_tags_inv[OF assms(1)] by blast
next
  case (verified exists is_json token now reply)
  from verified show ?thesis
  proof (cases rule: verify_view_cases)
    case (confirmed t)
    show ?thesis by (rule tags_inv_cong[OF assms(1)]) (auto simp: confirmed(4) confirm_participant_def)
  qed (use assms(1) in simp_all)
next
  case (reported is_post fits event_id agent body reply)
  then have "db_participants (st_db s') = db_participants (st_db s) \<and> db_tags (st_db s') = db_tags (st_db s) \<and> db_events (st_db s') = db_events (st_db s)"
    by (auto simp: device_check_report_view_def Let_def split: if_splits request_body.splits json.splits)
  then show ?thesis by (intro tags_inv_cong[OF assms(1)]) auto
next
  case (saved e f refused d)
  then show ?thesis using save_form_tags_inv[OF assms(1)] by simp
next
  case (listed e st)
  have "find_event (edit_status_in_list e st (st_db s)) k = (if k = e then map_option (\<lambda>r. r\<lparr>ev_status := st\<rparr>) (find_event (st_db s) e) else find_event (st_db s) k)" for k
    by (simp add: edit_status_in_list_def find_event_update)
  then show ?thesis using assms(1) listed by (auto simp: tags_inv_def edit_status_in_list_def update_event_def split: if_splits)
next
  case (deleted i refused d)
  then show ?thesis using delete_tags_inv(1)[OF assms(1)] by simp
next
  case (deleted_many ids refused d)
  then show ?thesis using delete_tags_inv(2)[OF assms(1)] by simp
qed

text \<open>C26. Whatever registrations, confirmations, device reports, event forms and tag deletions follow each other,
  participants carry only existing tags, and in an event with unique tags at most one: the form refuses a second one, the
  event form refuses the flag while somebody has two, and no deletion touches a tag in use.\<close>

theorem unique_tags_kept:
  assumes "tags_inv (st_db s)" "portal_step\<^sup>*\<^sup>* s s'"
  shows "tags_inv (st_db s')"
  using assms(2,1) by induction (auto intro: portal_step_inv)

definition tagged_db :: db where
  "tagged_db = empty_db\<lparr>db_events := [locked_event\<lparr>ev_unique_tags := True\<rparr>], db_tags := [UUID 80, UUID 81],
     db_participants := [(sample_participant 1)\<lparr>pt_tags := [UUID 80]\<rparr>]\<rparr>"

lemma unique_tags_kept_witness:
  "\<exists>refused d. delete_queryset [UUID 80, UUID 81] tagged_db = (refused, d) \<and> refused = [UUID 80] \<and> tags_inv d"
proof -
  obtain refused d where r: "delete_queryset [UUID 80, UUID 81] tagged_db = (refused, d)" by force
  have inv: "tags_inv (st_db \<lparr>st_db = tagged_db, st_sent = []\<rparr>)"
    by (simp add: tags_inv_def tagged_db_def empty_db_def sample_participant_def)
  have step: "portal_step \<lparr>st_db = tagged_db, st_sent = []\<rparr> \<lparr>st_db = d, st_sent = []\<rparr>"
    using deleted_many[of "[UUID 80, UUID 81]" "\<lparr>st_db = tagged_db, st_sent = []\<rparr>" refused d] r by simp
  have "tags_inv d" using unique_tags_kept[OF inv r_into_rtranclp[of portal_step, OF step]] by simp
  moreover have "refused = [UUID 80]"
    using r by (auto simp: delete_queryset_def tag_in_use_def tagged_db_def empty_db_def sample_participant_def Let_def)
  ultimately show ?thesis using r by simp
qed

section \<open>The monitoring page\<close>

text \<open>What a successful service call leaves: one log row of the event, and nothing but its rounds changed.\<close>

definition operated :: "uuid \<Rightarrow> db \<Rightarrow> db \<Rightarrow> bool" where
  "operated e d d' \<longleftrightarrow> (\<exists>l rs. ol_event l = e \<and> d' = d\<lparr>db_rounds := rs, db_operator_logs := db_operator_logs d @ [l]\<rparr>)"

lemma service_operated:
  "op_pause leader e now log_id d = Inr oc \<Longrightarrow> operated e d (oo_db oc)"
  "op_resume leader e now log_id d = Inr oc \<Longrightarrow> operated e d (oo_db oc)"
  "op_extend leader e seconds now log_id d = Inr oc \<Longrightarrow> operated e d (oo_db oc)"
proof -
  have log: "operated e d (add_operator_log e r a details now d)" for r a details
    unfolding operated_def add_operator_log_def
    by (intro exI[of _ "\<lparr>ol_event = e, ol_round = r, ol_action = a, ol_details = details, ol_performed_at = now\<rparr>"] exI[of _ "db_rounds d"]) simp
  have stretched: "operated e d (add_operator_log e r a details now (stretch_round e x delta d))" for r a details x delta
    unfolding operated_def add_operator_log_def stretch_round_def
    by (intro exI[of _ "\<lparr>ol_event = e, ol_round = r, ol_action = a, ol_details = details, ol_performed_at = now\<rparr>"] exI) simp
  show "op_pause leader e now log_id d = Inr oc \<Longrightarrow> operated e d (oo_db oc)"
    by (auto simp: op_pause_def Let_def log split: if_splits prod.splits option.splits event_phase.splits)
  show "op_resume leader e now log_id d = Inr oc \<Longrightarrow> operated e d (oo_db oc)"
    by (auto simp: op_resume_def Let_def stretched split: if_splits option.splits)
  show "op_extend leader e seconds now log_id d = Inr oc \<Longrightarrow> operated e d (oo_db oc)"
    by (auto simp: op_extend_def Let_def stretched split: if_splits prod.splits option.splits event_phase.splits)
qed

lemma leader_allowed:
  "op_pause True e now log_id d \<noteq> Inl OpNotLeader" "op_resume True e now log_id d \<noteq> Inl OpNotLeader"
  "op_extend True e seconds now log_id d \<noteq> Inl OpNotLeader"
  by (auto simp: op_pause_def op_resume_def op_extend_def Let_def split: if_splits prod.splits option.splits event_phase.splits)

text \<open>What each reply of the page means for the database and the broadcasts.\<close>

fun console_means :: "uuid \<Rightarrow> db \<Rightarrow> (string \<times> pydict) list \<Rightarrow> db \<Rightarrow> console_message option \<Rightarrow> bool" where
  "console_means e d out d' (Some (ActionFailed f)) \<longleftrightarrow> out = [] \<and> d' = d \<and> f \<noteq> ServiceRefused OpNotLeader"
| "console_means e d out d' (Some (NoteSaved i)) \<longleftrightarrow> out = [] \<and>
     (\<exists>p \<in> set (db_participants d). pt_id p = i \<and> pt_event p = e) \<and>
     (\<exists>text. text \<noteq> [] \<and> d' = d\<lparr>db_notes := db_notes d @ [\<lparr>in_event = e, in_participant = i, in_note = text\<rparr>]\<rparr>)"
| "console_means e d out d' (Some m) \<longleftrightarrow> length out = 1 \<and> operated e d d'"
| "console_means e d out d' None \<longleftrightarrow> out = [] \<and> d' = d"

lemma service_result_means:
  assumes "service_result send_up ok d r = (m, out, d')" "ok = Paused \<or> ok = Resumed \<or> (\<exists>n. ok = Extended n)"
    and "\<And>oc. r = Inr oc \<Longrightarrow> operated e d (oo_db oc)" "r \<noteq> Inl OpNotLeader"
  shows "console_means e d out d' (Some m)"
  using assms by (auto simp: service_result_def split: sum.splits if_splits)

lemma console_action_means:
  assumes "console_action v e form d = (m, out, d')"
  shows "console_means e d out d' m"
proof -
  have nt: "console_means e d [] (snd (add_incident_note e i s d)) (fst (add_incident_note e i s d))" for i s
    by (auto simp: add_incident_note_def find_Some_iff bind_eq_Some_conv split: option.splits)
  have fin: "console_means e d (fst (snd x)) (snd (snd x)) (Some (fst x))"
    if "x = service_result (ce_send_up v) ok d r" "ok = Paused \<or> ok = Resumed \<or> (\<exists>n. ok = Extended n)"
      "\<And>oc. r = Inr oc \<Longrightarrow> operated e d (oo_db oc)" "r \<noteq> Inl OpNotLeader" for x ok r
    using service_result_means[of "ce_send_up v" ok d r "fst x" "fst (snd x)" "snd (snd x)"] that by simp
  have pause: "console_means e d (fst (snd x)) (snd (snd x)) (Some (fst x))"
    if "x = service_result (ce_send_up v) Paused d (op_pause True e (ce_now v) (ce_log_id v) d)" for x
    using that by (rule fin) (auto intro: service_operated simp: leader_allowed)
  have resume: "console_means e d (fst (snd x)) (snd (snd x)) (Some (fst x))"
    if "x = service_result (ce_send_up v) Resumed d (op_resume True e (ce_now v) (ce_log_id v) d)" for x
    using that by (rule fin) (auto intro: service_operated simp: leader_allowed)
  have extend: "console_means e d (fst (snd x)) (snd (snd x)) (Some (fst x))"
    if "x = service_result (ce_send_up v) (Extended n) d (op_extend True e n (ce_now v) (ce_log_id v) d)" for x n
    using that by (rule fin) (auto intro: service_operated simp: leader_allowed)
  have none: "console_means e d [] d None" "console_means e d [] d (Some (ActionFailed SecondsNotInteger))" by simp_all
  have "console_means e d (fst (snd (console_action v e form d))) (snd (snd (console_action v e form d))) (fst (console_action v e form d))"
    unfolding console_action_def Let_def case_prod_unfold
    by (cases "form ''action''"; cases "form ''seconds''")
      (simp_all only: option.case split: option.split if_split, simp_all only: fst_conv snd_conv nt pause[OF refl] resume[OF refl] extend[OF refl] none simp_thms)
  then show ?thesis by (simp only: assms fst_conv snd_conv)
qed


section \<open>Reading an export back\<close>

text \<open>
  The reader of the default dialect on one text: \<open>InField\<close> collects a plain field, \<open>InQuoted\<close> a quoted one, \<open>QuoteSeen\<close>
  has just met a quote inside it, \<open>RowEnd\<close> the carriage return.
\<close>

datatype csv_state = StartField | InField | InQuoted | QuoteSeen | RowEnd

fun csv_scan :: "csv_state \<Rightarrow> string \<Rightarrow> string list \<Rightarrow> string \<Rightarrow> string list list" where
  "csv_scan st x row [] = (if st = StartField \<and> row = [] \<or> st = RowEnd then [] else [row @ [x]])"
| "csv_scan InQuoted x row (c # cs) = (if c = CHR 0x22 then csv_scan QuoteSeen x row cs else csv_scan InQuoted (x @ [c]) row cs)"
| "csv_scan RowEnd x row (c # cs) = (if c = CHR 0x0A then csv_scan StartField [] [] cs else csv_scan RowEnd x row cs)"
| "csv_scan st x row (c # cs) =
     (if c = CHR 0x22 \<and> st = StartField then csv_scan InQuoted x row cs
      else if c = CHR 0x22 \<and> st = QuoteSeen then csv_scan InQuoted (x @ [c]) row cs
      else if c = CHR '','' then csv_scan StartField [] (row @ [x]) cs
      else if c = CHR 0x0D then (row @ [x]) # csv_scan RowEnd [] [] cs
      else csv_scan InField (x @ [c]) row cs)"

definition csv_stop :: "string \<Rightarrow> bool" where
  "csv_stop rest \<longleftrightarrow> (\<exists>cs. rest = CHR '','' # cs \<or> rest = CHR 0x0D # cs)"

lemma scan_plain:
  "\<not> list_ex csv_special s \<Longrightarrow> csv_stop rest \<Longrightarrow> st \<in> {StartField, InField} \<Longrightarrow> (st = StartField \<longrightarrow> x = []) \<Longrightarrow>
   csv_scan st x row (s @ rest) = csv_scan QuoteSeen (x @ s) row rest"
proof (induction s arbitrary: st x)
  case Nil
  then show ?case by (cases st) (auto simp: csv_stop_def)
next
  case (Cons c s)
  then have c: "c \<noteq> CHR 0x22" "c \<noteq> CHR '',''" "c \<noteq> CHR 0x0D" by (auto simp: csv_special_def)
  then have "csv_scan st x row ((c # s) @ rest) = csv_scan InField (x @ [c]) row (s @ rest)" using Cons.prems(3) by (cases st) auto
  also have "\<dots> = csv_scan QuoteSeen ((x @ [c]) @ s) row rest" using Cons.prems by (intro Cons.IH) auto
  finally show ?case by simp
qed

lemma scan_quoted:
  "csv_scan InQuoted x row (concat (map (\<lambda>c. if c = CHR 0x22 then [c, c] else [c]) s) @ CHR 0x22 # rest) =
   csv_scan QuoteSeen (x @ s) row rest"
  by (induction s arbitrary: x) auto

lemma scan_field: "csv_stop rest \<Longrightarrow> csv_scan StartField [] row (csv_field s @ rest) = csv_scan QuoteSeen s row rest"
  using scan_plain[of s rest StartField "[]" row] scan_quoted[of "[]" row s rest] by (auto simp: csv_field_def)

lemma scan_fields:
  "cells \<noteq> [] \<Longrightarrow> csv_scan StartField [] row (csv_fields cells @ CHR 0x0D # cs) = (row @ cells) # csv_scan RowEnd [] [] cs"
proof (induction cells arbitrary: row rule: csv_fields.induct)
  case (2 s)
  then show ?case using scan_field[of "CHR 0x0D # cs" row s] by (simp add: csv_stop_def)
next
  case (3 s t ss)
  then show ?case using scan_field[of "CHR '','' # csv_fields (t # ss) @ CHR 0x0D # cs" row s] by (simp add: csv_stop_def)
qed simp

lemma scan_rows: "\<forall>cells \<in> set rows. cells \<noteq> [] \<Longrightarrow> csv_scan StartField [] [] (concat (map csv_row rows)) = rows"
proof (induction rows)
  case (Cons cells rows)
  have "csv_scan StartField [] [] (csv_row cells @ rest) = cells # csv_scan StartField [] [] rest" for rest
    using Cons.prems scan_fields[of cells "[]" "CHR 0x0A # rest"] by (auto simp: csv_row_def crlf_def)
  then show ?case using Cons by simp
qed simp

text \<open>The exported table reads back cell by cell: whatever names, addresses and tags hold, commas, quotes and line
  breaks included, a reader of the format gets the titles and then for every selected participant the seven
  values of the row, in order.\<close>

theorem csv_export_reads_back:
  assumes "header \<noteq> []"
  shows "csv_scan StartField [] [] (export_as_csv header tag_name created d ps) = header # map (export_row tag_name created d) ps"
  using scan_rows[of "header # map (export_row tag_name created d) ps"] assms by (auto simp: export_as_csv_def export_row_def)

lemma csv_export_reads_back_witness:
  "csv_scan StartField [] [] (export_as_csv [''id''] (\<lambda>_. ''a, b'') (\<lambda>_. []) tagged_db (db_participants tagged_db)) \<noteq> []"
  using csv_export_reads_back[of "[''id'']" "\<lambda>_. ''a, b''" "\<lambda>_. []" tagged_db "db_participants tagged_db"] by simp

end
