(* ===== verification/Commands.thy ===== *)
theory Commands
  imports Admin_Props Auth Realtime_Props
begin

text \<open>
  The management commands of \<open>apps/events/management/commands\<close>: \<open>generate_schedule\<close>, \<open>orchestrator_broadcast\<close>
  and \<open>seed_event\<close>. A \<open>CommandError\<close> is \<open>Refused\<close>, any other exception \<open>Uncaught\<close>; what is
  printed is returned as values.
\<close>

section \<open>Generating a schedule\<close>

datatype command_error =
    InvalidUuid string
  | EventMissing
  | InvalidWeights scoring_error
  | FewerThanTwoParticipants nat
  | NotGenerated matching_error
  | InvalidSchedule "schedule_violation list"
  | RoundRequired
  | RoundMissing int

datatype command_failure = Refused command_error | UncaughtScoring scoring_error | UncaughtPersist persist_error
  | UncaughtProtocol protocol_error | UncaughtBadKey string

text \<open>\<open>ValueError\<close>s of the weights are turned into a \<open>CommandError\<close>, other exceptions are not.\<close>

fun scoring_value_error :: "scoring_error \<Rightarrow> bool" where
  "scoring_value_error (FloatValueError _) = True"
| "scoring_value_error (BadWeight _) = True"
| "scoring_value_error _ = False"

record schedule_summary =
  sm_dry_run :: bool
  sm_total_pairs :: nat
  sm_rounds :: "(nat \<times> nat \<times> rat option \<times> string option) list"

definition schedule_summary_of :: "bool \<Rightarrow> bool \<Rightarrow> generated_schedule \<Rightarrow> schedule_summary" where
  "schedule_summary_of dry_run verbose schedule =
     \<lparr>sm_dry_run = dry_run, sm_total_pairs = sum_list (map (\<lambda>r. length (sr_pairs r)) schedule),
      sm_rounds = (if verbose then map (\<lambda>r. (sr_number r, length (sr_pairs r),
          map_option py_sum (finite_scores (sr_pairs r)), sr_unmatched_pid r)) schedule else [])\<rparr>"

definition generate_schedule_command :: "(nat \<Rightarrow> uuid) \<Rightarrow> (string \<Rightarrow> uuid) \<Rightarrow> string \<Rightarrow> bool \<Rightarrow> bool \<Rightarrow> db
    \<Rightarrow> (command_failure + schedule_summary) \<times> db" where
  "generate_schedule_command round_id pair_id event_id dry_run verbose d =
     (case uuid_of_string event_id of
        None \<Rightarrow> (Inl (Refused (InvalidUuid event_id)), d)
      | Some e \<Rightarrow>
      (case find_event d e of
        None \<Rightarrow> (Inl (Refused EventMissing), d)
      | Some ev \<Rightarrow>
      (case build_match_input ev d of
        Inl err \<Rightarrow> (Inl (if scoring_value_error err then Refused (InvalidWeights err) else UncaughtScoring err), d)
      | Inr inp \<Rightarrow>
          if length (mi_participants inp) < 2
          then (Inl (Refused (FewerThanTwoParticipants (length (mi_participants inp)))), d)
          else case generate_schedule inp of
            Inl err \<Rightarrow> (Inl (Refused (NotGenerated err)), d)
          | Inr schedule \<Rightarrow>
              (let violations = validate_schedule schedule (set (pid_list inp)) (int (ev_num_rounds ev)) in
               if violations \<noteq> [] then (Inl (Refused (InvalidSchedule violations)), d)
               else if dry_run then (Inr (schedule_summary_of dry_run verbose schedule), d)
               else case persist_schedule ev round_id pair_id schedule d of
                 Inl err \<Rightarrow> (Inl (UncaughtPersist err), d)
               | Inr d' \<Rightarrow> (Inr (schedule_summary_of dry_run verbose schedule), d')))))"

section \<open>Broadcasting by hand\<close>

datatype broadcast_action = BroadcastPairing | BroadcastRoundStart | BroadcastWarning | BroadcastRoundEnd | BroadcastEventEnd | BroadcastDispatch

datatype broadcast_result = BroadcastReport pydict | DispatchReport dispatch_report

text \<open>\<open>clk\<close> is the clock of the cache. Only a dispatch reads and marks what was already sent.\<close>

definition orchestrator_broadcast :: "(uuid \<Rightarrow> string) \<Rightarrow> channel_layer \<Rightarrow> int \<Rightarrow> string \<Rightarrow> broadcast_action \<Rightarrow> int option
    \<Rightarrow> string \<Rightarrow> int \<Rightarrow> int \<Rightarrow> db \<Rightarrow> cache \<Rightarrow> (command_failure + broadcast_result) \<times> outbox \<times> cache" where
  "orchestrator_broadcast tag_name layer final_seconds event_id action round_number reason now clk d c =
     (case uuid_of_string event_id of
        None \<Rightarrow> (Inl (UncaughtBadKey event_id), [], c)
      | Some e \<Rightarrow>
        if find_event d e = None then (Inl (Refused EventMissing), [], c)
        else
          (let sent = (\<lambda>(r, out). (case r of Inl err \<Rightarrow> Inl (UncaughtProtocol err) | Inr report \<Rightarrow> Inr (BroadcastReport report), out, c));
               on_round = (\<lambda>f. case round_number of
                   None \<Rightarrow> (Inl (Refused RoundRequired), [], c)
                 | Some n \<Rightarrow> (case find (\<lambda>r. rd_event r = e \<and> int (rd_number r) = n) (db_rounds d) of
                     None \<Rightarrow> (Inl (Refused (RoundMissing n)), [], c)
                   | Some r \<Rightarrow> sent (f r)))
           in case action of
                BroadcastPairing \<Rightarrow> on_round (broadcast_pairing tag_name layer d)
              | BroadcastRoundStart \<Rightarrow> on_round (broadcast_round_start tag_name layer d now)
              | BroadcastWarning \<Rightarrow> on_round (broadcast_final_seconds_warning layer e now)
              | BroadcastRoundEnd \<Rightarrow> on_round (broadcast_round_end layer e now)
              | BroadcastEventEnd \<Rightarrow> sent (broadcast_event_end layer e now reason None)
              | BroadcastDispatch \<Rightarrow>
                  (let (r, st) = dispatch tag_name layer final_seconds True e now clk d c
                   in (case r of Inl err \<Rightarrow> Inl (UncaughtProtocol err) | Inr report \<Rightarrow> Inr (DispatchReport report), ds_out st, ds_cache st))))"

section \<open>Seeding an event\<close>

definition sample_tags :: "(string \<times> string) list" where
  "sample_tags =
     [(''Technology'', ''common''), (''Entrepreneurship'', ''common''), (''Design'', ''common''), (''Marketing'', ''common''),
      (''Leadership'', ''common''), (''Product'', ''medium''), (''Data Science'', ''medium''), (''Startups'', ''medium''),
      (''Remote Work'', ''medium''), (''Climate'', ''medium''), (''WebRTC'', ''rare''), (''Rust'', ''rare''),
      (''Accessibility'', ''rare''), (''Quantum Computing'', ''rare''), (''Biohacking'', ''rare''), (''Urban Gardening'', ''rare'')]"

definition first_names :: "string list" where
  "first_names = [''Alex'', ''Blair'', ''Casey'', ''Drew'', ''Elliot'', ''Frankie'', ''Jordan'', ''Kai'', ''Morgan'', ''Riley'', ''Sam'', ''Taylor'']"

definition last_names :: "string list" where
  "last_names = [''Adams'', ''Baker'', ''Carter'', ''Diaz'', ''Evans'', ''Foster'', ''Green'', ''Hughes'', ''Irwin'', ''Jones'', ''Khan'', ''Lee'']"

record seed_options =
  so_participants :: int
  so_event_name :: "string option"
  so_description :: string
  so_num_rounds :: int
  so_round_duration :: int
  so_break_duration :: int
  so_start_time :: "string option"
  so_confirm_production :: bool

text \<open>
  The draws of the random generator for one participant: indices of the names, sixteen numbers of
  \<open>[0, 1)\<close> for the tags, the fallback tag, and the number and index of the extra rare tag.
\<close>

record draws =
  dr_first :: nat
  dr_last :: nat
  dr_tags :: "rat list"
  dr_fallback :: nat
  dr_extra :: rat
  dr_rare :: nat

text \<open>
  \<open>se_parse\<close> reads an ISO text as an instant with the current time zone as default; \<open>se_tag\<close> finds the tag of a
  name; the rest are fresh keys, the formatted date and random hexadecimal texts.
\<close>

record seed_env =
  sd_production :: bool
  sd_now :: int
  sd_parse :: "string \<Rightarrow> int option"
  sd_stamp :: string
  sd_hex :: string
  sd_event_id :: uuid
  sd_round_id :: "nat \<Rightarrow> uuid"
  sd_participant_id :: "nat \<Rightarrow> uuid"
  sd_tag :: "string \<Rightarrow> uuid option"
  sd_new_tag :: "string \<Rightarrow> uuid"
  sd_token_hex :: "nat \<Rightarrow> string"
  sd_mk_hash :: "string \<Rightarrow> string"
  sd_draws :: "nat \<Rightarrow> draws"

datatype seed_error = RefusingProduction | NoParticipants | NoRounds | BadDurations | BadStartTime | ConstraintsBroken

definition minutes :: "int \<Rightarrow> int" where
  "minutes n = n * 60 * 1000000"

definition parse_start_time :: "seed_env \<Rightarrow> string option \<Rightarrow> int option" where
  "parse_start_time v value =
     (case value of None \<Rightarrow> Some (sd_now v + 60 * minutes 1)
      | Some s \<Rightarrow> if s = [] then Some (sd_now v + 60 * minutes 1) else sd_parse v s)"

definition unique_event_name :: "seed_env \<Rightarrow> string option \<Rightarrow> string" where
  "unique_event_name v base_name =
     (let base = (case base_name of None \<Rightarrow> [] | Some b \<Rightarrow> b);
          base = (if base = [] then ''Synthetic pairing test event'' else base)
      in take 200 (base @ '' ('' @ sd_stamp v @ ''-'' @ take 6 (sd_hex v) @ '')''))"

definition pad4 :: "nat \<Rightarrow> string" where
  "pad4 n = replicate (4 - length (show_nat n)) CHR ''0'' @ show_nat n"

definition participant_name :: "nat \<Rightarrow> draws \<Rightarrow> string" where
  "participant_name number dr =
     (first_names ! dr_first dr) @ '' '' @ (last_names ! dr_last dr) @ '' '' @ pad4 number"

definition tag_weight_of :: "string \<Rightarrow> rat" where
  "tag_weight_of category = (if category = ''common'' then fl64 (22 / 100) else if category = ''medium'' then fl64 (7 / 100) else fl64 (2 / 100))"

definition select_tags :: "uuid list \<Rightarrow> draws \<Rightarrow> uuid list" where
  "select_tags tags dr =
     (let selected = map fst (filter (\<lambda>(tag, weight, x). x < weight)
            (zip tags (zip (map (\<lambda>(_, category). tag_weight_of category) sample_tags) (dr_tags dr))));
          selected = (if selected = [] then [tags ! dr_fallback dr] else selected);
          rare = tags ! (11 + dr_rare dr)
      in if dr_extra dr < fl64 (12 / 100) \<and> rare \<notin> set selected then selected @ [rare] else selected)"

definition seed_tags :: "seed_env \<Rightarrow> uuid list" where
  "seed_tags v = map (\<lambda>(name, _). case sd_tag v name of Some t \<Rightarrow> t | None \<Rightarrow> sd_new_tag v name) sample_tags"

definition seed_event_row :: "seed_env \<Rightarrow> seed_options \<Rightarrow> int \<Rightarrow> event_row" where
  "seed_event_row v o1 start_time =
     \<lparr>ev_id = sd_event_id v, ev_name = unique_event_name v (so_event_name o1), ev_description = so_description o1,
      ev_status = ES_Draft, ev_num_rounds = nat (so_num_rounds o1), ev_round_duration = minutes (so_round_duration o1),
      ev_break_duration = minutes (so_break_duration o1), ev_start_time = start_time,
      ev_scoring_weights = JObj [(''tag_overlap'', JFloat (Fin 1))], ev_unique_tags = False\<rparr>"

definition seed_round :: "seed_env \<Rightarrow> event_row \<Rightarrow> nat \<Rightarrow> round_row" where
  "seed_round v ev number =
     (let starts_at = ev_start_time ev + (int number - 1) * (ev_round_duration ev + ev_break_duration ev)
      in \<lparr>rd_id = sd_round_id v number, rd_event = ev_id ev, rd_number = number, rd_status = RS_Scheduled,
          rd_starts_at = starts_at, rd_ends_at = starts_at + ev_round_duration ev\<rparr>)"

definition seed_participant :: "seed_env \<Rightarrow> event_row \<Rightarrow> nat \<Rightarrow> participant_row" where
  "seed_participant v ev number =
     (let dr = sd_draws v number; raw = ''seed-'' @ uuid_str (ev_id ev) @ ''-'' @ show_nat number @ ''-'' @ sd_token_hex v number
      in \<lparr>pt_id = sd_participant_id v number, pt_event = ev_id ev, pt_name = participant_name number dr,
          pt_email = ''participant-'' @ show_nat number @ ''@seed.invalid'', pt_status = PS_Waiting,
          pt_token_hash = sd_mk_hash v raw, pt_token_digest = sha256_hex raw, pt_token_expires_at = None, pt_joined_at = None,
          pt_age = None, pt_gender = JStr ''Other/Prefer Not to Say'', pt_want_to_date = JStr ''Any'', pt_whatsapp = JNull,
          pt_tags = select_tags (seed_tags v) dr\<rparr>)"

definition seed_new_tags :: "seed_env \<Rightarrow> uuid list" where
  "seed_new_tags v = map (sd_new_tag v) (filter (\<lambda>name. sd_tag v name = None) (map fst sample_tags))"

definition seed_rows :: "seed_env \<Rightarrow> event_row \<Rightarrow> nat \<Rightarrow> db \<Rightarrow> db" where
  "seed_rows v ev n d = d\<lparr>db_tags := db_tags d @ seed_new_tags v, db_events := db_events d @ [ev],
     db_rounds := db_rounds d @ map (seed_round v ev) [1..<ev_num_rounds ev + 1],
     db_participants := db_participants d @ map (seed_participant v ev) [1..<n + 1]\<rparr>"

text \<open>The transaction: all rows or none.\<close>

definition seed_event :: "seed_env \<Rightarrow> seed_options \<Rightarrow> db \<Rightarrow> seed_error + db" where
  "seed_event v o1 d =
     (if sd_production v \<and> \<not> so_confirm_production o1 then Inl RefusingProduction
      else if so_participants o1 < 1 then Inl NoParticipants
      else if so_num_rounds o1 < 1 then Inl NoRounds
      else if so_round_duration o1 < 1 \<or> so_break_duration o1 < 0 then Inl BadDurations
      else case parse_start_time v (so_start_time o1) of
        None \<Rightarrow> Inl BadStartTime
      | Some start_time \<Rightarrow>
          (let ev = seed_event_row v o1 start_time; d' = seed_rows v ev (nat (so_participants o1)) d
           in if distinct (db_tags d') \<and> distinct (map ev_id (db_events d')) \<and> rounds_ok (db_rounds d') \<and>
                distinct (map rd_id (db_rounds d')) \<and> distinct (map pt_id (db_participants d')) \<and>
                distinct (map (\<lambda>p. (pt_event p, pt_name p)) (db_participants d'))
              then Inr d' else Inl ConstraintsBroken))"

end
