(* ===== verification/Commands_Props.thy ===== *)
theory Commands_Props
  imports Commands
begin

text \<open>
  The schedule command stores what the matching page would lock; a seeded event is a usable event.
\<close>

section \<open>The command and the page\<close>

lemma total_pairs_reported:
  assumes "valid_schedule pids R sched" "build_report sched [] = Some m"
  shows "mr_total_pairs m = sum_list (map (\<lambda>r. length (sr_pairs r)) sched)"
proof -
  have "\<forall>rnd \<in> set sched. \<forall>sp \<in> set (sr_pairs rnd). \<exists>x. sp_score sp = Fin x \<and> 0 \<le> x \<and> x \<le> 1"
    using assms(1) unfolding valid_schedule_def round_valid_def pair_ok_def by blast
  from report_rounds_ok[OF this, of "\<lparr>mr_rounds = [], mr_total_pairs = 0, mr_total_zero_tag_pairs = 0,
      mr_bye_distribution = [], mr_violation_count = length [], mr_violations = []\<rparr>"]
  show ?thesis using assms(2) unfolding build_report_def by auto
qed

lemma command_matches_page:
  assumes wf: "participants_wf d" and fresh: "fresh_round_ids round_id d"
    and ev: "find_event d e = Some ev" and e: "uuid_int e < 2 ^ 128" and unlocked: "\<not> mp_locked page"
    and cmd: "generate_schedule_command round_id pair_id (uuid_str e) dry verbose d = (r, d1)"
    and lock: "run_matching round_id pair_id ev True page d = (page', d2)"
  shows "case r of
      Inl err \<Rightarrow> d1 = d \<and> (\<forall>vs. err \<noteq> Refused (InvalidSchedule vs)) \<and> d2 = d \<and> \<not> mp_locked page'
    | Inr m \<Rightarrow> Some (sm_total_pairs m) = map_option mr_total_pairs (mp_report page') \<and>
        (if dry then d1 = d else d1 = d2 \<and> mp_locked page' \<and> (\<exists>sched. schedule_stored round_id ev sched d d1))"
proof -
  have id: "uuid_of_string (uuid_str e) = Some e" by (rule uuid_of_string_str[OF e])
  note c = cmd[unfolded generate_schedule_command_def id option.case ev Let_def]
  note l = lock[unfolded run_matching_def Let_def]
  show ?thesis
  proof (cases "build_match_input ev d")
    case (Inl err)
    then show ?thesis using c l unlocked by (auto split: if_splits)
  next
    case inp: (Inr inp)
    show ?thesis
    proof (cases "length (mi_participants inp) < 2")
      case True
      then show ?thesis using c l unlocked inp by auto
    next
      case enough: False
      show ?thesis
      proof (cases "generate_schedule inp")
        case (Inl err)
        then show ?thesis using c l unlocked inp enough by auto
      next
        case gen: (Inr sched)
        obtain m where m: "build_report sched [] = Some m" "can_lock m" using generated_for_event(3)[OF inp wf gen] by blast
        note none = generated_for_event(2)[OF inp wf gen]
        have total: "mr_total_pairs m = sum_list (map (\<lambda>r. length (sr_pairs r)) sched)"
          by (rule total_pairs_reported[OF generated_for_event(1)[OF inp wf gen] m(1)])
        have c': "(r, d1) = (if dry then (Inr (schedule_summary_of dry verbose sched), d)
            else case persist_schedule ev round_id pair_id sched d of Inl err \<Rightarrow> (Inl (UncaughtPersist err), d)
              | Inr d' \<Rightarrow> (Inr (schedule_summary_of dry verbose sched), d'))"
          using c enough by (simp only: inp gen sum.case none if_False simp_thms)
        have l': "(page', d2) = (case persist_schedule ev round_id pair_id sched d of
            Inl e \<Rightarrow> (page\<lparr>mp_report := Some m, mp_error := Some (NotPersisted e)\<rparr>, d)
          | Inr d' \<Rightarrow> (page\<lparr>mp_report := Some m, mp_locked := True, mp_has_schedule := True\<rparr>, d'))"
          using l enough m by (simp only: inp gen sum.case none if_False if_True simp_thms option.sel)
        show ?thesis
        proof (cases "persist_schedule ev round_id pair_id sched d")
          case (Inl err)
          then show ?thesis using c' l' unlocked total by (auto simp: schedule_summary_of_def split: if_splits)
        next
          case (Inr d')
          then show ?thesis
            using c' l' total persist_generated[OF inp wf gen fresh, of pair_id]
            by (auto simp: schedule_summary_of_def split: if_splits)
        qed
      qed
    qed
  qed
qed

text \<open>The schedule command and the lock of the matching page are one operation: on an event in a status the page
  accepts, the command succeeds exactly when a confirmed lock does, with the same number of pairs, and leaves the
  same database. The command itself asks for no status and no confirmation: for every event it either stores a
  valid schedule for the participants in place of what was stored, or fails and writes nothing, and never for constraint violations.\<close>

theorem command_agrees_with_lock:
  assumes wf: "participants_wf d" and fresh: "fresh_round_ids round_id d"
    and ev: "find_event d e = Some ev" and e: "uuid_int e < 2 ^ 128"
    and cmd: "generate_schedule_command round_id pair_id (uuid_str e) False verbose d = (r, d1)"
    and lock: "matching_report_view round_id pair_id e (Some [''action'' \<mapsto> ''lock'', ''confirmed'' \<mapsto> ''yes'']) d = (Some page, d2)"
  shows "(case r of Inl err \<Rightarrow> d1 = d \<and> (\<forall>vs. err \<noteq> Refused (InvalidSchedule vs))
      | Inr m \<Rightarrow> \<exists>sched. schedule_stored round_id ev sched d d1) \<and>
    (ev_status ev \<in> matching_runnable_states \<longrightarrow> d1 = d2 \<and> (mp_locked page \<longleftrightarrow> (\<exists>m. r = Inr m)) \<and>
       (\<forall>m. r = Inr m \<longrightarrow> Some (sm_total_pairs m) = map_option mr_total_pairs (mp_report page)))"
proof -
  let ?page = "\<lparr>mp_report = None, mp_error = None, mp_can_run = ev_status ev \<in> matching_runnable_states,
      mp_has_schedule = event_rounds d e \<noteq> [], mp_locked = False, mp_needs_confirmation = False\<rparr>"
  obtain page' d' where run: "run_matching round_id pair_id ev True ?page d = (page', d')" by force
  have same: "(page', d') = (page, d2)" if "ev_status ev \<in> matching_runnable_states"
    using lock that run by (simp add: matching_report_view_def ev Let_def field_or_def)
  have "\<not> mp_locked ?page" by simp
  from command_matches_page[OF wf fresh ev e this cmd run] same show ?thesis by (cases r) auto
qed

lemma command_agrees_with_lock_witness:
  "\<exists>r d1. generate_schedule_command UUID (\<lambda>_. UUID 0) (uuid_str (UUID 7)) False True two_guests_db = (r, d1) \<and>
     (\<forall>vs. r \<noteq> Inl (Refused (InvalidSchedule vs)))"
proof -
  obtain r d1 where c: "generate_schedule_command UUID (\<lambda>_. UUID 0) (uuid_str (UUID 7)) False True two_guests_db = (r, d1)" by force
  have w: "participants_wf two_guests_db" "fresh_round_ids UUID two_guests_db" "find_event two_guests_db (UUID 7) = Some locked_event"
    by (simp_all add: participants_wf_def two_guests_db_def empty_db_def sample_participant_def fresh_round_ids_def inj_def find_event_def locked_event_def)
  then obtain page d2 where l: "matching_report_view UUID (\<lambda>_. UUID 0) (UUID 7) (Some [''action'' \<mapsto> ''lock'', ''confirmed'' \<mapsto> ''yes'']) two_guests_db = (Some page, d2)"
    by (simp add: matching_report_view_def field_or_def matching_runnable_states_def locked_event_def)
  have "uuid_int (UUID 7) < 2 ^ 128" by simp
  from command_agrees_with_lock[OF w(1,2,3) this c l] c show ?thesis by (cases r) auto
qed

section \<open>Seeded events\<close>

lemma pad4_no_space: "c \<in> set (pad4 n) \<Longrightarrow> c \<noteq> CHR '' ''"
  using show_nat_digits[of c n] by (auto simp: pad4_def is_digit_def split: if_splits)

lemma digits_value_zeros: "digits_value (replicate k CHR ''0'' @ ds) = digits_value ds"
  by (induction k) (auto simp: digits_value_def)

lemma pad4_inj: "pad4 m = pad4 n \<Longrightarrow> m = n"
proof -
  assume "pad4 m = pad4 n"
  then have "digits_value (pad4 m) = digits_value (pad4 n)" by simp
  then show ?thesis by (simp add: pad4_def digits_value_zeros digits_value_show)
qed

text \<open>The number ends the name, so no two participants share one.\<close>

lemma participant_name_inj: "participant_name m dr = participant_name n dr' \<Longrightarrow> m = n"
proof -
  have last_word: "rev (takeWhile (\<lambda>c. c \<noteq> CHR '' '') (rev (participant_name k dr))) = pad4 k" for k dr
  proof -
    have "rev (participant_name k dr) = rev (pad4 k) @ CHR '' '' # rev (first_names ! dr_first dr @ '' '' @ last_names ! dr_last dr)"
      by (simp add: participant_name_def)
    moreover have "takeWhile (\<lambda>c. c \<noteq> CHR '' '') (rev (pad4 k) @ CHR '' '' # xs) = rev (pad4 k)" for xs
      by (subst takeWhile_append2) (use pad4_no_space in auto)
    ultimately show ?thesis by simp
  qed
  assume "participant_name m dr = participant_name n dr'"
  then have "pad4 m = pad4 n" using last_word[of m dr] last_word[of n dr'] by simp
  then show ?thesis by (rule pad4_inj)
qed

text \<open>The new keys are fresh and the existing tags are found under different names.\<close>

definition seed_fresh :: "seed_env \<Rightarrow> db \<Rightarrow> bool" where
  "seed_fresh v d \<longleftrightarrow> sd_event_id v \<notin> set (map ev_id (db_events d)) \<and>
     inj (sd_round_id v) \<and> range (sd_round_id v) \<inter> set (map rd_id (db_rounds d)) = {} \<and>
     inj (sd_participant_id v) \<and> range (sd_participant_id v) \<inter> set (map pt_id (db_participants d)) = {} \<and>
     (\<forall>r \<in> set (db_rounds d). rd_event r \<noteq> sd_event_id v) \<and> (\<forall>p \<in> set (db_participants d). pt_event p \<noteq> sd_event_id v) \<and>
     inj_on (sd_new_tag v) (set (map fst sample_tags)) \<and> sd_new_tag v ` set (map fst sample_tags) \<inter> set (db_tags d) = {} \<and>
     (\<forall>n t. sd_tag v n = Some t \<longrightarrow> t \<in> set (db_tags d)) \<and> inj_on (sd_tag v) {n. sd_tag v n \<noteq> None}"

lemma seed_freshD:
  assumes "seed_fresh v d"
  shows "range (sd_round_id v) \<inter> set (map rd_id (db_rounds d)) = {}"
    and "range (sd_participant_id v) \<inter> set (map pt_id (db_participants d)) = {}"
    and "sd_new_tag v ` set (map fst sample_tags) \<inter> set (db_tags d) = {}"
    and "sd_tag v n = Some t \<Longrightarrow> t \<in> set (db_tags d)"
  using assms unfolding seed_fresh_def by simp_all

text \<open>Tables whose keys are in order.\<close>

definition keys_ok :: "db \<Rightarrow> bool" where
  "keys_ok d \<longleftrightarrow> distinct (db_tags d) \<and> distinct (map ev_id (db_events d)) \<and> rounds_ok (db_rounds d) \<and>
     distinct (map rd_id (db_rounds d)) \<and> distinct (map pt_id (db_participants d)) \<and>
     distinct (map (\<lambda>p. (pt_event p, pt_name p)) (db_participants d))"

lemma sample_tags_distinct: "distinct (map fst sample_tags)"
  by (simp add: sample_tags_def)

lemma seed_row_keys [simp]:
  "rd_id (seed_round v ev n) = sd_round_id v n" "pt_id (seed_participant v ev n) = sd_participant_id v n"
  "pt_event (seed_participant v ev n) = ev_id ev" "rd_event (seed_round v ev n) = ev_id ev" "rd_number (seed_round v ev n) = n"
  by (simp_all add: seed_round_def seed_participant_def Let_def)

lemma seed_rounds_ok:
  assumes ok: "rounds_ok rs" "\<forall>r \<in> set rs. rd_event r \<noteq> ev_id ev" and pos: "0 < ev_round_duration ev"
  shows "rounds_ok (rs @ map (seed_round v ev) ns) \<longleftrightarrow> distinct ns"
  using assms by (auto simp: rounds_ok_def seed_round_def Let_def comp_def distinct_map inj_on_def)

lemma keys_ok_extend:
  assumes ok: "keys_ok d"
    and "distinct tg" "set tg \<inter> set (db_tags d) = {}" and "ev_id ev \<notin> set (map ev_id (db_events d))"
    and "rounds_ok (db_rounds d @ rs)" "distinct (map rd_id rs)" "set (map rd_id rs) \<inter> set (map rd_id (db_rounds d)) = {}"
    and "distinct (map pt_id ps)" "set (map pt_id ps) \<inter> set (map pt_id (db_participants d)) = {}"
    and "distinct (map (\<lambda>p. (pt_event p, pt_name p)) ps)" "\<forall>p \<in> set ps. \<forall>q \<in> set (db_participants d). pt_event p \<noteq> pt_event q"
  shows "keys_ok (d\<lparr>db_tags := db_tags d @ tg, db_events := db_events d @ [ev], db_rounds := db_rounds d @ rs,
     db_participants := db_participants d @ ps\<rparr>)"
proof -
  have "set (map (\<lambda>p. (pt_event p, pt_name p)) (db_participants d)) \<inter> set (map (\<lambda>p. (pt_event p, pt_name p)) ps) = {}"
    using assms(11) by force
  then show ?thesis using assms(1-10) unfolding keys_ok_def by (simp add: Int_commute)
qed

lemma seed_keys_ok:
  assumes ok: "keys_ok d" and fresh: "seed_fresh v d" and e: "ev_id ev = sd_event_id v" and pos: "0 < ev_round_duration ev"
  shows "keys_ok (seed_rows v ev k d)"
  unfolding seed_rows_def
proof (rule keys_ok_extend[OF ok])
  note f = fresh[unfolded seed_fresh_def]
  show "distinct (seed_new_tags v)"
    using f sample_tags_distinct by (auto simp: seed_new_tags_def distinct_map intro: inj_on_subset)
  have "set (seed_new_tags v) \<subseteq> sd_new_tag v ` set (map fst sample_tags)" by (auto simp: seed_new_tags_def)
  then show "set (seed_new_tags v) \<inter> set (db_tags d) = {}" using seed_freshD(3)[OF fresh] by blast
  show "ev_id ev \<notin> set (map ev_id (db_events d))" using f e by simp
  show "rounds_ok (db_rounds d @ map (seed_round v ev) [1..<ev_num_rounds ev + 1])"
    using seed_rounds_ok[of "db_rounds d" ev v "[1..<ev_num_rounds ev + 1]"] ok f pos e by (auto simp: keys_ok_def)
  show "distinct (map rd_id (map (seed_round v ev) [1..<ev_num_rounds ev + 1]))" "distinct (map pt_id (map (seed_participant v ev) [1..<k + 1]))"
    using f by (auto simp: comp_def distinct_map intro: inj_on_subset)
  have "set (map rd_id (map (seed_round v ev) [1..<ev_num_rounds ev + 1])) \<subseteq> range (sd_round_id v)" by auto
  then show "set (map rd_id (map (seed_round v ev) [1..<ev_num_rounds ev + 1])) \<inter> set (map rd_id (db_rounds d)) = {}" using seed_freshD(1)[OF fresh] by blast
  have "set (map pt_id (map (seed_participant v ev) [1..<k + 1])) \<subseteq> range (sd_participant_id v)" by auto
  then show "set (map pt_id (map (seed_participant v ev) [1..<k + 1])) \<inter> set (map pt_id (db_participants d)) = {}" using seed_freshD(2)[OF fresh] by blast
  show "distinct (map (\<lambda>p. (pt_event p, pt_name p)) (map (seed_participant v ev) [1..<k + 1]))"
    by (auto simp: seed_participant_def Let_def comp_def distinct_map inj_on_def dest: participant_name_inj)
  show "\<forall>p \<in> set (map (seed_participant v ev) [1..<k + 1]). \<forall>q \<in> set (db_participants d). pt_event p \<noteq> pt_event q"
    using f e by auto
qed

lemma seed_tags_facts:
  assumes fresh: "seed_fresh v d"
  shows "distinct (seed_tags v)" "length (seed_tags v) = 16"
    "set (seed_tags v) \<subseteq> set (db_tags d @ seed_new_tags v)"
proof -
  let ?f = "\<lambda>name. case sd_tag v name of Some t \<Rightarrow> t | None \<Rightarrow> sd_new_tag v name"
  have map: "seed_tags v = map ?f (map fst sample_tags)" by (simp add: seed_tags_def case_prod_unfold)
  have new: "sd_new_tag v m \<noteq> t" if "m \<in> set (map fst sample_tags)" "sd_tag v n = Some t" for m n t
    using fresh that unfolding seed_fresh_def by fastforce
  have "inj_on ?f (set (map fst sample_tags))"
  proof (rule inj_onI)
    fix m n assume mn: "m \<in> set (map fst sample_tags)" "n \<in> set (map fst sample_tags)" "?f m = ?f n"
    show "m = n"
    proof (cases "sd_tag v m"; cases "sd_tag v n")
      assume "sd_tag v m = None" "sd_tag v n = None"
      then show ?thesis using fresh mn unfolding seed_fresh_def by (auto dest: inj_onD)
    next
      fix t u assume "sd_tag v m = Some t" "sd_tag v n = Some u"
      then show ?thesis using fresh mn(3) unfolding seed_fresh_def by (auto dest!: inj_onD[where x = m and y = n])
    qed (use new mn in \<open>force+\<close>)
  qed
  then show "distinct (seed_tags v)" unfolding map using sample_tags_distinct by (simp add: distinct_map del: map_map)
  show "length (seed_tags v) = 16" by (simp add: seed_tags_def sample_tags_def)
  show "set (seed_tags v) \<subseteq> set (db_tags d @ seed_new_tags v)"
  proof
    fix t assume "t \<in> set (seed_tags v)"
    then obtain name where name: "name \<in> set (map fst sample_tags)" "t = ?f name" unfolding map set_map by blast
    show "t \<in> set (db_tags d @ seed_new_tags v)"
    proof (cases "sd_tag v name")
      case None
      then have "name \<in> set (filter (\<lambda>name. sd_tag v name = None) (map fst sample_tags))" using name(1) by simp
      then show ?thesis using name(2) None unfolding seed_new_tags_def set_append set_map by simp
    qed (use name(2) seed_freshD(4)[OF fresh] in simp)
  qed
qed

text \<open>What the generator draws.\<close>

definition draws_ok :: "draws \<Rightarrow> bool" where
  "draws_ok dr \<longleftrightarrow> length (dr_tags dr) = 16 \<and> dr_fallback dr < 5 \<and> dr_rare dr < 5"

lemma select_tags_facts:
  assumes "distinct tags" "length tags = 16" "draws_ok dr"
  shows "select_tags tags dr \<noteq> [] \<and> distinct (select_tags tags dr) \<and> set (select_tags tags dr) \<subseteq> set tags"
proof -
  let ?sel = "map fst (filter (\<lambda>(tag, weight, x). x < weight)
            (zip tags (zip (map (\<lambda>(_, category). tag_weight_of category) sample_tags) (dr_tags dr))))"
  have sub: "distinct (map fst (filter P (zip tags ys))) \<and> set (map fst (filter P (zip tags ys))) \<subseteq> set tags" for P and ys :: "(rat \<times> rat) list"
    using assms(1) by (auto simp: distinct_map_filter map_fst_zip_take dest: set_zip_leftD)
  have "tags ! dr_fallback dr \<in> set tags" "tags ! (11 + dr_rare dr) \<in> set tags" using assms by (auto simp: draws_ok_def)
  then show ?thesis using sub by (auto simp: select_tags_def Let_def)
qed

text \<open>A seeded event is one the rest of the program can use: with fresh keys and sensible options seeding succeeds,
  keeps all keys and names unique (whatever names the generator draws, also twice the same), and leaves a draft event
  with a proper timetable of exactly the times a generated schedule would get, and the asked number of
  participants, each with at least one tag and no tag twice.\<close>

theorem seeded_event_usable:
  assumes ok: "keys_ok d" and fresh: "seed_fresh v d" and draws: "\<And>n. draws_ok (sd_draws v n)"
    and opts: "\<not> sd_production v \<or> so_confirm_production opts" "1 \<le> so_participants opts" "1 \<le> so_num_rounds opts"
      "1 \<le> so_round_duration opts" "0 \<le> so_break_duration opts" "parse_start_time v (so_start_time opts) = Some t"
  shows "\<exists>d' ev. seed_event v opts d = Inr d' \<and> keys_ok d' \<and> find_event d' (sd_event_id v) = Some ev \<and> ev_status ev = ES_Draft \<and>
    timetable (event_rounds d' (ev_id ev)) \<and>
    event_rounds d' (ev_id ev) = map (\<lambda>n. new_round ev (sd_round_id v) \<lparr>sr_number = n, sr_pairs = [], sr_unmatched_pid = None\<rparr>) [1..<ev_num_rounds ev + 1] \<and>
    int (length (event_participants d' (ev_id ev))) = so_participants opts \<and>
    (\<forall>p \<in> set (event_participants d' (ev_id ev)). pt_tags p \<noteq> [] \<and> distinct (pt_tags p) \<and> set (pt_tags p) \<subseteq> set (db_tags d'))"
proof -
  let ?ev = "seed_event_row v opts t"
  let ?d = "seed_rows v ?ev (nat (so_participants opts)) d"
  have e: "ev_id ?ev = sd_event_id v" "ev_status ?ev = ES_Draft" "0 < ev_round_duration ?ev" "0 \<le> ev_break_duration ?ev"
    using opts by (simp_all add: seed_event_row_def minutes_def)
  have keys: "keys_ok ?d" by (rule seed_keys_ok[OF ok fresh e(1,3)])
  then have run: "seed_event v opts d = Inr ?d" using opts unfolding seed_event_def keys_ok_def Let_def by simp
  have "sd_event_id v \<notin> ev_id ` set (db_events d)" using fresh by (simp add: seed_fresh_def)
  then have "find_event d (sd_event_id v) = None" by (force simp: find_event_def find_None_iff)
  then have find: "find_event ?d (sd_event_id v) = Some ?ev" using e(1) by (simp add: find_event_def find_append seed_rows_def)
  have rounds: "event_rounds ?d (ev_id ?ev) = map (seed_round v ?ev) [1..<ev_num_rounds ?ev + 1]"
    using fresh e(1) by (simp add: event_rounds_def seed_fresh_def seed_rows_def filter_empty_conv del: upt_Suc)
  have people: "event_participants ?d (ev_id ?ev) = map (seed_participant v ?ev) [1..<nat (so_participants opts) + 1]"
    using fresh e(1) by (simp add: event_participants_def seed_fresh_def seed_rows_def filter_empty_conv del: upt_Suc)
  have "timetable (map (seed_round v ?ev) [1..<ev_num_rounds ?ev + 1])"
    using e(3,4) by (auto simp: timetable_def seed_round_def Let_def algebra_simps simp del: upt_Suc)
  moreover have "new_round ?ev (sd_round_id v) \<lparr>sr_number = n, sr_pairs = [], sr_unmatched_pid = None\<rparr> = seed_round v ?ev n" for n
    by (simp add: new_round_def seed_round_def Let_def)
  moreover have "pt_tags (seed_participant v ?ev n) \<noteq> [] \<and> distinct (pt_tags (seed_participant v ?ev n)) \<and>
      set (pt_tags (seed_participant v ?ev n)) \<subseteq> set (db_tags ?d)" for n
    using select_tags_facts[OF seed_tags_facts(1,2)[OF fresh] draws] seed_tags_facts(3)[OF fresh]
    by (simp add: seed_participant_def Let_def seed_rows_def) blast
  ultimately show ?thesis
    using opts(2) by (intro exI[of _ ?d] exI[of _ ?ev]) (simp add: run keys find e rounds[unfolded e(1)] people[unfolded e(1)] del: upt_Suc)
qed

definition sample_seed :: seed_env where
  "sample_seed = \<lparr>sd_production = False, sd_now = 0, sd_parse = (\<lambda>_. None), sd_stamp = ''20260101-120000'', sd_hex = ''abcdef0123'',
     sd_event_id = UUID 7, sd_round_id = UUID, sd_participant_id = UUID, sd_tag = (\<lambda>_. None),
     sd_new_tag = (\<lambda>name. UUID (length (takeWhile (\<lambda>n. n \<noteq> name) (map fst sample_tags)))), sd_token_hex = (\<lambda>_. ''00''), sd_mk_hash = id,
     sd_draws = (\<lambda>_. \<lparr>dr_first = 0, dr_last = 0, dr_tags = replicate 16 1, dr_fallback = 2, dr_extra = 0, dr_rare = 4\<rparr>)\<rparr>"

definition sample_seed_options :: seed_options where
  "sample_seed_options = \<lparr>so_participants = 100, so_event_name = None, so_description = ''Synthetic'', so_num_rounds = 3,
     so_round_duration = 5, so_break_duration = 1, so_start_time = None, so_confirm_production = False\<rparr>"

lemma position_inj: "inj_on (\<lambda>x. length (takeWhile (\<lambda>y. y \<noteq> x) xs)) (set xs)"
proof (rule inj_onI)
  fix a b assume ab: "a \<in> set xs" "b \<in> set xs" "length (takeWhile (\<lambda>y. y \<noteq> a) xs) = length (takeWhile (\<lambda>y. y \<noteq> b) xs)"
  have at: "xs ! length (takeWhile (\<lambda>y. y \<noteq> x) xs) = x" if "x \<in> set xs" for x
    using that by (induction xs) auto
  have "a = xs ! length (takeWhile (\<lambda>y. y \<noteq> a) xs)" by (rule at[OF ab(1), symmetric])
  also have "\<dots> = xs ! length (takeWhile (\<lambda>y. y \<noteq> b) xs)" by (rule arg_cong[OF ab(3)])
  also have "\<dots> = b" by (rule at[OF ab(2)])
  finally show "a = b" .
qed

lemma seeded_event_usable_witness:
  "\<exists>d ev. seed_event sample_seed sample_seed_options empty_db = Inr d \<and> find_event d (UUID 7) = Some ev \<and> timetable (event_rounds d (ev_id ev))"
proof -
  have "inj_on (sd_new_tag sample_seed) (set (map fst sample_tags))"
    using position_inj[of "map fst sample_tags"] by (simp add: sample_seed_def inj_on_def)
  then have fresh: "seed_fresh sample_seed empty_db" by (simp add: seed_fresh_def sample_seed_def empty_db_def inj_def)
  have keys: "keys_ok empty_db" by (simp add: keys_ok_def empty_db_def rounds_ok_def)
  have "draws_ok (sd_draws sample_seed n)" for n by (simp add: sample_seed_def draws_ok_def)
  moreover have "\<not> sd_production sample_seed \<or> so_confirm_production sample_seed_options" "1 \<le> so_participants sample_seed_options"
    "1 \<le> so_num_rounds sample_seed_options" "1 \<le> so_round_duration sample_seed_options" "0 \<le> so_break_duration sample_seed_options"
    "parse_start_time sample_seed (so_start_time sample_seed_options) = Some (60 * minutes 1)"
    by (simp_all add: sample_seed_def sample_seed_options_def parse_start_time_def)
  ultimately obtain d ev where "seed_event sample_seed sample_seed_options empty_db = Inr d"
    "find_event d (sd_event_id sample_seed) = Some ev" "timetable (event_rounds d (ev_id ev))"
    using seeded_event_usable[OF keys fresh] by meson
  moreover have "sd_event_id sample_seed = UUID 7" by (simp add: sample_seed_def)
  ultimately show ?thesis by auto
qed

end
