(* ===== verification/Matching_Cost.thy ===== *)
theory Matching_Cost
  imports Matching_Total
begin

text \<open>
  How long \<open>generate_schedule\<close> may search: the states the recovery examines, counted as the code counts
  them, over all rounds. A search that has used up its budget still counts the candidates of the levels
  it leaves, so the counter ends above the budget, by at most a quarter of the square of the ranks.
\<close>

section \<open>One search\<close>

lemma search_success_in_budget:
  "search sbs remaining st = (ok, st') \<Longrightarrow> ok \<Longrightarrow> ss_nodes st' \<le> max_recovery_nodes"
  "try_partners sbs rest p bs st = (ok, st') \<Longrightarrow> ok \<Longrightarrow> ss_nodes st' \<le> max_recovery_nodes"
proof (induction sbs remaining st and sbs rest p bs st arbitrary: ok st' and ok st'
    rule: search_try_partners.induct)
  case (1 sbs remaining st)
  show ?case
  proof (cases "max_recovery_nodes < ss_nodes st + 1 \<or> remaining = []")
    case True
    then show ?thesis using search_base[OF "1.prems"(1) True] "1.prems"(2) by auto
  next
    case False
    then have ne: "remaining \<noteq> []" and bud: "\<not> max_recovery_nodes < ss_nodes st + 1" by auto
    show ?thesis
      using "1.IH"[OF refl _ ne refl, of ok st'] "1.prems" bud search_step[OF bud ne refl, of sbs] by simp
  qed
next
  case (2 sbs rest p st)
  then show ?case by (auto simp: try_partners.simps)
next
  case (3 sbs rest p b bs st)
  define s1 where "s1 = st\<lparr>ss_forbidden := add_forbidden (ss_forbidden st) p b, ss_chosen := ss_chosen st @ [(p, b)]\<rparr>"
  obtain ok2 s2 where run2: "search sbs (filter (\<lambda>x. x \<noteq> b) rest) s1 = (ok2, s2)" by force
  show ?case
    using "3.prems" "3.IH"(1)[OF s1_def run2] "3.IH"(2)[OF s1_def run2[symmetric] refl, of ok st'] run2
    by (cases ok2) (simp_all add: try_partners.simps s1_def)
qed

text \<open>Where the counter stands after a search over \<open>m\<close> ranks, and after trying \<open>k\<close> partners with \<open>r\<close> others left.\<close>

definition search_bound :: "nat \<Rightarrow> nat \<Rightarrow> nat" where
  "search_bound n m = (if max_recovery_nodes \<le> n then n + 1 else max_recovery_nodes + m\<^sup>2 div 4)"

definition partners_bound :: "nat \<Rightarrow> nat \<Rightarrow> nat \<Rightarrow> nat" where
  "partners_bound n r k = (if max_recovery_nodes \<le> n then n + k
     else if k = 0 then n else max_recovery_nodes + max 1 ((r - 1)\<^sup>2 div 4) + (k - 1))"

lemma square_quarter_step:
  fixes m k :: nat
  assumes "0 < k" "k \<le> m - 1"
  shows "max 1 ((m - 1 - 1)\<^sup>2 div 4) + (k - 1) \<le> m\<^sup>2 div 4"
proof -
  obtain j where j: "m = j + 2" using assms by (metis add.commute le_add_diff_inverse One_nat_def Suc_1 Suc_leI diff_is_0_eq less_le_trans not_less_eq_eq plus_1_eq_Suc zero_less_diff le_zero_eq less_not_refl)
  have "m\<^sup>2 = j\<^sup>2 + (j + 1) * 4" unfolding j by (simp add: power2_eq_square algebra_simps)
  then have "m\<^sup>2 div 4 = j\<^sup>2 div 4 + (j + 1)" by simp
  then show ?thesis using assms(2) j by simp
qed

lemma length_without:
  assumes "distinct xs" "x \<in> set xs"
  shows "length (filter (\<lambda>y. y \<noteq> x) xs) = length xs - 1"
proof -
  have "length (filter (\<lambda>y. y \<noteq> x) xs) = card (set (filter (\<lambda>y. y \<noteq> x) xs))"
    by (rule distinct_card[symmetric]) (simp add: assms(1))
  also have "set (filter (\<lambda>y. y \<noteq> x) xs) = set xs - {x}" by auto
  finally show ?thesis using assms by (simp add: distinct_card)
qed

lemma search_bounded:
  "search sbs remaining st = (ok, st') \<Longrightarrow> distinct remaining \<Longrightarrow> \<forall>i. distinct (sbs i) \<and> i \<notin> set (sbs i) \<Longrightarrow>
     ss_nodes st' \<le> search_bound (ss_nodes st) (length remaining)"
  "try_partners sbs rest p bs st = (ok, st') \<Longrightarrow> distinct rest \<Longrightarrow> \<forall>i. distinct (sbs i) \<and> i \<notin> set (sbs i) \<Longrightarrow>
     set bs \<subseteq> set rest \<Longrightarrow> ss_nodes st' \<le> partners_bound (ss_nodes st) (length rest) (length bs)"
proof (induction sbs remaining st and sbs rest p bs st arbitrary: ok st' and ok st'
    rule: search_try_partners.induct)
  case (1 sbs remaining st)
  define s1 where "s1 = st\<lparr>ss_nodes := ss_nodes st + 1\<rparr>"
  define p where "p = min_by (\<lambda>c. (available_count remaining (ss_forbidden s1) c, c)) remaining"
  let ?rest = "filter (\<lambda>x. x \<noteq> p) remaining"
  let ?bs = "filter (\<lambda>j. j \<in> set remaining \<and> j \<notin> ss_forbidden s1 p) (sbs p)"
  show ?case
  proof (cases "max_recovery_nodes < ss_nodes st + 1 \<or> remaining = []")
    case True
    then show ?thesis using search_base[OF "1.prems"(1) True] by (auto simp: search_bound_def)
  next
    case False
    then have ne: "remaining \<noteq> []" and bud: "\<not> max_recovery_nodes < ss_nodes st + 1" by auto
    have pin: "p \<in> set remaining" using ne by (simp add: p_def min_by_in)
    have run: "try_partners sbs ?rest p ?bs s1 = (ok, st')"
      using "1.prems"(1) search_step[OF bud ne, of p sbs] by (simp add: s1_def p_def)
    have sub: "set ?bs \<subseteq> set ?rest" using "1.prems"(3) by auto
    have m: "length ?rest = length remaining - 1"
      by (rule length_without[OF "1.prems"(2) pin])
    have "length ?bs = card (set ?bs)" by (rule distinct_card[symmetric]) (simp add: "1.prems"(3))
    also have "\<dots> \<le> card (set ?rest)" by (rule card_mono[OF finite_set sub])
    also have "\<dots> \<le> length ?rest" by (rule card_length)
    finally have k: "length ?bs \<le> length remaining - 1" using m by simp
    have "ss_nodes st' \<le> partners_bound (ss_nodes s1) (length ?rest) (length ?bs)"
      using "1.IH"[OF s1_def _ ne p_def run _ _ sub] bud "1.prems"(2,3) by (simp add: s1_def)
    also have "\<dots> \<le> search_bound (ss_nodes st) (length remaining)"
    proof (cases "length ?bs = 0")
      case True
      then show ?thesis using bud unfolding partners_bound_def search_bound_def s1_def by simp
    next
      case False
      then show ?thesis
        using square_quarter_step[OF _ k] bud unfolding partners_bound_def search_bound_def s1_def m by auto
    qed
    finally show ?thesis .
  qed
next
  case (2 sbs rest p st)
  then show ?case by (auto simp: try_partners.simps partners_bound_def)
next
  case (3 sbs rest p b bs st)
  define s1 where "s1 = st\<lparr>ss_forbidden := add_forbidden (ss_forbidden st) p b, ss_chosen := ss_chosen st @ [(p, b)]\<rparr>"
  obtain ok2 s2 where run2: "search sbs (filter (\<lambda>x. x \<noteq> b) rest) s1 = (ok2, s2)" by force
  have "length (filter (\<lambda>x. x \<noteq> b) rest) = length rest - 1"
    using length_without[OF "3.prems"(2)] "3.prems"(4) by simp
  then have first: "ss_nodes s2 \<le> search_bound (ss_nodes st) (length rest - 1)"
    using "3.IH"(1)[OF s1_def run2] "3.prems" by (simp add: s1_def)
  show ?case
  proof (cases ok2)
    case True
    then have "st' = s2" using "3.prems"(1) run2 by (simp add: try_partners.simps s1_def)
    then show ?thesis using first by (auto simp: search_bound_def partners_bound_def)
  next
    case False
    let ?s3 = "s2\<lparr>ss_chosen := butlast (ss_chosen s2), ss_forbidden := remove_forbidden (ss_forbidden s2) p b\<rparr>"
    have "try_partners sbs rest p bs ?s3 = (ok, st')"
      using "3.prems"(1) run2 False by (simp add: try_partners.simps s1_def)
    then have "ss_nodes st' \<le> partners_bound (ss_nodes s2) (length rest) (length bs)"
      using "3.IH"(2)[OF s1_def run2[symmetric] refl False] "3.prems" by auto
    moreover have "ss_nodes st < ss_nodes s2" using search_nodes_mono(1)[OF run2] by (simp add: s1_def)
    ultimately show ?thesis using first by (auto simp: search_bound_def partners_bound_def split: if_splits)
  qed
qed

lemma sorted_by_score_distinct: "distinct (sorted_by_score sm N i) \<and> i \<notin> set (sorted_by_score sm N i)"
  by (simp add: sorted_by_score_set) (simp add: sorted_by_score_def)

lemma recovery_bounded:
  assumes "search (sorted_by_score sm N) working \<lparr>ss_forbidden = f, ss_chosen = [], ss_nodes = 0\<rparr> = (ok, st)" "distinct working"
  shows "ss_nodes st \<le> max_recovery_nodes + (length working)\<^sup>2 div 4"
  using search_bounded(1)[OF assms] sorted_by_score_distinct by (simp add: search_bound_def max_recovery_nodes_def)

section \<open>A whole run\<close>

text \<open>The states examined in one round, none when the greedy pass succeeds, and in all rounds up to the first failure.\<close>

definition round_nodes :: "(nat \<Rightarrow> nat list) \<Rightarrow> nat list \<Rightarrow> forb \<Rightarrow> nat" where
  "round_nodes sbs working f =
     (case greedy_loop sbs working (available_count working f) f [] of
        (_, _, None) \<Rightarrow> 0
      | (_, _, Some failed) \<Rightarrow> ss_nodes (snd (search sbs working \<lparr>ss_forbidden = f, ss_chosen = [], ss_nodes = 0\<rparr>)))"

fun build_rounds_nodes :: "(nat \<Rightarrow> nat list) \<Rightarrow> string list \<Rightarrow> nat \<Rightarrow> nat list \<Rightarrow> sched_state \<Rightarrow> nat" where
  "build_rounds_nodes sbs idx N [] st = 0"
| "build_rounds_nodes sbs idx N (r # rs) st =
     (case choose_bye N r st of
        Inl _ \<Rightarrow> 0
      | Inr bye \<Rightarrow> round_nodes sbs (filter (\<lambda>i. bye \<noteq> Some i) [0..<N]) (st_forbidden st) +
          (case build_round (solve_round sbs) idx N r st of Inl _ \<Rightarrow> 0 | Inr st' \<Rightarrow> build_rounds_nodes sbs idx N rs st'))"

definition schedule_nodes :: "match_input \<Rightarrow> nat" where
  "schedule_nodes inp = build_rounds_nodes (sorted_by_score (score_mat inp) (length (pid_list inp))) (idx_to_pid inp)
     (length (pid_list inp)) [1..<nat (mi_num_rounds inp) + 1] init_sched_state"

lemma round_nodes_bound:
  "distinct working \<Longrightarrow> round_nodes (sorted_by_score sm N) working f \<le> max_recovery_nodes + (length working)\<^sup>2 div 4"
  using recovery_bounded[of sm N working f, OF prod.collapse[symmetric]]
  by (simp add: round_nodes_def split: option.split prod.split)

lemma working_length:
  assumes "choose_bye N r st = Inr bye"
  shows "length (filter (\<lambda>i. bye \<noteq> Some i) [0..<N]) = 2 * (N div 2)"
proof -
  have "length (filter (\<lambda>i. bye \<noteq> Some i) [0..<N]) = card ({..<N} - set_option bye)"
    by (subst distinct_card[symmetric]) (auto intro!: arg_cong[of _ _ card])
  then show ?thesis using choose_bye_ok[OF assms] by (cases bye) (auto simp: card_Diff_singleton_if elim!: oddE evenE)
qed

lemma build_rounds_nodes_bound:
  "build_rounds_nodes (sorted_by_score sm N) idx N rs st \<le> length rs * (max_recovery_nodes + (N div 2)\<^sup>2)"
proof (induction rs arbitrary: st)
  case (Cons r rs)
  show ?case
  proof (cases "choose_bye N r st")
    case (Inr bye)
    have "(2 * (N div 2))\<^sup>2 div 4 = (N div 2)\<^sup>2" by (simp add: power2_eq_square)
    then have "round_nodes (sorted_by_score sm N) (filter (\<lambda>i. bye \<noteq> Some i) [0..<N]) (st_forbidden st)
        \<le> max_recovery_nodes + (N div 2)\<^sup>2"
      using round_nodes_bound[of "filter (\<lambda>i. bye \<noteq> Some i) [0..<N]" sm N "st_forbidden st"] working_length[OF Inr] by simp
    then show ?thesis using Inr Cons.IH by (auto split: sum.splits intro: add_mono trans_le_add1)
  qed simp
qed simp

text \<open>The count of a failing run shows in its error.\<close>

lemma solve_round_nodes:
  assumes "solve_round sbs working f = Inl (failed, nodes)"
  shows "round_nodes sbs working f = nodes"
proof -
  obtain ok st where "search sbs working \<lparr>ss_forbidden = f, ss_chosen = [], ss_nodes = 0\<rparr> = (ok, st)" by force
  then show ?thesis using assms
    by (simp add: solve_round_def round_nodes_def split: option.splits prod.splits bool.splits)
qed

lemma build_rounds_failure_counted:
  "build_rounds (solve_round sbs) idx N rs st = Inl (Stranded r pid nodes) \<Longrightarrow> nodes \<le> build_rounds_nodes sbs idx N rs st"
proof (induction rs arbitrary: st)
  case (Cons x xs)
  show ?case
  proof (cases "build_round (solve_round sbs) idx N x st")
    case (Inl e)
    then have e: "e = Stranded r pid nodes" using Cons.prems by (simp add: bindE_def)
    show ?thesis
    proof (cases "choose_bye N x st")
      case (Inl e')
      then have "e' = Stranded r pid nodes" using \<open>build_round _ _ _ _ _ = _\<close> e by (simp add: build_round_def bindE_def)
      then show ?thesis using Inl by (auto simp: choose_bye_def Let_def split: if_splits)
    next
      case (Inr bye)
      let ?w = "filter (\<lambda>i. bye \<noteq> Some i) [0..<N]"
      have "st_forbidden (case bye of None \<Rightarrow> st | Some i \<Rightarrow> st\<lparr>st_unmatched := (st_unmatched st)(i := st_unmatched st i + 1)\<rparr>) = st_forbidden st"
        by (simp split: option.split)
      then obtain failed where "solve_round sbs ?w (st_forbidden st) = Inl (failed, nodes)"
        using \<open>build_round _ _ _ _ _ = _\<close> Inr e
        by (cases "solve_round sbs ?w (st_forbidden st)") (auto simp: build_round_def bindE_def Let_def)
      then have "round_nodes sbs ?w (st_forbidden st) = nodes" by (rule solve_round_nodes)
      then show ?thesis using Inr by simp
    qed
  next
    case (Inr st')
    then show ?thesis using Cons by (cases "choose_bye N x st") (auto simp: bindE_def build_round_def intro: trans_le_add2)
  qed
qed simp

lemma build_rounds_failure_bound:
  "build_rounds (solve_round (sorted_by_score sm N)) idx N rs st = Inl (Stranded r pid nodes) \<Longrightarrow>
   nodes \<le> max_recovery_nodes + (N div 2)\<^sup>2"
proof (induction rs arbitrary: st)
  case (Cons x xs)
  show ?case
  proof (cases "build_round (solve_round (sorted_by_score sm N)) idx N x st")
    case (Inl e)
    then have "build_rounds (solve_round (sorted_by_score sm N)) idx N [x] st = Inl (Stranded r pid nodes)"
      using Cons.prems by (simp add: bindE_def)
    then have "nodes \<le> build_rounds_nodes (sorted_by_score sm N) idx N [x] st" by (rule build_rounds_failure_counted)
    then show ?thesis using build_rounds_nodes_bound[of sm N idx "[x]" st] by simp
  next
    case (Inr st')
    then show ?thesis using Cons by (simp add: bindE_def)
  qed
qed simp

lemma generate_schedule_outcome_of: "generate_schedule inp = Inl e \<Longrightarrow> error_means inp e"
  using generate_schedule_accepted_fail[of inp e] generate_schedule_rejected[of inp] by (cases "accepted_input inp") auto

text \<open>
  C4. The recovery search ends: whatever the participants and rounds, all searches of a run together examine at
  most \<open>R * (10000 + (N div 2)^2)\<close> states, and the number an error reports is one of those of its round. The
  budget alone is no bound: a search that has used it up goes on counting the candidates of the levels it leaves.
\<close>

theorem recovery_terminates:
  "schedule_nodes inp \<le> nat (mi_num_rounds inp) * (max_recovery_nodes + (length (pid_list inp) div 2)\<^sup>2) \<and>
   (case generate_schedule inp of
      Inl (Stranded r pid nodes) \<Rightarrow> nodes \<le> max_recovery_nodes + (length (pid_list inp) div 2)\<^sup>2 \<and> nodes \<le> schedule_nodes inp
    | _ \<Rightarrow> True)"
proof -
  let ?N = "length (pid_list inp)" and ?rs = "[1..<nat (mi_num_rounds inp) + 1]"
  let ?sbs = "sorted_by_score (score_mat inp) ?N" and ?idx = "idx_to_pid inp"
  have "schedule_nodes inp \<le> nat (mi_num_rounds inp) * (max_recovery_nodes + (?N div 2)\<^sup>2)"
    using build_rounds_nodes_bound[of "score_mat inp" ?N ?idx ?rs init_sched_state] by (simp add: schedule_nodes_def del: upt_Suc)
  moreover have "nodes \<le> schedule_nodes inp \<and> nodes \<le> max_recovery_nodes + (?N div 2)\<^sup>2"
    if gen: "generate_schedule inp = Inl (Stranded r pid nodes)" for r pid nodes
  proof -
    have "error_means inp (Stranded r pid nodes)" using generate_schedule_outcome_of[OF gen] .
    then have "accepted_input inp" by simp
    then have "build_rounds (solve_round ?sbs) ?idx ?N ?rs init_sched_state = Inl (Stranded r pid nodes)"
      using gen by (simp add: generate_schedule_accepted bindE_Inl_iff del: upt_Suc) 
    then show ?thesis using build_rounds_failure_counted build_rounds_failure_bound unfolding schedule_nodes_def by blast
  qed
  ultimately show ?thesis by (auto split: sum.split matching_error.split)
qed

end
