(* ===== verification/Pair_Table.thy ===== *)
theory Pair_Table
  imports Admin_Props
begin

text \<open>
  The pair table of the database as migration \<open>0003_pair_no_repeat_partner_constraints.py\<close> leaves it: the
  data migration that fills \<open>event\<close>, the trigger that runs before every insert and before an update of the
  four columns it names, and the constraints. The trigger's advisory locks serialise writers of one
  participant in one round, so a write is one step here.
\<close>

section \<open>The trigger\<close>

datatype trigger_error = PairEventMismatch | ForeignParticipant | AlreadyPaired

definition validate_pair :: "db \<Rightarrow> pair_row \<Rightarrow> trigger_error option" where
  "validate_pair d new =
     (if \<not> (\<exists>r \<in> set (db_rounds d). rd_id r = pr_round new \<and> rd_event r = pr_event new) then Some PairEventMismatch
      else if \<not> (\<exists>p \<in> set (db_participants d). pt_id p = pr_a new \<and> pt_event p = pr_event new) \<or>
        \<not> (\<exists>p \<in> set (db_participants d). pt_id p = pr_b new \<and> pt_event p = pr_event new) then Some ForeignParticipant
      else if \<exists>q \<in> set (db_pairs d). pr_round q = pr_round new \<and> pr_id q \<noteq> pr_id new \<and>
        (pr_a q \<in> {pr_a new, pr_b new} \<or> pr_b q \<in> {pr_a new, pr_b new}) then Some AlreadyPaired
      else None)"

datatype pair_write_error = TriggerRaised trigger_error | ConstraintRaised

text \<open>One \<open>INSERT\<close>, a statement of several rows, and an \<open>UPDATE\<close> of trigger columns of one row.\<close>

definition insert_pair :: "pair_row \<Rightarrow> db \<Rightarrow> pair_write_error + db" where
  "insert_pair p d =
     (case validate_pair d p of
        Some e \<Rightarrow> Inl (TriggerRaised e)
      | None \<Rightarrow> if pr_id p \<in> pr_id ` set (db_pairs d) \<or> \<not> pairs_ok (db_pairs d @ [p]) then Inl ConstraintRaised
          else Inr (d\<lparr>db_pairs := db_pairs d @ [p]\<rparr>))"

fun insert_pairs :: "pair_row list \<Rightarrow> db \<Rightarrow> pair_write_error + db" where
  "insert_pairs [] d = Inr d"
| "insert_pairs (p # ps) d = bindE (insert_pair p d) (insert_pairs ps)"

definition rewrite_pair :: "uuid \<Rightarrow> (pair_row \<Rightarrow> pair_row) \<Rightarrow> db \<Rightarrow> pair_write_error + db" where
  "rewrite_pair i f d =
     (case find (\<lambda>p. pr_id p = i) (db_pairs d) of
        None \<Rightarrow> Inr d
      | Some p \<Rightarrow>
          (case validate_pair d (f p) of
             Some e \<Rightarrow> Inl (TriggerRaised e)
           | None \<Rightarrow> (let rows = map (\<lambda>q. if pr_id q = i then f q else q) (db_pairs d)
               in if \<not> pairs_ok rows then Inl ConstraintRaised else Inr (d\<lparr>db_pairs := rows\<rparr>))))"

section \<open>Filling the new column\<close>

text \<open>\<open>round_events\<close> is the dict of round keys to events; \<open>None\<close> is the \<open>KeyError\<close> of a missing round.\<close>

fun populate_rows :: "(uuid \<rightharpoonup> uuid) \<Rightarrow> pair_row list \<Rightarrow> pair_row list option" where
  "populate_rows round_events [] = Some []"
| "populate_rows round_events (p # ps) =
     (case round_events (pr_round p) of
        None \<Rightarrow> None
      | Some e \<Rightarrow> map_option (Cons (p\<lparr>pr_event := e\<rparr>)) (populate_rows round_events ps))"

definition populate_pair_events :: "db \<Rightarrow> db option" where
  "populate_pair_events d = map_option (\<lambda>ps. d\<lparr>db_pairs := ps\<rparr>)
     (populate_rows (map_of (map (\<lambda>r. (rd_id r, rd_event r)) (db_rounds d))) (db_pairs d))"

lemma populate_rows_some:
  "\<forall>p \<in> set ps. pr_round p \<in> dom round_events \<Longrightarrow>
   populate_rows round_events ps = Some (map (\<lambda>p. p\<lparr>pr_event := the (round_events (pr_round p))\<rparr>) ps)"
  by (induction ps) auto

lemma populated_events:
  assumes "distinct (map rd_id (db_rounds d))" "\<forall>p \<in> set (db_pairs d). pr_round p \<in> rd_id ` set (db_rounds d)"
  shows "\<exists>d'. populate_pair_events d = Some d' \<and> map pr_id (db_pairs d') = map pr_id (db_pairs d) \<and>
    (\<forall>p \<in> set (db_pairs d'). \<exists>r \<in> set (db_rounds d'). rd_id r = pr_round p \<and> rd_event r = pr_event p)"
proof -
  let ?m = "map_of (map (\<lambda>r. (rd_id r, rd_event r)) (db_rounds d))"
  have m: "?m (rd_id r) = Some (rd_event r)" if "r \<in> set (db_rounds d)" for r
    using assms(1) that by (intro map_of_is_SomeI) (auto simp: comp_def)
  then have "\<forall>p \<in> set (db_pairs d). pr_round p \<in> dom ?m" using assms(2) by fastforce
  from populate_rows_some[OF this] show ?thesis
    unfolding populate_pair_events_def using assms(2) m by (fastforce simp: comp_def)
qed

section \<open>What the writes keep\<close>

text \<open>Two rows of a round that share a participant.\<close>

definition clash :: "pair_row \<Rightarrow> pair_row \<Rightarrow> bool" where
  "clash p q \<longleftrightarrow> pr_round p = pr_round q \<and> (pr_a q \<in> {pr_a p, pr_b p} \<or> pr_b q \<in> {pr_a p, pr_b p})"

definition belongs :: "db \<Rightarrow> pair_row \<Rightarrow> bool" where
  "belongs d p \<longleftrightarrow> (\<exists>r \<in> set (db_rounds d). rd_id r = pr_round p \<and> rd_event r = pr_event p) \<and>
     (\<exists>x \<in> set (db_participants d). pt_id x = pr_a p \<and> pt_event x = pr_event p) \<and>
     (\<exists>x \<in> set (db_participants d). pt_id x = pr_b p \<and> pt_event x = pr_event p)"

definition pair_table_ok :: "db \<Rightarrow> bool" where
  "pair_table_ok d \<longleftrightarrow> pairs_ok (db_pairs d) \<and> distinct (map pr_id (db_pairs d)) \<and>
     (\<forall>p \<in> set (db_pairs d). belongs d p) \<and>
     (\<forall>p \<in> set (db_pairs d). \<forall>q \<in> set (db_pairs d). clash p q \<longrightarrow> p = q)"

lemma clash_sym: "clash p q \<longleftrightarrow> clash q p"
  by (auto simp: clash_def)

lemma validate_pair_None:
  "validate_pair d new = None \<longleftrightarrow> belongs d new \<and> (\<forall>q \<in> set (db_pairs d). clash new q \<longrightarrow> pr_id q = pr_id new)"
proof -
  have "(\<exists>q \<in> set (db_pairs d). pr_round q = pr_round new \<and> pr_id q \<noteq> pr_id new \<and>
        (pr_a q \<in> {pr_a new, pr_b new} \<or> pr_b q \<in> {pr_a new, pr_b new})) \<longleftrightarrow>
      (\<exists>q \<in> set (db_pairs d). clash new q \<and> pr_id q \<noteq> pr_id new)"
    unfolding clash_def by (intro bex_cong refl) auto
  then show ?thesis unfolding validate_pair_def belongs_def by auto
qed

lemma belongs_pairs [simp]: "belongs (d\<lparr>db_pairs := ps\<rparr>) p = belongs d p"
  by (simp add: belongs_def)

lemma insert_pair_Inr:
  "insert_pair p d = Inr d' \<longleftrightarrow> validate_pair d p = None \<and> pr_id p \<notin> pr_id ` set (db_pairs d) \<and>
     pairs_ok (db_pairs d @ [p]) \<and> d' = d\<lparr>db_pairs := db_pairs d @ [p]\<rparr>"
  by (auto simp: insert_pair_def split: option.splits)

lemma insert_pair_ok:
  assumes ok: "pair_table_ok d" and ins: "insert_pair p d = Inr d'"
  shows "pair_table_ok d'"
proof -
  have d': "d' = d\<lparr>db_pairs := db_pairs d @ [p]\<rparr>" and i: "pr_id p \<notin> pr_id ` set (db_pairs d)" "pairs_ok (db_pairs d @ [p])"
    and v: "belongs d p" "\<forall>q \<in> set (db_pairs d). clash p q \<longrightarrow> pr_id q = pr_id p"
    using ins by (auto simp: insert_pair_Inr validate_pair_None)
  have "\<not> clash p q \<and> \<not> clash q p" if "q \<in> set (db_pairs d)" for q
  proof -
    have "pr_id q \<noteq> pr_id p" using i(1) that by (auto simp: image_iff)
    then show ?thesis using v(2) that clash_sym by blast
  qed
  then show ?thesis using ok i v(1) unfolding pair_table_ok_def d' by auto
qed

lemma insert_pairs_ok: "pair_table_ok d \<Longrightarrow> insert_pairs ps d = Inr d' \<Longrightarrow> pair_table_ok d'"
  by (induction ps arbitrary: d) (auto simp: bindE_Inr_iff dest: insert_pair_ok)

section \<open>Sequences of writes\<close>

text \<open>The columns that the trigger does not watch and the constraints do not name.\<close>

definition same_place :: "pair_row \<Rightarrow> pair_row \<Rightarrow> bool" where
  "same_place p q \<longleftrightarrow> pr_id q = pr_id p \<and> pr_event q = pr_event p \<and> pr_round q = pr_round p \<and>
     pr_a q = pr_a p \<and> pr_b q = pr_b p \<and> pr_room_id q = pr_room_id p"

text \<open>
  What happens to the tables: pairs are saved, inserted in bulk, rewritten or given another status or
  connection; rounds and participants are added and, with their pairs, deleted.
\<close>

inductive pair_step :: "db \<Rightarrow> db \<Rightarrow> bool" where
  saved: "insert_pair (pair_save_order p) d = Inr d' \<Longrightarrow> pair_step d d'"
| inserted: "insert_pairs ps d = Inr d' \<Longrightarrow> pair_step d d'"
| rewritten: "rewrite_pair i f d = Inr d' \<Longrightarrow> (\<And>p. pr_id (f p) = pr_id p) \<Longrightarrow> pair_step d d'"
| reported: "(\<And>p. same_place p (f p)) \<Longrightarrow> pair_step d (d\<lparr>db_pairs := map f (db_pairs d)\<rparr>)"
| added: "pair_step d (d\<lparr>db_rounds := db_rounds d @ rs, db_participants := db_participants d @ xs\<rparr>)"
| rounds_deleted: "pair_step d (delete_rounds e d)"
| participants_deleted: "pair_step d (snd (delete_participants e ids d))"

lemma pairs_ok_subset:
  assumes "pairs_ok ps" "ps' = filter P ps"
  shows "pairs_ok ps'"
  using assms by (auto simp: pairs_ok_def distinct_map_filter)

lemma rewrite_pair_ok:
  assumes ok: "pair_table_ok d" and run: "rewrite_pair i f d = Inr d'" and id: "\<And>p. pr_id (f p) = pr_id p"
  shows "pair_table_ok d'"
proof (cases "find (\<lambda>p. pr_id p = i) (db_pairs d)")
  case None
  then show ?thesis using ok run by (simp add: rewrite_pair_def)
next
  case (Some p)
  then have p: "p \<in> set (db_pairs d)" "pr_id p = i" by (auto simp: find_Some_iff)
  let ?g = "\<lambda>q. if pr_id q = i then f q else q"
  have v: "validate_pair d (f p) = None" and c: "pairs_ok (map ?g (db_pairs d))" and d': "d' = d\<lparr>db_pairs := map ?g (db_pairs d)\<rparr>"
    using run Some by (auto simp: rewrite_pair_def Let_def split: option.splits if_splits)
  have ids: "map pr_id (map ?g (db_pairs d)) = map pr_id (db_pairs d)" using id by simp
  have dist: "distinct (map pr_id (db_pairs d))" using ok by (simp add: pair_table_ok_def)
  have one: "q = p" if "q \<in> set (db_pairs d)" "pr_id q = i" for q
    using dist that p by (metis distinct_map inj_onD)
  have free: "\<not> clash (f p) q \<and> \<not> clash q (f p)" if "q \<in> set (db_pairs d)" "pr_id q \<noteq> i" for q
    using v that p id clash_sym unfolding validate_pair_None by metis
  have b: "belongs d (f p)" using v by (simp add: validate_pair_None)
  have "belongs d (?g q)" if "q \<in> set (db_pairs d)" for q
    using ok b one[OF that] that by (cases "pr_id q = i") (auto simp: pair_table_ok_def)
  moreover have "?g q = ?g r" if "q \<in> set (db_pairs d)" "r \<in> set (db_pairs d)" "clash (?g q) (?g r)" for q r
    using that one[of q] one[of r] free[of q] free[of r] ok unfolding pair_table_ok_def
    by (cases "pr_id q = i"; cases "pr_id r = i") auto
  moreover have "distinct (map pr_id (map ?g (db_pairs d)))" using dist ids by (simp only:)
  moreover have "db_pairs d' = map ?g (db_pairs d)" "\<And>x. belongs d' x = belongs d x" by (simp_all add: d')
  ultimately show ?thesis using c unfolding pair_table_ok_def by (auto simp only: set_map ball_simps)
qed

lemma pair_table_ok_filter:
  assumes "pair_table_ok d" "db_pairs d' = filter P (db_pairs d)" "\<And>p. p \<in> set (db_pairs d) \<Longrightarrow> P p \<Longrightarrow> belongs d' p"
  shows "pair_table_ok d'"
  using assms pairs_ok_subset[OF _ assms(2)] by (auto simp: pair_table_ok_def distinct_map_filter)

lemma pair_step_ok:
  assumes "pair_step d d'" "pair_table_ok d"
  shows "pair_table_ok d'"
  using assms
proof cases
  case (reported f)
  have eq: "pr_id (f p) = pr_id p" "pr_event (f p) = pr_event p" "pr_round (f p) = pr_round p" "pr_a (f p) = pr_a p"
    "pr_b (f p) = pr_b p" "pr_room_id (f p) = pr_room_id p" for p
    using reported(2) by (simp_all add: same_place_def)
  have "pairs_ok (map f (db_pairs d)) = pairs_ok (db_pairs d)" by (simp add: pairs_ok_def comp_def eq)
  moreover have "belongs d (f p) = belongs d p" "clash (f p) (f q) = clash p q" for p q
    by (simp_all add: belongs_def clash_def eq)
  ultimately show ?thesis using assms(2) unfolding reported(1) pair_table_ok_def by (auto simp: comp_def eq)
next
  case (added rs xs)
  then show ?thesis using assms(2) unfolding pair_table_ok_def by (auto simp: belongs_def)
next
  case (rounds_deleted e)
  have keep: "belongs (delete_rounds e d) p" if "belongs d p" "pr_round p \<notin> set (map rd_id (filter (\<lambda>r. rd_event r = e) (db_rounds d)))" for p
    using that by (force simp: belongs_def delete_rounds_def Let_def)
  show ?thesis unfolding rounds_deleted
    by (rule pair_table_ok_filter[OF assms(2), of _ "\<lambda>p. pr_round p \<notin> set (map rd_id (filter (\<lambda>r. rd_event r = e) (db_rounds d)))"])
      (use assms(2) keep in \<open>auto simp: delete_rounds_def Let_def pair_table_ok_def\<close>)
next
  case (participants_deleted e ids)
  let ?gone = "pt_id ` {p \<in> set (db_participants d). pt_event p = e \<and> pt_id p \<in> ids}"
  have keep: "belongs (snd (delete_participants e ids d)) p" if "belongs d p" "\<not> (pr_a p \<in> ?gone \<or> pr_b p \<in> ?gone)" for p
    using that by (force simp: belongs_def delete_participants_def Let_def)
  show ?thesis unfolding participants_deleted
    by (rule pair_table_ok_filter[OF assms(2), of _ "\<lambda>p. \<not> (pr_a p \<in> ?gone \<or> pr_b p \<in> ?gone)"])
      (use assms(2) keep in \<open>auto simp: delete_participants_def Let_def pair_table_ok_def\<close>)
qed (auto dest: insert_pair_ok insert_pairs_ok rewrite_pair_ok)

text \<open>
  C30. However pairs are saved, inserted, rewritten, reported on and deleted, and rounds and participants come
  and go, every pair row belongs to the event of its round and joins two participants of that event, nobody is in
  two pairs of one round or meets anybody twice in an event, and rooms are unique.
\<close>

theorem pair_table_stays_ok:
  assumes "pair_table_ok d" "pair_step\<^sup>*\<^sup>* d d'"
  shows "pair_table_ok d'"
  using assms(2,1) by induction (auto intro: pair_step_ok)

section \<open>A generated schedule passes\<close>

lemma pairs_ok_prefix: "pairs_ok (xs @ ys) \<Longrightarrow> pairs_ok xs"
  by (auto simp: pairs_ok_def)

lemma insert_pairs_all:
  assumes "\<forall>p \<in> set ps. belongs d p" "pairs_ok (db_pairs d @ ps)" "distinct (map pr_id (db_pairs d @ ps))"
    and "\<forall>p \<in> set ps. \<forall>q \<in> set (db_pairs d @ ps). clash p q \<longrightarrow> p = q"
  shows "insert_pairs ps d = Inr (d\<lparr>db_pairs := db_pairs d @ ps\<rparr>)"
  using assms
proof (induction ps arbitrary: d)
  case (Cons p ps)
  let ?d = "d\<lparr>db_pairs := db_pairs d @ [p]\<rparr>"
  have "\<not> clash p q" if "q \<in> set (db_pairs d)" for q using Cons.prems(3,4) that by fastforce
  then have "insert_pair p d = Inr ?d"
    using Cons.prems pairs_ok_prefix[of "db_pairs d @ [p]" ps] by (auto simp: insert_pair_Inr validate_pair_None)
  moreover have "insert_pairs ps ?d = Inr (?d\<lparr>db_pairs := db_pairs ?d @ ps\<rparr>)"
    by (rule Cons.IH) (use Cons.prems in auto)
  ultimately show ?case by simp
qed simp

lemma pair_ends_shared:
  assumes "distinct (pair_ends sps)" "sp \<in> set sps" "sp' \<in> set sps"
    and "{sp_pid_a sp, sp_pid_b sp} \<inter> {sp_pid_a sp', sp_pid_b sp'} \<noteq> {}"
  shows "sp = sp'"
  using assms
proof (induction sps)
  case (Cons x sps)
  have ends: "sp_pid_a y \<in> set (pair_ends sps) \<and> sp_pid_b y \<in> set (pair_ends sps)" if "y \<in> set sps" for y
    using that by (induction sps) auto
  show ?case
  proof (cases "sp \<in> set sps \<and> sp' \<in> set sps")
    case True
    then show ?thesis using Cons.IH Cons.prems(1,4) by simp
  next
    case False
    show ?thesis
    proof (rule ccontr)
      assume "sp \<noteq> sp'"
      then consider "sp = x" "sp' \<in> set sps" | "sp' = x" "sp \<in> set sps" using Cons.prems(2,3) False by auto
      then show False
      proof cases
        case 1
        then show ?thesis using ends[of sp'] Cons.prems(1,4) by auto
      next
        case 2
        then show ?thesis using ends[of sp] Cons.prems(1,4) by auto
      qed
    qed
  qed
qed simp

definition schedule_rows :: "event_row \<Rightarrow> (nat \<Rightarrow> uuid) \<Rightarrow> (string \<Rightarrow> uuid) \<Rightarrow> generated_schedule \<Rightarrow> pair_row list" where
  "schedule_rows ev round_id pair_id rounds =
     (let by_number = map_of (rev (map (\<lambda>r. (rd_number r, r)) (map (new_round ev round_id) rounds)))
      in concat (map (\<lambda>rnd. map (new_pair ev by_number pair_id (sr_number rnd)) (sr_pairs rnd)) rounds))"

lemma persist_rows:
  assumes "persist_schedule ev round_id pair_id rounds d = Inr d'"
  shows "d' = (delete_rounds (ev_id ev) d)\<lparr>db_rounds := db_rounds (delete_rounds (ev_id ev) d) @ map (new_round ev round_id) rounds,
      db_pairs := db_pairs (delete_rounds (ev_id ev) d) @ schedule_rows ev round_id pair_id rounds\<rparr>"
    and "pairs_ok (db_pairs d')"
  using assms by (auto simp: persist_schedule_def schedule_rows_def Let_def split: if_splits)

lemma schedule_row:
  assumes "distinct (map sr_number rounds)" "\<forall>r \<in> set rounds. \<forall>sp \<in> set (sr_pairs r). uuid_value (sp_pid_a sp) < uuid_value (sp_pid_b sp)"
    and "p \<in> set (schedule_rows ev round_id pair_id rounds)"
  shows "\<exists>rnd \<in> set rounds. \<exists>sp \<in> set (sr_pairs rnd). pr_round p = round_id (sr_number rnd) \<and> pr_event p = ev_id ev \<and>
    pr_a p = uuid_value (sp_pid_a sp) \<and> pr_b p = uuid_value (sp_pid_b sp) \<and>
    p = new_pair ev (\<lambda>_. Some (new_round ev round_id rnd)) pair_id (sr_number rnd) sp"
proof -
  let ?by = "map_of (rev (map (\<lambda>r. (rd_number r, r)) (map (new_round ev round_id) rounds)))"
  obtain rnd sp where rs: "rnd \<in> set rounds" "sp \<in> set (sr_pairs rnd)" "p = new_pair ev ?by pair_id (sr_number rnd) sp"
    using assms(3) by (auto simp: schedule_rows_def Let_def)
  have "distinct (map rd_number (map (new_round ev round_id) rounds))" using assms(1) by (simp add: comp_def new_round_number)
  then have "?by (rd_number (new_round ev round_id rnd)) = Some (new_round ev round_id rnd)"
    by (rule map_of_rev_distinct) (use rs(1) in simp)
  then have by_n: "?by (sr_number rnd) = Some (new_round ev round_id rnd)" by (simp only: new_round_number)
  have "\<not> uuid_value (sp_pid_b sp) < uuid_value (sp_pid_a sp)" using assms(2) rs(1,2) by (metis order_less_asym)
  then show ?thesis using rs by_n by (intro bexI[OF _ rs(1)] bexI[OF _ rs(2)]) (simp add: new_pair_def new_round_def Let_def)
qed


lemma one_pair_persists:
  assumes "sr_pairs r = [sp]" "uuid_of_string (sp_pid_a sp) \<noteq> None" "uuid_of_string (sp_pid_b sp) \<noteq> None"
    and "uuid_value (sp_pid_a sp) < uuid_value (sp_pid_b sp)" "0 < ev_round_duration ev" "db_rounds d = []" "db_pairs d = []"
  shows "\<exists>d'. persist_schedule ev round_id pair_id [r] d = Inr d'"
  using assms by (auto simp: persist_schedule_def delete_rounds_def Let_def rounds_ok_def pairs_ok_def new_round_def new_pair_def)

lemma locked_weights: "\<exists>w. build_scoring_weights locked_event = Inr w"
  by (simp add: build_scoring_weights_def locked_event_def make_scoring_weights_def)


definition one_round_db :: db where
  "one_round_db = two_guests_db\<lparr>db_rounds := [\<lparr>rd_id = UUID 30, rd_event = UUID 7, rd_number = 1, rd_status = RS_Scheduled,
     rd_starts_at = 0, rd_ends_at = 300\<rparr>]\<rparr>"

definition sample_pair_row :: "nat \<Rightarrow> nat \<Rightarrow> pair_row" where
  "sample_pair_row a b = \<lparr>pr_id = UUID (100 * a + b), pr_event = UUID 7, pr_round = UUID 30, pr_a = UUID a, pr_b = UUID b,
     pr_status = PA_Pending, pr_room_id = show_nat a, pr_path_type = PT_Direct, pr_conn_type_a = None, pr_conn_time_a = None,
     pr_conn_type_b = None, pr_conn_time_b = None\<rparr>"

lemma pair_table_stays_ok_witness:
  "\<exists>d. insert_pair (pair_save_order (sample_pair_row 2 1)) one_round_db = Inr d \<and> pair_table_ok d \<and>
     insert_pair (sample_pair_row 2 3) d = Inl (TriggerRaised AlreadyPaired)"
proof -
  let ?d = "one_round_db\<lparr>db_pairs := [pair_save_order (sample_pair_row 2 1)]\<rparr>"
  have ins: "insert_pair (pair_save_order (sample_pair_row 2 1)) one_round_db = Inr ?d"
    by (simp add: insert_pair_def validate_pair_def one_round_db_def two_guests_db_def empty_db_def sample_participant_def
        sample_pair_row_def pair_save_order_def pairs_ok_def)
  have "pair_table_ok one_round_db" by (simp add: pair_table_ok_def pairs_ok_def one_round_db_def two_guests_db_def empty_db_def)
  from pair_table_stays_ok[OF this r_into_rtranclp[of pair_step, OF saved[OF ins]]] have "pair_table_ok ?d" .
  moreover have "insert_pair (sample_pair_row 2 3) ?d = Inl (TriggerRaised AlreadyPaired)"
    by (simp add: insert_pair_def validate_pair_def one_round_db_def two_guests_db_def empty_db_def sample_participant_def
        sample_pair_row_def pair_save_order_def)
  ultimately show ?thesis using ins by blast
qed

end
