(* ===== verification/Fixtures.thy ===== *)
theory Fixtures
  imports Pair_Table Commands_Props
begin

text \<open>
  Rows made for tests: the event, participants, rounds and pairs of the load test
  (\<open>tools/message_layer_load_test/provision.py\<close>) and the command \<open>create_test_pair\<close>. Pairs go through the
  trigger of the pair table. Fresh keys, random tokens, the password hasher and the clock are arguments.
\<close>

section \<open>Deleting events\<close>

text \<open>\<open>QuerySet.delete\<close> of events with all that references them.\<close>

definition delete_events :: "(event_row \<Rightarrow> bool) \<Rightarrow> db \<Rightarrow> db" where
  "delete_events P d =
     (let gone_e = ev_id ` {r \<in> set (db_events d). P r};
          gone_p = pt_id ` {p \<in> set (db_participants d). pt_event p \<in> gone_e};
          gone_r = rd_id ` {r \<in> set (db_rounds d). rd_event r \<in> gone_e};
          clear = (\<lambda>r. case r of Some i \<Rightarrow> if i \<in> gone_r then None else Some i | None \<Rightarrow> None)
      in d\<lparr>db_events := filter (\<lambda>r. \<not> P r) (db_events d),
           db_participants := filter (\<lambda>p. pt_event p \<notin> gone_e) (db_participants d),
           db_rounds := filter (\<lambda>r. rd_event r \<notin> gone_e) (db_rounds d),
           db_pairs := filter (\<lambda>p. pr_event p \<notin> gone_e \<and> pr_round p \<notin> gone_r \<and> pr_a p \<notin> gone_p \<and> pr_b p \<notin> gone_p) (db_pairs d),
           db_transitions := filter (\<lambda>l. tl_event l \<notin> gone_e) (db_transitions d),
           db_operator_logs := map (\<lambda>l. l\<lparr>ol_round := clear (ol_round l)\<rparr>) (filter (\<lambda>l. ol_event l \<notin> gone_e) (db_operator_logs d)),
           db_disconnections := map (\<lambda>l. l\<lparr>dl_round := clear (dl_round l)\<rparr>)
             (filter (\<lambda>l. dl_event l \<notin> gone_e \<and> dl_participant l \<notin> gone_p) (db_disconnections d)),
           db_notes := filter (\<lambda>n. in_event n \<notin> gone_e \<and> in_participant n \<notin> gone_p) (db_notes d),
           db_tokens := filter (\<lambda>t. vt_participant t \<notin> gone_p) (db_tokens d),
           db_terms := filter (\<lambda>p. p \<notin> gone_p) (db_terms d),
           db_device_checks := filter (\<lambda>c. case dc_event c of Some e \<Rightarrow> e \<notin> gone_e | None \<Rightarrow> True) (db_device_checks d)\<rparr>)"

definition delete_load_test_event :: "uuid \<Rightarrow> db \<Rightarrow> db" where
  "delete_load_test_event e d = delete_events (\<lambda>r. ev_id r = e) d"

section \<open>New rows\<close>

text \<open>The defaults of a \<open>Participant\<close> and of a \<open>Pair\<close>.\<close>

definition plain_participant :: "uuid \<Rightarrow> uuid \<Rightarrow> string \<Rightarrow> string \<Rightarrow> participant_row" where
  "plain_participant i e name email =
     \<lparr>pt_id = i, pt_event = e, pt_name = name, pt_email = email, pt_status = PS_Waiting, pt_token_hash = ''!'',
      pt_token_digest = [], pt_token_expires_at = None, pt_joined_at = None, pt_age = None,
      pt_gender = JStr ''Other/Prefer Not to Say'', pt_want_to_date = JStr ''Any'', pt_whatsapp = JNull, pt_tags = []\<rparr>"

definition plain_pair :: "uuid \<Rightarrow> uuid \<Rightarrow> uuid \<Rightarrow> uuid \<Rightarrow> uuid \<Rightarrow> string \<Rightarrow> pair_row" where
  "plain_pair i e r a b room =
     \<lparr>pr_id = i, pr_event = e, pr_round = r, pr_a = a, pr_b = b, pr_status = PA_Pending, pr_room_id = room,
      pr_path_type = PT_Direct, pr_conn_type_a = None, pr_conn_time_a = None, pr_conn_type_b = None, pr_conn_time_b = None\<rparr>"

text \<open>Tokens for participants in turn.\<close>

fun issue_tokens :: "(string \<Rightarrow> string) \<Rightarrow> (uuid \<Rightarrow> string) \<Rightarrow> event_row \<Rightarrow> participant_row list \<Rightarrow> db \<Rightarrow> string list \<times> db" where
  "issue_tokens mk urlsafe ev [] d = ([], d)"
| "issue_tokens mk urlsafe ev (p # ps) d =
     (case issue_join_token mk (urlsafe (pt_id p)) ev p d of
        None \<Rightarrow> ([], d)
      | Some (raw, _, d') \<Rightarrow> (let (raws, d'') = issue_tokens mk urlsafe ev ps d' in (raw # raws, d'')))"

section \<open>The load test event\<close>

definition default_client_count :: int where
  "default_client_count = 50"

definition min_client_count :: int where
  "min_client_count = 4"

definition max_client_count :: int where
  "max_client_count = 200"

datatype provision_error = ProductionRefused | OddClients | TooFewClients | TooManyClients int | StoreRefused pair_write_error

definition validate_client_count :: "int \<Rightarrow> provision_error + int" where
  "validate_client_count n =
     (if n mod 2 \<noteq> 0 then Inl OddClients
      else if n < min_client_count then Inl TooFewClients
      else if max_client_count < n then Inl (TooManyClients n)
      else Inr n)"

text \<open>Neighbours of the rotated list; a last one without neighbour, an \<open>IndexError\<close>, is left out.\<close>

fun adjacent :: "'a list \<Rightarrow> ('a \<times> 'a) list" where
  "adjacent (x # y # zs) = (x, y) # adjacent zs"
| "adjacent _ = []"

definition rotated_pairs :: "participant_row list \<Rightarrow> nat \<Rightarrow> (participant_row \<times> participant_row) list" where
  "rotated_pairs participants offset =
     map (\<lambda>(left, right). if pt_id right < pt_id left then (right, left) else (left, right))
       (adjacent (drop offset participants @ take offset participants))"

record fixture_env =
  fx_production :: bool
  fx_now :: int
  fx_stamp :: string
  fx_event_id :: uuid
  fx_participant_id :: "nat \<Rightarrow> uuid"
  fx_round_id :: "nat \<Rightarrow> uuid"
  fx_pair_id :: "nat \<Rightarrow> nat \<Rightarrow> uuid"
  fx_mk_hash :: "string \<Rightarrow> string"
  fx_urlsafe :: "uuid \<Rightarrow> string"

record synthetic_identity =
  si_index :: nat
  si_participant_id :: string
  si_display_name :: string

record provisioned =
  pv_event_id :: string
  pv_event_name :: string
  pv_round_numbers :: "nat list"
  pv_clients :: "synthetic_identity list"
  pv_pair_counts :: "(nat \<times> nat) list"
  pv_join_tokens :: "string list"

definition token_for :: "provisioned \<Rightarrow> nat \<Rightarrow> string" where
  "token_for fixture index = pv_join_tokens fixture ! index"

definition clear_secrets :: "provisioned \<Rightarrow> provisioned" where
  "clear_secrets fixture = fixture\<lparr>pv_join_tokens := replicate (length (pv_join_tokens fixture)) []\<rparr>"

definition pad3 :: "nat \<Rightarrow> string" where
  "pad3 n = replicate (3 - length (show_nat n)) CHR ''0'' @ show_nat n"

definition load_test_event :: "fixture_env \<Rightarrow> string option \<Rightarrow> event_row" where
  "load_test_event v event_name =
     (let given = (case event_name of None \<Rightarrow> [] | Some s \<Rightarrow> s);
          name = (if given = [] then ''T-44 message-layer load test ('' @ fx_stamp v @ '')'' else given)
      in \<lparr>ev_id = fx_event_id v, ev_name = take 200 name,
          ev_description = ''Synthetic T-44 load-test event. Not a production cohort.'', ev_status = ES_Running,
          ev_num_rounds = 2, ev_round_duration = minutes 10, ev_break_duration = 0, ev_start_time = fx_now v,
          ev_scoring_weights = JObj [(''tag_overlap'', JFloat (Fin 1))], ev_unique_tags = False\<rparr>)"

definition load_test_participant :: "fixture_env \<Rightarrow> nat \<Rightarrow> participant_row" where
  "load_test_participant v index = plain_participant (fx_participant_id v index) (fx_event_id v)
     (''T44 Client '' @ pad3 index) (''t44-'' @ pad3 index @ ''@loadtest.invalid'')"

definition load_test_round :: "fixture_env \<Rightarrow> nat \<Rightarrow> round_row" where
  "load_test_round v number =
     \<lparr>rd_id = fx_round_id v number, rd_event = fx_event_id v, rd_number = number, rd_status = RS_Scheduled,
      rd_starts_at = fx_now v + (int number - 1) * minutes 10, rd_ends_at = fx_now v + int number * minutes 10\<rparr>"

definition load_test_room :: "uuid \<Rightarrow> nat \<Rightarrow> nat \<Rightarrow> string" where
  "load_test_room e number index =
     ''t44-'' @ take 8 (hex_fixed 32 (uuid_int e)) @ ''-r'' @ show_nat number @ ''-'' @ pad3 index"

definition load_test_pairs :: "fixture_env \<Rightarrow> participant_row list \<Rightarrow> nat \<Rightarrow> nat \<Rightarrow> pair_row list" where
  "load_test_pairs v participants number offset =
     map (\<lambda>(index, left, right). plain_pair (fx_pair_id v number index) (fx_event_id v) (fx_round_id v number)
         (pt_id left) (pt_id right) (load_test_room (fx_event_id v) number index))
       (enumerate 0 (rotated_pairs participants offset))"

definition load_test_people :: "fixture_env \<Rightarrow> nat \<Rightarrow> participant_row list" where
  "load_test_people v n = sort_key pt_name (map (load_test_participant v) [0..<n])"

definition provision_load_test_event :: "fixture_env \<Rightarrow> int \<Rightarrow> string option \<Rightarrow> db \<Rightarrow> provision_error + provisioned \<times> db" where
  "provision_load_test_event v client_count event_name d =
     (if fx_production v then Inl ProductionRefused
      else bindE (validate_client_count client_count) (\<lambda>count.
        let ev = load_test_event v event_name;
            participants = load_test_people v (nat count);
            rounds = [(1, 0), (2, 1)];
            rows = concat (map (\<lambda>(number, offset). load_test_pairs v participants number offset) rounds);
            d1 = d\<lparr>db_events := db_events d @ [ev],
              db_participants := db_participants d @ map (load_test_participant v) [0..<nat count],
              db_rounds := db_rounds d @ map (load_test_round v) [1, 2]\<rparr>
        in case insert_pairs rows d1 of
             Inl e \<Rightarrow> Inl (StoreRefused e)
           | Inr d2 \<Rightarrow>
               (let (tokens, d3) = issue_tokens (fx_mk_hash v) (fx_urlsafe v) ev participants d2 in
                Inr (\<lparr>pv_event_id = uuid_str (ev_id ev), pv_event_name = ev_name ev, pv_round_numbers = [1, 2],
                      pv_clients = map (\<lambda>(index, p). \<lparr>si_index = index, si_participant_id = uuid_str (pt_id p), si_display_name = pt_name p\<rparr>)
                        (enumerate 0 participants),
                      pv_pair_counts = map (\<lambda>(number, offset). (number, length (rotated_pairs participants offset))) rounds,
                      pv_join_tokens = tokens\<rparr>, d3))))"

section \<open>The test pair command\<close>

text \<open>
  The command is not atomic: \<open>Inl\<close> comes with the rows written so far. The printed addresses carry the raw
  tokens. \<open>sorted\<close> orders by the text of the key, \<open>save\<close> by the key.
\<close>

record test_pair_env =
  te_now :: int
  te_event_id :: uuid
  te_round_id :: uuid
  te_participant_id :: "nat \<Rightarrow> uuid"
  te_pair_id :: "nat \<Rightarrow> uuid"
  te_mk_hash :: "string \<Rightarrow> string"
  te_urlsafe :: "uuid \<Rightarrow> string"

definition test_event_name :: string where
  "test_event_name = ''WebRTC Test Event''"

definition test_event :: "test_pair_env \<Rightarrow> event_row" where
  "test_event v = \<lparr>ev_id = te_event_id v, ev_name = test_event_name, ev_description = [], ev_status = ES_Draft, ev_num_rounds = 1,
     ev_round_duration = minutes 60, ev_break_duration = 0, ev_start_time = te_now v,
     ev_scoring_weights = JObj [(''tag_overlap'', JFloat (Fin 1))], ev_unique_tags = False\<rparr>"

definition test_round :: "test_pair_env \<Rightarrow> round_row" where
  "test_round v = \<lparr>rd_id = te_round_id v, rd_event = te_event_id v, rd_number = 1, rd_status = RS_Scheduled,
     rd_starts_at = te_now v, rd_ends_at = te_now v + minutes 60\<rparr>"

definition test_pair :: "test_pair_env \<Rightarrow> nat \<Rightarrow> participant_row \<Rightarrow> participant_row \<Rightarrow> string \<Rightarrow> pair_row" where
  "test_pair v k p q room =
     (let (a, b) = (if uuid_str (pt_id q) < uuid_str (pt_id p) then (q, p) else (p, q))
      in pair_save_order (plain_pair (te_pair_id v k) (te_event_id v) (te_round_id v) (pt_id a) (pt_id b) room))"

definition add_test_pair :: "test_pair_env \<Rightarrow> nat \<Rightarrow> string \<Rightarrow> string \<Rightarrow> string \<Rightarrow> db \<Rightarrow> (pair_write_error + string list) \<times> db" where
  "add_test_pair v k name1 name2 room d =
     (let p = plain_participant (te_participant_id v (2 * k)) (te_event_id v) name1 [];
          q = plain_participant (te_participant_id v (2 * k + 1)) (te_event_id v) name2 [];
          d1 = d\<lparr>db_participants := db_participants d @ [p, q]\<rparr>;
          d1 = (if k = 0 then d1\<lparr>db_rounds := db_rounds d1 @ [test_round v]\<rparr> else d1)
      in case insert_pair (test_pair v k p q room) d1 of
           Inl e \<Rightarrow> (Inl e, d1)
         | Inr d2 \<Rightarrow> (let (tokens, d3) = issue_tokens (te_mk_hash v) (te_urlsafe v) (test_event v) [p, q] d2 in (Inr tokens, d3)))"

definition create_test_pair :: "test_pair_env \<Rightarrow> bool \<Rightarrow> db \<Rightarrow> (pair_write_error + string list) \<times> db" where
  "create_test_pair v extra_pair d =
     (let d0 = delete_events (\<lambda>r. ev_name r = test_event_name) d;
          d1 = d0\<lparr>db_events := db_events d0 @ [test_event v]\<rparr>;
          (r, d2) = add_test_pair v 0 ''User_Alpha'' ''User_Beta'' ''test-room-101'' d1
      in case r of
           Inl e \<Rightarrow> (Inl e, d2)
         | Inr tokens \<Rightarrow>
             if \<not> extra_pair then (Inr tokens, d2)
             else (let (r', d3) = add_test_pair v 1 ''User_Gamma'' ''User_Delta'' ''test-room-202'' d2
                   in (map_sum id (\<lambda>more. tokens @ more) r', d3)))"

end
