(* ===== verification/Fixtures_Props.thy ===== *)
theory Fixtures_Props
  imports Fixtures
begin

text \<open>
  The load test event: two rounds of pairs in which everybody has a partner, nobody meets the same partner
  twice, the trigger refuses nothing, and the tokens open the clients' places.
\<close>

section \<open>Neighbours\<close>

lemma adjacent_nth: "p \<in> set (adjacent xs) \<longleftrightarrow> (\<exists>i. 2 * i + 1 < length xs \<and> p = (xs ! (2 * i), xs ! (2 * i + 1)))"
proof (induction xs rule: adjacent.induct)
  case (1 x y zs)
  have "(\<exists>i. 2 * i + 1 < length (x # y # zs) \<and> p = ((x # y # zs) ! (2 * i), (x # y # zs) ! (2 * i + 1))) \<longleftrightarrow>
      p = (x, y) \<or> (\<exists>i. 2 * i + 1 < length zs \<and> p = (zs ! (2 * i), zs ! (2 * i + 1)))" (is "?l \<longleftrightarrow> ?r")
  proof
    assume ?l
    then obtain i where "2 * i + 1 < length (x # y # zs)" "p = ((x # y # zs) ! (2 * i), (x # y # zs) ! (2 * i + 1))" by blast
    then show ?r by (cases i) auto
  next
    assume ?r
    then show ?l
    proof
      assume "p = (x, y)"
      then show ?l by (intro exI[of _ 0]) simp
    next
      assume "\<exists>i. 2 * i + 1 < length zs \<and> p = (zs ! (2 * i), zs ! (2 * i + 1))"
      then obtain i where "2 * i + 1 < length zs" "p = (zs ! (2 * i), zs ! (2 * i + 1))" by blast
      then show ?l by (intro exI[of _ "Suc i"]) simp
    qed
  qed
  then show ?case using 1 by simp
qed auto

lemma length_adjacent [simp]: "length (adjacent xs) = length xs div 2"
  by (induction xs rule: adjacent.induct) auto

lemma nth_adjacent: "2 * i + 1 < length xs \<Longrightarrow> adjacent xs ! i = (xs ! (2 * i), xs ! (2 * i + 1))"
proof (induction xs arbitrary: i rule: adjacent.induct)
  case (1 x y zs)
  then show ?case by (cases i) auto
qed auto

lemma adjacent_map: "adjacent (map f xs) = map (\<lambda>(x, y). (f x, f y)) (adjacent xs)"
  by (induction xs rule: adjacent.induct) auto

text \<open>In a list without repetition two neighbourhoods share an element only if they are one.\<close>

lemma adjacent_shared:
  assumes "distinct xs" "2 * i + 1 < length xs" "2 * j + 1 < length xs"
    and "{xs ! (2 * i), xs ! (2 * i + 1)} \<inter> {xs ! (2 * j), xs ! (2 * j + 1)} \<noteq> {}"
  shows "i = j"
proof -
  have "2 * i = 2 * j \<or> 2 * i = 2 * j + 1 \<or> 2 * i + 1 = 2 * j \<or> 2 * i + 1 = 2 * j + 1"
    using assms nth_eq_iff_index_eq[OF assms(1)] by auto
  then show ?thesis by presburger
qed

lemma adjacent_rotated:
  assumes "distinct xs" "even (length xs)" "4 \<le> length xs" "2 * i + 1 < length xs" "2 * j + 1 < length xs"
  shows "{xs ! (2 * i), xs ! (2 * i + 1)} \<noteq> {rotate1 xs ! (2 * j), rotate1 xs ! (2 * j + 1)}"
proof
  let ?N = "length xs"
  assume eq: "{xs ! (2 * i), xs ! (2 * i + 1)} = {rotate1 xs ! (2 * j), rotate1 xs ! (2 * j + 1)}"
  have r: "rotate1 xs ! (2 * j) = xs ! (2 * j + 1)" "rotate1 xs ! (2 * j + 1) = xs ! ((2 * j + 2) mod ?N)"
    using assms(5) by (cases "xs = []"; simp add: nth_rotate1)+
  have lt: "(2 * j + 2) mod ?N < ?N" using assms(3) by (intro mod_less_divisor) linarith
  have bounds: "2 * i < ?N" "2 * i + 1 < ?N" "2 * j + 1 < ?N" using assms(4,5) by simp_all
  have "xs ! (2 * i) = xs ! (2 * j + 1) \<or> xs ! (2 * i) = xs ! ((2 * j + 2) mod ?N) \<and> xs ! (2 * i + 1) = xs ! (2 * j + 1)"
    using eq unfolding r doubleton_eq_iff by blast
  then have idx: "2 * i = 2 * j + 1 \<or> 2 * i = (2 * j + 2) mod ?N \<and> 2 * i + 1 = 2 * j + 1"
    by (simp only: nth_eq_iff_index_eq[OF assms(1)] bounds lt)
  moreover have "2 * i \<noteq> 2 * j + 1" by presburger
  ultimately have "i = j" "2 * i = (2 * j + 2) mod ?N" by linarith+
  then have self: "2 * i = (2 * i + 2) mod ?N" by simp
  show False
  proof (cases "2 * i + 2 < ?N")
    case True
    then show ?thesis using self by simp
  next
    case False
    then have "2 * i + 2 = ?N" using assms(2,4) by presburger
    then show ?thesis using self assms(3) by simp
  qed
qed

section \<open>The rows\<close>

lemma pad3_inj: "pad3 m = pad3 n \<Longrightarrow> m = n"
proof -
  assume "pad3 m = pad3 n"
  then have "digits_value (pad3 m) = digits_value (pad3 n)" by simp
  then show ?thesis by (simp add: pad3_def digits_value_zeros digits_value_show)
qed

lemma load_test_room_inj:
  assumes "load_test_room e m i = load_test_room e n j" "m \<in> {1, 2}" "n \<in> {1, 2}"
  shows "m = n \<and> i = j"
proof -
  have s: "show_nat 1 = ''1''" "show_nat 2 = ''2''" by code_simp+
  have "show_nat m @ ''-'' @ pad3 i = show_nat n @ ''-'' @ pad3 j" using assms(1) by (simp add: load_test_room_def)
  then have "show_nat m = show_nat n \<and> pad3 i = pad3 j" using assms(2,3) s by auto
  then show ?thesis using assms(2,3) s pad3_inj by auto
qed

definition rotated_ids :: "participant_row list \<Rightarrow> nat \<Rightarrow> uuid list" where
  "rotated_ids ps offset = (if offset = 0 then map pt_id ps else rotate1 (map pt_id ps))"

lemma rotated_ids_simps [simp]:
  "length (rotated_ids ps k) = length ps" "distinct (rotated_ids ps k) = distinct (map pt_id ps)"
  "set (rotated_ids ps k) = pt_id ` set ps"
  by (simp_all add: rotated_ids_def)

lemma rotated_list: "offset \<le> 1 \<Longrightarrow> map pt_id (drop offset ps @ take offset ps) = rotated_ids ps offset"
  by (cases ps; cases offset) (auto simp: rotated_ids_def)

lemma length_load_test_pairs [simp]: "length (load_test_pairs v ps n k) = length ps div 2"
  by (simp add: load_test_pairs_def rotated_pairs_def)

lemma load_test_row:
  fixes v n
  assumes "2 * i + 1 < length ps" "k \<le> 1" "distinct (map pt_id ps)"
  defines "p \<equiv> load_test_pairs v ps n k ! i" and "ids \<equiv> rotated_ids ps k"
  shows "pr_id p = fx_pair_id v n i" "pr_event p = fx_event_id v" "pr_round p = fx_round_id v n"
    "pr_room_id p = load_test_room (fx_event_id v) n i" "pr_a p < pr_b p" "{pr_a p, pr_b p} = {ids ! (2 * i), ids ! (2 * i + 1)}"
proof -
  let ?rot = "drop k ps @ take k ps"
  have len: "length ?rot = length ps" using assms(2) by (cases ps; cases k) auto
  have i: "i < length (adjacent ?rot)" using assms(1) unfolding length_adjacent len by linarith
  have ids: "pt_id (?rot ! m) = ids ! m" if "m < length ps" for m
    using that rotated_list[OF assms(2), of ps] len unfolding ids_def by (metis nth_map)
  have neq: "ids ! (2 * i) \<noteq> ids ! (2 * i + 1)"
    using assms(1,3) nth_eq_iff_index_eq[of ids "2 * i" "2 * i + 1"] unfolding ids_def by simp
  have "adjacent ?rot ! i = (?rot ! (2 * i), ?rot ! (2 * i + 1))" using assms(1) len by (intro nth_adjacent) (simp only:)
  then have p: "p = (let (l, r) = (if pt_id (?rot ! (2 * i + 1)) < pt_id (?rot ! (2 * i)) then (?rot ! (2 * i + 1), ?rot ! (2 * i))
        else (?rot ! (2 * i), ?rot ! (2 * i + 1)))
      in plain_pair (fx_pair_id v n i) (fx_event_id v) (fx_round_id v n) (pt_id l) (pt_id r) (load_test_room (fx_event_id v) n i))"
    using i unfolding p_def load_test_pairs_def rotated_pairs_def by (simp add: nth_enumerate_eq del: length_adjacent)
  show "pr_id p = fx_pair_id v n i" "pr_event p = fx_event_id v" "pr_round p = fx_round_id v n"
    "pr_room_id p = load_test_room (fx_event_id v) n i" unfolding p by (simp_all add: Let_def plain_pair_def)
  have e: "pt_id (?rot ! (2 * i)) = ids ! (2 * i)" "pt_id (?rot ! (2 * i + 1)) = ids ! (2 * i + 1)"
    by (rule ids; use assms(1) in linarith)+
  show "pr_a p < pr_b p" "{pr_a p, pr_b p} = {ids ! (2 * i), ids ! (2 * i + 1)}"
    using neq unfolding p e[symmetric] by (auto simp: Let_def plain_pair_def not_less)
qed

text \<open>New keys are new, and no stored pair sits in one of the rooms.\<close>

definition fixture_fresh :: "fixture_env \<Rightarrow> db \<Rightarrow> bool" where
  "fixture_fresh v d \<longleftrightarrow> inj (fx_participant_id v) \<and> inj (fx_round_id v) \<and>
     (\<forall>n \<in> {1, 2}. \<forall>m \<in> {1, 2}. \<forall>i j. fx_pair_id v n i = fx_pair_id v m j \<longrightarrow> n = m \<and> i = j) \<and>
     (\<forall>q \<in> set (db_pairs d). pr_event q \<noteq> fx_event_id v \<and> pr_round q \<notin> range (fx_round_id v) \<and>
        (\<forall>n i. pr_id q \<noteq> fx_pair_id v n i \<and> pr_room_id q \<noteq> load_test_room (fx_event_id v) n i)) \<and>
     (\<forall>p \<in> set (db_participants d). pt_id p \<notin> range (fx_participant_id v))"

abbreviation fixture_rows :: "fixture_env \<Rightarrow> participant_row list \<Rightarrow> pair_row list" where
  "fixture_rows v ps \<equiv> load_test_pairs v ps 1 0 @ load_test_pairs v ps 2 1"

lemma fixture_row:
  assumes "p \<in> set (fixture_rows v ps)" "distinct (map pt_id ps)"
  obtains n i where "n \<in> {1, 2}" "2 * i + 1 < length ps" "p = load_test_pairs v ps n (n - 1) ! i" "pr_id p = fx_pair_id v n i"
    "pr_event p = fx_event_id v" "pr_round p = fx_round_id v n" "pr_room_id p = load_test_room (fx_event_id v) n i" "pr_a p < pr_b p"
    "{pr_a p, pr_b p} = {rotated_ids ps (n - 1) ! (2 * i), rotated_ids ps (n - 1) ! (2 * i + 1)}"
proof -
  have "\<exists>n \<in> {1, 2 :: nat}. p \<in> set (load_test_pairs v ps n (n - 1))" using assms(1) by auto
  then obtain n where n: "n \<in> {1, 2}" "p \<in> set (load_test_pairs v ps n (n - 1))" by blast
  then obtain i where "i < length (load_test_pairs v ps n (n - 1))" and p: "p = load_test_pairs v ps n (n - 1) ! i"
    by (metis in_set_conv_nth)
  then have i: "2 * i + 1 < length ps" by simp
  have "n - 1 \<le> 1" using n(1) by auto
  note row = load_test_row[OF i this assms(2), of v n]
  show thesis by (rule that[OF n(1) i p]) (unfold p, (rule row)+)
qed

lemma fixture_rows_meet_once:
  assumes ps: "distinct (map pt_id ps)" "even (length ps)" "4 \<le> length ps"
    and p: "p \<in> set (fixture_rows v ps)" and q: "q \<in> set (fixture_rows v ps)"
    and same: "{pr_a p, pr_b p} = {pr_a q, pr_b q} \<or> pr_round p = pr_round q \<and> {pr_a p, pr_b p} \<inter> {pr_a q, pr_b q} \<noteq> {}"
    and inj: "inj (fx_round_id v)"
  shows "p = q"
proof -
  obtain n i where pn: "n \<in> {1, 2}" "2 * i + 1 < length ps" "p = load_test_pairs v ps n (n - 1) ! i" "pr_round p = fx_round_id v n"
    "{pr_a p, pr_b p} = {rotated_ids ps (n - 1) ! (2 * i), rotated_ids ps (n - 1) ! (2 * i + 1)}" by (rule fixture_row[OF p ps(1)]) blast
  obtain m j where qm: "m \<in> {1, 2}" "2 * j + 1 < length ps" "q = load_test_pairs v ps m (m - 1) ! j" "pr_round q = fx_round_id v m"
    "{pr_a q, pr_b q} = {rotated_ids ps (m - 1) ! (2 * j), rotated_ids ps (m - 1) ! (2 * j + 1)}" by (rule fixture_row[OF q ps(1)]) blast
  have cross: "{map pt_id ps ! (2 * k), map pt_id ps ! (2 * k + 1)} \<noteq> {rotate1 (map pt_id ps) ! (2 * l), rotate1 (map pt_id ps) ! (2 * l + 1)}"
    if "2 * k + 1 < length ps" "2 * l + 1 < length ps" for k l
    using adjacent_rotated[of "map pt_id ps" k l] ps that by simp
  have "n = m"
  proof (rule ccontr)
    assume "n \<noteq> m"
    then have "{pr_a p, pr_b p} = {pr_a q, pr_b q}" using same pn(4) qm(4) inj by (auto simp: inj_eq)
    then show False using \<open>n \<noteq> m\<close> pn(1,2,5) qm(1,2,5) cross[of i j] cross[of j i] by (auto simp: rotated_ids_def)
  qed
  moreover have "i = j"
    by (rule adjacent_shared[of "rotated_ids ps (n - 1)"])
      (use ps(1) pn(2,5) qm(2,5) same \<open>n = m\<close> in auto)
  ultimately show ?thesis using pn(3) qm(3) by simp
qed

section \<open>Storing them\<close>

lemma people_facts:
  assumes "inj (fx_participant_id v)"
  shows "set (load_test_people v n) = load_test_participant v ` {..<n}" "length (load_test_people v n) = n"
    "distinct (map pt_id (load_test_people v n))"
proof -
  have ids: "map pt_id (map (load_test_participant v) [0..<n]) = map (fx_participant_id v) [0..<n]"
    by (simp add: load_test_participant_def plain_participant_def)
  have "mset (map pt_id (load_test_people v n)) = mset (map pt_id (map (load_test_participant v) [0..<n]))"
    by (simp add: load_test_people_def multiset.map_comp)
  moreover have "distinct (map pt_id (map (load_test_participant v) [0..<n]))"
    unfolding ids using assms by (simp add: distinct_map inj_on_def inj_def)
  ultimately show "distinct (map pt_id (load_test_people v n))" by (metis mset_eq_imp_distinct_iff)
qed (auto simp: load_test_people_def atLeast0LessThan)

lemma row_keys:
  assumes "k \<le> 1" "distinct (map pt_id ps)"
  shows "map pr_id (load_test_pairs v ps n k) = map (fx_pair_id v n) [0..<length ps div 2]"
proof (rule nth_equalityI)
  fix i assume "i < length (map pr_id (load_test_pairs v ps n k))"
  then have i: "i < length ps div 2" by simp
  then have "2 * i + 1 < length ps" by linarith
  then show "map pr_id (load_test_pairs v ps n k) ! i = map (fx_pair_id v n) [0..<length ps div 2] ! i"
    using load_test_row(1)[OF _ assms, of i v n] i by simp
qed simp

lemma fixture_keys:
  assumes "fixture_fresh v d" "distinct (map pt_id ps)"
  shows "distinct (map pr_id (fixture_rows v ps))"
proof -
  have "fx_pair_id v 1 i \<noteq> fx_pair_id v 2 j" "fx_pair_id v 1 i = fx_pair_id v 1 j \<longleftrightarrow> i = j"
    "fx_pair_id v 2 i = fx_pair_id v 2 j \<longleftrightarrow> i = j" for i j
    using assms(1) unfolding fixture_fresh_def by fastforce+
  then show ?thesis by (auto simp: row_keys[OF _ assms(2)] distinct_map inj_on_def)
qed

definition fixture_db :: "fixture_env \<Rightarrow> event_row \<Rightarrow> nat \<Rightarrow> db \<Rightarrow> db" where
  "fixture_db v ev n d = d\<lparr>db_events := db_events d @ [ev],
     db_participants := db_participants d @ map (load_test_participant v) [0..<n],
     db_rounds := db_rounds d @ map (load_test_round v) [1, 2]\<rparr>"

lemma pairs_ok_append:
  assumes "pairs_ok xs" "pairs_ok ys"
    and "\<forall>p \<in> set ys. \<forall>q \<in> set xs. pr_event q \<noteq> pr_event p \<and> pr_round q \<noteq> pr_round p \<and> pr_room_id q \<noteq> pr_room_id p"
  shows "pairs_ok (xs @ ys)"
  using assms by (fastforce simp: pairs_ok_def)

lemma fixture_table:
  assumes ok: "pairs_ok (db_pairs d)" and fresh: "fixture_fresh v d"
    and ps: "distinct (map pt_id ps)" "even (length ps)" "4 \<le> length ps"
  shows "pairs_ok (db_pairs d @ fixture_rows v ps)"
proof -
  let ?rows = "fixture_rows v ps"
  have rows: "distinct ?rows" using fixture_keys[OF fresh ps(1)] distinct_map by blast
  have inj: "inj (fx_round_id v)" using fresh by (simp add: fixture_fresh_def)
  note once = fixture_rows_meet_once[OF ps _ _ _ inj]
  have "inj_on (\<lambda>p. (pr_event p, pr_a p, pr_b p)) (set ?rows)" "inj_on (\<lambda>p. (pr_round p, pr_a p)) (set ?rows)"
    "inj_on (\<lambda>p. (pr_round p, pr_b p)) (set ?rows)"
    by (rule inj_onI, rule once; auto)+
  moreover have "inj_on pr_room_id (set ?rows)"
  proof (rule inj_onI)
    fix p q assume p: "p \<in> set ?rows" and q: "q \<in> set ?rows" and eq: "pr_room_id p = pr_room_id q"
    obtain n i where pn: "n \<in> {1, 2}" "p = load_test_pairs v ps n (n - 1) ! i" "pr_room_id p = load_test_room (fx_event_id v) n i"
      by (rule fixture_row[OF p ps(1)]) blast
    obtain m j where qm: "m \<in> {1, 2}" "q = load_test_pairs v ps m (m - 1) ! j" "pr_room_id q = load_test_room (fx_event_id v) m j"
      by (rule fixture_row[OF q ps(1)]) blast
    have "n = m \<and> i = j" using load_test_room_inj[OF _ pn(1) qm(1)] eq pn(3) qm(3) by simp
    then show "p = q" using pn(2) qm(2) by simp
  qed
  ultimately have d: "distinct (map (\<lambda>p. (pr_event p, pr_a p, pr_b p)) ?rows)" "distinct (map (\<lambda>p. (pr_round p, pr_a p)) ?rows)"
    "distinct (map (\<lambda>p. (pr_round p, pr_b p)) ?rows)" "distinct (map pr_room_id ?rows)"
    by (simp_all only: distinct_map rows simp_thms)
  have new: "pr_a p < pr_b p \<and> pr_event p = fx_event_id v \<and> pr_round p \<in> range (fx_round_id v) \<and>
      (\<exists>n i. pr_room_id p = load_test_room (fx_event_id v) n i)" if "p \<in> set ?rows" for p
    by (rule fixture_row[OF that ps(1)]) blast
  have apart: "pr_event q \<noteq> pr_event p" "pr_round q \<noteq> pr_round p" "pr_room_id q \<noteq> pr_room_id p"
    if "p \<in> set ?rows" "q \<in> set (db_pairs d)" for p q
    using new[OF that(1)] fresh that(2) by (auto simp: fixture_fresh_def)
  have "pairs_ok ?rows" using d new unfolding pairs_ok_def by blast
  moreover have "\<forall>p \<in> set ?rows. \<forall>q \<in> set (db_pairs d). pr_event q \<noteq> pr_event p \<and> pr_round q \<noteq> pr_round p \<and> pr_room_id q \<noteq> pr_room_id p"
    using apart by blast
  ultimately show ?thesis by (rule pairs_ok_append[OF ok])
qed

lemma distinct_map_append:
  "distinct (map f xs) \<Longrightarrow> distinct (map f ys) \<Longrightarrow> \<forall>y \<in> set ys. f y \<notin> f ` set xs \<Longrightarrow> distinct (map f (xs @ ys))"
  by (simp add: disjoint_iff) blast

lemma fixture_inserted:
  assumes ok: "pair_table_ok d" and fresh: "fixture_fresh v d" and ev: "ev_id ev = fx_event_id v"
    and n: "even n" "4 \<le> n"
  defines "ps \<equiv> load_test_people v n"
  shows "insert_pairs (fixture_rows v ps) (fixture_db v ev n d) =
    Inr ((fixture_db v ev n d)\<lparr>db_pairs := db_pairs d @ fixture_rows v ps\<rparr>)"
proof -
  have inj: "inj (fx_participant_id v)" "inj (fx_round_id v)" using fresh by (simp_all add: fixture_fresh_def)
  note people = people_facts[OF inj(1), of n, folded ps_def]
  have ps: "distinct (map pt_id ps)" "even (length ps)" "4 \<le> length ps" using people(2,3) n by simp_all
  have pairs: "db_pairs (fixture_db v ev n d) = db_pairs d" by (simp add: fixture_db_def)
  show ?thesis
    unfolding pairs[symmetric]
  proof (rule insert_pairs_all)
    show "pairs_ok (db_pairs (fixture_db v ev n d) @ fixture_rows v ps)"
      using fixture_table[OF _ fresh ps] ok by (simp add: pairs pair_table_ok_def)
    have "pr_id p \<notin> pr_id ` set (db_pairs d)" if row: "p \<in> set (fixture_rows v ps)" for p
    proof -
      obtain k i where "pr_id p = fx_pair_id v k i" by (rule fixture_row[OF row ps(1)]) blast
      moreover have "\<forall>q \<in> set (db_pairs d). pr_id q \<noteq> fx_pair_id v k i" using fresh by (simp add: fixture_fresh_def)
      ultimately show ?thesis by (auto simp: image_iff)
    qed
    then have new: "\<forall>p \<in> set (fixture_rows v ps). pr_id p \<notin> pr_id ` set (db_pairs d)" by (rule ballI)
    have "distinct (map pr_id (db_pairs d))" using ok by (simp add: pair_table_ok_def)
    from distinct_map_append[OF this fixture_keys[OF fresh ps(1)] new]
    show "distinct (map pr_id (db_pairs (fixture_db v ev n d) @ fixture_rows v ps))" by (simp only: pairs)
    show "\<forall>p \<in> set (fixture_rows v ps). belongs (fixture_db v ev n d) p"
    proof
      fix p assume p: "p \<in> set (fixture_rows v ps)"
      obtain k i where r: "k \<in> {1, 2}" "2 * i + 1 < length ps" "pr_event p = fx_event_id v" "pr_round p = fx_round_id v k"
          "{pr_a p, pr_b p} = {rotated_ids ps (k - 1) ! (2 * i), rotated_ids ps (k - 1) ! (2 * i + 1)}"
        by (rule fixture_row[OF p ps(1)]) blast
      have "{rotated_ids ps (k - 1) ! (2 * i), rotated_ids ps (k - 1) ! (2 * i + 1)} \<subseteq> set (rotated_ids ps (k - 1))"
        using r(2) nth_mem[of _ "rotated_ids ps (k - 1)"] unfolding rotated_ids_simps(1) by simp
      then have "{pr_a p, pr_b p} \<subseteq> pt_id ` load_test_participant v ` {..<n}" using r(5) people(1) by simp
      moreover have "pt_event (load_test_participant v j) = fx_event_id v" for j
        by (simp add: load_test_participant_def plain_participant_def)
      moreover have "load_test_round v k \<in> set (db_rounds (fixture_db v ev n d))" using r(1) by (auto simp: fixture_db_def)
      ultimately show "belongs (fixture_db v ev n d) p"
        unfolding belongs_def r(3,4) by (fastforce simp: fixture_db_def load_test_round_def)
    qed
    have "\<not> clash p q" if row: "p \<in> set (fixture_rows v ps)" "q \<in> set (db_pairs d)" for p q
    proof -
      obtain k where "pr_round p = fx_round_id v k" by (rule fixture_row[OF row(1) ps(1)]) blast
      moreover have "pr_round q \<notin> range (fx_round_id v)" using fresh row(2) by (simp add: fixture_fresh_def)
      ultimately show ?thesis unfolding clash_def by (metis rangeI)
    qed
    moreover have "p = q" if "p \<in> set (fixture_rows v ps)" "q \<in> set (fixture_rows v ps)" "clash p q" for p q
      by (rule fixture_rows_meet_once[OF ps that(1,2) _ inj(2)]) (use that(3) in \<open>auto simp: clash_def\<close>)
    ultimately show "\<forall>p \<in> set (fixture_rows v ps). \<forall>q \<in> set (db_pairs (fixture_db v ev n d) @ fixture_rows v ps). clash p q \<longrightarrow> p = q"
      unfolding pairs set_append by blast
  qed
qed

section \<open>Tokens\<close>

definition with_token :: "(string \<Rightarrow> string) \<Rightarrow> (uuid \<Rightarrow> string) \<Rightarrow> event_row \<Rightarrow> participant_row \<Rightarrow> participant_row" where
  "with_token mk urlsafe ev p = p\<lparr>pt_token_hash := mk (token_prefix @ urlsafe (pt_id p)),
     pt_token_digest := sha256_hex (token_prefix @ urlsafe (pt_id p)), pt_token_expires_at := Some (event_end_of ev)\<rparr>"

lemma issue_tokens_closed:
  "issue_tokens mk urlsafe ev ps d = (map (\<lambda>p. token_prefix @ urlsafe (pt_id p)) ps,
     d\<lparr>db_participants := map (\<lambda>p. if pt_id p \<in> pt_id ` set ps then with_token mk urlsafe ev p else p) (db_participants d)\<rparr>)"
proof (induction ps arbitrary: d)
  case (Cons p ps)
  have "issue_join_token mk (urlsafe (pt_id p)) ev p d = Some (token_prefix @ urlsafe (pt_id p),
      p\<lparr>pt_token_hash := mk (token_prefix @ urlsafe (pt_id p)), pt_token_digest := sha256_hex (token_prefix @ urlsafe (pt_id p)),
        pt_token_expires_at := Some (event_end_of ev)\<rparr>,
      update_participant (pt_id p) (\<lambda>row. row\<lparr>pt_token_hash := mk (token_prefix @ urlsafe (pt_id p)),
        pt_token_digest := sha256_hex (token_prefix @ urlsafe (pt_id p)), pt_token_expires_at := Some (event_end_of ev)\<rparr>) d)"
    by (simp add: issue_join_token_def set_join_token_def Let_def token_prefix_def)
  then show ?case using Cons by (auto simp: update_participant_def with_token_def)
qed simp

lemma mapped_participant:
  "x \<in> set (db_participants d) \<Longrightarrow> f x \<in> set (db_participants (d\<lparr>db_participants := map f (db_participants d)\<rparr>))"
  by simp

lemma with_token_values:
  "pt_id (with_token mk u ev p) = pt_id p" "pt_event (with_token mk u ev p) = pt_event p"
  "pt_token_hash (with_token mk u ev p) = mk (token_prefix @ u (pt_id p))"
  "pt_token_digest (with_token mk u ev p) = sha256_hex (token_prefix @ u (pt_id p))"
  by (simp_all add: with_token_def)

lemma with_token_simps [simp]: "pt_id (with_token mk u ev p) = pt_id p" "pt_event (with_token mk u ev p) = pt_event p"
  by (simp_all add: with_token_def)

lemma people_in:
  assumes "x \<in> set (load_test_people v n)"
  shows "x \<in> set (db_participants (fixture_db v ev n d)) \<and> pt_event x = fx_event_id v"
proof -
  obtain j where "j < n" "x = load_test_participant v j" using assms by (auto simp: load_test_people_def)
  then show ?thesis by (auto simp: fixture_db_def load_test_participant_def plain_participant_def)
qed

lemma pair_table_ok_people:
  assumes "pair_table_ok d" "\<And>p. pt_id (f p) = pt_id p" "\<And>p. pt_event (f p) = pt_event p"
  shows "pair_table_ok (d\<lparr>db_participants := map f (db_participants d)\<rparr>)"
  using assms by (simp add: pair_table_ok_def belongs_def)

text \<open>What a successful creation returns and stores.\<close>

definition fixture_result :: "fixture_env \<Rightarrow> event_row \<Rightarrow> nat \<Rightarrow> provisioned" where
  "fixture_result v ev n =
     \<lparr>pv_event_id = uuid_str (ev_id ev), pv_event_name = ev_name ev, pv_round_numbers = [1, 2],
      pv_clients = map (\<lambda>(index, p). \<lparr>si_index = index, si_participant_id = uuid_str (pt_id p), si_display_name = pt_name p\<rparr>)
        (enumerate 0 (load_test_people v n)),
      pv_pair_counts = map (\<lambda>(number, offset). (number, length (rotated_pairs (load_test_people v n) offset))) [(1, 0), (2, 1)],
      pv_join_tokens = map (\<lambda>p. token_prefix @ fx_urlsafe v (pt_id p)) (load_test_people v n)\<rparr>"

definition fixture_token :: "fixture_env \<Rightarrow> event_row \<Rightarrow> nat \<Rightarrow> participant_row \<Rightarrow> participant_row" where
  "fixture_token v ev n p = (if pt_id p \<in> pt_id ` set (load_test_people v n) then with_token (fx_mk_hash v) (fx_urlsafe v) ev p else p)"

definition fixture_stored :: "fixture_env \<Rightarrow> event_row \<Rightarrow> nat \<Rightarrow> db \<Rightarrow> db" where
  "fixture_stored v ev n d = (fixture_db v ev n d)\<lparr>db_pairs := db_pairs d @ fixture_rows v (load_test_people v n),
     db_participants := map (fixture_token v ev n) (db_participants (fixture_db v ev n d))\<rparr>"

lemma validate_client_count_int: "even n \<Longrightarrow> 4 \<le> n \<Longrightarrow> n \<le> 200 \<Longrightarrow> validate_client_count (int n) = Inr (int n)"
  by (auto simp: validate_client_count_def min_client_count_def max_client_count_def)

lemma provision_run:
  fixes event_name
  assumes ok: "pair_table_ok d" and fresh: "fixture_fresh v d" and n: "even n" "4 \<le> n" "n \<le> 200" and prod: "\<not> fx_production v"
  defines "ev \<equiv> load_test_event v event_name"
  shows "provision_load_test_event v (int n) event_name d = Inr (fixture_result v ev n, fixture_stored v ev n d)"
proof -
  have e: "ev_id ev = fx_event_id v" by (simp add: ev_def load_test_event_def Let_def)
  note ins = fixture_inserted[OF ok fresh e n(1,2)]
  have "d\<lparr>db_events := db_events d @ [ev], db_participants := db_participants d @ map (load_test_participant v) [0..<n],
      db_rounds := db_rounds d @ map (load_test_round v) [1, 2]\<rparr> = fixture_db v ev n d" by (simp add: fixture_db_def)
  then show ?thesis
    using ins prod by (simp add: provision_load_test_event_def validate_client_count_int[OF n] Let_def issue_tokens_closed
        ev_def[symmetric] fixture_result_def fixture_stored_def fixture_token_def[abs_def])
qed

text \<open>
  A load test event of an even number of clients from 4 to 200 is always created: the trigger accepts its two
  rounds of pairs, the pair table stays in order (so nobody meets the same partner twice), every client has
  exactly one pair in each of the two rounds, and the token handed out for it is the one its row stores.
\<close>

theorem fixture_provisioned:
  assumes ok: "pair_table_ok d" and fresh: "fixture_fresh v d" and n: "even n" "4 \<le> n" "n \<le> 200" and prod: "\<not> fx_production v"
  shows "\<exists>fx d'. provision_load_test_event v (int n) event_name d = Inr (fx, d') \<and> pair_table_ok d' \<and>
    length (pv_clients fx) = n \<and>
    (\<forall>c \<in> set (pv_clients fx). \<exists>r \<in> set (db_participants d'). pt_event r = fx_event_id v \<and>
       si_participant_id c = uuid_str (pt_id r) \<and> pt_token_hash r = fx_mk_hash v (token_for fx (si_index c)) \<and>
       pt_token_digest r = sha256_hex (token_for fx (si_index c)) \<and>
       (\<forall>k \<in> {1, 2}. \<exists>!p. p \<in> set (db_pairs d') \<and> pr_round p = fx_round_id v k \<and> pt_id r \<in> {pr_a p, pr_b p}))"
proof -
  let ?ev = "load_test_event v event_name" and ?ps = "load_test_people v n"
  let ?mid = "(fixture_db v ?ev n d)\<lparr>db_pairs := db_pairs d @ fixture_rows v ?ps\<rparr>"
  let ?tok = "\<lambda>p. if pt_id p \<in> pt_id ` set ?ps then with_token (fx_mk_hash v) (fx_urlsafe v) ?ev p else p"
  let ?d = "?mid\<lparr>db_participants := map ?tok (db_participants ?mid)\<rparr>"
  let ?fx = "\<lparr>pv_event_id = uuid_str (ev_id ?ev), pv_event_name = ev_name ?ev, pv_round_numbers = [1, 2],
      pv_clients = map (\<lambda>(index, p). \<lparr>si_index = index, si_participant_id = uuid_str (pt_id p), si_display_name = pt_name p\<rparr>) (enumerate 0 ?ps),
      pv_pair_counts = map (\<lambda>(number, offset). (number, length (rotated_pairs ?ps offset))) [(1, 0), (2, 1)],
      pv_join_tokens = map (\<lambda>p. token_prefix @ fx_urlsafe v (pt_id p)) ?ps\<rparr>"
  have inj: "inj (fx_participant_id v)" "inj (fx_round_id v)" using fresh by (simp_all add: fixture_fresh_def)
  note people = people_facts[OF inj(1), of n]
  have e: "ev_id ?ev = fx_event_id v" by (simp add: load_test_event_def Let_def)
  note ins = fixture_inserted[OF ok fresh e n(1,2)]
  have run: "provision_load_test_event v (int n) event_name d = Inr (?fx, ?d)"
    using provision_run[OF ok fresh n prod, of event_name]
    by (simp add: fixture_result_def fixture_stored_def fixture_token_def[abs_def])
  have "pair_table_ok (fixture_db v ?ev n d)"
    unfolding fixture_db_def using ok by (auto simp: pair_table_ok_def belongs_def)
  then have mid: "pair_table_ok ?mid" using insert_pairs_ok ins by blast
  then have table: "pair_table_ok ?d" by (rule pair_table_ok_people) simp_all
  have client: "\<exists>!p. p \<in> set (db_pairs ?d) \<and> pr_round p = fx_round_id v k \<and> pt_id x \<in> {pr_a p, pr_b p}"
    if x: "x \<in> set ?ps" and k: "k \<in> {1, 2}" for x k
  proof -
    let ?ids = "rotated_ids ?ps (k - 1)"
    have "pt_id x \<in> set ?ids" using x by simp
    then obtain m where m: "m < n" "?ids ! m = pt_id x" using people(2) by (metis in_set_conv_nth rotated_ids_simps(1))
    let ?i = "m div 2"
    have i: "2 * ?i + 1 < length ?ps" and "m = 2 * ?i \<or> m = 2 * ?i + 1" using m(1) n(1) people(2) by presburger+
    note row = load_test_row[OF i _ people(3), of "k - 1" v k]
    let ?p = "load_test_pairs v ?ps k (k - 1) ! ?i"
    have le: "k - 1 \<le> 1" using k by auto
    have "?i < length (load_test_pairs v ?ps k (k - 1))" using i by simp
    then have "?p \<in> set (load_test_pairs v ?ps k (k - 1))" by (rule nth_mem)
    then have "?p \<in> set (db_pairs ?d)" using k by auto
    moreover have "?ids ! m \<in> {?ids ! (2 * ?i), ?ids ! (2 * ?i + 1)}"
      using \<open>m = 2 * ?i \<or> m = 2 * ?i + 1\<close> by (metis insertI1 insertI2)
    then have "pt_id x \<in> {pr_a ?p, pr_b ?p}" by (simp only: row(6)[OF le] m(2))
    moreover have "p = q" if "p \<in> set (db_pairs ?d)" "q \<in> set (db_pairs ?d)" "pr_round p = pr_round q" "pt_id x \<in> {pr_a p, pr_b p}"
        "pt_id x \<in> {pr_a q, pr_b q}" for p q
      using table that unfolding pair_table_ok_def by (auto simp: clash_def)
    ultimately show ?thesis using row(3)[OF le] by (intro ex1I[of _ ?p]) auto
  qed
  have "\<exists>r \<in> set (db_participants ?d). pt_event r = fx_event_id v \<and> si_participant_id c = uuid_str (pt_id r) \<and>
      pt_token_hash r = fx_mk_hash v (token_for ?fx (si_index c)) \<and> pt_token_digest r = sha256_hex (token_for ?fx (si_index c)) \<and>
      (\<forall>k \<in> {1, 2}. \<exists>!p. p \<in> set (db_pairs ?d) \<and> pr_round p = fx_round_id v k \<and> pt_id r \<in> {pr_a p, pr_b p})"
    if client_in: "c \<in> set (pv_clients ?fx)" for c
  proof -
    obtain i p where "(i, p) \<in> set (enumerate 0 ?ps)" and c: "c = \<lparr>si_index = i, si_participant_id = uuid_str (pt_id p), si_display_name = pt_name p\<rparr>"
      using client_in by auto
    then have p: "p = ?ps ! i" and i: "i < n" "si_index c = i" "si_participant_id c = uuid_str (pt_id (?ps ! i))"
      using people(2) by (auto simp: in_set_enumerate_eq)
    let ?x = "?ps ! i" and ?w = "with_token (fx_mk_hash v) (fx_urlsafe v) ?ev"
    have x: "?x \<in> set ?ps" using i(1) people(2) by simp
    have "?x \<in> set (db_participants ?mid)" and event: "pt_event ?x = fx_event_id v"
      using people_in[OF x, of ?ev d] by simp_all
    from this(1) have "?tok ?x \<in> set (db_participants ?d)" by (rule mapped_participant)
    moreover have "pt_id ?x \<in> pt_id ` set ?ps" using x by (rule imageI)
    then have "?tok ?x = ?w ?x" by (rule if_P)
    ultimately have w: "?w ?x \<in> set (db_participants ?d)" by (simp only:)
    have "i < length ?ps" using i(1) people(2) by simp
    then have tok: "token_for ?fx (si_index c) = token_prefix @ fx_urlsafe v (pt_id ?x)"
      unfolding i(2) token_for_def by (simp only: provisioned.simps nth_map)
    show ?thesis
    proof (intro bexI[OF _ w] conjI ballI)
      fix k :: nat assume "k \<in> {1, 2}"
      then show "\<exists>!p. p \<in> set (db_pairs ?d) \<and> pr_round p = fx_round_id v k \<and> pt_id (?w ?x) \<in> {pr_a p, pr_b p}"
        unfolding with_token_values by (rule client[OF x])
    qed (simp_all only: with_token_values tok event i(3))
  qed
  then show ?thesis using run table people(2) by (intro exI[of _ ?fx] exI[of _ ?d]) simp
qed

definition sample_fixture_env :: fixture_env where
  "sample_fixture_env = \<lparr>fx_production = False, fx_now = 0, fx_stamp = ''20260101-120000'', fx_event_id = UUID 9,
     fx_participant_id = UUID, fx_round_id = UUID, fx_pair_id = (\<lambda>n i. UUID (2 * i + n)), fx_mk_hash = id, fx_urlsafe = uuid_str\<rparr>"

lemma fixture_provisioned_witness:
  "\<exists>fx d. provision_load_test_event sample_fixture_env 50 None empty_db = Inr (fx, d) \<and> length (pv_clients fx) = 50 \<and> pair_table_ok d"
proof -
  have "fixture_fresh sample_fixture_env empty_db"
    by (auto simp: fixture_fresh_def sample_fixture_env_def empty_db_def inj_def) presburger+
  moreover have "pair_table_ok empty_db" by (simp add: pair_table_ok_def pairs_ok_def empty_db_def)
  moreover have "\<not> fx_production sample_fixture_env" by (simp add: sample_fixture_env_def)
  ultimately obtain fx d where "provision_load_test_event sample_fixture_env (int 50) None empty_db = Inr (fx, d)"
    "pair_table_ok d" "length (pv_clients fx) = 50"
    using fixture_provisioned[of empty_db sample_fixture_env 50 None] by auto
  then show ?thesis by (intro exI[of _ fx] exI[of _ d]) simp
qed

text \<open>Two clients could not switch partners: the lower bound on the count is needed.\<close>

lemma two_clients_meet_again: "rotated_pairs [p, q] 0 = rotated_pairs [p, q] 1 \<or> pt_id p = pt_id q"
  by (auto simp: rotated_pairs_def)

section \<open>The test pair\<close>

lemma delete_events_table:
  assumes "pair_table_ok d"
  shows "pair_table_ok (delete_events P d)"
proof -
  let ?gone = "ev_id ` {r \<in> set (db_events d). P r}"
  let ?keep = "\<lambda>p. pr_event p \<notin> ?gone \<and> pr_round p \<notin> rd_id ` {r \<in> set (db_rounds d). rd_event r \<in> ?gone} \<and>
      pr_a p \<notin> pt_id ` {p \<in> set (db_participants d). pt_event p \<in> ?gone} \<and> pr_b p \<notin> pt_id ` {p \<in> set (db_participants d). pt_event p \<in> ?gone}"
  have "belongs (delete_events P d) p" if p: "belongs d p" "?keep p" for p
  proof -
    obtain r x y where r: "r \<in> set (db_rounds d)" "rd_id r = pr_round p" "rd_event r = pr_event p"
      and x: "x \<in> set (db_participants d)" "pt_id x = pr_a p" "pt_event x = pr_event p"
      and y: "y \<in> set (db_participants d)" "pt_id y = pr_b p" "pt_event y = pr_event p" using p(1) unfolding belongs_def by blast
    have rows: "db_rounds (delete_events P d) = filter (\<lambda>r. rd_event r \<notin> ?gone) (db_rounds d)"
      "db_participants (delete_events P d) = filter (\<lambda>p. pt_event p \<notin> ?gone) (db_participants d)"
      by (simp_all add: delete_events_def Let_def)
    have e: "pr_event p \<notin> ?gone" using p(2) by blast
    have "r \<in> set (db_rounds (delete_events P d))" "x \<in> set (db_participants (delete_events P d))" "y \<in> set (db_participants (delete_events P d))"
      using r x y e unfolding rows by simp_all
    then show ?thesis using r x y unfolding belongs_def by blast
  qed
  then show ?thesis
    by (intro pair_table_ok_filter[OF assms, of _ ?keep]) (use assms in \<open>auto simp: delete_events_def Let_def pair_table_ok_def\<close>)
qed

lemma add_test_pair_table:
  assumes "pair_table_ok d"
  shows "pair_table_ok (snd (add_test_pair v k name1 name2 room d))"
proof -
  have more: "pair_table_ok (d\<lparr>db_participants := db_participants d @ xs\<rparr>)"
    "pair_table_ok (d\<lparr>db_participants := db_participants d @ xs, db_rounds := db_rounds d @ rs\<rparr>)" for xs rs
    using assms by (auto simp: pair_table_ok_def belongs_def)
  define ps where "ps = [plain_participant (te_participant_id v (2 * k)) (te_event_id v) name1 [],
    plain_participant (te_participant_id v (2 * k + 1)) (te_event_id v) name2 []]"
  define d1 where "d1 = (let d1 = d\<lparr>db_participants := db_participants d @ ps\<rparr>
    in if k = 0 then d1\<lparr>db_rounds := db_rounds d1 @ [test_round v]\<rparr> else d1)"
  have d1: "pair_table_ok d1" using more by (simp add: d1_def Let_def)
  show ?thesis
  proof (cases "insert_pair (test_pair v k (ps ! 0) (ps ! 1) room) d1")
    case (Inl e)
    then show ?thesis using d1 by (simp add: add_test_pair_def Let_def ps_def d1_def split: if_splits)
  next
    case (Inr d2)
    then have "add_test_pair v k name1 name2 room d = (let (tokens, d3) = issue_tokens (te_mk_hash v) (te_urlsafe v) (test_event v) ps d2 in (Inr tokens, d3))"
      by (simp add: add_test_pair_def Let_def ps_def d1_def del: issue_tokens.simps split: if_splits)
    then show ?thesis using insert_pair_ok[OF d1 Inr] by (auto simp: issue_tokens_closed intro!: pair_table_ok_people)
  qed
qed

text \<open>Whether it succeeds or stops half way, the command leaves the pair table in order.\<close>

lemma create_test_pair_table:
  assumes "pair_table_ok d"
  shows "pair_table_ok (snd (create_test_pair v extra d))"
proof -
  let ?d = "(delete_events (\<lambda>r. ev_name r = test_event_name) d)"
  have "pair_table_ok (?d\<lparr>db_events := db_events ?d @ [test_event v]\<rparr>)"
    using delete_events_table[OF assms] by (auto simp: pair_table_ok_def belongs_def)
  from add_test_pair_table[OF this] show ?thesis
    unfolding create_test_pair_def Let_def using add_test_pair_table
    by (auto simp: split_beta split: sum.splits)
qed

end
