(* ===== verification/Redaction.thy ===== *)
theory Redaction
  imports Auth Py_Text
begin

text \<open>
  Keeping secrets out of files and logs: the result file of the load test
  (\<open>tools/message_layer_load_test/report.py\<close>) and the log filter (\<open>apps/health/logging_filters.py\<close>).
  A pattern is a function that returns what is left of a text after a match at its start.
\<close>

section \<open>Substitution\<close>

text \<open>\<open>pattern.sub(repl, text)\<close>: matches from left to right that do not overlap; no pattern here matches the empty text.\<close>

function re_sub :: "(string \<Rightarrow> string option) \<Rightarrow> string \<Rightarrow> string \<Rightarrow> string" where
  "re_sub m repl [] = []"
| "re_sub m repl (c # cs) =
     (case m (c # cs) of
        None \<Rightarrow> c # re_sub m repl cs
      | Some rest \<Rightarrow> if length rest \<le> length cs then repl @ re_sub m repl rest else c # re_sub m repl cs)"
  by pat_completeness auto
termination
  by (relation "measure (\<lambda>(m, repl, s). length s)") auto

text \<open>A literal, compared after \<open>cf\<close>, and the longest run of at least \<open>k\<close> characters of a class.\<close>

definition literal :: "(char \<Rightarrow> char) \<Rightarrow> string \<Rightarrow> string \<Rightarrow> string option" where
  "literal cf lit s = (if map cf (take (length lit) s) = map cf lit then Some (drop (length lit) s) else None)"

definition char_run :: "(char \<Rightarrow> bool) \<Rightarrow> nat \<Rightarrow> string \<Rightarrow> string option" where
  "char_run C k s = (if k \<le> length (takeWhile C s) then Some (dropWhile C s) else None)"

section \<open>The result file\<close>

text \<open>Letters, digits, underscore and hyphen.\<close>

definition token_char :: "char \<Rightarrow> bool" where
  "token_char c = (let n = of_char c :: nat
     in (48 \<le> n \<and> n \<le> 57) \<or> (65 \<le> n \<and> n \<le> 90) \<or> (97 \<le> n \<and> n \<le> 122) \<or> n = 95 \<or> n = 45)"

definition quote_char :: "char \<Rightarrow> bool" where
  "quote_char c \<longleftrightarrow> c = CHR 0x22 \<or> c = CHR 0x27"

definition token_re :: "string \<Rightarrow> string option" where
  "token_re s = Option.bind (literal id token_prefix s) (char_run token_char 8)"

definition join_re :: "string \<Rightarrow> string option" where
  "join_re s = Option.bind (literal lower_char ''/join/'' s) (char_run (\<lambda>c. c \<noteq> CHR ''/'' \<and> \<not> py_isspace c \<and> \<not> quote_char c) 1)"

definition bearer_re :: "string \<Rightarrow> string option" where
  "bearer_re s = Option.bind (Option.bind (literal lower_char ''Bearer'' s) (char_run py_isspace 1)) (char_run (\<lambda>c. \<not> py_isspace c) 1)"

definition session_re :: "string \<Rightarrow> string option" where
  "session_re s = Option.bind (literal lower_char ''sessionid='' s)
     (char_run (\<lambda>c. c \<noteq> CHR '';'' \<and> \<not> py_isspace c \<and> \<not> quote_char c) 1)"

definition redacted :: string where
  "redacted = ''[REDACTED]''"

definition redact_text :: "string \<Rightarrow> string" where
  "redact_text s =
     (let text = re_sub token_re redacted s;
          text = re_sub join_re (''/join/'' @ redacted) text;
          text = re_sub bearer_re (''Bearer '' @ redacted) text
      in re_sub session_re (''sessionid='' @ redacted) text)"

definition secret_key_markers :: "string list" where
  "secret_key_markers = [''token'', ''cookie'', ''session'', ''password'', ''secret'', ''authorization'', ''credential'', ''join_link'']"

text \<open>\<open>x in s\<close> for strings.\<close>

fun occurs_in :: "string \<Rightarrow> string \<Rightarrow> bool" where
  "occurs_in x [] \<longleftrightarrow> x = []"
| "occurs_in x (c # cs) \<longleftrightarrow> take (length x) (c # cs) = x \<or> occurs_in x cs"

definition is_secret_key :: "string \<Rightarrow> bool" where
  "is_secret_key key = list_ex (\<lambda>marker. occurs_in marker (py_lower key)) secret_key_markers"

fun strip_secrets :: "json \<Rightarrow> json" where
  "strip_secrets (JObj d) = JObj (map (\<lambda>(key, item). (key, if is_secret_key key then JStr redacted else strip_secrets item)) d)"
| "strip_secrets (JList xs) = JList (map strip_secrets xs)"
| "strip_secrets (JStr s) = JStr (redact_text s)"
| "strip_secrets v = v"

section \<open>Logs\<close>

definition word_char :: "char \<Rightarrow> bool" where
  "word_char c = (let n = of_char c :: nat
     in (48 \<le> n \<and> n \<le> 57) \<or> (65 \<le> n \<and> n \<le> 90) \<or> (97 \<le> n \<and> n \<le> 122) \<or> n = 95 \<or>
        n \<in> {170, 178, 179, 181, 185, 186, 188, 189, 190} \<or> (192 \<le> n \<and> n \<noteq> 215 \<and> n \<noteq> 247))"

definition name_char :: "char \<Rightarrow> bool" where
  "name_char c \<longleftrightarrow> word_char c \<or> c = CHR ''.'' \<or> c = CHR ''-''"

definition log_token_re :: "string \<Rightarrow> string option" where
  "log_token_re s = Option.bind (literal lower_char ''token='' s) (char_run name_char 1)"

definition log_join_re :: "string \<Rightarrow> string option" where
  "log_join_re s = Option.bind (literal lower_char ''/join/'' s) (char_run (\<lambda>c. c \<noteq> CHR ''/'' \<and> \<not> py_isspace c) 1)"

definition log_password_re :: "string \<Rightarrow> string option" where
  "log_password_re s = Option.bind (literal lower_char ''password='' s) (char_run (\<lambda>c. \<not> py_isspace c) 1)"

text \<open>
  The domain ends at its last dot that has something before it and a word character after it; the word
  after that dot belongs to the match.
\<close>

definition log_email_re :: "string \<Rightarrow> string option" where
  "log_email_re s =
     (let local = takeWhile name_char s; t = dropWhile name_char s in
      case t of
        [] \<Rightarrow> None
      | c # t \<Rightarrow>
          if local = [] \<or> c \<noteq> CHR ''@'' then None
          else (let domain = takeWhile name_char t;
                    dots = filter (\<lambda>i. domain ! i = CHR ''.'' \<and> word_char (domain ! (i + 1))) [1..<length domain - 1]
                in if dots = [] then None else Some (dropWhile word_char (drop (last dots + 1) t))))"

definition redact_log :: "string \<Rightarrow> string" where
  "redact_log message =
     (let message = re_sub log_token_re redacted message;
          message = re_sub log_join_re redacted message;
          message = re_sub log_password_re redacted message
      in re_sub log_email_re redacted message)"

record log_record =
  lr_message :: string
  lr_request_id :: "string option"

text \<open>The filter lets every record through. \<open>lr_message\<close> is the formatted text.\<close>

definition redact_filter :: "log_record \<Rightarrow> bool \<times> log_record" where
  "redact_filter r = (True, r\<lparr>lr_message := redact_log (lr_message r),
     lr_request_id := Some (case lr_request_id r of None \<Rightarrow> ''-'' | Some i \<Rightarrow> i)\<rparr>)"

end
