(* ===== verification/Redaction_Props.thy ===== *)
theory Redaction_Props
  imports Redaction
begin

text \<open>No join token survives in a redacted text: each substitution keeps the texts without token.\<close>

section \<open>Tokens in a text\<close>

definition token_at :: "string \<Rightarrow> bool" where
  "token_at s \<longleftrightarrow> take 3 s = token_prefix \<and> 8 \<le> length (takeWhile token_char (drop 3 s))"

fun has_token :: "string \<Rightarrow> bool" where
  "has_token [] \<longleftrightarrow> False"
| "has_token (c # cs) \<longleftrightarrow> token_at (c # cs) \<or> has_token cs"

lemma token_re_iff: "token_re s \<noteq> None \<longleftrightarrow> token_at s"
proof -
  have "length token_prefix = 3" by (simp add: token_prefix_def)
  then show ?thesis by (simp add: token_re_def literal_def char_run_def token_at_def)
qed

text \<open>A token lies within the run of token characters at its start.\<close>

lemma token_at_run: "token_at s \<longleftrightarrow> (\<exists>t. s = token_prefix @ t \<and> 8 \<le> length (takeWhile token_char t))"
proof
  assume s: "token_at s"
  have "s = take 3 s @ drop 3 s" by (rule append_take_drop_id[symmetric])
  then show "\<exists>t. s = token_prefix @ t \<and> 8 \<le> length (takeWhile token_char t)" using s unfolding token_at_def by metis
next
  assume "\<exists>t. s = token_prefix @ t \<and> 8 \<le> length (takeWhile token_char t)"
  then show "token_at s" by (auto simp: token_at_def token_prefix_def)
qed

section \<open>A substitution\<close>

lemma has_token_suffix: "has_token t \<Longrightarrow> has_token (u @ t)"
  by (induction u) auto

lemma run_append: "length (takeWhile P u) \<le> length (takeWhile P (u @ r))"
  by (induction u) auto

lemma token_at_stop:
  assumes "\<not> token_char x"
  shows "token_at (u @ x # w) \<longleftrightarrow> token_at u"
proof
  assume "token_at (u @ x # w)"
  then obtain t where t: "u @ x # w = token_prefix @ t" "8 \<le> length (takeWhile token_char t)" unfolding token_at_run by blast
  have "length token_prefix \<le> length u"
  proof (rule ccontr)
    assume short: "\<not> ?thesis"
    then have "x = token_prefix ! length u" using t(1) by (metis linorder_not_le nth_append nth_append_length)
    moreover have "token_prefix ! length u \<in> set token_prefix" using short by (intro nth_mem) simp
    moreover have "\<forall>c \<in> set token_prefix. token_char c" by (auto simp: token_prefix_def token_char_def)
    ultimately show False using assms by metis
  qed
  then have "take (length token_prefix) u = token_prefix" using arg_cong[OF t(1), of "take (length token_prefix)"] by simp
  then have u: "u = token_prefix @ drop (length token_prefix) u" by (metis append_take_drop_id)
  define u' where "u' = drop (length token_prefix) u"
  have "token_prefix @ u' @ x # w = token_prefix @ t" using t(1) u unfolding u'_def by (metis append.assoc)
  then have u: "u = token_prefix @ u'" "u' @ x # w = t" using u by (simp_all add: u'_def)
  have "takeWhile token_char t = takeWhile token_char u'" using assms
    by (cases "\<forall>c \<in> set u'. token_char c") (auto simp: u(2)[symmetric] takeWhile_append takeWhile_eq_all_conv[THEN iffD2])
  then show "token_at u" using u(1) t(2) unfolding token_at_run by auto
next
  assume "token_at u"
  then obtain t where t: "u = token_prefix @ t" "8 \<le> length (takeWhile token_char t)" unfolding token_at_run by blast
  have "length (takeWhile token_char t) \<le> length (takeWhile token_char (t @ x # w))" by (rule run_append)
  then show "token_at (u @ x # w)" using t unfolding token_at_run by (intro exI[of _ "t @ x # w"]) simp
qed

lemma has_token_stop: "\<not> token_char x \<Longrightarrow> has_token (u @ x # w) \<longleftrightarrow> has_token u \<or> has_token w"
proof (induction u)
  case Nil
  have "\<not> token_at (x # w)" using token_at_stop[OF Nil, of "[]" w] by (simp add: token_at_def token_prefix_def)
  then show ?case by simp
next
  case (Cons c u)
  then show ?case using token_at_stop[OF Cons.prems, of "c # u" w] by simp
qed

text \<open>
  What a substitution must promise: a match consumes something, the replacement begins as the match does, up to its
  first character outside the token alphabet, ends outside it, holds no token, and begins with neither of the
  characters that follow another in a token's prefix.
\<close>

locale redactor =
  fixes m :: "string \<Rightarrow> string option" and repl :: string
  assumes match_ends: "m s = Some rest \<Longrightarrow> \<exists>u. u \<noteq> [] \<and> s = u @ rest"
    and match_run: "m s = Some rest \<Longrightarrow> length (takeWhile token_char repl) \<le> length (takeWhile token_char s)"
    and repl_stops: "repl \<noteq> [] \<and> \<not> token_char (last repl)"
    and repl_head: "hd repl \<noteq> CHR ''1'' \<and> hd repl \<noteq> CHR ''_''"
    and repl_clean: "\<not> has_token repl"
begin

lemma repl_split: "repl = butlast repl @ [last repl]"
  using repl_stops by simp

lemma run_repl: "takeWhile token_char (repl @ t) = takeWhile token_char repl"
proof -
  have "last repl \<in> set repl" using repl_stops by simp
  then show ?thesis using repl_stops by (auto simp: takeWhile_append)
qed

lemma sub_cases:
  obtains (match) rest where "m (c # cs) = Some rest" "length rest < length (c # cs)" "re_sub m repl (c # cs) = repl @ re_sub m repl rest"
  | (keep) "m (c # cs) = None" "re_sub m repl (c # cs) = c # re_sub m repl cs"
proof (cases "m (c # cs)")
  case None
  then show ?thesis using keep by simp
next
  case (Some rest)
  then obtain u where "u \<noteq> []" "c # cs = u @ rest" using match_ends by blast
  then have "length rest < length (c # cs)" by (metis length_append length_greater_0_conv less_add_same_cancel2)
  then show ?thesis using Some match by simp
qed

lemma sub_run: "length (takeWhile token_char (re_sub m repl s)) \<le> length (takeWhile token_char s)"
proof (induction s)
  case (Cons c cs)
  show ?case
    by (cases rule: sub_cases[of c cs]) (use Cons match_run[of "c # cs"] run_repl in auto)
qed simp

lemma sub_head:
  assumes "re_sub m repl s = d # t" "d = CHR ''1'' \<or> d = CHR ''_''"
  shows "\<exists>s'. s = d # s' \<and> t = re_sub m repl s'"
proof (cases s)
  case (Cons c cs)
  show ?thesis
    by (cases rule: sub_cases[of c cs]) (use assms Cons repl_head repl_stops in \<open>auto simp: neq_Nil_conv\<close>)
qed (use assms in simp)

text \<open>A token that begins at a kept character began there before.\<close>

lemma token_kept:
  assumes "token_at (c # re_sub m repl cs)"
  shows "token_at (c # cs)"
proof -
  obtain t where t: "c = CHR ''p''" "re_sub m repl cs = CHR ''1'' # CHR ''_'' # t" "8 \<le> length (takeWhile token_char t)"
    using assms unfolding token_at_run by (auto simp: token_prefix_def)
  obtain cs1 where "cs = CHR ''1'' # cs1" "re_sub m repl cs1 = CHR ''_'' # t" using sub_head[OF t(2)] by auto
  moreover obtain cs2 where "cs1 = CHR ''_'' # cs2" "re_sub m repl cs2 = t" using sub_head[OF calculation(2)] by auto
  ultimately show ?thesis using t(1,3) sub_run[of cs2] unfolding token_at_run
    by (intro exI[of _ cs2]) (simp add: token_prefix_def)
qed

lemma repl_append: "has_token (repl @ t) \<longleftrightarrow> has_token t"
proof -
  have "\<not> has_token (butlast repl @ last repl # [])" using repl_clean repl_split by simp
  then have "\<not> has_token (butlast repl)" using has_token_stop[of "last repl" "butlast repl"] repl_stops by metis
  moreover have "repl @ t = butlast repl @ last repl # t" using repl_split by (metis append.assoc append_Cons append_Nil)
  ultimately show ?thesis using has_token_stop[of "last repl" "butlast repl" t] repl_stops by metis
qed

lemma sub_keeps_clean: "\<not> has_token s \<Longrightarrow> \<not> has_token (re_sub m repl s)"
proof (induction "length s" arbitrary: s rule: less_induct)
  case less
  show ?case
  proof (cases s)
    case (Cons c cs)
    show ?thesis
    proof (cases rule: sub_cases[of c cs])
      case (match rest)
      then have "\<not> has_token rest" using less.prems has_token_suffix match_ends[OF match(1)] Cons by metis
      then show ?thesis using less.hyps[of rest] match Cons repl_append by simp
    next
      case keep
      then show ?thesis using less.hyps[of cs] less.prems Cons token_kept by auto
    qed
  qed simp
qed

lemma sub_cleans:
  assumes all: "\<And>s. token_at s \<Longrightarrow> m s \<noteq> None"
  shows "\<not> has_token (re_sub m repl s)"
proof (induction "length s" arbitrary: s rule: less_induct)
  case less
  show ?case
  proof (cases s)
    case (Cons c cs)
    show ?thesis
    proof (cases rule: sub_cases[of c cs])
      case (match rest)
      then show ?thesis using less.hyps[of rest] Cons repl_append by simp
    next
      case keep
      then have "\<not> token_at (c # re_sub m repl cs)" using token_kept all by blast
      then show ?thesis using less.hyps[of cs] Cons keep(2) by simp
    qed
  qed simp
qed

end

section \<open>The four patterns\<close>

lemma literal_Some: "literal cf lit s = Some r \<Longrightarrow> \<exists>u. s = u @ r \<and> map cf u = map cf lit"
  by (auto simp: literal_def split: if_splits) (metis append_take_drop_id)

lemma char_run_Some: "char_run C k s = Some r \<Longrightarrow> \<exists>u. s = u @ r \<and> k \<le> length u"
  by (auto simp: char_run_def split: if_splits) (metis takeWhile_dropWhile_id)

lemma literal_run_ends:
  assumes "Option.bind (literal cf lit s) (char_run C k) = Some r" "0 < k"
  shows "\<exists>u. u \<noteq> [] \<and> s = u @ r"
proof -
  obtain t where t: "literal cf lit s = Some t" "char_run C k t = Some r" using assms(1) by (cases "literal cf lit s") auto
  obtain u w where "s = u @ t" "t = w @ r" "k \<le> length w" using literal_Some[OF t(1)] char_run_Some[OF t(2)] by blast
  then show ?thesis using assms(2) by (intro exI[of _ "u @ w"]) auto
qed

lemma token_char_lower [simp]: "token_char (lower_char c) = token_char c"
proof (cases "(65 \<le> (of_char c :: nat) \<and> (of_char c :: nat) \<le> 90) \<or> (192 \<le> (of_char c :: nat) \<and> (of_char c :: nat) \<le> 222 \<and> (of_char c :: nat) \<noteq> 215)")
  case True
  then have "of_char (lower_char c) = (of_char c :: nat) + 32" by (auto simp: lower_char_def Let_def)
  then show ?thesis using True by (auto simp: token_char_def Let_def)
next
  case False
  then have "lower_char c = c" by (auto simp: lower_char_def Let_def)
  then show ?thesis by simp
qed

lemma literal_run:
  assumes "literal lower_char lit s = Some r"
  shows "length (takeWhile token_char lit) \<le> length (takeWhile token_char s)"
proof -
  obtain u where u: "s = u @ r" "map lower_char u = map lower_char lit" using literal_Some[OF assms] by blast
  have "length (takeWhile token_char xs) = length (takeWhile token_char (map lower_char xs))" for xs
    by (simp add: takeWhile_map comp_def)
  then have "length (takeWhile token_char u) = length (takeWhile token_char lit)" by (metis u(2))
  moreover have "length (takeWhile token_char u) \<le> length (takeWhile token_char s)" unfolding u(1) by (rule run_append)
  ultimately show ?thesis by simp
qed

lemma redacted_facts: "redacted \<noteq> []" "last redacted = CHR '']''" "hd redacted = CHR ''[''" "takeWhile token_char redacted = []"
  by (simp_all add: redacted_def token_char_def)

interpretation tokens: redactor token_re redacted
proof unfold_locales
  show "token_re s = Some rest \<Longrightarrow> \<exists>u. u \<noteq> [] \<and> s = u @ rest" for s rest
    unfolding token_re_def by (erule literal_run_ends) simp
  show "\<not> has_token redacted" by code_simp
qed (simp_all add: redacted_facts token_char_def)

interpretation joins: redactor join_re "''/join/'' @ redacted"
proof unfold_locales
  show "join_re s = Some rest \<Longrightarrow> \<exists>u. u \<noteq> [] \<and> s = u @ rest" for s rest
    unfolding join_re_def by (erule literal_run_ends) simp
  show "\<not> has_token (''/join/'' @ redacted)" by code_simp
qed (simp_all add: redacted_facts token_char_def)

interpretation bearers: redactor bearer_re "''Bearer '' @ redacted"
proof unfold_locales
  fix s rest assume m: "bearer_re s = Some rest"
  then obtain t r where t: "literal lower_char ''Bearer'' s = Some t" "char_run py_isspace 1 t = Some r" "char_run (\<lambda>c. \<not> py_isspace c) 1 r = Some rest"
    by (auto simp: bearer_re_def bind_eq_Some_conv)
  then show "\<exists>u. u \<noteq> [] \<and> s = u @ rest"
    using literal_Some[OF t(1)] char_run_Some[OF t(2)] char_run_Some[OF t(3)]
    by (metis append.assoc append_is_Nil_conv length_greater_0_conv less_le_trans zero_less_one)
  have "length (takeWhile token_char (''Bearer '' @ redacted)) = length (takeWhile token_char ''Bearer'')" by code_simp
  then show "length (takeWhile token_char (''Bearer '' @ redacted)) \<le> length (takeWhile token_char s)" using literal_run[OF t(1)] by simp
next
  show "\<not> has_token (''Bearer '' @ redacted)" by code_simp
qed (simp_all add: redacted_facts token_char_def)

interpretation sessions: redactor session_re "''sessionid='' @ redacted"
proof unfold_locales
  fix s rest assume m: "session_re s = Some rest"
  then show "\<exists>u. u \<noteq> [] \<and> s = u @ rest" unfolding session_re_def by (rule literal_run_ends) simp_all
  obtain t where t: "literal lower_char ''sessionid='' s = Some t" using m by (auto simp: session_re_def bind_eq_Some_conv)
  have "length (takeWhile token_char (''sessionid='' @ redacted)) = length (takeWhile token_char ''sessionid='')" by code_simp
  then show "length (takeWhile token_char (''sessionid='' @ redacted)) \<le> length (takeWhile token_char s)" using literal_run[OF t] by simp
next
  show "\<not> has_token (''sessionid='' @ redacted)" by code_simp
qed (simp_all add: redacted_facts token_char_def)

lemma redact_text_clean: "\<not> has_token (redact_text s)"
proof -
  have "\<not> has_token (re_sub token_re redacted s)" by (rule tokens.sub_cleans) (use token_re_iff in blast)
  then show ?thesis unfolding redact_text_def Let_def
    by (intro sessions.sub_keeps_clean bearers.sub_keeps_clean joins.sub_keeps_clean)
qed

section \<open>The result file\<close>

fun json_texts :: "json \<Rightarrow> string list" where
  "json_texts (JStr s) = [s]"
| "json_texts (JList xs) = concat (map json_texts xs)"
| "json_texts (JObj d) = concat (map (\<lambda>(k, v). json_texts v) d)"
| "json_texts _ = []"

text \<open>The values filed under a key that names a secret, at any depth.\<close>

fun secret_items :: "json \<Rightarrow> json list" where
  "secret_items (JList xs) = concat (map secret_items xs)"
| "secret_items (JObj d) = concat (map (\<lambda>(k, v). if is_secret_key k then [v] else secret_items v) d)"
| "secret_items _ = []"

lemma stripped_texts: "s \<in> set (json_texts (strip_secrets v)) \<Longrightarrow> \<not> has_token s"
proof (induction v rule: strip_secrets.induct)
  case (1 d)
  then obtain k x where x: "(k, x) \<in> set d" "s \<in> set (json_texts (if is_secret_key k then JStr redacted else strip_secrets x))" by auto
  have "\<not> has_token redacted" using tokens.repl_clean .
  then show ?case using x 1(1)[OF x(1) refl] by (auto split: if_splits)
next
  case (3 s)
  then show ?case using redact_text_clean by simp
qed auto

lemma stripped_items: "x \<in> set (secret_items (strip_secrets v)) \<Longrightarrow> x = JStr redacted"
  by (induction v rule: strip_secrets.induct) (auto split: if_splits)

lemma occurs_has_token:
  assumes "occurs_in (token_prefix @ t) s" "8 \<le> length t" "\<forall>c \<in> set t. token_char c"
  shows "has_token s"
proof -
  have at: "token_at u" if "take (length (token_prefix @ t)) u = token_prefix @ t" for u
  proof -
    have "u = token_prefix @ t @ drop (length (token_prefix @ t)) u" using that by (metis append.assoc append_take_drop_id)
    moreover have "8 \<le> length (takeWhile token_char (t @ drop (length (token_prefix @ t)) u))"
      using assms(2,3) run_append[of token_char t] by (metis le_trans takeWhile_eq_all_conv)
    ultimately show ?thesis unfolding token_at_run by blast
  qed
  show ?thesis using assms(1)
  proof (induction s)
    case (Cons c cs)
    then show ?case using at[of "c # cs"] by auto
  qed (simp add: token_prefix_def)
qed

text \<open>
  C36. No join token reaches the result file or a log of an error: whatever is written, and with whatever text around it,
  no string value of the stripped result contains a token that was issued, and every value filed under a
  key that names a secret is replaced. (Texts of dictionary keys are not looked at.)
\<close>

theorem result_file_holds_no_token:
  assumes issue: "issue_join_token mk urlsafe ev p d = Some (raw, q, d')"
    and urlsafe: "8 \<le> length urlsafe" "\<forall>c \<in> set urlsafe. token_char c"
  shows "(\<forall>s \<in> set (json_texts (strip_secrets v)). \<not> occurs_in raw s) \<and>
    (\<forall>x \<in> set (secret_items (strip_secrets v)). x = JStr redacted) \<and> \<not> occurs_in raw (redact_text s)"
proof -
  have "raw = token_prefix @ urlsafe" using issue by (auto simp: issue_join_token_def Let_def)
  then have "occurs_in raw s \<Longrightarrow> has_token s" for s using occurs_has_token urlsafe by blast
  then show ?thesis using stripped_texts stripped_items redact_text_clean by blast
qed

lemma result_file_holds_no_token_witness:
  "\<exists>raw q d'. issue_join_token id ''Zm9vYmFyMTIz'' lone_event lone_participant lone_db = Some (raw, q, d') \<and>
     \<not> occurs_in raw (redact_text (''GET /x?t='' @ raw @ '' failed''))"
proof -
  obtain raw q d' where issue: "issue_join_token id ''Zm9vYmFyMTIz'' lone_event lone_participant lone_db = Some (raw, q, d')"
    using lone_issue by blast
  have "8 \<le> length ''Zm9vYmFyMTIz''" "\<forall>c \<in> set ''Zm9vYmFyMTIz''. token_char c" by code_simp+
  from result_file_holds_no_token[OF issue this, where v = JNull and s = "''GET /x?t='' @ raw @ '' failed''"] issue show ?thesis by blast
qed

end
