(* ===== verification/Load_Test.thy ===== *)
theory Load_Test
  imports Redaction Fixtures Report Protocol_Schema
begin

text \<open>
  The load test of the message layer (\<open>tools/message_layer_load_test\<close>): its statistics, one synthetic client, the
  run over all clients and the result. Sockets, HTTP and the clocks are arguments: a method that waits takes
  what arrives while it waits, a call that may fail takes its outcome.
\<close>

section \<open>Statistics\<close>

text \<open>Rounding to \<open>n\<close> decimals, half to even, and the nearest float.\<close>

definition py_round :: "nat \<Rightarrow> rat \<Rightarrow> rat" where
  "py_round n x = fl64 (of_int (round_even (x * 10 ^ n)) / 10 ^ n)"

definition percentile :: "rat list \<Rightarrow> rat \<Rightarrow> rat option" where
  "percentile values p =
     (if values = [] then None
      else if p \<le> 0 then Some (Min (set values))
      else if 100 \<le> p then Some (Max (set values))
      else
        (let ordered = sort values;
             rank = fl64 (fl64 (p / 100) * of_nat (length ordered - 1));
             lo = nat \<lfloor>rank\<rfloor>; hi = nat \<lceil>rank\<rceil>
         in if lo = hi then Some (ordered ! lo)
            else (let weight = fl64 (rank - of_nat lo)
                  in Some (fl64 (ordered ! lo + fl64 (fl64 (ordered ! hi - ordered ! lo) * weight))))))"

record latency_summary =
  ls_sample_count :: nat
  ls_min :: "rat option"
  ls_max :: "rat option"
  ls_mean :: "rat option"
  ls_p50 :: "rat option"
  ls_p95 :: "rat option"
  ls_p99 :: "rat option"

definition summarize_latency_ms :: "rat list \<Rightarrow> latency_summary" where
  "summarize_latency_ms samples =
     (if samples = [] then \<lparr>ls_sample_count = 0, ls_min = None, ls_max = None, ls_mean = None, ls_p50 = None, ls_p95 = None, ls_p99 = None\<rparr>
      else
        (let rounded = (\<lambda>p. Some (py_round 3 (case percentile samples p of None \<Rightarrow> 0 | Some x \<Rightarrow> x)))
         in \<lparr>ls_sample_count = length samples, ls_min = Some (py_round 3 (Min (set samples))), ls_max = Some (py_round 3 (Max (set samples))),
             ls_mean = Some (py_round 3 (fl64 (py_sum samples / of_nat (length samples)))),
             ls_p50 = rounded 50, ls_p95 = rounded 95, ls_p99 = rounded 99\<rparr>))"

text \<open>A \<open>Counter\<close>: counts by message type.\<close>

type_synonym counter = "(string \<times> nat) list"

definition counted :: "counter \<Rightarrow> string \<Rightarrow> nat" where
  "counted c k = (case map_of c k of None \<Rightarrow> 0 | Some n \<Rightarrow> n)"

definition add_count :: "string \<Rightarrow> nat \<Rightarrow> counter \<Rightarrow> counter" where
  "add_count k n c = AList.update k (counted c k + n) c"

definition add_counters :: "counter \<Rightarrow> counter \<Rightarrow> counter" where
  "add_counters left right = fold (\<lambda>(k, n). add_count k n) right left"

definition total_count :: "counter \<Rightarrow> nat" where
  "total_count c = sum_list (map snd c)"

record loss =
  lo_expected :: int
  lo_received :: int
  lo_received_total :: int
  lo_lost :: int
  lo_loss_rate :: rat

definition loss_stats :: "int \<Rightarrow> int \<Rightarrow> loss" where
  "loss_stats expected received =
     (let expected_n = max 0 expected; received_n = max 0 received; lost = max 0 (expected_n - received_n);
          rate = (if expected_n = 0 then 0 else fl64 (of_int lost / of_int expected_n))
      in \<lparr>lo_expected = expected_n, lo_received = min received_n expected_n, lo_received_total = received_n,
          lo_lost = lost, lo_loss_rate = py_round 6 rate\<rparr>)"

definition merge_by_type :: "counter \<Rightarrow> counter \<Rightarrow> (string \<times> loss) list" where
  "merge_by_type expected_by_type received_by_type =
     map (\<lambda>key. (key, loss_stats (int (counted expected_by_type key)) (int (counted received_by_type key))))
       (sorted_list_of_set (set (map fst expected_by_type) \<union> set (map fst received_by_type)))"

text \<open>Messages whose type occurs in what was expected and in what was received.\<close>

definition matched_count :: "counter \<Rightarrow> counter \<Rightarrow> nat" where
  "matched_count expected received = sum_list (map (\<lambda>(key, n). min (counted received key) n) expected)"

section \<open>One client\<close>

record synthetic_client =
  sy_index :: nat
  sy_participant_id :: string
  sy_join_token :: string
  sy_session_cookie :: "string option"
  sy_has_socket :: bool
  sy_closed :: bool
  sy_authenticated :: bool
  sy_connected :: bool
  sy_handshake_ok :: bool
  sy_error :: "string option"
  sy_recv_error :: "string option"
  sy_stage :: string
  sy_sent_by_type :: counter
  sy_received_by_type :: counter
  sy_expected_by_type :: counter
  sy_latency_ms :: "rat list"
  sy_pending_sync :: "(int \<times> rat list) list"

definition new_client :: "nat \<Rightarrow> string \<Rightarrow> string \<Rightarrow> synthetic_client" where
  "new_client index join_token participant_id =
     \<lparr>sy_index = index, sy_participant_id = participant_id, sy_join_token = join_token, sy_session_cookie = None,
      sy_has_socket = False, sy_closed = False, sy_authenticated = False, sy_connected = False, sy_handshake_ok = False,
      sy_error = None, sy_recv_error = None, sy_stage = ''created'', sy_sent_by_type = [], sy_received_by_type = [],
      sy_expected_by_type = [], sy_latency_ms = [], sy_pending_sync = []\<rparr>"

definition discard_secrets :: "synthetic_client \<Rightarrow> synthetic_client" where
  "discard_secrets c = c\<lparr>sy_join_token := [], sy_session_cookie := None\<rparr>"

text \<open>\<open>safe_error\<close> of an exception's class and text.\<close>

definition safe_error :: "string \<Rightarrow> string" where
  "safe_error s = take 500 (redact_text s)"

text \<open>The outcome of the join request: the cookie and the participant id, or the exception.\<close>

definition authenticate_client :: "string + string \<times> string \<Rightarrow> synthetic_client \<Rightarrow> (string + unit) \<times> synthetic_client" where
  "authenticate_client joined c =
     (let c = c\<lparr>sy_stage := ''authenticate''\<rparr> in
      case joined of
        Inl e \<Rightarrow> (Inl e, c)
      | Inr (cookie, pid) \<Rightarrow>
          (Inr (), c\<lparr>sy_session_cookie := Some cookie, sy_participant_id := (if pid = [] then sy_participant_id c else pid),
             sy_authenticated := True, sy_join_token := []\<rparr>))"

definition connect_client :: "string + unit \<Rightarrow> synthetic_client \<Rightarrow> (string + unit) \<times> synthetic_client" where
  "connect_client opened c =
     (let c = c\<lparr>sy_stage := ''connect''\<rparr> in
      if sy_session_cookie c = None \<or> sy_session_cookie c = Some []
      then (Inl ''SocketConnectError: Session cookie missing; authenticate first.'', c)
      else case opened of
        Inl e \<Rightarrow> (Inl e, c)
      | Inr _ \<Rightarrow> (Inr (), c\<lparr>sy_has_socket := True, sy_connected := True\<rparr>))"

definition send_message :: "string + unit \<Rightarrow> (json \<Rightarrow> string) \<Rightarrow> pydict \<Rightarrow> synthetic_client \<Rightarrow> (string + unit) \<times> synthetic_client" where
  "send_message written repr_of message c =
     (if \<not> sy_has_socket c then (Inl ''RuntimeError: Socket is not connected.'', c)
      else case written of
        Inl e \<Rightarrow> (Inl e, c)
      | Inr _ \<Rightarrow> (Inr (), c\<lparr>sy_sent_by_type :=
            add_count (py_str repr_of (py_or (get_or message ''type'' JNull) (JStr ''unknown''))) 1 (sy_sent_by_type c)\<rparr>))"

text \<open>The messages of \<open>protocol.py\<close>; a \<open>ProtocolError\<close> becomes its text.\<close>

definition built :: "protocol_error + json \<Rightarrow> string + pydict" where
  "built m = (case m of Inl e \<Rightarrow> Inl (''ProtocolError: '' @ pe_message e) | Inr (JObj d) \<Rightarrow> Inr d | Inr _ \<Rightarrow> Inr [])"

definition client_hello :: "int \<Rightarrow> string + pydict" where
  "client_hello client_ts = built (build_message (type_value ClientHello) [(''client_ts'', JInt client_ts)])"

definition client_clock_sync :: "int \<Rightarrow> string + pydict" where
  "client_clock_sync client_ts = built (build_message (type_value ClientClockSync) [(''client_ts'', JInt client_ts)])"

definition client_ping :: "int \<Rightarrow> string + pydict" where
  "client_ping client_ts = built (build_message (type_value ClientPing) [(''client_ts'', JInt client_ts)])"

definition client_ready :: "int \<Rightarrow> string + pydict" where
  "client_ready round_number = built (build_message (type_value ClientReady) [(''round_number'', JInt round_number)])"

definition send_checked :: "string + unit \<Rightarrow> (json \<Rightarrow> string) \<Rightarrow> string + pydict \<Rightarrow> synthetic_client \<Rightarrow> (string + unit) \<times> synthetic_client" where
  "send_checked written repr_of m c = (case m of Inl e \<Rightarrow> (Inl e, c) | Inr d \<Rightarrow> send_message written repr_of d c)"

definition send_ready :: "string + unit \<Rightarrow> (json \<Rightarrow> string) \<Rightarrow> int \<Rightarrow> synthetic_client \<Rightarrow> (string + unit) \<times> synthetic_client" where
  "send_ready written repr_of round_number c = send_checked written repr_of (client_ready round_number) c"

text \<open>
  What the receiving loop sees: a value with the reading of \<open>perf_counter\<close>, or an exception, which ends the
  loop. So does an exception of the handler, which has the counter already moved.
\<close>

datatype arrival = Arrived json rat | ReceiveFailed string

definition as_dict :: "json \<Rightarrow> string + pydict" where
  "as_dict v = (case v of JObj d \<Rightarrow> Inr d
     | _ \<Rightarrow> Inl (''AttributeError: '' @ quoted (type_name v) @ '' object has no attribute '' @ quoted ''get''))"

text \<open>\<open>message.get("payload") or {}\<close>, as an object with a method \<open>get\<close>.\<close>

definition payload_of :: "pydict \<Rightarrow> string + pydict" where
  "payload_of message = as_dict (py_or (get_or message ''payload'' JNull) (JObj []))"

definition record_clock_sync :: "pydict \<Rightarrow> rat \<Rightarrow> synthetic_client \<Rightarrow> string option \<times> synthetic_client" where
  "record_clock_sync payload now c =
     (case json_int (get_or payload ''client_ts_echo'' JNull) of
        Inl CallOverflowError \<Rightarrow> (Some ''OverflowError: cannot convert float infinity to integer'', c)
      | Inl _ \<Rightarrow> (None, c)
      | Inr echo \<Rightarrow>
          (case map_of (sy_pending_sync c) echo of
             None \<Rightarrow> (None, c)
           | Some [] \<Rightarrow> (None, c)
           | Some (started # rest) \<Rightarrow>
               (None, c\<lparr>sy_pending_sync := (if rest = [] then AList.delete echo (sy_pending_sync c) else AList.update echo rest (sy_pending_sync c)),
                  sy_latency_ms := sy_latency_ms c @ [fl64 (fl64 (now - started) * 1000)]\<rparr>)))"

definition handle_arrived :: "(json \<Rightarrow> string) \<Rightarrow> pydict \<Rightarrow> rat \<Rightarrow> synthetic_client \<Rightarrow> string option \<times> synthetic_client" where
  "handle_arrived repr_of message now c =
     (let msg_type = py_str repr_of (py_or (get_or message ''type'' JNull) (JStr ''unknown''));
          c = c\<lparr>sy_received_by_type := add_count msg_type 1 (sy_received_by_type c)\<rparr>;
          with_payload = (\<lambda>f. case payload_of message of Inl e \<Rightarrow> (Some e, c) | Inr payload \<Rightarrow> f payload)
      in if msg_type = type_value ServerHello then
           with_payload (\<lambda>payload. let pid = get_or payload ''participant_id'' JNull in
             (None, if truthy pid then c\<lparr>sy_participant_id := py_str repr_of pid\<rparr> else c))
         else if msg_type = type_value ServerClockSync then with_payload (\<lambda>payload. record_clock_sync payload now c)
         else if msg_type = type_value ServerError \<and> \<not> sy_handshake_ok c then
           with_payload (\<lambda>payload.
             (None, c\<lparr>sy_error := Some (redact_text (py_str repr_of (py_or (get_or payload ''code'' JNull) (JStr ''server.error''))))\<rparr>))
         else (None, c))"

definition receive_failed :: "string \<Rightarrow> synthetic_client \<Rightarrow> synthetic_client" where
  "receive_failed e c = c\<lparr>sy_recv_error := Some (safe_error e),
     sy_error := (if sy_error c = None \<or> sy_error c = Some [] then Some (safe_error e) else sy_error c)\<rparr>"

definition receiving :: "synthetic_client \<Rightarrow> bool" where
  "receiving c \<longleftrightarrow> sy_has_socket c \<and> \<not> sy_closed c \<and> sy_recv_error c = None"

fun arrive :: "(json \<Rightarrow> string) \<Rightarrow> arrival \<Rightarrow> synthetic_client \<Rightarrow> synthetic_client" where
  "arrive repr_of (Arrived v now) c =
     (if \<not> receiving c then c
      else case as_dict v of
        Inl e \<Rightarrow> receive_failed e c
      | Inr message \<Rightarrow>
          (case handle_arrived repr_of message now c of (None, c') \<Rightarrow> c' | (Some e, c') \<Rightarrow> receive_failed e c'))"
| "arrive repr_of (ReceiveFailed e) c = (if receiving c then receive_failed e c else c)"

text \<open>\<open>wait_for\<close> returns true exactly when the count is reached before the deadline, the close or the end of the loop.\<close>

definition wait_for :: "(json \<Rightarrow> string) \<Rightarrow> string \<Rightarrow> nat \<Rightarrow> arrival list \<Rightarrow> synthetic_client \<Rightarrow> bool \<times> synthetic_client" where
  "wait_for repr_of msg_type n arrivals c =
     (let c = fold (arrive repr_of) arrivals c in (n \<le> counted (sy_received_by_type c) msg_type, c))"

definition handshake_client :: "(json \<Rightarrow> string) \<Rightarrow> int \<Rightarrow> string + unit \<Rightarrow> arrival list \<Rightarrow> synthetic_client \<Rightarrow> (string + unit) \<times> synthetic_client" where
  "handshake_client repr_of now_ts_ms written arrivals c =
     (let c = c\<lparr>sy_stage := ''handshake'', sy_expected_by_type := add_count (type_value ServerHello) 1 (sy_expected_by_type c)\<rparr>;
          (r, c) = send_checked written repr_of (client_hello now_ts_ms) c
      in case r of
           Inl e \<Rightarrow> (Inl e, c)
         | Inr _ \<Rightarrow>
             (let (ok, c) = wait_for repr_of (type_value ServerHello) 1 arrivals c
              in if ok then (Inr (), c\<lparr>sy_handshake_ok := True\<rparr>)
                 else (Inl ''RuntimeError: Timed out waiting for server.hello.'', c)))"

text \<open>One sample: its client time, the start on the performance counter and whether the send succeeds.\<close>

fun send_samples :: "(json \<Rightarrow> string) \<Rightarrow> (int \<times> rat \<times> (string + unit)) list \<Rightarrow> synthetic_client \<Rightarrow> (string + unit) \<times> synthetic_client" where
  "send_samples repr_of [] c = (Inr (), c)"
| "send_samples repr_of ((client_ts, started, written) # rest) c =
     (let queue = (case map_of (sy_pending_sync c) client_ts of None \<Rightarrow> [] | Some q \<Rightarrow> q);
          c = c\<lparr>sy_pending_sync := AList.update client_ts (queue @ [started]) (sy_pending_sync c)\<rparr>;
          (r, c) = send_checked written repr_of (client_clock_sync client_ts) c
      in case r of Inl e \<Rightarrow> (Inl e, c) | Inr _ \<Rightarrow> send_samples repr_of rest c)"

text \<open>What arrives during the sends is taken with what arrives after them. A sample per entry of \<open>samples\<close>.\<close>

definition clock_sync_client :: "(json \<Rightarrow> string) \<Rightarrow> (int \<times> rat \<times> (string + unit)) list \<Rightarrow> arrival list \<Rightarrow> synthetic_client
    \<Rightarrow> (string + unit) \<times> synthetic_client" where
  "clock_sync_client repr_of samples arrivals c =
     (let c = c\<lparr>sy_stage := ''clock_sync'',
            sy_expected_by_type := add_count (type_value ServerClockSync) (length samples) (sy_expected_by_type c)\<rparr>;
          (r, c) = send_samples repr_of samples c
      in case r of
           Inl e \<Rightarrow> (Inl e, c)
         | Inr _ \<Rightarrow> (Inr (), snd (wait_for repr_of (type_value ServerClockSync) (length samples) arrivals c)))"

definition expect_lifecycle :: "synthetic_client \<Rightarrow> synthetic_client" where
  "expect_lifecycle c = c\<lparr>sy_expected_by_type :=
     add_count (type_value ServerRoundEnd) 1 (add_count (type_value ServerRoundStart) 1
       (add_count (type_value ServerPairing) 2 (sy_expected_by_type c)))\<rparr>"

definition close_client :: "synthetic_client \<Rightarrow> synthetic_client" where
  "close_client c = (discard_secrets c)\<lparr>sy_closed := True, sy_has_socket := False\<rparr>"

record client_snapshot =
  cs_index :: nat
  cs_participant_id :: string
  cs_authenticated :: bool
  cs_connected :: bool
  cs_handshake_ok :: bool
  cs_stage :: string
  cs_error :: "string option"
  cs_sent :: nat
  cs_expected :: nat
  cs_received :: nat
  cs_matched_expected :: nat
  cs_lost :: nat
  cs_latency_sample_count :: nat

definition client_snapshot_of :: "synthetic_client \<Rightarrow> client_snapshot" where
  "client_snapshot_of c =
     (let expected = total_count (sy_expected_by_type c); matched = matched_count (sy_expected_by_type c) (sy_received_by_type c)
      in \<lparr>cs_index = sy_index c, cs_participant_id = sy_participant_id c, cs_authenticated = sy_authenticated c,
          cs_connected = sy_connected c, cs_handshake_ok = sy_handshake_ok c, cs_stage = sy_stage c, cs_error = sy_error c,
          cs_sent = total_count (sy_sent_by_type c), cs_expected = expected, cs_received = total_count (sy_received_by_type c),
          cs_matched_expected = matched, cs_lost = expected - matched, cs_latency_sample_count = length (sy_latency_ms c)\<rparr>)"

end
