(* ===== verification/Load_Run.thy ===== *)
theory Load_Run
  imports Load_Test
begin

text \<open>
  A whole run of the load test: joining over HTTP (\<open>http_auth.py\<close>), the options (\<open>cli.py\<close>) and
  \<open>LoadTestRunner\<close> (\<open>runner.py\<close>). The clients share only the fixture and the broadcasts, so each is run on its
  own through the phases; what its network does in a phase is an argument. The orchestrator's replies, the
  clocks and what the server does to the database meanwhile are arguments too.
\<close>

section \<open>Joining\<close>

definition strip_slashes :: "string \<Rightarrow> string" where
  "strip_slashes s = rev (dropWhile (\<lambda>c. c = CHR ''/'') (rev s))"

definition join_url :: "string \<Rightarrow> string \<Rightarrow> string" where
  "join_url http_base raw_token = strip_slashes http_base @ ''/join/'' @ raw_token @ ''/''"

datatype http_outcome = HttpStatusError int | HttpUnreachable string | HttpReply int string

definition session_cookie_from_jar :: "(string \<times> string) list \<Rightarrow> string \<Rightarrow> string option" where
  "session_cookie_from_jar jar cookie_name = map_of jar cookie_name"

text \<open>
  \<open>http\<close> is the request with the cookies it leaves, \<open>parse\<close> reads JSON. The result is the cookie with the
  three texts about the participant.
\<close>

definition join_over_http :: "(json \<Rightarrow> string) \<Rightarrow> (string \<Rightarrow> json option) \<Rightarrow> (string \<Rightarrow> http_outcome \<times> (string \<times> string) list)
    \<Rightarrow> string \<Rightarrow> string \<Rightarrow> string \<Rightarrow> string + string \<times> string \<times> string \<times> string" where
  "join_over_http repr_of parse http http_base cookie_name raw_token =
     (if raw_token = [] then Inl ''JoinAuthError: Join token is missing.''
      else
        (let (outcome, jar) = http (join_url http_base raw_token) in
         case outcome of
           HttpStatusError code \<Rightarrow> Inl (''JoinAuthError: Join failed with HTTP '' @ show_int code @ ''.'')
         | HttpUnreachable reason \<Rightarrow> Inl (''JoinAuthError: Join request failed: '' @ reason @ ''.'')
         | HttpReply status body \<Rightarrow>
             if 400 \<le> status then Inl (''JoinAuthError: Join failed with HTTP '' @ show_int status @ ''.'')
             else bindE (as_dict (if body = [] then JObj [] else case parse body of None \<Rightarrow> JObj [] | Some v \<Rightarrow> v)) (\<lambda>payload.
               if get_or payload ''authenticated'' JNull \<noteq> JBool True then Inl ''JoinAuthError: Join response was not authenticated.''
               else case session_cookie_from_jar jar cookie_name of
                 None \<Rightarrow> Inl ''JoinAuthError: Join succeeded but no session cookie was issued.''
               | Some cookie \<Rightarrow>
                   if cookie = [] then Inl ''JoinAuthError: Join succeeded but no session cookie was issued.''
                   else bindE (as_dict (py_or (get_or payload ''participant'' JNull) (JObj []))) (\<lambda>participant.
                     let text_field = (\<lambda>k. py_str repr_of (py_or (get_or participant k JNull) (JStr [])))
                     in Inr (cookie, text_field ''id'', text_field ''event_id'', text_field ''display_name'')))))"

section \<open>Options\<close>

definition default_http_base :: "(string \<Rightarrow> string option) \<Rightarrow> string" where
  "default_http_base environ =
     (case environ ''MESSAGE_LAYER_LOAD_TEST_HTTP_BASE'' of None \<Rightarrow> ''http://127.0.0.1:8000'' | Some s \<Rightarrow> s)"

text \<open>\<open>x or y\<close> for an optional text, \<open>x or y\<close> for a number.\<close>

definition str_or :: "string option \<Rightarrow> string \<Rightarrow> string" where
  "str_or x y = (case x of None \<Rightarrow> y | Some s \<Rightarrow> if s = [] then y else s)"

definition num_or :: "'a :: zero \<Rightarrow> 'a \<Rightarrow> 'a" where
  "num_or x y = (if x = 0 then y else x)"

definition default_ws_url :: "(string \<Rightarrow> string option) \<Rightarrow> string option \<Rightarrow> string" where
  "default_ws_url environ http_base =
     (let base = strip_slashes (str_or http_base (default_http_base environ))
      in str_or (environ ''MESSAGE_LAYER_LOAD_TEST_WS_URL'')
           (if take 8 base = ''https://'' then ''wss://'' @ drop 8 base @ ''/ws/events/''
            else if take 7 base = ''http://'' then ''ws://'' @ drop 7 base @ ''/ws/events/''
            else base @ ''/ws/events/''))"

record load_options =
  lo_clients :: int
  lo_http_base :: "string option"
  lo_ws_url :: "string option"
  lo_output :: string
  lo_connect_concurrency :: int
  lo_clock_sync_samples :: int
  lo_handshake_timeout :: rat
  lo_lifecycle_timeout :: rat
  lo_settle_seconds :: rat
  lo_cleanup :: bool
  lo_event_name :: "string option"
  lo_cookie_name :: string

definition default_load_options :: load_options where
  "default_load_options = \<lparr>lo_clients = default_client_count, lo_http_base = None, lo_ws_url = None,
     lo_output = ''message-layer-load-test-result.json'', lo_connect_concurrency = 10, lo_clock_sync_samples = 5,
     lo_handshake_timeout = 10, lo_lifecycle_timeout = 15, lo_settle_seconds = fl64 (4 / 10), lo_cleanup = False,
     lo_event_name = None, lo_cookie_name = ''sessionid''\<rparr>"

definition options_from_namespace :: "(string \<Rightarrow> string option) \<Rightarrow> load_options \<Rightarrow> load_options" where
  "options_from_namespace environ ns =
     (let http_base = str_or (lo_http_base ns) (default_http_base environ)
      in ns\<lparr>lo_http_base := Some http_base,
           lo_ws_url := Some (str_or (lo_ws_url ns) (default_ws_url environ (Some http_base))),
           lo_output := str_or (Some (lo_output ns)) ''message-layer-load-test-result.json'',
           lo_connect_concurrency := num_or (lo_connect_concurrency ns) 10,
           lo_handshake_timeout := num_or (lo_handshake_timeout ns) 10,
           lo_lifecycle_timeout := num_or (lo_lifecycle_timeout ns) 15,
           lo_cookie_name := str_or (Some (lo_cookie_name ns)) ''sessionid''\<rparr>)"

record load_runner =
  lr_client_count :: int
  lr_http_base :: string
  lr_ws_url :: string
  lr_output :: string
  lr_connect_concurrency :: int
  lr_clock_sync_samples :: int
  lr_handshake_timeout :: rat
  lr_lifecycle_timeout :: rat
  lr_settle_seconds :: rat
  lr_cleanup :: bool
  lr_event_name :: "string option"
  lr_cookie_name :: string

definition make_runner :: "(string \<Rightarrow> string option) \<Rightarrow> load_options \<Rightarrow> provision_error + load_runner" where
  "make_runner environ opt = bindE (validate_client_count (lo_clients opt)) (\<lambda>count.
     let http_base = strip_slashes (str_or (lo_http_base opt) (default_http_base environ))
     in Inr \<lparr>lr_client_count = count, lr_http_base = http_base,
          lr_ws_url = str_or (lo_ws_url opt) (default_ws_url environ (Some http_base)), lr_output = lo_output opt,
          lr_connect_concurrency = max 1 (lo_connect_concurrency opt), lr_clock_sync_samples = max 0 (lo_clock_sync_samples opt),
          lr_handshake_timeout = lo_handshake_timeout opt, lr_lifecycle_timeout = lo_lifecycle_timeout opt,
          lr_settle_seconds = max 0 (lo_settle_seconds opt), lr_cleanup = lo_cleanup opt,
          lr_event_name = lo_event_name opt, lr_cookie_name = lo_cookie_name opt\<rparr>)"

section \<open>The phases of a client\<close>

text \<open>What the network does for one client; the list of samples holds one entry per sample asked for.\<close>

record client_net =
  cn_joined :: "string \<Rightarrow> string + string \<times> string"
  cn_opened :: "string + unit"
  cn_hello_ts :: int
  cn_hello_sent :: "string + unit"
  cn_hello :: "arrival list"
  cn_samples :: "nat \<Rightarrow> int \<times> rat \<times> (string + unit)"
  cn_clock_sync :: "arrival list"
  cn_pairing :: "nat \<Rightarrow> arrival list"
  cn_ready_sent :: "nat \<Rightarrow> string + unit"
  cn_round_start :: "arrival list"
  cn_round_end :: "arrival list"
  cn_rest :: "arrival list"

definition isolate :: "string \<Rightarrow> (string + unit) \<times> synthetic_client \<Rightarrow> synthetic_client" where
  "isolate stage r = (case r of (Inl e, c) \<Rightarrow> c\<lparr>sy_error := Some (stage @ '': '' @ safe_error e)\<rparr> | (Inr _, c) \<Rightarrow> c)"

definition andThen :: "(string + unit) \<times> synthetic_client \<Rightarrow> (synthetic_client \<Rightarrow> (string + unit) \<times> synthetic_client)
    \<Rightarrow> (string + unit) \<times> synthetic_client" where
  "andThen r f = (case r of (Inl e, c) \<Rightarrow> (Inl e, c) | (Inr _, c) \<Rightarrow> f c)"

definition start_client :: "(json \<Rightarrow> string) \<Rightarrow> client_net \<Rightarrow> synthetic_client \<Rightarrow> synthetic_client" where
  "start_client repr_of net c = isolate ''startup''
     (andThen (andThen (authenticate_client (cn_joined net (sy_join_token c)) c) (connect_client (cn_opened net)))
        (handshake_client repr_of (cn_hello_ts net) (cn_hello_sent net) (cn_hello net)))"

definition sync_one :: "(json \<Rightarrow> string) \<Rightarrow> nat \<Rightarrow> client_net \<Rightarrow> synthetic_client \<Rightarrow> synthetic_client" where
  "sync_one repr_of samples net c =
     (if \<not> sy_handshake_ok c then fold (arrive repr_of) (cn_clock_sync net) c
      else isolate ''clock_sync'' (clock_sync_client repr_of (map (cn_samples net) [0..<samples]) (cn_clock_sync net) c))"

text \<open>A client whose handshake failed still receives, but sends nothing and expects nothing.\<close>

definition transition_client :: "(json \<Rightarrow> string) \<Rightarrow> client_net \<Rightarrow> synthetic_client \<Rightarrow> synthetic_client" where
  "transition_client repr_of net c =
     (let is_ready = sy_handshake_ok c;
          c = (if is_ready then expect_lifecycle c else c);
          wait_type = (\<lambda>arrivals c. fold (arrive repr_of) arrivals c);
          ready = (\<lambda>n c. if is_ready then isolate ''ready'' (send_ready (cn_ready_sent net n) repr_of (int n) c) else c);
          c = ready 1 (wait_type (cn_pairing net 1) c);
          c = wait_type (cn_round_start net) c;
          c = wait_type (cn_round_end net) c;
          c = ready 2 (wait_type (cn_pairing net 2) c)
      in wait_type (cn_rest net) c)"

definition run_client :: "(json \<Rightarrow> string) \<Rightarrow> nat \<Rightarrow> client_net \<Rightarrow> synthetic_client \<Rightarrow> synthetic_client" where
  "run_client repr_of samples net c = transition_client repr_of net (sync_one repr_of samples net (start_client repr_of net c))"

definition make_clients :: "provisioned \<Rightarrow> synthetic_client list" where
  "make_clients fixture =
     map (\<lambda>identity. new_client (si_index identity) (token_for fixture (si_index identity)) (si_participant_id identity))
       (pv_clients fixture)"

section \<open>The broadcasts\<close>

datatype load_broadcast = LB_Pairing nat | LB_RoundStart nat | LB_RoundEnd nat

definition broadcast_sequence :: "load_broadcast list" where
  "broadcast_sequence = [LB_Pairing 1, LB_RoundStart 1, LB_RoundEnd 1, LB_Pairing 2]"

fun broadcast_entry :: "load_broadcast \<Rightarrow> pydict" where
  "broadcast_entry (LB_Pairing n) = [(''action'', JStr ''pairing''), (''round'', JInt (int n))]"
| "broadcast_entry (LB_RoundStart n) = [(''action'', JStr ''round_start''), (''round'', JInt (int n))]"
| "broadcast_entry (LB_RoundEnd n) = [(''action'', JStr ''round_end''), (''round'', JInt (int n))]"

text \<open>\<open>reply\<close> is what the orchestrator returns or raises; its entries come after the two of the tool and win over them.\<close>

fun run_broadcasts :: "(load_broadcast \<Rightarrow> string + pydict) \<Rightarrow> load_broadcast list \<Rightarrow> string + json list" where
  "run_broadcasts reply [] = Inr []"
| "run_broadcasts reply (b # bs) =
     bindE (reply b) (\<lambda>d. bindE (run_broadcasts reply bs) (\<lambda>rest.
       Inr (strip_secrets (JObj (fold (\<lambda>(k, v). AList.update k v) d (broadcast_entry b))) # rest)))"

section \<open>The report\<close>

definition opt_json :: "('a \<Rightarrow> json) \<Rightarrow> 'a option \<Rightarrow> json" where
  "opt_json f x = (case x of None \<Rightarrow> JNull | Some y \<Rightarrow> f y)"

definition jfloat :: "rat \<Rightarrow> json" where
  "jfloat x = JFloat (Fin x)"

definition jnat :: "nat \<Rightarrow> json" where
  "jnat n = JInt (int n)"

definition counter_json :: "counter \<Rightarrow> json" where
  "counter_json c = JObj (map (\<lambda>(k, n). (k, jnat n)) c)"

definition loss_json :: "loss \<Rightarrow> json" where
  "loss_json l = JObj [(''expected'', JInt (lo_expected l)), (''received'', JInt (lo_received l)),
     (''received_total'', JInt (lo_received_total l)), (''lost'', JInt (lo_lost l)), (''loss_rate'', jfloat (lo_loss_rate l))]"

definition latency_json :: "latency_summary \<Rightarrow> json" where
  "latency_json s = JObj [(''sample_count'', jnat (ls_sample_count s)), (''min'', opt_json jfloat (ls_min s)),
     (''max'', opt_json jfloat (ls_max s)), (''mean'', opt_json jfloat (ls_mean s)), (''p50'', opt_json jfloat (ls_p50 s)),
     (''p95'', opt_json jfloat (ls_p95 s)), (''p99'', opt_json jfloat (ls_p99 s))]"

definition snapshot_json :: "client_snapshot \<Rightarrow> json" where
  "snapshot_json s = JObj [(''index'', jnat (cs_index s)), (''participant_id'', JStr (cs_participant_id s)),
     (''authenticated'', JBool (cs_authenticated s)), (''connected'', JBool (cs_connected s)),
     (''handshake_ok'', JBool (cs_handshake_ok s)), (''stage'', JStr (cs_stage s)), (''error'', opt_json JStr (cs_error s)),
     (''sent'', jnat (cs_sent s)), (''expected'', jnat (cs_expected s)), (''received'', jnat (cs_received s)),
     (''matched_expected'', jnat (cs_matched_expected s)), (''lost'', jnat (cs_lost s)),
     (''latency_sample_count'', jnat (cs_latency_sample_count s))]"

definition client_failed :: "synthetic_client \<Rightarrow> bool" where
  "client_failed c \<longleftrightarrow> (sy_error c \<noteq> None \<and> sy_error c \<noteq> Some []) \<or> \<not> sy_handshake_ok c"

definition clients_json :: "synthetic_client list \<Rightarrow> json" where
  "clients_json clients =
     (let tally = (\<lambda>P. jnat (length (filter P clients)))
      in JObj [(''attempted'', jnat (length clients)), (''authenticated'', tally sy_authenticated),
           (''connected'', tally sy_connected), (''handshake_ok'', tally sy_handshake_ok), (''failed'', tally client_failed),
           (''failures'', JList (map (\<lambda>c. JObj [(''index'', jnat (sy_index c)), (''participant_id'', JStr (sy_participant_id c)),
              (''stage'', JStr (sy_stage c)), (''error'', opt_json JStr (sy_error c))]) (filter client_failed clients)))])"

definition sum_counters :: "counter list \<Rightarrow> counter" where
  "sum_counters cs = fold (\<lambda>c total. add_counters total c) cs []"

definition messages_json :: "synthetic_client list \<Rightarrow> json" where
  "messages_json clients =
     (let sent = sum_counters (map sy_sent_by_type clients);
          expected = sum_counters (map sy_expected_by_type clients);
          received = sum_counters (map sy_received_by_type clients);
          expected_total = total_count expected;
          matched = matched_count expected received;
          l = loss_stats (int expected_total) (int matched)
      in JObj [(''sent'', jnat (total_count sent)), (''expected'', jnat expected_total), (''received'', jnat (total_count received)),
           (''matched_expected'', jnat matched), (''lost'', JInt (lo_lost l)), (''loss_count'', JInt (lo_lost l)),
           (''loss_rate'', jfloat (lo_loss_rate l)),
           (''by_type'', JObj (map (\<lambda>(k, v). (k, loss_json v)) (merge_by_type expected received))),
           (''sent_by_type'', counter_json sent), (''received_by_type'', counter_json received)])"

definition config_json :: "load_runner \<Rightarrow> provisioned \<Rightarrow> json" where
  "config_json r fixture = JObj [(''clients'', JInt (lr_client_count r)), (''http_base'', JStr (lr_http_base r)),
     (''ws_url'', JStr (lr_ws_url r)), (''connect_concurrency'', JInt (lr_connect_concurrency r)),
     (''clock_sync_samples'', JInt (lr_clock_sync_samples r)), (''handshake_timeout_seconds'', jfloat (lr_handshake_timeout r)),
     (''lifecycle_timeout_seconds'', jfloat (lr_lifecycle_timeout r)), (''cleanup'', JBool (lr_cleanup r)),
     (''event_id'', JStr (pv_event_id fixture)), (''event_name'', JStr (pv_event_name fixture)),
     (''round_numbers'', JList (map jnat (pv_round_numbers fixture))),
     (''pair_counts'', JObj (map (\<lambda>(n, k). (show_nat n, jnat k)) (pv_pair_counts fixture)))]"

definition lifecycle_json :: "json list \<Rightarrow> json" where
  "lifecycle_json broadcasts = JObj [(''sequence'', JList [JStr ''server.pairing(round=1)'', JStr ''client.ready(round=1)'',
     JStr ''server.round_start(round=1)'', JStr ''server.round_end(round=1)'', JStr ''server.pairing(round=2)'',
     JStr ''client.ready(round=2)'']), (''broadcasts'', JList broadcasts)]"

text \<open>The result before its secrets are taken out; the instants and the duration are arguments.\<close>

definition build_load_report :: "load_runner \<Rightarrow> provisioned \<Rightarrow> synthetic_client list \<Rightarrow> json list \<Rightarrow> string \<Rightarrow> string \<Rightarrow> int \<Rightarrow> json" where
  "build_load_report r fixture clients broadcasts started_at finished_at duration_ms =
     JObj [(''task'', JStr ''T-44''), (''tool'', JStr ''message_layer_load_test''), (''started_at'', JStr started_at),
       (''finished_at'', JStr finished_at), (''duration_ms'', JInt duration_ms), (''config'', config_json r fixture),
       (''clients'', clients_json clients), (''latency_ms'', latency_json (summarize_latency_ms (concat (map sy_latency_ms clients)))),
       (''messages'', messages_json clients), (''lifecycle'', lifecycle_json broadcasts),
       (''client_snapshots'', JList (map (snapshot_json \<circ> client_snapshot_of) clients))]"

section \<open>A run\<close>

record load_env =
  le_environ :: "string \<Rightarrow> string option"
  le_repr :: "json \<Rightarrow> string"
  le_fixture :: fixture_env
  le_net :: "nat \<Rightarrow> client_net"
  le_broadcaster :: "string + unit"
  le_reply :: "load_broadcast \<Rightarrow> string + pydict"
  le_started_at :: string
  le_finished_at :: string
  le_duration_ms :: int
  le_live :: "db \<Rightarrow> db"
  le_store_text :: "pair_write_error \<Rightarrow> string"

definition provision_text :: "(pair_write_error \<Rightarrow> string) \<Rightarrow> provision_error \<Rightarrow> string" where
  "provision_text store_text e = (case e of
      OddClients \<Rightarrow> ''Client count must be even so every synthetic client is paired.''
    | TooFewClients \<Rightarrow> ''Client count must be at least '' @ show_int min_client_count @
        '' so round 2 can switch partners without repeating a T-20 pair.''
    | TooManyClients n \<Rightarrow> ''Client count '' @ show_int n @ '' exceeds the T-44 tool cap of '' @ show_int max_client_count @
        ''. 900-client execution is out of scope for this task.''
    | ProductionRefused \<Rightarrow> ''Refusing to run the message-layer load test against production. Use local or staging settings only.''
    | StoreRefused w \<Rightarrow> store_text w)"

definition clean_up :: "load_env \<Rightarrow> load_runner \<Rightarrow> db \<Rightarrow> db" where
  "clean_up v r d = (if lr_cleanup r then delete_load_test_event (fx_event_id (le_fixture v)) d else d)"

text \<open>The result is what is returned, and also what is written to the result file.\<close>

definition run_load_test :: "load_env \<Rightarrow> load_options \<Rightarrow> db \<Rightarrow> (string + json) \<times> db" where
  "run_load_test v opt d =
     (case make_runner (le_environ v) opt of
        Inl e \<Rightarrow> (Inl (provision_text (le_store_text v) e), d)
      | Inr r \<Rightarrow>
          (case provision_load_test_event (le_fixture v) (lr_client_count r) (lr_event_name r) d of
             Inl e \<Rightarrow> (Inl (provision_text (le_store_text v) e), d)
           | Inr (fixture, d1) \<Rightarrow>
               (let clients = map (\<lambda>c. run_client (le_repr v) (nat (lr_clock_sync_samples r)) (le_net v (sy_index c)) c)
                      (make_clients fixture);
                    d2 = clean_up v r (le_live v d1);
                    broadcasts = (if list_ex sy_handshake_ok clients
                                  then bindE (le_broadcaster v) (\<lambda>_. run_broadcasts (le_reply v) broadcast_sequence)
                                  else Inr [])
                in case broadcasts of
                     Inl e \<Rightarrow> (Inl e, d2)
                   | Inr bs \<Rightarrow>
                       (Inr (strip_secrets (build_load_report r (clear_secrets fixture) clients bs
                          (le_started_at v) (le_finished_at v) (le_duration_ms v))), d2))))"

end
