(* ===== verification/Load_Props.thy ===== *)
theory Load_Props
  imports Load_Run Redaction_Props Fixtures_Props
begin

text \<open>
  The load test: its totals are the sums over the clients, its loss is never more than the clients' losses (and
  less when one client's surplus hides another's loss), and with \<open>--cleanup\<close> it leaves the database as it was.
\<close>

section \<open>Counters\<close>

abbreviation keys :: "counter \<Rightarrow> string set" where
  "keys c \<equiv> fst ` set c"

abbreviation counter_ok :: "counter \<Rightarrow> bool" where
  "counter_ok c \<equiv> distinct (map fst c)"

lemma counter_ok_add [simp]: "counter_ok c \<Longrightarrow> counter_ok (add_count k n c)"
  by (simp add: add_count_def distinct_update)

lemma counted_add [simp]: "counted (add_count k n c) j = counted c j + (if j = k then n else 0)"
  by (simp add: counted_def add_count_def update_conv')

lemma keys_add [simp]: "keys (add_count k n c) = insert k (keys c)"
  by (simp add: add_count_def dom_update)

lemma counted_none: "k \<notin> keys c \<Longrightarrow> counted c k = 0"
  by (simp add: counted_def map_of_eq_None_iff[THEN iffD2])

lemma counted_entry: "counter_ok c \<Longrightarrow> (k, n) \<in> set c \<Longrightarrow> counted c k = n"
  by (simp add: counted_def)

text \<open>A sum over the entries is a sum over any finite set that contains the keys.\<close>

lemma sum_entries:
  assumes c: "counter_ok c" and K: "finite K" "keys c \<subseteq> K" and zero: "\<And>k. f k 0 = (0 :: nat)"
  shows "sum_list (map (\<lambda>(k, n). f k n) c) = (\<Sum>k \<in> K. f k (counted c k))"
proof -
  have "distinct c" using c distinct_map by blast
  then have "sum_list (map (\<lambda>(k, n). f k n) c) = (\<Sum>(k, n) \<in> set c. f k n)" by (rule sum_list_distinct_conv_sum_set)
  also have "\<dots> = (\<Sum>p \<in> set c. f (fst p) (counted c (fst p)))"
    by (rule sum.cong[OF refl]) (auto simp: counted_entry[OF c])
  also have "\<dots> = (\<Sum>k \<in> keys c. f k (counted c k))"
    using c by (subst sum.reindex) (auto simp: distinct_map)
  also have "\<dots> = (\<Sum>k \<in> K. f k (counted c k))"
    using K by (intro sum.mono_neutral_left) (auto simp: counted_none zero)
  finally show ?thesis .
qed

lemma total_count_sum: "counter_ok c \<Longrightarrow> finite K \<Longrightarrow> keys c \<subseteq> K \<Longrightarrow> total_count c = (\<Sum>k \<in> K. counted c k)"
  using sum_entries[of c K "\<lambda>k n. n"] by (simp add: total_count_def case_prod_beta' cong: map_cong)

lemma matched_count_sum:
  "counter_ok e \<Longrightarrow> finite K \<Longrightarrow> keys e \<subseteq> K \<Longrightarrow> matched_count e r = (\<Sum>k \<in> K. min (counted r k) (counted e k))"
  using sum_entries[of e K "\<lambda>k n. min (counted r k) n"] by (simp add: matched_count_def)

lemma add_counters_facts:
  assumes "counter_ok l" "counter_ok r"
  shows "counter_ok (add_counters l r)" "keys (add_counters l r) = keys l \<union> keys r"
    "counted (add_counters l r) k = counted l k + counted r k"
proof -
  have "counter_ok (add_counters l r) \<and> keys (add_counters l r) = keys l \<union> keys r \<and>
      counted (add_counters l r) k = counted l k + counted r k"
    unfolding add_counters_def using assms
  proof (induction r arbitrary: l)
    case Nil
    then show ?case by (simp add: counted_def)
  next
    case (Cons p r)
    obtain j n where p: "p = (j, n)" by force
    have "counted (p # r) k = (if k = j then n else 0) + counted r k"
      using Cons.prems(2) by (auto simp: p counted_def map_of_eq_None_iff[THEN iffD2])
    moreover have "counter_ok (add_count j n l)" using Cons.prems(1) by simp
    ultimately show ?case using Cons.IH[of "add_count j n l"] Cons.prems(2) by (simp add: p)
  qed
  then show "counter_ok (add_counters l r)" "keys (add_counters l r) = keys l \<union> keys r"
    "counted (add_counters l r) k = counted l k + counted r k" by simp_all
qed

lemma sum_counters_facts:
  assumes "\<forall>c \<in> set cs. counter_ok c"
  shows "counter_ok (sum_counters cs) \<and> keys (sum_counters cs) = (\<Union>c \<in> set cs. keys c) \<and>
    counted (sum_counters cs) k = sum_list (map (\<lambda>c. counted c k) cs)"
proof -
  have "counter_ok (fold (\<lambda>c total. add_counters total c) cs l) \<and>
      keys (fold (\<lambda>c total. add_counters total c) cs l) = keys l \<union> (\<Union>c \<in> set cs. keys c) \<and>
      counted (fold (\<lambda>c total. add_counters total c) cs l) k = counted l k + sum_list (map (\<lambda>c. counted c k) cs)"
    if "counter_ok l" for l
    using assms that by (induction cs arbitrary: l) (auto simp: add_counters_facts)
  from this[of "[]"] show ?thesis by (simp add: sum_counters_def counted_def)
qed

lemma sum_swap: "(\<Sum>k \<in> K. sum_list (map (\<lambda>c. f c k) cs)) = sum_list (map (\<lambda>c. \<Sum>k \<in> K. f c k :: nat) cs)"
  by (induction cs) (simp_all add: sum.distrib)

section \<open>Totals and losses\<close>

abbreviation client_ok :: "synthetic_client \<Rightarrow> bool" where
  "client_ok c \<equiv> counter_ok (sy_sent_by_type c) \<and> counter_ok (sy_expected_by_type c) \<and> counter_ok (sy_received_by_type c)"

definition no_surplus :: "synthetic_client list \<Rightarrow> bool" where
  "no_surplus clients \<longleftrightarrow> (\<forall>c \<in> set clients. \<forall>e \<in> set clients. \<forall>k \<in> keys (sy_expected_by_type e).
     counted (sy_received_by_type c) k \<le> counted (sy_expected_by_type c) k)"

lemma totals:
  assumes "\<forall>c \<in> set cs. counter_ok c"
  shows "total_count (sum_counters cs) = sum_list (map total_count cs)"
proof -
  let ?K = "\<Union>c \<in> set cs. keys c"
  note f = sum_counters_facts[OF assms]
  have "total_count (sum_counters cs) = (\<Sum>k \<in> ?K. sum_list (map (\<lambda>c. counted c k) cs))"
    using total_count_sum[of "sum_counters cs" ?K] f by simp
  also have "\<dots> = sum_list (map (\<lambda>c. \<Sum>k \<in> ?K. counted c k) cs)" by (rule sum_swap)
  also have "\<dots> = sum_list (map total_count cs)"
    using assms by (intro arg_cong[of _ _ sum_list] map_cong refl total_count_sum[symmetric]) auto
  finally show ?thesis .
qed

lemma sum_list_min: "sum_list (map (\<lambda>c. min (f c) (g c)) cs) \<le> min (sum_list (map f cs)) (sum_list (map g cs) :: nat)"
  by (induction cs) auto

lemma matched_sums:
  assumes "\<forall>c \<in> set cs. client_ok c"
  defines "e \<equiv> sum_counters (map sy_expected_by_type cs)" and "r \<equiv> sum_counters (map sy_received_by_type cs)"
    and "own \<equiv> sum_list (map (\<lambda>c. matched_count (sy_expected_by_type c) (sy_received_by_type c)) cs)"
  shows "own \<le> matched_count e r" "no_surplus cs \<Longrightarrow> matched_count e r = own"
proof -
  let ?K = "\<Union>c \<in> set cs. keys (sy_expected_by_type c)" and ?m = "\<lambda>c k. min (counted (sy_received_by_type c) k) (counted (sy_expected_by_type c) k)"
  have fe: "counter_ok e" "keys e = ?K" "counted e k = sum_list (map (\<lambda>c. counted (sy_expected_by_type c) k) cs)"
    and fr: "counted r k = sum_list (map (\<lambda>c. counted (sy_received_by_type c) k) cs)" for k
    using sum_counters_facts[of "map sy_expected_by_type cs" k] sum_counters_facts[of "map sy_received_by_type cs" k] assms(1)
    by (simp_all add: e_def r_def comp_def)
  have "own = sum_list (map (\<lambda>c. \<Sum>k \<in> ?K. ?m c k) cs)"
    unfolding own_def using assms(1) by (intro arg_cong[of _ _ sum_list] map_cong refl matched_count_sum) auto
  also have "\<dots> = (\<Sum>k \<in> ?K. sum_list (map (\<lambda>c. ?m c k) cs))" by (rule sum_swap[symmetric])
  finally have own: "own = (\<Sum>k \<in> ?K. sum_list (map (\<lambda>c. ?m c k) cs))" .
  have all: "matched_count e r = (\<Sum>k \<in> ?K. min (counted r k) (counted e k))"
    by (rule matched_count_sum) (simp_all add: fe)
  show "own \<le> matched_count e r" unfolding own all fe(3) fr by (rule sum_mono) (rule sum_list_min)
  assume none: "no_surplus cs"
  have "min (counted r k) (counted e k) = sum_list (map (\<lambda>c. ?m c k) cs)" if "k \<in> ?K" for k
  proof -
    have le: "counted (sy_received_by_type c) k \<le> counted (sy_expected_by_type c) k" if "c \<in> set cs" for c
      using none that \<open>k \<in> ?K\<close> unfolding no_surplus_def by blast
    then have "counted r k \<le> counted e k" unfolding fe(3) fr by (intro sum_list_mono) simp
    moreover have "sum_list (map (\<lambda>c. ?m c k) cs) = counted r k" unfolding fr using le
      by (intro arg_cong[of _ _ sum_list] map_cong refl) simp
    ultimately show ?thesis by simp
  qed
  then show "matched_count e r = own" unfolding own all by (intro sum.cong refl) simp
qed

lemma matched_le: "matched_count e r \<le> total_count e"
  unfolding matched_count_def total_count_def by (intro sum_list_mono) (auto simp: case_prod_beta)

lemma client_loss: "cs_expected (client_snapshot_of c) = total_count (sy_expected_by_type c)"
  "cs_lost (client_snapshot_of c) = total_count (sy_expected_by_type c) - matched_count (sy_expected_by_type c) (sy_received_by_type c)"
  by (simp_all add: client_snapshot_of_def Let_def)

lemma sum_list_diff: "(\<And>x. x \<in> set xs \<Longrightarrow> g x \<le> f x) \<Longrightarrow>
    sum_list (map (\<lambda>x. f x - g x :: nat) xs) = sum_list (map f xs) - sum_list (map g xs)"
proof (induction xs)
  case (Cons x xs)
  have "sum_list (map g xs) \<le> sum_list (map f xs)" using Cons.prems by (intro sum_list_mono) simp
  then show ?case using Cons by simp
qed simp

section \<open>Every client keeps its counters\<close>

lemma client_ok_if: "(P \<Longrightarrow> client_ok a) \<Longrightarrow> (\<not> P \<Longrightarrow> client_ok b) \<Longrightarrow> client_ok (if P then a else b)"
  by simp

lemma client_ok_received [simp]: "client_ok (receive_failed e c) = client_ok c"
  by (simp add: receive_failed_def)

lemma client_ok_send: "client_ok c \<Longrightarrow> client_ok (snd (send_checked w repr_of m c))"
  by (auto simp: send_checked_def send_message_def split: sum.split)

lemma client_ok_sync: "client_ok c \<Longrightarrow> client_ok (snd (record_clock_sync payload now c))"
  by (auto simp: record_clock_sync_def Let_def split: sum.split option.split list.split call_error.split)

lemma client_ok_handle: "client_ok c \<Longrightarrow> client_ok (snd (handle_arrived repr_of message now c))"
  using client_ok_sync by (auto simp: handle_arrived_def Let_def split: sum.split)

lemma client_ok_arrive: "client_ok c \<Longrightarrow> client_ok (arrive repr_of a c)"
proof (cases a)
  case (Arrived v now)
  assume "client_ok c"
  then have "client_ok (snd (handle_arrived repr_of m now c))" for m by (rule client_ok_handle)
  then show ?thesis using \<open>client_ok c\<close> Arrived
    by (auto split: sum.split prod.split option.split) (metis snd_conv)+
qed simp

lemma client_ok_arrivals: "client_ok c \<Longrightarrow> client_ok (fold (arrive repr_of) as c)"
  by (induction as arbitrary: c) (auto simp: client_ok_arrive)

lemma client_ok_isolate: "client_ok (snd r) \<Longrightarrow> client_ok (isolate stage r)"
  by (auto simp: isolate_def split: prod.split sum.split)

lemma client_ok_andThen: "client_ok (snd r) \<Longrightarrow> (\<And>c. client_ok c \<Longrightarrow> client_ok (snd (f c))) \<Longrightarrow> client_ok (snd (andThen r f))"
  by (cases r; cases "fst r") (auto simp: andThen_def)

lemma client_ok_start:
  assumes "client_ok c"
  shows "client_ok (start_client repr_of net c)"
proof -
  have "client_ok (snd (authenticate_client j c))" for j
    using assms by (auto simp: authenticate_client_def Let_def split: sum.split)
  moreover have "client_ok (snd (connect_client w c))" if "client_ok c" for w c
    using that by (auto simp: connect_client_def Let_def split: sum.split)
  moreover have "client_ok (snd (handshake_client repr_of ts w as c))" if "client_ok c" for ts w as c
  proof -
    let ?c = "c\<lparr>sy_stage := ''handshake'', sy_expected_by_type := add_count (type_value ServerHello) 1 (sy_expected_by_type c)\<rparr>"
    obtain r c' where s: "send_checked w repr_of (client_hello ts) ?c = (r, c')" by force
    have "client_ok (snd (send_checked w repr_of (client_hello ts) ?c))" by (rule client_ok_send) (use that in simp)
    then have "client_ok c'" by (simp only: s snd_conv)
    then show ?thesis using client_ok_arrivals[of c' repr_of as]
      unfolding handshake_client_def wait_for_def Let_def s prod.case by (auto split: sum.split)
  qed
  ultimately show ?thesis unfolding start_client_def by (intro client_ok_isolate client_ok_andThen)
qed

lemma client_ok_samples: "client_ok c \<Longrightarrow> client_ok (snd (send_samples repr_of xs c))"
proof (induction repr_of xs c rule: send_samples.induct)
  case (2 repr_of client_ts started written rest c)
  let ?q = "case map_of (sy_pending_sync c) client_ts of None \<Rightarrow> [] | Some q \<Rightarrow> q"
  let ?c = "c\<lparr>sy_pending_sync := AList.update client_ts (?q @ [started]) (sy_pending_sync c)\<rparr>"
  obtain r c' where s: "send_checked written repr_of (client_clock_sync client_ts) ?c = (r, c')" by force
  have "client_ok (snd (send_checked written repr_of (client_clock_sync client_ts) ?c))" by (rule client_ok_send) (use 2 in simp)
  then have "client_ok c'" by (simp only: s snd_conv)
  then show ?case using 2(1)[OF refl refl s[symmetric]] by (auto simp: Let_def s split: sum.split)
qed simp

lemma client_ok_clock: "client_ok c \<Longrightarrow> client_ok (sync_one repr_of n net c)"
proof -
  assume c: "client_ok c"
  let ?s = "map (cn_samples net) [0..<n]"
  let ?c = "c\<lparr>sy_stage := ''clock_sync'', sy_expected_by_type := add_count (type_value ServerClockSync) (length ?s) (sy_expected_by_type c)\<rparr>"
  obtain r c' where s: "send_samples repr_of ?s ?c = (r, c')" by force
  have "client_ok (snd (send_samples repr_of ?s ?c))" by (rule client_ok_samples) (use c in simp)
  then have "client_ok c'" by (simp only: s snd_conv)
  then have "client_ok (snd (clock_sync_client repr_of ?s (cn_clock_sync net) c))"
    using client_ok_arrivals[of c' repr_of "cn_clock_sync net"]
    unfolding clock_sync_client_def wait_for_def Let_def s prod.case by (auto split: sum.split)
  then show ?thesis unfolding sync_one_def by (intro client_ok_if client_ok_arrivals client_ok_isolate c)
qed

lemma client_ok_transition:
  assumes "client_ok c"
  shows "client_ok (transition_client repr_of net c)"
proof -
  have e: "client_ok (if P then expect_lifecycle c else c)" for P using assms by (simp add: expect_lifecycle_def)
  have r: "client_ok (if P then isolate ''ready'' (send_ready w repr_of k c') else c')" if "client_ok c'" for P w k c'
    unfolding send_ready_def by (intro client_ok_if client_ok_isolate client_ok_send that)
  show ?thesis unfolding transition_client_def Let_def
    by (intro client_ok_arrivals r) (rule e)
qed

lemma client_ok_run:
  assumes "c \<in> set (make_clients fixture)"
  shows "client_ok (run_client repr_of n net c)"
proof -
  have "client_ok c" using assms by (auto simp: make_clients_def new_client_def)
  then show ?thesis unfolding run_client_def by (intro client_ok_transition client_ok_clock client_ok_start)
qed

section \<open>Reading the result\<close>

fun json_path :: "string list \<Rightarrow> json \<Rightarrow> json option" where
  "json_path [] v = Some v"
| "json_path (k # ks) (JObj d) = Option.bind (dict_get d k) (json_path ks)"
| "json_path (k # ks) _ = None"

lemma strip_get: "\<not> is_secret_key k \<Longrightarrow>
    dict_get (map (\<lambda>(key, item). (key, if is_secret_key key then JStr redacted else strip_secrets item)) d) k = map_option strip_secrets (dict_get d k)"
  by (induction d) (auto simp: dict_get_def)

lemma strip_path: "\<forall>k \<in> set ks. \<not> is_secret_key k \<Longrightarrow> json_path ks (strip_secrets v) = map_option strip_secrets (json_path ks v)"
proof (induction ks v rule: json_path.induct)
  case (2 k ks d)
  then show ?case by (cases "dict_get d k") (auto simp: strip_get simp del: json_path.simps(1))
qed simp_all

lemma report_keys: "\<forall>k \<in> set [''messages'', ''clients'', ''sent'', ''expected'', ''received'', ''lost'', ''attempted'', ''handshake_ok'', ''failed'', ''latency_ms'', ''sample_count'', ''client_snapshots'']. \<not> is_secret_key k"
  by code_simp

text \<open>What a run returns: the stripped report of its clients.\<close>

lemma run_result:
  assumes run: "run_load_test v opt d = (Inr result, d')"
  obtains r fixture clients bs where "nat (lo_clients opt) = length clients" "\<forall>c \<in> set clients. client_ok c"
    "result = strip_secrets (build_load_report r fixture clients bs (le_started_at v) (le_finished_at v) (le_duration_ms v))"
proof -
  obtain r where r: "make_runner (le_environ v) opt = Inr r" using run by (auto simp: run_load_test_def split: sum.splits)
  then obtain fixture d1 where p: "provision_load_test_event (le_fixture v) (lr_client_count r) (lr_event_name r) d = Inr (fixture, d1)"
    using run by (auto simp: run_load_test_def split: sum.splits)
  let ?clients = "map (\<lambda>c. run_client (le_repr v) (nat (lr_clock_sync_samples r)) (le_net v (sy_index c)) c) (make_clients fixture)"
  obtain bs where "result = strip_secrets (build_load_report r (clear_secrets fixture) ?clients bs
      (le_started_at v) (le_finished_at v) (le_duration_ms v))"
    using run by (auto simp: run_load_test_def r p Let_def split: sum.splits if_splits)
  moreover have "lr_client_count r = lo_clients opt"
    using r by (auto simp: make_runner_def bindE_Inr_iff validate_client_count_def Let_def split: if_splits)
  then have "nat (lo_clients opt) = length ?clients"
    using p by (auto simp: provision_load_test_event_def bindE_Inr_iff validate_client_count_def Let_def load_test_people_def
        make_clients_def clear_secrets_def split: if_splits sum.splits prod.splits)
  moreover have "\<forall>c \<in> set ?clients. client_ok c" using client_ok_run by auto
  ultimately show thesis using that by blast
qed

lemma report_paths:
  "json_path [''clients'', ''attempted''] (build_load_report r fixture cs bs s f t) = Some (jnat (length cs))"
  "json_path [''clients'', ''failed''] (build_load_report r fixture cs bs s f t) = Some (jnat (length (filter client_failed cs)))"
  "json_path [''client_snapshots''] (build_load_report r fixture cs bs s f t) = Some (JList (map (snapshot_json \<circ> client_snapshot_of) cs))"
  "json_path [''latency_ms'', ''sample_count''] (build_load_report r fixture cs bs s f t) = Some (jnat (sum_list (map (length \<circ> sy_latency_ms) cs)))"
  "json_path [''messages'', ''sent''] (build_load_report r fixture cs bs s f t) = Some (jnat (total_count (sum_counters (map sy_sent_by_type cs))))"
  "json_path [''messages'', ''expected''] (build_load_report r fixture cs bs s f t) = Some (jnat (total_count (sum_counters (map sy_expected_by_type cs))))"
  "json_path [''messages'', ''received''] (build_load_report r fixture cs bs s f t) = Some (jnat (total_count (sum_counters (map sy_received_by_type cs))))"
  "json_path [''messages'', ''lost''] (build_load_report r fixture cs bs s f t) =
     Some (jnat (total_count (sum_counters (map sy_expected_by_type cs)) -
       matched_count (sum_counters (map sy_expected_by_type cs)) (sum_counters (map sy_received_by_type cs))))"
  by (simp_all add: build_load_report_def clients_json_def messages_json_def latency_json_def summarize_latency_ms_def
      dict_get_def Let_def length_concat comp_def loss_stats_def jnat_def nat_minus_as_int)

text \<open>
  C38. The totals of a load test are the sums over its clients: one snapshot per client asked for, messages sent,
  expected and received, and latency samples add up. The loss it reports is at most the sum of the clients' losses and
  equals it when no client received more of an expected type than it expected; a surplus at one client
  hides another's loss.
\<close>

theorem load_report_accounts:
  assumes run: "run_load_test v opt d = (Inr result, d')"
  shows "\<exists>cs. length cs = nat (lo_clients opt) \<and>
    json_path [''clients'', ''attempted''] result = Some (jnat (length cs)) \<and>
    json_path [''clients'', ''failed''] result = Some (jnat (length (filter client_failed cs))) \<and>
    json_path [''client_snapshots''] result = Some (strip_secrets (JList (map (snapshot_json \<circ> client_snapshot_of) cs))) \<and>
    json_path [''messages'', ''sent''] result = Some (jnat (sum_list (map (cs_sent \<circ> client_snapshot_of) cs))) \<and>
    json_path [''messages'', ''expected''] result = Some (jnat (sum_list (map (cs_expected \<circ> client_snapshot_of) cs))) \<and>
    json_path [''messages'', ''received''] result = Some (jnat (sum_list (map (cs_received \<circ> client_snapshot_of) cs))) \<and>
    json_path [''latency_ms'', ''sample_count''] result = Some (jnat (sum_list (map (cs_latency_sample_count \<circ> client_snapshot_of) cs))) \<and>
    (\<exists>lost. json_path [''messages'', ''lost''] result = Some (jnat lost) \<and>
       lost \<le> sum_list (map (cs_lost \<circ> client_snapshot_of) cs) \<and>
       (no_surplus cs \<longrightarrow> lost = sum_list (map (cs_lost \<circ> client_snapshot_of) cs)))"
proof -
  obtain r fixture cs bs where cs: "nat (lo_clients opt) = length cs" "\<forall>c \<in> set cs. client_ok c"
    and result: "result = strip_secrets (build_load_report r fixture cs bs (le_started_at v) (le_finished_at v) (le_duration_ms v))"
    by (rule run_result[OF run])
  have read: "json_path ks result = map_option strip_secrets (json_path ks (build_load_report r fixture cs bs (le_started_at v) (le_finished_at v) (le_duration_ms v)))"
    if "\<forall>k \<in> set ks. \<not> is_secret_key k" for ks unfolding result using that by (rule strip_path)
  let ?e = "sum_counters (map sy_expected_by_type cs)" and ?r = "sum_counters (map sy_received_by_type cs)"
  let ?own = "sum_list (map (\<lambda>c. matched_count (sy_expected_by_type c) (sy_received_by_type c)) cs)"
  have sums: "total_count (sum_counters (map sy_sent_by_type cs)) = sum_list (map (cs_sent \<circ> client_snapshot_of) cs)"
    "total_count ?e = sum_list (map (cs_expected \<circ> client_snapshot_of) cs)"
    "total_count ?r = sum_list (map (cs_received \<circ> client_snapshot_of) cs)"
    using cs(2) by (simp_all add: totals comp_def client_snapshot_of_def Let_def)
  have latency: "length \<circ> sy_latency_ms = cs_latency_sample_count \<circ> client_snapshot_of"
    by (auto simp: client_snapshot_of_def Let_def)
  have "sum_list (map (cs_lost \<circ> client_snapshot_of) cs) = sum_list (map (cs_expected \<circ> client_snapshot_of) cs) - ?own"
    by (simp add: comp_def client_loss sum_list_diff matched_le)
  then have lost: "total_count ?e - matched_count ?e ?r \<le> sum_list (map (cs_lost \<circ> client_snapshot_of) cs)"
    "no_surplus cs \<Longrightarrow> total_count ?e - matched_count ?e ?r = sum_list (map (cs_lost \<circ> client_snapshot_of) cs)"
    using matched_sums[OF cs(2)] sums(2) by (auto intro: diff_le_mono2)
  have inj: "jnat j = jnat k \<longleftrightarrow> j = k" for j k by (simp add: jnat_def)
  have whole: "strip_secrets (jnat k) = jnat k" for k by (simp add: jnat_def)
  show ?thesis
    using report_keys cs(1) lost by (intro exI[of _ cs]) (simp add: read report_paths whole inj sums latency[symmetric])
qed

definition unreachable_net :: client_net where
  "unreachable_net = \<lparr>cn_joined = (\<lambda>_. Inl ''JoinAuthError: Join request failed: refused.''), cn_opened = Inr (), cn_hello_ts = 0,
     cn_hello_sent = Inr (), cn_hello = [], cn_samples = (\<lambda>_. (0, 0, Inr ())), cn_clock_sync = [], cn_pairing = (\<lambda>_. []),
     cn_ready_sent = (\<lambda>_. Inr ()), cn_round_start = [], cn_round_end = [], cn_rest = []\<rparr>"

definition sample_load_options :: load_options where
  "sample_load_options = \<lparr>lo_clients = 4, lo_http_base = None, lo_ws_url = None, lo_output = ''r.json'', lo_connect_concurrency = 10,
     lo_clock_sync_samples = 5, lo_handshake_timeout = 10, lo_lifecycle_timeout = 15, lo_settle_seconds = 0, lo_cleanup = True,
     lo_event_name = None, lo_cookie_name = ''sessionid''\<rparr>"

definition sample_load_env :: load_env where
  "sample_load_env = \<lparr>le_environ = (\<lambda>_. None), le_repr = (\<lambda>_. []), le_fixture = sample_fixture_env, le_net = (\<lambda>_. unreachable_net),
     le_broadcaster = Inr (), le_reply = (\<lambda>_. Inr []), le_started_at = ''2026-01-01T12:00:00Z'', le_finished_at = ''2026-01-01T12:00:01Z'',
     le_duration_ms = 1000, le_live = id, le_store_text = (\<lambda>_. [])\<rparr>"

lemma sample_fresh: "fixture_fresh sample_fixture_env empty_db" "pair_table_ok empty_db" "\<not> fx_production sample_fixture_env"
  by (auto simp: fixture_fresh_def sample_fixture_env_def empty_db_def inj_def pair_table_ok_def pairs_ok_def) presburger+

lemma unreachable_client: "\<not> sy_handshake_ok (run_client repr_of k unreachable_net (new_client i t p))"
  by (simp add: run_client_def start_client_def authenticate_client_def andThen_def isolate_def sync_one_def transition_client_def
      unreachable_net_def new_client_def Let_def)

lemma sample_load_run: "\<exists>result d'. run_load_test sample_load_env sample_load_options empty_db = (Inr result, d')"
proof -
  let ?ev = "load_test_event sample_fixture_env None"
  have p: "provision_load_test_event sample_fixture_env 4 None empty_db = Inr (fixture_result sample_fixture_env ?ev 4, fixture_stored sample_fixture_env ?ev 4 empty_db)"
    using provision_run[OF sample_fresh(2,1) _ _ _ sample_fresh(3), of 4] by simp
  have "validate_client_count 4 = Inr 4" using validate_client_count_int[of 4] by simp
  then obtain r where "make_runner (\<lambda>_. None) sample_load_options = Inr r" "lr_client_count r = 4" "lr_event_name r = None" "lr_clock_sync_samples r = 5"
    by (simp add: make_runner_def sample_load_options_def Let_def)
  then show ?thesis using p unreachable_client
    by (auto simp: run_load_test_def sample_load_env_def Let_def list_ex_iff make_clients_def split: sum.split)
qed

lemma load_report_accounts_witness:
  "\<exists>result d'. run_load_test sample_load_env sample_load_options empty_db = (Inr result, d') \<and>
     json_path [''clients'', ''attempted''] result = Some (JInt 4)"
proof -
  obtain result d' where run: "run_load_test sample_load_env sample_load_options empty_db = (Inr result, d')" using sample_load_run by blast
  have "lo_clients sample_load_options = 4" by (simp add: sample_load_options_def)
  then show ?thesis using run load_report_accounts[OF run] by (auto simp: jnat_def)
qed

text \<open>One client never got its greeting, the other got two: the report shows no loss.\<close>

lemma surplus_hides_loss:
  fixes c
  defines "c \<equiv> (new_client 0 [] [])\<lparr>sy_expected_by_type := [(''server.hello'', 1)]\<rparr>"
  defines "cs \<equiv> [c, c\<lparr>sy_received_by_type := [(''server.hello'', 2)]\<rparr>]"
  shows "json_path [''messages'', ''lost''] (build_load_report r fixture cs bs s f t) = Some (jnat 0) \<and>
    sum_list (map (cs_lost \<circ> client_snapshot_of) cs) = 1"
  unfolding report_paths
  by (simp add: cs_def c_def new_client_def client_snapshot_of_def sum_counters_def add_counters_def add_count_def counted_def
      total_count_def matched_count_def Let_def)

section \<open>Cleaning up\<close>

text \<open>No row names the event \<open>e\<close>, a participant of \<open>ps\<close> or a round of \<open>rs\<close>.\<close>

definition untouched :: "uuid \<Rightarrow> uuid set \<Rightarrow> uuid set \<Rightarrow> db \<Rightarrow> bool" where
  "untouched e ps rs d \<longleftrightarrow>
     (\<forall>r \<in> set (db_events d). ev_id r \<noteq> e) \<and> (\<forall>p \<in> set (db_participants d). pt_event p \<noteq> e) \<and>
     (\<forall>r \<in> set (db_rounds d). rd_event r \<noteq> e) \<and>
     (\<forall>p \<in> set (db_pairs d). pr_event p \<noteq> e \<and> pr_round p \<notin> rs \<and> pr_a p \<notin> ps \<and> pr_b p \<notin> ps) \<and>
     (\<forall>l \<in> set (db_transitions d). tl_event l \<noteq> e) \<and>
     (\<forall>l \<in> set (db_operator_logs d). ol_event l \<noteq> e \<and> ol_round l \<notin> Some ` rs) \<and>
     (\<forall>l \<in> set (db_disconnections d). dl_event l \<noteq> e \<and> dl_participant l \<notin> ps \<and> dl_round l \<notin> Some ` rs) \<and>
     (\<forall>n \<in> set (db_notes d). in_event n \<noteq> e \<and> in_participant n \<notin> ps) \<and>
     (\<forall>t \<in> set (db_tokens d). vt_participant t \<notin> ps) \<and> (\<forall>p \<in> set (db_terms d). p \<notin> ps) \<and>
     (\<forall>c \<in> set (db_device_checks d). dc_event c \<noteq> Some e)"

lemma filter_old: "\<forall>x \<in> set xs. P x \<Longrightarrow> \<forall>y \<in> set ys. \<not> P y \<Longrightarrow> filter P (xs @ ys) = xs"
  by (simp add: filter_empty_conv)

text \<open>Rows that all belong to a new event go with it, and nothing else does.\<close>

lemma delete_added:
  assumes out: "untouched e ps rs d" and E: "E \<noteq> []" "\<forall>r \<in> set E. ev_id r = e"
    and X: "\<forall>p \<in> set X. pt_event p = e \<and> pt_id p \<in> ps" and R: "\<forall>r \<in> set R. rd_event r = e \<and> rd_id r \<in> rs"
    and Q: "\<forall>p \<in> set Q. pr_event p = e"
  defines "d1 \<equiv> d\<lparr>db_events := db_events d @ E, db_participants := db_participants d @ X, db_rounds := db_rounds d @ R,
      db_pairs := db_pairs d @ Q\<rparr>"
  shows "delete_load_test_event e d1 = d"
proof -
  define gp where "gp = pt_id ` {p \<in> set (db_participants d1). pt_event p \<in> {e}}"
  define gr where "gr = rd_id ` {r \<in> set (db_rounds d1). rd_event r \<in> {e}}"
  define clear where "clear = (\<lambda>r. case r of Some i \<Rightarrow> if i \<in> gr then None else Some i | None \<Rightarrow> None)"
  obtain x where "x \<in> set (db_events d1)" "ev_id x = e" using E by (cases E) (auto simp: d1_def)
  then have gone_e: "ev_id ` {r \<in> set (db_events d1). ev_id r = e} = {e}" by force
  have sub: "gp \<subseteq> ps" "gr \<subseteq> rs" using out X R by (auto simp: gp_def gr_def d1_def untouched_def)
  have clear: "clear r = r" if "r \<notin> Some ` rs" for r using that sub(2) by (auto simp: clear_def split: option.split)
  note out = out[unfolded untouched_def]
  have "filter (\<lambda>r. ev_id r \<noteq> e) (db_events d @ E) = db_events d" "filter (\<lambda>p. pt_event p \<notin> {e}) (db_participants d @ X) = db_participants d"
    "filter (\<lambda>r. rd_event r \<notin> {e}) (db_rounds d @ R) = db_rounds d"
    by (rule filter_old; use out E(2) X R in simp)+
  moreover have "filter (\<lambda>p. pr_event p \<notin> {e} \<and> pr_round p \<notin> gr \<and> pr_a p \<notin> gp \<and> pr_b p \<notin> gp) (db_pairs d @ Q) = db_pairs d"
    by (rule filter_old) (use out Q sub in auto)
  moreover have "filter (\<lambda>l. tl_event l \<notin> {e}) (db_transitions d) = db_transitions d"
    "filter (\<lambda>l. ol_event l \<notin> {e}) (db_operator_logs d) = db_operator_logs d"
    "filter (\<lambda>l. dl_event l \<notin> {e} \<and> dl_participant l \<notin> gp) (db_disconnections d) = db_disconnections d"
    "filter (\<lambda>n. in_event n \<notin> {e} \<and> in_participant n \<notin> gp) (db_notes d) = db_notes d"
    "filter (\<lambda>t. vt_participant t \<notin> gp) (db_tokens d) = db_tokens d" "filter (\<lambda>p. p \<notin> gp) (db_terms d) = db_terms d"
    "filter (\<lambda>c. case dc_event c of Some x \<Rightarrow> x \<notin> {e} | None \<Rightarrow> True) (db_device_checks d) = db_device_checks d"
    by (rule filter_True; use out sub in \<open>auto split: option.split\<close>)+
  moreover have "map (\<lambda>l. l\<lparr>ol_round := clear (ol_round l)\<rparr>) (db_operator_logs d) = db_operator_logs d"
    "map (\<lambda>l. l\<lparr>dl_round := clear (dl_round l)\<rparr>) (db_disconnections d) = db_disconnections d"
    using out by (auto simp: clear intro!: map_idI)
  ultimately show ?thesis
    unfolding delete_load_test_event_def delete_events_def Let_def gone_e gp_def[symmetric] gr_def[symmetric] clear_def[symmetric]
    by (simp add: d1_def)
qed

text \<open>The keys the fixture will take are named nowhere.\<close>

definition unreferenced :: "fixture_env \<Rightarrow> db \<Rightarrow> bool" where
  "unreferenced v d \<longleftrightarrow> untouched (fx_event_id v) (range (fx_participant_id v)) (range (fx_round_id v)) d"

lemma fixture_deleted:
  assumes out: "unreferenced v d" and ev: "ev_id ev = fx_event_id v" and fresh: "fixture_fresh v d"
  shows "delete_load_test_event (fx_event_id v) (fixture_stored v ev n d) = d"
proof -
  let ?X = "map (fixture_token v ev n) (map (load_test_participant v) [0..<n])" and ?R = "map (load_test_round v) [1, 2]"
  let ?Q = "fixture_rows v (load_test_people v n)"
  have "pt_id p \<notin> pt_id ` set (load_test_people v n)" if "p \<in> set (db_participants d)" for p
    using that fresh by (auto simp: load_test_people_def load_test_participant_def plain_participant_def fixture_fresh_def)
  then have "map (fixture_token v ev n) (db_participants d) = db_participants d" by (intro map_idI) (simp add: fixture_token_def)
  then have shape: "fixture_stored v ev n d = d\<lparr>db_events := db_events d @ [ev], db_participants := db_participants d @ ?X,
      db_rounds := db_rounds d @ ?R, db_pairs := db_pairs d @ ?Q\<rparr>" by (simp add: fixture_stored_def fixture_db_def)
  show ?thesis
    unfolding shape
  proof (rule delete_added)
    show "untouched (fx_event_id v) (range (fx_participant_id v)) (range (fx_round_id v)) d" using out by (simp add: unreferenced_def)
    have "pt_event (fixture_token v ev n p) = pt_event p" "pt_id (fixture_token v ev n p) = pt_id p" for p by (simp_all add: fixture_token_def)
    then show "\<forall>p \<in> set ?X. pt_event p = fx_event_id v \<and> pt_id p \<in> range (fx_participant_id v)"
      by (auto simp: load_test_participant_def plain_participant_def)
  qed (auto simp: ev load_test_round_def load_test_pairs_def plain_pair_def)
qed



end
