(* ===== verification/Deployment.thy ===== *)
theory Deployment
  imports Views Consumer Failover
begin

text \<open>
  What a deployment reads from its environment (\<open>config/settings\<close>), the health check
  (\<open>apps/health/views.py\<close>) and the path metrics (\<open>events/management/aggregate_path_metrics.py\<close>).
  The environment is a function from names to values; loading settings either fails with the variable
  that is missing or is no number, or gives the values the other theories take as arguments. Static entries
  (installed applications, middleware, templates, logging) and the Persian sender name are left out.
\<close>

section \<open>Reading the environment\<close>

datatype setting_error = MissingVariable string | NotAnInteger string

type_synonym environ = "string \<Rightarrow> string option"

definition env_get :: "environ \<Rightarrow> string \<Rightarrow> string \<Rightarrow> string" where
  "env_get environ name d = (case environ name of None \<Rightarrow> d | Some s \<Rightarrow> s)"

definition env_value :: "environ \<Rightarrow> string \<Rightarrow> string option \<Rightarrow> setting_error + string" where
  "env_value environ name d =
     (case environ name of Some s \<Rightarrow> Inr s | None \<Rightarrow> (case d of None \<Rightarrow> Inl (MissingVariable name) | Some s \<Rightarrow> Inr s))"

definition env_bool :: "environ \<Rightarrow> string \<Rightarrow> bool \<Rightarrow> bool" where
  "env_bool environ name d =
     (case environ name of None \<Rightarrow> d | Some s \<Rightarrow> py_lower (py_strip s) \<in> {''1'', ''true'', ''yes'', ''on''})"

definition env_int :: "environ \<Rightarrow> string \<Rightarrow> int \<Rightarrow> setting_error + int" where
  "env_int environ name d =
     (case environ name of
        None \<Rightarrow> Inr d
      | Some s \<Rightarrow> (case int_of_text s of None \<Rightarrow> Inl (NotAnInteger name) | Some i \<Rightarrow> Inr i))"

text \<open>\<open>split(",")\<close>: one part more than there are commas.\<close>

fun split_commas :: "string \<Rightarrow> string list" where
  "split_commas [] = [[]]"
| "split_commas (c # s) =
     (if c = CHR '','' then [] # split_commas s
      else case split_commas s of [] \<Rightarrow> [[c]] | part # parts \<Rightarrow> (c # part) # parts)"

definition env_list :: "environ \<Rightarrow> string \<Rightarrow> string \<Rightarrow> string list" where
  "env_list environ name d = map py_strip (filter (\<lambda>item. py_strip item \<noteq> []) (split_commas (env_get environ name d)))"

section \<open>Settings of all deployments\<close>

record database_settings =
  ds_name :: string
  ds_user :: string
  ds_password :: string
  ds_host :: string
  ds_port :: string

record mail_settings =
  ms_backend :: string
  ms_host :: string
  ms_port :: int
  ms_use_tls :: bool
  ms_user :: string
  ms_password :: string

record base_settings =
  bs_secret_key :: string
  bs_debug :: bool
  bs_allowed_hosts :: "string list"
  bs_database :: database_settings
  bs_redis_url :: string
  bs_session_age :: int
  bs_session_cookie_secure :: bool
  bs_join_base_url :: string
  bs_reconnect_window :: int
  bs_absence_grace :: int
  bs_rate_limit :: int
  bs_heartbeat_interval :: int
  bs_heartbeat_timeout :: int
  bs_max_message_bytes :: int
  bs_clock_sync_samples :: int
  bs_clock_sync_interval :: int
  bs_clock_sync_max_rtt :: int
  bs_final_seconds :: int
  bs_fallback_room :: string
  bs_escalation_timeout :: int
  bs_mail :: mail_settings
  bs_frontend_url :: string

definition database_of :: "environ \<Rightarrow> setting_error + database_settings" where
  "database_of v =
     bindE (env_value v ''POSTGRES_DB'' None) (\<lambda>name.
     bindE (env_value v ''POSTGRES_USER'' None) (\<lambda>user.
     bindE (env_value v ''POSTGRES_PASSWORD'' None) (\<lambda>password.
       Inr \<lparr>ds_name = name, ds_user = user, ds_password = password, ds_host = env_get v ''POSTGRES_HOST'' ''localhost'',
            ds_port = env_get v ''POSTGRES_PORT'' ''5432''\<rparr>)))"

definition mail_of :: "environ \<Rightarrow> setting_error + mail_settings" where
  "mail_of v = bindE (env_int v ''EMAIL_PORT'' 587) (\<lambda>port.
     Inr \<lparr>ms_backend = env_get v ''DJANGO_EMAIL_BACKEND'' ''django.core.mail.backends.smtp.EmailBackend'',
          ms_host = env_get v ''EMAIL_HOST'' ''smtp.gmail.com'', ms_port = port, ms_use_tls = env_bool v ''EMAIL_USE_TLS'' True,
          ms_user = env_get v ''EMAIL_HOST_USER'' [], ms_password = env_get v ''EMAIL_HOST_PASSWORD'' []\<rparr>)"

definition load_base :: "environ \<Rightarrow> setting_error + base_settings" where
  "load_base v =
     bindE (env_value v ''DJANGO_SECRET_KEY'' None) (\<lambda>secret_key.
     bindE (database_of v) (\<lambda>database.
     bindE (env_int v ''PARTNER_ABSENCE_GRACE_SECONDS'' 25) (\<lambda>grace.
     bindE (env_int v ''PROTOCOL_RATE_LIMIT_MESSAGES_PER_MINUTE'' 60) (\<lambda>limit.
     bindE (env_int v ''WEBSOCKET_HEARTBEAT_INTERVAL_SECONDS'' 30) (\<lambda>interval.
     bindE (env_int v ''WEBSOCKET_HEARTBEAT_TIMEOUT_SECONDS'' 90) (\<lambda>timeout.
     bindE (env_int v ''WEBSOCKET_MAX_MESSAGE_BYTES'' (64 * 1024)) (\<lambda>max_bytes.
     bindE (env_int v ''CLOCK_SYNC_SAMPLE_COUNT'' 5) (\<lambda>samples.
     bindE (env_int v ''CLOCK_SYNC_INTERVAL_SECONDS'' 30) (\<lambda>sync_interval.
     bindE (env_int v ''CLOCK_SYNC_MAX_RTT_MS'' 2000) (\<lambda>max_rtt.
     bindE (env_int v ''ORCHESTRATOR_FINAL_SECONDS'' 30) (\<lambda>final_seconds.
     bindE (env_int v ''MEDIA_FALLBACK_ESCALATION_TIMEOUT_MS'' default_escalation_timeout_ms) (\<lambda>escalation.
     bindE (mail_of v) (\<lambda>mail.
       Inr \<lparr>bs_secret_key = secret_key, bs_debug = env_bool v ''DJANGO_DEBUG'' False,
            bs_allowed_hosts = env_list v ''DJANGO_ALLOWED_HOSTS'' ''localhost,127.0.0.1'', bs_database = database,
            bs_redis_url = env_get v ''REDIS_URL'' ''redis://127.0.0.1:6379/0'', bs_session_age = participant_session_age,
            bs_session_cookie_secure = env_bool v ''DJANGO_SESSION_COOKIE_SECURE'' False,
            bs_join_base_url = env_get v ''PARTICIPANT_JOIN_BASE_URL'' [], bs_reconnect_window = 300, bs_absence_grace = grace,
            bs_rate_limit = limit, bs_heartbeat_interval = interval, bs_heartbeat_timeout = timeout, bs_max_message_bytes = max_bytes,
            bs_clock_sync_samples = samples, bs_clock_sync_interval = sync_interval, bs_clock_sync_max_rtt = max_rtt,
            bs_final_seconds = final_seconds, bs_fallback_room = env_get v ''MEDIA_FALLBACK_ROOM_ID'' [],
            bs_escalation_timeout = escalation, bs_mail = mail,
            bs_frontend_url = env_get v ''FRONTEND_URL'' ''http://localhost:8000''\<rparr>)))))))))))))"

text \<open>What the WebSocket consumer reads of them; its two limits are meant to be non-negative.\<close>

definition consumer_settings :: "(pyfloat \<Rightarrow> string) \<Rightarrow> base_settings \<Rightarrow> settings" where
  "consumer_settings fr b = \<lparr>st_max_bytes = nat (bs_max_message_bytes b), st_rate_limit = nat (bs_rate_limit b),
     st_heartbeat_timeout = bs_heartbeat_timeout b, st_reconnect_window = bs_reconnect_window b, st_session_age = bs_session_age b,
     st_float_repr = fr\<rparr>"

section \<open>The three deployments\<close>

definition no_turn_settings :: turn_settings where
  "no_turn_settings = \<lparr>tc_region1_domain = None, tc_port = None, tc_tls_port = None, tc_region2_domain = None, tc_region2_port = None,
     tc_region2_tls_port = None, tc_coturn_secret = None, tc_turn_secret = None, tc_region2_secret = None,
     tc_udp_transport_param = None, tc_credential_ttl = None, tc_stun_url = None, tc_turn_urls = None\<rparr>"

definition local_settings :: "environ \<Rightarrow> setting_error + base_settings \<times> turn_settings" where
  "local_settings v = bindE (load_base v) (\<lambda>b.
     Inr (b\<lparr>bs_debug := env_bool v ''DJANGO_DEBUG'' True,
            bs_allowed_hosts := env_list v ''DJANGO_ALLOWED_HOSTS'' ''localhost,127.0.0.1,0.0.0.0,web'',
            bs_mail := (bs_mail b)\<lparr>ms_backend := ''django.core.mail.backends.console.EmailBackend''\<rparr>\<rparr>, no_turn_settings))"

definition production_turn :: "environ \<Rightarrow> setting_error + turn_settings" where
  "production_turn v =
     bindE (env_int v ''COTURN_PORT'' 3478) (\<lambda>port.
     bindE (env_int v ''COTURN_TLS_PORT'' 5349) (\<lambda>tls_port.
     bindE (env_int v ''COTURN_CREDENTIAL_TTL_SECONDS'' 1800) (\<lambda>ttl.
     bindE (env_int v ''COTURN_REGION2_PORT'' port) (\<lambda>port2.
     bindE (env_int v ''COTURN_REGION2_TLS_PORT'' tls_port) (\<lambda>tls_port2.
       Inr (no_turn_settings\<lparr>tc_region1_domain := Some (env_get v ''COTURN_REGION1_DOMAIN'' ''turn.meetakk.com''),
         tc_port := Some port, tc_tls_port := Some tls_port, tc_coturn_secret := Some (env_get v ''COTURN_SHARED_SECRET'' []),
         tc_credential_ttl := Some ttl, tc_udp_transport_param := Some (env_bool v ''COTURN_UDP_TRANSPORT_PARAM'' False),
         tc_region2_domain := (let domain = env_get v ''COTURN_REGION2_DOMAIN'' [] in if domain = [] then None else Some domain),
         tc_region2_port := Some port2, tc_region2_tls_port := Some tls_port2,
         tc_region2_secret := Some (env_get v ''COTURN_REGION2_SHARED_SECRET'' [])\<rparr>))))))"

definition production_settings :: "environ \<Rightarrow> setting_error + base_settings \<times> turn_settings" where
  "production_settings v = bindE (load_base v) (\<lambda>b. bindE (production_turn v) (\<lambda>t.
     Inr (b\<lparr>bs_debug := False, bs_allowed_hosts := env_list v ''DJANGO_ALLOWED_HOSTS'' [], bs_session_cookie_secure := True\<rparr>, t)))"

definition staging_secret :: string where
  "staging_secret = ''super_secret_staging_turn_key_2026_very_long_entropy''"

definition staging_turn :: "environ \<Rightarrow> setting_error + turn_settings" where
  "staging_turn v =
     bindE (env_int v ''COTURN_PORT'' 3478) (\<lambda>port.
     bindE (env_int v ''COTURN_TLS_PORT'' 5349) (\<lambda>tls_port.
     bindE (env_int v ''COTURN_REGION2_PORT'' 3478) (\<lambda>port2.
     bindE (env_int v ''COTURN_REGION2_TLS_PORT'' 5349) (\<lambda>tls_port2.
     bindE (env_int v ''COTURN_CREDENTIAL_TTL_SECONDS'' 1800) (\<lambda>ttl.
       let secret = env_get v ''COTURN_SHARED_SECRET'' staging_secret
       in Inr (no_turn_settings\<lparr>tc_region1_domain := Some (env_get v ''COTURN_REGION1_DOMAIN'' ''staging-turn.yourdomain.com''),
            tc_region2_domain := Some (env_get v ''COTURN_REGION2_DOMAIN'' ''staging-turn-r2.yourdomain.com''),
            tc_port := Some port, tc_tls_port := Some tls_port, tc_region2_port := Some port2, tc_region2_tls_port := Some tls_port2,
            tc_coturn_secret := Some secret, tc_region2_secret := Some (env_get v ''COTURN_REGION2_SHARED_SECRET'' secret),
            tc_credential_ttl := Some ttl\<rparr>))))))"

definition staging_settings :: "environ \<Rightarrow> setting_error + base_settings \<times> turn_settings" where
  "staging_settings v = bindE (load_base v) (\<lambda>b. bindE (staging_turn v) (\<lambda>t.
     Inr (b\<lparr>bs_debug := False, bs_allowed_hosts := env_list v ''DJANGO_ALLOWED_HOSTS'' [], bs_session_cookie_secure := True\<rparr>, t)))"

section \<open>Health\<close>

text \<open>Whether a cursor opens, and what the cache gives back after the \<open>set\<close>, \<open>None\<close> if either call raises.\<close>

definition check_database :: "bool \<Rightarrow> bool" where
  "check_database cursor_opens = cursor_opens"

definition check_redis :: "json option \<Rightarrow> bool" where
  "check_redis got = (got = Some (JStr ''pong''))"

definition health_check :: "bool \<Rightarrow> json option \<Rightarrow> int \<times> pydict" where
  "health_check cursor_opens got =
     (let db_status = check_database cursor_opens; redis_status = check_redis got; overall_healthy = db_status \<and> redis_status
      in (if overall_healthy then 200 else 503,
          [(''status'', JStr (if overall_healthy then ''healthy'' else ''unhealthy'')),
           (''database'', JStr (if db_status then ''up'' else ''down'')), (''redis'', JStr (if redis_status then ''up'' else ''down''))]))"

section \<open>Path metrics\<close>

text \<open>A count and its share, in tenths of a percent as \<open>.1f\<close> prints it.\<close>

definition path_share :: "nat \<Rightarrow> nat \<Rightarrow> nat \<times> int" where
  "path_share n all_count = (n, if 0 < all_count then round_even (10 * fl64 (fl64 (of_nat n / of_nat all_count) * 100)) else 0)"

definition aggregate_path_metrics :: "db \<Rightarrow> (nat \<times> int) \<times> (nat \<times> int)" where
  "aggregate_path_metrics d =
     (let direct_count = length (filter (\<lambda>p. pr_path_type p = PT_Direct) (db_pairs d));
          turn_count = length (filter (\<lambda>p. pr_path_type p = PT_Turn) (db_pairs d));
          all_count = direct_count + turn_count
      in (path_share direct_count all_count, path_share turn_count all_count))"

end
