(* ===== verification/Deployment_Props.thy ===== *)
theory Deployment_Props
  imports Deployment Views_Props
begin

text \<open>
  Which secrets sign the relay logins of a deployment, what an empty environment gives, lists of the
  environment, and the health check.
\<close>

section \<open>Settings\<close>

text \<open>With nothing but the required variables, the settings are the defaults the consumer itself falls back to.\<close>

definition required_only :: environ where
  "required_only = [''DJANGO_SECRET_KEY'' \<mapsto> ''k'', ''POSTGRES_DB'' \<mapsto> ''d'', ''POSTGRES_USER'' \<mapsto> ''u'', ''POSTGRES_PASSWORD'' \<mapsto> ''p'']"

lemma required_base: "\<exists>b. load_base required_only = Inr b \<and> consumer_settings fr b = default_settings fr \<and>
    resolve_escalation_timeout_ms None (Some (bs_escalation_timeout b)) = default_escalation_timeout_ms"
  by (simp add: load_base_def database_of_def mail_of_def env_value_def env_int_def required_only_def consumer_settings_def
      default_settings_def participant_session_age_def resolve_escalation_timeout_ms_def)

lemma base_needs_variables:
  assumes "load_base v = Inr b"
  shows "v ''DJANGO_SECRET_KEY'' \<noteq> None \<and> v ''POSTGRES_DB'' \<noteq> None \<and> v ''POSTGRES_USER'' \<noteq> None \<and> v ''POSTGRES_PASSWORD'' \<noteq> None"
  using assms by (auto simp: load_base_def database_of_def env_value_def bindE_Inr_iff split: option.splits)

text \<open>A list written with commas is read back.\<close>

lemma split_commas_append: "CHR '','' \<notin> set item \<Longrightarrow> split_commas (item @ CHR '','' # s) = item # split_commas s"
  by (induction item) auto

lemma split_commas_last: "CHR '','' \<notin> set item \<Longrightarrow> split_commas item = [item]"
  by (induction item) auto

fun joined :: "string list \<Rightarrow> string" where
  "joined [] = []"
| "joined [x] = x"
| "joined (x # xs) = x @ CHR '','' # joined xs"

lemma split_joined: "items \<noteq> [] \<Longrightarrow> \<forall>item \<in> set items. CHR '','' \<notin> set item \<Longrightarrow> split_commas (joined items) = items"
  by (induction items rule: joined.induct) (simp_all add: split_commas_append split_commas_last)

lemma env_list_reads_back:
  assumes "v name = Some (joined items)" and items: "\<forall>item \<in> set items. CHR '','' \<notin> set item \<and> item \<noteq> [] \<and> py_strip item = item"
  shows "env_list v name d = items"
proof (cases "items = []")
  case True
  then show ?thesis using assms(1) by (simp add: env_list_def env_get_def py_strip_def strip_by_Nil_iff)
next
  case False
  then have "split_commas (joined items) = items" using items by (intro split_joined) simp_all
  moreover have "filter (\<lambda>item. py_strip item \<noteq> []) items = items" using items by (intro filter_True) simp
  moreover have "map py_strip items = items" using items by (intro map_idI) simp
  ultimately show ?thesis using assms(1) by (simp add: env_list_def env_get_def)
qed

section \<open>Relays\<close>

lemma production_turn_values:
  assumes "production_turn v = Inr c"
  shows "tc_coturn_secret c = Some (env_get v ''COTURN_SHARED_SECRET'' [])" "tc_turn_secret c = None" "tc_turn_urls c = None"
    "tc_region2_secret c = Some (env_get v ''COTURN_REGION2_SHARED_SECRET'' [])"
    "setting (tc_region2_domain c) [] = env_get v ''COTURN_REGION2_DOMAIN'' []"
  using assms by (auto simp: production_turn_def bindE_Inr_iff no_turn_settings_def setting_def Let_def)

lemma env_get_set: "env_get v name [] \<noteq> [] \<Longrightarrow> v name = Some (env_get v name [])"
  by (auto simp: env_get_def split: option.splits)

lemma credential_logins:
  assumes "s \<in> set (ic_servers (generate_credentials t now who ttl))" "is_login s = Some login"
  shows "snd login = hmac_b64 (ts_shared_secret t) (fst login) \<or>
    ts_region2_domain t \<noteq> [] \<and> snd login = hmac_b64 (ts_region2_shared_secret t) (fst login)"
  using assms region_logins(1) by (fastforce simp: generate_credentials_def Let_def split: if_splits)

text \<open>
  C35. A production deployment signs relay logins only with secrets its environment holds: without a shared
  secret the reply is STUN only, otherwise it names a relay of the first region, and of the second exactly
  when the environment names its domain, and every login is the keyed hash under a non-empty value of
  \<open>COTURN_SHARED_SECRET\<close> or \<open>COTURN_REGION2_SHARED_SECRET\<close>. Debugging is off and session cookies are secure.
\<close>

theorem production_signs_with_own_secret:
  assumes load: "production_settings v = Inr (b, c)"
  shows "\<not> bs_debug b \<and> bs_session_cookie_secure b \<and>
    (\<exists>config. generate_ice_servers c now who ttl None None = Inr config \<and>
       (ic_fallback_only config \<longleftrightarrow> env_get v ''COTURN_SHARED_SECRET'' [] = []) \<and>
       length (ic_servers config) = (if env_get v ''COTURN_SHARED_SECRET'' [] = [] then 1
         else if env_get v ''COTURN_REGION2_DOMAIN'' [] = [] then 3 else 6) \<and>
       (\<forall>s \<in> set (ic_servers config). \<forall>login. is_login s = Some login \<longrightarrow>
          (\<exists>name \<in> {''COTURN_SHARED_SECRET'', ''COTURN_REGION2_SHARED_SECRET''}. \<exists>secret.
             v name = Some secret \<and> secret \<noteq> [] \<and> snd login = hmac_b64 secret (fst login))))"
proof -
  let ?s = "env_get v ''COTURN_SHARED_SECRET'' []" and ?s2 = "env_get v ''COTURN_REGION2_SHARED_SECRET'' []"
  have b: "\<not> bs_debug b \<and> bs_session_cookie_secure b" and turn: "production_turn v = Inr c"
    using load by (auto simp: production_settings_def bindE_Inr_iff)
  note c = production_turn_values[OF turn]
  show ?thesis
  proof (cases "?s = []")
    case True
    then show ?thesis using b c by (simp add: generate_ice_servers_def text_or_def setting_def stun_entry_def)
  next
    case False
    then obtain t where t: "new_turn_service c ttl = Inr t" "ts_shared_secret t = ?s" "ts_region2_domain t = env_get v ''COTURN_REGION2_DOMAIN'' []"
      "ts_region2_shared_secret t = (if ?s2 = [] then ?s else ?s2)"
      using c by (auto simp: new_turn_service_def text_or_def setting_def Let_def)
    have gen: "generate_ice_servers c now who ttl None None = Inr (generate_credentials t now who ttl)"
      using False c t(1) by (simp add: generate_ice_servers_def text_or_def setting_def)
    have "length (ic_servers (generate_credentials t now who ttl)) = (if env_get v ''COTURN_REGION2_DOMAIN'' [] = [] then 3 else 6)"
      using t(3) by (simp add: generate_credentials_def region_entries_def Let_def)
    moreover have "\<exists>name \<in> {''COTURN_SHARED_SECRET'', ''COTURN_REGION2_SHARED_SECRET''}. \<exists>secret.
        v name = Some secret \<and> secret \<noteq> [] \<and> snd login = hmac_b64 secret (fst login)"
      if "s \<in> set (ic_servers (generate_credentials t now who ttl))" "is_login s = Some login" for s login
      using credential_logins[OF that] t(2,4) False env_get_set[of v "''COTURN_SHARED_SECRET''"] env_get_set[of v "''COTURN_REGION2_SHARED_SECRET''"]
      by (cases "?s2 = []") auto
    moreover have "\<not> ic_fallback_only (generate_credentials t now who ttl)" by (simp add: generate_credentials_def Let_def)
    ultimately show ?thesis using b gen False by (intro conjI exI[of _ "generate_credentials t now who ttl"] ballI allI impI) (simp_all only: if_False simp_thms)
  qed
qed

definition production_environ :: environ where
  "production_environ = required_only(''COTURN_SHARED_SECRET'' \<mapsto> ''s3cret'', ''COTURN_REGION2_DOMAIN'' \<mapsto> ''turn2.example.com'')"

lemma production_signs_with_own_secret_witness:
  "\<exists>b c config. production_settings production_environ = Inr (b, c) \<and>
     generate_ice_servers c 0 ''u'' (Some 60) None None = Inr config \<and> length (ic_servers config) = 6"
proof -
  obtain b c where load: "production_settings production_environ = Inr (b, c)"
    by (simp add: production_settings_def production_turn_def load_base_def database_of_def mail_of_def env_value_def env_int_def
        production_environ_def required_only_def)
  from production_signs_with_own_secret[OF load, of 0 "''u''" "Some 60"] load show ?thesis
    by (auto simp: env_get_def production_environ_def)
qed

text \<open>Staging without a secret in its environment signs with the one written in the repository: anybody can make logins its relays accept.\<close>

lemma staging_signs_with_committed_secret:
  assumes "staging_settings v = Inr (b, c)" "v ''COTURN_SHARED_SECRET'' = None" "0 \<le> e" "e < 10 ^ 20" "clock \<le> e"
  shows "relay_accepts (setting (tc_coturn_secret c) []) clock (turn_username e who, hmac_b64 staging_secret (turn_username e who))"
proof -
  have "tc_coturn_secret c = Some staging_secret"
    using assms(1,2) by (auto simp: staging_settings_def staging_turn_def bindE_Inr_iff Let_def env_get_def)
  then show ?thesis using relay_accepts_entry[OF assms(3,4), of staging_secret clock who] assms(5) by (simp add: setting_def)
qed

text \<open>A local deployment names no relay at all.\<close>

lemma local_is_stun_only:
  assumes "local_settings v = Inr (b, c)"
  shows "\<exists>config. generate_ice_servers c now who ttl None None = Inr config \<and> ic_fallback_only config"
  using assms by (auto simp: local_settings_def bindE_Inr_iff no_turn_settings_def generate_ice_servers_def text_or_def setting_def)

section \<open>Health and path metrics\<close>

lemma health_status: "fst (health_check up got) = 200 \<longleftrightarrow> up \<and> got = Some (JStr ''pong'')"
  by (simp add: health_check_def check_database_def check_redis_def Let_def)

lemma path_counts_add_up:
  "fst (fst (aggregate_path_metrics d)) + fst (snd (aggregate_path_metrics d)) = length (db_pairs d)"
proof -
  have turn: "t = PT_Turn \<longleftrightarrow> t \<noteq> PT_Direct" for t by (cases t) simp_all
  show ?thesis
    using sum_length_filter_compl[of "\<lambda>p. pr_path_type p = PT_Direct" "db_pairs d"] by (simp add: aggregate_path_metrics_def path_share_def Let_def turn)
qed

end
