(* ===== verification/Schema.thy ===== *)
theory Schema
  imports Py_Text "HOL-Library.AList"
begin

text \<open>
  The migrations of \<open>apps/events/migrations\<close> and \<open>apps/registration/migrations\<close>, each a list of operations on the
  state of the tables, the order in which they may run, and the tables the models declare. Labels, help
  texts and verbose names are left out, and so are the rows that data steps rewrite (\<open>populate_pair_events\<close> and
  the trigger are in \<open>Pair_Table\<close>) and the dependency on the user model, which is another application's.
\<close>

section \<open>Tables\<close>

datatype on_delete = Cascade | SetNull

text \<open>A relation carries the other model, what its deletion does, and the name of the reverse relation.\<close>

datatype field_kind =
    UUIDField | BigAutoField | CharField nat | EmailField nat | TextField | IntegerField | PositiveIntegerField
  | PositiveSmallIntegerField | BooleanField | DurationField | DateTimeField | JSONField | GenericIPAddressField
  | ForeignKey string on_delete string | OneToOneField string on_delete string | ManyToManyField string string string

datatype field_default = NoDefault | DStr string | DInt int | DBool bool | DCall string | AutoNowAdd | AutoNow

record field_spec =
  fs_kind :: field_kind
  fs_primary :: bool
  fs_null :: bool
  fs_blank :: bool
  fs_unique :: bool
  fs_index :: bool
  fs_default :: field_default
  fs_choices :: "string list"
  fs_min :: "int option"

definition plain :: "field_kind \<Rightarrow> field_spec" where
  "plain k = \<lparr>fs_kind = k, fs_primary = False, fs_null = False, fs_blank = False, fs_unique = False, fs_index = False,
     fs_default = NoDefault, fs_choices = [], fs_min = None\<rparr>"

datatype table_constraint = UniqueTogether "string list" | CheckLt string string | CheckGt string string | CheckNot string string

text \<open>An index of a model has no name of its own; a migration names it.\<close>

record table =
  tb_fields :: "(string \<times> field_spec) list"
  tb_constraints :: "(string \<times> table_constraint) list"
  tb_indexes :: "(string \<times> string list) list"
  tb_ordering :: "string list"

type_synonym schema = "(string \<times> table) list"

section \<open>Operations\<close>

datatype migration_op =
    CreateModel string "(string \<times> field_spec) list" "(string \<times> string list) list" "string list"
  | AddField string string field_spec
  | AlterField string string field_spec
  | AddConstraint string string table_constraint
  | RemoveConstraint string string
  | AddIndex string string "string list"
  | RenameIndex string string string
  | RunPython
  | RunSQL

fun op_model :: "migration_op \<Rightarrow> string option" where
  "op_model (CreateModel m _ _ _) = Some (py_lower m)"
| "op_model (AddField m _ _) = Some (py_lower m)"
| "op_model (AlterField m _ _) = Some (py_lower m)"
| "op_model (AddConstraint m _ _) = Some (py_lower m)"
| "op_model (RemoveConstraint m _) = Some (py_lower m)"
| "op_model (AddIndex m _ _) = Some (py_lower m)"
| "op_model (RenameIndex m _ _) = Some (py_lower m)"
| "op_model RunPython = None"
| "op_model RunSQL = None"

definition known :: "string \<Rightarrow> (string \<times> 'a) list \<Rightarrow> bool" where
  "known k xs = list_ex (\<lambda>(j, _). j = k) xs"

text \<open>The table after the operation; \<open>None\<close> is a name that is missing, or taken.\<close>

fun edit_table :: "migration_op \<Rightarrow> table option \<Rightarrow> table option" where
  "edit_table (CreateModel _ fs ixs order_by) None =
     Some \<lparr>tb_fields = fs, tb_constraints = [], tb_indexes = ixs, tb_ordering = order_by\<rparr>"
| "edit_table (AddField _ f spec) (Some t) =
     (if known f (tb_fields t) then None else Some (t\<lparr>tb_fields := tb_fields t @ [(f, spec)]\<rparr>))"
| "edit_table (AlterField _ f spec) (Some t) =
     (if known f (tb_fields t) then Some (t\<lparr>tb_fields := map (\<lambda>(k, s). (k, if k = f then spec else s)) (tb_fields t)\<rparr>) else None)"
| "edit_table (AddConstraint _ n c) (Some t) =
     (if known n (tb_constraints t) then None else Some (t\<lparr>tb_constraints := tb_constraints t @ [(n, c)]\<rparr>))"
| "edit_table (RemoveConstraint _ n) (Some t) =
     (if known n (tb_constraints t) then Some (t\<lparr>tb_constraints := filter (\<lambda>(k, _). k \<noteq> n) (tb_constraints t)\<rparr>) else None)"
| "edit_table (AddIndex _ n columns) (Some t) =
     (if known n (tb_indexes t) then None else Some (t\<lparr>tb_indexes := tb_indexes t @ [(n, columns)]\<rparr>))"
| "edit_table (RenameIndex _ n n') (Some t) =
     (if known n (tb_indexes t) \<and> \<not> known n' (tb_indexes t)
      then Some (t\<lparr>tb_indexes := map (\<lambda>(k, columns). (if k = n then n' else k, columns)) (tb_indexes t)\<rparr>) else None)"
| "edit_table _ _ = None"

definition apply_op :: "string \<Rightarrow> migration_op \<Rightarrow> schema \<Rightarrow> schema option" where
  "apply_op app op s =
     (case op_model op of
        None \<Rightarrow> Some s
      | Some m \<Rightarrow> map_option (\<lambda>t. AList.update (app @ ''.'' @ m) t s) (edit_table op (map_of s (app @ ''.'' @ m))))"

record migration =
  mg_app :: string
  mg_name :: string
  mg_depends :: "(string \<times> string) list"
  mg_operations :: "migration_op list"

definition migration_id :: "migration \<Rightarrow> string \<times> string" where
  "migration_id mg = (mg_app mg, mg_name mg)"

fun run_ops :: "string \<Rightarrow> migration_op list \<Rightarrow> schema \<Rightarrow> schema option" where
  "run_ops app [] s = Some s"
| "run_ops app (op # ops) s = Option.bind (apply_op app op s) (run_ops app ops)"

definition apply_migration :: "migration \<Rightarrow> schema \<Rightarrow> schema option" where
  "apply_migration mg = run_ops (mg_app mg) (mg_operations mg)"

fun migrate :: "migration list \<Rightarrow> schema \<Rightarrow> schema option" where
  "migrate [] s = Some s"
| "migrate (mg # mgs) s = Option.bind (apply_migration mg s) (migrate mgs)"

text \<open>An order in which every migration comes after those it depends on.\<close>

fun in_order :: "(string \<times> string) list \<Rightarrow> migration list \<Rightarrow> bool" where
  "in_order done_ids [] = True"
| "in_order done_ids (mg # mgs) \<longleftrightarrow> list_all (\<lambda>i. i \<in> set done_ids) (mg_depends mg) \<and> in_order (migration_id mg # done_ids) mgs"

section \<open>The migrations\<close>

definition create_tag :: "migration_op" where
  "create_tag = CreateModel ''Tag''
    [(''id'', (plain UUIDField)\<lparr>fs_default := DCall ''uuid4'', fs_primary := True\<rparr>),
     (''name'', (plain (CharField 80))\<lparr>fs_unique := True\<rparr>),
     (''created_at'', (plain DateTimeField)\<lparr>fs_default := AutoNowAdd\<rparr>)]
    [] [''name'']"

definition create_event :: "migration_op" where
  "create_event = CreateModel ''Event''
    [(''id'', (plain UUIDField)\<lparr>fs_default := DCall ''uuid4'', fs_primary := True\<rparr>),
     (''name'', plain (CharField 200)),
     (''description'', (plain TextField)\<lparr>fs_blank := True\<rparr>),
     (''status'', (plain (CharField 20))\<lparr>fs_choices := [''draft'', ''scheduled'', ''active'', ''completed'', ''cancelled''],
         fs_default := DStr ''draft''\<rparr>),
     (''num_rounds'', (plain PositiveSmallIntegerField)\<lparr>fs_min := Some 1\<rparr>),
     (''round_duration'', (plain DurationField)\<lparr>fs_min := Some 1000000\<rparr>),
     (''break_duration'', (plain DurationField)\<lparr>fs_min := Some 0\<rparr>),
     (''start_time'', plain DateTimeField),
     (''created_at'', (plain DateTimeField)\<lparr>fs_default := AutoNowAdd\<rparr>),
     (''updated_at'', (plain DateTimeField)\<lparr>fs_default := AutoNow\<rparr>)]
    [(''events_even_status_189ced_idx'', [''status'', ''start_time''])] [''-start_time'']"

definition create_participant :: "migration_op" where
  "create_participant = CreateModel ''Participant''
    [(''id'', (plain UUIDField)\<lparr>fs_default := DCall ''uuid4'', fs_primary := True\<rparr>),
     (''display_name'', plain (CharField 200)),
     (''email'', (plain (EmailField 254))\<lparr>fs_blank := True\<rparr>),
     (''status'', (plain (CharField 20))\<lparr>fs_choices := [''waiting'', ''ready'', ''active'', ''disconnected'', ''completed''],
         fs_default := DStr ''waiting''\<rparr>),
     (''join_token_hash'', plain (CharField 256)),
     (''joined_at'', (plain DateTimeField)\<lparr>fs_blank := True, fs_null := True\<rparr>),
     (''created_at'', (plain DateTimeField)\<lparr>fs_default := AutoNowAdd\<rparr>),
     (''updated_at'', (plain DateTimeField)\<lparr>fs_default := AutoNow\<rparr>),
     (''event'', plain (ForeignKey ''events.event'' Cascade ''participants''))]
    [] []"

definition create_round :: "migration_op" where
  "create_round = CreateModel ''Round''
    [(''id'', (plain UUIDField)\<lparr>fs_default := DCall ''uuid4'', fs_primary := True\<rparr>),
     (''number'', (plain PositiveSmallIntegerField)\<lparr>fs_min := Some 1\<rparr>),
     (''status'', (plain (CharField 20))\<lparr>fs_choices := [''scheduled'', ''active'', ''completed'', ''cancelled''],
         fs_default := DStr ''scheduled''\<rparr>),
     (''starts_at'', plain DateTimeField),
     (''ends_at'', plain DateTimeField),
     (''created_at'', (plain DateTimeField)\<lparr>fs_default := AutoNowAdd\<rparr>),
     (''event'', plain (ForeignKey ''events.event'' Cascade ''rounds''))]
    [] [''event'', ''number'']"

definition create_pair :: "migration_op" where
  "create_pair = CreateModel ''Pair''
    [(''id'', (plain UUIDField)\<lparr>fs_default := DCall ''uuid4'', fs_primary := True\<rparr>),
     (''status'', (plain (CharField 20))\<lparr>fs_choices := [''pending'', ''active'', ''completed'', ''cancelled''],
         fs_default := DStr ''pending''\<rparr>),
     (''room_id'', (plain (CharField 100))\<lparr>fs_unique := True\<rparr>),
     (''created_at'', (plain DateTimeField)\<lparr>fs_default := AutoNowAdd\<rparr>),
     (''participant_a'', plain (ForeignKey ''events.participant'' Cascade ''pairs_as_a'')),
     (''participant_b'', plain (ForeignKey ''events.participant'' Cascade ''pairs_as_b'')),
     (''round'', plain (ForeignKey ''events.round'' Cascade ''pairs''))]
    [] []"

definition create_participanttag :: "migration_op" where
  "create_participanttag = CreateModel ''ParticipantTag''
    [(''id'', (plain BigAutoField)\<lparr>fs_primary := True\<rparr>),
     (''created_at'', (plain DateTimeField)\<lparr>fs_default := AutoNowAdd\<rparr>),
     (''participant'', plain (ForeignKey ''events.participant'' Cascade ''participant_tags'')),
     (''tag'', plain (ForeignKey ''events.tag'' Cascade ''participant_tags''))]
    [] []"

definition events_0001 :: "migration" where
  "events_0001 = \<lparr>mg_app = ''events'', mg_name = ''0001_initial'',
     mg_depends = [],
     mg_operations =
      [create_tag,
       create_event,
       create_participant,
       create_round,
       create_pair,
       create_participanttag,
       AddField ''participant'' ''tags'' (plain (ManyToManyField ''events.tag'' ''events.participanttag'' ''participants'')),
       AddIndex ''round'' ''events_roun_event_i_43c9e4_idx'' [''event'', ''status''],
       AddIndex ''round'' ''events_roun_event_i_d5470e_idx'' [''event'', ''starts_at''],
       AddConstraint ''round'' ''uniq_round_number_per_event'' (UniqueTogether [''event'', ''number'']),
       AddConstraint ''round'' ''round_ends_after_start'' (CheckGt ''ends_at'' ''starts_at''),
       AddIndex ''pair'' ''events_pair_round_i_dbaae2_idx'' [''round'', ''status''],
       AddIndex ''pair'' ''events_pair_partici_d42801_idx'' [''participant_a'', ''round''],
       AddIndex ''pair'' ''events_pair_partici_23b89c_idx'' [''participant_b'', ''round''],
       AddConstraint ''pair'' ''pair_participants_are_ordered_and_distinct'' (CheckLt ''participant_a'' ''participant_b''),
       AddConstraint ''pair'' ''uniq_pair_per_round'' (UniqueTogether [''round'', ''participant_a'', ''participant_b'']),
       AddIndex ''participanttag'' ''events_part_tag_id_9b40c5_idx'' [''tag'', ''participant''],
       AddConstraint ''participanttag'' ''uniq_participant_tag'' (UniqueTogether [''participant'', ''tag'']),
       AddIndex ''participant'' ''events_part_event_i_b8180a_idx'' [''event'', ''status''],
       AddIndex ''participant'' ''events_part_event_i_1035f7_idx'' [''event'', ''created_at''],
       AddConstraint ''participant'' ''uniq_participant_name_per_event'' (UniqueTogether [''event'', ''display_name''])]\<rparr>"

definition events_0002 :: "migration" where
  "events_0002 = \<lparr>mg_app = ''events'', mg_name = ''0002_remove_pair_pair_participants_are_ordered_and_distinct_and_more'',
     mg_depends = [(''events'', ''0001_initial'')],
     mg_operations =
      [RemoveConstraint ''pair'' ''pair_participants_are_ordered_and_distinct'',
       AddConstraint ''pair'' ''pair_participants_are_distinct'' (CheckNot ''participant_a'' ''participant_b'')]\<rparr>"

definition events_0003 :: "migration" where
  "events_0003 = \<lparr>mg_app = ''events'', mg_name = ''0003_pair_no_repeat_partner_constraints'',
     mg_depends = [(''events'', ''0002_remove_pair_pair_participants_are_ordered_and_distinct_and_more'')],
     mg_operations =
      [AddField ''pair'' ''event'' ((plain (ForeignKey ''events.event'' Cascade ''pairs''))\<lparr>fs_null := True\<rparr>),
       RunPython,
       AlterField ''pair'' ''event'' (plain (ForeignKey ''events.event'' Cascade ''pairs'')),
       RemoveConstraint ''pair'' ''pair_participants_are_distinct'',
       RemoveConstraint ''pair'' ''uniq_pair_per_round'',
       AddConstraint ''pair'' ''pair_participants_are_ordered'' (CheckLt ''participant_a'' ''participant_b''),
       AddConstraint ''pair'' ''uniq_pair_per_event'' (UniqueTogether [''event'', ''participant_a'', ''participant_b'']),
       AddConstraint ''pair'' ''uniq_pair_participant_a_per_round'' (UniqueTogether [''round'', ''participant_a'']),
       AddConstraint ''pair'' ''uniq_pair_participant_b_per_round'' (UniqueTogether [''round'', ''participant_b'']),
       RunSQL]\<rparr>"

definition events_0004 :: "migration" where
  "events_0004 = \<lparr>mg_app = ''events'', mg_name = ''0004_participant_join_token_metadata'',
     mg_depends = [(''events'', ''0003_pair_no_repeat_partner_constraints'')],
     mg_operations =
      [AddField ''participant'' ''join_token_digest'' ((plain (CharField 64))\<lparr>fs_blank := True, fs_default := DStr [],
         fs_index := True\<rparr>),
       AddField ''participant'' ''join_token_expires_at'' ((plain DateTimeField)\<lparr>fs_blank := True, fs_null := True\<rparr>)]\<rparr>"

definition events_0005 :: "migration" where
  "events_0005 = \<lparr>mg_app = ''events'', mg_name = ''0005_event_scoring_weights'',
     mg_depends = [(''events'', ''0004_participant_join_token_metadata'')],
     mg_operations =
      [AddField ''event'' ''scoring_weights'' ((plain JSONField)\<lparr>fs_default := DCall ''0005._default_scoring_weights''\<rparr>)]\<rparr>"

definition events_0006 :: "migration" where
  "events_0006 = \<lparr>mg_app = ''events'', mg_name = ''0006_alter_event_scoring_weights'',
     mg_depends = [(''events'', ''0005_event_scoring_weights'')],
     mg_operations =
      [AlterField ''event'' ''scoring_weights'' ((plain JSONField)\<lparr>fs_default := DCall ''models._default_scoring_weights''\<rparr>)]\<rparr>"

definition create_leaderlease :: "migration_op" where
  "create_leaderlease = CreateModel ''LeaderLease''
    [(''id'', (plain BigAutoField)\<lparr>fs_primary := True\<rparr>),
     (''lease_name'', (plain (CharField 255))\<lparr>fs_unique := True\<rparr>),
     (''leader_id'', plain (CharField 255)),
     (''acquired_at'', plain DateTimeField),
     (''expires_at'', plain DateTimeField),
     (''version'', (plain PositiveIntegerField)\<lparr>fs_default := DInt 1\<rparr>)]
    [(''events_lead_lease_n_expires_idx'', [''lease_name'', ''expires_at''])] []"

definition create_eventtransitionlog :: "migration_op" where
  "create_eventtransitionlog = CreateModel ''EventTransitionLog''
    [(''id'', (plain BigAutoField)\<lparr>fs_primary := True\<rparr>),
     (''event'', plain (ForeignKey ''events.event'' Cascade ''transition_logs'')),
     (''from_status'', plain (CharField 30)),
     (''to_status'', plain (CharField 30)),
     (''transitioned_at'', (plain DateTimeField)\<lparr>fs_default := AutoNowAdd\<rparr>),
     (''leader_id'', plain (CharField 255)),
     (''details'', (plain JSONField)\<lparr>fs_blank := True, fs_default := DCall ''dict''\<rparr>),
     (''is_complete'', (plain BooleanField)\<lparr>fs_default := DBool False\<rparr>)]
    [(''events_tlog_event_ts_idx'', [''event'', ''transitioned_at'']), (''events_tlog_complete_idx'', [''is_complete''])] [''transitioned_at'']"

definition events_0007_states :: "migration" where
  "events_0007_states = \<lparr>mg_app = ''events'', mg_name = ''0007_event_state_machine'',
     mg_depends = [(''events'', ''0006_alter_event_scoring_weights'')],
     mg_operations =
      [create_leaderlease,
       create_eventtransitionlog,
       AlterField ''event'' ''status'' ((plain (CharField 20))\<lparr>fs_choices := [''draft'', ''scheduled'', ''active'', ''completed'',
         ''cancelled'', ''registration_open'', ''locked'', ''running'', ''paused''], fs_default := DStr ''draft''\<rparr>)]\<rparr>"

definition events_0007_operator :: "migration" where
  "events_0007_operator = \<lparr>mg_app = ''events'', mg_name = ''0007_operatoractionlog'',
     mg_depends = [(''events'', ''0006_alter_event_scoring_weights'')],
     mg_operations =
      [CreateModel ''OperatorActionLog''
    [(''id'', (plain UUIDField)\<lparr>fs_default := DCall ''uuid4'', fs_primary := True\<rparr>),
     (''action'', (plain (CharField 16))\<lparr>fs_choices := [''pause'', ''resume'', ''extend'']\<rparr>),
     (''details'', (plain JSONField)\<lparr>fs_blank := True, fs_default := DCall ''dict''\<rparr>),
     (''performed_at'', (plain DateTimeField)\<lparr>fs_default := DCall ''now''\<rparr>),
     (''event'', plain (ForeignKey ''events.event'' Cascade ''operator_logs'')),
     (''round'', (plain (ForeignKey ''events.round'' SetNull ''operator_logs''))\<lparr>fs_blank := True, fs_null := True\<rparr>)]
    [] [''-performed_at'']]\<rparr>"

definition events_0008 :: "migration" where
  "events_0008 = \<lparr>mg_app = ''events'', mg_name = ''0008_rename_events_tlog_event_ts_idx_events_even_event_i_bf42a7_idx_and_more'',
     mg_depends = [(''events'', ''0007_event_state_machine'')],
     mg_operations =
      [RenameIndex ''eventtransitionlog'' ''events_tlog_event_ts_idx'' ''events_even_event_i_bf42a7_idx'',
       RenameIndex ''eventtransitionlog'' ''events_tlog_complete_idx'' ''events_even_is_comp_b94c2c_idx'',
       RenameIndex ''leaderlease'' ''events_lead_lease_n_expires_idx'' ''events_lead_lease_n_5ba517_idx'']\<rparr>"

definition events_0009 :: "migration" where
  "events_0009 = \<lparr>mg_app = ''events'', mg_name = ''0009_merge_state_machine_and_operatoractionlog'',
     mg_depends = [(''events'', ''0008_rename_events_tlog_event_ts_idx_events_even_event_i_bf42a7_idx_and_more''), (''events'',
         ''0007_operatoractionlog'')],
     mg_operations =
      []\<rparr>"

definition events_0010 :: "migration" where
  "events_0010 = \<lparr>mg_app = ''events'', mg_name = ''0010_pair_connection_time_ms_a_pair_connection_time_ms_b_and_more'',
     mg_depends = [(''events'', ''0009_merge_state_machine_and_operatoractionlog'')],
     mg_operations =
      [AddField ''pair'' ''connection_time_ms_a'' ((plain PositiveIntegerField)\<lparr>fs_blank := True, fs_null := True\<rparr>),
       AddField ''pair'' ''connection_time_ms_b'' ((plain PositiveIntegerField)\<lparr>fs_blank := True, fs_null := True\<rparr>),
       AddField ''pair'' ''connection_type_a'' ((plain (CharField 10))\<lparr>fs_blank := True, fs_choices := [''direct'', ''relay''],
         fs_null := True\<rparr>),
       AddField ''pair'' ''connection_type_b'' ((plain (CharField 10))\<lparr>fs_blank := True, fs_choices := [''direct'', ''relay''],
         fs_null := True\<rparr>),
       AlterField ''operatoractionlog'' ''action'' ((plain (CharField 16))\<lparr>fs_choices := [''pause'', ''resume'', ''extend'',
         ''recalculate'']\<rparr>)]\<rparr>"

definition create_participantincidentnote :: "migration_op" where
  "create_participantincidentnote = CreateModel ''ParticipantIncidentNote''
    [(''id'', (plain UUIDField)\<lparr>fs_default := DCall ''uuid4'', fs_primary := True\<rparr>),
     (''note'', plain TextField),
     (''created_at'', (plain DateTimeField)\<lparr>fs_default := AutoNowAdd, fs_index := True\<rparr>),
     (''event'', plain (ForeignKey ''events.event'' Cascade ''incident_notes'')),
     (''operator'', (plain (ForeignKey ''settings.AUTH_USER_MODEL'' SetNull ''operator_incident_notes''))\<lparr>fs_blank := True,
         fs_null := True\<rparr>),
     (''participant'', plain (ForeignKey ''events.participant'' Cascade ''incident_notes''))]
    [] [''-created_at'']"

definition create_disconnectionlog :: "migration_op" where
  "create_disconnectionlog = CreateModel ''DisconnectionLog''
    [(''id'', (plain UUIDField)\<lparr>fs_default := DCall ''uuid4'', fs_primary := True\<rparr>),
     (''cause'', (plain (CharField 32))\<lparr>fs_choices := [''network'', ''tab_closed'', ''permission_denied''], fs_default := DStr ''network'',
         fs_index := True\<rparr>),
     (''detail'', (plain TextField)\<lparr>fs_blank := True, fs_default := DStr []\<rparr>),
     (''disconnected_at'', (plain DateTimeField)\<lparr>fs_default := DCall ''now'', fs_index := True\<rparr>),
     (''reconnected_at'', (plain DateTimeField)\<lparr>fs_blank := True, fs_null := True\<rparr>),
     (''event'', plain (ForeignKey ''events.event'' Cascade ''disconnection_logs'')),
     (''participant'', plain (ForeignKey ''events.participant'' Cascade ''disconnection_logs'')),
     (''round'', (plain (ForeignKey ''events.round'' SetNull ''disconnection_logs''))\<lparr>fs_blank := True, fs_null := True\<rparr>)]
    [(''events_disc_event_i_daa6b4_idx'', [''event'', ''disconnected_at'']), (''events_disc_partici_fb7e4b_idx'', [''participant'',
         ''disconnected_at''])] [''-disconnected_at'']"

definition events_0011 :: "migration" where
  "events_0011 = \<lparr>mg_app = ''events'', mg_name = ''0011_participantincidentnote_disconnectionlog'',
     mg_depends = [(''events'', ''0010_pair_connection_time_ms_a_pair_connection_time_ms_b_and_more'')],
     mg_operations =
      [create_participantincidentnote,
       create_disconnectionlog]\<rparr>"

definition events_0012_tags :: "migration" where
  "events_0012_tags = \<lparr>mg_app = ''events'', mg_name = ''0012_event_unique_tags'',
     mg_depends = [(''events'', ''0011_participantincidentnote_disconnectionlog'')],
     mg_operations =
      [AddField ''event'' ''unique_tags'' ((plain BooleanField)\<lparr>fs_default := DBool False\<rparr>)]\<rparr>"

definition events_0012_path :: "migration" where
  "events_0012_path = \<lparr>mg_app = ''events'', mg_name = ''0012_pair_path_type'',
     mg_depends = [(''events'', ''0011_participantincidentnote_disconnectionlog'')],
     mg_operations =
      [AddField ''pair'' ''path_type'' ((plain (CharField 10))\<lparr>fs_choices := [''direct'', ''turn''],
         fs_default := DStr ''direct''\<rparr>)]\<rparr>"

definition events_0013 :: "migration" where
  "events_0013 = \<lparr>mg_app = ''events'', mg_name = ''0013_merge_unique_tags_and_pair_path_type'',
     mg_depends = [(''events'', ''0012_event_unique_tags''), (''events'', ''0012_pair_path_type'')],
     mg_operations =
      []\<rparr>"

definition events_0014 :: "migration" where
  "events_0014 = \<lparr>mg_app = ''events'', mg_name = ''0014_participant_age_participant_gender_and_more'',
     mg_depends = [(''events'', ''0013_merge_unique_tags_and_pair_path_type'')],
     mg_operations =
      [AddField ''participant'' ''age'' ((plain IntegerField)\<lparr>fs_blank := True, fs_null := True\<rparr>),
       AddField ''participant'' ''gender'' ((plain (CharField 50))\<lparr>fs_default := DStr ''Other/Prefer Not to Say''\<rparr>),
       AddField ''participant'' ''want_to_date'' ((plain (CharField 50))\<lparr>fs_default := DStr ''Any''\<rparr>),
       AddField ''participant'' ''whatsapp'' ((plain (CharField 50))\<lparr>fs_blank := True, fs_null := True\<rparr>),
       AlterField ''disconnectionlog'' ''cause'' ((plain (CharField 32))\<lparr>fs_choices := [''network'', ''tab_closed'', ''permission_denied''],
         fs_default := DStr ''network'', fs_index := True\<rparr>)]\<rparr>"

definition create_termsacceptance :: "migration_op" where
  "create_termsacceptance = CreateModel ''TermsAcceptance''
    [(''id'', (plain BigAutoField)\<lparr>fs_primary := True\<rparr>),
     (''accepted_at'', (plain DateTimeField)\<lparr>fs_default := AutoNowAdd\<rparr>),
     (''ip_address'', (plain GenericIPAddressField)\<lparr>fs_blank := True, fs_null := True\<rparr>),
     (''participant'', plain (OneToOneField ''events.participant'' Cascade ''terms_acceptance''))]
    [] []"

definition create_emailverificationtoken :: "migration_op" where
  "create_emailverificationtoken = CreateModel ''EmailVerificationToken''
    [(''id'', (plain UUIDField)\<lparr>fs_default := DCall ''uuid4'', fs_primary := True\<rparr>),
     (''token'', (plain (CharField 64))\<lparr>fs_unique := True\<rparr>),
     (''expires_at'', plain DateTimeField),
     (''used_at'', (plain DateTimeField)\<lparr>fs_blank := True, fs_null := True\<rparr>),
     (''created_at'', (plain DateTimeField)\<lparr>fs_default := AutoNowAdd\<rparr>),
     (''participant'', plain (ForeignKey ''events.participant'' Cascade ''verification_tokens''))]
    [(''registratio_token_08c058_idx'', [''token'']), (''registratio_partici_9bf834_idx'', [''participant'', ''used_at''])] []"

definition registration_0001 :: "migration" where
  "registration_0001 = \<lparr>mg_app = ''registration'', mg_name = ''0001_initial'',
     mg_depends = [(''events'', ''0003_pair_no_repeat_partner_constraints'')],
     mg_operations =
      [create_termsacceptance,
       create_emailverificationtoken]\<rparr>"

definition registration_0002 :: "migration" where
  "registration_0002 = \<lparr>mg_app = ''registration'', mg_name = ''0002_devicechecklog'',
     mg_depends = [(''events'', ''0004_participant_join_token_metadata''), (''registration'', ''0001_initial'')],
     mg_operations =
      [CreateModel ''DeviceCheckLog''
    [(''id'', (plain UUIDField)\<lparr>fs_default := DCall ''uuid4'', fs_primary := True\<rparr>),
     (''camera_working'', (plain BooleanField)\<lparr>fs_default := DBool False\<rparr>),
     (''mic_working'', (plain BooleanField)\<lparr>fs_default := DBool False\<rparr>),
     (''error_type'', (plain (CharField 64))\<lparr>fs_blank := True, fs_default := DStr []\<rparr>),
     (''user_agent'', (plain TextField)\<lparr>fs_blank := True, fs_default := DStr []\<rparr>),
     (''is_in_app_browser'', (plain BooleanField)\<lparr>fs_default := DBool False\<rparr>),
     (''ip_address'', (plain GenericIPAddressField)\<lparr>fs_blank := True, fs_null := True\<rparr>),
     (''created_at'', (plain DateTimeField)\<lparr>fs_default := AutoNowAdd\<rparr>),
     (''event'', (plain (ForeignKey ''events.event'' Cascade ''device_check_logs''))\<lparr>fs_blank := True, fs_null := True\<rparr>),
     (''participant'', (plain (ForeignKey ''events.participant'' SetNull ''device_checks''))\<lparr>fs_blank := True, fs_null := True\<rparr>)]
    [] [''-created_at'']]\<rparr>"


definition all_migrations :: "migration list" where
  "all_migrations =
     [events_0001, events_0002, events_0003, events_0004, events_0005, events_0006, events_0007_states, events_0007_operator, events_0008, events_0009,
              events_0010, events_0011, events_0012_tags, events_0012_path, events_0013, events_0014, registration_0001, registration_0002]"

section \<open>The models\<close>

definition model_event :: "table" where
  "model_event = \<lparr>tb_fields =
      [(''id'', (plain UUIDField)\<lparr>fs_default := DCall ''uuid4'', fs_primary := True\<rparr>),
       (''name'', plain (CharField 200)),
       (''description'', (plain TextField)\<lparr>fs_blank := True\<rparr>),
       (''status'', (plain (CharField 20))\<lparr>fs_choices := [''draft'', ''scheduled'', ''active'', ''completed'', ''cancelled'',
         ''registration_open'', ''locked'', ''running'', ''paused''], fs_default := DStr ''draft''\<rparr>),
       (''num_rounds'', (plain PositiveSmallIntegerField)\<lparr>fs_min := Some 1\<rparr>),
       (''round_duration'', (plain DurationField)\<lparr>fs_min := Some 1000000\<rparr>),
       (''break_duration'', (plain DurationField)\<lparr>fs_min := Some 0\<rparr>),
       (''start_time'', plain DateTimeField),
       (''created_at'', (plain DateTimeField)\<lparr>fs_default := AutoNowAdd\<rparr>),
       (''updated_at'', (plain DateTimeField)\<lparr>fs_default := AutoNow\<rparr>),
       (''scoring_weights'', (plain JSONField)\<lparr>fs_default := DCall ''models._default_scoring_weights''\<rparr>),
       (''unique_tags'', (plain BooleanField)\<lparr>fs_default := DBool False\<rparr>)],
     tb_constraints = [],
     tb_indexes = [([], [''status'', ''start_time''])], tb_ordering = [''-start_time'']\<rparr>"

definition model_tag :: "table" where
  "model_tag = \<lparr>tb_fields =
      [(''id'', (plain UUIDField)\<lparr>fs_default := DCall ''uuid4'', fs_primary := True\<rparr>),
       (''name'', (plain (CharField 80))\<lparr>fs_unique := True\<rparr>),
       (''created_at'', (plain DateTimeField)\<lparr>fs_default := AutoNowAdd\<rparr>)],
     tb_constraints = [],
     tb_indexes = [], tb_ordering = [''name'']\<rparr>"

definition model_participant :: "table" where
  "model_participant = \<lparr>tb_fields =
      [(''id'', (plain UUIDField)\<lparr>fs_default := DCall ''uuid4'', fs_primary := True\<rparr>),
       (''age'', (plain IntegerField)\<lparr>fs_blank := True, fs_null := True\<rparr>),
       (''gender'', (plain (CharField 50))\<lparr>fs_default := DStr ''Other/Prefer Not to Say''\<rparr>),
       (''want_to_date'', (plain (CharField 50))\<lparr>fs_default := DStr ''Any''\<rparr>),
       (''whatsapp'', (plain (CharField 50))\<lparr>fs_blank := True, fs_null := True\<rparr>),
       (''event'', plain (ForeignKey ''events.event'' Cascade ''participants'')),
       (''display_name'', plain (CharField 200)),
       (''email'', (plain (EmailField 254))\<lparr>fs_blank := True\<rparr>),
       (''status'', (plain (CharField 20))\<lparr>fs_choices := [''waiting'', ''ready'', ''active'', ''disconnected'', ''completed''],
         fs_default := DStr ''waiting''\<rparr>),
       (''join_token_hash'', plain (CharField 256)),
       (''join_token_digest'', (plain (CharField 64))\<lparr>fs_blank := True, fs_default := DStr [], fs_index := True\<rparr>),
       (''join_token_expires_at'', (plain DateTimeField)\<lparr>fs_blank := True, fs_null := True\<rparr>),
       (''joined_at'', (plain DateTimeField)\<lparr>fs_blank := True, fs_null := True\<rparr>),
       (''created_at'', (plain DateTimeField)\<lparr>fs_default := AutoNowAdd\<rparr>),
       (''updated_at'', (plain DateTimeField)\<lparr>fs_default := AutoNow\<rparr>),
       (''tags'', plain (ManyToManyField ''events.tag'' ''events.participanttag'' ''participants''))],
     tb_constraints = [(''uniq_participant_name_per_event'', UniqueTogether [''event'', ''display_name''])],
     tb_indexes = [([], [''event'', ''status'']), ([], [''event'', ''created_at''])], tb_ordering = []\<rparr>"

definition model_participanttag :: "table" where
  "model_participanttag = \<lparr>tb_fields =
      [(''id'', (plain BigAutoField)\<lparr>fs_primary := True\<rparr>),
       (''participant'', plain (ForeignKey ''events.participant'' Cascade ''participant_tags'')),
       (''tag'', plain (ForeignKey ''events.tag'' Cascade ''participant_tags'')),
       (''created_at'', (plain DateTimeField)\<lparr>fs_default := AutoNowAdd\<rparr>)],
     tb_constraints = [(''uniq_participant_tag'', UniqueTogether [''participant'', ''tag''])],
     tb_indexes = [([], [''tag'', ''participant''])], tb_ordering = []\<rparr>"

definition model_round :: "table" where
  "model_round = \<lparr>tb_fields =
      [(''id'', (plain UUIDField)\<lparr>fs_default := DCall ''uuid4'', fs_primary := True\<rparr>),
       (''event'', plain (ForeignKey ''events.event'' Cascade ''rounds'')),
       (''number'', (plain PositiveSmallIntegerField)\<lparr>fs_min := Some 1\<rparr>),
       (''status'', (plain (CharField 20))\<lparr>fs_choices := [''scheduled'', ''active'', ''completed'', ''cancelled''],
         fs_default := DStr ''scheduled''\<rparr>),
       (''starts_at'', plain DateTimeField),
       (''ends_at'', plain DateTimeField),
       (''created_at'', (plain DateTimeField)\<lparr>fs_default := AutoNowAdd\<rparr>)],
     tb_constraints = [(''uniq_round_number_per_event'', UniqueTogether [''event'', ''number'']),
      (''round_ends_after_start'', CheckGt ''ends_at'' ''starts_at'')],
     tb_indexes = [([], [''event'', ''status'']), ([], [''event'', ''starts_at''])], tb_ordering = [''event'', ''number'']\<rparr>"

definition model_pair :: "table" where
  "model_pair = \<lparr>tb_fields =
      [(''id'', (plain UUIDField)\<lparr>fs_default := DCall ''uuid4'', fs_primary := True\<rparr>),
       (''event'', plain (ForeignKey ''events.event'' Cascade ''pairs'')),
       (''round'', plain (ForeignKey ''events.round'' Cascade ''pairs'')),
       (''participant_a'', plain (ForeignKey ''events.participant'' Cascade ''pairs_as_a'')),
       (''participant_b'', plain (ForeignKey ''events.participant'' Cascade ''pairs_as_b'')),
       (''status'', (plain (CharField 20))\<lparr>fs_choices := [''pending'', ''active'', ''completed'', ''cancelled''],
         fs_default := DStr ''pending''\<rparr>),
       (''room_id'', (plain (CharField 100))\<lparr>fs_unique := True\<rparr>),
       (''created_at'', (plain DateTimeField)\<lparr>fs_default := AutoNowAdd\<rparr>),
       (''path_type'', (plain (CharField 10))\<lparr>fs_choices := [''direct'', ''turn''], fs_default := DStr ''direct''\<rparr>),
       (''connection_type_a'', (plain (CharField 10))\<lparr>fs_blank := True, fs_choices := [''direct'', ''relay''], fs_null := True\<rparr>),
       (''connection_time_ms_a'', (plain PositiveIntegerField)\<lparr>fs_blank := True, fs_null := True\<rparr>),
       (''connection_type_b'', (plain (CharField 10))\<lparr>fs_blank := True, fs_choices := [''direct'', ''relay''], fs_null := True\<rparr>),
       (''connection_time_ms_b'', (plain PositiveIntegerField)\<lparr>fs_blank := True, fs_null := True\<rparr>)],
     tb_constraints = [(''pair_participants_are_ordered'', CheckLt ''participant_a'' ''participant_b''),
      (''uniq_pair_per_event'', UniqueTogether [''event'', ''participant_a'', ''participant_b'']),
      (''uniq_pair_participant_a_per_round'', UniqueTogether [''round'', ''participant_a'']),
      (''uniq_pair_participant_b_per_round'', UniqueTogether [''round'', ''participant_b''])],
     tb_indexes = [([], [''round'', ''status'']), ([], [''participant_a'', ''round'']), ([], [''participant_b'', ''round''])],
         tb_ordering = []\<rparr>"

definition model_eventtransitionlog :: "table" where
  "model_eventtransitionlog = \<lparr>tb_fields =
      [(''id'', (plain BigAutoField)\<lparr>fs_primary := True\<rparr>),
       (''event'', plain (ForeignKey ''events.event'' Cascade ''transition_logs'')),
       (''from_status'', plain (CharField 30)),
       (''to_status'', plain (CharField 30)),
       (''transitioned_at'', (plain DateTimeField)\<lparr>fs_default := AutoNowAdd\<rparr>),
       (''leader_id'', plain (CharField 255)),
       (''details'', (plain JSONField)\<lparr>fs_blank := True, fs_default := DCall ''dict''\<rparr>),
       (''is_complete'', (plain BooleanField)\<lparr>fs_default := DBool False\<rparr>)],
     tb_constraints = [],
     tb_indexes = [([], [''event'', ''transitioned_at'']), ([], [''is_complete''])], tb_ordering = [''transitioned_at'']\<rparr>"

definition model_leaderlease :: "table" where
  "model_leaderlease = \<lparr>tb_fields =
      [(''id'', (plain BigAutoField)\<lparr>fs_primary := True\<rparr>),
       (''lease_name'', (plain (CharField 255))\<lparr>fs_unique := True\<rparr>),
       (''leader_id'', plain (CharField 255)),
       (''acquired_at'', plain DateTimeField),
       (''expires_at'', plain DateTimeField),
       (''version'', (plain PositiveIntegerField)\<lparr>fs_default := DInt 1\<rparr>)],
     tb_constraints = [],
     tb_indexes = [([], [''lease_name'', ''expires_at''])], tb_ordering = []\<rparr>"

definition model_operatoractionlog :: "table" where
  "model_operatoractionlog = \<lparr>tb_fields =
      [(''id'', (plain UUIDField)\<lparr>fs_default := DCall ''uuid4'', fs_primary := True\<rparr>),
       (''event'', plain (ForeignKey ''events.event'' Cascade ''operator_logs'')),
       (''round'', (plain (ForeignKey ''events.round'' SetNull ''operator_logs''))\<lparr>fs_blank := True, fs_null := True\<rparr>),
       (''action'', (plain (CharField 16))\<lparr>fs_choices := [''pause'', ''resume'', ''extend'', ''recalculate'']\<rparr>),
       (''details'', (plain JSONField)\<lparr>fs_blank := True, fs_default := DCall ''dict''\<rparr>),
       (''performed_at'', (plain DateTimeField)\<lparr>fs_default := DCall ''now''\<rparr>)],
     tb_constraints = [],
     tb_indexes = [], tb_ordering = [''-performed_at'']\<rparr>"

definition model_disconnectionlog :: "table" where
  "model_disconnectionlog = \<lparr>tb_fields =
      [(''id'', (plain UUIDField)\<lparr>fs_default := DCall ''uuid4'', fs_primary := True\<rparr>),
       (''event'', plain (ForeignKey ''events.event'' Cascade ''disconnection_logs'')),
       (''participant'', plain (ForeignKey ''events.participant'' Cascade ''disconnection_logs'')),
       (''round'', (plain (ForeignKey ''events.round'' SetNull ''disconnection_logs''))\<lparr>fs_blank := True, fs_null := True\<rparr>),
       (''cause'', (plain (CharField 32))\<lparr>fs_choices := [''network'', ''tab_closed'', ''permission_denied''],
         fs_default := DStr ''network'', fs_index := True\<rparr>),
       (''detail'', (plain TextField)\<lparr>fs_blank := True, fs_default := DStr []\<rparr>),
       (''disconnected_at'', (plain DateTimeField)\<lparr>fs_default := DCall ''now'', fs_index := True\<rparr>),
       (''reconnected_at'', (plain DateTimeField)\<lparr>fs_blank := True, fs_null := True\<rparr>)],
     tb_constraints = [],
     tb_indexes = [([], [''event'', ''disconnected_at'']), ([], [''participant'', ''disconnected_at''])],
         tb_ordering = [''-disconnected_at'']\<rparr>"

definition model_participantincidentnote :: "table" where
  "model_participantincidentnote = \<lparr>tb_fields =
      [(''id'', (plain UUIDField)\<lparr>fs_default := DCall ''uuid4'', fs_primary := True\<rparr>),
       (''event'', plain (ForeignKey ''events.event'' Cascade ''incident_notes'')),
       (''participant'', plain (ForeignKey ''events.participant'' Cascade ''incident_notes'')),
       (''operator'', (plain (ForeignKey ''settings.AUTH_USER_MODEL'' SetNull ''operator_incident_notes''))\<lparr>fs_blank := True,
         fs_null := True\<rparr>),
       (''note'', plain TextField),
       (''created_at'', (plain DateTimeField)\<lparr>fs_default := AutoNowAdd, fs_index := True\<rparr>)],
     tb_constraints = [],
     tb_indexes = [], tb_ordering = [''-created_at'']\<rparr>"

definition model_emailverificationtoken :: "table" where
  "model_emailverificationtoken = \<lparr>tb_fields =
      [(''id'', (plain UUIDField)\<lparr>fs_default := DCall ''uuid4'', fs_primary := True\<rparr>),
       (''participant'', plain (ForeignKey ''events.participant'' Cascade ''verification_tokens'')),
       (''token'', (plain (CharField 64))\<lparr>fs_unique := True\<rparr>),
       (''expires_at'', plain DateTimeField),
       (''used_at'', (plain DateTimeField)\<lparr>fs_blank := True, fs_null := True\<rparr>),
       (''created_at'', (plain DateTimeField)\<lparr>fs_default := AutoNowAdd\<rparr>)],
     tb_constraints = [],
     tb_indexes = [([], [''token'']), ([], [''participant'', ''used_at''])], tb_ordering = []\<rparr>"

definition model_termsacceptance :: "table" where
  "model_termsacceptance = \<lparr>tb_fields =
      [(''id'', (plain BigAutoField)\<lparr>fs_primary := True\<rparr>),
       (''participant'', plain (OneToOneField ''events.participant'' Cascade ''terms_acceptance'')),
       (''accepted_at'', (plain DateTimeField)\<lparr>fs_default := AutoNowAdd\<rparr>),
       (''ip_address'', (plain GenericIPAddressField)\<lparr>fs_blank := True, fs_null := True\<rparr>)],
     tb_constraints = [],
     tb_indexes = [], tb_ordering = []\<rparr>"

definition model_devicechecklog :: "table" where
  "model_devicechecklog = \<lparr>tb_fields =
      [(''id'', (plain UUIDField)\<lparr>fs_default := DCall ''uuid4'', fs_primary := True\<rparr>),
       (''event'', (plain (ForeignKey ''events.event'' Cascade ''device_check_logs''))\<lparr>fs_blank := True, fs_null := True\<rparr>),
       (''participant'', (plain (ForeignKey ''events.participant'' SetNull ''device_checks''))\<lparr>fs_blank := True, fs_null := True\<rparr>),
       (''camera_working'', (plain BooleanField)\<lparr>fs_default := DBool False\<rparr>),
       (''mic_working'', (plain BooleanField)\<lparr>fs_default := DBool False\<rparr>),
       (''error_type'', (plain (CharField 64))\<lparr>fs_blank := True, fs_default := DStr []\<rparr>),
       (''user_agent'', (plain TextField)\<lparr>fs_blank := True, fs_default := DStr []\<rparr>),
       (''is_in_app_browser'', (plain BooleanField)\<lparr>fs_default := DBool False\<rparr>),
       (''ip_address'', (plain GenericIPAddressField)\<lparr>fs_blank := True, fs_null := True\<rparr>),
       (''created_at'', (plain DateTimeField)\<lparr>fs_default := AutoNowAdd\<rparr>)],
     tb_constraints = [],
     tb_indexes = [], tb_ordering = [''-created_at'']\<rparr>"

definition model_schema :: schema where
  "model_schema =
     [(''events.event'', model_event),
      (''events.tag'', model_tag),
      (''events.participant'', model_participant),
      (''events.participanttag'', model_participanttag),
      (''events.round'', model_round),
      (''events.pair'', model_pair),
      (''events.eventtransitionlog'', model_eventtransitionlog),
      (''events.leaderlease'', model_leaderlease),
      (''events.operatoractionlog'', model_operatoractionlog),
      (''events.disconnectionlog'', model_disconnectionlog),
      (''events.participantincidentnote'', model_participantincidentnote),
      (''registration.emailverificationtoken'', model_emailverificationtoken),
      (''registration.termsacceptance'', model_termsacceptance),
      (''registration.devicechecklog'', model_devicechecklog)]"

text \<open>The same table up to the order of its parts and the names of its indexes.\<close>

definition same_items :: "'a list \<Rightarrow> 'a list \<Rightarrow> bool" where
  "same_items xs ys \<longleftrightarrow> length xs = length ys \<and> list_all (\<lambda>x. x \<in> set ys) xs \<and> list_all (\<lambda>y. y \<in> set xs) ys"

definition same_table :: "table \<Rightarrow> table \<Rightarrow> bool" where
  "same_table t u \<longleftrightarrow> same_items (tb_fields t) (tb_fields u) \<and> same_items (tb_constraints t) (tb_constraints u) \<and>
     same_items (map snd (tb_indexes t)) (map snd (tb_indexes u)) \<and> tb_ordering t = tb_ordering u"

definition same_schema :: "schema \<Rightarrow> schema \<Rightarrow> bool" where
  "same_schema s u \<longleftrightarrow>
     list_all (\<lambda>k. case map_of s k of None \<Rightarrow> False | Some t \<Rightarrow> (case map_of u k of None \<Rightarrow> False | Some t' \<Rightarrow> same_table t t'))
       (map fst s @ map fst u)"

end
