(* ===== verification/Schema_Props.thy ===== *)
theory Schema_Props
  imports Schema "HOL-Library.Multiset"
begin

text \<open>
  Migrating an empty database gives the tables the models declare, in whatever order the migrations run that
  their dependencies allow: two branches of each fork, and the two applications, touch different tables.
\<close>

section \<open>Steps that commute\<close>

fun run_all :: "('a \<Rightarrow> 's \<Rightarrow> 's option) \<Rightarrow> 'a list \<Rightarrow> 's \<Rightarrow> 's option" where
  "run_all step [] s = Some s"
| "run_all step (x # xs) s = Option.bind (step x s) (run_all step xs)"

lemma run_all_append: "run_all step (xs @ ys) s = Option.bind (run_all step xs s) (run_all step ys)"
proof (induction xs arbitrary: s)
  case (Cons x xs)
  then show ?case by (cases "step x s") simp_all
qed simp

lemma run_all_singleton [simp]: "run_all step [x] s = step x s"
  by (cases "step x s") simp_all

locale commuting_steps =
  fixes step :: "'a \<Rightarrow> 's \<Rightarrow> 's option" and apart :: "'a \<Rightarrow> 'a \<Rightarrow> bool"
  assumes commute: "apart a b \<Longrightarrow> Option.bind (step a s) (step b) = Option.bind (step b s) (step a)"
begin

lemma commute_run:
  assumes "\<forall>y \<in> set ys. apart x y"
  shows "run_all step (x # ys) s = run_all step (ys @ [x]) s"
  using assms
proof (induction ys arbitrary: s)
  case (Cons y ys)
  have "run_all step (x # y # ys) s = Option.bind (Option.bind (step x s) (step y)) (run_all step ys)"
    by (cases "step x s") simp_all
  also have "\<dots> = Option.bind (Option.bind (step y s) (step x)) (run_all step ys)"
    using Cons.prems commute[of x y s] by simp
  also have "\<dots> = Option.bind (step y s) (run_all step (x # ys))" by (cases "step y s") simp_all
  also have "\<dots> = run_all step ((y # ys) @ [x]) s" using Cons by (cases "step y s") simp_all
  finally show ?case .
qed simp

lemma commute_runs:
  assumes "\<forall>x \<in> set xs. \<forall>y \<in> set ys. apart x y"
  shows "run_all step (xs @ ys) s = run_all step (ys @ xs) s"
  using assms
proof (induction xs arbitrary: s)
  case (Cons x xs)
  have "run_all step ((x # xs) @ ys) s = Option.bind (step x s) (run_all step (ys @ xs))" using Cons by (cases "step x s") simp_all
  also have "\<dots> = Option.bind (run_all step (x # ys) s) (run_all step xs)"
    by (cases "step x s") (simp_all add: run_all_append)
  also have "\<dots> = Option.bind (run_all step (ys @ [x]) s) (run_all step xs)" using Cons.prems commute_run[of ys x] by simp
  also have "\<dots> = run_all step (ys @ x # xs) s" by (cases "run_all step ys s") (simp_all add: run_all_append)
  finally show ?case .
qed simp

text \<open>Two orders agree when whatever may stand either way round commutes.\<close>

lemma any_order:
  assumes "mset xs = mset ys" "distinct ys" "sorted_wrt R xs" "sorted_wrt R ys"
    and "\<And>a b. a \<in> set ys \<Longrightarrow> b \<in> set ys \<Longrightarrow> a \<noteq> b \<Longrightarrow> R a b \<Longrightarrow> R b a \<Longrightarrow> apart a b"
  shows "run_all step xs s = run_all step ys s"
  using assms
proof (induction ys arbitrary: xs s)
  case (Cons y ys)
  have "y \<in> set xs" using Cons.prems(1) by (metis list.set_intros(1) mset_eq_setD)
  then obtain as bs where xs: "xs = as @ y # bs" using split_list by metis
  have rest: "mset (as @ bs) = mset ys" using Cons.prems(1) by (simp add: xs)
  have apart: "\<forall>a \<in> set as. apart y a"
  proof
    fix a assume a: "a \<in> set as"
    then have "a \<in> set ys" using rest by (metis Un_iff mset_eq_setD set_append)
    moreover have "R a y" using Cons.prems(3) a by (simp add: xs sorted_wrt_append)
    ultimately show "apart y a" using Cons.prems(2,4,5) by auto
  qed
  have "run_all step xs s = Option.bind (run_all step (as @ [y]) s) (run_all step bs)"
    by (cases "run_all step as s") (simp_all add: xs run_all_append)
  also have "\<dots> = Option.bind (run_all step (y # as) s) (run_all step bs)" using commute_run[OF apart] by simp
  also have "\<dots> = Option.bind (step y s) (run_all step (as @ bs))" by (cases "step y s") (simp_all add: run_all_append)
  also have "\<dots> = Option.bind (step y s) (run_all step ys)"
  proof (rule Option.bind_cong[OF refl])
    fix t
    have "sorted_wrt R (as @ bs)" using Cons.prems(3) by (auto simp: xs sorted_wrt_append)
    then show "run_all step (as @ bs) t = run_all step ys t" using Cons.prems rest by (intro Cons.IH) auto
  qed
  finally show ?case by simp
qed simp

end

section \<open>Operations on different tables\<close>

text \<open>Operations and migrations on the tables as a function of their name.\<close>

definition op_key :: "string \<times> migration_op \<Rightarrow> string option" where
  "op_key x = map_option (\<lambda>m. fst x @ ''.'' @ m) (op_model (snd x))"

definition map_op :: "string \<times> migration_op \<Rightarrow> (string \<Rightarrow> table option) \<Rightarrow> (string \<Rightarrow> table option) option" where
  "map_op x m = (case op_key x of None \<Rightarrow> Some m | Some k \<Rightarrow> map_option (\<lambda>t. m(k \<mapsto> t)) (edit_table (snd x) (m k)))"

definition ops_of :: "migration \<Rightarrow> (string \<times> migration_op) list" where
  "ops_of mg = map (Pair (mg_app mg)) (mg_operations mg)"

definition map_migration :: "migration \<Rightarrow> (string \<Rightarrow> table option) \<Rightarrow> (string \<Rightarrow> table option) option" where
  "map_migration mg = run_all map_op (ops_of mg)"

definition touched :: "migration \<Rightarrow> string option list" where
  "touched mg = remdups (filter (\<lambda>k. k \<noteq> None) (map op_key (ops_of mg)))"

definition untouching :: "migration \<Rightarrow> migration \<Rightarrow> bool" where
  "untouching a b = list_all (\<lambda>k. k \<notin> set (touched b)) (touched a)"

interpretation ops: commuting_steps map_op "\<lambda>x y. op_key x = None \<or> op_key x \<noteq> op_key y"
proof
  fix x y s assume "op_key x = None \<or> op_key x \<noteq> op_key y"
  then show "Option.bind (map_op x s) (map_op y) = Option.bind (map_op y s) (map_op x)"
    by (cases "op_key x"; cases "op_key y")
      (auto simp: map_op_def fun_upd_twist map_option_case split: option.split)
qed
interpretation migs: commuting_steps map_migration untouching
proof
  fix a b s assume "untouching a b"
  then have "op_key x \<notin> set (touched b)" if "x \<in> set (ops_of a)" "op_key x \<noteq> None" for x
    using that by (auto simp: untouching_def touched_def list_all_iff)
  moreover have "op_key y \<in> set (touched b)" if "y \<in> set (ops_of b)" "op_key y \<noteq> None" for y
    using that by (simp add: touched_def)
  ultimately have apart: "\<forall>x \<in> set (ops_of a). \<forall>y \<in> set (ops_of b). op_key x = None \<or> op_key x \<noteq> op_key y" by metis
  have "Option.bind (map_migration a s) (map_migration b) = run_all map_op (ops_of a @ ops_of b) s"
    by (simp add: map_migration_def[abs_def] run_all_append)
  also have "\<dots> = run_all map_op (ops_of b @ ops_of a) s" by (rule ops.commute_runs[OF apart])
  also have "\<dots> = Option.bind (map_migration b s) (map_migration a)" by (simp add: map_migration_def[abs_def] run_all_append)
  finally show "Option.bind (map_migration a s) (map_migration b) = Option.bind (map_migration b s) (map_migration a)" .
qed

section \<open>Tables by name\<close>

lemma apply_op_map: "map_option map_of (apply_op app op s) = map_op (app, op) (map_of s)"
  by (cases "op_model op"; cases "edit_table op (map_of s (app @ ''.'' @ the (op_model op)))")
    (simp_all add: apply_op_def map_op_def op_key_def update_conv')

lemma run_ops_map: "map_option map_of (run_ops app ops s) = run_all map_op (map (Pair app) ops) (map_of s)"
proof (induction ops arbitrary: s)
  case (Cons op ops)
  have "map_op (app, op) (map_of s) = map_option map_of (apply_op app op s)" by (rule apply_op_map[symmetric])
  then show ?case using Cons by (cases "apply_op app op s") simp_all
qed simp

lemma migrate_map: "map_option map_of (migrate mgs s) = run_all map_migration mgs (map_of s)"
proof (induction mgs arbitrary: s)
  case (Cons mg mgs)
  have "map_migration mg (map_of s) = map_option map_of (apply_migration mg s)"
    by (simp add: map_migration_def ops_of_def apply_migration_def run_ops_map)
  then show ?case using Cons by (cases "apply_migration mg s") simp_all
qed simp

text \<open>The same tables, name by name.\<close>

definition agree :: "(string \<Rightarrow> table option) \<Rightarrow> (string \<Rightarrow> table option) \<Rightarrow> bool" where
  "agree m n \<longleftrightarrow> (\<forall>k. rel_option same_table (m k) (n k))"

lemma same_schema_agree: "same_schema s u \<Longrightarrow> agree (map_of s) (map_of u)"
  unfolding agree_def
proof
  fix k assume same: "same_schema s u"
  show "rel_option same_table (map_of s k) (map_of u k)"
  proof (cases "k \<in> fst ` set s \<union> fst ` set u")
    case True
    then have "case map_of s k of None \<Rightarrow> False | Some t \<Rightarrow> (case map_of u k of None \<Rightarrow> False | Some t' \<Rightarrow> same_table t t')"
      using same unfolding same_schema_def list_all_iff by (metis Un_iff image_set set_append)
    then show ?thesis by (auto split: option.splits)
  next
    case False
    then have "map_of s k = None" "map_of u k = None" by (simp_all add: map_of_eq_None_iff)
    then show ?thesis by simp
  qed
qed

section \<open>Orders\<close>

definition position :: "'a list \<Rightarrow> 'a \<Rightarrow> nat" where
  "position xs x = length (takeWhile (\<lambda>y. y \<noteq> x) xs)"

lemma position_nth: "distinct xs \<Longrightarrow> i < length xs \<Longrightarrow> position xs (xs ! i) = i"
proof (induction xs arbitrary: i)
  case (Cons x xs)
  then show ?case by (cases i) (auto simp: position_def)
qed simp

lemma in_order_before:
  assumes "in_order done_ids mgs" "i < length mgs" "d \<in> set (mg_depends (mgs ! i))"
  shows "d \<in> set done_ids \<or> (\<exists>j < i. migration_id (mgs ! j) = d)"
  using assms
proof (induction mgs arbitrary: done_ids i)
  case (Cons mg mgs)
  show ?case
  proof (cases i)
    case 0
    then show ?thesis using Cons.prems by (auto simp: list_all_iff)
  next
    case (Suc k)
    then have "d \<in> set (migration_id mg # done_ids) \<or> (\<exists>j < k. migration_id (mgs ! j) = d)"
      using Cons.prems by (intro Cons.IH) auto
    then show ?thesis using Suc by fastforce
  qed
qed simp

section \<open>This repository's migrations\<close>

text \<open>Which migration directly needs which, and which pairs touch a common table, by position in \<open>all_migrations\<close>.\<close>

definition edges :: "(nat \<times> nat) list" where
  "edges = [(0, 1), (1, 2), (2, 3), (3, 4), (4, 5), (5, 6), (5, 7), (6, 8), (8, 9), (7, 9), (9, 10), (10, 11), (11, 12), (11, 13),
     (12, 14), (13, 14), (14, 15), (2, 16), (3, 17), (16, 17)]"

definition conflicts :: "(nat \<times> nat) list" where
  "conflicts = [(0, 1), (0, 2), (0, 3), (0, 4), (0, 5), (0, 6), (0, 10), (0, 12), (0, 13), (0, 15), (1, 2), (1, 10), (1, 13),
     (2, 10), (2, 13), (3, 15), (4, 5), (4, 6), (4, 12), (5, 6), (5, 12), (6, 8), (6, 12), (7, 10), (10, 13), (11, 15)]"

lemma migration_ids: "distinct (map migration_id all_migrations)" "length all_migrations = 18"
  by code_simp+

lemma edges_depend: "list_all (\<lambda>(k, l). migration_id (all_migrations ! k) \<in> set (mg_depends (all_migrations ! l))) edges"
  by code_simp

definition tables_of :: "string list list" where
  "tables_of = [[''events.tag'', ''events.event'', ''events.round'', ''events.pair'', ''events.participanttag'', ''events.participant''],
     [''events.pair''], [''events.pair''], [''events.participant''], [''events.event''], [''events.event''],
     [''events.leaderlease'', ''events.eventtransitionlog'', ''events.event''], [''events.operatoractionlog''],
     [''events.eventtransitionlog'', ''events.leaderlease''], [], [''events.pair'', ''events.operatoractionlog''],
     [''events.participantincidentnote'', ''events.disconnectionlog''], [''events.event''], [''events.pair''], [],
     [''events.participant'', ''events.disconnectionlog''],
     [''registration.termsacceptance'', ''registration.emailverificationtoken''], [''registration.devicechecklog'']]"

lemma touched_tables: "map touched all_migrations = map (map Some) tables_of"
  by code_simp

lemma tables_apart: "list_all (\<lambda>i. list_all (\<lambda>j. (i, j) \<in> set conflicts \<or> set (tables_of ! i) \<inter> set (tables_of ! j) = {}) [Suc i..<18]) [0..<18]"
  by code_simp

lemma canonical_order: "(case migrate all_migrations [] of None \<Rightarrow> False | Some s \<Rightarrow> same_schema s model_schema)"
  by code_simp

lemma untouching_pairs:
  assumes "i < 18" "j < 18" "i \<noteq> j" "(i, j) \<notin> set conflicts" "(j, i) \<notin> set conflicts"
  shows "untouching (all_migrations ! i) (all_migrations ! j)"
proof -
  have t: "touched (all_migrations ! k) = map Some (tables_of ! k)" if "k < 18" for k
  proof -
    have len: "length all_migrations = 18" "length tables_of = 18" using migration_ids(2) by (simp_all add: tables_of_def)
    have "touched (all_migrations ! k) = map touched all_migrations ! k" using that len by simp
    also have "\<dots> = map Some (tables_of ! k)" using that len by (simp only: touched_tables) simp
    finally show ?thesis .
  qed
  have apart: "set (tables_of ! k) \<inter> set (tables_of ! l) = {}" if "k < l" "l < 18" "(k, l) \<notin> set conflicts" for k l
  proof -
    have "k \<in> set [0..<18]" "l \<in> set [Suc k..<18]" using that by simp_all
    then show ?thesis using tables_apart that(3) unfolding list_all_iff by blast
  qed
  have "set (tables_of ! i) \<inter> set (tables_of ! j) = {}"
    using assms apart[of i j] apart[of j i] by (cases "i < j") (auto simp: Int_commute)
  then show ?thesis using assms(1,2) by (auto simp: untouching_def t list_all_iff)
qed

text \<open>Where the migrations stand in an order that respects the dependencies.\<close>

lemma plan_positions:
  assumes plan: "mset plan = mset all_migrations" "in_order [] plan"
  shows "\<forall>(i, j) \<in> set conflicts. position plan (all_migrations ! i) < position plan (all_migrations ! j)"
proof -
  have ids: "distinct (map migration_id plan)" using plan(1) migration_ids(1) by (metis mset_eq_imp_distinct_iff mset_map)
  then have dist: "distinct plan" by (simp add: distinct_map)
  have members: "set plan = set all_migrations" using plan(1) by (rule mset_eq_setD)
  have step: "position plan (all_migrations ! k) < position plan (all_migrations ! l)" if e: "(k, l) \<in> set edges" for k l
  proof -
    have kl: "k < 18" "l < 18" using e by (auto simp: edges_def)
    then have in_plan: "all_migrations ! k \<in> set plan" "all_migrations ! l \<in> set plan" using members migration_ids(2) by simp_all
    then obtain u v where u: "u < length plan" "plan ! u = all_migrations ! k" and v: "v < length plan" "plan ! v = all_migrations ! l"
      by (metis in_set_conv_nth)
    have "migration_id (all_migrations ! k) \<in> set (mg_depends (plan ! v))" using edges_depend e v(2) by (auto simp: list_all_iff)
    from in_order_before[OF plan(2) v(1) this] obtain w where w: "w < v" "migration_id (plan ! w) = migration_id (plan ! u)" using u(2) by auto
    have lt: "w < length plan" using w(1) v(1) by simp
    then have "map migration_id plan ! w = map migration_id plan ! u" using w(2) u(1) by simp
    then have "w = u" using nth_eq_iff_index_eq[OF ids, of w u] lt u(1) by simp
    moreover have "position plan (all_migrations ! k) = u" "position plan (all_migrations ! l) = v"
      using position_nth[OF dist] u v by metis+
    ultimately show ?thesis using w(1) by simp
  qed
  define q where "q k = position plan (all_migrations ! k)" for k
  have "\<forall>(k, l) \<in> set edges. q k < q l" using step by (auto simp: q_def)
  then have "\<forall>(i, j) \<in> set conflicts. q i < q j" by (simp add: edges_def conflicts_def)
  then show ?thesis by (simp add: q_def)
qed

text \<open>
  C32. Migrating an empty database runs through and ends with exactly the tables the models declare - columns with
  their types, defaults and relations, constraints and indexes - in every order of the eighteen migrations of the two
  applications that respects their dependencies.
\<close>

theorem migrations_match_models:
  assumes plan: "mset plan = mset all_migrations" "in_order [] plan"
  shows "\<exists>s. migrate plan [] = Some s \<and> agree (map_of s) (map_of model_schema)"
proof -
  let ?R = "\<lambda>a b. \<not> (\<exists>(i, j) \<in> set conflicts. b = all_migrations ! i \<and> a = all_migrations ! j)"
  have len: "length all_migrations = 18" and dist: "distinct all_migrations" using migration_ids by (simp_all add: distinct_map)
  have dist_plan: "distinct plan" using plan(1) dist mset_eq_imp_distinct_iff by blast
  have small: "i < j \<and> j < 18" if "(i, j) \<in> set conflicts" for i j using that by (auto simp: conflicts_def)
  have "run_all map_migration plan Map.empty = run_all map_migration all_migrations Map.empty"
  proof (rule migs.any_order[OF plan(1) dist, of ?R])
    show "sorted_wrt ?R plan"
      unfolding sorted_wrt_iff_nth_less
    proof (intro allI impI notI)
      fix u v assume uv: "u < v" "v < length plan" and "\<exists>(i, j) \<in> set conflicts. plan ! v = all_migrations ! i \<and> plan ! u = all_migrations ! j"
      then have "position plan (plan ! v) < position plan (plan ! u)" using plan_positions[OF plan] by auto
      then show False using uv dist_plan by (simp add: position_nth)
    qed
    show "sorted_wrt ?R all_migrations"
      unfolding sorted_wrt_iff_nth_less
    proof (intro allI impI notI)
      fix u v assume uv: "u < v" "v < length all_migrations"
        and "\<exists>(i, j) \<in> set conflicts. all_migrations ! v = all_migrations ! i \<and> all_migrations ! u = all_migrations ! j"
      then obtain i j where "(i, j) \<in> set conflicts" "all_migrations ! v = all_migrations ! i" "all_migrations ! u = all_migrations ! j" by blast
      then show False using uv small[of i j] dist len by (simp add: nth_eq_iff_index_eq)
    qed
    fix a b assume ab: "a \<in> set all_migrations" "b \<in> set all_migrations" "a \<noteq> b" "?R a b" "?R b a"
    then obtain i j where "a = all_migrations ! i" "b = all_migrations ! j" "i < 18" "j < 18" using len by (metis in_set_conv_nth)
    then show "untouching a b" using ab(3-5) untouching_pairs[of i j] by blast
  qed
  then have "map_option map_of (migrate plan []) = map_option map_of (migrate all_migrations [])" by (simp add: migrate_map)
  moreover obtain c where "migrate all_migrations [] = Some c" "same_schema c model_schema"
    using canonical_order by (auto split: option.splits)
  ultimately show ?thesis using same_schema_agree by auto
qed

lemma migrations_match_models_witness:
  "\<exists>s. migrate (take 15 all_migrations @ [registration_0001, registration_0002, events_0014]) [] = Some s \<and>
     agree (map_of s) (map_of model_schema)"
proof (rule migrations_match_models)
  show "in_order [] (take 15 all_migrations @ [registration_0001, registration_0002, events_0014])" by code_simp
  have "drop 15 all_migrations = [events_0014, registration_0001, registration_0002]" by (simp add: all_migrations_def)
  then have "mset all_migrations = mset (take 15 all_migrations) + mset [events_0014, registration_0001, registration_0002]"
    by (metis append_take_drop_id mset_append)
  then show "mset (take 15 all_migrations @ [registration_0001, registration_0002, events_0014]) = mset all_migrations" by simp
qed

end
