(* ===== verification/Spec2Isabelle.thy ===== *)
theory Spec2Isabelle
  imports Matching_Total Event_State Leadership Scheduling Operator Failover_Props Consumer_Props Preconnect
    Call_Room_Props Clock_Sync Registration_Props Views_Props Commands_Props Matching_Cost
    Fixtures_Props Redaction_Props Load_Props Deployment_Props Schema_Props
begin

text \<open>
  Verification of the speed-networking event server (Django project under \<open>src/\<close>).
\<close>

end
